(* ===== verification/Prelude.thy ===== *)
theory Prelude
  imports Complex_Main
    "HOL-Library.AList"
    "HOL-Library.Char_ord"
    "HOL-Library.List_Lexorder"
    "HOL-Library.Product_Lexorder"
begin

text \<open>
  The vocabulary every component shares.

  \<^item> \<^bold>\<open>Results.\<close> An operation of the program that may raise returns \<open>'e + 'a\<close>: \<open>Inl\<close> is the
    exception, \<open>Inr\<close> the value. \<open>rbind\<close> sequences two such operations and stops at the first
    exception, as a Python statement sequence does.
  \<^item> \<^bold>\<open>Dictionaries.\<close> A Python \<^verbatim>\<open>dict\<close> keeps insertion order and replaces a present key in place, so
    it is an association list with distinct keys: \<open>map_of\<close> reads it, \<open>AList.update\<close> is
    \<^verbatim>\<open>d[k] = v\<close> and \<open>AList.delete\<close> is \<^verbatim>\<open>d.pop(k, None)\<close>.
  \<^item> \<^bold>\<open>Order.\<close> Strings are compared character by character and tuples lexicographically, as Python
    compares them; \<open>sort_key\<close> is stable, as \<^verbatim>\<open>sorted\<close> is.
  \<^item> \<^bold>\<open>Time.\<close> A timezone-aware \<^verbatim>\<open>datetime\<close> is the number of microseconds since the epoch, and a
    \<^verbatim>\<open>timedelta\<close> a number of microseconds.
\<close>

section \<open>Collections of rewrite rules\<close>

named_theorems dict_simps \<open>rewrite rules for dictionaries as association lists\<close>
named_theorems arith_exact \<open>rules under which rounded arithmetic is exact\<close>

section \<open>Names of the model's types\<close>

type_synonym datetime = int
type_synonym timedelta = int
type_synonym uuid = string
type_synonym ('k, 'v) dict = "('k \<times> 'v) list"

definition microseconds :: "int \<Rightarrow> timedelta" where
  "microseconds s = s * 1000000"

section \<open>Results\<close>

definition rbind :: "'e + 'a \<Rightarrow> ('a \<Rightarrow> 'e + 'b) \<Rightarrow> 'e + 'b" where
  "rbind m f = (case m of Inl e \<Rightarrow> Inl e | Inr x \<Rightarrow> f x)"

lemma rbind_simps [simp]:
  "rbind (Inl e) f = Inl e"
  "rbind (Inr x) f = f x"
  by (simp_all add: rbind_def)

lemma rbind_Inr_iff: "rbind m f = Inr y \<longleftrightarrow> (\<exists>x. m = Inr x \<and> f x = Inr y)"
  by (cases m) auto

lemma rbind_InrE [elim!]:
  assumes "rbind m f = Inr y"
  obtains x where "m = Inr x" "f x = Inr y"
  using assms by (auto simp: rbind_Inr_iff)

text \<open>A loop whose body may raise: the state after the last element, or the first exception.\<close>

fun rfold :: "('a \<Rightarrow> 's \<Rightarrow> 'e + 's) \<Rightarrow> 'a list \<Rightarrow> 's \<Rightarrow> 'e + 's" where
  "rfold f [] s = Inr s"
| "rfold f (x # xs) s = (case f x s of Inl e \<Rightarrow> Inl e | Inr s' \<Rightarrow> rfold f xs s')"

text \<open>An invariant of the body is an invariant of the loop.\<close>

lemma rfold_invariant:
  assumes "rfold f xs s = Inr s'" and "P s"
    and "\<And>x s s'. x \<in> set xs \<Longrightarrow> P s \<Longrightarrow> f x s = Inr s' \<Longrightarrow> P s'"
  shows "P s'"
  using assms
proof (induction xs arbitrary: s)
  case (Cons x xs)
  then obtain t where t: "f x s = Inr t" "rfold f xs t = Inr s'"
    by (auto split: sum.splits)
  moreover have "P t"
    using Cons.prems t by (meson list.set_intros(1))
  ultimately show ?case
    using Cons.IH[of t] Cons.prems(3) by (meson list.set_intros(2))
qed simp

lemma rfold_append: "rfold f (xs @ ys) s = rbind (rfold f xs s) (rfold f ys)"
  by (induction xs arbitrary: s) (auto split: sum.splits)

section \<open>Dictionaries\<close>

abbreviation dict_get :: "('k, 'v) dict \<Rightarrow> 'k \<Rightarrow> 'v \<Rightarrow> 'v" where
  "dict_get d k v \<equiv> case_option v id (map_of d k)"

definition dict_setdefault :: "'k \<Rightarrow> 'v \<Rightarrow> ('k, 'v) dict \<Rightarrow> ('k, 'v) dict" where
  "dict_setdefault k v d = (if map_of d k = None then AList.update k v d else d)"

definition dict_of :: "('k \<times> 'v) list \<Rightarrow> ('k, 'v) dict" where
  "dict_of kvs = foldl (\<lambda>d (k, v). AList.update k v d) [] kvs"

abbreviation distinct_keys :: "('k, 'v) dict \<Rightarrow> bool" where
  "distinct_keys d \<equiv> distinct (map fst d)"

lemma map_of_update [dict_simps, simp]: "map_of (AList.update k v d) = (map_of d)(k \<mapsto> v)"
  by (rule update_conv')

lemma map_of_delete [dict_simps, simp]: "map_of (AList.delete k d) = (map_of d)(k := None)"
  by (rule delete_conv')

lemma map_of_setdefault [dict_simps]:
  "map_of (dict_setdefault k v d) k' =
     (if k' = k then Some (dict_get d k v) else map_of d k')"
  by (auto simp: dict_setdefault_def split: option.splits)

lemma distinct_keys_update [dict_simps, simp]:
  "distinct_keys d \<Longrightarrow> distinct_keys (AList.update k v d)"
  by (rule distinct_update)

lemma distinct_keys_delete [dict_simps, simp]:
  "distinct_keys d \<Longrightarrow> distinct_keys (AList.delete k d)"
  by (rule distinct_delete)

lemma distinct_keys_setdefault [dict_simps, simp]:
  "distinct_keys d \<Longrightarrow> distinct_keys (dict_setdefault k v d)"
  by (simp add: dict_setdefault_def)

lemma set_update_subset: "set (AList.update k v d) \<subseteq> insert (k, v) (set d)"
  by (induction d) auto

lemma keys_update: "fst ` set (AList.update k v d) = insert k (fst ` set d)"
  using dom_update[of k v d] by simp

lemma dict_of_snoc: "dict_of (kvs @ [(k, v)]) = AList.update k v (dict_of kvs)"
  by (simp add: dict_of_def)

lemma distinct_keys_dict_of [dict_simps, simp]: "distinct_keys (dict_of kvs)"
proof (induction kvs rule: rev_induct)
  case (snoc kv kvs)
  then show ?case by (cases kv) (simp add: dict_of_snoc)
qed (simp add: dict_of_def)

text \<open>A dictionary built from pairs holds the last value given for each key.\<close>

lemma map_of_dict_of: "map_of (dict_of kvs) = map_of (rev kvs)"
proof (induction kvs rule: rev_induct)
  case (snoc kv kvs)
  then show ?case by (cases kv) (simp add: dict_of_snoc)
qed (simp add: dict_of_def)

lemma keys_dict_of: "fst ` set (dict_of kvs) = fst ` set kvs"
proof (induction kvs rule: rev_induct)
  case (snoc kv kvs)
  then show ?case by (cases kv) (simp add: dict_of_snoc keys_update)
qed (simp add: dict_of_def)

text \<open>Reading a dictionary that was reversed, filtered or sorted by key.\<close>

lemma map_of_rev_distinct: "distinct_keys d \<Longrightarrow> map_of (rev d) = map_of d"
  by (rule map_of_inject_set[THEN iffD2]) (auto simp: rev_map[symmetric])

lemma distinct_keys_sort_key: "distinct_keys d \<Longrightarrow> distinct_keys (sort_key f d)"
  by (simp add: distinct_map)

lemma map_of_filter_distinct:
  assumes "distinct_keys d"
  shows "map_of (filter P d) k = (case map_of d k of None \<Rightarrow> None | Some v \<Rightarrow> if P (k, v) then Some v else None)"
  using assms
proof (induction d)
  case (Cons kv d)
  have "fst kv \<notin> fst ` set d" using Cons.prems by simp
  then have "map_of d (fst kv) = None" by (simp add: map_of_eq_None_iff)
  then show ?case using Cons by (cases kv) auto
qed simp

lemma map_of_sort_key_fst:
  assumes "distinct_keys d"
  shows "map_of (sort_key fst d) = map_of d"
proof -
  have "distinct_keys (sort_key fst d)" using assms by (rule distinct_keys_sort_key)
  then show ?thesis using assms by (metis map_of_eqI map_of_inject_set set_map set_sort)
qed

section \<open>Lists\<close>

lemma sort_key_set [simp]: "set (sort_key f xs) = set xs"
  by simp

lemma find_Some_iff2: "List.find P xs = Some x \<Longrightarrow> P x \<and> x \<in> set xs"
  by (auto simp: find_Some_iff)

lemma find_append:
  "List.find P (xs @ ys) = (case List.find P xs of None \<Rightarrow> List.find P ys | Some x \<Rightarrow> Some x)"
  by (induction xs) auto

section \<open>Actions: state that survives an exception\<close>

text \<open>
  A method that changes its object may raise after some of the changes: the object keeps them. An
  action maps a state to its outcome and the new state, so the state an exception leaves behind is
  part of the model.
\<close>

type_synonym ('e, 's, 'a) act = "'s \<Rightarrow> ('e + 'a) \<times> 's"

definition aret :: "'a \<Rightarrow> ('e, 's, 'a) act" where
  "aret x s = (Inr x, s)"

definition athrow :: "'e \<Rightarrow> ('e, 's, 'a) act" where
  "athrow e s = (Inl e, s)"

definition abind :: "('e, 's, 'a) act \<Rightarrow> ('a \<Rightarrow> ('e, 's, 'b) act) \<Rightarrow> ('e, 's, 'b) act" where
  "abind m f s = (case m s of (Inl e, s') \<Rightarrow> (Inl e, s') | (Inr x, s') \<Rightarrow> f x s')"

lemma act_simps [simp]:
  "aret x s = (Inr x, s)"
  "athrow e s = (Inl e, s)"
  by (simp_all add: aret_def athrow_def)

text \<open>A loop of actions, stopped by the first exception.\<close>

fun aforeach :: "('a \<Rightarrow> ('e, 's, unit) act) \<Rightarrow> 'a list \<Rightarrow> ('e, 's, unit) act" where
  "aforeach f [] s = (Inr (), s)"
| "aforeach f (x # xs) s =
     (case f x s of (Inl e, s') \<Rightarrow> (Inl e, s') | (Inr _, s') \<Rightarrow> aforeach f xs s')"

text \<open>An invariant that the body keeps, whether it returns or raises, is kept by the loop.\<close>

lemma aforeach_invariant:
  assumes "P s" and "\<And>x s. x \<in> set xs \<Longrightarrow> P s \<Longrightarrow> P (snd (f x s))"
  shows "P (snd (aforeach f xs s))"
  using assms
proof (induction xs arbitrary: s)
  case (Cons x xs)
  obtain r t where f: "f x s = (r, t)" by (cases "f x s")
  then have "P t" using Cons.prems by (metis list.set_intros(1) snd_conv)
  moreover from this have "P (snd (aforeach f xs t))" using Cons by simp
  ultimately show ?case by (simp add: f split: sum.splits)
qed simp

text \<open>
  A triple for actions: from a state in \<open>P\<close>, a returned value and its state are in \<open>Q\<close>, an exception
  and the state it leaves are in \<open>E\<close>. An action always ends, so the triple is about every run.
\<close>

definition triple ::
  "('s \<Rightarrow> bool) \<Rightarrow> ('e, 's, 'a) act \<Rightarrow> ('a \<Rightarrow> 's \<Rightarrow> bool) \<Rightarrow> ('e \<Rightarrow> 's \<Rightarrow> bool) \<Rightarrow> bool"
where
  "triple P m Q E \<longleftrightarrow> (\<forall>s. P s \<longrightarrow> (case m s of (Inl e, t) \<Rightarrow> E e t | (Inr x, t) \<Rightarrow> Q x t))"

lemma tripleI:
  assumes "\<And>s e t. P s \<Longrightarrow> m s = (Inl e, t) \<Longrightarrow> E e t" "\<And>s x t. P s \<Longrightarrow> m s = (Inr x, t) \<Longrightarrow> Q x t"
  shows "triple P m Q E"
  using assms by (auto simp: triple_def split: prod.splits sum.splits)

text \<open>A condition on the state that the action reaches, however it ends.\<close>

lemma triple_snd: "(\<And>s. P s \<Longrightarrow> R (snd (m s))) \<Longrightarrow> triple P m (\<lambda>_. R) (\<lambda>_. R)"
  by (rule tripleI) (metis snd_conv)+

lemma triple_snd_iff: "triple P m (\<lambda>_. R) (\<lambda>_. R) \<longleftrightarrow> (\<forall>s. P s \<longrightarrow> R (snd (m s)))"
  by (simp add: triple_def split_beta split: sum.splits)

lemma triple_returns: "triple P m Q E \<Longrightarrow> P s \<Longrightarrow> m s = (Inr x, t) \<Longrightarrow> Q x t"
  by (force simp: triple_def)

lemma triple_raises: "triple P m Q E \<Longrightarrow> P s \<Longrightarrow> m s = (Inl e, t) \<Longrightarrow> E e t"
  by (force simp: triple_def)

lemma triple_weaken:
  assumes "triple P m Q E" "\<And>s. P' s \<Longrightarrow> P s" "\<And>x s. Q x s \<Longrightarrow> Q' x s" "\<And>e s. E e s \<Longrightarrow> E' e s"
  shows "triple P' m Q' E'"
  by (rule tripleI) (meson assms triple_returns triple_raises)+

lemma triple_aret: "(\<And>s. P s \<Longrightarrow> Q x s) \<Longrightarrow> triple P (aret x) Q E"
  by (simp add: triple_def)

lemma triple_athrow: "(\<And>s. P s \<Longrightarrow> E e s) \<Longrightarrow> triple P (athrow e) Q E"
  by (simp add: triple_def)

lemma triple_abind:
  assumes "triple P m R E" "\<And>x. triple (R x) (f x) Q E"
  shows "triple P (abind m f) Q E"
proof (rule tripleI)
  fix s e t
  assume "P s" "abind m f s = (Inl e, t)"
  then consider "m s = (Inl e, t)" | x u where "m s = (Inr x, u)" "f x u = (Inl e, t)"
    by (auto simp: abind_def split: prod.splits sum.splits)
  then show "E e t" by cases (meson assms \<open>P s\<close> triple_returns triple_raises)+
next
  fix s x t
  assume "P s" "abind m f s = (Inr x, t)"
  then obtain y u where "m s = (Inr y, u)" "f y u = (Inr x, t)"
    by (auto simp: abind_def split: prod.splits sum.splits)
  then show "Q x t" by (meson assms \<open>P s\<close> triple_returns)
qed

text \<open>A loop keeps what every turn keeps, and raises only as a turn does.\<close>

lemma triple_aforeach:
  assumes "\<And>x. x \<in> set xs \<Longrightarrow> triple P (f x) (\<lambda>_. P) E"
  shows "triple P (aforeach f xs) (\<lambda>_. P) E"
  using assms
proof (induction xs)
  case (Cons x xs)
  have "aforeach f (x # xs) = abind (f x) (\<lambda>_. aforeach f xs)"
    by (auto simp: abind_def fun_eq_iff split: prod.splits sum.splits)
  moreover have "triple P (abind (f x) (\<lambda>_. aforeach f xs)) (\<lambda>_. P) E"
    by (rule triple_abind[where R = "\<lambda>_. P"]) (use Cons in auto)
  ultimately show ?case by simp
qed (simp add: triple_def)

lemma triple_if:
  assumes "b \<Longrightarrow> triple P m Q E" "\<not> b \<Longrightarrow> triple P n Q E"
  shows "triple P (if b then m else n) Q E"
  using assms by simp

text \<open>
  The body of a \<^verbatim>\<open>try\<close>: its outcome as a value, so that the code after it can tell which handler
  runs.
\<close>

definition attempt :: "('e, 's, 'a) act \<Rightarrow> ('e, 's, 'e + 'a) act" where
  "attempt m s = (case m s of (r, t) \<Rightarrow> (Inr r, t))"

lemma triple_attempt:
  assumes "triple P m Q R"
  shows "triple P (attempt m) (\<lambda>r t. case r of Inl e \<Rightarrow> R e t | Inr x \<Rightarrow> Q x t) E"
  using assms by (simp add: triple_def attempt_def split_beta)

lemma snd_attempt [simp]: "snd (attempt m s) = snd (m s)"
  by (simp add: attempt_def split_beta)

section \<open>Decimal text of a counter\<close>

definition digit_char :: "nat \<Rightarrow> char" where
  "digit_char n = ''0123456789'' ! (n mod 10)"

fun nat_str :: "nat \<Rightarrow> string" where
  "nat_str n = (if n < 10 then [digit_char n] else nat_str (n div 10) @ [digit_char n])"

declare nat_str.simps [simp del]

lemma digit_char_inj: "digit_char m = digit_char n \<Longrightarrow> m mod 10 = n mod 10"
proof -
  assume "digit_char m = digit_char n"
  then have "''0123456789'' ! (m mod 10) = ''0123456789'' ! (n mod 10)"
    by (simp only: digit_char_def)
  moreover have "distinct ''0123456789''" by simp
  moreover have "m mod 10 < length ''0123456789''" "n mod 10 < length ''0123456789''" by simp_all
  ultimately show ?thesis by (metis nth_eq_iff_index_eq)
qed

lemma nat_str_Nil [simp]: "nat_str n \<noteq> []" "[] \<noteq> nat_str n"
  by (subst nat_str.simps, simp)+

text \<open>Distinct counters have distinct texts.\<close>

lemma nat_str_inj: "nat_str m = nat_str n \<Longrightarrow> m = n"
proof (induction m arbitrary: n rule: nat_str.induct)
  case (1 m)
  have eq: "m mod 10 = n mod 10"
    using "1.prems" digit_char_inj[of m n] by (auto simp: nat_str.simps[of m] nat_str.simps[of n]
        split: if_splits)
  show ?case
  proof (cases "m < 10")
    case True
    then have "n < 10" using "1.prems"
      by (auto simp: nat_str.simps[of m] nat_str.simps[of n] split: if_splits)
    with True eq show ?thesis by simp
  next
    case False
    then have "\<not> n < 10" "nat_str (m div 10) = nat_str (n div 10)" using "1.prems"
      by (auto simp: nat_str.simps[of m] nat_str.simps[of n] split: if_splits)
    with "1.IH"[OF False, of "n div 10"] eq show ?thesis
      by (metis div_mult_mod_eq)
  qed
qed


section \<open>Text\<close>

text \<open>
  \<^verbatim>\<open>str.strip\<close> and \<^verbatim>\<open>str.lower\<close> on ASCII text: the whitespace is the code points 9 to 13 and
  28 to 32, the letters shifted are A to Z. \<^verbatim>\<open>s.split("-", maxsplit=1)\<close> unpacked into two names
  raises when there is no hyphen.
\<close>

definition py_space :: "char \<Rightarrow> bool" where
  "py_space c \<longleftrightarrow> (let n = of_char c :: nat in 9 \<le> n \<and> n \<le> 13 \<or> 28 \<le> n \<and> n \<le> 32)"

definition py_strip :: "string \<Rightarrow> string" where
  "py_strip s = rev (dropWhile py_space (rev (dropWhile py_space s)))"

definition lower_char :: "char \<Rightarrow> char" where
  "lower_char c = (let n = of_char c :: nat in if 65 \<le> n \<and> n \<le> 90 then char_of (n + 32) else c)"

definition py_lower :: "string \<Rightarrow> string" where
  "py_lower s = map lower_char s"

fun split_hyphen :: "string \<Rightarrow> (string \<times> string) option" where
  "split_hyphen [] = None"
| "split_hyphen (c # cs) =
     (if c = CHR ''-'' then Some ([], cs)
      else map_option (\<lambda>(a, b). (c # a, b)) (split_hyphen cs))"

lemma split_hyphen_Some: "split_hyphen s = Some (a, b) \<Longrightarrow> s = a @ ''-'' @ b \<and> CHR ''-'' \<notin> set a"
  by (induction s arbitrary: a) (auto split: if_splits)

lemma split_hyphen_append: "CHR ''-'' \<notin> set a \<Longrightarrow> split_hyphen (a @ ''-'' @ b) = Some (a, b)"
  by (induction a) auto

end
