(* ===== verification/Rounding.thy ===== *)
theory Rounding
  imports Prelude
begin

text \<open>
  Rounded arithmetic. The program computes with Python's \<^verbatim>\<open>Decimal\<close> (default context: 28
  significant decimal digits, ties to even) and, in a few places, with IEEE doubles (53 significant
  binary digits, ties to even). Both are one function here: \<open>rnd b p x\<close> is the number with \<open>p\<close>
  significant base-\<open>b\<close> digits nearest to \<open>x\<close>. A value is a rational; an operation is the exact
  rational operation followed by the rounding, so every place where precision is lost is visible.

  The locale \<open>rounding\<close> states what the rest of the development uses of a rounding; it is
  interpreted for the decimal and for the binary one. Exponents are not bounded: the decimal
  context's limits (\<open>\<plusminus>999999\<close>) and the range of a double are out of reach of the amounts
  the program handles.
\<close>

section \<open>Significant digits\<close>

function ndig :: "nat \<Rightarrow> nat \<Rightarrow> nat" where
  "ndig b n = (if b \<le> 1 \<or> n < b then 1 else Suc (ndig b (n div b)))"
  by pat_completeness auto
termination
  by (relation "measure (\<lambda>(b, n). n)") auto

declare ndig.simps [simp del]

text \<open>The exponent of the leading digit of a non-zero number.\<close>

definition adj :: "nat \<Rightarrow> rat \<Rightarrow> int" where
  "adj b x =
     (let (n, d) = quotient_of \<bar>x\<bar> in
      if d \<le> n then int (ndig b (nat (n div d))) - 1
      else - int (ndig b (nat ((d - 1) div n))))"

definition half_even :: "rat \<Rightarrow> int" where
  "half_even x =
     (let f = \<lfloor>x\<rfloor>; r = x - of_int f in
      if r < 1 / 2 then f else if 1 / 2 < r then f + 1 else if even f then f else f + 1)"

definition rnd :: "nat \<Rightarrow> nat \<Rightarrow> rat \<Rightarrow> rat" where
  "rnd b p x =
     (if x = 0 then 0
      else let u = of_nat b powi (adj b x - int p + 1) in of_int (half_even (x / u)) * u)"

lemma ndig_bounds:
  assumes "2 \<le> b" "0 < n"
  shows "b ^ (ndig b n - 1) \<le> n \<and> n < b ^ ndig b n \<and> 0 < ndig b n"
  using assms
proof (induction b n rule: ndig.induct)
  case (1 b n)
  show ?case
  proof (cases "n < b")
    case True
    with "1.prems" show ?thesis by (simp add: ndig.simps[of b n])
  next
    case False
    with "1.prems" have pos: "0 < n div b" by (simp add: div_greater_zero_iff)
    have ih: "b ^ (ndig b (n div b) - 1) \<le> n div b" "n div b < b ^ ndig b (n div b)"
      "0 < ndig b (n div b)"
      using "1.IH" "1.prems" False pos by auto
    have eq: "ndig b n = Suc (ndig b (n div b))"
      using False "1.prems" by (subst ndig.simps) auto
    have "n < b * b ^ ndig b (n div b)"
      using ih(2) "1.prems" by (simp add: less_mult_imp_div_less mult.commute div_less_iff_less_mult)
    moreover have "b ^ ndig b (n div b) \<le> n"
    proof -
      have "b ^ ndig b (n div b) = b * b ^ (ndig b (n div b) - 1)"
        using ih(3) by (metis power_eq_if neq0_conv)
      also have "\<dots> \<le> b * (n div b)" using ih(1) by simp
      also have "\<dots> \<le> n" by simp
      finally show ?thesis .
    qed
    ultimately show ?thesis by (simp add: eq)
  qed
qed

lemma half_even_of_int [simp]: "half_even (of_int k) = k"
  by (simp add: half_even_def)

lemma half_even_near: "\<bar>of_int (half_even x) - x\<bar> \<le> 1 / 2"
  unfolding half_even_def Let_def by (auto simp: abs_if) linarith+

lemma half_even_minus: "half_even (- x) = - half_even x"
proof (cases "x \<in> \<int>")
  case True
  then obtain k where "x = of_int k" by (auto elim: Ints_cases)
  then show ?thesis by (metis half_even_of_int of_int_minus)
next
  case False
  have f: "\<lfloor>- x\<rfloor> = - \<lfloor>x\<rfloor> - 1"
  proof -
    have "of_int \<lfloor>x\<rfloor> \<noteq> x" using False by (metis Ints_of_int)
    then have "of_int \<lfloor>x\<rfloor> < x" by (simp add: less_le)
    then show ?thesis by (intro floor_unique) (auto simp: algebra_simps, linarith)
  qed
  have "x - of_int \<lfloor>x\<rfloor> < 1 / 2 \<longleftrightarrow> 1 / 2 < - x - of_int \<lfloor>- x\<rfloor>"
    "1 / 2 < x - of_int \<lfloor>x\<rfloor> \<longleftrightarrow> - x - of_int \<lfloor>- x\<rfloor> < 1 / 2"
    by (simp_all add: f) linarith+
  then show ?thesis
    unfolding half_even_def Let_def by (auto simp: f)
qed

lemma half_even_mono:
  assumes "x \<le> y"
  shows "half_even x \<le> half_even y"
proof (cases "\<lfloor>x\<rfloor> = \<lfloor>y\<rfloor>")
  case True
  with assms show ?thesis by (auto simp: half_even_def Let_def)
next
  case False
  with assms have "\<lfloor>x\<rfloor> + 1 \<le> \<lfloor>y\<rfloor>"
    using floor_mono[OF assms] by linarith
  then show ?thesis by (auto simp: half_even_def Let_def)
qed


section \<open>The leading digit\<close>

lemma powi_split: "2 \<le> b \<Longrightarrow> (of_nat b :: rat) powi (m + n) = of_nat b powi m * of_nat b powi n"
  by (simp add: power_int_add)

lemma pow_powi: "2 \<le> b \<Longrightarrow> (of_nat b :: rat) ^ k * of_nat b powi m = of_nat b powi (int k + m)"
  by (simp add: powi_split)

lemma powi_mono: "2 \<le> b \<Longrightarrow> m \<le> n \<Longrightarrow> (of_nat b :: rat) powi m \<le> of_nat b powi n"
  by (rule power_int_increasing) auto

lemma powi_pos [simp]: "2 \<le> b \<Longrightarrow> 0 < (of_nat b :: rat) powi m"
  by (simp add: zero_less_power_int)

lemma powi_less_cancel: "2 \<le> b \<Longrightarrow> (of_nat b :: rat) powi m < of_nat b powi n \<Longrightarrow> m < n"
  using powi_mono[of b n m] by (meson leD not_le_imp_less)

lemma quotient_of_abs:
  assumes "quotient_of \<bar>x\<bar> = (n, d)" "x \<noteq> 0"
  shows "\<bar>x\<bar> = of_int n / of_int d" "0 < d" "0 < n"
proof -
  show *: "\<bar>x\<bar> = of_int n / of_int d" using assms(1) by (rule quotient_of_div)
  show d: "0 < d" using assms(1) by (rule quotient_of_denom_pos)
  have "0 < \<bar>x\<bar>" using assms(2) by simp
  with * d show "0 < n" by (metis of_int_0_less_iff zero_less_divide_iff order_less_asym)
qed

lemma zdiv_le_mult: "0 < (d::int) \<Longrightarrow> m \<le> n div d \<Longrightarrow> m * d \<le> n"
  by (metis mult_right_mono less_imp_le order_trans div_mult_mod_eq le_add_same_cancel1
      pos_mod_sign)

lemma zdiv_less_mult: "0 < (d::int) \<Longrightarrow> n div d < m \<Longrightarrow> n < m * d"
proof -
  assume d: "0 < d" and "n div d < m"
  then have "(n div d + 1) * d \<le> m * d" by (intro mult_right_mono) auto
  moreover have "n < (n div d + 1) * d"
  proof -
    have "n = n div d * d + n mod d" by simp
    moreover have "n mod d < d" using d by simp
    ultimately show ?thesis unfolding distrib_right by linarith
  qed
  ultimately show "n < m * d" by linarith
qed

lemma adj_bounds_ge1:
  assumes b: "2 \<le> b" and d: "0 < d" "d \<le> n"
  defines "k \<equiv> ndig b (nat (n div d))"
  shows "(of_nat b :: rat) powi (int k - 1) \<le> of_int n / of_int d \<and>
    of_int n / of_int d < (of_nat b :: rat) powi (int k)"
proof -
  have q: "0 < n div d" using d by (simp add: pos_imp_zdiv_pos_iff)
  have k: "b ^ (k - 1) \<le> nat (n div d)" "nat (n div d) < b ^ k" "0 < k"
    using ndig_bounds[of b "nat (n div d)"] b q by (auto simp: k_def)
  have "int (b ^ (k - 1)) \<le> n div d" "n div d < int (b ^ k)" using k(1,2) q by linarith+
  then have "int (b ^ (k - 1)) * d \<le> n" "n < int (b ^ k) * d"
    using d(1) by (auto intro: zdiv_le_mult zdiv_less_mult)
  then have "of_int (int (b ^ (k - 1)) * d) \<le> (of_int n :: rat)"
    "(of_int n :: rat) < of_int (int (b ^ k) * d)"
    by (simp_all only: of_int_le_iff of_int_less_iff)
  then show ?thesis
    using d k(3) by (simp add: pos_le_divide_eq pos_divide_less_eq power_int_def nat_diff_distrib)
qed

lemma adj_bounds_lt1:
  assumes b: "2 \<le> b" and n: "0 < n" "n < d"
  defines "k \<equiv> ndig b (nat ((d - 1) div n))"
  shows "(of_nat b :: rat) powi (- int k) \<le> of_int n / of_int d \<and>
    of_int n / of_int d < (of_nat b :: rat) powi (- int k + 1)"
proof -
  have q: "0 < (d - 1) div n" using n by (simp add: pos_imp_zdiv_pos_iff)
  have k: "b ^ (k - 1) \<le> nat ((d - 1) div n)" "nat ((d - 1) div n) < b ^ k" "0 < k"
    using ndig_bounds[of b "nat ((d - 1) div n)"] b q by (auto simp: k_def)
  have "int (b ^ (k - 1)) \<le> (d - 1) div n" "(d - 1) div n < int (b ^ k)"
    using k(1,2) q by linarith+
  then have "int (b ^ (k - 1)) * n \<le> d - 1" "d - 1 < int (b ^ k) * n"
    using zdiv_le_mult[OF n(1)] zdiv_less_mult[OF n(1)] by blast+
  then have "int (b ^ (k - 1)) * n < d" "d \<le> int (b ^ k) * n" by linarith+
  then have "of_int (int (b ^ (k - 1)) * n) < (of_int d :: rat)"
    "(of_int d :: rat) \<le> of_int (int (b ^ k) * n)"
    by (simp_all only: of_int_le_iff of_int_less_iff)
  then have "of_nat b ^ (k - 1) * of_int n < (of_int d :: rat)"
    "(of_int d :: rat) \<le> of_nat b ^ k * of_int n" by simp_all
  moreover have "inverse (of_nat b ^ k) \<le> (of_int n / of_int d :: rat) \<longleftrightarrow>
      (of_int d :: rat) \<le> of_nat b ^ k * of_int n"
    using n b by (simp add: field_simps)
  moreover have "(of_int n / of_int d :: rat) < inverse (of_nat b ^ (k - 1)) \<longleftrightarrow>
      of_nat b ^ (k - 1) * of_int n < (of_int d :: rat)"
    using n b by (simp add: field_simps)
  moreover have "(of_nat b :: rat) powi (- int k) = inverse (of_nat b ^ k)"
    by (simp add: power_int_minus)
  moreover have "(of_nat b :: rat) powi (- int k + 1) = inverse (of_nat b ^ (k - 1))"
    using k(3) by (simp add: power_int_def nat_diff_distrib nat_add_distrib power_inverse)
  ultimately show ?thesis by simp
qed

lemma adj_bounds:
  assumes "2 \<le> b" "x \<noteq> 0"
  shows "of_nat b powi adj b x \<le> \<bar>x\<bar>" "\<bar>x\<bar> < of_nat b powi (adj b x + 1)"
proof -
  obtain n d where q: "quotient_of \<bar>x\<bar> = (n, d)" by (cases "quotient_of \<bar>x\<bar>")
  note x = quotient_of_abs[OF q assms(2)]
  have "of_nat b powi adj b x \<le> \<bar>x\<bar> \<and> \<bar>x\<bar> < of_nat b powi (adj b x + 1)"
  proof (cases "d \<le> n")
    case True
    then have "adj b x = int (ndig b (nat (n div d))) - 1" by (simp add: adj_def q)
    with adj_bounds_ge1[OF assms(1) x(2) True] show ?thesis unfolding x(1) by simp
  next
    case False
    then have "adj b x = - int (ndig b (nat ((d - 1) div n)))" by (simp add: adj_def q)
    with adj_bounds_lt1[OF assms(1) x(3), of d] False show ?thesis unfolding x(1) by simp
  qed
  then show "of_nat b powi adj b x \<le> \<bar>x\<bar>" "\<bar>x\<bar> < of_nat b powi (adj b x + 1)" by auto
qed

lemma adj_le_iff: "2 \<le> b \<Longrightarrow> x \<noteq> 0 \<Longrightarrow> \<bar>x\<bar> < of_nat b powi m \<Longrightarrow> adj b x < m"
  using adj_bounds(1) le_less_trans powi_less_cancel by blast

lemma adj_mono:
  assumes "2 \<le> b" "0 < x" "x \<le> y"
  shows "adj b x \<le> adj b y"
proof -
  have "\<bar>x\<bar> < of_nat b powi (adj b y + 1)"
    using adj_bounds(2)[of b y] assms by linarith
  then show ?thesis using adj_le_iff[of b x] assms by force
qed

section \<open>Laws of the rounding\<close>

lemma rnd_zero [simp]: "rnd b p 0 = 0"
  by (simp add: rnd_def)

lemma adj_minus [simp]: "adj b (- x) = adj b x"
  by (simp add: adj_def)

lemma rnd_minus: "rnd b p (- x) = - rnd b p x"
  by (simp add: rnd_def Let_def half_even_minus flip: minus_divide_left)

text \<open>Shifting the point commutes with rounding.\<close>

lemma adj_scale:
  assumes "2 \<le> b" "x \<noteq> 0"
  shows "adj b (x * of_nat b powi k) = adj b x + k"
proof -
  let ?u = "of_nat b powi k :: rat"
  have u: "0 < ?u" using assms by simp
  have ab: "\<bar>x * ?u\<bar> = \<bar>x\<bar> * ?u" using u by (simp add: abs_mult)
  have "\<bar>x * ?u\<bar> < of_nat b powi (adj b x + 1) * ?u"
    unfolding ab using adj_bounds(2)[OF assms] u by simp
  then have up: "adj b (x * ?u) < adj b x + 1 + k"
    using assms u by (intro adj_le_iff) (auto simp: powi_split)
  have "of_nat b powi adj b x * ?u \<le> \<bar>x * ?u\<bar>"
    unfolding ab using adj_bounds(1)[OF assms] u by simp
  also have "\<dots> < of_nat b powi (adj b (x * ?u) + 1)"
    using assms u by (intro adj_bounds(2)) auto
  finally have "adj b x + k < adj b (x * ?u) + 1"
    using assms(1) by (intro powi_less_cancel) (auto simp: powi_split)
  with up show ?thesis by simp
qed

lemma rnd_scale:
  assumes "2 \<le> b"
  shows "rnd b p (x * of_nat b powi k) = rnd b p x * of_nat b powi k"
proof (cases "x = 0")
  case False
  have u: "(of_nat b :: rat) powi k \<noteq> 0" using assms by simp
  have e: "adj b x + k - int p + 1 = (adj b x - int p + 1) + k" by simp
  show ?thesis
    unfolding rnd_def Let_def adj_scale[OF assms False] e powi_split[OF assms]
    using False u by simp
qed simp

text \<open>A number that fits in \<open>p\<close> digits is not changed.\<close>

lemma rnd_exact:
  assumes b: "2 \<le> b" and c: "\<bar>c\<bar> < int b ^ p"
  shows "rnd b p (of_int c * of_nat b powi e) = of_int c * of_nat b powi e"
proof (cases "c = 0")
  case False
  define x :: rat where "x = of_int c * of_nat b powi e"
  have "x \<noteq> 0" using False b by (simp add: x_def)
  have "\<bar>of_int c :: rat\<bar> < of_nat b ^ p"
    using c by (metis of_int_abs of_int_less_iff of_int_of_nat_eq of_int_power)
  then have "\<bar>x\<bar> < of_nat b ^ p * of_nat b powi e"
    using b by (simp add: x_def abs_mult mult_strict_right_mono)
  also have "\<dots> = of_nat b powi (int p + e)" using b by (simp add: powi_split)
  finally have "adj b x < int p + e" using adj_le_iff b \<open>x \<noteq> 0\<close> by blast
  then obtain k where k: "e = adj b x - int p + 1 + int k"
    using zle_iff_zadd[of "adj b x - int p + 1" e] by auto
  define u :: rat where "u = of_nat b powi (adj b x - int p + 1)"
  have "of_nat b powi e = of_nat b ^ k * u"
    using b k unfolding u_def by (simp add: pow_powi add.commute)
  then have "x = of_int (c * int b ^ k) * u" by (simp add: x_def)
  moreover have "u \<noteq> 0" using b by (simp add: u_def)
  ultimately have "x / u = of_int (c * int b ^ k)" by simp
  then have "half_even (x / u) = c * int b ^ k" by (metis half_even_of_int)
  then show ?thesis
    using \<open>x \<noteq> 0\<close> \<open>x = _ * u\<close> unfolding x_def[symmetric] rnd_def Let_def u_def[symmetric] by simp
qed simp

text \<open>Every result fits in \<open>p\<close> digits, so rounding twice is rounding once.\<close>

lemma rnd_coefficient:
  assumes b: "2 \<le> b" and p: "0 < p" and x: "0 < x"
  defines "u \<equiv> of_nat b powi (adj b x - int p + 1)"
  shows "int b ^ (p - 1) \<le> half_even (x / u)" "half_even (x / u) \<le> int b ^ p"
    "rnd b p x = of_int (half_even (x / u)) * u"
proof -
  have u: "0 < u" using b by (simp add: u_def)
  have "of_nat b powi (adj b x) = of_nat b ^ (p - 1) * u"
    using p b unfolding u_def by (simp add: pow_powi of_nat_diff)
  moreover have "of_nat b powi (adj b x + 1) = of_nat b ^ p * u"
    using p b unfolding u_def by (simp add: pow_powi)
  ultimately have "of_nat b ^ (p - 1) * u \<le> x" "x < of_nat b ^ p * u"
    using adj_bounds[of b x] b x by simp_all
  then have lo: "of_int (int b ^ (p - 1)) \<le> x / u" and hi: "x / u \<le> of_int (int b ^ p)"
    using u by (simp_all add: pos_le_divide_eq pos_divide_le_eq)
  show "int b ^ (p - 1) \<le> half_even (x / u)" "half_even (x / u) \<le> int b ^ p"
    using half_even_mono[OF lo] half_even_mono[OF hi] by (simp_all only: half_even_of_int)
  show "rnd b p x = of_int (half_even (x / u)) * u"
    using x by (simp add: rnd_def u_def Let_def)
qed

lemma rnd_pos:
  assumes "2 \<le> b" "0 < p" "0 < x"
  shows "0 < rnd b p x"
proof -
  have "0 < int b ^ (p - 1)" using assms by simp
  then have "0 < half_even (x / of_nat b powi (adj b x - int p + 1))"
    using rnd_coefficient(1)[OF assms] by linarith
  then show ?thesis using assms by (simp add: rnd_coefficient(3))
qed

lemma rnd_idem_pos:
  assumes "2 \<le> b" "0 < p" "0 < x"
  shows "rnd b p (rnd b p x) = rnd b p x"
proof -
  define u :: rat where "u = of_nat b powi (adj b x - int p + 1)"
  define c where "c = half_even (x / u)"
  have c: "int b ^ (p - 1) \<le> c" "c \<le> int b ^ p" and r: "rnd b p x = of_int c * u"
    using rnd_coefficient[OF assms] by (simp_all add: c_def u_def)
  show ?thesis
  proof (cases "c = int b ^ p")
    case True
    then have "rnd b p x = of_int 1 * of_nat b powi (int p + (adj b x - int p + 1))"
      using r assms(1) pow_powi[of b p "adj b x - int p + 1"] by (simp add: u_def)
    moreover have "\<bar>1\<bar> < int b ^ p" using assms by (simp add: one_less_power)
    ultimately show ?thesis using rnd_exact[OF assms(1), of 1 p] by metis
  next
    case False
    have "0 < int b ^ (p - 1)" using assms by simp
    then have "\<bar>c\<bar> < int b ^ p" using c False by linarith
    then show ?thesis using r rnd_exact[OF assms(1)] by (simp add: u_def)
  qed
qed

lemma rnd_mono_pos:
  assumes b: "2 \<le> b" and p: "0 < p" and x: "0 < x" "x \<le> y"
  shows "rnd b p x \<le> rnd b p y"
proof -
  have y: "0 < y" using x by linarith
  define u :: rat where "u = of_nat b powi (adj b x - int p + 1)"
  define v :: rat where "v = of_nat b powi (adj b y - int p + 1)"
  have u: "0 < u" "0 < v" using b by (simp_all add: u_def v_def)
  note cx = rnd_coefficient[OF b p x(1), folded u_def]
  note cy = rnd_coefficient[OF b p y, folded v_def]
  show ?thesis
  proof (cases "adj b x = adj b y")
    case True
    then have "u = v" by (simp add: u_def v_def)
    moreover have "half_even (x / u) \<le> half_even (y / u)"
      using x u by (intro half_even_mono divide_right_mono) auto
    ultimately show ?thesis using cx(3) cy(3) u by (simp add: mult_right_mono)
  next
    case False
    then have lt: "adj b x + 1 \<le> adj b y" using adj_mono[OF b x] by linarith
    have "rnd b p x \<le> of_int (int b ^ p) * u"
      using cx(2) u by (subst cx(3)) (intro mult_right_mono, auto simp only: of_int_le_iff)
    also have "\<dots> = of_nat b powi (adj b x + 1)"
      using b unfolding u_def by (simp add: pow_powi)
    also have "\<dots> \<le> of_nat b powi (adj b y)" using b lt by (rule powi_mono)
    also have "\<dots> = of_int (int b ^ (p - 1)) * v"
      using p b unfolding v_def by (simp add: pow_powi of_nat_diff)
    also have "\<dots> \<le> rnd b p y"
      using cy(1) u by (subst cy(3)) (intro mult_right_mono, auto simp only: of_int_le_iff)
    finally show ?thesis .
  qed
qed

section \<open>The contract of a rounding\<close>

locale rounding =
  fixes r :: "rat \<Rightarrow> rat"
  assumes r_zero: "r 0 = 0"
    and r_minus: "r (- x) = - r x"
    and r_pos: "0 < x \<Longrightarrow> 0 < r x"
    and r_idem: "r (r x) = r x"
    and r_one: "r 1 = 1"
    and r_mono_pos: "0 < x \<Longrightarrow> x \<le> y \<Longrightarrow> r x \<le> r y"
begin

lemma nonneg: "0 \<le> x \<Longrightarrow> 0 \<le> r x"
  using r_pos[of x] r_zero by (cases "x = 0") auto

lemma nonpos: "x \<le> 0 \<Longrightarrow> r x \<le> 0"
  using nonneg[of "- x"] r_minus by simp

lemma pos_iff: "0 < r x \<longleftrightarrow> 0 < x"
  using r_pos nonpos by (meson leD not_le_imp_less)

lemma neg_iff: "r x < 0 \<longleftrightarrow> x < 0"
  using pos_iff[of "- x"] r_minus by simp

lemma zero_iff: "r x = 0 \<longleftrightarrow> x = 0"
  using pos_iff neg_iff r_zero by (metis linorder_neqE_linordered_idom order_less_irrefl)

lemma mono: "x \<le> y \<Longrightarrow> r x \<le> r y"
proof -
  assume le: "x \<le> y"
  consider "0 < x" | "x \<le> 0" "0 \<le> y" | "y < 0" using le by linarith
  then show "r x \<le> r y"
  proof cases
    case 1 then show ?thesis using le by (rule r_mono_pos)
  next
    case 2 then show ?thesis using nonpos nonneg by (meson order_trans)
  next
    case 3
    then have "r (- y) \<le> r (- x)" using le by (intro r_mono_pos) auto
    then show ?thesis by (simp add: r_minus)
  qed
qed

text \<open>A bound that is itself representable survives the rounding.\<close>

lemma ge_repr: "r a = a \<Longrightarrow> a \<le> x \<Longrightarrow> a \<le> r x"
  using mono[of a x] by simp

lemma le_repr: "r a = a \<Longrightarrow> x \<le> a \<Longrightarrow> r x \<le> a"
  using mono[of x a] by simp

lemma le_one: "x \<le> 1 \<Longrightarrow> r x \<le> 1"
  using le_repr[OF r_one] .

text \<open>Comparing a rounded value with a representable one never flips the comparison strictly.\<close>

lemma less_reprD: "r a = a \<Longrightarrow> r x < a \<Longrightarrow> x < a"
  using ge_repr[of a x] by (meson leD not_le_imp_less)

lemma gr_reprD: "r a = a \<Longrightarrow> a < r x \<Longrightarrow> a < x"
  using le_repr[of a x] by (meson leD not_le_imp_less)

end

lemma rounding_rnd:
  assumes b: "2 \<le> b" and p: "0 < p"
  shows "rounding (rnd b p)"
proof
  show "rnd b p (rnd b p x) = rnd b p x" for x
  proof (cases x "0 :: rat" rule: linorder_cases)
    case less
    then have "rnd b p (rnd b p (- x)) = rnd b p (- x)"
      using b p by (intro rnd_idem_pos) auto
    then show ?thesis by (simp add: rnd_minus)
  qed (use b p in \<open>auto intro: rnd_idem_pos\<close>)
  have "\<bar>1\<bar> < int b ^ p" using b p by (simp add: one_less_power)
  then show "rnd b p 1 = 1" using rnd_exact[OF b, of 1 p 0] by simp
qed (use b p in \<open>auto simp: rnd_minus intro: rnd_pos rnd_mono_pos\<close>)

section \<open>Decimals and doubles\<close>

definition dec :: "rat \<Rightarrow> rat" where
  "dec = rnd 10 28"

definition flt :: "rat \<Rightarrow> rat" where
  "flt = rnd 2 53"

interpretation dec: rounding dec
  unfolding dec_def by (rule rounding_rnd) simp_all

interpretation flt: rounding flt
  unfolding flt_def by (rule rounding_rnd) simp_all

lemmas dec_laws [simp] = dec.r_zero dec.r_one dec.r_idem dec.pos_iff dec.neg_iff dec.zero_iff
lemmas flt_laws [simp] = flt.r_zero flt.r_one flt.r_idem flt.pos_iff flt.neg_iff flt.zero_iff

lemma dec_nonneg_iff [simp]: "0 \<le> dec x \<longleftrightarrow> 0 \<le> x"
  by (metis dec.neg_iff not_le)

lemma flt_nonneg_iff [simp]: "0 \<le> flt x \<longleftrightarrow> 0 \<le> x"
  by (metis flt.neg_iff not_le)

text \<open>A whole number of units of \<open>10\<^sup>-\<^sup>k\<close> with at most 28 digits is exact.\<close>

lemma dec_grid [arith_exact]:
  assumes "x * 10 ^ k \<in> \<int>" "\<bar>x\<bar> * 10 ^ k < 10 ^ 28"
  shows "dec x = x"
proof -
  obtain c where c: "x * 10 ^ k = of_int c" using assms(1) by (auto elim: Ints_cases)
  have "\<bar>of_int c :: rat\<bar> < 10 ^ 28" using assms(2) c by (metis abs_mult abs_numeral power_abs)
  then have "\<bar>c\<bar> < int 10 ^ 28" by (metis of_int_abs of_int_less_iff of_int_numeral of_int_power of_nat_numeral)
  then have "rnd 10 28 (of_int c * of_nat 10 powi (- int k)) = of_int c * of_nat 10 powi (- int k)"
    by (intro rnd_exact) auto
  moreover have "of_int c * of_nat 10 powi (- int k) = x"
    using c[symmetric] by (simp add: power_int_minus field_simps)
  ultimately show ?thesis by (simp add: dec_def)
qed

lemma dec_scale: "dec (x / 10 ^ k) = dec x / 10 ^ k" "dec (x * 10 ^ k) = dec x * 10 ^ k"
  using rnd_scale[of 10 28 x "- int k"] rnd_scale[of 10 28 x "int k"]
  by (simp_all add: dec_def power_int_minus field_simps)

lemma dec_of_int [simp, arith_exact]: "\<bar>k\<bar> < 10 ^ 28 \<Longrightarrow> dec (of_int k) = of_int k"
proof (rule dec_grid[where k = 0])
  assume "\<bar>k\<bar> < 10 ^ 28"
  then have "(of_int \<bar>k\<bar> :: rat) < of_int (10 ^ 28)" by (simp only: of_int_less_iff)
  then show "\<bar>of_int k :: rat\<bar> * 10 ^ 0 < 10 ^ 28" by simp
qed simp

lemma dec_numeral [simp]: "numeral w < (10 ^ 28 :: int) \<Longrightarrow> dec (numeral w) = numeral w"
  using dec_of_int[of "numeral w"] by simp


section \<open>Operations on decimals\<close>

text \<open>
  The operators of \<^verbatim>\<open>decimal.Decimal\<close> under the default context. Unary minus and \<^verbatim>\<open>abs\<close> round too.
  Division by zero and a remainder whose integer quotient needs more than 28 digits raise.
  \<^verbatim>\<open>to_integral_value(ROUND_DOWN)\<close> does not depend on the precision; \<^verbatim>\<open>quantize\<close> raises when
  the result needs more than 28 digits. Comparisons are exact.
\<close>

datatype arith_error = DivisionByZero | InvalidOperation

definition dadd :: "rat \<Rightarrow> rat \<Rightarrow> rat" where
  "dadd x y = dec (x + y)"

definition dsub :: "rat \<Rightarrow> rat \<Rightarrow> rat" where
  "dsub x y = dec (x - y)"

definition dmul :: "rat \<Rightarrow> rat \<Rightarrow> rat" where
  "dmul x y = dec (x * y)"

definition dneg :: "rat \<Rightarrow> rat" where
  "dneg x = dec (- x)"

definition dabs :: "rat \<Rightarrow> rat" where
  "dabs x = dec \<bar>x\<bar>"

definition ddiv :: "rat \<Rightarrow> rat \<Rightarrow> arith_error + rat" where
  "ddiv x y =
     (if y = 0 then Inl (if x = 0 then InvalidOperation else DivisionByZero)
      else Inr (dec (x / y)))"

definition trunc :: "rat \<Rightarrow> int" where
  "trunc x = (if 0 \<le> x then \<lfloor>x\<rfloor> else \<lceil>x\<rceil>)"

definition drem :: "rat \<Rightarrow> rat \<Rightarrow> arith_error + rat" where
  "drem x y =
     (if y = 0 then Inl InvalidOperation
      else let q = trunc (x / y) in
        if 10 ^ 28 \<le> \<bar>q\<bar> then Inl InvalidOperation else Inr (dec (x - of_int q * y)))"

definition half_up :: "rat \<Rightarrow> int" where
  "half_up x = (if 0 \<le> x then \<lfloor>x + 1 / 2\<rfloor> else \<lceil>x - 1 / 2\<rceil>)"

definition quantize_half_up :: "rat \<Rightarrow> rat \<Rightarrow> arith_error + rat" where
  "quantize_half_up x unit =
     (let c = half_up (x / unit) in
      if 10 ^ 28 \<le> \<bar>c\<bar> then Inl InvalidOperation else Inr (of_int c * unit))"

definition dsum :: "rat list \<Rightarrow> rat" where
  "dsum xs = foldl dadd 0 xs"

lemmas dec_op_defs = dadd_def dsub_def dmul_def dneg_def dabs_def

lemma ddiv_eq [simp]: "y \<noteq> 0 \<Longrightarrow> ddiv x y = Inr (dec (x / y))"
  by (simp add: ddiv_def)

lemma ddiv_Inr_iff: "ddiv x y = Inr z \<longleftrightarrow> y \<noteq> 0 \<and> z = dec (x / y)"
  by (auto simp: ddiv_def)

lemma dec_op_sign [simp]:
  "0 \<le> x \<Longrightarrow> 0 \<le> y \<Longrightarrow> 0 \<le> dadd x y"
  "0 \<le> x \<Longrightarrow> 0 \<le> y \<Longrightarrow> 0 \<le> dmul x y"
  "0 < x \<Longrightarrow> 0 < y \<Longrightarrow> 0 < dmul x y"
  "0 \<le> dabs x"
  "0 \<le> dsub x y \<longleftrightarrow> y \<le> x"
  by (simp_all add: dec_op_defs)

lemma dadd_zero [simp]: "dec x = x \<Longrightarrow> dadd 0 x = x" "dec x = x \<Longrightarrow> dadd x 0 = x"
  by (simp_all add: dadd_def)

lemma dsum_nonneg: "\<forall>x \<in> set xs. 0 \<le> x \<Longrightarrow> 0 \<le> dsum xs"
proof (induction xs rule: rev_induct)
  case (snoc x xs)
  then show ?case by (simp add: dsum_def)
qed (simp add: dsum_def)

lemma trunc_of_int [simp]: "trunc (of_int k) = k"
  by (simp add: trunc_def)

lemma trunc_toward_zero: "\<bar>of_int (trunc x)\<bar> \<le> \<bar>x\<bar>"
proof (cases "0 \<le> x")
  case False
  then have "\<lceil>x\<rceil> \<le> 0" by simp
  with False show ?thesis by (simp add: trunc_def)
qed (simp add: trunc_def)

lemma trunc_near: "\<bar>x - of_int (trunc x)\<bar> < 1"
  by (auto simp: trunc_def abs_if) linarith+

text \<open>The remainder is zero exactly when the divisor divides the dividend.\<close>

lemma drem_zero_iff:
  assumes "0 < y" "drem x y = Inr z"
  shows "z = 0 \<longleftrightarrow> x / y \<in> \<int>"
proof -
  have z: "z = dec (x - of_int (trunc (x / y)) * y)"
    using assms by (auto simp: drem_def Let_def split: if_splits)
  have "z = 0 \<longleftrightarrow> x / y = of_int (trunc (x / y))"
    using assms(1) by (simp add: z field_simps)
  also have "\<dots> \<longleftrightarrow> x / y \<in> \<int>"
    by (metis Ints_cases Ints_of_int trunc_of_int)
  finally show ?thesis .
qed

lemma drem_total:
  assumes "0 < y" "\<bar>x\<bar> < 10 ^ 28 * y"
  shows "\<exists>z. drem x y = Inr z"
proof -
  have "\<bar>x / y\<bar> < 10 ^ 28" using assms by (simp add: abs_divide pos_divide_less_eq)
  then have "\<bar>of_int (trunc (x / y)) :: rat\<bar> < 10 ^ 28"
    using trunc_toward_zero[of "x / y"] by linarith
  then have "of_int \<bar>trunc (x / y)\<bar> < (of_int (10 ^ 28) :: rat)" by simp
  then have "\<bar>trunc (x / y)\<bar> < 10 ^ 28" by (simp only: of_int_less_iff)
  then show ?thesis using assms(1) by (auto simp: drem_def Let_def)
qed

end
