(* ===== verification/Models.thy ===== *)
theory Models
  imports Rounding
begin

text \<open>
  The immutable domain models of \<^verbatim>\<open>core/models.py\<close>: the enumerations as datatypes, the frozen
  pydantic models as records (a field carries the model's prefix), and each model's field and model
  validators as a boolean function. A constructor call of the program is the record when its
  validator holds and a \<open>ValidationError\<close> otherwise (\<open>mk_\<dots>\<close>); \<^verbatim>\<open>model_copy\<close> does not
  validate and is a plain record update. Identifiers (UUIDs) are their text. The exceptions the
  program raises are the datatype \<open>exn\<close>.
\<close>

section \<open>Enumerations\<close>

datatype trading_mode = BACKTEST | REPLAY | PAPER | LIVE

datatype order_side = BUY | SELL

datatype order_type = MARKET | LIMIT

datatype order_status =
  PENDING_SUBMIT | UNKNOWN | OPEN | PARTIALLY_FILLED | FILLED | CANCELED | REJECTED

datatype kill_switch_state = RUNNING | PAUSED | HALTED

fun mode_value :: "trading_mode \<Rightarrow> string" where
  "mode_value BACKTEST = ''backtest''"
| "mode_value REPLAY = ''replay''"
| "mode_value PAPER = ''paper''"
| "mode_value LIVE = ''live''"

fun side_value :: "order_side \<Rightarrow> string" where
  "side_value BUY = ''buy''"
| "side_value SELL = ''sell''"

fun type_value :: "order_type \<Rightarrow> string" where
  "type_value MARKET = ''market''"
| "type_value LIMIT = ''limit''"

fun status_value :: "order_status \<Rightarrow> string" where
  "status_value PENDING_SUBMIT = ''pending_submit''"
| "status_value UNKNOWN = ''unknown''"
| "status_value OPEN = ''open''"
| "status_value PARTIALLY_FILLED = ''partially_filled''"
| "status_value FILLED = ''filled''"
| "status_value CANCELED = ''canceled''"
| "status_value REJECTED = ''rejected''"

fun kill_value :: "kill_switch_state \<Rightarrow> string" where
  "kill_value RUNNING = ''running''"
| "kill_value PAUSED = ''paused''"
| "kill_value HALTED = ''halted''"

text \<open>\<^verbatim>\<open>KillSwitchState(text)\<close>: the member with that value; \<open>None\<close> is the \<^verbatim>\<open>ValueError\<close>.\<close>

definition kill_of_value :: "string \<Rightarrow> kill_switch_state option" where
  "kill_of_value v = List.find (\<lambda>k. kill_value k = v) [RUNNING, PAUSED, HALTED]"

lemma kill_of_value_roundtrip [simp]: "kill_of_value (kill_value k) = Some k"
  by (cases k) (simp_all add: kill_of_value_def)

lemma kill_of_valueD: "kill_of_value v = Some k \<Longrightarrow> kill_value k = v"
  unfolding kill_of_value_def by (drule find_Some_iff2) simp

section \<open>Models\<close>

record candle =
  cdl_symbol :: string
  cdl_interval :: string
  cdl_opened_at :: datetime
  cdl_closed_at :: datetime
  cdl_open :: rat
  cdl_high :: rat
  cdl_low :: rat
  cdl_close :: rat
  cdl_volume :: rat
  cdl_source :: string
  cdl_as_of :: datetime
  cdl_ingested_at :: datetime

text \<open>The field types (positive prices, non-negative volume) and the four field validators.\<close>

definition valid_candle :: "candle \<Rightarrow> bool" where
  "valid_candle c \<longleftrightarrow>
     cdl_opened_at c < cdl_closed_at c \<and>
     0 < cdl_open c \<and>
     0 < cdl_high c \<and> cdl_open c \<le> cdl_high c \<and>
     0 < cdl_low c \<and> cdl_low c \<le> cdl_high c \<and>
     0 < cdl_close c \<and> cdl_close c \<le> cdl_high c \<and> cdl_low c \<le> cdl_close c \<and>
     0 \<le> cdl_volume c"

record quote =
  q_symbol :: string
  q_bid :: rat
  q_ask :: rat
  q_as_of :: datetime
  q_source :: string
  q_received_at :: datetime

definition valid_quote :: "quote \<Rightarrow> bool" where
  "valid_quote q \<longleftrightarrow> 0 < q_bid q \<and> 0 < q_ask q \<and> q_bid q \<le> q_ask q"

record balance =
  bal_asset :: string
  bal_available :: rat
  bal_hold :: rat
  bal_as_of :: datetime

definition valid_balance :: "balance \<Rightarrow> bool" where
  "valid_balance b \<longleftrightarrow> 0 \<le> bal_available b \<and> 0 \<le> bal_hold b"

record position =
  pos_symbol :: string
  pos_quantity :: rat
  pos_average_price :: "rat option"
  pos_as_of :: datetime

definition valid_position :: "position \<Rightarrow> bool" where
  "valid_position p \<longleftrightarrow> (case pos_average_price p of None \<Rightarrow> True | Some a \<Rightarrow> 0 \<le> a)"

record signal =
  sig_signal_id :: uuid
  sig_symbol :: string
  sig_side :: order_side
  sig_quantity :: rat
  sig_strategy_version :: string
  sig_created_at :: datetime
  sig_correlation_id :: uuid

definition valid_signal :: "signal \<Rightarrow> bool" where
  "valid_signal s \<longleftrightarrow> 0 < sig_quantity s"

record order_request =
  req_signal_id :: uuid
  req_strategy_version :: string
  req_symbol :: string
  req_side :: order_side
  req_order_type :: order_type
  req_quantity :: rat
  req_limit_price :: "rat option"
  req_client_order_id :: uuid
  req_correlation_id :: uuid

definition valid_request :: "order_request \<Rightarrow> bool" where
  "valid_request r \<longleftrightarrow>
     0 < req_quantity r \<and>
     (case req_limit_price r of None \<Rightarrow> True | Some p \<Rightarrow> 0 \<le> p) \<and>
     \<not> (req_order_type r = LIMIT \<and> req_limit_price r = None) \<and>
     \<not> (req_order_type r = MARKET \<and> req_limit_price r \<noteq> None)"

text \<open>
  The deterministic client order ID: \<^verbatim>\<open>uuid5\<close> of the canonical text of the request's own fields,
  joined by bars. \<open>uuid5\<close> and \<open>dec_text\<close> (\<^verbatim>\<open>str\<close> of a decimal) are the standard library's; a
  limit price that is absent or zero contributes the empty text (\<^verbatim>\<open>limit_price or ""\<close>).
\<close>

definition order_id_namespace :: uuid where
  "order_id_namespace = ''b9c0d1e2-f3a4-4b5c-8d6e-7f8091a2b3c4''"

definition canonical_request ::
  "(rat \<Rightarrow> string) \<Rightarrow> uuid \<Rightarrow> string \<Rightarrow> string \<Rightarrow> order_side \<Rightarrow> order_type \<Rightarrow> rat \<Rightarrow> rat option \<Rightarrow> string"
where
  "canonical_request dec_text sid ver symb side otype qty limit =
     sid @ ''|'' @ ver @ ''|'' @ symb @ ''|'' @ side_value side @ ''|'' @ type_value otype @ ''|'' @
     dec_text qty @ ''|'' @
     (case limit of None \<Rightarrow> [] | Some p \<Rightarrow> if p = 0 then [] else dec_text p)"

definition assign_client_order_id ::
  "(uuid \<Rightarrow> string \<Rightarrow> uuid) \<Rightarrow> (rat \<Rightarrow> string) \<Rightarrow> order_request \<Rightarrow> order_request"
where
  "assign_client_order_id uuid5 dec_text r =
     r\<lparr>req_client_order_id := uuid5 order_id_namespace
        (canonical_request dec_text (req_signal_id r) (req_strategy_version r) (req_symbol r)
           (req_side r) (req_order_type r) (req_quantity r) (req_limit_price r))\<rparr>"

record trade_order =
  ord_order_id :: uuid
  ord_request :: order_request
  ord_status :: order_status
  ord_filled_quantity :: rat
  ord_average_fill_price :: "rat option"
  ord_created_at :: datetime
  ord_updated_at :: datetime

definition valid_order :: "trade_order \<Rightarrow> bool" where
  "valid_order ord \<longleftrightarrow>
     0 \<le> ord_filled_quantity ord \<and>
     (case ord_average_fill_price ord of None \<Rightarrow> True | Some a \<Rightarrow> 0 \<le> a)"

text \<open>\<^verbatim>\<open>Order(order_id=..., request=..., status=...)\<close> with the model's defaults.\<close>

definition new_order :: "uuid \<Rightarrow> order_request \<Rightarrow> order_status \<Rightarrow> datetime \<Rightarrow> trade_order" where
  "new_order oid r st now =
     \<lparr>ord_order_id = oid, ord_request = r, ord_status = st, ord_filled_quantity = 0,
      ord_average_fill_price = None, ord_created_at = now, ord_updated_at = now\<rparr>"

record fill =
  fill_fill_id :: string
  fill_order_id :: uuid
  fill_symbol :: string
  fill_side :: order_side
  fill_quantity :: rat
  fill_price :: rat
  fill_fee :: rat
  fill_fee_asset :: string
  fill_occurred_at :: datetime

definition valid_fill :: "fill \<Rightarrow> bool" where
  "valid_fill f \<longleftrightarrow> 0 < fill_quantity f \<and> 0 < fill_price f \<and> 0 \<le> fill_fee f"

record market_state =
  ms_symbol :: string
  ms_quote :: quote
  ms_candles :: "candle list"
  ms_observed_at :: datetime

record risk_approval =
  apr_approval_id :: uuid
  apr_signal_id :: uuid
  apr_approved :: bool
  apr_reason :: string
  apr_failed_gate :: "string option"
  apr_approved_at :: datetime
  apr_correlation_id :: uuid

section \<open>Exceptions\<close>

text \<open>
  The exceptions the modelled code raises or catches. \<open>ProviderError kind ord\<close> is a failure of a
  broker adapter: \<open>kind\<close> is the exception class's name and \<open>ord\<close> its \<^verbatim>\<open>order\<close> attribute, when it
  has one; \<open>ProviderHTTPError code path reason\<close> is a failed HTTP call. \<open>PyError name\<close> is an exception of
  another class, by its name. \<open>ValidationError\<close> (pydantic) and \<open>ValueError\<close> are both Python \<^verbatim>\<open>ValueError\<close>s.
\<close>

datatype exn =
    ValueError string
  | ValidationError string
  | PermissionError string
  | KeyError string
  | IndexError string
  | OSError string
  | AssertionError
  | ArithmeticError arith_error
  | RuntimeError string
  | PersistenceUnavailable string
  | TransitionNotRecorded string
  | ReconciliationUnavailable string
  | StartupGuardError string
  | ProviderError string "trade_order option"
  | ProviderHTTPError nat string string
  | SQLAlchemyError string
  | PortfolioPersistenceUnavailable string
  | PyError string

fun exn_order :: "exn \<Rightarrow> trade_order option" where
  "exn_order (ProviderError _ ord) = ord"
| "exn_order _ = None"

fun is_value_error :: "exn \<Rightarrow> bool" where
  "is_value_error (ValueError _) = True"
| "is_value_error (ValidationError _) = True"
| "is_value_error _ = False"

fun exn_name :: "exn \<Rightarrow> string" where
  "exn_name (ValueError _) = ''ValueError''"
| "exn_name (ValidationError _) = ''ValidationError''"
| "exn_name (PermissionError _) = ''PermissionError''"
| "exn_name (KeyError _) = ''KeyError''"
| "exn_name (IndexError _) = ''IndexError''"
| "exn_name (OSError _) = ''OSError''"
| "exn_name AssertionError = ''AssertionError''"
| "exn_name (ArithmeticError DivisionByZero) = ''DivisionByZero''"
| "exn_name (ArithmeticError InvalidOperation) = ''InvalidOperation''"
| "exn_name (RuntimeError _) = ''RuntimeError''"
| "exn_name (PersistenceUnavailable _) = ''PersistenceUnavailable''"
| "exn_name (TransitionNotRecorded _) = ''TransitionNotRecorded''"
| "exn_name (ReconciliationUnavailable _) = ''ReconciliationUnavailable''"
| "exn_name (StartupGuardError _) = ''StartupGuardError''"
| "exn_name (ProviderError k _) = k"
| "exn_name (ProviderHTTPError _ _ _) = ''ProviderHTTPError''"
| "exn_name (SQLAlchemyError _) = ''SQLAlchemyError''"
| "exn_name (PortfolioPersistenceUnavailable _) = ''PortfolioPersistenceUnavailable''"
| "exn_name (PyError k) = k"

text \<open>
  \<^verbatim>\<open>describe_provider_failure\<close>: the class of the exception and, for an HTTP failure, its status
  code and the path and reason that are not empty.
\<close>

fun describe_provider_failure :: "exn \<Rightarrow> string" where
  "describe_provider_failure (ProviderHTTPError code path reason) =
     ''ProviderHTTPError HTTP '' @ nat_str code @
     (if path = [] then [] else '' path='' @ path) @ (if reason = [] then [] else '' reason='' @ reason)"
| "describe_provider_failure e = exn_name e"

definition lift_arith :: "arith_error + 'a \<Rightarrow> exn + 'a" where
  "lift_arith r = (case r of Inl e \<Rightarrow> Inl (ArithmeticError e) | Inr x \<Rightarrow> Inr x)"

lemma lift_arith_simps [simp]:
  "lift_arith (Inl e) = Inl (ArithmeticError e)"
  "lift_arith (Inr x) = Inr x"
  by (simp_all add: lift_arith_def)

lemma lift_arith_Inr_iff [simp]: "lift_arith r = Inr x \<longleftrightarrow> r = Inr x"
  by (cases r) auto

definition mk_candle :: "candle \<Rightarrow> exn + candle" where
  "mk_candle c = (if valid_candle c then Inr c else Inl (ValidationError ''Candle''))"

definition mk_quote :: "quote \<Rightarrow> exn + quote" where
  "mk_quote q = (if valid_quote q then Inr q else Inl (ValidationError ''Quote''))"

definition mk_balance :: "balance \<Rightarrow> exn + balance" where
  "mk_balance b = (if valid_balance b then Inr b else Inl (ValidationError ''Balance''))"

definition mk_position :: "position \<Rightarrow> exn + position" where
  "mk_position p = (if valid_position p then Inr p else Inl (ValidationError ''Position''))"

definition mk_signal :: "signal \<Rightarrow> exn + signal" where
  "mk_signal s = (if valid_signal s then Inr s else Inl (ValidationError ''Signal''))"

definition mk_request :: "order_request \<Rightarrow> exn + order_request" where
  "mk_request r = (if valid_request r then Inr r else Inl (ValidationError ''OrderRequest''))"

definition mk_fill :: "fill \<Rightarrow> exn + fill" where
  "mk_fill f = (if valid_fill f then Inr f else Inl (ValidationError ''Fill''))"

lemmas mk_defs = mk_candle_def mk_quote_def mk_balance_def mk_position_def mk_signal_def
  mk_request_def mk_fill_def

section \<open>Orders the venue has not confirmed\<close>

definition unresolved :: "order_status \<Rightarrow> bool" where
  "unresolved st \<longleftrightarrow> st \<in> {PENDING_SUBMIT, UNKNOWN}"

definition terminal :: "order_status \<Rightarrow> bool" where
  "terminal st \<longleftrightarrow> st \<in> {FILLED, CANCELED, REJECTED}"

lemma unresolved_simps [simp]:
  "unresolved PENDING_SUBMIT" "unresolved UNKNOWN" "\<not> unresolved OPEN"
  "\<not> unresolved PARTIALLY_FILLED" "\<not> unresolved FILLED" "\<not> unresolved CANCELED"
  "\<not> unresolved REJECTED"
  by (simp_all add: unresolved_def)

lemma terminal_simps [simp]:
  "\<not> terminal PENDING_SUBMIT" "\<not> terminal UNKNOWN" "\<not> terminal OPEN"
  "\<not> terminal PARTIALLY_FILLED" "terminal FILLED" "terminal CANCELED" "terminal REJECTED"
  by (simp_all add: terminal_def)

lemma terminal_not_unresolved: "terminal st \<Longrightarrow> \<not> unresolved st"
  by (cases st) simp_all

end
