(* ===== verification/KillSwitch.thy ===== *)
theory KillSwitch
  imports Models
begin

text \<open>
  The persistent kill switch of \<^verbatim>\<open>risk/kill_switch.py\<close> and its transition journal of
  \<^verbatim>\<open>risk/kill_switch_journal.py\<close>. The object is a record; each method is an action, so the state an
  exception leaves behind is modelled. What the surroundings decide for one call (whether the
  state file and the journal can be written or read, the fresh event ID, the time) is a
  \<open>ks_env\<close>. The state file holds the text of \<^verbatim>\<open>payload["state"]\<close>; replacing a temporary file
  is atomic, so a failed write leaves the old text. Methods hold the object's lock, so calls do
  not interleave.
\<close>

section \<open>State\<close>

record ks_event =
  ev_id :: uuid
  ev_from :: kill_switch_state
  ev_to :: kill_switch_state
  ev_actor :: string
  ev_automatic :: bool
  ev_reason :: string
  ev_checklist :: "string list"
  ev_created_at :: datetime

type_synonym journal = "ks_event list"

record kill_switch =
  ks_has_path :: bool
  ks_file :: "string option"
  ks_state :: kill_switch_state
  ks_journal :: "journal option"
  ks_audit_events :: "ks_event list"
  ks_unrecorded :: "ks_event list"

record ks_env =
  env_disk_ok :: bool
  env_journal_ok :: bool
  env_recent_ok :: bool
  env_event_id :: uuid
  env_now :: datetime

type_synonym 'a ks_act = "(exn, kill_switch, 'a) act"

fun severity :: "kill_switch_state \<Rightarrow> nat" where
  "severity RUNNING = 0"
| "severity PAUSED = 1"
| "severity HALTED = 2"

definition HISTORY_LIMIT :: nat where
  "HISTORY_LIMIT = 50"

section \<open>The journal in \<^verbatim>\<open>system_events\<close>\<close>

text \<open>
  \<open>journal_record\<close> inserts the events whose ID is not saved yet in one transaction; the event ID is
  the table's primary key, so two new rows with one ID fail and nothing is saved (\<open>None\<close>).
  \<open>journal_recent\<close> is the newest \<open>limit\<close> rows by creation time, oldest first.
\<close>

definition journal_record :: "ks_event list \<Rightarrow> journal \<Rightarrow> journal option" where
  "journal_record events j =
     (if events = [] then Some j
      else let new = filter (\<lambda>e. ev_id e \<notin> ev_id ` set j) events in
        if distinct (map ev_id new) then Some (j @ new) else None)"

definition journal_recent :: "nat \<Rightarrow> journal \<Rightarrow> ks_event list" where
  "journal_recent limit j = rev (take limit (sort_key (\<lambda>e. - ev_created_at e) j))"

section \<open>Methods\<close>

definition ks_persist :: "ks_env \<Rightarrow> unit ks_act" where
  "ks_persist env s =
     (if \<not> ks_has_path s then (Inr (), s)
      else if env_disk_ok env then (Inr (), s\<lparr>ks_file := Some (kill_value (ks_state s))\<rparr>)
      else (Inl (OSError ''state file''), s))"

definition ks_reload :: "kill_switch_state ks_act" where
  "ks_reload s =
     (if ks_has_path s then
        case ks_file s of
          None \<Rightarrow> (Inr (ks_state s), s)
        | Some v \<Rightarrow>
            (case kill_of_value v of
               None \<Rightarrow> (Inl (ValueError v), s)
             | Some k \<Rightarrow> (Inr k, s\<lparr>ks_state := k\<rparr>))
      else (Inr (ks_state s), s))"

text \<open>The constructor: running, no journal, then \<^verbatim>\<open>reload\<close> from the file the path names.\<close>

definition ks_init :: "bool \<Rightarrow> string option \<Rightarrow> kill_switch_state ks_act" where
  "ks_init has_path file s =
     ks_reload \<lparr>ks_has_path = has_path, ks_file = file, ks_state = RUNNING, ks_journal = None,
       ks_audit_events = [], ks_unrecorded = []\<rparr>"

definition ks_flush :: "ks_env \<Rightarrow> bool ks_act" where
  "ks_flush env s =
     (case ks_journal s of
        None \<Rightarrow> (Inl AssertionError, s)
      | Some j \<Rightarrow>
          (case (if env_journal_ok env then journal_record (ks_unrecorded s) j else None) of
             None \<Rightarrow> (Inr False, s)
           | Some j' \<Rightarrow> (Inr True, s\<lparr>ks_journal := Some j', ks_unrecorded := []\<rparr>)))"

definition ks_attach_journal :: "ks_env \<Rightarrow> journal \<Rightarrow> unit ks_act" where
  "ks_attach_journal env j s =
     (let loaded = (if env_recent_ok env then journal_recent HISTORY_LIMIT j else []);
          known = ev_id ` set loaded;
          s1 = s\<lparr>ks_journal := Some j,
                 ks_audit_events :=
                   loaded @ filter (\<lambda>e. ev_id e \<notin> known) (ks_audit_events s)\<rparr>
      in if ks_unrecorded s1 \<noteq> []
         then (case ks_flush env s1 of (Inl e, s2) \<Rightarrow> (Inl e, s2) | (Inr _, s2) \<Rightarrow> (Inr (), s2))
         else (Inr (), s1))"

definition ks_record :: "ks_env \<Rightarrow> ks_event \<Rightarrow> bool \<Rightarrow> unit ks_act" where
  "ks_record env ev required s =
     (let s1 = s\<lparr>ks_unrecorded := ks_unrecorded s @ [ev]\<rparr> in
      if ks_journal s1 = None then (Inr (), s1\<lparr>ks_audit_events := ks_audit_events s1 @ [ev]\<rparr>)
      else case ks_flush env s1 of
        (Inl e, s2) \<Rightarrow> (Inl e, s2)
      | (Inr flushed, s2) \<Rightarrow>
          if \<not> flushed \<and> required
          then (Inl (TransitionNotRecorded ''kill-switch transition could not be recorded''),
                s2\<lparr>ks_unrecorded := remove1 ev (ks_unrecorded s2)\<rparr>)
          else (Inr (), s2\<lparr>ks_audit_events := ks_audit_events s2 @ [ev]\<rparr>))"

definition ks_set_state ::
  "ks_env \<Rightarrow> kill_switch_state \<Rightarrow> bool \<Rightarrow> string \<Rightarrow> string option \<Rightarrow> string list \<Rightarrow> unit ks_act"
where
  "ks_set_state env st automatic reason actor checklist s =
     (if ks_state s = HALTED \<and> st = RUNNING \<and> automatic
      then (Inl (PermissionError ''HALTED requires manual re-arm''), s)
      else if automatic \<and> st = RUNNING
      then (Inl (PermissionError ''automatic actuation cannot re-arm the kill switch''), s)
      else if st \<noteq> RUNNING \<and> severity st < severity (ks_state s)
      then (Inl (PermissionError ''only a manual re-arm can lower the kill switch''), s)
      else if st = ks_state s then ks_persist env s
      else
        let ev = \<lparr>ev_id = env_event_id env, ev_from = ks_state s, ev_to = st,
                  ev_actor = (case actor of
                      None \<Rightarrow> if automatic then ''system'' else ''operator''
                    | Some a \<Rightarrow> if a = [] then if automatic then ''system'' else ''operator'' else a),
                  ev_automatic = automatic, ev_reason = reason, ev_checklist = checklist,
                  ev_created_at = env_now env\<rparr>
        in if severity st < severity (ks_state s)
           then abind (ks_record env ev True)
                  (\<lambda>_ s1. ks_persist env (s1\<lparr>ks_state := st\<rparr>)) s
           else abind (ks_persist env) (\<lambda>_. ks_record env ev False) (s\<lparr>ks_state := st\<rparr>))"

definition ks_rearm :: "ks_env \<Rightarrow> string \<Rightarrow> string \<Rightarrow> string list \<Rightarrow> bool ks_act" where
  "ks_rearm env actor reason checklist s =
     (if ks_journal s = None
      then (Inl (TransitionNotRecorded ''kill-switch transition history is not configured''), s)
      else if ks_state s = RUNNING
      then abind (ks_persist env) (\<lambda>_. aret False) s
      else abind (ks_set_state env RUNNING False reason (Some actor) checklist)
             (\<lambda>_. aret True) s)"

definition ks_tighten ::
  "ks_env \<Rightarrow> kill_switch_state \<Rightarrow> string \<Rightarrow> string option \<Rightarrow> bool ks_act"
where
  "ks_tighten env st reason actor s =
     (if severity (ks_state s) < severity st
      then abind (ks_set_state env st False reason actor []) (\<lambda>_. aret True) s
      else abind (ks_persist env) (\<lambda>_. aret False) s)"

definition ks_trip :: "ks_env \<Rightarrow> string \<Rightarrow> unit ks_act" where
  "ks_trip env reason = ks_set_state env HALTED True reason None []"

text \<open>
  \<^verbatim>\<open>sync_external_state\<close>: the environment variable, then the flag file when there is one. A flag
  file whose read fails with \<^verbatim>\<open>OSError\<close> counts as the text \<^verbatim>\<open>unreadable\<close>, which is no member's
  value. Bytes that are not UTF-8 make \<^verbatim>\<open>read_text\<close> raise \<^verbatim>\<open>UnicodeDecodeError\<close>, a
  \<^verbatim>\<open>ValueError\<close>, which the method does not catch.
\<close>

datatype flag_file = NoFlag | FlagText string | FlagUnreadable | FlagUndecodable

fun sync_requests :: "string \<Rightarrow> flag_file \<Rightarrow> exn + (string \<times> string) list" where
  "sync_requests var NoFlag = Inr [(''environment'', var)]"
| "sync_requests var (FlagText t) = Inr [(''environment'', var), (''file'', t)]"
| "sync_requests var FlagUnreadable = Inr [(''environment'', var), (''file'', ''unreadable'')]"
| "sync_requests var FlagUndecodable = Inl (ValueError ''UnicodeDecodeError'')"

definition sync_one :: "ks_env \<Rightarrow> string \<Rightarrow> string \<Rightarrow> unit ks_act" where
  "sync_one env source raw s =
     (let v = py_lower (py_strip raw) in
      if v = [] then (Inr (), s)
      else case kill_of_value v of
        None \<Rightarrow> ks_trip env
                 (''external actuation ('' @ source @ ''): unrecognised kill-switch flag'') s
      | Some requested \<Rightarrow>
          if severity (ks_state s) < severity requested
          then ks_set_state env requested True (''external actuation ('' @ source @ '')'') None [] s
          else (Inr (), s))"

fun sync_loop :: "(nat \<Rightarrow> ks_env) \<Rightarrow> nat \<Rightarrow> (string \<times> string) list \<Rightarrow> unit ks_act" where
  "sync_loop envs i [] s = (Inr (), s)"
| "sync_loop envs i ((source, raw) # rest) s =
     abind (sync_one (envs i) source raw) (\<lambda>_. sync_loop envs (Suc i) rest) s"

definition ks_sync_external_state ::
  "(nat \<Rightarrow> ks_env) \<Rightarrow> string \<Rightarrow> flag_file \<Rightarrow> kill_switch_state ks_act"
where
  "ks_sync_external_state envs var flag s =
     (case sync_requests var flag of
        Inl e \<Rightarrow> (Inl e, s)
      | Inr requests \<Rightarrow>
          abind (sync_loop envs 0 requests) (\<lambda>_ s'. (Inr (ks_state s'), s')) s)"


section \<open>What each helper touches\<close>

named_theorems ks_frame \<open>fields a kill-switch helper leaves unchanged\<close>

lemma ks_persist_frame [ks_frame, simp]:
  "ks_state (snd (ks_persist env s)) = ks_state s"
  "ks_journal (snd (ks_persist env s)) = ks_journal s"
  "ks_audit_events (snd (ks_persist env s)) = ks_audit_events s"
  "ks_unrecorded (snd (ks_persist env s)) = ks_unrecorded s"
  "ks_has_path (snd (ks_persist env s)) = ks_has_path s"
  by (simp_all add: ks_persist_def)

lemma ks_flush_frame [ks_frame, simp]:
  "ks_state (snd (ks_flush env s)) = ks_state s"
  "ks_file (snd (ks_flush env s)) = ks_file s"
  "ks_audit_events (snd (ks_flush env s)) = ks_audit_events s"
  "ks_has_path (snd (ks_flush env s)) = ks_has_path s"
  by (simp_all add: ks_flush_def split: option.splits)

lemma ks_record_frame [ks_frame, simp]:
  "ks_state (snd (ks_record env ev req s)) = ks_state s"
  "ks_file (snd (ks_record env ev req s)) = ks_file s"
  "ks_has_path (snd (ks_record env ev req s)) = ks_has_path s"
  by (simp_all add: ks_record_def ks_flush_def Let_def split: option.splits sum.splits prod.splits)

lemma ks_attach_frame [ks_frame, simp]:
  "ks_state (snd (ks_attach_journal env j s)) = ks_state s"
  "ks_file (snd (ks_attach_journal env j s)) = ks_file s"
  "ks_has_path (snd (ks_attach_journal env j s)) = ks_has_path s"
  by (simp_all add: ks_attach_journal_def ks_flush_def Let_def
      split: option.splits sum.splits prod.splits)

lemma abind_snd:
  "snd (abind m f s) = (case fst (m s) of Inl _ \<Rightarrow> snd (m s) | Inr x \<Rightarrow> snd (f x (snd (m s))))"
  by (simp add: abind_def split: prod.splits sum.splits)

lemma abind_fst:
  "fst (abind m f s) = (case fst (m s) of Inl e \<Rightarrow> Inl e | Inr x \<Rightarrow> fst (f x (snd (m s))))"
  by (simp add: abind_def split: prod.splits sum.splits)

lemma fresh_remove1: "ev \<notin> set xs \<Longrightarrow> remove1 ev (xs @ [ev]) = xs"
  by (simp add: remove1_append)

lemma severity_inj: "severity a = severity b \<Longrightarrow> a = b"
  by (cases a; cases b) simp_all

lemma severity_RUNNING_le [simp]: "\<not> severity a < severity RUNNING"
  by simp

section \<open>Setting the state\<close>

text \<open>The state after a call, whatever its outcome: only a manual request for running lowers it.\<close>

lemma set_state_state:
  "ks_state (snd (ks_set_state env st automatic reason actor checklist s)) = ks_state s \<or>
   severity (ks_state s) < severity st \<and>
     ks_state (snd (ks_set_state env st automatic reason actor checklist s)) = st \<or>
   st = RUNNING \<and> \<not> automatic \<and>
     ks_state (snd (ks_set_state env st automatic reason actor checklist s)) = RUNNING"
  by (cases st; cases "ks_state s")
    (auto simp: ks_set_state_def Let_def abind_snd split: sum.splits)

lemma set_state_mono:
  assumes "automatic \<or> st \<noteq> RUNNING"
  shows "severity (ks_state s) \<le>
    severity (ks_state (snd (ks_set_state env st automatic reason actor checklist s)))"
  using set_state_state[of env st automatic reason actor checklist s] assms by auto

text \<open>Raising takes effect whatever the journal does, as long as the state file can be written.\<close>

lemma ks_record_optional [simp]:
  "fst (ks_record env ev False s) = Inr ()"
  "ks_audit_events (snd (ks_record env ev False s)) = ks_audit_events s @ [ev]"
  by (auto simp: ks_record_def ks_flush_def Let_def split: option.splits)

lemma set_state_raises:
  assumes "severity (ks_state s) < severity st" and "\<not> ks_has_path s \<or> env_disk_ok env"
  shows "fst (ks_set_state env st automatic reason actor checklist s) = Inr ()"
    and "ks_state (snd (ks_set_state env st automatic reason actor checklist s)) = st"
    and "ks_has_path s \<Longrightarrow>
      ks_file (snd (ks_set_state env st automatic reason actor checklist s)) = Some (kill_value st)"
proof -
  have st: "st \<noteq> RUNNING" "st \<noteq> ks_state s" "\<not> severity st < severity (ks_state s)"
    using assms(1) by auto
  have p: "fst (ks_persist env (s\<lparr>ks_state := st\<rparr>)) = Inr ()"
    "ks_has_path s \<Longrightarrow> ks_file (snd (ks_persist env (s\<lparr>ks_state := st\<rparr>))) = Some (kill_value st)"
    using assms(2) by (auto simp: ks_persist_def)
  show "fst (ks_set_state env st automatic reason actor checklist s) = Inr ()"
    using st p(1) unfolding ks_set_state_def Let_def by (auto simp: abind_fst)
  show "ks_state (snd (ks_set_state env st automatic reason actor checklist s)) = st"
    using st p(1) unfolding ks_set_state_def Let_def by (auto simp: abind_snd)
  show "ks_has_path s \<Longrightarrow>
      ks_file (snd (ks_set_state env st automatic reason actor checklist s)) = Some (kill_value st)"
    using st p unfolding ks_set_state_def Let_def by (auto simp: abind_snd)
qed

lemma trip_halts:
  assumes "\<not> ks_has_path s \<or> env_disk_ok env"
  shows "fst (ks_trip env reason s) = Inr () \<and> ks_state (snd (ks_trip env reason s)) = HALTED"
proof (cases "ks_state s = HALTED")
  case True
  then show ?thesis using assms by (simp add: ks_trip_def ks_set_state_def ks_persist_def)
next
  case False
  then have "severity (ks_state s) < severity HALTED" by (cases "ks_state s") simp_all
  then show ?thesis using set_state_raises assms unfolding ks_trip_def by blast
qed

text \<open>Even when the state file cannot be written the switch in memory is halted.\<close>

lemma trip_state: "ks_state (snd (ks_trip env reason s)) = HALTED"
proof (cases "ks_state s = HALTED")
  case True
  then show ?thesis by (simp add: ks_trip_def ks_set_state_def)
next
  case False
  then show ?thesis
    by (cases "ks_state s")
      (auto simp: ks_trip_def ks_set_state_def Let_def abind_snd split: sum.splits)
qed

section \<open>Runs of the kill switch\<close>

datatype ks_call =
    Call_set_state kill_switch_state bool string "string option" "string list"
  | Call_rearm string string "string list"
  | Call_tighten kill_switch_state string "string option"
  | Call_trip string
  | Call_sync string flag_file
  | Call_attach journal

fun ks_call_run :: "(nat \<Rightarrow> ks_env) \<Rightarrow> ks_call \<Rightarrow> kill_switch \<Rightarrow> kill_switch" where
  "ks_call_run envs (Call_set_state st a r ac cl) s = snd (ks_set_state (envs 0) st a r ac cl s)"
| "ks_call_run envs (Call_rearm ac r cl) s = snd (ks_rearm (envs 0) ac r cl s)"
| "ks_call_run envs (Call_tighten st r ac) s = snd (ks_tighten (envs 0) st r ac s)"
| "ks_call_run envs (Call_trip r) s = snd (ks_trip (envs 0) r s)"
| "ks_call_run envs (Call_sync v f) s = snd (ks_sync_external_state envs v f s)"
| "ks_call_run envs (Call_attach j) s = snd (ks_attach_journal (envs 0) j s)"

fun manual_rearm :: "ks_call \<Rightarrow> bool" where
  "manual_rearm (Call_set_state st a r ac cl) \<longleftrightarrow> st = RUNNING \<and> \<not> a"
| "manual_rearm (Call_rearm ac r cl) \<longleftrightarrow> True"
| "manual_rearm _ \<longleftrightarrow> False"

fun ks_run :: "((nat \<Rightarrow> ks_env) \<times> ks_call) list \<Rightarrow> kill_switch \<Rightarrow> kill_switch" where
  "ks_run [] s = s"
| "ks_run ((envs, c) # cs) s = ks_run cs (ks_call_run envs c s)"

lemma sync_one_mono: "severity (ks_state s) \<le> severity (ks_state (snd (sync_one env src raw s)))"
  unfolding sync_one_def Let_def ks_trip_def
  by (auto split: option.splits intro: set_state_mono)

lemma sync_loop_mono: "severity (ks_state s) \<le> severity (ks_state (snd (sync_loop envs i rs s)))"
proof (induction envs i rs s rule: sync_loop.induct)
  case (2 envs i source raw rest s)
  show ?case
    using sync_one_mono[of s "envs i" source raw] "2.IH"
    by (auto simp: abind_snd split: sum.splits intro: order_trans)
qed simp

lemma ks_call_mono:
  "\<not> manual_rearm c \<Longrightarrow> severity (ks_state s) \<le> severity (ks_state (ks_call_run envs c s))"
proof (cases c)
  case (Call_tighten st r ac)
  then show ?thesis
    using set_state_mono[of False st "s" "envs 0" r ac "[]"]
    by (cases st) (auto simp: ks_tighten_def abind_snd split: sum.splits)
next
  case (Call_sync v f)
  then show ?thesis
    using sync_loop_mono[of s envs 0]
    by (auto simp: ks_sync_external_state_def abind_snd split: sum.splits)
qed (auto simp: ks_trip_def intro: set_state_mono)

text \<open>
  C1. The kill switch can only be lowered by a manual re-arm: whatever the calls (operator
  requests, automatic trips, tightening, external flags, attaching a journal), whatever fails
  around them, a run without a manual request for \<^verbatim>\<open>running\<close> never ends below the severity it
  started from.
\<close>

theorem kill_switch_only_manual_rearm_lowers:
  assumes "\<forall>(envs, c) \<in> set cs. \<not> manual_rearm c"
  shows "severity (ks_state s) \<le> severity (ks_state (ks_run cs s))"
  using assms
proof (induction cs s rule: ks_run.induct)
  case (2 envs c cs s)
  then have "severity (ks_state s) \<le> severity (ks_state (ks_call_run envs c s))"
    by (intro ks_call_mono) auto
  with 2 show ?case by (auto intro: order_trans)
qed simp


theorem kill_switch_only_manual_rearm_lowers_witness:
  "severity PAUSED \<le> severity (ks_state (ks_run
     [(\<lambda>_. \<lparr>env_disk_ok = False, env_journal_ok = False, env_recent_ok = True,
             env_event_id = ''a'', env_now = 0\<rparr>, Call_sync ''running'' (FlagText ''paused''))]
     \<lparr>ks_has_path = True, ks_file = None, ks_state = PAUSED, ks_journal = None,
      ks_audit_events = [], ks_unrecorded = []\<rparr>))"
  using kill_switch_only_manual_rearm_lowers
    [where cs = "[(\<lambda>_. \<lparr>env_disk_ok = False, env_journal_ok = False, env_recent_ok = True,
             env_event_id = ''a'', env_now = 0\<rparr>, Call_sync ''running'' (FlagText ''paused''))]"
      and s = "\<lparr>ks_has_path = True, ks_file = None, ks_state = PAUSED, ks_journal = None,
      ks_audit_events = [], ks_unrecorded = []\<rparr>"] by simp

section \<open>Restart safety\<close>

lemma set_state_has_path [ks_frame, simp]:
  "ks_has_path (snd (ks_set_state env st automatic reason actor checklist s)) = ks_has_path s"
  by (simp add: ks_set_state_def Let_def abind_snd split: sum.splits)

lemma sync_loop_has_path [ks_frame, simp]: "ks_has_path (snd (sync_loop envs i rs s)) = ks_has_path s"
proof (induction envs i rs s rule: sync_loop.induct)
  case (2 envs i source raw rest s)
  then show ?case
    by (auto simp: abind_snd sync_one_def ks_trip_def Let_def split: sum.splits option.splits)
qed simp

lemma ks_call_has_path: "ks_has_path (ks_call_run envs c s) = ks_has_path s"
  by (cases c) (auto simp: ks_rearm_def ks_tighten_def ks_trip_def ks_sync_external_state_def
      abind_snd split: sum.splits)

definition ks_durable :: "kill_switch \<Rightarrow> bool" where
  "ks_durable s \<longleftrightarrow>
     (ks_has_path s \<longrightarrow>
        ks_file s = Some (kill_value (ks_state s)) \<or> ks_file s = None \<and> ks_state s = RUNNING)"

lemma durable_persist: "env_disk_ok env \<Longrightarrow> ks_durable (snd (ks_persist env s))"
  by (simp add: ks_durable_def ks_persist_def)

lemma durable_record: "ks_durable s \<Longrightarrow> ks_durable (snd (ks_record env ev req s))"
  by (simp add: ks_durable_def)

lemma durable_set_state:
  "env_disk_ok env \<Longrightarrow> ks_durable s \<Longrightarrow>
     ks_durable (snd (ks_set_state env st automatic reason actor checklist s))"
  unfolding ks_set_state_def Let_def
  by (auto simp: abind_snd intro: durable_persist durable_record split: sum.splits)

lemma durable_sync_one:
  "env_disk_ok env \<Longrightarrow> ks_durable s \<Longrightarrow> ks_durable (snd (sync_one env src raw s))"
  unfolding sync_one_def Let_def ks_trip_def
  by (auto split: option.splits intro: durable_set_state)

lemma durable_sync_loop:
  "\<forall>i. env_disk_ok (envs i) \<Longrightarrow> ks_durable s \<Longrightarrow> ks_durable (snd (sync_loop envs i rs s))"
proof (induction envs i rs s rule: sync_loop.induct)
  case (2 envs i source raw rest s)
  then show ?case
    using durable_sync_one[of "envs i" s source raw] by (auto simp: abind_snd split: sum.splits)
qed simp

lemma durable_call:
  "\<forall>i. env_disk_ok (envs i) \<Longrightarrow> ks_durable s \<Longrightarrow> ks_durable (ks_call_run envs c s)"
proof (cases c)
  case (Call_sync v f)
  then show "\<forall>i. env_disk_ok (envs i) \<Longrightarrow> ks_durable s \<Longrightarrow> ?thesis"
    using durable_sync_loop[of envs s 0]
    by (auto simp: ks_sync_external_state_def abind_snd split: sum.splits)
next
  case (Call_attach j)
  then show "\<forall>i. env_disk_ok (envs i) \<Longrightarrow> ks_durable s \<Longrightarrow> ?thesis"
    by (simp add: ks_durable_def)
qed (auto simp: ks_rearm_def ks_tighten_def ks_trip_def abind_snd split: sum.splits
    intro: durable_set_state durable_persist)

text \<open>
  C3. Restart safety: after any run in which the state file could be written, constructing the kill
  switch again from the file that is on disk gives exactly the state the process held, from a
  fresh switch (no file, running) or from any state that agreed with its file.
\<close>

theorem kill_switch_restart_restores_state:
  assumes "\<forall>(envs, c) \<in> set cs. \<forall>i. env_disk_ok (envs i)" and "ks_durable s" and "ks_has_path s"
    and "t = ks_run cs s"
  shows "fst (ks_init (ks_has_path t) (ks_file t) u) = Inr (ks_state t)"
proof -
  have "ks_durable (ks_run cs s) \<and> ks_has_path (ks_run cs s) = ks_has_path s"
    using assms(1,2)
  proof (induction cs s rule: ks_run.induct)
    case (2 envs c cs s)
    have "ks_has_path (ks_call_run envs c s) = ks_has_path s"
      by (rule ks_call_has_path)
    with 2 show ?case using durable_call[of envs s c] by auto
  qed simp
  then show ?thesis
    using assms(3,4) by (auto simp: ks_init_def ks_reload_def ks_durable_def)
qed


theorem kill_switch_restart_restores_state_witness:
  "fst (ks_init True (Some ''halted'')
     \<lparr>ks_has_path = True, ks_file = None, ks_state = RUNNING, ks_journal = None,
      ks_audit_events = [], ks_unrecorded = []\<rparr>) = Inr HALTED"
proof -
  let ?e = "\<lambda>_ :: nat. \<lparr>env_disk_ok = True, env_journal_ok = False, env_recent_ok = True,
             env_event_id = ''a'', env_now = 0\<rparr>"
  let ?s = "\<lparr>ks_has_path = True, ks_file = None, ks_state = RUNNING, ks_journal = None,
      ks_audit_events = [], ks_unrecorded = []\<rparr>"
  have t: "ks_run [(?e, Call_trip ''loss'')] ?s =
      \<lparr>ks_has_path = True, ks_file = Some ''halted'', ks_state = HALTED, ks_journal = None,
       ks_audit_events = [\<lparr>ev_id = ''a'', ev_from = RUNNING, ev_to = HALTED, ev_actor = ''system'',
         ev_automatic = True, ev_reason = ''loss'', ev_checklist = [], ev_created_at = 0\<rparr>],
       ks_unrecorded = [\<lparr>ev_id = ''a'', ev_from = RUNNING, ev_to = HALTED, ev_actor = ''system'',
         ev_automatic = True, ev_reason = ''loss'', ev_checklist = [], ev_created_at = 0\<rparr>]\<rparr>"
    by code_simp
  show ?thesis
    using kill_switch_restart_restores_state[of "[(?e, Call_trip ''loss'')]" ?s, OF _ _ _ t[symmetric], of ?s]
    by (simp add: ks_durable_def)
qed

section \<open>The transition history\<close>

text \<open>
  Every transition the process shows in \<^verbatim>\<open>audit_events\<close> is saved in the journal or waits in
  \<^verbatim>\<open>_unrecorded\<close> for the next write. Event IDs are fresh (\<^verbatim>\<open>uuid4\<close>), so one ID names one event.
\<close>

definition ks_known :: "kill_switch \<Rightarrow> ks_event set" where
  "ks_known s = set (ks_unrecorded s) \<union> (case ks_journal s of None \<Rightarrow> {} | Some j \<Rightarrow> set j)"

definition ks_audited :: "kill_switch \<Rightarrow> bool" where
  "ks_audited s \<longleftrightarrow> set (ks_audit_events s) \<subseteq> ks_known s \<and> inj_on ev_id (ks_known s)"

abbreviation fresh_id :: "uuid \<Rightarrow> kill_switch \<Rightarrow> bool" where
  "fresh_id i s \<equiv> i \<notin> ev_id ` ks_known s"

lemma audited_cong:
  "ks_audit_events s = ks_audit_events t \<Longrightarrow> ks_unrecorded s = ks_unrecorded t \<Longrightarrow>
     ks_journal s = ks_journal t \<Longrightarrow> ks_audited s = ks_audited t \<and> ks_known s = ks_known t"
  by (simp add: ks_audited_def ks_known_def)

lemma journal_record_known:
  assumes "journal_record events j = Some j'" "inj_on ev_id (set events \<union> set j)"
  shows "set j' = set events \<union> set j"
proof (cases "events = []")
  case False
  have "e \<in> set j" if e: "e \<in> set events" and id: "ev_id e \<in> ev_id ` set j" for e
  proof -
    obtain e' where e': "e' \<in> set j" "ev_id e = ev_id e'" using id by auto
    then have "e = e'" using assms(2) e unfolding inj_on_def by blast
    with e' show ?thesis by simp
  qed
  then show ?thesis using assms(1) False
    by (auto simp: journal_record_def Let_def split: if_splits)
qed (use assms in \<open>simp add: journal_record_def\<close>)

lemma flush_known:
  assumes "inj_on ev_id (ks_known s)"
  shows "ks_known (snd (ks_flush env s)) = ks_known s"
  using assms journal_record_known[of "ks_unrecorded s"]
  by (auto simp: ks_flush_def ks_known_def split: option.splits if_splits)

text \<open>The three outcomes of recording a transition: saved, queued, or refused.\<close>

lemma ks_record_cases:
  obtains
    (saved) j j' where "ks_journal s = Some j" "journal_record (ks_unrecorded s @ [ev]) j = Some j'"
      "ks_record env ev req s = (Inr (), s\<lparr>ks_journal := Some j', ks_unrecorded := [],
         ks_audit_events := ks_audit_events s @ [ev]\<rparr>)"
  | (queued) "ks_record env ev req s = (Inr (), s\<lparr>ks_unrecorded := ks_unrecorded s @ [ev],
         ks_audit_events := ks_audit_events s @ [ev]\<rparr>)"
  | (refused) e where "ks_record env ev req s =
        (Inl e, s\<lparr>ks_unrecorded := remove1 ev (ks_unrecorded s @ [ev])\<rparr>)"
  by (cases "ks_journal s"; cases req; cases "env_journal_ok env";
      cases "journal_record (ks_unrecorded s @ [ev]) (the (ks_journal s))")
    (auto simp: ks_record_def ks_flush_def Let_def)

lemma audited_record:
  fixes ev :: ks_event
  assumes a: "ks_audited s" and f: "fresh_id (ev_id ev) s"
  shows "ks_audited (snd (ks_record env ev req s)) \<and>
    ks_known (snd (ks_record env ev req s)) \<subseteq> insert ev (ks_known s)"
proof (rule ks_record_cases[of s ev env req])
  fix j j'
  assume j: "ks_journal s = Some j" "journal_record (ks_unrecorded s @ [ev]) j = Some j'"
    and r: "ks_record env ev req s = (Inr (), s\<lparr>ks_journal := Some j', ks_unrecorded := [],
         ks_audit_events := ks_audit_events s @ [ev]\<rparr>)"
  have "inj_on ev_id (insert ev (ks_known s))"
    using a f by (auto simp: ks_audited_def)
  then have "set j' = insert ev (ks_known s)"
    using journal_record_known[OF j(2)] j(1) by (simp add: ks_known_def)
  then show ?thesis using a f j(1) unfolding r by (auto simp: ks_audited_def ks_known_def)
next
  assume "ks_record env ev req s = (Inr (), s\<lparr>ks_unrecorded := ks_unrecorded s @ [ev],
         ks_audit_events := ks_audit_events s @ [ev]\<rparr>)"
  then show ?thesis using a f by (auto simp: ks_audited_def ks_known_def)
next
  fix e
  assume r: "ks_record env ev req s =
        (Inl e, s\<lparr>ks_unrecorded := remove1 ev (ks_unrecorded s @ [ev])\<rparr>)"
  have "ev \<notin> set (ks_unrecorded s)" using f by (auto simp: ks_known_def)
  then have "remove1 ev (ks_unrecorded s @ [ev]) = ks_unrecorded s" by (rule fresh_remove1)
  then show ?thesis using a unfolding r by (auto simp: ks_audited_def ks_known_def)
qed

lemma audited_set_state:
  assumes a: "ks_audited s" and f: "fresh_id (env_event_id env) s"
  shows "ks_audited (snd (ks_set_state env st automatic reason actor checklist s)) \<and>
    ev_id ` ks_known (snd (ks_set_state env st automatic reason actor checklist s))
      \<subseteq> insert (env_event_id env) (ev_id ` ks_known s)"
proof -
  have p: "ks_audited (snd (ks_persist env t)) = ks_audited t \<and>
      ks_known (snd (ks_persist env t)) = ks_known t" for t
    by (rule audited_cong) simp_all
  have u: "ks_audited (t\<lparr>ks_state := k\<rparr>) = ks_audited t \<and> ks_known (t\<lparr>ks_state := k\<rparr>) = ks_known t"
    for t k by (rule audited_cong) simp_all
  have r: "ks_audited (snd (ks_record env ev req t)) \<and>
      ev_id ` ks_known (snd (ks_record env ev req t)) \<subseteq> insert (env_event_id env) (ev_id ` ks_known t)"
    if "ks_audited t" "fresh_id (env_event_id env) t" "ev_id ev = env_event_id env" for ev req t
    using audited_record[of t ev env req] that by auto
  have ru: "ks_audited (snd (ks_record env ev req t)) \<and>
      ev_id ` ks_known (snd (ks_record env ev req t)) \<subseteq> insert (env_event_id env) (ev_id ` ks_known s)"
    if "ks_audited t = ks_audited s \<and> ks_known t = ks_known s" "ev_id ev = env_event_id env" for ev req t
    using r[of t ev req] that a f by simp
  note pu = p[THEN conjunct1] p[THEN conjunct2] u[THEN conjunct1] u[THEN conjunct2]
  show ?thesis
  proof (cases "severity st < severity (ks_state s)")
    case True
    then show ?thesis
      using a ru[of s] by (auto simp: ks_set_state_def Let_def abind_snd pu split: sum.splits)
  next
    case False
    then show ?thesis
      using a ru[of "snd (ks_persist env (s\<lparr>ks_state := st\<rparr>))"]
      by (auto simp: ks_set_state_def Let_def abind_snd pu split: sum.splits)
  qed
qed

text \<open>
  One step of a process: a call whose event IDs are fresh and different. A journal is attached once,
  at start-up, and shares no ID with the transitions already made.
\<close>

fun ks_fresh :: "(nat \<Rightarrow> ks_env) \<Rightarrow> ks_call \<Rightarrow> kill_switch \<Rightarrow> bool" where
  "ks_fresh envs (Call_attach j) s \<longleftrightarrow>
     ks_journal s = None \<and> inj_on ev_id (set (ks_unrecorded s) \<union> set j)"
| "ks_fresh envs _ s \<longleftrightarrow>
     inj (\<lambda>i. env_event_id (envs i)) \<and> (\<forall>i. fresh_id (env_event_id (envs i)) s)"

inductive ks_reach :: "kill_switch \<Rightarrow> bool" where
  start: "ks_reach \<lparr>ks_has_path = b, ks_file = f, ks_state = st, ks_journal = None,
     ks_audit_events = [], ks_unrecorded = []\<rparr>"
| call: "ks_reach s \<Longrightarrow> ks_fresh envs c s \<Longrightarrow> ks_reach (ks_call_run envs c s)"

lemma audited_sync_one:
  assumes "ks_audited s" "fresh_id (env_event_id env) s"
  shows "ks_audited (snd (sync_one env src raw s)) \<and>
    ev_id ` ks_known (snd (sync_one env src raw s)) \<subseteq> insert (env_event_id env) (ev_id ` ks_known s)"
  unfolding sync_one_def Let_def ks_trip_def
  using assms audited_set_state[OF assms] by (auto split: option.splits)

lemma audited_sync_loop:
  "ks_audited s \<Longrightarrow> inj (\<lambda>i. env_event_id (envs i)) \<Longrightarrow>
     \<forall>k \<ge> i. fresh_id (env_event_id (envs k)) s \<Longrightarrow> ks_audited (snd (sync_loop envs i rs s))"
proof (induction envs i rs s rule: sync_loop.induct)
  case (2 envs i source raw rest s)
  let ?t = "snd (sync_one (envs i) source raw s)"
  have t: "ks_audited ?t"
      "ev_id ` ks_known ?t \<subseteq> insert (env_event_id (envs i)) (ev_id ` ks_known s)"
    using audited_sync_one[of s "envs i" source raw] "2.prems" by auto
  have "\<forall>k \<ge> Suc i. fresh_id (env_event_id (envs k)) ?t"
  proof (intro allI impI)
    fix k assume k: "Suc i \<le> k"
    then have "env_event_id (envs k) \<noteq> env_event_id (envs i)"
      using injD[OF "2.prems"(2), of k i] by auto
    moreover have "fresh_id (env_event_id (envs k)) s" using "2.prems"(3) k by auto
    ultimately show "fresh_id (env_event_id (envs k)) ?t" using t(2) by blast
  qed
  with 2 t show ?case by (auto simp: abind_snd split: sum.splits)
qed simp

lemma audited_attach:
  assumes "ks_audited s" "ks_journal s = None" "inj_on ev_id (set (ks_unrecorded s) \<union> set j)"
  shows "ks_audited (snd (ks_attach_journal env j s))"
proof -
  define loaded where "loaded = (if env_recent_ok env then journal_recent HISTORY_LIMIT j else [])"
  define s1 where "s1 = s\<lparr>ks_journal := Some j, ks_audit_events :=
      loaded @ filter (\<lambda>e. ev_id e \<notin> ev_id ` set loaded) (ks_audit_events s)\<rparr>"
  have sub: "set loaded \<subseteq> set j"
    unfolding loaded_def journal_recent_def using set_take_subset by fastforce
  have k: "ks_known s1 = set (ks_unrecorded s) \<union> set j" by (simp add: s1_def ks_known_def)
  have au: "set (ks_audit_events s1) \<subseteq> ks_known s1"
    using assms(1,2) sub by (auto simp: k s1_def ks_audited_def ks_known_def)
  have "ks_audited (snd (ks_flush env s1))"
    using flush_known[of s1 env] au assms(3) by (simp add: ks_audited_def k)
  moreover have "ks_audited s1" using au assms(3) by (simp add: ks_audited_def k)
  ultimately show ?thesis
    unfolding ks_attach_journal_def Let_def loaded_def[symmetric] s1_def[symmetric]
    by (auto split: prod.splits sum.splits)
qed

text \<open>
  C4. No transition is lost from the history: in every state a process can reach, through any calls
  and any failures of the journal or the state file, each transition shown in \<^verbatim>\<open>audit_events\<close>
  is saved in the journal or still queued in \<^verbatim>\<open>_unrecorded\<close>, and an event ID names one event.
\<close>

theorem kill_switch_transitions_never_lost:
  assumes "ks_reach s"
  shows "set (ks_audit_events s) \<subseteq>
      set (ks_unrecorded s) \<union> (case ks_journal s of None \<Rightarrow> {} | Some j \<Rightarrow> set j) \<and>
    inj_on ev_id (ks_known s)"
proof -
  have "ks_audited s"
    using assms
  proof (induction rule: ks_reach.induct)
    case (call s envs c)
    show ?case
    proof (cases c)
      case (Call_attach j)
      then show ?thesis using call audited_attach[of s j "envs 0"] by simp
    next
      case (Call_sync v f)
      then show ?thesis
        using call audited_sync_loop[of s envs 0]
        by (auto simp: ks_sync_external_state_def abind_snd split: sum.splits)
    qed (use call audited_set_state[of s "envs 0"] audited_cong[of "snd (ks_persist (envs 0) s)" s] in
        \<open>auto simp: ks_rearm_def ks_tighten_def ks_trip_def abind_snd split: sum.splits\<close>)
  qed (simp add: ks_audited_def ks_known_def)
  then show ?thesis by (simp add: ks_audited_def ks_known_def)
qed


theorem kill_switch_transitions_never_lost_witness:
  "set (ks_audit_events (ks_call_run
      (\<lambda>i. \<lparr>env_disk_ok = True, env_journal_ok = True, env_recent_ok = True,
            env_event_id = replicate i CHR ''a'', env_now = 0\<rparr>)
      (Call_trip ''loss'')
      \<lparr>ks_has_path = False, ks_file = None, ks_state = RUNNING, ks_journal = None,
       ks_audit_events = [], ks_unrecorded = []\<rparr>)) \<subseteq>
   {\<lparr>ev_id = [], ev_from = RUNNING, ev_to = HALTED, ev_actor = ''system'', ev_automatic = True,
     ev_reason = ''loss'', ev_checklist = [], ev_created_at = 0\<rparr>}"
proof -
  let ?e = "\<lambda>i. \<lparr>env_disk_ok = True, env_journal_ok = True, env_recent_ok = True,
            env_event_id = replicate i CHR ''a'', env_now = 0\<rparr>"
  let ?s = "\<lparr>ks_has_path = False, ks_file = None, ks_state = RUNNING, ks_journal = None,
       ks_audit_events = [], ks_unrecorded = []\<rparr>"
  have "ks_fresh ?e (Call_trip ''loss'') ?s"
    by (auto simp: ks_known_def inj_def)
  then have "ks_reach (ks_call_run ?e (Call_trip ''loss'') ?s)"
    by (rule ks_reach.call[OF ks_reach.start])
  from kill_switch_transitions_never_lost[OF this] show ?thesis
    by (simp add: ks_trip_def ks_set_state_def Let_def abind_def ks_persist_def ks_record_def)
qed

section \<open>Re-arming and the external flags\<close>

definition rearm_event :: "ks_env \<Rightarrow> string \<Rightarrow> string \<Rightarrow> string list \<Rightarrow> kill_switch \<Rightarrow> ks_event" where
  "rearm_event env actor reason checklist s =
     \<lparr>ev_id = env_event_id env, ev_from = ks_state s, ev_to = RUNNING,
      ev_actor = (if actor = [] then ''operator'' else actor), ev_automatic = False,
      ev_reason = reason, ev_checklist = checklist, ev_created_at = env_now env\<rparr>"

lemma rearm_unfold:
  assumes "ks_journal s = Some j" "ks_state s \<noteq> RUNNING"
  shows "ks_rearm env actor reason checklist s =
      abind (abind (ks_record env (rearm_event env actor reason checklist s) True)
         (\<lambda>_ s1. ks_persist env (s1\<lparr>ks_state := RUNNING\<rparr>))) (\<lambda>_. aret True) s"
proof -
  have "severity RUNNING < severity (ks_state s)" using assms(2) by (cases "ks_state s") auto
  then show ?thesis
    using assms by (simp add: ks_rearm_def ks_set_state_def rearm_event_def Let_def abind_def)
qed

lemma rearm_saved:
  assumes s: "ks_journal s = Some j" "ks_state s \<noteq> RUNNING" "fresh_id (env_event_id env) s"
    and ok: "\<not> ks_has_path s \<or> env_disk_ok env" "env_journal_ok env"
      "distinct (map ev_id (ks_unrecorded s))"
  shows "\<exists>j'. set j \<subseteq> set j' \<and> rearm_event env actor reason checklist s \<in> set j' \<and>
      fst (ks_rearm env actor reason checklist s) = Inr True \<and>
      ks_state (snd (ks_rearm env actor reason checklist s)) = RUNNING \<and>
      ks_journal (snd (ks_rearm env actor reason checklist s)) = Some j'"
proof -
  define ev where "ev = rearm_event env actor reason checklist s"
  have id: "ev_id ev = env_event_id env" by (simp add: ev_def rearm_event_def)
  define new where "new = filter (\<lambda>e. ev_id e \<notin> ev_id ` set j) (ks_unrecorded s @ [ev])"
  have "distinct (map ev_id (ks_unrecorded s @ [ev]))"
    using ok(3) s(3) by (auto simp: ks_known_def id)
  then have "distinct (map ev_id new)" unfolding new_def by (rule distinct_map_filter)
  then have "journal_record (ks_unrecorded s @ [ev]) j = Some (j @ new)"
    by (simp add: journal_record_def Let_def new_def)
  then have "ks_record env ev True s = (Inr (), s\<lparr>ks_journal := Some (j @ new),
      ks_unrecorded := [], ks_audit_events := ks_audit_events s @ [ev]\<rparr>)"
    using ok(2) s(1) by (simp add: ks_record_def ks_flush_def Let_def)
  then have "fst (ks_rearm env actor reason checklist s) = Inr True \<and>
      ks_state (snd (ks_rearm env actor reason checklist s)) = RUNNING \<and>
      ks_journal (snd (ks_rearm env actor reason checklist s)) = Some (j @ new)"
    using ok(1) unfolding rearm_unfold[OF s(1,2)] ev_def
    by (auto simp: abind_def ks_persist_def)
  moreover have "ev \<in> set (j @ new)" using s(1,3) id by (auto simp: new_def ks_known_def)
  ultimately show ?thesis unfolding ev_def by (intro exI[of _ "j @ new"]) auto
qed

lemma rearm_refused:
  assumes s: "ks_journal s = Some j" "ks_state s \<noteq> RUNNING" "fresh_id (env_event_id env) s"
    and "\<not> env_journal_ok env"
  shows "ks_rearm env actor reason checklist s =
      (Inl (TransitionNotRecorded ''kill-switch transition could not be recorded''), s)"
proof -
  have "rearm_event env actor reason checklist s \<notin> set (ks_unrecorded s)"
    using s(3) by (force simp: ks_known_def rearm_event_def image_iff)
  then show ?thesis
    using assms(1,4) unfolding rearm_unfold[OF s(1,2)]
    by (simp add: abind_def ks_record_def ks_flush_def Let_def fresh_remove1)
qed

text \<open>
  C5. A re-arm is recorded before it takes effect. With a journal attached and a fresh event ID, a
  re-arm of a paused or halted switch either returns with the switch running and a saved journal
  event that carries the old state, the actor, the reason and the checklist, or, when the journal
  cannot be written, raises \<^verbatim>\<open>TransitionNotRecorded\<close> and leaves the whole switch exactly as it was.
\<close>

theorem rearm_recorded_or_refused:
  assumes "ks_journal s = Some j" and "ks_state s \<noteq> RUNNING" and "fresh_id (env_event_id env) s"
    and "\<not> ks_has_path s \<or> env_disk_ok env" and "distinct (map ev_id (ks_unrecorded s))"
  shows "if env_journal_ok env
    then \<exists>j' e. fst (ks_rearm env actor reason checklist s) = Inr True \<and>
      ks_state (snd (ks_rearm env actor reason checklist s)) = RUNNING \<and>
      ks_journal (snd (ks_rearm env actor reason checklist s)) = Some j' \<and>
      set j \<subseteq> set j' \<and> e \<in> set j' \<and> ev_from e = ks_state s \<and> ev_to e = RUNNING \<and>
      \<not> ev_automatic e \<and> ev_reason e = reason \<and> ev_checklist e = checklist \<and>
      ev_actor e = (if actor = [] then ''operator'' else actor)
    else ks_rearm env actor reason checklist s =
      (Inl (TransitionNotRecorded ''kill-switch transition could not be recorded''), s)"
proof (cases "env_journal_ok env")
  case True
  from rearm_saved[OF assms(1-4) True assms(5)] obtain j' where j':
    "set j \<subseteq> set j'" "rearm_event env actor reason checklist s \<in> set j'"
    "fst (ks_rearm env actor reason checklist s) = Inr True"
    "ks_state (snd (ks_rearm env actor reason checklist s)) = RUNNING"
    "ks_journal (snd (ks_rearm env actor reason checklist s)) = Some j'" by blast
  show ?thesis
    using True j' by (auto intro!: exI[of _ "rearm_event env actor reason checklist s"]
        simp: rearm_event_def)
qed (simp add: rearm_refused[OF assms(1-3)])

theorem rearm_recorded_or_refused_witness:
  "ks_rearm \<lparr>env_disk_ok = True, env_journal_ok = False, env_recent_ok = True,
        env_event_id = ''b'', env_now = 5\<rparr> ''admin'' ''reviewed'' [''checked'']
     \<lparr>ks_has_path = True, ks_file = Some ''halted'', ks_state = HALTED, ks_journal = Some [],
      ks_audit_events = [], ks_unrecorded = []\<rparr> =
   (Inl (TransitionNotRecorded ''kill-switch transition could not be recorded''),
    \<lparr>ks_has_path = True, ks_file = Some ''halted'', ks_state = HALTED, ks_journal = Some [],
     ks_audit_events = [], ks_unrecorded = []\<rparr>)"
  using rearm_recorded_or_refused
    [where env = "\<lparr>env_disk_ok = True, env_journal_ok = False, env_recent_ok = True,
        env_event_id = ''b'', env_now = 5\<rparr>" and j = "[]" and actor = "''admin''"
        and reason = "''reviewed''" and checklist = "[''checked'']"
        and s = "\<lparr>ks_has_path = True, ks_file = Some ''halted'', ks_state = HALTED,
          ks_journal = Some [], ks_audit_events = [], ks_unrecorded = []\<rparr>"]
  by (simp add: ks_known_def)

lemma sync_one_unrecognised:
  "kill_of_value (py_lower (py_strip raw)) = None \<Longrightarrow> py_lower (py_strip raw) \<noteq> [] \<Longrightarrow>
     ks_state (snd (sync_one env src raw s)) = HALTED"
  by (simp add: sync_one_def Let_def trip_state)

lemma sync_one_requested:
  "kill_of_value (py_lower (py_strip raw)) = Some k \<Longrightarrow> \<not> ks_has_path s \<or> env_disk_ok env \<Longrightarrow>
     fst (sync_one env src raw s) = Inr () \<and>
     ks_state (snd (sync_one env src raw s)) =
       (if severity (ks_state s) < severity k then k else ks_state s)"
  using set_state_raises[of s k env] by (cases "py_lower (py_strip raw)")
    (auto simp: sync_one_def Let_def kill_of_value_def split: if_splits)

definition flag_target :: "string \<Rightarrow> kill_switch_state" where
  "flag_target raw =
     (let v = py_lower (py_strip raw) in
      if v = [] then RUNNING else case kill_of_value v of None \<Rightarrow> HALTED | Some k \<Rightarrow> k)"

definition worst :: "kill_switch_state \<Rightarrow> kill_switch_state \<Rightarrow> kill_switch_state" where
  "worst a b = (if severity a < severity b then b else a)"

lemma sync_one_spec:
  assumes "\<not> ks_has_path s \<or> env_disk_ok env"
  shows "fst (sync_one env src raw s) = Inr () \<and>
    ks_state (snd (sync_one env src raw s)) = worst (ks_state s) (flag_target raw)"
proof (cases "kill_of_value (py_lower (py_strip raw))")
  case None
  then show ?thesis
    using trip_halts[OF assms] sync_one_unrecognised[OF None, of env src s]
    by (cases "ks_state s") (auto simp: sync_one_def flag_target_def worst_def Let_def)
next
  case (Some k)
  then have "py_lower (py_strip raw) \<noteq> []" by (cases k) (auto dest: kill_of_valueD)
  then show ?thesis
    using sync_one_requested[OF Some assms, of src] Some by (simp add: flag_target_def worst_def)
qed

lemma sync_one_has_path [ks_frame, simp]: "ks_has_path (snd (sync_one env src raw s)) = ks_has_path s"
  by (auto simp: sync_one_def ks_trip_def Let_def split: option.splits)

lemma sync_loop_spec:
  "(\<forall>i. \<not> ks_has_path s \<or> env_disk_ok (envs i)) \<Longrightarrow>
    fst (sync_loop envs i rs s) = Inr () \<and>
    ks_state (snd (sync_loop envs i rs s)) = foldl worst (ks_state s) (map (flag_target \<circ> snd) rs)"
proof (induction envs i rs s rule: sync_loop.induct)
  case (2 envs i source raw rest s)
  then show ?case
    using sync_one_spec[of s "envs i" source raw] by (simp add: abind_fst abind_snd)
qed simp

text \<open>The texts of the two flags, when the flag file can be decoded.\<close>

definition flag_texts :: "string \<Rightarrow> flag_file \<Rightarrow> string list" where
  "flag_texts var flag = (case sync_requests var flag of Inl _ \<Rightarrow> [] | Inr rs \<Rightarrow> map snd rs)"

text \<open>
  The external flags. As long as the state file can be written and the flag file is text,
  reading the flags never raises; an unrecognised or unreadable flag requests a halt, an empty one
  nothing; and the switch ends at the highest severity among its own state and the requests, so a
  flag left at \<^verbatim>\<open>running\<close> never undoes a stop.
\<close>

theorem sync_external_state_takes_worst:
  assumes "\<forall>i. \<not> ks_has_path s \<or> env_disk_ok (envs i)" and "flag \<noteq> FlagUndecodable"
  shows "fst (ks_sync_external_state envs var flag s) =
      Inr (foldl worst (ks_state s) (map flag_target (flag_texts var flag))) \<and>
    ks_state (snd (ks_sync_external_state envs var flag s)) =
      foldl worst (ks_state s) (map flag_target (flag_texts var flag))"
proof -
  obtain rs where "sync_requests var flag = Inr rs" using assms(2) by (cases flag) simp_all
  then show ?thesis
    using sync_loop_spec[OF assms(1), of 0 rs]
    by (simp add: ks_sync_external_state_def flag_texts_def abind_fst abind_snd comp_def)
qed

theorem sync_external_state_takes_worst_witness:
  "fst (ks_sync_external_state
     (\<lambda>_. \<lparr>env_disk_ok = True, env_journal_ok = True, env_recent_ok = True, env_event_id = ''b'',
           env_now = 0\<rparr>) '' RUNNING '' FlagUnreadable
     \<lparr>ks_has_path = True, ks_file = None, ks_state = PAUSED, ks_journal = None,
      ks_audit_events = [], ks_unrecorded = []\<rparr>) = Inr HALTED"
proof -
  have "foldl worst PAUSED (map flag_target (flag_texts '' RUNNING '' FlagUnreadable)) = HALTED"
    by code_simp
  then show ?thesis
    using sync_external_state_takes_worst[of
      "\<lparr>ks_has_path = True, ks_file = None, ks_state = PAUSED, ks_journal = None,
        ks_audit_events = [], ks_unrecorded = []\<rparr>"
      "\<lambda>_. \<lparr>env_disk_ok = True, env_journal_ok = True, env_recent_ok = True, env_event_id = ''b'',
           env_now = 0\<rparr>" FlagUnreadable "'' RUNNING ''"]
    by simp
qed

text \<open>
  A flag file that is not valid UTF-8 does not halt trading: the read raises before any request
  is applied, so even a \<^verbatim>\<open>halted\<close> environment variable has no effect, and the switch keeps its
  state.
\<close>

theorem undecodable_flag_is_not_a_halt:
  "ks_sync_external_state envs var FlagUndecodable s = (Inl (ValueError ''UnicodeDecodeError''), s)"
  by (simp add: ks_sync_external_state_def)

text \<open>A running switch without a state file, and a world in which nothing fails, for concrete runs.\<close>

definition sample_kill :: kill_switch where
  "sample_kill = \<lparr>ks_has_path = False, ks_file = None, ks_state = RUNNING, ks_journal = None,
     ks_audit_events = [], ks_unrecorded = []\<rparr>"

definition sample_ks_env :: ks_env where
  "sample_ks_env = \<lparr>env_disk_ok = True, env_journal_ok = True, env_recent_ok = True, env_event_id = ''e'', env_now = 0\<rparr>"

end
