(* ===== verification/RiskEngine.thy ===== *)
theory RiskEngine
  imports Models
begin

text \<open>
  The ordered, fail-closed risk gates of \<^verbatim>\<open>risk/engine.py\<close>. \<open>evaluate\<close> is the source's chain of
  early returns, gate by gate; arithmetic is decimal (\<open>dmul\<close>, \<open>dadd\<close>, \<open>dsub\<close>, \<open>dabs\<close>, \<open>ddiv\<close>, \<open>drem\<close>), and a
  decimal operation that raises makes the call raise. The approval's own ID and time are
  arguments. A quote's age is compared in microseconds.
\<close>

section \<open>Inputs\<close>

definition RISK_GATES :: "(string \<times> string) list" where
  "RISK_GATES =
     [(''kill_switch'', ''Kill switch''),
      (''operator_pause_window'', ''Operator pause and trading window''),
      (''broker_health'', ''Broker health''),
      (''stale_price'', ''Stale or future quote''),
      (''abnormal_volatility'', ''Abnormal volatility''),
      (''price_reference'', ''Expected and reference price divergence''),
      (''duplicate_prevention'', ''Duplicate signal or order''),
      (''symbol_cooldown'', ''Symbol cooldown''),
      (''maximum_open_positions'', ''Maximum open positions''),
      (''trade_notional'', ''Maximum trade notional''),
      (''symbol_position'', ''Per-symbol position, no shorting''),
      (''aggregate_allocation'', ''Aggregate allocation''),
      (''cash_reserve'', ''Minimum cash reserve''),
      (''daily_loss'', ''Daily loss''),
      (''drawdown'', ''Drawdown''),
      (''slippage'', ''Estimated slippage''),
      (''exchange_constraints'', ''Exchange quantity, price, and notional constraints'')]"

record exchange_constraints =
  xc_min_quantity :: rat
  xc_max_quantity :: "rat option"
  xc_quantity_increment :: rat
  xc_min_notional :: rat
  xc_max_notional :: "rat option"
  xc_price_increment :: rat

record risk_limits =
  max_quote_age_seconds :: int
  max_volatility :: rat
  max_reference_divergence :: rat
  max_open_positions :: int
  max_trade_notional :: rat
  max_symbol_position :: rat
  max_aggregate_allocation :: rat
  min_cash_reserve :: rat
  max_daily_loss :: rat
  max_drawdown :: rat
  max_slippage :: rat

definition default_limits :: risk_limits where
  "default_limits =
     \<lparr>max_quote_age_seconds = 60, max_volatility = 1 / 10, max_reference_divergence = 2 / 100,
      max_open_positions = 5, max_trade_notional = 1000, max_symbol_position = 1,
      max_aggregate_allocation = 10000, min_cash_reserve = 100, max_daily_loss = 100,
      max_drawdown = 2 / 10, max_slippage = 1 / 100\<rparr>"

record risk_inputs =
  ri_kill_switch :: "kill_switch_state option"
  ri_operator_paused :: "bool option"
  ri_trading_window_open :: "bool option"
  ri_broker_healthy :: "bool option"
  ri_quote :: "quote option"
  ri_reference_price :: "rat option"
  ri_volatility :: "rat option"
  ri_duplicate_signal_ids :: "uuid list option"
  ri_symbol_cooldown_clear :: "bool option"
  ri_open_positions :: "int option"
  ri_open_notional :: "rat option"
  ri_symbol_position :: "rat option"
  ri_aggregate_allocation :: "rat option"
  ri_available_cash :: "rat option"
  ri_daily_loss :: "rat option"
  ri_drawdown :: "rat option"
  ri_expected_price :: "rat option"
  ri_estimated_slippage :: "rat option"
  ri_constraints :: "exchange_constraints option"
  ri_now :: datetime

section \<open>The gates\<close>

definition risk_reject :: "uuid \<Rightarrow> datetime \<Rightarrow> signal \<Rightarrow> string \<Rightarrow> string \<Rightarrow> risk_approval" where
  "risk_reject aid now sg gate reason =
     \<lparr>apr_approval_id = aid, apr_signal_id = sig_signal_id sg, apr_approved = False,
      apr_reason = reason, apr_failed_gate = Some gate, apr_approved_at = now,
      apr_correlation_id = sig_correlation_id sg\<rparr>"

definition risk_approve :: "uuid \<Rightarrow> datetime \<Rightarrow> signal \<Rightarrow> risk_approval" where
  "risk_approve aid now sg =
     \<lparr>apr_approval_id = aid, apr_signal_id = sig_signal_id sg, apr_approved = True,
      apr_reason = ''all ordered risk gates passed'', apr_failed_gate = None, apr_approved_at = now,
      apr_correlation_id = sig_correlation_id sg\<rparr>"

text \<open>
  A gate's verdict: \<open>Inr None\<close> lets the signal through to the next gate, \<open>Inr (Some reason)\<close>
  refuses, \<open>Inl\<close> is a raised exception.
\<close>

type_synonym verdict = "exn + string option"

definition passed :: verdict where
  "passed = Inr None"

definition refuse :: "string \<Rightarrow> verdict" where
  "refuse reason = Inr (Some reason)"

definition gate_kill_switch :: "risk_inputs \<Rightarrow> verdict" where
  "gate_kill_switch i =
     (case ri_kill_switch i of
        None \<Rightarrow> refuse ''kill-switch state is unavailable''
      | Some k \<Rightarrow> if k \<noteq> RUNNING then refuse (''kill switch is '' @ kill_value k) else passed)"

definition gate_operator_pause_window :: "risk_inputs \<Rightarrow> verdict" where
  "gate_operator_pause_window i =
     (case (ri_operator_paused i, ri_trading_window_open i) of
        (Some paused, Some window) \<Rightarrow>
          if paused then refuse ''operator pause is active''
          else if \<not> window then refuse ''trading window is closed'' else passed
      | _ \<Rightarrow> refuse ''operator pause/window state is unavailable'')"

definition gate_broker_health :: "risk_inputs \<Rightarrow> verdict" where
  "gate_broker_health i =
     (case ri_broker_healthy i of
        None \<Rightarrow> refuse ''broker health is unavailable''
      | Some h \<Rightarrow> if \<not> h then refuse ''broker is unavailable or unhealthy'' else passed)"

definition gate_stale_price :: "signal \<Rightarrow> risk_inputs \<Rightarrow> risk_limits \<Rightarrow> verdict" where
  "gate_stale_price sg i cfg =
     (case ri_quote i of
        None \<Rightarrow> refuse ''current quote is unavailable''
      | Some q \<Rightarrow>
          if q_symbol q \<noteq> sig_symbol sg then refuse ''current quote is unavailable''
          else let age = ri_now i - q_as_of q in
            if age < 0 \<or> microseconds (max_quote_age_seconds cfg) < age
            then refuse ''quote is stale or from the future'' else passed)"

definition gate_abnormal_volatility :: "risk_inputs \<Rightarrow> risk_limits \<Rightarrow> verdict" where
  "gate_abnormal_volatility i cfg =
     (case ri_volatility i of
        None \<Rightarrow> refuse ''volatility input is unavailable''
      | Some v \<Rightarrow>
          if v < 0 \<or> max_volatility cfg < v then refuse ''volatility exceeds the configured limit''
          else passed)"

definition gate_price_reference :: "risk_inputs \<Rightarrow> risk_limits \<Rightarrow> verdict" where
  "gate_price_reference i cfg =
     (case (ri_reference_price i, ri_expected_price i) of
        (Some ref, Some expd) \<Rightarrow>
          if ref \<le> 0 \<or> expd \<le> 0 then refuse ''price/reference must be positive''
          else rbind (lift_arith (ddiv (dabs (dsub expd ref)) ref))
            (\<lambda>divergence.
               if max_reference_divergence cfg < divergence
               then refuse ''price/reference divergence exceeds the limit'' else passed)
      | _ \<Rightarrow> refuse ''price/reference input is unavailable'')"

definition gate_duplicate_prevention :: "signal \<Rightarrow> risk_inputs \<Rightarrow> verdict" where
  "gate_duplicate_prevention sg i =
     (case ri_duplicate_signal_ids i of
        None \<Rightarrow> refuse ''duplicate-order state is unavailable''
      | Some ids \<Rightarrow>
          if sig_signal_id sg \<in> set ids then refuse ''signal already has an order'' else passed)"

definition gate_symbol_cooldown :: "risk_inputs \<Rightarrow> verdict" where
  "gate_symbol_cooldown i =
     (case ri_symbol_cooldown_clear i of
        None \<Rightarrow> refuse ''symbol cooldown state is unavailable''
      | Some c \<Rightarrow> if \<not> c then refuse ''symbol cooldown is active'' else passed)"

definition gate_maximum_open_positions :: "signal \<Rightarrow> risk_inputs \<Rightarrow> risk_limits \<Rightarrow> verdict" where
  "gate_maximum_open_positions sg i cfg =
     (case ri_open_positions i of
        None \<Rightarrow> refuse ''maximum open positions reached or unknown''
      | Some n \<Rightarrow>
          if sig_side sg = BUY \<and> max_open_positions cfg \<le> n
          then refuse ''maximum open positions reached or unknown'' else passed)"

text \<open>\<^verbatim>\<open>notional = signal.quantity * inputs.expected_price\<close>; the price gate has seen the price.\<close>

definition notional :: "signal \<Rightarrow> risk_inputs \<Rightarrow> rat" where
  "notional sg i = dmul (sig_quantity sg) (case ri_expected_price i of None \<Rightarrow> 0 | Some p \<Rightarrow> p)"

definition gate_trade_notional :: "signal \<Rightarrow> risk_inputs \<Rightarrow> risk_limits \<Rightarrow> verdict" where
  "gate_trade_notional sg i cfg =
     (case ri_open_notional i of
        None \<Rightarrow> refuse ''open notional is unavailable''
      | Some _ \<Rightarrow>
          if max_trade_notional cfg < notional sg i
          then refuse ''trade notional exceeds the limit'' else passed)"

definition gate_symbol_position :: "signal \<Rightarrow> risk_inputs \<Rightarrow> risk_limits \<Rightarrow> verdict" where
  "gate_symbol_position sg i cfg =
     (case ri_symbol_position i of
        None \<Rightarrow> refuse ''per-symbol position is unknown''
      | Some held \<Rightarrow>
          if sig_side sg \<noteq> BUY \<and> held < sig_quantity sg
          then refuse ''sell exceeds the held position; shorting is not supported''
          else if sig_side sg = BUY \<and> max_symbol_position cfg < dadd held (sig_quantity sg)
          then refuse ''per-symbol position limit reached'' else passed)"

definition gate_aggregate_allocation :: "signal \<Rightarrow> risk_inputs \<Rightarrow> risk_limits \<Rightarrow> verdict" where
  "gate_aggregate_allocation sg i cfg =
     (case ri_aggregate_allocation i of
        None \<Rightarrow> refuse ''aggregate allocation limit reached or unknown''
      | Some a \<Rightarrow>
          if sig_side sg = BUY \<and> max_aggregate_allocation cfg < dadd a (notional sg i)
          then refuse ''aggregate allocation limit reached or unknown'' else passed)"

definition gate_cash_reserve :: "signal \<Rightarrow> risk_inputs \<Rightarrow> risk_limits \<Rightarrow> verdict" where
  "gate_cash_reserve sg i cfg =
     (case ri_available_cash i of
        None \<Rightarrow> refuse ''cash reserve is insufficient or unknown''
      | Some cash \<Rightarrow>
          if sig_side sg = BUY \<and> dsub cash (notional sg i) < min_cash_reserve cfg
          then refuse ''cash reserve is insufficient or unknown'' else passed)"

definition gate_daily_loss :: "signal \<Rightarrow> risk_inputs \<Rightarrow> risk_limits \<Rightarrow> verdict" where
  "gate_daily_loss sg i cfg =
     (case ri_daily_loss i of
        None \<Rightarrow> refuse ''daily loss limit reached or unknown''
      | Some l \<Rightarrow>
          if l < 0 \<or> sig_side sg = BUY \<and> max_daily_loss cfg < l
          then refuse ''daily loss limit reached or unknown'' else passed)"

definition gate_drawdown :: "signal \<Rightarrow> risk_inputs \<Rightarrow> risk_limits \<Rightarrow> verdict" where
  "gate_drawdown sg i cfg =
     (case ri_drawdown i of
        None \<Rightarrow> refuse ''drawdown limit reached or unknown''
      | Some d \<Rightarrow>
          if d < 0 \<or> sig_side sg = BUY \<and> max_drawdown cfg < d
          then refuse ''drawdown limit reached or unknown'' else passed)"

definition gate_slippage :: "risk_inputs \<Rightarrow> risk_limits \<Rightarrow> verdict" where
  "gate_slippage i cfg =
     (case ri_estimated_slippage i of
        None \<Rightarrow> refuse ''slippage input exceeds the limit or is unknown''
      | Some sl \<Rightarrow>
          if sl < 0 \<or> max_slippage cfg < sl
          then refuse ''slippage input exceeds the limit or is unknown'' else passed)"

definition gate_exchange_constraints :: "signal \<Rightarrow> risk_inputs \<Rightarrow> verdict" where
  "gate_exchange_constraints sg i =
     (case ri_constraints i of
        None \<Rightarrow> refuse ''current exchange constraints are unavailable''
      | Some c \<Rightarrow>
          if xc_min_quantity c \<le> 0 \<or> xc_quantity_increment c \<le> 0 \<or> xc_price_increment c \<le> 0
          then refuse ''exchange increments are invalid''
          else if sig_quantity sg < xc_min_quantity c
          then refuse ''quantity is below the exchange minimum''
          else if (case xc_max_quantity c of None \<Rightarrow> False | Some m \<Rightarrow> m < sig_quantity sg)
          then refuse ''quantity exceeds the exchange maximum''
          else if (case xc_max_notional c of None \<Rightarrow> False | Some m \<Rightarrow> m < notional sg i)
          then refuse ''notional exceeds the exchange maximum''
          else if notional sg i < xc_min_notional c
          then refuse ''notional is below the exchange minimum''
          else rbind (lift_arith (drem (dsub (sig_quantity sg) (xc_min_quantity c))
                        (xc_quantity_increment c)))
            (\<lambda>qr. if qr \<noteq> 0 then refuse ''quantity does not match the exchange increment''
              else rbind (lift_arith (drem (case ri_expected_price i of None \<Rightarrow> 0 | Some p \<Rightarrow> p)
                            (xc_price_increment c)))
                (\<lambda>pr. if pr \<noteq> 0 then refuse ''price does not match the exchange increment''
                  else passed)))"

text \<open>The gates with their names, in the order \<^verbatim>\<open>evaluate\<close> applies them.\<close>

definition gates :: "signal \<Rightarrow> risk_inputs \<Rightarrow> risk_limits \<Rightarrow> (string \<times> verdict) list" where
  "gates sg i cfg =
     [(''kill_switch'', gate_kill_switch i),
      (''operator_pause_window'', gate_operator_pause_window i),
      (''broker_health'', gate_broker_health i),
      (''stale_price'', gate_stale_price sg i cfg),
      (''abnormal_volatility'', gate_abnormal_volatility i cfg),
      (''price_reference'', gate_price_reference i cfg),
      (''duplicate_prevention'', gate_duplicate_prevention sg i),
      (''symbol_cooldown'', gate_symbol_cooldown i),
      (''maximum_open_positions'', gate_maximum_open_positions sg i cfg),
      (''trade_notional'', gate_trade_notional sg i cfg),
      (''symbol_position'', gate_symbol_position sg i cfg),
      (''aggregate_allocation'', gate_aggregate_allocation sg i cfg),
      (''cash_reserve'', gate_cash_reserve sg i cfg),
      (''daily_loss'', gate_daily_loss sg i cfg),
      (''drawdown'', gate_drawdown sg i cfg),
      (''slippage'', gate_slippage i cfg),
      (''exchange_constraints'', gate_exchange_constraints sg i)]"

fun first_refusal :: "(string \<times> verdict) list \<Rightarrow> exn + (string \<times> string) option" where
  "first_refusal [] = Inr None"
| "first_refusal ((gate, v) # rest) =
     (case v of
        Inl e \<Rightarrow> Inl e
      | Inr (Some reason) \<Rightarrow> Inr (Some (gate, reason))
      | Inr None \<Rightarrow> first_refusal rest)"

definition evaluate ::
  "uuid \<Rightarrow> datetime \<Rightarrow> signal \<Rightarrow> risk_inputs \<Rightarrow> risk_limits option \<Rightarrow> exn + risk_approval"
where
  "evaluate aid now sg i limits =
     (let cfg = (case limits of None \<Rightarrow> default_limits | Some l \<Rightarrow> l) in
      rbind (first_refusal (gates sg i cfg))
        (\<lambda>r. case r of
               None \<Rightarrow> Inr (risk_approve aid now sg)
             | Some (gate, reason) \<Rightarrow> Inr (risk_reject aid now sg gate reason)))"


section \<open>The gate table\<close>

lemma passed_iff [simp]: "passed \<noteq> refuse r" "refuse r \<noteq> passed"
  by (simp_all add: passed_def refuse_def)

lemma refuse_neq_Inl [simp]: "refuse r \<noteq> Inl e" "passed \<noteq> Inl e"
  by (simp_all add: passed_def refuse_def)

lemmas gate_defs = gate_kill_switch_def gate_operator_pause_window_def gate_broker_health_def
  gate_stale_price_def gate_abnormal_volatility_def gate_price_reference_def
  gate_duplicate_prevention_def gate_symbol_cooldown_def gate_maximum_open_positions_def
  gate_trade_notional_def gate_symbol_position_def gate_aggregate_allocation_def
  gate_cash_reserve_def gate_daily_loss_def gate_drawdown_def gate_slippage_def
  gate_exchange_constraints_def

lemma first_refusal_None: "first_refusal gs = Inr None \<longleftrightarrow> (\<forall>(g, v) \<in> set gs. v = passed)"
  by (induction gs rule: first_refusal.induct) (auto simp: passed_def split: sum.splits option.splits)

lemma first_refusal_SomeD:
  "first_refusal gs = Inr (Some (g, reason)) \<Longrightarrow>
     \<exists>before after. gs = before @ (g, refuse reason) # after \<and> (\<forall>(g', v) \<in> set before. v = passed)"
proof (induction gs rule: first_refusal.induct)
  case (2 g' v rest)
  show ?case
  proof (cases "v = passed")
    case True
    with 2 obtain before after where
      "rest = before @ (g, refuse reason) # after" "\<forall>(g', v) \<in> set before. v = passed"
      by (auto simp: passed_def)
    with True show ?thesis by (intro exI[of _ "(g', v) # before"] exI[of _ after]) auto
  next
    case False
    with 2 have "g' = g \<and> v = refuse reason"
      by (auto simp: passed_def refuse_def split: sum.splits option.splits)
    then show ?thesis by (intro exI[of _ "[]"] exI[of _ rest]) auto
  qed
qed simp

lemma first_refusal_Inl:
  "first_refusal gs = Inl e \<Longrightarrow> \<exists>g. (g, Inl e) \<in> set gs"
  by (induction gs rule: first_refusal.induct) (auto split: sum.splits option.splits)

abbreviation limits_or_default :: "risk_limits option \<Rightarrow> risk_limits" where
  "limits_or_default l \<equiv> (case l of None \<Rightarrow> default_limits | Some c \<Rightarrow> c)"

lemma approved_iff:
  "(\<exists>a. evaluate aid now sg i l = Inr a \<and> apr_approved a) \<longleftrightarrow>
     (\<forall>(g, v) \<in> set (gates sg i (limits_or_default l)). v = passed)"
proof -
  have "(\<exists>a. evaluate aid now sg i l = Inr a \<and> apr_approved a) \<longleftrightarrow>
      first_refusal (gates sg i (limits_or_default l)) = Inr None"
    by (cases "first_refusal (gates sg i (limits_or_default l))")
      (auto simp: evaluate_def risk_approve_def risk_reject_def split: option.splits)
  then show ?thesis by (simp only: first_refusal_None)
qed


section \<open>Safety of an approval\<close>

abbreviation early_gates_passed :: "signal \<Rightarrow> risk_inputs \<Rightarrow> risk_limits \<Rightarrow> bool" where
  "early_gates_passed sg i cfg \<equiv> \<forall>(g, v) \<in> set (butlast (gates sg i cfg)). v = passed"

lemma gate_passed:
  assumes "early_gates_passed sg i cfg"
  shows "gate_kill_switch i = passed" "gate_operator_pause_window i = passed"
    "gate_broker_health i = passed" "gate_stale_price sg i cfg = passed"
    "gate_abnormal_volatility i cfg = passed" "gate_price_reference i cfg = passed"
    "gate_duplicate_prevention sg i = passed" "gate_symbol_cooldown i = passed"
    "gate_maximum_open_positions sg i cfg = passed" "gate_trade_notional sg i cfg = passed"
    "gate_symbol_position sg i cfg = passed" "gate_aggregate_allocation sg i cfg = passed"
    "gate_cash_reserve sg i cfg = passed" "gate_daily_loss sg i cfg = passed"
    "gate_drawdown sg i cfg = passed" "gate_slippage i cfg = passed"
  using assms by (simp_all add: gates_def)

text \<open>What an approval promises, stated without reference to the gates: the state of the switches,
  the market data, the exposure limits of a buy, the holding of a sell, and the venue's limits.\<close>

definition market_ok :: "signal \<Rightarrow> risk_inputs \<Rightarrow> risk_limits \<Rightarrow> bool" where
  "market_ok sg i cfg \<longleftrightarrow>
     ri_kill_switch i = Some RUNNING \<and> ri_operator_paused i = Some False \<and>
     ri_trading_window_open i = Some True \<and> ri_broker_healthy i = Some True \<and>
     (\<exists>q. ri_quote i = Some q \<and> q_symbol q = sig_symbol sg \<and> q_as_of q \<le> ri_now i \<and>
        ri_now i - q_as_of q \<le> microseconds (max_quote_age_seconds cfg)) \<and>
     (\<exists>v. ri_volatility i = Some v \<and> 0 \<le> v \<and> v \<le> max_volatility cfg) \<and>
     (\<exists>ref p. ri_reference_price i = Some ref \<and> ri_expected_price i = Some p \<and> 0 < ref \<and> 0 < p \<and>
        dec (dabs (dsub p ref) / ref) \<le> max_reference_divergence cfg) \<and>
     (\<exists>ids. ri_duplicate_signal_ids i = Some ids \<and> sig_signal_id sg \<notin> set ids) \<and>
     ri_symbol_cooldown_clear i = Some True \<and>
     (\<exists>sl. ri_estimated_slippage i = Some sl \<and> 0 \<le> sl \<and> sl \<le> max_slippage cfg)"

definition exposure_ok :: "signal \<Rightarrow> risk_inputs \<Rightarrow> risk_limits \<Rightarrow> bool" where
  "exposure_ok sg i cfg \<longleftrightarrow>
     ri_open_notional i \<noteq> None \<and> notional sg i \<le> max_trade_notional cfg \<and>
     (\<exists>n held alloc cash loss dd.
        ri_open_positions i = Some n \<and> ri_symbol_position i = Some held \<and>
        ri_aggregate_allocation i = Some alloc \<and> ri_available_cash i = Some cash \<and>
        ri_daily_loss i = Some loss \<and> ri_drawdown i = Some dd \<and> 0 \<le> loss \<and> 0 \<le> dd \<and>
        (sig_side sg = SELL \<longrightarrow> sig_quantity sg \<le> held) \<and>
        (sig_side sg = BUY \<longrightarrow>
           n < max_open_positions cfg \<and> dadd held (sig_quantity sg) \<le> max_symbol_position cfg \<and>
           dadd alloc (notional sg i) \<le> max_aggregate_allocation cfg \<and>
           min_cash_reserve cfg \<le> dsub cash (notional sg i) \<and>
           loss \<le> max_daily_loss cfg \<and> dd \<le> max_drawdown cfg))"

definition venue_ok :: "signal \<Rightarrow> risk_inputs \<Rightarrow> bool" where
  "venue_ok sg i \<longleftrightarrow>
     (\<exists>c p. ri_constraints i = Some c \<and> ri_expected_price i = Some p \<and>
        0 < xc_min_quantity c \<and> 0 < xc_quantity_increment c \<and> 0 < xc_price_increment c \<and>
        xc_min_quantity c \<le> sig_quantity sg \<and>
        (\<forall>m. xc_max_quantity c = Some m \<longrightarrow> sig_quantity sg \<le> m) \<and>
        (\<forall>m. xc_max_notional c = Some m \<longrightarrow> notional sg i \<le> m) \<and>
        xc_min_notional c \<le> notional sg i \<and>
        dsub (sig_quantity sg) (xc_min_quantity c) / xc_quantity_increment c \<in> \<int> \<and>
        p / xc_price_increment c \<in> \<int>)"

lemma passed_market_ok:
  assumes "early_gates_passed sg i cfg"
  shows "market_ok sg i cfg"
proof -
  note g = gate_passed[OF assms]
  have "ri_kill_switch i = Some RUNNING"
    using g(1) by (auto simp: gate_kill_switch_def split: option.splits if_splits)
  moreover have "ri_operator_paused i = Some False" "ri_trading_window_open i = Some True"
    using g(2) by (auto simp: gate_operator_pause_window_def split: option.splits if_splits)
  moreover have "ri_broker_healthy i = Some True"
    using g(3) by (auto simp: gate_broker_health_def split: option.splits if_splits)
  moreover have "\<exists>q. ri_quote i = Some q \<and> q_symbol q = sig_symbol sg \<and> q_as_of q \<le> ri_now i \<and>
        ri_now i - q_as_of q \<le> microseconds (max_quote_age_seconds cfg)"
    using g(4) by (auto simp: gate_stale_price_def Let_def split: option.splits if_splits)
  moreover have "\<exists>v. ri_volatility i = Some v \<and> 0 \<le> v \<and> v \<le> max_volatility cfg"
    using g(5) by (auto simp: gate_abnormal_volatility_def split: option.splits if_splits)
  moreover have "\<exists>ref p. ri_reference_price i = Some ref \<and> ri_expected_price i = Some p \<and> 0 < ref \<and>
        0 < p \<and> dec (dabs (dsub p ref) / ref) \<le> max_reference_divergence cfg"
    using g(6) by (auto simp: gate_price_reference_def split: option.splits if_splits)
  moreover have "\<exists>ids. ri_duplicate_signal_ids i = Some ids \<and> sig_signal_id sg \<notin> set ids"
    using g(7) by (auto simp: gate_duplicate_prevention_def split: option.splits if_splits)
  moreover have "ri_symbol_cooldown_clear i = Some True"
    using g(8) by (auto simp: gate_symbol_cooldown_def split: option.splits if_splits)
  moreover have "\<exists>sl. ri_estimated_slippage i = Some sl \<and> 0 \<le> sl \<and> sl \<le> max_slippage cfg"
    using g(16) by (auto simp: gate_slippage_def split: option.splits if_splits)
  ultimately show ?thesis unfolding market_ok_def by blast
qed

lemma not_BUY_iff: "s \<noteq> BUY \<longleftrightarrow> s = SELL" "s \<noteq> SELL \<longleftrightarrow> s = BUY"
  by (cases s; simp)+

lemma passed_exposure_ok:
  assumes "early_gates_passed sg i cfg"
  shows "exposure_ok sg i cfg"
proof -
  note g = gate_passed[OF assms]
  note d = gate_maximum_open_positions_def gate_trade_notional_def gate_symbol_position_def
    gate_aggregate_allocation_def gate_cash_reserve_def gate_daily_loss_def gate_drawdown_def
  have "ri_open_notional i \<noteq> None" "notional sg i \<le> max_trade_notional cfg"
    using g(10) by (auto simp: d split: option.splits if_splits)
  moreover obtain n where "ri_open_positions i = Some n" "sig_side sg = BUY \<longrightarrow> n < max_open_positions cfg"
    using g(9) by (auto simp: d not_BUY_iff split: option.splits if_splits)
  moreover obtain held where "ri_symbol_position i = Some held"
      "sig_side sg = SELL \<longrightarrow> sig_quantity sg \<le> held"
      "sig_side sg = BUY \<longrightarrow> dadd held (sig_quantity sg) \<le> max_symbol_position cfg"
    using g(11) by (auto simp: d not_BUY_iff split: option.splits if_splits)
  moreover obtain alloc where "ri_aggregate_allocation i = Some alloc"
      "sig_side sg = BUY \<longrightarrow> dadd alloc (notional sg i) \<le> max_aggregate_allocation cfg"
    using g(12) by (auto simp: d not_BUY_iff split: option.splits if_splits)
  moreover obtain cash where "ri_available_cash i = Some cash"
      "sig_side sg = BUY \<longrightarrow> min_cash_reserve cfg \<le> dsub cash (notional sg i)"
    using g(13) by (auto simp: d not_BUY_iff split: option.splits if_splits)
  moreover obtain loss where "ri_daily_loss i = Some loss" "0 \<le> loss"
      "sig_side sg = BUY \<longrightarrow> loss \<le> max_daily_loss cfg"
    using g(14) by (auto simp: d not_BUY_iff split: option.splits if_splits)
  moreover obtain dd where "ri_drawdown i = Some dd" "0 \<le> dd"
      "sig_side sg = BUY \<longrightarrow> dd \<le> max_drawdown cfg"
    using g(15) by (auto simp: d not_BUY_iff split: option.splits if_splits)
  ultimately show ?thesis unfolding exposure_ok_def by blast
qed

lemma passed_venue_ok:
  assumes "\<forall>(g, v) \<in> set (gates sg i cfg). v = passed"
  shows "venue_ok sg i"
proof -
  have early: "early_gates_passed sg i cfg" using assms by (auto dest: in_set_butlastD)
  have last: "gate_exchange_constraints sg i = passed" using assms by (simp add: gates_def)
  obtain p where p: "ri_expected_price i = Some p"
    using passed_market_ok[OF early] by (auto simp: market_ok_def)
  obtain c where c: "ri_constraints i = Some c" "0 < xc_min_quantity c" "0 < xc_quantity_increment c"
      "0 < xc_price_increment c" "xc_min_quantity c \<le> sig_quantity sg"
      "\<forall>m. xc_max_quantity c = Some m \<longrightarrow> sig_quantity sg \<le> m"
      "\<forall>m. xc_max_notional c = Some m \<longrightarrow> notional sg i \<le> m" "xc_min_notional c \<le> notional sg i"
      "drem (dsub (sig_quantity sg) (xc_min_quantity c)) (xc_quantity_increment c) = Inr 0"
      "drem p (xc_price_increment c) = Inr 0"
    using last p
    by (auto simp: gate_exchange_constraints_def rbind_def lift_arith_def passed_def refuse_def
        split: option.splits if_splits sum.splits)
  have "dsub (sig_quantity sg) (xc_min_quantity c) / xc_quantity_increment c \<in> \<int>"
    "p / xc_price_increment c \<in> \<int>"
    using drem_zero_iff[OF c(3) c(9)] drem_zero_iff[OF c(4) c(10)] by simp_all
  with c p show ?thesis unfolding venue_ok_def by blast
qed

lemma approval_parts:
  assumes "evaluate aid now sg i limits = Inr a" and "apr_approved a"
  shows "market_ok sg i (limits_or_default limits) \<and> exposure_ok sg i (limits_or_default limits) \<and>
    venue_ok sg i \<and> a = risk_approve aid now sg"
proof -
  have all: "\<forall>(g, v) \<in> set (gates sg i (limits_or_default limits)). v = passed"
    using approved_iff[of aid now sg i limits] assms by blast
  then have "early_gates_passed sg i (limits_or_default limits)" by (auto dest: in_set_butlastD)
  moreover have "a = risk_approve aid now sg"
    using assms by (auto simp: evaluate_def risk_reject_def split: option.splits)
  ultimately show ?thesis
    using passed_market_ok passed_exposure_ok passed_venue_ok[OF all] by simp
qed

text \<open>
  C6. An approval is safe: when \<^verbatim>\<open>evaluate\<close> approves, the switch is running, no operator pause is
  set and the window is open, the broker is healthy, the quote is for this symbol, current and not
  from the future, volatility, price divergence and slippage are within limits, the signal has no
  order yet, a buy keeps every exposure, cash and loss limit, a sell does not exceed the holding,
  and quantity, price and notional obey the venue's limits and increments.
\<close>

theorem approval_is_safe:
  assumes "evaluate aid now sg i limits = Inr a" and "apr_approved a"
  shows "market_ok sg i (limits_or_default limits) \<and> exposure_ok sg i (limits_or_default limits) \<and>
    venue_ok sg i \<and> apr_signal_id a = sig_signal_id sg \<and> apr_failed_gate a = None"
  using approval_parts[OF assms] by (simp add: risk_approve_def)

text \<open>A concrete buy and inputs under which it is approved, for the witnesses.\<close>

definition sample_signal :: signal where
  "sample_signal = \<lparr>sig_signal_id = ''s1'', sig_symbol = ''BTC-USD'', sig_side = BUY,
     sig_quantity = 1, sig_strategy_version = ''v1'', sig_created_at = 0,
     sig_correlation_id = ''c1''\<rparr>"

definition sample_inputs :: risk_inputs where
  "sample_inputs = \<lparr>ri_kill_switch = Some RUNNING, ri_operator_paused = Some False,
     ri_trading_window_open = Some True, ri_broker_healthy = Some True,
     ri_quote = Some \<lparr>q_symbol = ''BTC-USD'', q_bid = 599, q_ask = 600, q_as_of = 0,
       q_source = ''sim'', q_received_at = 0\<rparr>,
     ri_reference_price = Some 600, ri_volatility = Some (1 / 100),
     ri_duplicate_signal_ids = Some [], ri_symbol_cooldown_clear = Some True,
     ri_open_positions = Some 0, ri_open_notional = Some 0, ri_symbol_position = Some 0,
     ri_aggregate_allocation = Some 0, ri_available_cash = Some 100000, ri_daily_loss = Some 0,
     ri_drawdown = Some 0, ri_expected_price = Some 600, ri_estimated_slippage = Some 0,
     ri_constraints = Some \<lparr>xc_min_quantity = 1, xc_max_quantity = None,
       xc_quantity_increment = 1, xc_min_notional = 1, xc_max_notional = None,
       xc_price_increment = 1\<rparr>,
     ri_now = 1000000\<rparr>"

lemma sample_gates:
  "first_refusal (butlast (gates sample_signal sample_inputs default_limits)) = Inr None"
  "gate_exchange_constraints sample_signal sample_inputs = passed"
  by (simp_all add: sample_signal_def sample_inputs_def default_limits_def gates_def gate_defs
      passed_def refuse_def notional_def dec_op_defs microseconds_def drem_def trunc_def)

lemma first_refusal_snoc:
  "first_refusal gs = Inr None \<Longrightarrow> first_refusal (gs @ [(g, v)]) = first_refusal [(g, v)]"
  by (induction gs rule: first_refusal.induct) (auto split: sum.splits option.splits)

lemma gates_snoc:
  "gates sg i cfg = butlast (gates sg i cfg) @ [(''exchange_constraints'', gate_exchange_constraints sg i)]"
  by (simp add: gates_def)

lemma sample_approved:
  "evaluate ''a'' 7 sample_signal sample_inputs None = Inr (risk_approve ''a'' 7 sample_signal)"
  unfolding evaluate_def Let_def
  by (subst gates_snoc) (simp add: first_refusal_snoc sample_gates passed_def)

theorem approval_is_safe_witness:
  "market_ok sample_signal sample_inputs default_limits \<and>
   exposure_ok sample_signal sample_inputs default_limits \<and> venue_ok sample_signal sample_inputs"
  using approval_is_safe[OF sample_approved] by (simp add: risk_approve_def)

section \<open>Omission is refusal\<close>

definition missing_input :: "risk_inputs \<Rightarrow> bool" where
  "missing_input i \<longleftrightarrow>
     ri_kill_switch i = None \<or> ri_operator_paused i = None \<or> ri_trading_window_open i = None \<or>
     ri_broker_healthy i = None \<or> ri_quote i = None \<or> ri_reference_price i = None \<or>
     ri_volatility i = None \<or> ri_duplicate_signal_ids i = None \<or> ri_symbol_cooldown_clear i = None \<or>
     ri_open_positions i = None \<or> ri_open_notional i = None \<or> ri_symbol_position i = None \<or>
     ri_aggregate_allocation i = None \<or> ri_available_cash i = None \<or> ri_daily_loss i = None \<or>
     ri_drawdown i = None \<or> ri_expected_price i = None \<or> ri_estimated_slippage i = None \<or>
     ri_constraints i = None"

lemma early_gate_returns [simp]:
  "gate_kill_switch i \<noteq> Inl e" "gate_operator_pause_window i \<noteq> Inl e"
  "gate_broker_health i \<noteq> Inl e" "gate_stale_price sg i cfg \<noteq> Inl e"
  "gate_abnormal_volatility i cfg \<noteq> Inl e" "gate_price_reference i cfg \<noteq> Inl e"
  "gate_duplicate_prevention sg i \<noteq> Inl e" "gate_symbol_cooldown i \<noteq> Inl e"
  "gate_maximum_open_positions sg i cfg \<noteq> Inl e" "gate_trade_notional sg i cfg \<noteq> Inl e"
  "gate_symbol_position sg i cfg \<noteq> Inl e" "gate_aggregate_allocation sg i cfg \<noteq> Inl e"
  "gate_cash_reserve sg i cfg \<noteq> Inl e" "gate_daily_loss sg i cfg \<noteq> Inl e"
  "gate_drawdown sg i cfg \<noteq> Inl e" "gate_slippage i cfg \<noteq> Inl e"
  by (simp_all add: gate_defs Let_def split: option.splits)

lemma early_gates_return: "\<forall>(g, v) \<in> set (butlast (gates sg i cfg)). \<forall>e. v \<noteq> Inl e"
  by (simp add: gates_def)

lemma first_refusal_snoc_Inl:
  assumes "first_refusal (gs @ [(g, v)]) = Inl e" "\<forall>(g', w) \<in> set gs. w \<noteq> Inl e"
  shows "\<forall>(g', w) \<in> set gs. w = passed"
  using assms
  by (induction gs rule: first_refusal.induct) (auto simp: passed_def split: sum.splits option.splits)

lemma evaluate_Inl_all_inputs:
  assumes "evaluate aid now sg i limits = Inl e"
  shows "\<not> missing_input i \<and> gate_exchange_constraints sg i = Inl e"
proof -
  let ?cfg = "limits_or_default limits"
  have fr: "first_refusal (gates sg i ?cfg) = Inl e"
    using assms by (auto simp: evaluate_def rbind_def split: sum.splits option.splits)
  have "\<forall>(g, v) \<in> set (butlast (gates sg i ?cfg)). v \<noteq> Inl e"
    using early_gates_return[of sg i ?cfg] by blast
  then have early: "early_gates_passed sg i ?cfg"
    using first_refusal_snoc_Inl fr gates_snoc[of sg i ?cfg] by metis
  obtain g where "(g, Inl e) \<in> set (gates sg i ?cfg)" using first_refusal_Inl[OF fr] by blast
  then have last: "gate_exchange_constraints sg i = Inl e"
    using early_gates_return[of sg i ?cfg] by (subst (asm) gates_snoc) auto
  then have "ri_constraints i \<noteq> None" by (cases "ri_constraints i") (auto simp: gate_exchange_constraints_def)
  then show ?thesis
    using passed_market_ok[OF early] passed_exposure_ok[OF early] last
    by (auto simp: missing_input_def market_ok_def exposure_ok_def)
qed

text \<open>
  Fail closed: a risk input that is not known (any of the nineteen) makes \<^verbatim>\<open>evaluate\<close> return a
  refusal. It never approves and it does not raise.
\<close>

theorem missing_input_is_refused:
  assumes "missing_input i"
  shows "\<exists>a. evaluate aid now sg i limits = Inr a \<and> \<not> apr_approved a \<and> apr_failed_gate a \<noteq> None"
proof (cases "evaluate aid now sg i limits")
  case (Inl e)
  then show ?thesis using evaluate_Inl_all_inputs assms by blast
next
  case (Inr a)
  have "\<not> apr_approved a"
  proof
    assume "apr_approved a"
    from approval_parts[OF Inr this] assms show False
      by (auto simp: market_ok_def exposure_ok_def venue_ok_def missing_input_def)
  qed
  moreover have "apr_failed_gate a \<noteq> None"
    using Inr \<open>\<not> apr_approved a\<close>
    by (auto simp: evaluate_def risk_reject_def risk_approve_def split: option.splits)
  ultimately show ?thesis using Inr by blast
qed

theorem missing_input_is_refused_witness:
  "\<exists>a. evaluate ''a'' 7 sample_signal (sample_inputs\<lparr>ri_drawdown := None\<rparr>) None = Inr a \<and>
     \<not> apr_approved a"
  using missing_input_is_refused[of "sample_inputs\<lparr>ri_drawdown := None\<rparr>" "''a''" 7 sample_signal None]
  by (auto simp: missing_input_def)

section \<open>Which gate refuses\<close>

text \<open>
  The first failing gate is the one reported: a refusal names a gate of \<^verbatim>\<open>RISK_GATES\<close>, that
  gate refused for the reported reason, and every gate before it in \<^verbatim>\<open>RISK_GATES\<close> order passed.
\<close>

theorem refusal_names_first_failing_gate:
  assumes "evaluate aid now sg i limits = Inr a" and "\<not> apr_approved a"
  shows "\<exists>k g. k < length RISK_GATES \<and> fst (RISK_GATES ! k) = g \<and> apr_failed_gate a = Some g \<and>
    gates sg i (limits_or_default limits) ! k = (g, refuse (apr_reason a)) \<and>
    (\<forall>m < k. snd (gates sg i (limits_or_default limits) ! m) = passed)"
proof -
  let ?gs = "gates sg i (limits_or_default limits)"
  obtain g reason where fr: "first_refusal ?gs = Inr (Some (g, reason))"
    and a: "a = risk_reject aid now sg g reason"
    using assms by (auto simp: evaluate_def risk_approve_def split: option.splits)
  obtain before after where gs: "?gs = before @ (g, refuse reason) # after"
    and pass: "\<forall>(g', v) \<in> set before. v = passed"
    using first_refusal_SomeD[OF fr] by blast
  have names: "map fst ?gs = map fst RISK_GATES" by (simp add: gates_def RISK_GATES_def)
  have len: "length before < length RISK_GATES"
    using arg_cong[OF names, of length] gs by simp
  have "fst (RISK_GATES ! length before) = g"
    using arg_cong[OF names, of "\<lambda>xs. xs ! length before"] len gs by (simp add: nth_append)
  moreover have "\<forall>m < length before. snd (?gs ! m) = passed"
    using pass unfolding gs by (auto simp: nth_append in_set_conv_nth split: prod.splits)
      (metis nth_mem snd_conv prod.collapse case_prodD)
  ultimately show ?thesis
    using len gs by (intro exI[of _ "length before"] exI[of _ g]) (simp add: a risk_reject_def)
qed

theorem refusal_names_first_failing_gate_witness:
  "\<exists>k g. k < length RISK_GATES \<and> fst (RISK_GATES ! k) = g \<and>
     gates sample_signal (sample_inputs\<lparr>ri_daily_loss := Some 101\<rparr>) default_limits ! k =
       (g, refuse ''daily loss limit reached or unknown'')"
proof -
  have "evaluate ''a'' 7 sample_signal (sample_inputs\<lparr>ri_daily_loss := Some 101\<rparr>) None =
      Inr (risk_reject ''a'' 7 sample_signal ''daily_loss'' ''daily loss limit reached or unknown'')"
    by (simp add: evaluate_def sample_signal_def sample_inputs_def default_limits_def gates_def
      gate_defs passed_def refuse_def notional_def dec_op_defs microseconds_def)
  from refusal_names_first_failing_gate[OF this] show ?thesis
    by (auto simp: risk_reject_def)
qed


section \<open>Sells are never trapped\<close>

text \<open>Limits that differ only in what stops a buy from adding risk.\<close>

definition same_for_sell :: "risk_limits \<Rightarrow> risk_limits \<Rightarrow> bool" where
  "same_for_sell l m \<longleftrightarrow>
     max_quote_age_seconds l = max_quote_age_seconds m \<and> max_volatility l = max_volatility m \<and>
     max_reference_divergence l = max_reference_divergence m \<and>
     max_trade_notional l = max_trade_notional m \<and> max_slippage l = max_slippage m"

text \<open>
  Exposure and loss limits never trap a position: for a sell, the open-position, per-symbol,
  allocation, cash-reserve, daily-loss and drawdown limits, and the amounts they are compared with
  as long as these are known and the losses are not negative, do not change the decision.
\<close>

theorem sell_ignores_exposure_limits:
  assumes "sig_side sg = SELL" and "same_for_sell l m"
    and "0 \<le> loss" "0 \<le> loss'" "0 \<le> dd" "0 \<le> dd'"
  shows "evaluate aid now sg (i\<lparr>ri_open_positions := Some n, ri_aggregate_allocation := Some al,
        ri_available_cash := Some cash, ri_daily_loss := Some loss, ri_drawdown := Some dd\<rparr>) (Some l) =
     evaluate aid now sg (i\<lparr>ri_open_positions := Some n', ri_aggregate_allocation := Some al',
        ri_available_cash := Some cash', ri_daily_loss := Some loss', ri_drawdown := Some dd'\<rparr>) (Some m)"
proof -
  let ?i = "i\<lparr>ri_open_positions := Some n, ri_aggregate_allocation := Some al,
        ri_available_cash := Some cash, ri_daily_loss := Some loss, ri_drawdown := Some dd\<rparr>"
  let ?j = "i\<lparr>ri_open_positions := Some n', ri_aggregate_allocation := Some al',
        ri_available_cash := Some cash', ri_daily_loss := Some loss', ri_drawdown := Some dd'\<rparr>"
  have nt: "notional sg ?i = notional sg ?j" by (simp add: notional_def)
  have "gate_stale_price sg ?i l = gate_stale_price sg ?j m"
    "gate_trade_notional sg ?i l = gate_trade_notional sg ?j m"
    using assms(2) nt
    by (cases "ri_quote i"; cases "ri_open_notional i";
        simp add: gate_stale_price_def gate_trade_notional_def same_for_sell_def)+
  moreover have "gate_exchange_constraints sg ?i = gate_exchange_constraints sg ?j"
  proof -
    have eq: "ri_constraints ?i = ri_constraints i" "ri_constraints ?j = ri_constraints i"
      "ri_expected_price ?i = ri_expected_price i" "ri_expected_price ?j = ri_expected_price i"
      by simp_all
    show ?thesis unfolding gate_exchange_constraints_def eq nt by (rule refl)
  qed
  moreover have "gate_symbol_position sg ?i l = gate_symbol_position sg ?j m"
    "gate_abnormal_volatility ?i l = gate_abnormal_volatility ?j m"
    "gate_price_reference ?i l = gate_price_reference ?j m" "gate_slippage ?i l = gate_slippage ?j m"
    using assms(1,2)
    by (simp_all add: gate_symbol_position_def gate_abnormal_volatility_def
        gate_price_reference_def gate_slippage_def same_for_sell_def split: option.split)
  ultimately have "gates sg ?i l = gates sg ?j m"
    using assms unfolding gates_def
    by (simp add: gate_kill_switch_def gate_operator_pause_window_def
        gate_broker_health_def gate_duplicate_prevention_def gate_symbol_cooldown_def
        gate_maximum_open_positions_def gate_aggregate_allocation_def gate_cash_reserve_def
        gate_daily_loss_def gate_drawdown_def)
  then show ?thesis by (simp add: evaluate_def)
qed

theorem sell_ignores_exposure_limits_witness:
  "evaluate ''a'' 7 (sample_signal\<lparr>sig_side := SELL\<rparr>)
     (sample_inputs\<lparr>ri_open_positions := Some 9, ri_aggregate_allocation := Some 99999,
        ri_available_cash := Some 0, ri_daily_loss := Some 5000, ri_drawdown := Some 1\<rparr>)
     (Some default_limits) =
   evaluate ''a'' 7 (sample_signal\<lparr>sig_side := SELL\<rparr>)
     (sample_inputs\<lparr>ri_open_positions := Some 0, ri_aggregate_allocation := Some 0,
        ri_available_cash := Some 100, ri_daily_loss := Some 0, ri_drawdown := Some 0\<rparr>)
     (Some default_limits)"
  by (rule sell_ignores_exposure_limits) (simp_all add: sample_signal_def same_for_sell_def)

section \<open>Decisions are always reached\<close>

lemma drem_not_Inl: "drem x y = Inl e \<Longrightarrow> 0 < y \<Longrightarrow> 10 ^ 28 * y \<le> \<bar>x\<bar>"
  using drem_total[of y x] by (cases "\<bar>x\<bar> < 10 ^ 28 * y") (auto simp: not_less)

text \<open>
  C7. \<^verbatim>\<open>evaluate\<close> always returns a decision when the venue's increments are not absurdly small next
  to the quantity and the price: as long as the quantity above the minimum and the price are below
  \<open>10\<^sup>2\<^sup>8\<close> increments, no decimal operation raises.
\<close>

theorem evaluate_returns:
  assumes "\<And>c p. ri_constraints i = Some c \<Longrightarrow> ri_expected_price i = Some p \<Longrightarrow>
      0 < xc_quantity_increment c \<Longrightarrow> 0 < xc_price_increment c \<Longrightarrow>
      \<bar>dsub (sig_quantity sg) (xc_min_quantity c)\<bar> < 10 ^ 28 * xc_quantity_increment c \<and>
      \<bar>p\<bar> < 10 ^ 28 * xc_price_increment c"
  shows "\<exists>a. evaluate aid now sg i limits = Inr a"
proof (cases "evaluate aid now sg i limits")
  case (Inl e)
  from evaluate_Inl_all_inputs[OF this] obtain c p where
    c: "ri_constraints i = Some c" "ri_expected_price i = Some p"
    and last: "gate_exchange_constraints sg i = Inl e" by (auto simp: missing_input_def)
  then have inc: "0 < xc_quantity_increment c" "0 < xc_price_increment c"
    by (auto simp: gate_exchange_constraints_def split: if_splits)
  with last c have "(\<exists>e. drem (dsub (sig_quantity sg) (xc_min_quantity c)) (xc_quantity_increment c) = Inl e)
      \<or> (\<exists>e. drem p (xc_price_increment c) = Inl e)"
    by (auto simp: gate_exchange_constraints_def rbind_def lift_arith_def refuse_def passed_def
        split: sum.splits if_splits)
  with assms[OF c inc] inc show ?thesis by (meson drem_not_Inl not_le)
qed simp

theorem evaluate_returns_witness: "\<exists>a. evaluate ''a'' 7 sample_signal sample_inputs None = Inr a"
  by (rule evaluate_returns) (auto simp: sample_inputs_def sample_signal_def dsub_def)

end
