(* ===== verification/Ledger.thy ===== *)
theory Ledger
  imports Models "HOL-Library.Multiset"
begin

text \<open>
  The portfolio projection of \<^verbatim>\<open>portfolio/ledger.py\<close> and the equity definition of
  \<^verbatim>\<open>portfolio/valuation.py\<close>. \<open>apply_fills\<close> keeps the source's dictionaries (positions, rounded
  balances, unrounded balances) and its loop over the fills in \<^verbatim>\<open>(occurred_at, fill_id)\<close> order;
  its exceptions are a symbol without a hyphen, a negative projection, a zero divisor and a failed
  model validation. The lemmas relate the loop to the sum of the movements of one asset.
\<close>

section \<open>State\<close>

record portfolio_state =
  pf_orders :: "(string, trade_order) dict"
  pf_fills :: "(string, fill) dict"
  pf_positions :: "position list"
  pf_balances :: "balance list"

type_synonym holdings = "(string, rat \<times> rat option) dict"
type_synonym amounts = "(string, rat) dict"

record ledger_state =
  ls_positions :: holdings
  ls_available :: amounts
  ls_exact :: amounts

section \<open>Applying fills\<close>

definition toward_zero :: "rat \<Rightarrow> rat \<Rightarrow> exn + rat" where
  "toward_zero amount increment =
     rbind (lift_arith (ddiv amount increment)) (\<lambda>q. Inr (dmul (of_int (trunc q)) increment))"

definition side_sign :: "order_side \<Rightarrow> rat" where
  "side_sign s = (if s = BUY then 1 else - 1)"

text \<open>The three amounts a fill moves: base quantity, quote notional, fee.\<close>

definition movements :: "string \<Rightarrow> string \<Rightarrow> fill \<Rightarrow> (string \<times> rat) list" where
  "movements base quote f =
     [(base, dmul (side_sign (fill_side f)) (fill_quantity f)),
      (quote, dmul (dneg (side_sign (fill_side f))) (dmul (fill_quantity f) (fill_price f))),
      (fill_fee_asset f, dneg (fill_fee f))]"

definition settle :: "amounts \<Rightarrow> string \<Rightarrow> rat \<Rightarrow> exn + rat" where
  "settle increments asset amount =
     (case map_of increments asset of
        None \<Rightarrow> Inr amount
      | Some inc \<Rightarrow> toward_zero amount inc)"

definition move_asset :: "amounts \<Rightarrow> string \<times> rat \<Rightarrow> ledger_state \<Rightarrow> exn + ledger_state" where
  "move_asset increments am s =
     (case am of (asset, amount) \<Rightarrow>
        rbind (settle increments asset amount)
          (\<lambda>settled. Inr (s\<lparr>
             ls_exact := AList.update asset (dadd (dict_get (ls_exact s) asset 0) amount) (ls_exact s),
             ls_available :=
               AList.update asset (dadd (dict_get (ls_available s) asset 0) settled) (ls_available s)\<rparr>)))"

definition next_holding :: "fill \<Rightarrow> rat \<times> rat option \<Rightarrow> exn + (rat \<times> rat option)" where
  "next_holding f h =
     (case h of (quantity, average) \<Rightarrow>
        let notional = dmul (fill_quantity f) (fill_price f) in
        if fill_side f = BUY then
          let total = dadd quantity (fill_quantity f) in
          if quantity = 0 then
            rbind (lift_arith (ddiv notional total)) (\<lambda>a. Inr (total, Some a))
          else (case average of
                  None \<Rightarrow> Inr (total, None)
                | Some avg \<Rightarrow>
                    rbind (lift_arith (ddiv (dadd (dmul quantity avg) notional) total))
                      (\<lambda>a. Inr (total, Some a)))
        else Inr (dsub quantity (fill_quantity f), average))"

definition apply_fill :: "amounts \<Rightarrow> fill \<Rightarrow> ledger_state \<Rightarrow> exn + ledger_state" where
  "apply_fill increments f s =
     (case split_hyphen (fill_symbol f) of
        None \<Rightarrow> Inl (ValueError ''not enough values to unpack'')
      | Some (base, quote) \<Rightarrow>
          rbind (rfold (move_asset increments) (movements base quote f) s)
            (\<lambda>s1. rbind (next_holding f (dict_get (ls_positions s1) (fill_symbol f) (0, None)))
               (\<lambda>h. Inr (s1\<lparr>ls_positions :=
                        AList.update (fill_symbol f) h (ls_positions s1)\<rparr>))))"

definition fill_key :: "fill \<Rightarrow> datetime \<times> string" where
  "fill_key f = (fill_occurred_at f, fill_fill_id f)"

definition ledger_init :: "portfolio_state \<Rightarrow> ledger_state" where
  "ledger_init base =
     \<lparr>ls_positions = dict_of (map (\<lambda>p. (pos_symbol p, (pos_quantity p, pos_average_price p)))
        (pf_positions base)),
      ls_available = dict_of (map (\<lambda>b. (bal_asset b, bal_available b)) (pf_balances base)),
      ls_exact = dict_of (map (\<lambda>b. (bal_asset b, bal_available b)) (pf_balances base))\<rparr>"

definition holds_of :: "portfolio_state \<Rightarrow> amounts" where
  "holds_of base = dict_of (map (\<lambda>b. (bal_asset b, bal_hold b)) (pf_balances base))"

definition negative_assets :: "ledger_state \<Rightarrow> string list" where
  "negative_assets s =
     map fst (filter (\<lambda>(asset, amount). amount < 0 \<or> dict_get (ls_exact s) asset 0 < 0) (ls_available s))"

definition ledger_positions :: "datetime \<Rightarrow> holdings \<Rightarrow> position list" where
  "ledger_positions now ps =
     map (\<lambda>(symbol, quantity, average).
            \<lparr>pos_symbol = symbol, pos_quantity = quantity, pos_average_price = average, pos_as_of = now\<rparr>)
       (filter (\<lambda>(symbol, quantity, average). quantity \<noteq> 0) (sort_key fst ps))"

definition ledger_balances :: "datetime \<Rightarrow> amounts \<Rightarrow> amounts \<Rightarrow> balance list" where
  "ledger_balances now holds available =
     map (\<lambda>(asset, amount).
            \<lparr>bal_asset = asset, bal_available = amount, bal_hold = dict_get holds asset 0, bal_as_of = now\<rparr>)
       (filter (\<lambda>(asset, amount). amount \<noteq> 0 \<or> dict_get holds asset 0 \<noteq> 0) (sort_key fst available))"

definition apply_fills ::
  "datetime \<Rightarrow> amounts \<Rightarrow> portfolio_state \<Rightarrow> fill list \<Rightarrow> exn + portfolio_state"
where
  "apply_fills now increments base fills =
     rbind (rfold (apply_fill increments) (sort_key fill_key fills) (ledger_init base))
       (\<lambda>s. if negative_assets s \<noteq> []
             then Inl (ValueError (''projected '' @ hd (negative_assets s) @ '' balance is negative''))
             else let ps = ledger_positions now (ls_positions s);
                      bs = ledger_balances now (holds_of base) (ls_available s) in
               if \<not> list_all valid_position ps then Inl (ValidationError ''Position'')
               else if \<not> list_all valid_balance bs then Inl (ValidationError ''Balance'')
               else Inr \<lparr>pf_orders = pf_orders base, pf_fills = pf_fills base,
                          pf_positions = ps, pf_balances = bs\<rparr>)"

section \<open>Valuation\<close>

definition quote_cash :: "balance list \<Rightarrow> string \<Rightarrow> rat \<times> rat" where
  "quote_cash balances quote_asset =
     (case List.find (\<lambda>b. bal_asset b = quote_asset) balances of
        None \<Rightarrow> (0, 0)
      | Some b \<Rightarrow> (bal_available b, dadd (bal_available b) (bal_hold b)))"

definition held_positions :: "position list \<Rightarrow> (string, position) dict" where
  "held_positions ps =
     dict_of (map (\<lambda>p. (pos_symbol p, p)) (filter (\<lambda>p. pos_quantity p \<noteq> 0) ps))"

definition mark_from_quote :: "quote \<Rightarrow> string \<Rightarrow> rat option" where
  "mark_from_quote q symb = (if q_symbol q = symb then Some (q_bid q) else None)"

definition position_value :: "position \<Rightarrow> rat \<Rightarrow> rat" where
  "position_value p mark = dmul (dabs (pos_quantity p)) mark"

definition equity_value :: "rat \<Rightarrow> rat \<Rightarrow> rat" where
  "equity_value total_cash exposure = dadd total_cash exposure"

section \<open>The ledger as a replay of movements\<close>

text \<open>The movements of one asset a fill makes, in the order the loop applies them.\<close>

definition asset_moves :: "string \<Rightarrow> fill \<Rightarrow> rat list" where
  "asset_moves asset f =
     (case split_hyphen (fill_symbol f) of
        None \<Rightarrow> []
      | Some (base, quote) \<Rightarrow> map snd (filter (\<lambda>(a, _). a = asset) (movements base quote f)))"

definition all_moves :: "string \<Rightarrow> fill list \<Rightarrow> rat list" where
  "all_moves asset fills = concat (map (asset_moves asset) (sort_key fill_key fills))"

definition settled_moves :: "amounts \<Rightarrow> string \<Rightarrow> rat list \<Rightarrow> rat list" where
  "settled_moves increments asset ms = map (\<lambda>m. case settle increments asset m of Inr x \<Rightarrow> x | Inl _ \<Rightarrow> 0) ms"

definition available_of :: "balance list \<Rightarrow> string \<Rightarrow> rat" where
  "available_of bs asset = dict_get (dict_of (map (\<lambda>b. (bal_asset b, bal_available b)) bs)) asset 0"

abbreviation running :: "rat \<Rightarrow> rat list \<Rightarrow> rat" where
  "running start ms \<equiv> foldl dadd start ms"

lemma rfold_move_asset:
  assumes "rfold (move_asset inc) ms s = Inr s'"
  shows "dict_get (ls_exact s') a 0 =
           running (dict_get (ls_exact s) a 0) (map snd (filter (\<lambda>(x, _). x = a) ms)) \<and>
         dict_get (ls_available s') a 0 =
           running (dict_get (ls_available s) a 0)
             (settled_moves inc a (map snd (filter (\<lambda>(x, _). x = a) ms))) \<and>
         ls_positions s' = ls_positions s"
  using assms
proof (induction ms arbitrary: s)
  case (Cons m ms)
  obtain b x where m: "m = (b, x)" by (cases m)
  obtain t where t: "move_asset inc m s = Inr t" "rfold (move_asset inc) ms t = Inr s'"
    using Cons.prems by (auto split: sum.splits)
  then obtain y where y: "settle inc b x = Inr y"
    and t': "t = s\<lparr>ls_exact := AList.update b (dadd (dict_get (ls_exact s) b 0) x) (ls_exact s),
             ls_available := AList.update b (dadd (dict_get (ls_available s) b 0) y) (ls_available s)\<rparr>"
    by (auto simp: move_asset_def m)
  show ?case
    using Cons.IH[OF t(2)] y by (cases "b = a") (auto simp: t' m settled_moves_def)
qed (simp add: settled_moves_def)

lemma apply_fill_moves:
  assumes "apply_fill inc f s = Inr s'"
  shows "dict_get (ls_exact s') a 0 = running (dict_get (ls_exact s) a 0) (asset_moves a f) \<and>
         dict_get (ls_available s') a 0 =
           running (dict_get (ls_available s) a 0) (settled_moves inc a (asset_moves a f))"
proof -
  obtain base quote where bq: "split_hyphen (fill_symbol f) = Some (base, quote)"
    using assms by (auto simp: apply_fill_def split: option.splits)
  obtain t h where "rfold (move_asset inc) (movements base quote f) s = Inr t"
    and s': "s' = t\<lparr>ls_positions := AList.update (fill_symbol f) h (ls_positions t)\<rparr>"
    using assms by (auto simp: apply_fill_def bq)
  from rfold_move_asset[OF this(1)] show ?thesis
    by (simp add: s' asset_moves_def bq)
qed

lemma rfold_apply_fill_moves:
  assumes "rfold (apply_fill inc) fs s = Inr s'"
  shows "dict_get (ls_exact s') a 0 =
           running (dict_get (ls_exact s) a 0) (concat (map (asset_moves a) fs)) \<and>
         dict_get (ls_available s') a 0 =
           running (dict_get (ls_available s) a 0)
             (settled_moves inc a (concat (map (asset_moves a) fs)))"
  using assms
proof (induction fs arbitrary: s)
  case (Cons f fs)
  then obtain t where t: "apply_fill inc f s = Inr t" "rfold (apply_fill inc) fs t = Inr s'"
    by (auto split: sum.splits)
  show ?case using apply_fill_moves[OF t(1)] Cons.IH[OF t(2)] by (simp add: settled_moves_def)
qed (simp add: settled_moves_def)

lemma ledger_balances_available:
  assumes "distinct_keys av"
  shows "available_of (ledger_balances now holds av) a = dict_get av a 0"
proof -
  let ?P = "\<lambda>(asset, amount). amount \<noteq> 0 \<or> dict_get holds asset 0 \<noteq> 0"
  let ?kvs = "filter ?P (sort_key fst av)"
  have d: "distinct_keys (sort_key fst av)"
    using assms by (rule distinct_keys_sort_key)
  have "map (\<lambda>b. (bal_asset b, bal_available b)) (ledger_balances now holds av) = ?kvs"
    by (simp add: ledger_balances_def comp_def case_prod_unfold)
  moreover have "map_of (dict_of ?kvs) = map_of ?kvs"
    using d by (simp add: map_of_dict_of map_of_rev_distinct distinct_map_filter)
  ultimately show ?thesis
    unfolding available_of_def
    by (simp add: map_of_filter_distinct[OF d] map_of_sort_key_fst[OF assms] split: option.splits)
qed

text \<open>The loop keeps one entry per asset, and the same assets in both dictionaries.\<close>

definition ledger_ok :: "ledger_state \<Rightarrow> bool" where
  "ledger_ok s \<longleftrightarrow>
     distinct_keys (ls_available s) \<and> fst ` set (ls_available s) = fst ` set (ls_exact s)"

lemma ledger_ok_move_asset:
  assumes "move_asset inc am s = Inr s'" "ledger_ok s"
  shows "ledger_ok s'"
proof -
  obtain asset amount where am: "am = (asset, amount)" by (cases am)
  obtain x where "s' = s\<lparr>
      ls_exact := AList.update asset (dadd (dict_get (ls_exact s) asset 0) amount) (ls_exact s),
      ls_available := AList.update asset (dadd (dict_get (ls_available s) asset 0) x) (ls_available s)\<rparr>"
    using assms(1) by (auto simp: move_asset_def am)
  then show ?thesis using assms(2) by (simp add: ledger_ok_def keys_update)
qed

lemma ledger_ok_apply_fill:
  assumes "apply_fill inc f s = Inr s'" "ledger_ok s"
  shows "ledger_ok s'"
proof -
  obtain base quote t h where t: "rfold (move_asset inc) (movements base quote f) s = Inr t"
    and s': "s' = t\<lparr>ls_positions := h\<rparr>"
    using assms(1) by (auto simp: apply_fill_def split: option.splits)
  have "ledger_ok t"
    using t assms(2) by (rule rfold_invariant) (rule ledger_ok_move_asset)
  then show ?thesis by (simp add: s' ledger_ok_def)
qed

lemma ledger_ok_loop:
  assumes "rfold (apply_fill inc) fs (ledger_init base) = Inr s"
  shows "ledger_ok s"
  using assms
proof (rule rfold_invariant)
  show "ledger_ok (ledger_init base)" by (simp add: ledger_ok_def ledger_init_def)
qed (rule ledger_ok_apply_fill)

text \<open>What a successful projection is made of.\<close>

lemma apply_fills_InrE:
  assumes "apply_fills now inc base fills = Inr p"
  obtains s where "rfold (apply_fill inc) (sort_key fill_key fills) (ledger_init base) = Inr s"
    "negative_assets s = []" "ledger_ok s"
    "pf_positions p = ledger_positions now (ls_positions s)"
    "pf_balances p = ledger_balances now (holds_of base) (ls_available s)"
    "list_all valid_position (pf_positions p)" "list_all valid_balance (pf_balances p)"
    "pf_orders p = pf_orders base" "pf_fills p = pf_fills base"
proof -
  obtain s where s: "rfold (apply_fill inc) (sort_key fill_key fills) (ledger_init base) = Inr s"
    and p: "(if negative_assets s \<noteq> []
        then Inl (ValueError (''projected '' @ hd (negative_assets s) @ '' balance is negative''))
        else let ps = ledger_positions now (ls_positions s);
                 bs = ledger_balances now (holds_of base) (ls_available s) in
          if \<not> list_all valid_position ps then Inl (ValidationError ''Position'')
          else if \<not> list_all valid_balance bs then Inl (ValidationError ''Balance'')
          else Inr \<lparr>pf_orders = pf_orders base, pf_fills = pf_fills base,
                     pf_positions = ps, pf_balances = bs\<rparr>) = Inr p"
    using assms unfolding apply_fills_def by blast
  have "ledger_ok s" using s by (rule ledger_ok_loop)
  with s p show ?thesis by (intro that[of s]) (auto simp: Let_def split: if_splits)
qed

lemma no_negative_assets:
  assumes "negative_assets s = []" "ledger_ok s"
  shows "0 \<le> dict_get (ls_available s) a 0 \<and> 0 \<le> dict_get (ls_exact s) a 0"
proof (cases "map_of (ls_available s) a")
  case None
  then have "map_of (ls_exact s) a = None" using assms(2) by (simp add: map_of_eq_None_iff ledger_ok_def)
  with None show ?thesis by simp
next
  case (Some v)
  then have "(a, v) \<in> set (ls_available s)" by (rule map_of_SomeD)
  with assms(1) Some show ?thesis
    by (force simp: negative_assets_def filter_empty_conv not_less)
qed

section \<open>Properties\<close>

lemma ledger_init_get:
  "dict_get (ls_available (ledger_init base)) a 0 = available_of (pf_balances base) a"
  "dict_get (ls_exact (ledger_init base)) a 0 = available_of (pf_balances base) a"
  by (simp_all add: ledger_init_def available_of_def)


text \<open>
  No shortfall is hidden. When the projection succeeds, no asset's balance is negative, and
  neither is the balance computed from the unrounded movements: an account that cannot pay the
  exact amounts is refused even when the rounded debits would leave it at zero or above.
\<close>

theorem ledger_never_hides_a_shortfall:
  assumes "apply_fills now inc base fills = Inr p"
  shows "0 \<le> available_of (pf_balances p) asset \<and>
     0 \<le> running (available_of (pf_balances base) asset) (all_moves asset fills)"
proof -
  obtain s where s: "rfold (apply_fill inc) (sort_key fill_key fills) (ledger_init base) = Inr s"
    "negative_assets s = []" "ledger_ok s"
    "pf_balances p = ledger_balances now (holds_of base) (ls_available s)"
    using assms by (rule apply_fills_InrE)
  from no_negative_assets[OF s(2,3), of asset] rfold_apply_fill_moves[OF s(1), of asset] s(3,4)
  show ?thesis by (simp add: ledger_balances_available ledger_ok_def all_moves_def ledger_init_get)
qed

text \<open>
  Settlement drops the remainder. For a unit that is a power of ten and an amount that is a
  decimal of at most 28 digits, \<^verbatim>\<open>_toward_zero\<close> returns a whole number of units, with the sign of the
  amount, no larger than it and less than one unit away from it.
\<close>

theorem toward_zero_drops_remainder:
  assumes "dec amount = amount" "\<bar>amount\<bar> * 10 ^ k < 10 ^ 28"
  shows "\<exists>n. toward_zero amount (1 / 10 ^ k) = Inr (of_int n / 10 ^ k) \<and>
     \<bar>of_int n / 10 ^ k\<bar> \<le> \<bar>amount\<bar> \<and> \<bar>amount - of_int n / 10 ^ k\<bar> < 1 / 10 ^ k \<and>
     0 \<le> of_int n / 10 ^ k * amount"
proof -
  let ?n = "trunc (amount * 10 ^ k)"
  have le: "\<bar>of_int ?n\<bar> \<le> \<bar>amount\<bar> * 10 ^ k"
    using trunc_toward_zero[of "amount * 10 ^ k"] by (simp add: abs_mult)
  then have "\<bar>of_int ?n :: rat\<bar> < 10 ^ 28" using assms(2) by linarith
  then have "(of_int \<bar>?n\<bar> :: rat) < of_int (10 ^ 28)" by simp
  then have "\<bar>?n\<bar> < 10 ^ 28" by (simp only: of_int_less_iff)
  then have tz: "toward_zero amount (1 / 10 ^ k) = Inr (of_int ?n / 10 ^ k)"
    by (simp add: toward_zero_def dmul_def dec_scale assms(1))
  have near: "\<bar>amount - of_int ?n / 10 ^ k\<bar> < 1 / 10 ^ k"
  proof -
    have "amount - of_int ?n / 10 ^ k = (amount * 10 ^ k - of_int ?n) / 10 ^ k" by (simp add: field_simps)
    then show ?thesis
      using trunc_near[of "amount * 10 ^ k"] by (simp add: abs_divide divide_strict_right_mono)
  qed
  have "0 \<le> of_int ?n * amount"
  proof (cases "0 \<le> amount")
    case False
    then have "amount * 10 ^ k < 0" by (simp add: mult_neg_pos)
    then have "?n \<le> 0" by (simp add: trunc_def)
    with False show ?thesis by (simp add: mult_nonpos_nonpos)
  qed (simp add: trunc_def)
  with tz near le show ?thesis
    by (intro exI[of _ ?n]) (auto simp: abs_mult abs_divide field_simps)
qed

theorem toward_zero_drops_remainder_witness:
  "\<exists>n. toward_zero 7 (1 / 10 ^ 2) = Inr (of_int n / 10 ^ 2) \<and>
     \<bar>of_int n / 10 ^ 2\<bar> \<le> \<bar>7 :: rat\<bar> \<and> \<bar>7 - of_int n / 10 ^ 2\<bar> < (1 :: rat) / 10 ^ 2 \<and>
     0 \<le> of_int n / 10 ^ 2 * (7 :: rat)"
  by (rule toward_zero_drops_remainder) simp_all


section \<open>Cost basis\<close>

text \<open>A fill changes the holding of its own symbol and of no other.\<close>

lemma apply_fill_holding:
  assumes "apply_fill inc f s = Inr s'"
  shows "\<exists>h. next_holding f (dict_get (ls_positions s) (fill_symbol f) (0, None)) = Inr h \<and>
    ls_positions s' = AList.update (fill_symbol f) h (ls_positions s)"
proof -
  obtain base quote where bq: "split_hyphen (fill_symbol f) = Some (base, quote)"
    using assms by (auto simp: apply_fill_def split: option.splits)
  obtain t h where t: "rfold (move_asset inc) (movements base quote f) s = Inr t"
    and h: "next_holding f (dict_get (ls_positions t) (fill_symbol f) (0, None)) = Inr h"
      "s' = t\<lparr>ls_positions := AList.update (fill_symbol f) h (ls_positions t)\<rparr>"
    using assms by (auto simp: apply_fill_def bq)
  from rfold_move_asset[OF t] h show ?thesis by auto
qed

text \<open>The holding of one symbol is the replay of that symbol's fills.\<close>

lemma rfold_holding:
  assumes "rfold (apply_fill inc) fs s = Inr s'"
  shows "rfold next_holding (filter (\<lambda>f. fill_symbol f = symb) fs)
           (dict_get (ls_positions s) symb (0, None)) =
         Inr (dict_get (ls_positions s') symb (0, None))"
  using assms
proof (induction fs arbitrary: s)
  case (Cons f fs)
  then obtain t where t: "apply_fill inc f s = Inr t" "rfold (apply_fill inc) fs t = Inr s'"
    by (auto split: sum.splits)
  show ?case using apply_fill_holding[OF t(1)] Cons.IH[OF t(2)] by (auto split: sum.splits)
qed simp

text \<open>A buy of an open holding of unknown cost leaves a larger holding of unknown cost.\<close>

lemma next_holding_unknown_buy:
  assumes "fill_side f = BUY" "valid_fill f" "0 < fst h" "snd h = None" "next_holding f h = Inr h'"
  shows "0 < fst h' \<and> snd h' = None"
  using assms by (cases h) (auto simp: next_holding_def valid_fill_def dadd_def Let_def)

lemma rfold_unknown_buys:
  assumes "rfold next_holding fs h = Inr h'" "0 < fst h" "snd h = None"
    "\<forall>f \<in> set fs. fill_side f = BUY \<and> valid_fill f"
  shows "0 < fst h' \<and> snd h' = None"
  by (rule rfold_invariant[OF assms(1), where P = "\<lambda>h. 0 < fst h \<and> snd h = None"])
    (use assms(2-4) next_holding_unknown_buy in blast)+

definition position_of :: "position list \<Rightarrow> string \<Rightarrow> rat \<times> rat option" where
  "position_of ps symb =
     dict_get (dict_of (map (\<lambda>p. (pos_symbol p, (pos_quantity p, pos_average_price p))) ps)) symb (0, None)"

lemma ledger_positions_of:
  assumes "distinct_keys d"
  shows "position_of (ledger_positions now d) symb =
    (if fst (dict_get d symb (0, None)) = 0 then (0, None) else dict_get d symb (0, None))"
proof -
  let ?P = "\<lambda>(symbol, quantity, average). quantity \<noteq> (0 :: rat)"
  let ?kvs = "filter ?P (sort_key fst d)"
  have d: "distinct_keys (sort_key fst d)"
    using assms by (rule distinct_keys_sort_key)
  have "map (\<lambda>p. (pos_symbol p, (pos_quantity p, pos_average_price p))) (ledger_positions now d) = ?kvs"
    by (simp add: ledger_positions_def comp_def case_prod_unfold)
  moreover have "map_of (dict_of ?kvs) = map_of ?kvs"
    using d by (simp add: map_of_dict_of map_of_rev_distinct distinct_map_filter)
  ultimately show ?thesis
    unfolding position_of_def
    by (auto simp: map_of_filter_distinct[OF d] map_of_sort_key_fst[OF assms] split: option.splits)
qed

lemma distinct_holdings_loop:
  assumes "rfold (apply_fill inc) fs (ledger_init base) = Inr s"
  shows "distinct_keys (ls_positions s)"
  using assms
proof (rule rfold_invariant)
  show "distinct_keys (ls_positions (ledger_init base))" by (simp add: ledger_init_def)
next
  fix f s s' assume "distinct_keys (ls_positions s)" "apply_fill inc f s = Inr s'"
  then show "distinct_keys (ls_positions s')" using apply_fill_holding by fastforce
qed

lemma apply_fills_holding:
  assumes "apply_fills now inc base fills = Inr p"
  shows "\<exists>h. rfold next_holding (filter (\<lambda>f. fill_symbol f = symb) (sort_key fill_key fills))
      (position_of (pf_positions base) symb) = Inr h \<and>
    position_of (pf_positions p) symb = (if fst h = 0 then (0, None) else h)"
proof -
  obtain s where s: "rfold (apply_fill inc) (sort_key fill_key fills) (ledger_init base) = Inr s"
    "pf_positions p = ledger_positions now (ls_positions s)"
    using assms by (rule apply_fills_InrE)
  from rfold_holding[OF s(1), of symb] ledger_positions_of[OF distinct_holdings_loop[OF s(1)], of now symb]
  show ?thesis by (simp add: s(2) ledger_init_def position_of_def)
qed

text \<open>
  An unknown cost basis stays unknown: when a symbol is held with no average price and is then only
  bought, the projected position is still held and still has no average price; the new fills'
  prices are never blended against a placeholder.
\<close>

theorem unknown_cost_basis_stays_unknown:
  assumes "apply_fills now inc base fills = Inr p"
    "position_of (pf_positions base) symb = (q, None)" "0 < q"
    "\<forall>f \<in> set fills. fill_symbol f = symb \<longrightarrow> fill_side f = BUY \<and> valid_fill f"
  shows "0 < fst (position_of (pf_positions p) symb) \<and> snd (position_of (pf_positions p) symb) = None"
proof -
  obtain h where h: "rfold next_holding (filter (\<lambda>f. fill_symbol f = symb) (sort_key fill_key fills)) (q, None)
      = Inr h" and p: "position_of (pf_positions p) symb = (if fst h = 0 then (0, None) else h)"
    using apply_fills_holding[OF assms(1), of symb] assms(2) by auto
  have "0 < fst h \<and> snd h = None"
    using rfold_unknown_buys[OF h] assms(3,4) by simp
  then show ?thesis by (simp add: p)
qed

section \<open>A sample account\<close>

definition sample_base :: portfolio_state where
  "sample_base = \<lparr>pf_orders = [], pf_fills = [],
     pf_positions = [\<lparr>pos_symbol = ''B-U'', pos_quantity = 3, pos_average_price = None, pos_as_of = 0\<rparr>],
     pf_balances = [\<lparr>bal_asset = ''B'', bal_available = 3, bal_hold = 0, bal_as_of = 0\<rparr>,
       \<lparr>bal_asset = ''U'', bal_available = 100, bal_hold = 5, bal_as_of = 0\<rparr>]\<rparr>"

definition sample_buy :: fill where
  "sample_buy = \<lparr>fill_fill_id = ''f1'', fill_order_id = ''o1'', fill_symbol = ''B-U'', fill_side = BUY,
     fill_quantity = 2, fill_price = 10, fill_fee = 1, fill_fee_asset = ''U'', fill_occurred_at = 5\<rparr>"

definition sample_after :: portfolio_state where
  "sample_after = \<lparr>pf_orders = [], pf_fills = [],
     pf_positions = [\<lparr>pos_symbol = ''B-U'', pos_quantity = 5, pos_average_price = None, pos_as_of = 9\<rparr>],
     pf_balances = [\<lparr>bal_asset = ''B'', bal_available = 5, bal_hold = 0, bal_as_of = 9\<rparr>,
       \<lparr>bal_asset = ''U'', bal_available = 79, bal_hold = 5, bal_as_of = 9\<rparr>]\<rparr>"

lemma dec_neg_numeral [simp]: "numeral w < (10 ^ 28 :: int) \<Longrightarrow> dec (- numeral w) = - numeral w"
  by (simp add: dec.r_minus)

lemma sample_run: "apply_fills 9 [(''U'', 1)] sample_base [sample_buy] = Inr sample_after"
  by (simp add: apply_fills_def sample_base_def sample_buy_def sample_after_def ledger_init_def
      holds_of_def dict_of_def apply_fill_def movements_def move_asset_def settle_def toward_zero_def
      side_sign_def next_holding_def dec_op_defs trunc_def negative_assets_def ledger_positions_def
      ledger_balances_def valid_position_def valid_balance_def dec.r_minus)


theorem ledger_never_hides_a_shortfall_witness:
  "0 \<le> available_of (pf_balances sample_after) ''U'' \<and>
     0 \<le> running (available_of (pf_balances sample_base) ''U'') (all_moves ''U'' [sample_buy])"
  by (rule ledger_never_hides_a_shortfall[OF sample_run])

theorem unknown_cost_basis_stays_unknown_witness:
  "0 < fst (position_of (pf_positions sample_after) ''B-U'') \<and>
     snd (position_of (pf_positions sample_after) ''B-U'') = None"
  by (rule unknown_cost_basis_stays_unknown[OF sample_run, where q = 3])
    (simp_all add: position_of_def sample_base_def dict_of_def sample_buy_def valid_fill_def)

end
