(* ===== verification/Simulated.thy ===== *)
theory Simulated
  imports Ledger
begin

text \<open>
  The deterministic local broker of \<^verbatim>\<open>brokers/simulated.py\<close>: its configuration and fault plan, the
  dictionaries it keeps, and every method. A method is an action, so the state an exception leaves
  behind is part of the model; the clock is read once per call and is the argument \<open>now\<close>. The
  methods of \<^verbatim>\<open>BrokerInterface\<close> return an exception for an injected fault, for a symbol without
  a hyphen, for a model that does not validate and for a division by zero.

  The lemmas show which state every reachable broker is in (\<open>sim_ok\<close>), that resubmission is
  idempotent, that fill identifiers are unique, and that the broker's accounting of a fill is the
  ledger's.
\<close>

section \<open>Configuration\<close>

datatype sim_fault =
  FREJECT | FTIMEOUT | FDUPLICATE_ACK | FOUT_OF_ORDER_FILLS | FRATE_LIMITED | FUNAVAILABLE

fun fault_value :: "sim_fault \<Rightarrow> string" where
  "fault_value FREJECT = ''reject''"
| "fault_value FTIMEOUT = ''timeout''"
| "fault_value FDUPLICATE_ACK = ''duplicate_ack''"
| "fault_value FOUT_OF_ORDER_FILLS = ''out_of_order_fills''"
| "fault_value FRATE_LIMITED = ''rate_limited''"
| "fault_value FUNAVAILABLE = ''unavailable''"

record sim_config =
  cfg_slippage :: rat
  cfg_fee_rate :: rat
  cfg_fee_asset :: string
  cfg_partial_fill_schedule :: "rat list"
  cfg_initial_quote_balance :: rat

definition default_sim_config :: sim_config where
  "default_sim_config = \<lparr>cfg_slippage = 0, cfg_fee_rate = 0, cfg_fee_asset = ''USD'',
     cfg_partial_fill_schedule = [1 / 2, 1], cfg_initial_quote_balance = 100000\<rparr>"

text \<open>The loop over the schedule: the last ratio, when each lies above the one before and at most 1.\<close>

fun check_schedule :: "rat list \<Rightarrow> rat \<Rightarrow> exn + rat" where
  "check_schedule [] previous = Inr previous"
| "check_schedule (ratio # rest) previous =
     (if ratio \<le> previous \<or> 1 < ratio
      then Inl (ValueError ''partial_fill_schedule must increase from 0 to 1'')
      else check_schedule rest ratio)"

definition mk_sim_config :: "sim_config \<Rightarrow> exn + sim_config" where
  "mk_sim_config c =
     (if cfg_slippage c < 0 \<or> 1 \<le> cfg_slippage c
        then Inl (ValueError ''slippage must be in the range [0, 1)'')
      else if cfg_fee_rate c < 0 then Inl (ValueError ''fee_rate must not be negative'')
      else if py_strip (cfg_fee_asset c) = [] then Inl (ValueError ''fee_asset must not be empty'')
      else if cfg_initial_quote_balance c < 0
        then Inl (ValueError ''initial_quote_balance must not be negative'')
      else if cfg_partial_fill_schedule c = []
        then Inl (ValueError ''partial_fill_schedule must contain at least one ratio'')
      else rbind (check_schedule (cfg_partial_fill_schedule c) 0)
        (\<lambda>previous. if previous \<noteq> 1
           then Inl (ValueError ''partial_fill_schedule must end at 1'') else Inr c))"

datatype sim_operation = OpSubmit | OpGetQuote | OpGetOrder | OpGetFills | OpGetBalances | OpGetPositions

fun operation_name :: "sim_operation \<Rightarrow> string" where
  "operation_name OpSubmit = ''submit''"
| "operation_name OpGetQuote = ''get_quote''"
| "operation_name OpGetOrder = ''get_order''"
| "operation_name OpGetFills = ''get_fills''"
| "operation_name OpGetBalances = ''get_balances''"
| "operation_name OpGetPositions = ''get_positions''"

record fault_plan =
  fp_submit :: "sim_fault list"
  fp_get_quote :: "sim_fault list"
  fp_get_order :: "sim_fault list"
  fp_get_fills :: "sim_fault list"
  fp_get_balances :: "sim_fault list"
  fp_get_positions :: "sim_fault list"
  fp_unavailable :: bool

fun plan_queue :: "fault_plan \<Rightarrow> sim_operation \<Rightarrow> sim_fault list" where
  "plan_queue p OpSubmit = fp_submit p"
| "plan_queue p OpGetQuote = fp_get_quote p"
| "plan_queue p OpGetOrder = fp_get_order p"
| "plan_queue p OpGetFills = fp_get_fills p"
| "plan_queue p OpGetBalances = fp_get_balances p"
| "plan_queue p OpGetPositions = fp_get_positions p"

text \<open>The injected failures, by the class the program raises and the order it carries.\<close>

definition OrderRejectedError :: "trade_order \<Rightarrow> exn" where
  "OrderRejectedError ord = ProviderError ''OrderRejectedError'' (Some ord)"

definition SubmissionTimeoutError :: "trade_order \<Rightarrow> exn" where
  "SubmissionTimeoutError ord = ProviderError ''SubmissionTimeoutError'' (Some ord)"

definition DuplicateAcknowledgementError :: "trade_order \<Rightarrow> exn" where
  "DuplicateAcknowledgementError ord = ProviderError ''DuplicateAcknowledgementError'' (Some ord)"

definition RateLimitError :: exn where
  "RateLimitError = ProviderError ''RateLimitError'' None"

definition BrokerUnavailableError :: exn where
  "BrokerUnavailableError = ProviderError ''BrokerUnavailableError'' None"

section \<open>State\<close>

record sim_broker =
  sb_config :: sim_config
  sb_quote :: quote
  sb_faults :: "sim_operation \<Rightarrow> sim_fault list"
  sb_always_unavailable :: bool
  sb_orders :: "(string, trade_order) dict"
  sb_fills :: "(string, fill list) dict"
  sb_limit_schedule_index :: "(string, nat) dict"
  sb_unknown_requests :: "(string, order_request) dict"
  sb_out_of_order :: "string set"
  sb_acknowledgements :: "(string, nat) dict"
  sb_balances :: amounts
  sb_positions :: "(string, rat \<times> rat) dict"

definition default_sim_quote :: "datetime \<Rightarrow> quote" where
  "default_sim_quote now = \<lparr>q_symbol = ''BTC-USD'', q_bid = 59999, q_ask = 60001, q_as_of = now,
     q_source = ''simulated'', q_received_at = now\<rparr>"

definition no_faults :: fault_plan where
  "no_faults = \<lparr>fp_submit = [], fp_get_quote = [], fp_get_order = [], fp_get_fills = [],
     fp_get_balances = [], fp_get_positions = [], fp_unavailable = False\<rparr>"

definition sim_init ::
  "datetime \<Rightarrow> quote option \<Rightarrow> sim_config option \<Rightarrow> fault_plan option \<Rightarrow> sim_fault list \<Rightarrow> exn + sim_broker"
where
  "sim_init now quote config plan faults =
     (if plan \<noteq> None \<and> faults \<noteq> [] then Inl (ValueError ''use fault_plan or faults, not both'')
      else let c = case_option default_sim_config id config;
               q = case_option (default_sim_quote now) id quote;
               p = case_option (no_faults\<lparr>fp_submit := faults\<rparr>) id plan in
        (case split_hyphen (q_symbol q) of
           None \<Rightarrow> Inl (IndexError ''list index out of range'')
         | Some (_, quote_asset) \<Rightarrow>
             Inr \<lparr>sb_config = c, sb_quote = q, sb_faults = plan_queue p,
                  sb_always_unavailable = fp_unavailable p, sb_orders = [], sb_fills = [],
                  sb_limit_schedule_index = [], sb_unknown_requests = [], sb_out_of_order = {},
                  sb_acknowledgements = [],
                  sb_balances = dict_setdefault (cfg_fee_asset c) 0
                     [(quote_asset, cfg_initial_quote_balance c)],
                  sb_positions = []\<rparr>))"

section \<open>Faults\<close>

definition take_fault :: "sim_operation \<Rightarrow> (exn, sim_broker, sim_fault option) act" where
  "take_fault oper s =
     (if sb_always_unavailable s then (Inl BrokerUnavailableError, s)
      else case sb_faults s oper of
        [] \<Rightarrow> (Inr None, s)
      | f # rest \<Rightarrow> (Inr (Some f), s\<lparr>sb_faults := (sb_faults s)(oper := rest)\<rparr>))"

definition raise_for_fault :: "sim_operation \<Rightarrow> (exn, sim_broker, sim_fault option) act" where
  "raise_for_fault oper = abind (take_fault oper) (\<lambda>fault.
     if fault \<noteq> None \<and> fault \<noteq> Some FOUT_OF_ORDER_FILLS then
       (if fault = Some FRATE_LIMITED then athrow RateLimitError
        else if fault = Some FUNAVAILABLE then athrow BrokerUnavailableError
        else athrow (ProviderError ''SimulatedBrokerError'' None))
     else aret fault)"

section \<open>Matching and accounting\<close>

definition bump :: "string \<Rightarrow> rat \<Rightarrow> amounts \<Rightarrow> amounts" where
  "bump asset delta b = AList.update asset (dadd (dict_get b asset 0) delta) b"

definition drop_amount :: "string \<Rightarrow> rat \<Rightarrow> amounts \<Rightarrow> amounts" where
  "drop_amount asset delta b = AList.update asset (dsub (dict_get b asset 0) delta) b"

definition apply_accounting ::
  "order_request \<Rightarrow> rat \<Rightarrow> rat \<Rightarrow> rat \<Rightarrow> (exn, sim_broker, unit) act"
where
  "apply_accounting r quantity price fee s =
     (case split_hyphen (req_symbol r) of
        None \<Rightarrow> (Inl (ValueError ''not enough values to unpack''), s)
      | Some (base, quote) \<Rightarrow>
          let notional = dmul quantity price;
              fa = cfg_fee_asset (sb_config s);
              b0 = dict_setdefault fa 0 (dict_setdefault quote 0 (dict_setdefault base 0 (sb_balances s)));
              (pq, avg) = dict_get (sb_positions s) (req_symbol r) (0, 0) in
          if req_side r = BUY then
            let b1 = drop_amount fa fee (drop_amount quote notional (bump base quantity b0));
                total = dadd pq quantity in
            (case ddiv (dadd (dmul pq avg) (dmul quantity price)) total of
               Inl e \<Rightarrow> (Inl (ArithmeticError e), s\<lparr>sb_balances := b1\<rparr>)
             | Inr a \<Rightarrow> (Inr (), s\<lparr>sb_balances := b1, sb_positions :=
                 if total = 0 then AList.delete (req_symbol r) (sb_positions s)
                 else AList.update (req_symbol r) (total, a) (sb_positions s)\<rparr>))
          else
            let b1 = drop_amount fa fee (bump quote notional (drop_amount base quantity b0));
                rest = dsub pq quantity in
            (Inr (), s\<lparr>sb_balances := b1, sb_positions :=
               if rest = 0 then AList.delete (req_symbol r) (sb_positions s)
               else AList.update (req_symbol r) (rest, avg) (sb_positions s)\<rparr>))"

definition market_price :: "order_side \<Rightarrow> sim_broker \<Rightarrow> rat" where
  "market_price side s =
     (if side = BUY then dmul (q_ask (sb_quote s)) (dadd 1 (cfg_slippage (sb_config s)))
      else dmul (q_bid (sb_quote s)) (dsub 1 (cfg_slippage (sb_config s))))"

definition sim_fill :: "datetime \<Rightarrow> sim_broker \<Rightarrow> trade_order \<Rightarrow> rat \<Rightarrow> rat \<Rightarrow> fill" where
  "sim_fill now s ord quantity price =
     (let key = req_client_order_id (ord_request ord) in
      \<lparr>fill_fill_id = ''sim-'' @ key @ ''-'' @ nat_str (length (dict_get (sb_fills s) key []) + 1),
       fill_order_id = ord_order_id ord,
       fill_symbol = req_symbol (ord_request ord),
       fill_side = req_side (ord_request ord),
       fill_quantity = quantity,
       fill_price = price,
       fill_fee = dmul (dmul quantity price) (cfg_fee_rate (sb_config s)),
       fill_fee_asset = cfg_fee_asset (sb_config s),
       fill_occurred_at = now\<rparr>)"

text \<open>\<^verbatim>\<open>_apply_fill\<close>: the fill is stored, the order updated, and the accounts moved, in that order.\<close>

definition filled_order :: "datetime \<Rightarrow> trade_order \<Rightarrow> rat \<Rightarrow> rat \<Rightarrow> trade_order" where
  "filled_order now ord new_quantity average =
     ord\<lparr>ord_status := if req_quantity (ord_request ord) \<le> new_quantity then FILLED else PARTIALLY_FILLED,
         ord_filled_quantity := new_quantity, ord_average_fill_price := Some average,
         ord_updated_at := now\<rparr>"

definition sim_apply_fill ::
  "datetime \<Rightarrow> trade_order \<Rightarrow> rat \<Rightarrow> rat \<Rightarrow> (exn, sim_broker, trade_order) act"
where
  "sim_apply_fill now ord quantity price s =
     (let key = req_client_order_id (ord_request ord);
          s0 = s\<lparr>sb_fills := dict_setdefault key [] (sb_fills s)\<rparr>;
          f = sim_fill now s0 ord quantity price in
      if \<not> valid_fill f then (Inl (ValidationError ''Fill''), s0)
      else
        let s1 = s0\<lparr>sb_fills := AList.update key (dict_get (sb_fills s0) key [] @ [f]) (sb_fills s0)\<rparr>;
            new_quantity = dadd (ord_filled_quantity ord) quantity;
            previous_value = dmul (case_option 0 id (ord_average_fill_price ord)) (ord_filled_quantity ord) in
        (case ddiv (dadd previous_value (dmul quantity price)) new_quantity of
           Inl e \<Rightarrow> (Inl (ArithmeticError e), s1)
         | Inr average \<Rightarrow>
             let updated = filled_order now ord new_quantity average;
                 s2 = s1\<lparr>sb_orders := AList.update key updated (sb_orders s1)\<rparr> in
             abind (apply_accounting (ord_request ord) quantity price (fill_fee f))
               (\<lambda>_. aret updated) s2))"

definition limit_is_marketable :: "order_request \<Rightarrow> sim_broker \<Rightarrow> bool" where
  "limit_is_marketable r s =
     (case req_limit_price r of
        None \<Rightarrow> False
      | Some p \<Rightarrow> if req_side r = BUY then q_ask (sb_quote s) \<le> p else p \<le> q_bid (sb_quote s))"

definition fill_next_limit :: "datetime \<Rightarrow> trade_order \<Rightarrow> (exn, sim_broker, trade_order) act" where
  "fill_next_limit now ord s =
     (let key = req_client_order_id (ord_request ord);
          index = dict_get (sb_limit_schedule_index s) key 0;
          schedule = cfg_partial_fill_schedule (sb_config s) in
      if length schedule \<le> index then (Inr ord, s)
      else
        let target = dmul (req_quantity (ord_request ord)) (schedule ! index);
            quantity = dsub target (ord_filled_quantity ord);
            s1 = s\<lparr>sb_limit_schedule_index := AList.update key (index + 1) (sb_limit_schedule_index s)\<rparr> in
        if quantity \<le> 0 then (Inr ord, s1)
        else sim_apply_fill now ord quantity (case_option 0 id (req_limit_price (ord_request ord))) s1)"

definition accept_order :: "datetime \<Rightarrow> order_request \<Rightarrow> (exn, sim_broker, trade_order) act" where
  "accept_order now r s =
     (let key = req_client_order_id r;
          ord = new_order key r OPEN now;
          s1 = s\<lparr>sb_orders := AList.update key ord (sb_orders s),
                 sb_fills := AList.update key [] (sb_fills s),
                 sb_limit_schedule_index := AList.update key 0 (sb_limit_schedule_index s)\<rparr> in
      if req_order_type r = MARKET
      then sim_apply_fill now ord (req_quantity r) (market_price (req_side r) s1) s1
      else if limit_is_marketable r s1 then fill_next_limit now ord s1
      else (Inr ord, s1))"

definition store_rejected :: "datetime \<Rightarrow> order_request \<Rightarrow> (exn, sim_broker, trade_order) act" where
  "store_rejected now r s =
     (let key = req_client_order_id r; ord = new_order key r REJECTED now in
      (Inr ord, s\<lparr>sb_orders := AList.update key ord (sb_orders s),
                   sb_fills := AList.update key [] (sb_fills s)\<rparr>))"

section \<open>The broker interface\<close>

definition acknowledge :: "string \<Rightarrow> nat \<Rightarrow> sim_broker \<Rightarrow> sim_broker" where
  "acknowledge key n s = s\<lparr>sb_acknowledgements := AList.update key n (sb_acknowledgements s)\<rparr>"

definition acknowledgement_count :: "string \<Rightarrow> sim_broker \<Rightarrow> nat" where
  "acknowledgement_count key s = dict_get (sb_acknowledgements s) key 0"

definition sim_submit_unknown :: "datetime \<Rightarrow> order_request \<Rightarrow> (exn, sim_broker, trade_order) act" where
  "sim_submit_unknown now r s =
     (let key = req_client_order_id r; ord = new_order key r UNKNOWN now in
      (Inl (SubmissionTimeoutError ord),
       acknowledge key 1 (s\<lparr>sb_orders := AList.update key ord (sb_orders s),
          sb_fills := AList.update key [] (sb_fills s),
          sb_unknown_requests := AList.update key r (sb_unknown_requests s)\<rparr>)))"

definition sim_submit_new :: "datetime \<Rightarrow> order_request \<Rightarrow> sim_fault option \<Rightarrow> (exn, sim_broker, trade_order) act" where
  "sim_submit_new now r injected =
     (let key = req_client_order_id r in
      if injected = Some FREJECT then
        abind (store_rejected now r) (\<lambda>ord. athrow (OrderRejectedError ord))
      else if injected = Some FRATE_LIMITED then athrow RateLimitError
      else if injected = Some FUNAVAILABLE then athrow BrokerUnavailableError
      else if injected = Some FTIMEOUT then sim_submit_unknown now r
      else (\<lambda>s.
        abind (accept_order now r)
          (\<lambda>ord s'. if injected = Some FDUPLICATE_ACK
             then (Inl (DuplicateAcknowledgementError ord), acknowledge key 1 s')
             else (Inr ord, acknowledge key 1 s'))
          (if injected = Some FOUT_OF_ORDER_FILLS
           then s\<lparr>sb_out_of_order := insert key (sb_out_of_order s)\<rparr> else s)))"

definition sim_submit_order ::
  "datetime \<Rightarrow> order_request \<Rightarrow> risk_approval \<Rightarrow> (exn, sim_broker, trade_order) act"
where
  "sim_submit_order now r apr s =
     (if sb_always_unavailable s then (Inl BrokerUnavailableError, s)
      else if apr_signal_id apr \<noteq> req_signal_id r
        then (Inl (ValueError ''risk approval does not belong to order request''), s)
      else if \<not> apr_approved apr then (Inl (PermissionError ''risk approval is not approved''), s)
      else let key = req_client_order_id r in
        (case map_of (sb_orders s) key of
           Some existing \<Rightarrow> (Inr existing, acknowledge key (acknowledgement_count key s + 1) s)
         | None \<Rightarrow> abind (take_fault OpSubmit) (sim_submit_new now r) s))"

definition sim_get_order :: "datetime \<Rightarrow> string \<Rightarrow> (exn, sim_broker, trade_order option) act" where
  "sim_get_order now key = abind (raise_for_fault OpGetOrder) (\<lambda>_ s.
     case map_of (sb_unknown_requests s) key of
       None \<Rightarrow> (Inr (map_of (sb_orders s) key), s)
     | Some r \<Rightarrow>
         abind (accept_order now r) (\<lambda>_ s'. (Inr (map_of (sb_orders s') key), s'))
           (s\<lparr>sb_unknown_requests := AList.delete key (sb_unknown_requests s),
              sb_orders := AList.delete key (sb_orders s),
              sb_fills := AList.delete key (sb_fills s),
              sb_limit_schedule_index := AList.delete key (sb_limit_schedule_index s)\<rparr>))"

definition sim_get_fills :: "string \<Rightarrow> (exn, sim_broker, fill list) act" where
  "sim_get_fills key = abind (raise_for_fault OpGetFills) (\<lambda>fault s.
     if map_of (sb_unknown_requests s) key \<noteq> None then (Inr [], s)
     else let fills = dict_get (sb_fills s) key [] in
       (Inr (if key \<in> sb_out_of_order s \<or> fault = Some FOUT_OF_ORDER_FILLS
             then rev fills else fills), s))"

definition sim_get_quote :: "string \<Rightarrow> (exn, sim_broker, quote) act" where
  "sim_get_quote symb = abind (raise_for_fault OpGetQuote) (\<lambda>_ s.
     if symb \<noteq> q_symbol (sb_quote s) then (Inl (KeyError symb), s) else (Inr (sb_quote s), s))"

definition sim_get_balances :: "datetime \<Rightarrow> (exn, sim_broker, balance list) act" where
  "sim_get_balances now = abind (raise_for_fault OpGetBalances) (\<lambda>_ s.
     let bs = map (\<lambda>(asset, amount).
            \<lparr>bal_asset = asset, bal_available = amount, bal_hold = 0, bal_as_of = now\<rparr>)
          (filter (\<lambda>(asset, amount). amount \<noteq> 0) (sort_key fst (sb_balances s))) in
     (if list_all valid_balance bs then Inr bs else Inl (ValidationError ''Balance''), s))"

definition sim_get_positions :: "datetime \<Rightarrow> (exn, sim_broker, position list) act" where
  "sim_get_positions now = abind (raise_for_fault OpGetPositions) (\<lambda>_ s.
     let ps = map (\<lambda>(symbol, quantity, average).
            \<lparr>pos_symbol = symbol, pos_quantity = quantity, pos_average_price = Some average, pos_as_of = now\<rparr>)
          (filter (\<lambda>(symbol, quantity, average). quantity \<noteq> 0) (sort_key fst (sb_positions s))) in
     (if list_all valid_position ps then Inr ps else Inl (ValidationError ''Position''), s))"

definition set_quote :: "quote \<Rightarrow> (exn, sim_broker, unit) act" where
  "set_quote q s =
     (if q_symbol q \<noteq> q_symbol (sb_quote s)
      then (Inl (ValueError ''simulator supports one configured symbol''), s)
      else (Inr (), s\<lparr>sb_quote := q\<rparr>))"

fun advance_loop :: "datetime \<Rightarrow> trade_order list \<Rightarrow> trade_order list \<Rightarrow> (exn, sim_broker, trade_order list) act" where
  "advance_loop now [] changed s = (Inr changed, s)"
| "advance_loop now (ord # rest) changed s =
     (if req_order_type (ord_request ord) \<noteq> LIMIT \<or> terminal (ord_status ord) \<or>
         \<not> limit_is_marketable (ord_request ord) s
      then advance_loop now rest changed s
      else case fill_next_limit now ord s of
        (Inl e, s') \<Rightarrow> (Inl e, s')
      | (Inr updated, s') \<Rightarrow>
          advance_loop now rest (if updated \<noteq> ord then changed @ [updated] else changed) s')"

definition sim_advance :: "datetime \<Rightarrow> (exn, sim_broker, trade_order list) act" where
  "sim_advance now s = advance_loop now (map snd (sb_orders s)) [] s"

section \<open>Calls and reachable states\<close>

datatype sim_call =
    CSubmit datetime order_request risk_approval
  | CGetOrder datetime string
  | CGetFills string
  | CGetQuote string
  | CGetBalances datetime
  | CGetPositions datetime
  | CSetQuote quote
  | CAdvance datetime

text \<open>The broker after a call, whether the call returned or raised.\<close>

fun sim_after :: "sim_call \<Rightarrow> sim_broker \<Rightarrow> sim_broker" where
  "sim_after (CSubmit now r apr) s = snd (sim_submit_order now r apr s)"
| "sim_after (CGetOrder now k) s = snd (sim_get_order now k s)"
| "sim_after (CGetFills k) s = snd (sim_get_fills k s)"
| "sim_after (CGetQuote symb) s = snd (sim_get_quote symb s)"
| "sim_after (CGetBalances now) s = snd (sim_get_balances now s)"
| "sim_after (CGetPositions now) s = snd (sim_get_positions now s)"
| "sim_after (CSetQuote q) s = snd (set_quote q s)"
| "sim_after (CAdvance now) s = snd (sim_advance now s)"

inductive sim_reachable :: "sim_broker \<Rightarrow> bool" where
  init: "sim_init now q c p fs = Inr s \<Longrightarrow> sim_reachable s"
| call: "sim_reachable s \<Longrightarrow> sim_reachable (sim_after c s)"

section \<open>Invariant\<close>

definition sim_fill_id :: "string \<Rightarrow> nat \<Rightarrow> string" where
  "sim_fill_id key n = ''sim-'' @ key @ ''-'' @ nat_str n"

text \<open>The fills of an order are numbered from 1 and belong to it; the order's totals are theirs.\<close>

definition fill_matches :: "string \<Rightarrow> trade_order \<Rightarrow> fill \<Rightarrow> nat \<Rightarrow> bool" where
  "fill_matches key ord f n \<longleftrightarrow>
     fill_fill_id f = sim_fill_id key n \<and> fill_order_id f = key \<and>
     fill_symbol f = req_symbol (ord_request ord) \<and> fill_side f = req_side (ord_request ord) \<and> valid_fill f"

definition status_matches :: "trade_order \<Rightarrow> fill list \<Rightarrow> bool" where
  "status_matches ord fs \<longleftrightarrow>
     (if fs = [] then ord_status ord \<in> {OPEN, UNKNOWN, REJECTED}
      else ord_status ord =
        (if req_quantity (ord_request ord) \<le> ord_filled_quantity ord then FILLED else PARTIALLY_FILLED))"

definition order_matches :: "string \<Rightarrow> trade_order \<Rightarrow> fill list \<Rightarrow> bool" where
  "order_matches key ord fs \<longleftrightarrow>
     ord_order_id ord = key \<and> req_client_order_id (ord_request ord) = key \<and>
     ord_filled_quantity ord = dsum (map fill_quantity fs) \<and>
     (\<forall>i < length fs. fill_matches key ord (fs ! i) (i + 1)) \<and> status_matches ord fs"

definition sim_ok :: "sim_broker \<Rightarrow> bool" where
  "sim_ok s \<longleftrightarrow>
     distinct_keys (sb_orders s) \<and>
     (\<forall>k r. map_of (sb_unknown_requests s) k = Some r \<longrightarrow>
        req_client_order_id r = k \<and> map_of (sb_orders s) k \<noteq> None) \<and>
     (\<forall>k. map_of (sb_orders s) k = None \<longrightarrow> dict_get (sb_fills s) k [] = []) \<and>
     (\<forall>k ord. map_of (sb_orders s) k = Some ord \<longrightarrow> order_matches k ord (dict_get (sb_fills s) k []))"

lemma order_matches_new:
  "order_matches key (new_order key r st now) [] \<longleftrightarrow> req_client_order_id r = key \<and> st \<in> {OPEN, UNKNOWN, REJECTED}"
  by (auto simp: order_matches_def new_order_def dsum_def status_matches_def)

lemma order_matches_nonneg: "order_matches key ord fs \<Longrightarrow> 0 \<le> ord_filled_quantity ord"
  unfolding order_matches_def fill_matches_def valid_fill_def
  by (metis dsum_nonneg imageE in_set_conv_nth less_imp_le list.set_map)

text \<open>Storing one more valid fill with the updated order keeps them matched.\<close>

lemma order_matches_filled:
  assumes "order_matches key ord fs" "fill_matches key ord f (length fs + 1)"
    "new = dadd (ord_filled_quantity ord) (fill_quantity f)"
  shows "order_matches key (filled_order now ord new a) (fs @ [f])"
  using assms
  by (auto simp: order_matches_def filled_order_def dsum_def status_matches_def nth_append fill_matches_def
      less_Suc_eq)

lemma dict_get_setdefault: "dict_get (dict_setdefault k v d) k' v = dict_get d k' v"
  by (auto simp: map_of_setdefault split: option.splits)

text \<open>The accounting moves balances and positions and nothing else.\<close>

lemma apply_accounting_frame:
  "\<exists>b ps. snd (apply_accounting r q p fee s) = s\<lparr>sb_balances := b, sb_positions := ps\<rparr>"
proof (cases "split_hyphen (req_symbol r)")
  case None
  then have "snd (apply_accounting r q p fee s) = s\<lparr>sb_balances := sb_balances s, sb_positions := sb_positions s\<rparr>"
    by (simp add: apply_accounting_def)
  then show ?thesis by blast
next
  case (Some bq)
  obtain pq avg where pos: "dict_get (sb_positions s) (req_symbol r) (0, 0) = (pq, avg)" by force
  have upd: "s\<lparr>sb_balances := b\<rparr> = s\<lparr>sb_balances := b, sb_positions := sb_positions s\<rparr>" for b by simp
  show ?thesis
    unfolding apply_accounting_def Some Let_def pos
    by (cases bq) (auto split: sum.splits intro: upd)
qed

lemma sim_ok_cong:
  assumes "sb_orders t = sb_orders s" "sb_fills t = sb_fills s" "sb_unknown_requests t = sb_unknown_requests s"
  shows "sim_ok t = sim_ok s"
  unfolding sim_ok_def assms ..

lemma sim_ok_same:
  assumes "sim_ok s" "sb_orders t = sb_orders s" "sb_fills t = sb_fills s"
    "sb_unknown_requests t = sb_unknown_requests s"
  shows "sim_ok t"
  using sim_ok_cong[OF assms(2-4)] assms(1) by simp

lemma sim_ok_frames [simp]:
  "sim_ok (s\<lparr>sb_balances := b, sb_positions := ps\<rparr>) = sim_ok s"
  "sim_ok (s\<lparr>sb_faults := fs\<rparr>) = sim_ok s"
  "sim_ok (s\<lparr>sb_out_of_order := x\<rparr>) = sim_ok s"
  "sim_ok (acknowledge k n s) = sim_ok s"
  by (rule sim_ok_cong; simp add: acknowledge_def)+

lemma snd_abind_aret [simp]: "snd (abind m (\<lambda>_. aret x) s) = snd (m s)"
  by (simp add: abind_def split: prod.splits sum.splits)

lemma sim_ok_store:
  assumes "sim_ok s" "order_matches k ord fs"
  shows "sim_ok (s\<lparr>sb_fills := AList.update k fs (sb_fills s), sb_orders := AList.update k ord (sb_orders s)\<rparr>)"
  using assms unfolding sim_ok_def by fastforce

lemma sim_ok_setdefault: "sim_ok (s\<lparr>sb_fills := dict_setdefault k [] (sb_fills s)\<rparr>) = sim_ok s"
  by (simp add: sim_ok_def dict_get_setdefault)

lemma sim_apply_fill_ok:
  assumes ok: "sim_ok s" and ord: "map_of (sb_orders s) (req_client_order_id (ord_request ord)) = Some ord"
  shows "sim_ok (snd (sim_apply_fill now ord q p s))"
proof -
  let ?k = "req_client_order_id (ord_request ord)"
  let ?s0 = "s\<lparr>sb_fills := dict_setdefault ?k [] (sb_fills s)\<rparr>"
  let ?fs = "dict_get (sb_fills s) ?k []"
  let ?f = "sim_fill now ?s0 ord q p"
  have m: "order_matches ?k ord ?fs" using ok ord unfolding sim_ok_def by blast
  have ok0: "sim_ok ?s0" 
    using ok by (simp add: sim_ok_setdefault)
  show ?thesis
  proof (cases "valid_fill ?f")
    case False
    then show ?thesis using ok0 by (simp add: sim_apply_fill_def Let_def)
  next
    case True
    have fm: "fill_matches ?k ord ?f (length ?fs + 1)"
      using m True by (simp add: fill_matches_def sim_fill_def sim_fill_id_def dict_get_setdefault
          order_matches_def Let_def)
    have "0 < q" using True by (simp add: valid_fill_def sim_fill_def Let_def)
    then have nz: "dadd (ord_filled_quantity ord) q \<noteq> 0"
      using order_matches_nonneg[OF m] by (simp add: dadd_def)
    define a where "a = dec (dadd (dmul (case_option 0 id (ord_average_fill_price ord))
        (ord_filled_quantity ord)) (dmul q p) / dadd (ord_filled_quantity ord) q)"
    let ?s2 = "?s0\<lparr>sb_fills := AList.update ?k (?fs @ [?f]) (sb_fills ?s0),
      sb_orders := AList.update ?k (filled_order now ord (dadd (ord_filled_quantity ord) q) a) (sb_orders ?s0)\<rparr>"
    have "order_matches ?k (filled_order now ord (dadd (ord_filled_quantity ord) q) a) (?fs @ [?f])"
      by (rule order_matches_filled[OF m fm]) (simp add: sim_fill_def Let_def)
    then have ok2: "sim_ok ?s2" by (rule sim_ok_store[OF ok0])
    obtain b ps where "snd (apply_accounting (ord_request ord) q p (fill_fee ?f) ?s2) =
        ?s2\<lparr>sb_balances := b, sb_positions := ps\<rparr>"
      using apply_accounting_frame by blast
    with ok2 True nz show ?thesis
      by (simp add: sim_apply_fill_def Let_def dict_get_setdefault a_def)
  qed
qed

lemma sim_ok_stored:
  assumes "sim_ok s" "order_matches k ord fs" "sb_orders t = AList.update k ord (sb_orders s)"
    "sb_fills t = AList.update k fs (sb_fills s)"
    "\<And>k' r. map_of (sb_unknown_requests t) k' = Some r \<Longrightarrow>
       req_client_order_id r = k' \<and> (k' = k \<or> map_of (sb_unknown_requests s) k' \<noteq> None)"
  shows "sim_ok t"
  using assms unfolding sim_ok_def by fastforce

lemma sim_ok_unknown: "sim_ok s \<Longrightarrow> map_of (sb_unknown_requests s) k = Some r \<Longrightarrow> req_client_order_id r = k"
  by (simp add: sim_ok_def)

lemma fill_next_limit_ok:
  assumes ok: "sim_ok s" and ord: "map_of (sb_orders s) (req_client_order_id (ord_request ord)) = Some ord"
  shows "sim_ok (snd (fill_next_limit now ord s))"
proof -
  have "sim_ok (s\<lparr>sb_limit_schedule_index := x\<rparr>)" for x by (rule sim_ok_same[OF ok]) simp_all
  moreover from this have
    "sim_ok (snd (sim_apply_fill now ord q p (s\<lparr>sb_limit_schedule_index := x\<rparr>)))" for q p x
    using ord by (intro sim_apply_fill_ok) simp_all
  ultimately show ?thesis using ok by (simp add: fill_next_limit_def Let_def)
qed

lemma accept_order_ok:
  assumes "sim_ok s"
  shows "sim_ok (snd (accept_order now r s))"
proof -
  let ?k = "req_client_order_id r"
  let ?s1 = "s\<lparr>sb_orders := AList.update ?k (new_order ?k r OPEN now) (sb_orders s),
    sb_fills := AList.update ?k [] (sb_fills s),
    sb_limit_schedule_index := AList.update ?k 0 (sb_limit_schedule_index s)\<rparr>"
  have ok1: "sim_ok ?s1"
    by (rule sim_ok_stored[OF assms, of ?k "new_order ?k r OPEN now" "[]"])
      (use assms sim_ok_unknown in \<open>auto simp: order_matches_new\<close>)
  have m: "map_of (sb_orders ?s1) (req_client_order_id (ord_request (new_order ?k r OPEN now))) =
      Some (new_order ?k r OPEN now)" by (simp add: new_order_def)
  show ?thesis
    using ok1 sim_apply_fill_ok[OF ok1 m] fill_next_limit_ok[OF ok1 m]
    by (simp add: accept_order_def Let_def)
qed

lemma take_fault_frame: "\<exists>fs. snd (take_fault oper s) = s\<lparr>sb_faults := fs\<rparr>"
proof -
  have same: "\<exists>fs. s = s\<lparr>sb_faults := fs\<rparr>" by (rule exI[of _ "sb_faults s"]) simp
  show ?thesis using same by (auto simp: take_fault_def split: list.splits)
qed

lemma raise_for_fault_frame: "\<exists>fs. snd (raise_for_fault oper s) = s\<lparr>sb_faults := fs\<rparr>"
proof -
  have "snd (raise_for_fault oper s) = snd (take_fault oper s)"
    by (auto simp: raise_for_fault_def abind_def split: prod.splits sum.splits)
  then show ?thesis using take_fault_frame by simp
qed

text \<open>A read whose body leaves the state alone keeps the invariant.\<close>

lemma abind_keeps:
  assumes "P (snd (m s))" "\<And>x t. m s = (Inr x, t) \<Longrightarrow> P (snd (f x t))"
  shows "P (snd (abind m f s))"
  using assms by (auto simp: abind_def split: prod.splits sum.splits)

lemma raise_for_fault_ok: "sim_ok s \<Longrightarrow> sim_ok (snd (raise_for_fault oper s))"
  using raise_for_fault_frame[of oper s] by auto

lemma raise_for_fault_ok': "sim_ok s \<Longrightarrow> raise_for_fault oper s = (x, t) \<Longrightarrow> sim_ok t"
  using raise_for_fault_ok[of s oper] by simp

lemma take_fault_ok: "sim_ok s \<Longrightarrow> sim_ok (snd (take_fault oper s))"
  using take_fault_frame[of oper s] by auto

lemma sim_submit_new_ok:
  assumes ok: "sim_ok s"
  shows "sim_ok (snd (sim_submit_new now r injected s))"
proof -
  let ?k = "req_client_order_id r"
  have rej: "sim_ok (snd (store_rejected now r s))"
    by (rule sim_ok_stored[OF ok, of ?k "new_order ?k r REJECTED now" "[]"])
      (use ok sim_ok_unknown in \<open>auto simp: order_matches_new store_rejected_def Let_def\<close>)
  have unk: "sim_ok (snd (sim_submit_unknown now r s))"
    unfolding sim_submit_unknown_def Let_def snd_conv sim_ok_frames
    by (rule sim_ok_stored[OF ok, of ?k "new_order ?k r UNKNOWN now" "[]"])
      (use ok sim_ok_unknown in \<open>auto simp: order_matches_new split: if_splits\<close>)
  have acc: "sim_ok (snd (abind (accept_order now r)
      (\<lambda>ord s'. if b then (Inl (DuplicateAcknowledgementError ord), acknowledge k 1 s')
        else (Inr ord, acknowledge k 1 s')) t))" if "sim_ok t" for b k t
    by (rule abind_keeps) (use accept_order_ok[OF that, of now r] in auto)
  have "sim_ok (snd (abind (store_rejected now r) (\<lambda>ord. athrow (OrderRejectedError ord)) s))"
    by (rule abind_keeps) (use rej in auto)
  then show ?thesis
    unfolding sim_submit_new_def Let_def using ok unk acc
    by (cases "injected = Some FREJECT") (simp_all del: act_simps, simp)
qed

lemma sim_submit_ok: "sim_ok s \<Longrightarrow> sim_ok (snd (sim_submit_order now r apr s))"
proof -
  assume ok: "sim_ok s"
  have "sim_ok (snd (abind (take_fault OpSubmit) (sim_submit_new now r) s))"
  proof (rule abind_keeps)
    fix x t assume "take_fault OpSubmit s = (Inr x, t)"
    then show "sim_ok (snd (sim_submit_new now r x t))"
      using take_fault_ok[OF ok, of OpSubmit] by (simp add: sim_submit_new_ok)
  qed (rule take_fault_ok[OF ok])
  then show ?thesis using ok by (simp add: sim_submit_order_def Let_def split: option.splits)
qed

lemma sim_get_order_ok:
  assumes "sim_ok s"
  shows "sim_ok (snd (sim_get_order now k s))"
  unfolding sim_get_order_def
proof (rule abind_keeps)
  show "sim_ok (snd (raise_for_fault OpGetOrder s))" using assms by (rule raise_for_fault_ok)
next
  fix x t assume "raise_for_fault OpGetOrder s = (Inr x, t)"
  with assms have ok: "sim_ok t" by (rule raise_for_fault_ok')
  let ?t = "t\<lparr>sb_unknown_requests := AList.delete k (sb_unknown_requests t),
      sb_orders := AList.delete k (sb_orders t), sb_fills := AList.delete k (sb_fills t),
      sb_limit_schedule_index := AList.delete k (sb_limit_schedule_index t)\<rparr>"
  have ok': "sim_ok ?t" using ok unfolding sim_ok_def by (simp add: map_of_eq_None_iff) force
  have "sim_ok (snd (abind (accept_order now r) (\<lambda>_ s'. (Inr (map_of (sb_orders s') k), s')) ?t))" for r
    by (rule abind_keeps) (use accept_order_ok[OF ok', of now r] in auto)
  then show "sim_ok (snd (case map_of (sb_unknown_requests t) k of
       None \<Rightarrow> (Inr (map_of (sb_orders t) k), t)
     | Some r \<Rightarrow> abind (accept_order now r) (\<lambda>_ s'. (Inr (map_of (sb_orders s') k), s')) ?t))"
    using ok by (simp split: option.splits)
qed


lemma fill_next_limit_others:
  assumes "k \<noteq> req_client_order_id (ord_request ord)"
  shows "map_of (sb_orders (snd (fill_next_limit now ord s))) k = map_of (sb_orders s) k"
proof -
  have acc: "sb_orders (snd (apply_accounting r q p fee t)) = sb_orders t" for r q p fee t
    using apply_accounting_frame[of r q p fee t] by auto
  have "map_of (sb_orders (snd (sim_apply_fill now ord q p t))) k = map_of (sb_orders t) k" for q p t
    using assms by (simp add: sim_apply_fill_def Let_def acc split: sum.splits)
  then show ?thesis by (simp add: fill_next_limit_def Let_def)
qed

lemma advance_loop_ok:
  assumes "sim_ok s" "distinct (map (\<lambda>o1. req_client_order_id (ord_request o1)) ords)"
    "\<forall>o1 \<in> set ords. map_of (sb_orders s) (req_client_order_id (ord_request o1)) = Some o1"
  shows "sim_ok (snd (advance_loop now ords changed s))"
  using assms
proof (induction ords arbitrary: changed s)
  case (Cons ord rest)
  obtain res t where r: "fill_next_limit now ord s = (res, t)" by force
  have "sim_ok t" using fill_next_limit_ok[OF Cons.prems(1), of ord now] Cons.prems(3) r by simp
  moreover have "\<forall>o1 \<in> set rest. map_of (sb_orders t) (req_client_order_id (ord_request o1)) = Some o1"
    using fill_next_limit_others[of _ ord now s] Cons.prems(2,3) r by (auto simp: image_iff)
  ultimately show ?case
    using Cons.IH[of t] Cons.IH[of s] Cons.prems by (simp add: r split: sum.splits)
qed simp

lemma sim_advance_ok:
  assumes ok: "sim_ok s"
  shows "sim_ok (snd (sim_advance now s))"
proof -
  have d: "distinct_keys (sb_orders s)" using ok by (simp add: sim_ok_def)
  have key: "req_client_order_id (ord_request (snd kv)) = fst kv" if "kv \<in> set (sb_orders s)" for kv
  proof -
    have "map_of (sb_orders s) (fst kv) = Some (snd kv)" using d that by (simp add: map_of_eq_Some_iff)
    then have "order_matches (fst kv) (snd kv) (dict_get (sb_fills s) (fst kv) [])"
      using ok unfolding sim_ok_def by blast
    then show ?thesis by (simp add: order_matches_def)
  qed
  then have ids: "map (\<lambda>o1. req_client_order_id (ord_request o1)) (map snd (sb_orders s)) = map fst (sb_orders s)"
    by simp
  have "\<forall>o1 \<in> set (map snd (sb_orders s)). P o1" if "\<And>kv. kv \<in> set (sb_orders s) \<Longrightarrow> P (snd kv)" for P
    using that by auto
  then have "\<forall>o1 \<in> set (map snd (sb_orders s)).
      map_of (sb_orders s) (req_client_order_id (ord_request o1)) = Some o1"
    using key d by (force simp: map_of_eq_Some_iff)
  then show ?thesis
    unfolding sim_advance_def by (intro advance_loop_ok[OF ok]) (simp_all only: ids d)
qed

lemma read_ok:
  assumes "sim_ok s" "\<And>x t. snd (f x t) = t"
  shows "sim_ok (snd (abind (raise_for_fault oper) f s))"
proof (rule abind_keeps)
  fix x t assume "raise_for_fault oper s = (Inr x, t)"
  then show "sim_ok (snd (f x t))" using raise_for_fault_ok'[OF assms(1)] by (simp add: assms(2))
qed (rule raise_for_fault_ok[OF assms(1)])

lemma sim_after_ok: "sim_ok s \<Longrightarrow> sim_ok (sim_after c s)"
proof (cases c)
  case (CSetQuote q)
  then show "sim_ok s \<Longrightarrow> ?thesis" by (auto simp: set_quote_def intro: sim_ok_same)
qed (simp_all add: sim_submit_ok sim_get_order_ok sim_advance_ok sim_get_fills_def sim_get_quote_def
    sim_get_balances_def sim_get_positions_def read_ok Let_def)

lemma sim_init_ok: "sim_init now q c p fs = Inr s \<Longrightarrow> sim_ok s"
  by (auto simp: sim_init_def Let_def sim_ok_def split: if_splits option.splits prod.splits)

lemma sim_reachable_ok: "sim_reachable s \<Longrightarrow> sim_ok s"
  by (induction rule: sim_reachable.induct) (auto intro: sim_init_ok sim_after_ok)

section \<open>Properties\<close>

lemma nat_str_no_hyphen: "CHR ''-'' \<notin> set (nat_str n)"
proof (induction n rule: nat_str.induct)
  case (1 n)
  have nd: "CHR ''-'' \<noteq> digit_char m" for m
  proof -
    have "m mod 10 < length ''0123456789''" by simp
    then have "digit_char m \<in> set ''0123456789''" unfolding digit_char_def by (rule nth_mem)
    then show ?thesis by auto
  qed
  then show ?case using 1 by (subst nat_str.simps) (simp add: nd)
qed

lemma sim_fill_id_inj:
  assumes "sim_fill_id k n = sim_fill_id k' n'"
  shows "k = k' \<and> n = n'"
proof -
  have "k @ ''-'' @ nat_str n = k' @ ''-'' @ nat_str n'" using assms by (simp add: sim_fill_id_def)
  then have "rev (k @ ''-'' @ nat_str n) = rev (k' @ ''-'' @ nat_str n')" by (rule arg_cong)
  then have "rev (nat_str n) @ ''-'' @ rev k = rev (nat_str n') @ ''-'' @ rev k'" by simp
  then have "split_hyphen (rev (nat_str n) @ ''-'' @ rev k) = split_hyphen (rev (nat_str n') @ ''-'' @ rev k')"
    by (rule arg_cong)
  then have "nat_str n = nat_str n' \<and> k = k'"
    using nat_str_no_hyphen by (simp only: split_hyphen_append set_rev not_False_eq_True option.inject
        prod.inject rev_is_rev_conv)
  then show ?thesis using nat_str_inj by blast
qed


text \<open>
  C23. In every state the simulated broker can reach, through any calls, injected faults and
  exceptions, each stored order agrees with its stored fills: its filled quantity is the sum of
  theirs, its status is what that sum says (filled, partially filled, or still without a fill),
  and every fill carries the order's identifier, symbol and side.
\<close>

theorem sim_orders_match_fills:
  assumes "sim_reachable s" "map_of (sb_orders s) k = Some ord"
  shows "ord_filled_quantity ord = dsum (map fill_quantity (dict_get (sb_fills s) k [])) \<and>
    status_matches ord (dict_get (sb_fills s) k []) \<and>
    list_all (\<lambda>f. valid_fill f \<and> fill_order_id f = ord_order_id ord \<and>
        fill_symbol f = req_symbol (ord_request ord) \<and> fill_side f = req_side (ord_request ord))
      (dict_get (sb_fills s) k [])"
proof -
  have m: "order_matches k ord (dict_get (sb_fills s) k [])"
    using sim_reachable_ok[OF assms(1)] assms(2) unfolding sim_ok_def by blast
  have "\<forall>i < length (dict_get (sb_fills s) k []). fill_matches k ord (dict_get (sb_fills s) k [] ! i) (i + 1)"
    "ord_order_id ord = k" using m unfolding order_matches_def by blast+
  then have "list_all (\<lambda>f. valid_fill f \<and> fill_order_id f = ord_order_id ord \<and>
        fill_symbol f = req_symbol (ord_request ord) \<and> fill_side f = req_side (ord_request ord))
      (dict_get (sb_fills s) k [])"
    by (simp add: list_all_length fill_matches_def)
  with m show ?thesis unfolding order_matches_def by blast
qed

text \<open>
  Fill identifiers are unique in every reachable state: two stored fills with the same
  identifier are the same entry of the same order's list.
\<close>

theorem sim_fill_ids_unique:
  assumes "sim_reachable s"
    "map_of (sb_fills s) k = Some fs" "i < length fs"
    "map_of (sb_fills s) k' = Some fs'" "i' < length fs'"
    "fill_fill_id (fs ! i) = fill_fill_id (fs' ! i')"
  shows "k = k' \<and> i = i'"
proof -
  have num: "fill_fill_id (gs ! j) = sim_fill_id key (j + 1)"
    if "map_of (sb_fills s) key = Some gs" "j < length gs" for key gs j
  proof (cases "map_of (sb_orders s) key")
    case None
    then have "dict_get (sb_fills s) key [] = []"
      using sim_reachable_ok[OF assms(1)] unfolding sim_ok_def by blast
    then show ?thesis using that by simp
  next
    case (Some ord)
    then have "order_matches key ord (dict_get (sb_fills s) key [])"
      using sim_reachable_ok[OF assms(1)] unfolding sim_ok_def by blast
    then show ?thesis using that by (simp add: order_matches_def fill_matches_def)
  qed
  show ?thesis
    using sim_fill_id_inj num[OF assms(2,3)] num[OF assms(4,5)] assms(6) by fastforce
qed

section \<open>Idempotent submission\<close>

definition has_order :: "string \<Rightarrow> sim_broker \<Rightarrow> bool" where
  "has_order k s \<longleftrightarrow> map_of (sb_orders s) k \<noteq> None"

lemma has_order_fill:
  assumes "has_order k s"
  shows "has_order k (snd (sim_apply_fill now ord q p s))"
proof -
  have acc: "sb_orders (snd (apply_accounting r q p fee t)) = sb_orders t" for r q p fee t
    using apply_accounting_frame[of r q p fee t] by auto
  show ?thesis using assms by (simp add: has_order_def sim_apply_fill_def Let_def acc split: sum.splits)
qed

lemma has_order_next_limit: "has_order k s \<Longrightarrow> has_order k (snd (fill_next_limit now ord s))"
proof -
  assume h: "has_order k s"
  then have "has_order k (s\<lparr>sb_limit_schedule_index := x\<rparr>)" for x by (simp add: has_order_def)
  with h show ?thesis by (simp add: fill_next_limit_def Let_def has_order_fill)
qed

lemma has_order_accept:
  assumes "has_order k s \<or> k = req_client_order_id r"
  shows "has_order k (snd (accept_order now r s))"
proof -
  let ?k = "req_client_order_id r"
  have "has_order k (s\<lparr>sb_orders := AList.update ?k (new_order ?k r OPEN now) (sb_orders s),
    sb_fills := AList.update ?k [] (sb_fills s),
    sb_limit_schedule_index := AList.update ?k 0 (sb_limit_schedule_index s)\<rparr>)" (is "has_order k ?s1")
    using assms by (auto simp: has_order_def)
  from this has_order_fill[OF this] has_order_next_limit[OF this] show ?thesis
    by (simp add: accept_order_def Let_def)
qed

lemma has_order_advance: "has_order k s \<Longrightarrow> has_order k (snd (advance_loop now ords changed s))"
proof (induction now ords changed s rule: advance_loop.induct)
  case (2 now ord rest changed s)
  obtain res t where r: "fill_next_limit now ord s = (res, t)" by force
  then have "has_order k t" using has_order_next_limit[OF "2.prems", of now ord] by simp
  then show ?case using 2 by (auto simp: r split: sum.splits)
qed simp

lemma has_order_read:
  assumes "has_order k s" "\<And>x t. has_order k t \<Longrightarrow> has_order k (snd (f x t))"
  shows "has_order k (snd (abind (raise_for_fault oper) f s))"
proof (rule abind_keeps)
  show h: "has_order k (snd (raise_for_fault oper s))"
    using raise_for_fault_frame[of oper s] assms(1) by (auto simp: has_order_def)
  fix x t assume "raise_for_fault oper s = (Inr x, t)"
  with h show "has_order k (snd (f x t))" by (intro assms(2)) simp
qed

lemma has_order_submit:
  assumes "has_order k s"
  shows "has_order k (snd (sim_submit_order now r apr s))"
proof -
  obtain res t where tf: "take_fault OpSubmit s = (res, t)" by force
  have h: "has_order k t"
    using take_fault_frame[of OpSubmit s] assms tf by (auto simp: has_order_def)
  have ack: "has_order k (acknowledge x n u) = has_order k u" for x n u
    by (simp add: has_order_def acknowledge_def)
  have acc: "has_order k (snd (abind (accept_order now r)
      (\<lambda>ord s'. if b then (Inl (DuplicateAcknowledgementError ord), acknowledge x 1 s')
        else (Inr ord, acknowledge x 1 s')) u))" if "has_order k u" for b x u
    by (rule abind_keeps) (use has_order_accept[of k u r now] that in \<open>auto simp: ack\<close>)
  have "has_order k (snd (sim_submit_unknown now r t))"
    "has_order k (snd (abind (store_rejected now r) (\<lambda>ord. athrow (OrderRejectedError ord)) t))"
    "has_order k (t\<lparr>sb_out_of_order := x\<rparr>)" for x
    using h by (simp_all add: sim_submit_unknown_def Let_def ack store_rejected_def abind_def) (simp_all add: has_order_def)
  then have "has_order k (snd (sim_submit_new now r inj t))" for inj
    unfolding sim_submit_new_def Let_def using h acc
    by (cases "inj = Some FREJECT") (simp_all del: act_simps, simp)
  then show ?thesis
    using assms h by (simp add: sim_submit_order_def Let_def abind_def tf ack split: option.splits sum.splits)
qed

lemma has_order_get_order:
  assumes "has_order k s" "sim_ok s"
  shows "has_order k (snd (sim_get_order now key s))"
  unfolding sim_get_order_def
proof (rule abind_keeps)
  show h: "has_order k (snd (raise_for_fault OpGetOrder s))"
    using raise_for_fault_frame[of OpGetOrder s] assms(1) by (auto simp: has_order_def)
  fix x t assume t: "raise_for_fault OpGetOrder s = (Inr x, t)"
  let ?t = "t\<lparr>sb_unknown_requests := AList.delete key (sb_unknown_requests t),
      sb_orders := AList.delete key (sb_orders t), sb_fills := AList.delete key (sb_fills t),
      sb_limit_schedule_index := AList.delete key (sb_limit_schedule_index t)\<rparr>"
  have "has_order k (snd (abind (accept_order now r) (\<lambda>_ s'. (Inr (map_of (sb_orders s') key), s')) ?t))"
    if "map_of (sb_unknown_requests t) key = Some r" for r
  proof -
    have "req_client_order_id r = key" using raise_for_fault_ok'[OF assms(2) t] that by (rule sim_ok_unknown)
    then have "has_order k ?t \<or> k = req_client_order_id r"
      using h t by (simp add: has_order_def)
    then have "has_order k (snd (accept_order now r ?t))" by (rule has_order_accept)
    then show ?thesis by (intro abind_keeps[where P = "has_order k"]) simp_all
  qed
  then show "has_order k (snd (case map_of (sb_unknown_requests t) key of
       None \<Rightarrow> (Inr (map_of (sb_orders t) key), t)
     | Some r \<Rightarrow> abind (accept_order now r) (\<lambda>_ s'. (Inr (map_of (sb_orders s') key), s')) ?t))"
    using h t by (simp split: option.splits)
qed

lemma has_order_after: "has_order k s \<Longrightarrow> sim_ok s \<Longrightarrow> has_order k (sim_after c s)"
proof (cases c)
  case (CSetQuote q)
  then show "has_order k s \<Longrightarrow> ?thesis" by (simp add: set_quote_def has_order_def)
qed (simp_all add: has_order_submit has_order_get_order has_order_advance sim_advance_def sim_get_fills_def
    sim_get_quote_def sim_get_balances_def sim_get_positions_def has_order_read Let_def)


lemma sim_submit_stores:
  assumes "sim_submit_order now r apr s = (Inr ord, s1)"
  shows "has_order (req_client_order_id r) s1"
proof (cases "map_of (sb_orders s) (req_client_order_id r)")
  case (Some o1)
  with assms show ?thesis
    by (auto simp: sim_submit_order_def Let_def has_order_def acknowledge_def split: if_splits)
next
  case None
  obtain res t where tf: "take_fault OpSubmit s = (res, t)" by force
  have "\<exists>inj. sim_submit_new now r inj t = (Inr ord, s1)"
    using assms None by (auto simp: sim_submit_order_def Let_def abind_def tf split: if_splits sum.splits)
  then obtain u t' where "accept_order now r u = (Inr ord, t')" "s1 = acknowledge (req_client_order_id r) 1 t'"
    by (auto simp: sim_submit_new_def sim_submit_unknown_def store_rejected_def abind_def Let_def
        split: if_splits sum.splits prod.splits)
  then show ?thesis
    using has_order_accept[of "req_client_order_id r" u r now] by (simp add: has_order_def acknowledge_def)
qed

lemma has_order_calls:
  "has_order k s \<Longrightarrow> sim_ok s \<Longrightarrow>
     has_order k (foldl (\<lambda>t c. sim_after c t) s calls) \<and> sim_ok (foldl (\<lambda>t c. sim_after c t) s calls)"
  by (induction calls rule: rev_induct) (simp_all add: has_order_after sim_after_ok)

text \<open>
  Submission is idempotent. Once a submission has been accepted, then after any further calls
  (failed ones included) another approved submission with the same client order ID returns the
  order stored under it and changes only the acknowledgement count: no order, fill, balance or
  position moves, so a retry can never trade twice.
\<close>

theorem sim_submission_is_idempotent:
  assumes "sim_reachable s" "sim_submit_order now r apr s = (Inr ord, s1)"
    "s2 = foldl (\<lambda>t c. sim_after c t) s1 calls" "\<not> sb_always_unavailable s2"
    "req_client_order_id r' = req_client_order_id r" "apr_signal_id apr' = req_signal_id r'" "apr_approved apr'"
  shows "\<exists>ord' s3. map_of (sb_orders s2) (req_client_order_id r) = Some ord' \<and>
     sim_submit_order now' r' apr' s2 = (Inr ord', s3) \<and>
     sb_orders s3 = sb_orders s2 \<and> sb_fills s3 = sb_fills s2 \<and>
     sb_balances s3 = sb_balances s2 \<and> sb_positions s3 = sb_positions s2 \<and>
     acknowledgement_count (req_client_order_id r) s3 = acknowledgement_count (req_client_order_id r) s2 + 1"
proof -
  have "sim_ok s1"
    using sim_after_ok[of s "CSubmit now r apr"] sim_reachable_ok[OF assms(1)] assms(2) by simp
  then have "has_order (req_client_order_id r) s2"
    using has_order_calls[OF sim_submit_stores[OF assms(2)]] assms(3) by blast
  then show ?thesis
    using assms(4-7)
    by (auto simp: has_order_def sim_submit_order_def acknowledge_def acknowledgement_count_def Let_def)
qed

section \<open>Accounting\<close>

text \<open>
  The broker's accounts and a ledger state agree: the same amount of every asset, and for every
  symbol either the same quantity and average price, or nothing held on either side.
\<close>

fun holding_agrees :: "(rat \<times> rat) option \<Rightarrow> rat \<times> rat option \<Rightarrow> bool" where
  "holding_agrees None h \<longleftrightarrow> fst h = 0"
| "holding_agrees (Some (q, avg)) h \<longleftrightarrow> q \<noteq> 0 \<and> h = (q, Some avg)"

definition books_agree :: "sim_broker \<Rightarrow> ledger_state \<Rightarrow> bool" where
  "books_agree s l \<longleftrightarrow>
     (\<forall>a. dict_get (sb_balances s) a 0 = dict_get (ls_available l) a 0) \<and>
     (\<forall>symb. holding_agrees (map_of (sb_positions s) symb) (dict_get (ls_positions l) symb (0, None)))"

lemma books_agreeD:
  assumes "books_agree s l"
  shows "dict_get (sb_balances s) a 0 = dict_get (ls_available l) a 0"
    "holding_agrees (map_of (sb_positions s) symb) (dict_get (ls_positions l) symb (0, None))"
  using assms unfolding books_agree_def by blast+

lemma get_bump: "dict_get (bump x d b) a 0 = (if a = x then dadd (dict_get b x 0) d else dict_get b a 0)"
  by (simp add: bump_def)

lemma get_drop_amount:
  "dict_get (drop_amount x d b) a 0 = (if a = x then dadd (dict_get b x 0) (- d) else dict_get b a 0)"
  by (simp add: drop_amount_def dsub_def dadd_def)

text \<open>Without settlement units a movement adds its amount to its asset.\<close>

lemma move_asset_plain:
  "move_asset [] (a, x) l = Inr (l\<lparr>
     ls_exact := AList.update a (dadd (dict_get (ls_exact l) a 0) x) (ls_exact l),
     ls_available := bump a x (ls_available l)\<rparr>)"
  by (simp add: move_asset_def settle_def bump_def)

lemma movements_exact:
  assumes "dec (fill_quantity f) = fill_quantity f" "dec (fill_fee f) = fill_fee f"
  shows "movements base quote f =
    (if fill_side f = BUY
     then [(base, fill_quantity f), (quote, - dmul (fill_quantity f) (fill_price f)), (fill_fee_asset f, - fill_fee f)]
     else [(base, - fill_quantity f), (quote, dmul (fill_quantity f) (fill_price f)), (fill_fee_asset f, - fill_fee f)])"
  using assms by (simp add: movements_def side_sign_def dec_op_defs dec.r_minus)

lemma apply_fill_plain:
  assumes "split_hyphen (fill_symbol f) = Some (base, quote)"
    "movements base quote f = [(a1, x1), (a2, x2), (a3, x3)]"
    "next_holding f (dict_get (ls_positions l) (fill_symbol f) (0, None)) = Inr h"
  shows "\<exists>l'. apply_fill [] f l = Inr l' \<and>
     ls_available l' = bump a3 x3 (bump a2 x2 (bump a1 x1 (ls_available l))) \<and>
     ls_positions l' = AList.update (fill_symbol f) h (ls_positions l)"
  using assms by (simp add: apply_fill_def move_asset_plain)


text \<open>What a successful booking leaves: the balances moved one by one, and the new holding.\<close>

lemma apply_accounting_Inr:
  assumes "apply_accounting r q p fee s = (Inr (), s')" "split_hyphen (req_symbol r) = Some (base, quote)"
    "dict_get (sb_positions s) (req_symbol r) (0, 0) = (pq, avg)"
  shows "\<exists>total a b0. (\<forall>x. dict_get b0 x 0 = dict_get (sb_balances s) x 0) \<and>
      sb_balances s' = drop_amount (cfg_fee_asset (sb_config s)) fee
        (if req_side r = BUY then drop_amount quote (dmul q p) (bump base q b0)
         else bump quote (dmul q p) (drop_amount base q b0)) \<and>
      (if req_side r = BUY then total = dadd pq q \<and> total \<noteq> 0 \<and>
          a = dec (dadd (dmul pq avg) (dmul q p) / total)
       else total = dsub pq q \<and> a = avg) \<and>
      sb_positions s' = (if total = 0 then AList.delete (req_symbol r) (sb_positions s)
        else AList.update (req_symbol r) (total, a) (sb_positions s))"
proof -
  let ?b0 = "dict_setdefault (cfg_fee_asset (sb_config s)) 0 (dict_setdefault quote 0
      (dict_setdefault base 0 (sb_balances s)))"
  have b0: "\<forall>x. dict_get ?b0 x 0 = dict_get (sb_balances s) x 0" by (simp add: dict_get_setdefault)
  show ?thesis
  proof (cases "req_side r = BUY")
    case True
    with assms obtain a where "ddiv (dadd (dmul pq avg) (dmul q p)) (dadd pq q) = Inr a"
      "s' = s\<lparr>sb_balances := drop_amount (cfg_fee_asset (sb_config s)) fee
          (drop_amount quote (dmul q p) (bump base q ?b0)), sb_positions :=
          if dadd pq q = 0 then AList.delete (req_symbol r) (sb_positions s)
          else AList.update (req_symbol r) (dadd pq q, a) (sb_positions s)\<rparr>"
      by (auto simp: apply_accounting_def Let_def split: sum.splits)
    with True b0 show ?thesis
      by (intro exI[of _ "dadd pq q"] exI[of _ a] exI[of _ ?b0]) (simp add: ddiv_Inr_iff)
  next
    case False
    with assms have "s' = s\<lparr>sb_balances := drop_amount (cfg_fee_asset (sb_config s)) fee
          (bump quote (dmul q p) (drop_amount base q ?b0)), sb_positions :=
          if dsub pq q = 0 then AList.delete (req_symbol r) (sb_positions s)
          else AList.update (req_symbol r) (dsub pq q, avg) (sb_positions s)\<rparr>"
      by (auto simp: apply_accounting_def Let_def)
    with False b0 show ?thesis
      by (intro exI[of _ "dsub pq q"] exI[of _ avg] exI[of _ ?b0]) simp
  qed
qed

text \<open>The holding the ledger computes is the broker's.\<close>

lemma next_holding_agrees:
  assumes "books_agree s l" "dict_get (sb_positions s) symb (0, 0) = (pq, avg)"
    "fill_side f = SELL \<longrightarrow> map_of (sb_positions s) symb \<noteq> None"
    "fill_side f = BUY \<Longrightarrow> tot = dadd pq (fill_quantity f) \<and> tot \<noteq> 0 \<and>
       a = dec (dadd (dmul pq avg) (dmul (fill_quantity f) (fill_price f)) / tot)"
    "fill_side f \<noteq> BUY \<Longrightarrow> tot = dsub pq (fill_quantity f) \<and> a = avg"
  shows "next_holding f (dict_get (ls_positions l) symb (0, None)) = Inr (tot, Some a)"
proof (cases "map_of (sb_positions s) symb")
  case None
  then have "fill_side f = BUY" using assms(3) by (cases "fill_side f") auto
  moreover have "fst (dict_get (ls_positions l) symb (0, None)) = 0"
    using books_agreeD(2)[OF assms(1), of symb] None by simp
  moreover have "pq = 0" "avg = 0" using assms(2) None by auto
  ultimately show ?thesis
    using assms(4) by (cases "dict_get (ls_positions l) symb (0, None)") (auto simp: next_holding_def dec_op_defs Let_def)
next
  case (Some h)
  then have h: "h = (pq, avg)" using assms(2) by simp
  have "pq \<noteq> 0 \<and> dict_get (ls_positions l) symb (0, None) = (pq, Some avg)"
    using books_agreeD(2)[OF assms(1), of symb] Some h by simp
  then show ?thesis using assms(4,5) by (cases "fill_side f = BUY") (simp_all add: next_holding_def Let_def)
qed

lemma accounting_follows_ledger:
  assumes agree: "books_agree s l" and acc: "apply_accounting r (fill_quantity f) (fill_price f) (fill_fee f) s = (Inr (), s')"
    and f: "fill_symbol f = req_symbol r" "fill_side f = req_side r" "fill_fee_asset f = cfg_fee_asset (sb_config s)"
    and ex: "dec (fill_quantity f) = fill_quantity f" "dec (fill_fee f) = fill_fee f"
    and held: "req_side r = SELL \<longrightarrow> map_of (sb_positions s) (req_symbol r) \<noteq> None"
  shows "\<exists>l'. apply_fill [] f l = Inr l' \<and> books_agree s' l'"
proof -
  obtain base quote where bq: "split_hyphen (req_symbol r) = Some (base, quote)"
    using acc by (auto simp: apply_accounting_def split: option.splits)
  obtain pq avg where pos: "dict_get (sb_positions s) (req_symbol r) (0, 0) = (pq, avg)" by force
  obtain tot a b0 where b0: "\<forall>x. dict_get b0 x 0 = dict_get (sb_balances s) x 0"
    and bal: "sb_balances s' = drop_amount (cfg_fee_asset (sb_config s)) (fill_fee f)
        (if req_side r = BUY then drop_amount quote (dmul (fill_quantity f) (fill_price f)) (bump base (fill_quantity f) b0)
         else bump quote (dmul (fill_quantity f) (fill_price f)) (drop_amount base (fill_quantity f) b0))"
    and tt: "if req_side r = BUY then tot = dadd pq (fill_quantity f) \<and> tot \<noteq> 0 \<and>
          a = dec (dadd (dmul pq avg) (dmul (fill_quantity f) (fill_price f)) / tot)
       else tot = dsub pq (fill_quantity f) \<and> a = avg"
    and ps: "sb_positions s' = (if tot = 0 then AList.delete (req_symbol r) (sb_positions s)
        else AList.update (req_symbol r) (tot, a) (sb_positions s))"
    using apply_accounting_Inr[OF acc bq pos] by blast
  have h: "next_holding f (dict_get (ls_positions l) (fill_symbol f) (0, None)) = Inr (tot, Some a)"
    unfolding f(1) by (rule next_holding_agrees[OF agree pos]) (use held tt f in auto)
  obtain l' where l': "apply_fill [] f l = Inr l'"
    "ls_available l' = (if req_side r = BUY
      then bump (fill_fee_asset f) (- fill_fee f) (bump quote (- dmul (fill_quantity f) (fill_price f)) (bump base (fill_quantity f) (ls_available l)))
      else bump (fill_fee_asset f) (- fill_fee f) (bump quote (dmul (fill_quantity f) (fill_price f)) (bump base (- fill_quantity f) (ls_available l))))"
    "ls_positions l' = AList.update (fill_symbol f) (tot, Some a) (ls_positions l)"
    using apply_fill_plain[OF bq[folded f(1)] _ h] movements_exact[OF ex, of base quote] f(2)
    by (cases "req_side r = BUY") auto
  have "dict_get (sb_balances s') x 0 = dict_get (ls_available l') x 0" for x
    using books_agreeD(1)[OF agree] b0 by (simp add: bal l' f(3) get_bump get_drop_amount)
  moreover have "holding_agrees (map_of (sb_positions s') symb) (dict_get (ls_positions l') symb (0, None))" for symb
    using books_agreeD(2)[OF agree, of symb] by (simp add: ps l' f(1))
  ultimately show ?thesis using l'(1) by (auto simp: books_agree_def)
qed


text \<open>
  C22. The ledger follows the simulator. Whenever the broker books a fill (of a representable
  quantity; a sell only of something it holds), projecting that very fill with the ledger keeps the
  two accounts in agreement: the same amount of every asset and the same quantity and average
  price of every holding, rounding included.
\<close>

theorem ledger_follows_simulator:
  assumes "books_agree s l" "sim_apply_fill now ord q p s = (Inr ord', s')" "dec q = q"
    "req_side (ord_request ord) = SELL \<longrightarrow> map_of (sb_positions s) (req_symbol (ord_request ord)) \<noteq> None"
  shows "\<exists>f l'. map_of (sb_fills s') (req_client_order_id (ord_request ord)) =
        Some (dict_get (sb_fills s) (req_client_order_id (ord_request ord)) [] @ [f]) \<and>
      apply_fill [] f l = Inr l' \<and> books_agree s' l'"
proof -
  let ?k = "req_client_order_id (ord_request ord)"
  let ?s0 = "s\<lparr>sb_fills := dict_setdefault ?k [] (sb_fills s)\<rparr>"
  let ?f = "sim_fill now ?s0 ord q p"
  obtain upd where acc: "apply_accounting (ord_request ord) q p (fill_fee ?f)
      (?s0\<lparr>sb_fills := AList.update ?k (dict_get (sb_fills ?s0) ?k [] @ [?f]) (sb_fills ?s0),
         sb_orders := AList.update ?k upd (sb_orders ?s0)\<rparr>) = (Inr (), s')" (is "apply_accounting _ _ _ _ ?s2 = _")
    using assms(2) by (auto simp: sim_apply_fill_def Let_def abind_def split: if_splits sum.splits prod.splits)
  have "books_agree ?s2 l" using assms(1) by (simp add: books_agree_def)
  moreover have "apply_accounting (ord_request ord) (fill_quantity ?f) (fill_price ?f) (fill_fee ?f) ?s2 = (Inr (), s')"
    using acc by (simp add: sim_fill_def Let_def)
  ultimately have "\<exists>l'. apply_fill [] ?f l = Inr l' \<and> books_agree s' l'"
    by (rule accounting_follows_ledger) (use assms(3,4) in \<open>simp_all add: sim_fill_def Let_def dmul_def\<close>)
  moreover have "sb_fills s' = sb_fills ?s2"
    using apply_accounting_frame[of "ord_request ord" q p "fill_fee ?f" ?s2] acc by auto
  then have "map_of (sb_fills s') ?k = Some (dict_get (sb_fills s) ?k [] @ [?f])"
    by (simp add: dict_get_setdefault)
  ultimately show ?thesis by blast
qed

section \<open>Two accounting failures\<close>

text \<open>A broker with a round-number quote, used to run concrete scenarios.\<close>

definition sample_quote :: quote where
  "sample_quote = \<lparr>q_symbol = ''B-U'', q_bid = 10, q_ask = 10, q_as_of = 0, q_source = ''t'', q_received_at = 0\<rparr>"

definition sample_config :: sim_config where
  "sample_config = \<lparr>cfg_slippage = 0, cfg_fee_rate = 0, cfg_fee_asset = ''U'',
     cfg_partial_fill_schedule = [1], cfg_initial_quote_balance = 100\<rparr>"

definition sample_request :: "string \<Rightarrow> order_side \<Rightarrow> order_type \<Rightarrow> rat option \<Rightarrow> order_request" where
  "sample_request k side ot limit = \<lparr>req_signal_id = ''s'', req_strategy_version = ''v'', req_symbol = ''B-U'',
     req_side = side, req_order_type = ot, req_quantity = 2, req_limit_price = limit,
     req_client_order_id = k, req_correlation_id = ''c''\<rparr>"

definition sample_approval :: risk_approval where
  "sample_approval = \<lparr>apr_approval_id = ''a'', apr_signal_id = ''s'', apr_approved = True, apr_reason = ''ok'',
     apr_failed_gate = None, apr_approved_at = 0, apr_correlation_id = ''c''\<rparr>"

definition sample_broker :: "sim_fault list \<Rightarrow> sim_broker" where
  "sample_broker faults = \<lparr>sb_config = sample_config, sb_quote = sample_quote,
     sb_faults = (\<lambda>_. [])(OpSubmit := faults), sb_always_unavailable = False,
     sb_orders = [], sb_fills = [], sb_limit_schedule_index = [], sb_unknown_requests = [],
     sb_out_of_order = {}, sb_acknowledgements = [], sb_balances = [(''U'', 100)], sb_positions = []\<rparr>"

lemma plan_queue_submit: "plan_queue (no_faults\<lparr>fp_submit := faults\<rparr>) = (\<lambda>_. [])(OpSubmit := faults)"
proof
  show "plan_queue (no_faults\<lparr>fp_submit := faults\<rparr>) oper = ((\<lambda>_. [])(OpSubmit := faults)) oper" for oper
    by (cases oper) (simp_all add: no_faults_def)
qed

lemma sample_broker_init: "sim_init now (Some sample_quote) (Some sample_config) None faults = Inr (sample_broker faults)"
proof -
  have "\<not> fp_unavailable no_faults" by (simp add: no_faults_def)
  then show ?thesis
    by (simp add: sim_init_def Let_def sample_broker_def dict_setdefault_def plan_queue_submit
        sample_quote_def sample_config_def)
qed

lemmas sim_run_defs = sim_submit_order_def sim_submit_new_def sim_submit_unknown_def sim_get_order_def
  take_fault_def raise_for_fault_def accept_order_def sim_apply_fill_def sim_fill_def fill_next_limit_def
  limit_is_marketable_def apply_accounting_def market_price_def acknowledge_def acknowledgement_count_def
  filled_order_def new_order_def valid_fill_def abind_def Let_def dec_op_defs dict_setdefault_def bump_def
  drop_amount_def sim_advance_def dec.r_minus

lemmas sample_defs = sample_broker_def sample_request_def sample_approval_def sample_config_def sample_quote_def
  no_faults_def

text \<open>The broker after a timed-out limit buy of 2 at 10, and after the market advanced.\<close>

definition timed_out :: sim_broker where
  "timed_out = snd (sim_submit_order 0 (sample_request ''k'' BUY LIMIT (Some 10)) sample_approval (sample_broker [FTIMEOUT]))"

definition timed_out_advanced :: sim_broker where
  "timed_out_advanced = snd (sim_advance 1 timed_out)"

lemma timed_out_eq:
  "timed_out = (sample_broker [])\<lparr>
     sb_orders := [(''k'', new_order ''k'' (sample_request ''k'' BUY LIMIT (Some 10)) UNKNOWN 0)],
     sb_fills := [(''k'', [])], sb_unknown_requests := [(''k'', sample_request ''k'' BUY LIMIT (Some 10))],
     sb_acknowledgements := [(''k'', 1)]\<rparr>"
  by (simp add: timed_out_def sim_submit_order_def take_fault_def sim_submit_new_def sim_submit_unknown_def
      acknowledge_def abind_def Let_def sample_defs)

lemma timed_out_advanced_eq:
  "timed_out_advanced = timed_out\<lparr>
     sb_orders := [(''k'', filled_order 1 (new_order ''k'' (sample_request ''k'' BUY LIMIT (Some 10)) UNKNOWN 0) 2 10)],
     sb_fills := [(''k'', [sim_fill 1 timed_out (new_order ''k'' (sample_request ''k'' BUY LIMIT (Some 10)) UNKNOWN 0) 2 10])],
     sb_limit_schedule_index := [(''k'', 1)],
     sb_balances := [(''U'', 80), (''B'', 2)], sb_positions := [(''B-U'', 2, 10)]\<rparr>"
  unfolding timed_out_advanced_def timed_out_eq
  by (simp add: sim_advance_def fill_next_limit_def limit_is_marketable_def sim_apply_fill_def sim_fill_def
      apply_accounting_def filled_order_def new_order_def valid_fill_def abind_def Let_def dec_op_defs
      dict_setdefault_def bump_def drop_amount_def sample_defs)


text \<open>
  A timed-out limit order is booked twice. The submission of a limit buy of 2 at 10 times out;
  \<^verbatim>\<open>advance\<close> then fills the order although it is still unknown, and \<^verbatim>\<open>get_order\<close> drops that
  order with its fill and accepts it again: one fill of 2 is on record, but 4 units were bought and
  40 of the 100 quote units are gone.
\<close>

theorem timed_out_limit_order_is_booked_twice:
  "map fill_quantity (dict_get (sb_fills (snd (sim_get_order 2 ''k'' timed_out_advanced))) ''k'' []) = [2] \<and>
   sb_balances (snd (sim_get_order 2 ''k'' timed_out_advanced)) = [(''U'', 60), (''B'', 4)] \<and>
   map_of (sb_positions (snd (sim_get_order 2 ''k'' timed_out_advanced))) ''B-U'' = Some (4, 10)"
  unfolding timed_out_advanced_eq timed_out_eq
  by (simp add: sim_get_order_def raise_for_fault_def take_fault_def accept_order_def fill_next_limit_def
      limit_is_marketable_def sim_apply_fill_def sim_fill_def
      apply_accounting_def filled_order_def new_order_def valid_fill_def abind_def Let_def dec_op_defs
      dict_setdefault_def bump_def drop_amount_def sample_defs)

text \<open>The broker after a market sell of 2 that it does not hold.\<close>

definition went_short :: sim_broker where
  "went_short = snd (sim_submit_order 0 (sample_request ''k1'' SELL MARKET None) sample_approval (sample_broker []))"

lemma went_short_eq:
  "went_short = (sample_broker [])\<lparr>
     sb_orders := [(''k1'', filled_order 0 (new_order ''k1'' (sample_request ''k1'' SELL MARKET None) OPEN 0) 2 10)],
     sb_fills := [(''k1'', [sim_fill 0 (sample_broker []) (new_order ''k1'' (sample_request ''k1'' SELL MARKET None) OPEN 0) 2 10])],
     sb_limit_schedule_index := [(''k1'', 0)], sb_acknowledgements := [(''k1'', 1)],
     sb_balances := [(''U'', 120), (''B'', - 2)], sb_positions := [(''B-U'', - 2, 0)]\<rparr>"
  unfolding went_short_def
  by (simp add: sim_submit_order_def take_fault_def sim_submit_new_def accept_order_def market_price_def
      acknowledge_def sim_apply_fill_def sim_fill_def apply_accounting_def filled_order_def new_order_def
      valid_fill_def abind_def Let_def dec_op_defs dict_setdefault_def bump_def drop_amount_def sample_defs
      dec.r_minus)

text \<open>
  Closing a short raises. The broker lets a market sell open a short position; a buy of the same
  quantity then divides by the zero total after it has stored the fill, marked the order filled and
  moved the balances, so the call raises \<^verbatim>\<open>DivisionByZero\<close> and the short position stays on
  the books.
\<close>

theorem covering_a_short_raises:
  "case sim_submit_order 1 (sample_request ''k2'' BUY MARKET None) sample_approval went_short of (r, s) \<Rightarrow>
    r = Inl (ArithmeticError DivisionByZero) \<and>
    map_option ord_status (map_of (sb_orders s) ''k2'') = Some FILLED \<and>
    length (dict_get (sb_fills s) ''k2'' []) = 1 \<and>
    sb_balances s = [(''U'', 100), (''B'', 0)] \<and>
    map_of (sb_positions s) ''B-U'' = Some (- 2, 0)"
  unfolding went_short_eq
  by (simp add: sim_submit_order_def take_fault_def sim_submit_new_def accept_order_def market_price_def
      acknowledge_def sim_apply_fill_def sim_fill_def apply_accounting_def filled_order_def new_order_def
      valid_fill_def abind_def Let_def dec_op_defs dict_setdefault_def bump_def drop_amount_def sample_defs
      dec.r_minus ddiv_def)

section \<open>Witnesses\<close>

lemma sample_reachable: "sim_reachable timed_out_advanced"
  unfolding timed_out_advanced_def timed_out_def
  using sim_reachable.call[of _ "CAdvance 1"] sim_reachable.call[of _ "CSubmit 0 (sample_request ''k'' BUY LIMIT (Some 10)) sample_approval"]
    sim_reachable.init[OF sample_broker_init] by (metis sim_after.simps(1,8))

theorem sim_orders_match_fills_witness:
  "ord_filled_quantity (filled_order 1 (new_order ''k'' (sample_request ''k'' BUY LIMIT (Some 10)) UNKNOWN 0) 2 10) =
     dsum (map fill_quantity (dict_get (sb_fills timed_out_advanced) ''k'' []))"
  using sim_orders_match_fills[OF sample_reachable, of "''k''"] by (simp add: timed_out_advanced_eq)

lemma sample_advanced_fills:
  "\<exists>f. map_of (sb_fills timed_out_advanced) ''k'' = Some [f]"
  by (simp add: timed_out_advanced_eq)

theorem sim_fill_ids_unique_witness:
  "\<exists>f. map_of (sb_fills timed_out_advanced) ''k'' = Some [f] \<and> ''k'' = ''k'' \<and> (0 :: nat) = 0"
proof -
  obtain f where f: "map_of (sb_fills timed_out_advanced) ''k'' = Some [f]"
    using sample_advanced_fills by blast
  have "''k'' = ''k'' \<and> (0 :: nat) = 0"
    by (rule sim_fill_ids_unique[OF sample_reachable f _ f]) simp_all
  with f show ?thesis by blast
qed

theorem sim_submission_is_idempotent_witness:
  "\<exists>ord' s3. map_of (sb_orders went_short) ''k1'' = Some ord' \<and>
     sim_submit_order 5 (sample_request ''k1'' SELL MARKET None) sample_approval went_short = (Inr ord', s3) \<and>
     sb_fills s3 = sb_fills went_short \<and> sb_balances s3 = sb_balances went_short"
proof -
  let ?r = "sample_request ''k1'' SELL MARKET None"
  have ws: "\<exists>ord. sim_submit_order 0 ?r sample_approval (sample_broker []) = (Inr ord, went_short)"
    unfolding went_short_def
    by (simp add: sim_submit_order_def take_fault_def sim_submit_new_def accept_order_def
      acknowledge_def sim_apply_fill_def sim_fill_def apply_accounting_def market_price_def
      valid_fill_def abind_def Let_def dec_op_defs sample_defs new_order_def dict_setdefault_def)
  then obtain ord where "sim_submit_order 0 ?r sample_approval (sample_broker []) = (Inr ord, went_short)" ..
  from sim_submission_is_idempotent[OF sim_reachable.init[OF sample_broker_init] this, of went_short "[]" ?r sample_approval 5]
  show ?thesis
    by (simp add: sample_request_def sample_approval_def) (auto simp: went_short_eq sample_broker_def)
qed


theorem ledger_follows_simulator_witness:
  "\<exists>f l' s'. map_of (sb_fills s') ''k'' = Some [f] \<and>
     apply_fill [] f \<lparr>ls_positions = [], ls_available = [(''U'', 100)], ls_exact = [(''U'', 100)]\<rparr> = Inr l' \<and>
     books_agree s' l'"
proof -
  let ?ord = "new_order ''k'' (sample_request ''k'' BUY MARKET None) OPEN 0"
  let ?l = "\<lparr>ls_positions = [], ls_available = [(''U'', 100)], ls_exact = [(''U'', 100)]\<rparr>"
  have agree: "books_agree (sample_broker []) ?l" by (simp add: books_agree_def sample_broker_def)
  have "\<exists>ord' s'. sim_apply_fill 0 ?ord 2 10 (sample_broker []) = (Inr ord', s')"
    by (simp add: sim_apply_fill_def sim_fill_def apply_accounting_def valid_fill_def abind_def Let_def dec_op_defs
        sample_defs new_order_def dict_setdefault_def)
  then obtain ord' s' where "sim_apply_fill 0 ?ord 2 10 (sample_broker []) = (Inr ord', s')" by blast
  from ledger_follows_simulator[OF agree this] show ?thesis
    by (auto simp: new_order_def sample_request_def sample_broker_def)
qed

end
