(* ===== verification/Broker.thy ===== *)
theory Broker
  imports Simulated
begin

text \<open>
  The broker interface of \<^verbatim>\<open>brokers/interface.py\<close> as a record of its methods over any broker state, and
  the contract \<open>broker_contract\<close> its clients rely on: the venue's set of orders grows only by a
  submission, and only by the submitted order's own client order ID; a lookup tells whether the
  venue has the order. The contract is interpreted on the simulated broker.
\<close>

section \<open>The interface\<close>

record 'b broker_ops =
  bo_get_quote :: "string \<Rightarrow> (exn, 'b, quote) act"
  bo_get_balances :: "(exn, 'b, balance list) act"
  bo_get_positions :: "(exn, 'b, position list) act"
  bo_submit_order :: "order_request \<Rightarrow> risk_approval \<Rightarrow> (exn, 'b, trade_order) act"
  bo_get_order :: "string \<Rightarrow> (exn, 'b, trade_order option) act"
  bo_get_fills :: "string \<Rightarrow> (exn, 'b, fill list) act"

record broker_capabilities =
  cap_provider :: string
  cap_environment :: string
  cap_streaming :: bool
  cap_historical_candles :: bool
  cap_native_order_edit :: bool
  cap_preview_orders :: bool
  cap_order_types :: "string list"
  cap_price_increment :: rat
  cap_quantity_increment :: rat
  cap_max_quote_age_seconds :: int
  cap_balance_increments :: amounts

definition valid_capabilities :: "broker_capabilities \<Rightarrow> bool" where
  "valid_capabilities c \<longleftrightarrow>
     cap_environment c \<in> {''local'', ''sandbox'', ''production''} \<and> cap_order_types c \<noteq> [] \<and>
     0 < cap_max_quote_age_seconds c \<and> list_all (\<lambda>(_, inc). 0 < inc) (cap_balance_increments c)"

record symbol_rules =
  sr_symbol :: string
  sr_min_quantity :: rat
  sr_quantity_increment :: rat
  sr_price_increment :: rat
  sr_min_notional :: "rat option"

definition valid_symbol_rules :: "symbol_rules \<Rightarrow> bool" where
  "valid_symbol_rules r \<longleftrightarrow>
     0 < sr_min_quantity r \<and> 0 < sr_quantity_increment r \<and> 0 < sr_price_increment r \<and>
     (case sr_min_notional r of None \<Rightarrow> True | Some v \<Rightarrow> 0 < v)"

definition simulated_capabilities :: broker_capabilities where
  "simulated_capabilities = \<lparr>cap_provider = ''simulated'', cap_environment = ''local'',
     cap_streaming = True, cap_historical_candles = True, cap_native_order_edit = False,
     cap_preview_orders = True, cap_order_types = [''market'', ''limit''],
     cap_price_increment = 1 / 100, cap_quantity_increment = 1 / 100000000,
     cap_max_quote_age_seconds = 60, cap_balance_increments = []\<rparr>"

lemma simulated_capabilities_valid: "valid_capabilities simulated_capabilities"
  by (simp add: valid_capabilities_def simulated_capabilities_def)

definition sim_ops :: "datetime \<Rightarrow> sim_broker broker_ops" where
  "sim_ops now = \<lparr>bo_get_quote = sim_get_quote, bo_get_balances = sim_get_balances now,
     bo_get_positions = sim_get_positions now, bo_submit_order = sim_submit_order now,
     bo_get_order = sim_get_order now, bo_get_fills = sim_get_fills\<rparr>"

section \<open>The contract\<close>

locale broker_contract =
  fixes bops :: "'b broker_ops"
    and placed :: "'b \<Rightarrow> string set"
    and binv :: "'b \<Rightarrow> bool"
  assumes inv_get_order: "binv b \<Longrightarrow> binv (snd (bo_get_order bops k b))"
    and inv_get_fills: "binv b \<Longrightarrow> binv (snd (bo_get_fills bops k b))"
    and inv_submit: "binv b \<Longrightarrow> binv (snd (bo_submit_order bops r apr b))"
    and placed_get_order: "binv b \<Longrightarrow> placed (snd (bo_get_order bops k b)) = placed b"
    and placed_get_fills: "binv b \<Longrightarrow> placed (snd (bo_get_fills bops k b)) = placed b"
    and placed_submit_grows: "binv b \<Longrightarrow> placed b \<subseteq> placed (snd (bo_submit_order bops r apr b))"
    and placed_submit_only: "binv b \<Longrightarrow>
      placed (snd (bo_submit_order bops r apr b)) \<subseteq> insert (req_client_order_id r) (placed b)"
    and submit_places: "binv b \<Longrightarrow> bo_submit_order bops r apr b = (Inr ord, b') \<Longrightarrow>
      req_client_order_id r \<in> placed b'"
    and lookup_tells: "binv b \<Longrightarrow> bo_get_order bops k b = (Inr found, b') \<Longrightarrow>
      found \<noteq> None \<longleftrightarrow> k \<in> placed b"
begin

text \<open>After a lookup that found nothing the order is not at the venue.\<close>

lemma not_found_not_placed: "binv b \<Longrightarrow> bo_get_order bops k b = (Inr None, b') \<Longrightarrow> k \<notin> placed b'"
  using lookup_tells[of b k None b'] placed_get_order[of b k] by auto

lemma placed_submit_others:
  "binv b \<Longrightarrow> k \<noteq> req_client_order_id r \<Longrightarrow> k \<in> placed (snd (bo_submit_order bops r apr b)) \<longleftrightarrow> k \<in> placed b"
  using placed_submit_grows[of b r apr] placed_submit_only[of b r apr] by blast

end

section \<open>The simulated broker keeps the contract\<close>

definition sim_placed :: "sim_broker \<Rightarrow> string set" where
  "sim_placed s = {k. has_order k s}"

text \<open>A booking never adds an order; accepting one adds its own.\<close>

lemma placed_fill:
  assumes "req_client_order_id (ord_request ord) \<in> sim_placed s"
  shows "sim_placed (snd (sim_apply_fill now ord q p s)) = sim_placed s"
proof -
  have acc: "sb_orders (snd (apply_accounting r q p fee t)) = sb_orders t" for r q p fee t
    using apply_accounting_frame[of r q p fee t] by auto
  show ?thesis
    using assms by (auto simp: sim_placed_def has_order_def sim_apply_fill_def Let_def acc split: sum.splits)
qed

lemma placed_next_limit:
  assumes "req_client_order_id (ord_request ord) \<in> sim_placed s"
  shows "sim_placed (snd (fill_next_limit now ord s)) = sim_placed s"
proof -
  have "sim_placed (s\<lparr>sb_limit_schedule_index := x\<rparr>) = sim_placed s" for x
    by (simp add: sim_placed_def has_order_def)
  then show ?thesis using assms by (simp add: fill_next_limit_def Let_def placed_fill)
qed

lemma placed_accept: "sim_placed (snd (accept_order now r s)) = insert (req_client_order_id r) (sim_placed s)"
proof -
  let ?k = "req_client_order_id r"
  let ?ord = "new_order ?k r OPEN now"
  let ?s1 = "s\<lparr>sb_orders := AList.update ?k ?ord (sb_orders s), sb_fills := AList.update ?k [] (sb_fills s),
    sb_limit_schedule_index := AList.update ?k 0 (sb_limit_schedule_index s)\<rparr>"
  have p: "sim_placed ?s1 = insert ?k (sim_placed s)" by (auto simp: sim_placed_def has_order_def)
  then have "req_client_order_id (ord_request ?ord) \<in> sim_placed ?s1" by (simp add: new_order_def)
  from placed_fill[OF this] placed_next_limit[OF this] p show ?thesis
    by (simp add: accept_order_def Let_def)
qed

lemma placed_frame:
  "sim_placed (s\<lparr>sb_faults := fs\<rparr>) = sim_placed s" "sim_placed (acknowledge k n s) = sim_placed s"
  "sim_placed (s\<lparr>sb_out_of_order := x\<rparr>) = sim_placed s"
  by (simp_all add: sim_placed_def has_order_def acknowledge_def)

lemma placed_raise_for_fault: "sim_placed (snd (raise_for_fault oper s)) = sim_placed s"
proof -
  obtain fs where "snd (raise_for_fault oper s) = s\<lparr>sb_faults := fs\<rparr>"
    using raise_for_fault_frame by blast
  then show ?thesis by (simp add: placed_frame)
qed

lemma placed_get_fills: "sim_placed (snd (sim_get_fills k s)) = sim_placed s"
proof -
  obtain x t where rf: "raise_for_fault OpGetFills s = (x, t)" by force
  then show ?thesis
    using placed_raise_for_fault[of OpGetFills s]
    by (simp add: sim_get_fills_def abind_def Let_def split: sum.splits)
qed

lemma sim_get_order_cases:
  assumes "sim_ok s" "sim_get_order now k s = (res, s')"
  shows "sim_placed s' = sim_placed s \<and> (\<forall>found. res = Inr found \<longrightarrow> (found \<noteq> None \<longleftrightarrow> k \<in> sim_placed s))"
proof -
  obtain x t where rf: "raise_for_fault OpGetOrder s = (x, t)" by force
  have ok: "sim_ok t" and pt: "sim_placed t = sim_placed s"
    using raise_for_fault_ok'[OF assms(1) rf] placed_raise_for_fault[of OpGetOrder s] rf by simp_all
  show ?thesis
  proof (cases x)
    case (Inl e)
    then show ?thesis using assms(2) pt by (auto simp: sim_get_order_def abind_def rf)
  next
    case (Inr y)
    let ?t = "t\<lparr>sb_unknown_requests := AList.delete k (sb_unknown_requests t),
      sb_orders := AList.delete k (sb_orders t), sb_fills := AList.delete k (sb_fills t),
      sb_limit_schedule_index := AList.delete k (sb_limit_schedule_index t)\<rparr>"
    show ?thesis
    proof (cases "map_of (sb_unknown_requests t) k")
      case None
      then show ?thesis using assms(2) Inr pt
        by (auto simp: sim_get_order_def abind_def rf sim_placed_def has_order_def)
    next
      case (Some r)
      have rk: "req_client_order_id r = k" and hk: "k \<in> sim_placed t"
        using ok Some unfolding sim_ok_def sim_placed_def has_order_def by blast+
      obtain z u where acc: "accept_order now r ?t = (z, u)" by force
      have "sim_placed ?t = sim_placed t - {k}" by (auto simp: sim_placed_def has_order_def)
      then have pu: "sim_placed u = sim_placed s"
        using placed_accept[of now r ?t] acc rk hk pt by auto
      have "k \<in> sim_placed u" using pu hk pt by simp
      then show ?thesis using assms(2) Inr Some acc pu hk pt
        by (auto simp: sim_get_order_def abind_def rf sim_placed_def has_order_def split: sum.splits)
    qed
  qed
qed

lemma placed_submit:
  assumes "sim_submit_order now r apr s = (res, s')"
  shows "sim_placed s' = sim_placed s \<or> sim_placed s' = insert (req_client_order_id r) (sim_placed s)"
proof -
  let ?k = "req_client_order_id r"
  obtain x t where tf: "take_fault OpSubmit s = (x, t)" by force
  have pt: "sim_placed t = sim_placed s"
    using take_fault_frame[of OpSubmit s] tf by (auto simp: placed_frame)
  have acc: "sim_placed (snd (abind (accept_order now r)
      (\<lambda>ord s'. if b then (Inl (DuplicateAcknowledgementError ord), acknowledge k 1 s')
        else (Inr ord, acknowledge k 1 s')) u)) = insert ?k (sim_placed u)" for b k u
  proof -
    obtain z u' where "accept_order now r u = (z, u')" by force
    then show ?thesis using placed_accept[of now r u] by (simp add: abind_def placed_frame split: sum.splits)
  qed
  note accs = acc[of False, simplified] acc[of True, simplified]
  have rej: "sim_placed (snd (abind (store_rejected now r) (\<lambda>ord. athrow (OrderRejectedError ord)) t)) = insert ?k (sim_placed t)"
    "sim_placed (snd (sim_submit_unknown now r t)) = insert ?k (sim_placed t)"
    by (auto simp: abind_def store_rejected_def sim_submit_unknown_def Let_def placed_frame sim_placed_def
        has_order_def acknowledge_def)
  have "sim_placed (snd (sim_submit_new now r inj t)) = sim_placed t \<or>
      sim_placed (snd (sim_submit_new now r inj t)) = insert ?k (sim_placed t)" for inj
  proof (cases inj)
    case None
    then show ?thesis unfolding sim_submit_new_def Let_def by (simp add: accs placed_frame)
  next
    case (Some fault)
    then show ?thesis
      unfolding sim_submit_new_def Let_def by (cases fault) (simp_all add: accs rej placed_frame)
  qed
  then have new: "sim_placed (snd (abind (take_fault OpSubmit) (sim_submit_new now r) s)) = sim_placed s \<or>
      sim_placed (snd (abind (take_fault OpSubmit) (sim_submit_new now r) s)) = insert ?k (sim_placed s)"
    using pt by (simp add: abind_def tf split: sum.splits)
  have "s' = snd (sim_submit_order now r apr s)" using assms by simp
  then show ?thesis
    using new by (simp add: sim_submit_order_def Let_def placed_frame split: option.splits)
qed

lemma sim_broker_contract: "broker_contract (sim_ops now) sim_placed sim_ok"
proof
  fix s k r apr
  assume ok: "sim_ok s"
  show "sim_ok (snd (bo_get_order (sim_ops now) k s))" using sim_get_order_ok[OF ok] by (simp add: sim_ops_def)
  show "sim_ok (snd (bo_get_fills (sim_ops now) k s))"
    using sim_after_ok[OF ok, of "CGetFills k"] by (simp add: sim_ops_def)
  show "sim_ok (snd (bo_submit_order (sim_ops now) r apr s))" using sim_submit_ok[OF ok] by (simp add: sim_ops_def)
  show "sim_placed (snd (bo_get_order (sim_ops now) k s)) = sim_placed s"
    using sim_get_order_cases[OF ok] by (metis broker_ops.select_convs(5) prod.collapse sim_ops_def)
  show "sim_placed (snd (bo_get_fills (sim_ops now) k s)) = sim_placed s"
    using placed_get_fills by (simp add: sim_ops_def)
  obtain res s' where sub: "sim_submit_order now r apr s = (res, s')" by force
  show "sim_placed s \<subseteq> sim_placed (snd (bo_submit_order (sim_ops now) r apr s))"
    "sim_placed (snd (bo_submit_order (sim_ops now) r apr s)) \<subseteq> insert (req_client_order_id r) (sim_placed s)"
    using placed_submit[OF sub] by (auto simp: sim_ops_def sub)
next
  fix s r apr ord s'
  assume "bo_submit_order (sim_ops now) r apr s = (Inr ord, s')"
  then show "req_client_order_id r \<in> sim_placed s'"
    using sim_submit_stores by (simp add: sim_ops_def sim_placed_def)
next
  fix s k found s'
  assume "sim_ok s" "bo_get_order (sim_ops now) k s = (Inr found, s')"
  then show "(found \<noteq> None) = (k \<in> sim_placed s)"
    using sim_get_order_cases by (simp add: sim_ops_def)
qed

interpretation sim: broker_contract "sim_ops now" sim_placed sim_ok for now
  by (rule sim_broker_contract)

end
