(* ===== verification/OrderStore.thy ===== *)
theory OrderStore
  imports Models
begin

text \<open>
  The order store: the \<^verbatim>\<open>OrderStore\<close> protocol of \<^verbatim>\<open>execution/engine.py\<close> as a record of its methods,
  its two implementations (\<^verbatim>\<open>InMemoryOrderStore\<close> and, from \<^verbatim>\<open>execution/persistence.py\<close>,
  \<^verbatim>\<open>SqlAlchemyOrderStore\<close>), and the contract \<open>order_store\<close> the execution engine relies on,
  interpreted on both.

  The database is the list of rows of each table. A database call can fail: \<open>db_failures\<close> says, call
  by call, whether the next one does (an empty list means that they all work). A failed call rolls its
  transaction back, so it changes no table. A numeric column stores \<open>numeric x\<close>, a parameter,
  because the rounding of a column is the database's.
\<close>

section \<open>The protocol\<close>

type_synonym payload = "(string, string) dict"

record 's order_store_ops =
  os_reserve_with_created :: "order_request \<Rightarrow> risk_approval \<Rightarrow> (exn, 's, trade_order \<times> bool) act"
  os_update :: "trade_order \<Rightarrow> (exn, 's, unit) act"
  os_add_fills :: "fill list \<Rightarrow> (exn, 's, unit) act"
  os_get :: "string \<Rightarrow> (exn, 's, trade_order option) act"
  os_pending :: "(exn, 's, trade_order list) act"
  os_close_unreceived :: "string \<Rightarrow> string \<Rightarrow> payload \<Rightarrow> datetime \<Rightarrow> (exn, 's, bool) act"

definition store_reserve :: "'s order_store_ops \<Rightarrow> order_request \<Rightarrow> risk_approval \<Rightarrow> (exn, 's, trade_order) act" where
  "store_reserve st r apr = abind (os_reserve_with_created st r apr) (\<lambda>(ord, _). aret ord)"

section \<open>The store in memory\<close>

record memory_store =
  im_fail_writes :: bool
  im_orders :: "(string, trade_order) dict"
  im_fills :: "(string, fill) dict"
  im_approvals :: "(string, risk_approval) dict"
  im_closures :: "(string \<times> payload) list"

definition im_reserve_with_created ::
  "datetime \<Rightarrow> order_request \<Rightarrow> risk_approval \<Rightarrow> (exn, memory_store, trade_order \<times> bool) act"
where
  "im_reserve_with_created now r apr s =
     (if im_fail_writes s
      then (Inl (PersistenceUnavailable ''order pre-submit persistence is unavailable''), s)
      else let key = req_client_order_id r in
        (case map_of (im_orders s) key of
           Some existing \<Rightarrow>
             if ord_request existing \<noteq> r
             then (Inl (ValueError ''client_order_id is already bound to a different order request''), s)
             else (Inr (existing, False), s)
         | None \<Rightarrow>
             let ord = new_order key r PENDING_SUBMIT now in
             (Inr (ord, True), s\<lparr>im_orders := AList.update key ord (im_orders s),
                im_approvals := AList.update key apr (im_approvals s)\<rparr>)))"

definition im_update :: "trade_order \<Rightarrow> (exn, memory_store, unit) act" where
  "im_update ord s =
     (if im_fail_writes s
      then (Inl (PersistenceUnavailable ''order update persistence is unavailable''), s)
      else (Inr (), s\<lparr>im_orders :=
         AList.update (req_client_order_id (ord_request ord)) ord (im_orders s)\<rparr>))"

definition im_add_fills :: "fill list \<Rightarrow> (exn, memory_store, unit) act" where
  "im_add_fills fills s =
     (if im_fail_writes s then (Inl (PersistenceUnavailable ''fill persistence is unavailable''), s)
      else (Inr (), s\<lparr>im_fills :=
         foldl (\<lambda>d f. AList.update (fill_fill_id f) f d) (im_fills s) fills\<rparr>))"

definition im_get :: "string \<Rightarrow> (exn, memory_store, trade_order option) act" where
  "im_get k s = (Inr (map_of (im_orders s) k), s)"

definition im_pending :: "(exn, memory_store, trade_order list) act" where
  "im_pending s = (Inr (filter (\<lambda>ord. unresolved (ord_status ord)) (map snd (im_orders s))), s)"

definition im_close_unreceived ::
  "string \<Rightarrow> string \<Rightarrow> payload \<Rightarrow> datetime \<Rightarrow> (exn, memory_store, bool) act"
where
  "im_close_unreceived k event_type payload closed_at s =
     (if im_fail_writes s
      then (Inl (PersistenceUnavailable ''order close persistence is unavailable''), s)
      else case map_of (im_orders s) k of
        None \<Rightarrow> (Inr False, s)
      | Some ord \<Rightarrow>
          if \<not> unresolved (ord_status ord) then (Inr False, s)
          else (Inr True, s\<lparr>im_orders := AList.update k
                  (ord\<lparr>ord_status := CANCELED, ord_updated_at := closed_at\<rparr>) (im_orders s),
                im_closures := im_closures s @ [(event_type, payload)]\<rparr>))"

definition memory_ops :: "datetime \<Rightarrow> memory_store order_store_ops" where
  "memory_ops now = \<lparr>os_reserve_with_created = im_reserve_with_created now, os_update = im_update,
     os_add_fills = im_add_fills, os_get = im_get, os_pending = im_pending,
     os_close_unreceived = im_close_unreceived\<rparr>"

section \<open>The store in the database\<close>

record order_record =
  or_order_id :: uuid
  or_signal_id :: uuid
  or_client_order_id :: uuid
  or_strategy_version :: string
  or_risk_approval_id :: uuid
  or_symbol :: "string option"
  or_side :: "order_side option"
  or_order_type :: "order_type option"
  or_quantity :: "rat option"
  or_limit_price :: "rat option"
  or_correlation_id :: "uuid option"
  or_status :: order_status
  or_created_at :: datetime

record fill_record =
  fr_order_id :: uuid
  fr_broker_fill_id :: string
  fr_quantity :: rat
  fr_price :: rat
  fr_fee :: rat
  fr_occurred_at :: datetime

record system_event =
  se_event_type :: string
  se_correlation_id :: uuid
  se_payload :: payload
  se_created_at :: datetime

record order_db =
  db_orders :: "order_record list"
  db_fills :: "fill_record list"
  db_events :: "system_event list"
  db_failures :: "bool list"

text \<open>One call on the database: it fails with the call's message, or runs its body.\<close>

definition db_call :: "string \<Rightarrow> (exn, order_db, 'a) act \<Rightarrow> (exn, order_db, 'a) act" where
  "db_call message body s =
     (let s' = s\<lparr>db_failures := tl (db_failures s)\<rparr> in
      if db_failures s \<noteq> [] \<and> hd (db_failures s) then (Inl (PersistenceUnavailable message), s')
      else body s')"

text \<open>
  \<^verbatim>\<open>_to_order\<close>. A row without a symbol, side, order type, quantity or correlation is refused; an empty
  text and a zero quantity count as missing, as they are false in Python.
\<close>

definition to_order :: "datetime \<Rightarrow> order_record \<Rightarrow> exn + trade_order" where
  "to_order now rec =
     (case (or_symbol rec, or_side rec, or_order_type rec, or_quantity rec, or_correlation_id rec) of
        (Some symb, Some side, Some ot, Some q, Some cid) \<Rightarrow>
          if symb = [] \<or> q = 0
          then Inl (PersistenceUnavailable ''persisted order is missing recovery fields'')
          else rbind (mk_request \<lparr>req_signal_id = or_signal_id rec,
                 req_strategy_version = or_strategy_version rec, req_symbol = symb, req_side = side,
                 req_order_type = ot, req_quantity = q, req_limit_price = or_limit_price rec,
                 req_client_order_id = or_client_order_id rec, req_correlation_id = cid\<rparr>)
              (\<lambda>r. Inr \<lparr>ord_order_id = or_order_id rec, ord_request = r, ord_status = or_status rec,
                 ord_filled_quantity = 0, ord_average_fill_price = None,
                 ord_created_at = or_created_at rec, ord_updated_at = now\<rparr>)
      | _ \<Rightarrow> Inl (PersistenceUnavailable ''persisted order is missing recovery fields''))"

definition row_of :: "string \<Rightarrow> order_db \<Rightarrow> order_record option" where
  "row_of k s = List.find (\<lambda>rec. or_client_order_id rec = k) (db_orders s)"

definition new_row :: "(rat \<Rightarrow> rat) \<Rightarrow> datetime \<Rightarrow> order_request \<Rightarrow> risk_approval \<Rightarrow> order_record" where
  "new_row numeric now r apr =
     \<lparr>or_order_id = req_client_order_id r, or_signal_id = req_signal_id r,
      or_client_order_id = req_client_order_id r, or_strategy_version = req_strategy_version r,
      or_risk_approval_id = apr_approval_id apr, or_symbol = Some (req_symbol r),
      or_side = Some (req_side r), or_order_type = Some (req_order_type r),
      or_quantity = Some (numeric (req_quantity r)),
      or_limit_price = map_option numeric (req_limit_price r),
      or_correlation_id = Some (req_correlation_id r), or_status = PENDING_SUBMIT, or_created_at = now\<rparr>"

definition sql_reserve_with_created ::
  "(rat \<Rightarrow> rat) \<Rightarrow> datetime \<Rightarrow> order_request \<Rightarrow> risk_approval \<Rightarrow> (exn, order_db, trade_order \<times> bool) act"
where
  "sql_reserve_with_created numeric now r apr =
     db_call ''database unavailable before order submission'' (\<lambda>s.
       case row_of (req_client_order_id r) s of
         Some rec \<Rightarrow> (rbind (to_order now rec) (\<lambda>ord. Inr (ord, False)), s)
       | None \<Rightarrow>
           let rec = new_row numeric now r apr in
           (rbind (to_order now rec) (\<lambda>ord. Inr (ord, True)), s\<lparr>db_orders := db_orders s @ [rec]\<rparr>))"

definition set_row_status :: "string \<Rightarrow> order_status \<Rightarrow> order_record list \<Rightarrow> order_record list" where
  "set_row_status k st rows =
     map (\<lambda>rec. if or_client_order_id rec = k then rec\<lparr>or_status := st\<rparr> else rec) rows"

definition sql_update :: "trade_order \<Rightarrow> (exn, order_db, unit) act" where
  "sql_update ord =
     db_call ''database unavailable while updating order'' (\<lambda>s.
       let k = req_client_order_id (ord_request ord) in
       case row_of k s of
         None \<Rightarrow> (Inl (PersistenceUnavailable ''database unavailable while updating order''), s)
       | Some _ \<Rightarrow> (Inr (), s\<lparr>db_orders := set_row_status k (ord_status ord) (db_orders s)\<rparr>))"

definition add_fill_row :: "(rat \<Rightarrow> rat) \<Rightarrow> fill_record list \<Rightarrow> fill \<Rightarrow> fill_record list" where
  "add_fill_row numeric rows f =
     (if list_ex (\<lambda>rec. fr_broker_fill_id rec = fill_fill_id f) rows then rows
      else rows @ [\<lparr>fr_order_id = fill_order_id f, fr_broker_fill_id = fill_fill_id f,
        fr_quantity = numeric (fill_quantity f), fr_price = numeric (fill_price f),
        fr_fee = numeric (fill_fee f), fr_occurred_at = fill_occurred_at f\<rparr>])"

definition sql_add_fills :: "(rat \<Rightarrow> rat) \<Rightarrow> fill list \<Rightarrow> (exn, order_db, unit) act" where
  "sql_add_fills numeric fills =
     db_call ''database unavailable while recording fills'' (\<lambda>s.
       (Inr (), s\<lparr>db_fills := foldl (add_fill_row numeric) (db_fills s) fills\<rparr>))"

text \<open>
  \<^verbatim>\<open>get\<close>: \<open>is_uuid\<close> is the standard library's \<^verbatim>\<open>UUID(text)\<close> accepting the text; its \<^verbatim>\<open>ValueError\<close> is
  caught and reported as an unavailable store.
\<close>

definition sql_get :: "(string \<Rightarrow> bool) \<Rightarrow> datetime \<Rightarrow> string \<Rightarrow> (exn, order_db, trade_order option) act" where
  "sql_get is_uuid now k =
     db_call ''database unavailable while reading order'' (\<lambda>s.
       if \<not> is_uuid k then (Inl (PersistenceUnavailable ''database unavailable while reading order''), s)
       else case row_of k s of
         None \<Rightarrow> (Inr None, s)
       | Some rec \<Rightarrow> (case to_order now rec of
             Inl e \<Rightarrow> (Inl (if is_value_error e
                then PersistenceUnavailable ''database unavailable while reading order'' else e), s)
           | Inr ord \<Rightarrow> (Inr (Some ord), s)))"

fun to_orders :: "datetime \<Rightarrow> order_record list \<Rightarrow> exn + trade_order list" where
  "to_orders now [] = Inr []"
| "to_orders now (rec # rest) = rbind (to_order now rec) (\<lambda>ord. rbind (to_orders now rest) (\<lambda>ords. Inr (ord # ords)))"

definition sql_pending :: "datetime \<Rightarrow> (exn, order_db, trade_order list) act" where
  "sql_pending now =
     db_call ''database unavailable while reading pending orders'' (\<lambda>s.
       (to_orders now (filter (\<lambda>rec. unresolved (or_status rec)) (db_orders s)), s))"

definition sql_close_unreceived ::
  "(string \<Rightarrow> bool) \<Rightarrow> string \<Rightarrow> string \<Rightarrow> payload \<Rightarrow> datetime \<Rightarrow> (exn, order_db, bool) act"
where
  "sql_close_unreceived is_uuid k event_type payload closed_at =
     db_call ''database unavailable while closing order'' (\<lambda>s.
       if \<not> is_uuid k then (Inl (PersistenceUnavailable ''database unavailable while closing order''), s)
       else case row_of k s of
         None \<Rightarrow> (Inr False, s)
       | Some rec \<Rightarrow>
           if \<not> unresolved (or_status rec) then (Inr False, s)
           else (Inr True, s\<lparr>db_orders := set_row_status k CANCELED (db_orders s),
                  db_events := db_events s @ [\<lparr>se_event_type = event_type,
                    se_correlation_id = case_option (or_client_order_id rec) id (or_correlation_id rec),
                    se_payload = AList.update ''risk_approval_id'' (or_risk_approval_id rec) payload,
                    se_created_at = closed_at\<rparr>]\<rparr>))"

text \<open>The reads of restart recovery: open orders with the sum of their fills, and the fills.\<close>

definition filled_of :: "order_db \<Rightarrow> uuid \<Rightarrow> rat" where
  "filled_of s oid = sum_list (map fr_quantity (filter (\<lambda>rec. fr_order_id rec = oid) (db_fills s)))"

definition sql_open_orders :: "datetime \<Rightarrow> (exn, order_db, trade_order list) act" where
  "sql_open_orders now =
     db_call ''database unavailable while reading open orders'' (\<lambda>s.
       (rbind (to_orders now (filter (\<lambda>rec. \<not> terminal (or_status rec)) (db_orders s)))
          (\<lambda>ords. Inr (map (\<lambda>ord. ord\<lparr>ord_filled_quantity := filled_of s (ord_order_id ord)\<rparr>) ords)), s))"

definition last_part :: "string \<Rightarrow> string" where
  "last_part s = rev (takeWhile (\<lambda>c. c \<noteq> CHR ''-'') (rev s))"

definition to_fill :: "fill_record \<Rightarrow> order_request \<Rightarrow> exn + fill" where
  "to_fill rec r = mk_fill
     \<lparr>fill_fill_id = fr_broker_fill_id rec, fill_order_id = fr_order_id rec, fill_symbol = req_symbol r,
      fill_side = req_side r, fill_quantity = fr_quantity rec, fill_price = fr_price rec,
      fill_fee = fr_fee rec, fill_fee_asset = last_part (req_symbol r),
      fill_occurred_at = fr_occurred_at rec\<rparr>"

fun to_fills :: "(fill_record \<times> order_request) list \<Rightarrow> exn + fill list" where
  "to_fills [] = Inr []"
| "to_fills ((rec, r) # rest) = rbind (to_fill rec r) (\<lambda>f. rbind (to_fills rest) (\<lambda>fs. Inr (f # fs)))"

definition sql_fills_for :: "trade_order list \<Rightarrow> (exn, order_db, fill list) act" where
  "sql_fills_for ords s =
     (let by_id = dict_of (map (\<lambda>ord. (ord_order_id ord, ord)) ords) in
      if by_id = [] then (Inr [], s)
      else abind (db_call ''database unavailable while reading fills''
               (\<lambda>s. (Inr (filter (\<lambda>rec. map_of by_id (fr_order_id rec) \<noteq> None) (db_fills s)), s)))
             (\<lambda>recs s. (to_fills (map (\<lambda>rec. (rec, ord_request (the (map_of by_id (fr_order_id rec))))) recs), s)) s)"

fun rows_to_fills :: "datetime \<Rightarrow> (fill_record \<times> order_record) list \<Rightarrow> exn + fill list" where
  "rows_to_fills now [] = Inr []"
| "rows_to_fills now ((f, rec) # rest) =
     rbind (to_order now rec) (\<lambda>ord. rbind (to_fill f (ord_request ord))
       (\<lambda>x. rbind (rows_to_fills now rest) (\<lambda>xs. Inr (x # xs))))"

definition sql_fills_after :: "datetime \<Rightarrow> datetime \<Rightarrow> (exn, order_db, fill list) act" where
  "sql_fills_after now since =
     db_call ''database unavailable while reading fills'' (\<lambda>s.
       (rows_to_fills now
          [(f, rec). f \<leftarrow> sort_key (\<lambda>f. (fr_occurred_at f, fr_broker_fill_id f))
                            (filter (\<lambda>f. since < fr_occurred_at f) (db_fills s)),
                     rec \<leftarrow> filter (\<lambda>rec. or_order_id rec = fr_order_id f) (db_orders s)], s))"

definition sql_ops :: "(rat \<Rightarrow> rat) \<Rightarrow> (string \<Rightarrow> bool) \<Rightarrow> datetime \<Rightarrow> order_db order_store_ops" where
  "sql_ops numeric is_uuid now = \<lparr>os_reserve_with_created = sql_reserve_with_created numeric now,
     os_update = sql_update, os_add_fills = sql_add_fills numeric, os_get = sql_get is_uuid now,
     os_pending = sql_pending now, os_close_unreceived = sql_close_unreceived is_uuid\<rparr>"

section \<open>The contract\<close>

text \<open>
  A client sees, of a store, the status of every saved order (\<open>status_of\<close>) and the identifiers of the
  saved fills (\<open>fill_ids\<close>). A call that raises changes neither, except that a reservation may have
  saved the new order as pending before it raised.
\<close>

locale order_store =
  fixes st :: "'s order_store_ops"
    and status_of :: "'s \<Rightarrow> string \<Rightarrow> order_status option"
    and fill_ids :: "'s \<Rightarrow> string set"
    and sinv :: "'s \<Rightarrow> bool"
  assumes inv_reserve: "sinv s \<Longrightarrow> sinv (snd (os_reserve_with_created st r apr s))"
    and inv_update: "sinv s \<Longrightarrow> sinv (snd (os_update st ord s))"
    and inv_add_fills: "sinv s \<Longrightarrow> sinv (snd (os_add_fills st fs s))"
    and inv_get: "sinv s \<Longrightarrow> sinv (snd (os_get st k s))"
    and inv_pending: "sinv s \<Longrightarrow> sinv (snd (os_pending st s))"
    and inv_close: "sinv s \<Longrightarrow> sinv (snd (os_close_unreceived st k ev pl t s))"
    and reserve_Inr: "sinv s \<Longrightarrow> os_reserve_with_created st r apr s = (Inr (ord, created), s') \<Longrightarrow>
      req_client_order_id (ord_request ord) = req_client_order_id r \<and>
      (if created then status_of s (req_client_order_id r) = None \<and> ord_status ord = PENDING_SUBMIT \<and>
          status_of s' = (status_of s)(req_client_order_id r \<mapsto> PENDING_SUBMIT)
       else status_of s (req_client_order_id r) = Some (ord_status ord) \<and> status_of s' = status_of s)"
    and reserve_Inl: "sinv s \<Longrightarrow> os_reserve_with_created st r apr s = (Inl e, s') \<Longrightarrow>
      status_of s' = status_of s \<or>
      status_of s (req_client_order_id r) = None \<and> status_of s' = (status_of s)(req_client_order_id r \<mapsto> PENDING_SUBMIT)"
    and reserve_fills: "sinv s \<Longrightarrow> fill_ids (snd (os_reserve_with_created st r apr s)) = fill_ids s"
    and update_status: "sinv s \<Longrightarrow> os_update st ord s = (ures, s') \<Longrightarrow>
      status_of s' = (case ures of Inl _ \<Rightarrow> status_of s
        | Inr _ \<Rightarrow> (status_of s)(req_client_order_id (ord_request ord) \<mapsto> ord_status ord))"
    and update_fills: "sinv s \<Longrightarrow> fill_ids (snd (os_update st ord s)) = fill_ids s"
    and add_fills_ids: "sinv s \<Longrightarrow> os_add_fills st fs s = (ares, s') \<Longrightarrow>
      fill_ids s' = (case ares of Inl _ \<Rightarrow> fill_ids s | Inr _ \<Rightarrow> fill_ids s \<union> fill_fill_id ` set fs)"
    and add_fills_status: "sinv s \<Longrightarrow> status_of (snd (os_add_fills st fs s)) = status_of s"
    and get_reads: "sinv s \<Longrightarrow> os_get st k s = (gres, s') \<Longrightarrow>
      status_of s' = status_of s \<and> fill_ids s' = fill_ids s \<and>
      (\<forall>found. gres = Inr found \<longrightarrow> map_option ord_status found = status_of s k)"
    and pending_reads: "sinv s \<Longrightarrow> os_pending st s = (pres, s') \<Longrightarrow>
      status_of s' = status_of s \<and> fill_ids s' = fill_ids s \<and>
      (\<forall>ords. pres = Inr ords \<longrightarrow> (\<lambda>ord. req_client_order_id (ord_request ord)) ` set ords =
         {k. \<exists>x. status_of s k = Some x \<and> unresolved x})"
    and close_status: "sinv s \<Longrightarrow> os_close_unreceived st k ev pl t s = (cres, s') \<Longrightarrow>
      (if cres = Inr True
       then (\<exists>x. status_of s k = Some x \<and> unresolved x) \<and> status_of s' = (status_of s)(k \<mapsto> CANCELED)
       else status_of s' = status_of s)"
    and close_fills: "sinv s \<Longrightarrow> fill_ids (snd (os_close_unreceived st k ev pl t s)) = fill_ids s"

section \<open>The store in memory keeps the contract\<close>

definition im_status_of :: "memory_store \<Rightarrow> string \<Rightarrow> order_status option" where
  "im_status_of s k = map_option ord_status (map_of (im_orders s) k)"

definition im_fill_ids :: "memory_store \<Rightarrow> string set" where
  "im_fill_ids s = fst ` set (im_fills s)"

definition im_ok :: "memory_store \<Rightarrow> bool" where
  "im_ok s \<longleftrightarrow> distinct_keys (im_orders s) \<and>
     (\<forall>kv \<in> set (im_orders s). req_client_order_id (ord_request (snd kv)) = fst kv)"

lemma im_ok_update:
  assumes "im_ok s" "req_client_order_id (ord_request ord) = k" "im_orders t = AList.update k ord (im_orders s)"
  shows "im_ok t"
  using assms set_update_subset[of k ord "im_orders s"] by (auto simp: im_ok_def)

lemma im_ok_get: "im_ok s \<Longrightarrow> map_of (im_orders s) k = Some ord \<Longrightarrow> req_client_order_id (ord_request ord) = k"
  using map_of_SomeD by (force simp: im_ok_def)

lemma keys_foldl_update:
  "fst ` set (foldl (\<lambda>d f. AList.update (key f) f d) d fs) = fst ` set d \<union> key ` set fs"
  by (induction fs arbitrary: d) (auto simp: keys_update)

lemma im_pending_ids:
  assumes "im_ok s"
  shows "(\<lambda>ord. req_client_order_id (ord_request ord)) `
      set (filter (\<lambda>ord. unresolved (ord_status ord)) (map snd (im_orders s))) =
    {k. \<exists>x. im_status_of s k = Some x \<and> unresolved x}" (is "?L = ?R")
proof
  have d: "distinct_keys (im_orders s)" using assms by (simp add: im_ok_def)
  show "?L \<subseteq> ?R"
  proof
    fix k assume "k \<in> ?L"
    then obtain k' ord where "(k', ord) \<in> set (im_orders s)" "unresolved (ord_status ord)"
      "k = req_client_order_id (ord_request ord)" by auto
    then show "k \<in> ?R" using assms d by (force simp: im_ok_def im_status_of_def map_of_eq_Some_iff)
  qed
  show "?R \<subseteq> ?L"
  proof
    fix k assume "k \<in> ?R"
    then obtain ord where o: "map_of (im_orders s) k = Some ord" "unresolved (ord_status ord)"
      by (auto simp: im_status_of_def)
    then show "k \<in> ?L" using im_ok_get[OF assms o(1)] map_of_SomeD[OF o(1)] by force
  qed
qed

interpretation memory: order_store "memory_ops now" im_status_of im_fill_ids im_ok for now
proof (unfold_locales, unfold memory_ops_def order_store_ops.select_convs)
  fix s r apr assume ok: "im_ok s"
  show "im_ok (snd (im_reserve_with_created now r apr s))"
    using ok im_ok_update[OF ok, of "new_order (req_client_order_id r) r PENDING_SUBMIT now" "req_client_order_id r"]
    by (simp add: im_reserve_with_created_def Let_def new_order_def split: option.splits)
  show "im_fill_ids (snd (im_reserve_with_created now r apr s)) = im_fill_ids s"
    by (simp add: im_reserve_with_created_def Let_def im_fill_ids_def split: option.splits)
next
  fix s ord assume ok: "im_ok s"
  show "im_ok (snd (im_update ord s))"
    using ok im_ok_update[OF ok refl] by (simp add: im_update_def)
  show "im_fill_ids (snd (im_update ord s)) = im_fill_ids s" by (simp add: im_update_def im_fill_ids_def)
next
  fix s fs assume "im_ok s"
  then show "im_ok (snd (im_add_fills fs s))" by (simp add: im_add_fills_def im_ok_def)
  show "im_status_of (snd (im_add_fills fs s)) = im_status_of s"
    by (auto simp: im_add_fills_def im_status_of_def)
next
  fix s k ev pl t assume ok: "im_ok s"
  show "im_ok (snd (im_close_unreceived k ev pl t s))"
  proof -
    have "im_ok (s\<lparr>im_orders := AList.update k (ord\<lparr>ord_status := CANCELED, ord_updated_at := t\<rparr>) (im_orders s),
        im_closures := im_closures s @ [(ev, pl)]\<rparr>)" if "map_of (im_orders s) k = Some ord" for ord
      using im_ok_get[OF ok that] by (intro im_ok_update[OF ok]) simp_all
    then show ?thesis using ok by (simp add: im_close_unreceived_def split: option.splits)
  qed
  show "im_fill_ids (snd (im_close_unreceived k ev pl t s)) = im_fill_ids s"
    by (simp add: im_close_unreceived_def im_fill_ids_def split: option.splits)
next
  fix s r apr ord created s'
  assume "im_ok s" "im_reserve_with_created now r apr s = (Inr (ord, created), s')"
  then show "req_client_order_id (ord_request ord) = req_client_order_id r \<and>
      (if created then im_status_of s (req_client_order_id r) = None \<and> ord_status ord = PENDING_SUBMIT \<and>
          im_status_of s' = (im_status_of s)(req_client_order_id r \<mapsto> PENDING_SUBMIT)
       else im_status_of s (req_client_order_id r) = Some (ord_status ord) \<and> im_status_of s' = im_status_of s)"
    by (auto simp: im_reserve_with_created_def Let_def im_status_of_def new_order_def fun_eq_iff
        split: if_splits option.splits)
next
  fix s r apr e s'
  assume "im_reserve_with_created now r apr s = (Inl e, s')"
  then show "im_status_of s' = im_status_of s \<or>
      im_status_of s (req_client_order_id r) = None \<and>
      im_status_of s' = (im_status_of s)(req_client_order_id r \<mapsto> PENDING_SUBMIT)"
    by (auto simp: im_reserve_with_created_def Let_def split: if_splits option.splits)
next
  fix s ord res s'
  assume "im_update ord s = (res, s')"
  then show "im_status_of s' = (case res of Inl _ \<Rightarrow> im_status_of s
        | Inr _ \<Rightarrow> (im_status_of s)(req_client_order_id (ord_request ord) \<mapsto> ord_status ord))"
    by (auto simp: im_update_def im_status_of_def fun_eq_iff split: if_splits)
next
  fix s fs res s'
  assume "im_add_fills fs s = (res, s')"
  then show "im_fill_ids s' = (case res of Inl _ \<Rightarrow> im_fill_ids s | Inr _ \<Rightarrow> im_fill_ids s \<union> fill_fill_id ` set fs)"
    by (cases "im_fail_writes s") (clarsimp simp: im_add_fills_def im_fill_ids_def keys_foldl_update)+
next
  fix s k ev pl t res s'
  assume "im_close_unreceived k ev pl t s = (res, s')"
  then show "if res = Inr True
       then (\<exists>x. im_status_of s k = Some x \<and> unresolved x) \<and> im_status_of s' = (im_status_of s)(k \<mapsto> CANCELED)
       else im_status_of s' = im_status_of s"
    by (auto simp: im_close_unreceived_def im_status_of_def fun_eq_iff split: if_splits option.splits)
next
  fix s k res s'
  assume "im_get k s = (res, s')"
  then show "im_status_of s' = im_status_of s \<and> im_fill_ids s' = im_fill_ids s \<and>
      (\<forall>found. res = Inr found \<longrightarrow> map_option ord_status found = im_status_of s k)"
    by (auto simp: im_get_def im_status_of_def)
next
  fix s res s'
  assume ok: "im_ok s" and "im_pending s = (res, s')"
  then have "s' = s \<and> res = Inr (filter (\<lambda>ord. unresolved (ord_status ord)) (map snd (im_orders s)))"
    by (auto simp: im_pending_def)
  then show "im_status_of s' = im_status_of s \<and> im_fill_ids s' = im_fill_ids s \<and>
      (\<forall>ords. res = Inr ords \<longrightarrow> (\<lambda>ord. req_client_order_id (ord_request ord)) ` set ords =
         {k. \<exists>x. im_status_of s k = Some x \<and> unresolved x})"
    using im_pending_ids[OF ok] by (simp del: set_filter)
qed (simp_all add: im_get_def im_pending_def)

section \<open>The store in the database keeps the contract\<close>

definition sql_status_of :: "order_db \<Rightarrow> string \<Rightarrow> order_status option" where
  "sql_status_of s k = map_option or_status (row_of k s)"

definition sql_fill_ids :: "order_db \<Rightarrow> string set" where
  "sql_fill_ids s = fr_broker_fill_id ` set (db_fills s)"

text \<open>The two unique constraints.\<close>

definition sql_ok :: "order_db \<Rightarrow> bool" where
  "sql_ok s \<longleftrightarrow> distinct (map or_client_order_id (db_orders s)) \<and> distinct (map fr_broker_fill_id (db_fills s))"

lemma find_map_status:
  "List.find (\<lambda>rec. or_client_order_id rec = k) (set_row_status k' st rows) =
     map_option (\<lambda>rec. if k = k' then rec\<lparr>or_status := st\<rparr> else rec)
       (List.find (\<lambda>rec. or_client_order_id rec = k) rows)"
  by (induction rows) (auto simp: set_row_status_def)

lemma row_of_client: "row_of k s = Some rec \<Longrightarrow> or_client_order_id rec = k \<and> rec \<in> set (db_orders s)"
  unfolding row_of_def by (drule find_Some_iff2) simp

lemma row_of_None: "row_of k s = None \<longleftrightarrow> k \<notin> or_client_order_id ` set (db_orders s)"
  by (auto simp: row_of_def find_None_iff)

lemma to_order_Inr:
  "to_order now rec = Inr ord \<Longrightarrow>
     ord_status ord = or_status rec \<and> req_client_order_id (ord_request ord) = or_client_order_id rec"
  by (auto simp: to_order_def mk_request_def split: option.splits if_splits)

lemma to_orders_Inr:
  "to_orders now recs = Inr ords \<Longrightarrow>
     map (\<lambda>ord. req_client_order_id (ord_request ord)) ords = map or_client_order_id recs"
  by (induction recs arbitrary: ords) (auto dest: to_order_Inr)

lemma sql_row_status:
  assumes "sql_ok s" "rec \<in> set (db_orders s)"
  shows "sql_status_of s (or_client_order_id rec) = Some (or_status rec)"
proof -
  have "row_of (or_client_order_id rec) s \<noteq> None" using assms(2) by (auto simp: row_of_None)
  then obtain rec' where "row_of (or_client_order_id rec) s = Some rec'" by blast
  moreover from row_of_client[OF this] have "rec' = rec"
    using assms by (auto simp: sql_ok_def distinct_map dest: inj_onD)
  ultimately show ?thesis by (simp add: sql_status_of_def)
qed

lemma sql_pending_ids:
  assumes "sql_ok s" "to_orders now (filter (\<lambda>rec. unresolved (or_status rec)) (db_orders s)) = Inr ords"
  shows "(\<lambda>ord. req_client_order_id (ord_request ord)) ` set ords =
    {k. \<exists>x. sql_status_of s k = Some x \<and> unresolved x}"
proof -
  have "(\<lambda>ord. req_client_order_id (ord_request ord)) ` set ords =
      or_client_order_id ` set (filter (\<lambda>rec. unresolved (or_status rec)) (db_orders s))"
    using to_orders_Inr[OF assms(2)] by (metis list.set_map)
  also have "\<dots> = {k. \<exists>x. sql_status_of s k = Some x \<and> unresolved x}"
    using sql_row_status[OF assms(1)] row_of_client by (force simp: sql_status_of_def)
  finally show ?thesis .
qed

lemma add_fill_row_ids:
  "fr_broker_fill_id ` set (add_fill_row num rows f) = insert (fill_fill_id f) (fr_broker_fill_id ` set rows)"
  "distinct (map fr_broker_fill_id rows) \<Longrightarrow> distinct (map fr_broker_fill_id (add_fill_row num rows f))"
  by (force simp: add_fill_row_def list_ex_iff)+

lemma foldl_add_fill_row:
  "fr_broker_fill_id ` set (foldl (add_fill_row num) rows fs) = fr_broker_fill_id ` set rows \<union> fill_fill_id ` set fs"
  "distinct (map fr_broker_fill_id rows) \<Longrightarrow> distinct (map fr_broker_fill_id (foldl (add_fill_row num) rows fs))"
  by (induction fs arbitrary: rows) (auto simp: add_fill_row_ids simp del: map_map)

text \<open>What a database call keeps, its body keeps.\<close>

lemma db_call_keeps:
  assumes "P (s\<lparr>db_failures := tl (db_failures s)\<rparr>)"
    "P (snd (body (s\<lparr>db_failures := tl (db_failures s)\<rparr>)))"
  shows "P (snd (db_call message body s))"
  using assms by (simp add: db_call_def Let_def)

lemma db_call_cases:
  assumes "db_call message body s = (res, s')"
  obtains "res = Inl (PersistenceUnavailable message)" "s' = s\<lparr>db_failures := tl (db_failures s)\<rparr>"
  | "body (s\<lparr>db_failures := tl (db_failures s)\<rparr>) = (res, s')"
proof (cases "db_failures s \<noteq> [] \<and> hd (db_failures s)")
  case True
  with assms show ?thesis by (intro that(1)) (simp_all add: db_call_def Let_def)
next
  case False
  with assms show ?thesis by (intro that(2)) (simp add: db_call_def Let_def)
qed

lemma sql_frame [simp]:
  "row_of k (s\<lparr>db_failures := x\<rparr>) = row_of k s" "sql_ok (s\<lparr>db_failures := x\<rparr>) = sql_ok s"
  "sql_status_of (s\<lparr>db_failures := x\<rparr>) = sql_status_of s" "sql_fill_ids (s\<lparr>db_failures := x\<rparr>) = sql_fill_ids s"
  by (auto simp: row_of_def sql_ok_def sql_status_of_def sql_fill_ids_def)

lemma sql_set_status:
  "sql_status_of (s\<lparr>db_orders := set_row_status k x (db_orders s)\<rparr>) =
     (if row_of k s = None then sql_status_of s else (sql_status_of s)(k \<mapsto> x))"
proof
  fix k'
  have "row_of k' (s\<lparr>db_orders := set_row_status k x (db_orders s)\<rparr>) =
      map_option (\<lambda>rec. if k' = k then rec\<lparr>or_status := x\<rparr> else rec) (row_of k' s)"
    by (simp add: row_of_def find_map_status)
  then show "sql_status_of (s\<lparr>db_orders := set_row_status k x (db_orders s)\<rparr>) k' =
      (if row_of k s = None then sql_status_of s else (sql_status_of s)(k \<mapsto> x)) k'"
    by (cases "row_of k' s") (auto simp: sql_status_of_def)
qed

lemma sql_ok_set_status: "sql_ok (s\<lparr>db_orders := set_row_status k x (db_orders s)\<rparr>) = sql_ok s"
proof -
  have "map or_client_order_id (set_row_status k x rows) = map or_client_order_id rows" for rows
    by (simp add: set_row_status_def)
  then show ?thesis by (simp add: sql_ok_def)
qed

lemma sql_insert:
  assumes "row_of (or_client_order_id rec) s = None"
  shows "sql_status_of (s\<lparr>db_orders := db_orders s @ [rec]\<rparr>) =
      (sql_status_of s)(or_client_order_id rec \<mapsto> or_status rec)"
    "sql_ok s \<Longrightarrow> sql_ok (s\<lparr>db_orders := db_orders s @ [rec]\<rparr>)"
proof -
  show "sql_status_of (s\<lparr>db_orders := db_orders s @ [rec]\<rparr>) =
      (sql_status_of s)(or_client_order_id rec \<mapsto> or_status rec)"
    using assms by (auto simp: sql_status_of_def row_of_def find_append fun_eq_iff split: option.splits)
  show "sql_ok s \<Longrightarrow> sql_ok (s\<lparr>db_orders := db_orders s @ [rec]\<rparr>)"
    using assms by (simp add: row_of_None sql_ok_def)
qed

lemma sql_reserve_keeps:
  assumes ok: "sql_ok s" and res: "sql_reserve_with_created num now r apr s = (res, s')"
  shows "sql_ok s' \<and> sql_fill_ids s' = sql_fill_ids s \<and>
    (sql_status_of s' = sql_status_of s \<and>
       (\<forall>ord created. res = Inr (ord, created) \<longrightarrow> \<not> created \<and>
          req_client_order_id (ord_request ord) = req_client_order_id r \<and>
          sql_status_of s (req_client_order_id r) = Some (ord_status ord))
     \<or> sql_status_of s (req_client_order_id r) = None \<and>
       sql_status_of s' = (sql_status_of s)(req_client_order_id r \<mapsto> PENDING_SUBMIT) \<and>
       (\<forall>ord created. res = Inr (ord, created) \<longrightarrow> created \<and>
          req_client_order_id (ord_request ord) = req_client_order_id r \<and> ord_status ord = PENDING_SUBMIT))"
  using res unfolding sql_reserve_with_created_def
proof (cases rule: db_call_cases)
  case 1
  then show ?thesis using ok by simp
next
  case 2
  define t where "t = s\<lparr>db_failures := tl (db_failures s)\<rparr>"
  have t: "sql_ok t" "sql_status_of t = sql_status_of s" "sql_fill_ids t = sql_fill_ids s"
    "row_of k t = row_of k s" for k using ok by (simp_all add: t_def)
  let ?row = "new_row num now r apr"
  have new: "or_client_order_id ?row = req_client_order_id r" "or_status ?row = PENDING_SUBMIT"
    by (simp_all add: new_row_def)
  show ?thesis
  proof (cases "row_of (req_client_order_id r) t")
    case None
    have "sql_fill_ids (t\<lparr>db_orders := x\<rparr>) = sql_fill_ids t" for x by (simp add: sql_fill_ids_def)
    moreover have "res = rbind (to_order now ?row) (\<lambda>ord. Inr (ord, True))" "s' = t\<lparr>db_orders := db_orders t @ [?row]\<rparr>"
      using 2 None by (auto simp: t_def[symmetric] Let_def)
    ultimately show ?thesis
      using sql_insert[of ?row t] None t new to_order_Inr[of now ?row] by (auto simp: sql_status_of_def)
  next
    case (Some rec)
    then have "res = rbind (to_order now rec) (\<lambda>ord. Inr (ord, False))" "s' = t"
      using 2 by (auto simp: t_def[symmetric])
    then show ?thesis
      using Some t row_of_client[OF Some] to_order_Inr[of now rec] by (auto simp: sql_status_of_def)
  qed
qed

lemma sql_update_keeps:
  assumes ok: "sql_ok s" and res: "sql_update ord s = (res, s')"
  shows "sql_ok s' \<and> sql_fill_ids s' = sql_fill_ids s \<and>
    sql_status_of s' = (case res of Inl _ \<Rightarrow> sql_status_of s
        | Inr _ \<Rightarrow> (sql_status_of s)(req_client_order_id (ord_request ord) \<mapsto> ord_status ord))"
  using res unfolding sql_update_def
proof (cases rule: db_call_cases)
  case 1
  then show ?thesis using ok by simp
next
  case 2
  define t where "t = s\<lparr>db_failures := tl (db_failures s)\<rparr>"
  have t: "sql_ok t" "sql_status_of t = sql_status_of s" "sql_fill_ids t = sql_fill_ids s" using ok by (simp_all add: t_def)
  have f: "sql_fill_ids (t\<lparr>db_orders := x\<rparr>) = sql_fill_ids t" for x by (simp add: sql_fill_ids_def)
  show ?thesis
  proof (cases "row_of (req_client_order_id (ord_request ord)) t")
    case None
    with 2 have "s' = t \<and> (\<exists>e. res = Inl e)" by (auto simp: t_def[symmetric] Let_def)
    then show ?thesis using t by auto
  next
    case (Some rec)
    let ?k = "req_client_order_id (ord_request ord)"
    from 2 Some have "s' = t\<lparr>db_orders := set_row_status ?k (ord_status ord) (db_orders t)\<rparr>" "res = Inr ()"
      by (simp_all add: t_def[symmetric] Let_def)
    then show ?thesis using t Some by (simp add: sql_ok_set_status sql_set_status f)
  qed
qed

lemma sql_add_fills_keeps:
  assumes ok: "sql_ok s" and res: "sql_add_fills num fs s = (res, s')"
  shows "sql_ok s' \<and> sql_status_of s' = sql_status_of s \<and>
    sql_fill_ids s' = (case res of Inl _ \<Rightarrow> sql_fill_ids s | Inr _ \<Rightarrow> sql_fill_ids s \<union> fill_fill_id ` set fs)"
  using res unfolding sql_add_fills_def
proof (cases rule: db_call_cases)
  case 1
  then show ?thesis using ok by simp
next
  case 2
  then have r: "res = Inr ()" "s' = s\<lparr>db_failures := tl (db_failures s), db_fills := foldl (add_fill_row num) (db_fills s) fs\<rparr>"
    by auto
  have "sql_status_of s' = sql_status_of s" by (simp add: r sql_status_of_def row_of_def fun_eq_iff)
  then show ?thesis using ok by (simp add: r sql_ok_def sql_fill_ids_def foldl_add_fill_row)
qed

lemma sql_get_keeps:
  assumes "sql_get is_uuid now k s = (res, s')"
  shows "s' = s\<lparr>db_failures := tl (db_failures s)\<rparr> \<and>
    (\<forall>found. res = Inr found \<longrightarrow> map_option ord_status found = sql_status_of s k)"
  using assms unfolding sql_get_def
proof (cases rule: db_call_cases)
  case 1
  then show ?thesis by simp
next
  case 2
  then show ?thesis
    by (auto simp: sql_status_of_def split: if_splits option.splits sum.splits dest: to_order_Inr)
qed

lemma sql_pending_keeps:
  assumes ok: "sql_ok s" and res: "sql_pending now s = (res, s')"
  shows "s' = s\<lparr>db_failures := tl (db_failures s)\<rparr> \<and>
    (\<forall>ords. res = Inr ords \<longrightarrow> (\<lambda>ord. req_client_order_id (ord_request ord)) ` set ords =
         {k. \<exists>x. sql_status_of s k = Some x \<and> unresolved x})"
  using res unfolding sql_pending_def
proof (cases rule: db_call_cases)
  case 1
  then show ?thesis by simp
next
  case 2
  then show ?thesis using sql_pending_ids[OF ok, of now] by auto
qed

lemma sql_close_keeps:
  assumes ok: "sql_ok s" and res: "sql_close_unreceived is_uuid k ev pl t s = (res, s')"
  shows "sql_ok s' \<and> sql_fill_ids s' = sql_fill_ids s \<and>
    (if res = Inr True
     then (\<exists>x. sql_status_of s k = Some x \<and> unresolved x) \<and> sql_status_of s' = (sql_status_of s)(k \<mapsto> CANCELED)
     else sql_status_of s' = sql_status_of s)"
  using res unfolding sql_close_unreceived_def
proof (cases rule: db_call_cases)
  case 1
  then show ?thesis using ok by simp
next
  case 2
  define u where "u = s\<lparr>db_failures := tl (db_failures s)\<rparr>"
  have u: "sql_ok u" "sql_status_of u = sql_status_of s" "sql_fill_ids u = sql_fill_ids s" using ok by (simp_all add: u_def)
  have ev: "sql_ok (x\<lparr>db_events := e\<rparr>) = sql_ok x" "sql_status_of (x\<lparr>db_events := e\<rparr>) = sql_status_of x"
    "sql_fill_ids (x\<lparr>db_events := e\<rparr>) = sql_fill_ids x" "sql_fill_ids (x\<lparr>db_orders := y\<rparr>) = sql_fill_ids x" for x e y
    by (simp_all add: sql_ok_def sql_status_of_def row_of_def sql_fill_ids_def fun_eq_iff)
  have st: "sql_status_of s k = map_option or_status (row_of k u)" using u(2) by (metis sql_status_of_def)
  show ?thesis
  proof (cases "is_uuid k \<and> (\<exists>rec. row_of k u = Some rec \<and> unresolved (or_status rec))")
    case False
    with 2 have "s' = u \<and> res \<noteq> Inr True"
      by (auto simp: u_def[symmetric] split: if_splits option.splits)
    then show ?thesis using u by simp
  next
    case True
    then obtain rec where rec: "is_uuid k" "row_of k u = Some rec" "unresolved (or_status rec)" by blast
    let ?x = "db_events u @ [\<lparr>se_event_type = ev,
        se_correlation_id = case_option (or_client_order_id rec) id (or_correlation_id rec),
        se_payload = AList.update ''risk_approval_id'' (or_risk_approval_id rec) pl, se_created_at = t\<rparr>]"
    from 2 rec have "(Inr True, u\<lparr>db_orders := set_row_status k CANCELED (db_orders u), db_events := ?x\<rparr>) = (res, s')"
      by (simp add: u_def[symmetric])
    then have "res = Inr True" "s' = u\<lparr>db_orders := set_row_status k CANCELED (db_orders u), db_events := ?x\<rparr>"
      by blast+
    then show ?thesis using u st rec by (simp add: sql_ok_set_status sql_set_status ev)
  qed
qed

interpretation sql: order_store "sql_ops num is_uuid now" sql_status_of sql_fill_ids sql_ok for num is_uuid now
proof (unfold_locales, unfold sql_ops_def order_store_ops.select_convs)
  fix s r apr assume ok: "sql_ok s"
  show "sql_ok (snd (sql_reserve_with_created num now r apr s))"
    "sql_fill_ids (snd (sql_reserve_with_created num now r apr s)) = sql_fill_ids s"
    using sql_reserve_keeps[OF ok] by (metis prod.collapse)+
  show "sql_ok (snd (sql_update ord s))" "sql_fill_ids (snd (sql_update ord s)) = sql_fill_ids s" for ord
    using sql_update_keeps[OF ok] by (metis prod.collapse)+
  show "sql_ok (snd (sql_add_fills num fs s))" "sql_status_of (snd (sql_add_fills num fs s)) = sql_status_of s" for fs
    using sql_add_fills_keeps[OF ok] by (metis prod.collapse)+
  show "sql_ok (snd (sql_get is_uuid now k s))" "sql_ok (snd (sql_pending now s))" for k
    using ok sql_get_keeps sql_pending_keeps[OF ok] by (metis prod.collapse sql_frame(2))+
  show "sql_ok (snd (sql_close_unreceived is_uuid k ev pl t s))"
    "sql_fill_ids (snd (sql_close_unreceived is_uuid k ev pl t s)) = sql_fill_ids s" for k ev pl t
    using sql_close_keeps[OF ok] by (metis prod.collapse)+
next
  fix s r apr ord created s'
  assume "sql_ok s" "sql_reserve_with_created num now r apr s = (Inr (ord, created), s')"
  then show "req_client_order_id (ord_request ord) = req_client_order_id r \<and>
      (if created then sql_status_of s (req_client_order_id r) = None \<and> ord_status ord = PENDING_SUBMIT \<and>
          sql_status_of s' = (sql_status_of s)(req_client_order_id r \<mapsto> PENDING_SUBMIT)
       else sql_status_of s (req_client_order_id r) = Some (ord_status ord) \<and> sql_status_of s' = sql_status_of s)"
    using sql_reserve_keeps[of s num now r apr "Inr (ord, created)" s'] by (cases created) auto
next
  fix s r apr e s'
  assume "sql_ok s" "sql_reserve_with_created num now r apr s = (Inl e, s')"
  then show "sql_status_of s' = sql_status_of s \<or>
      sql_status_of s (req_client_order_id r) = None \<and>
      sql_status_of s' = (sql_status_of s)(req_client_order_id r \<mapsto> PENDING_SUBMIT)"
    using sql_reserve_keeps by blast
next
  fix s ord res s'
  assume "sql_ok s" "sql_update ord s = (res, s')"
  then show "sql_status_of s' = (case res of Inl _ \<Rightarrow> sql_status_of s
        | Inr _ \<Rightarrow> (sql_status_of s)(req_client_order_id (ord_request ord) \<mapsto> ord_status ord))"
    using sql_update_keeps by blast
next
  fix s fs res s'
  assume "sql_ok s" "sql_add_fills num fs s = (res, s')"
  then show "sql_fill_ids s' = (case res of Inl _ \<Rightarrow> sql_fill_ids s | Inr _ \<Rightarrow> sql_fill_ids s \<union> fill_fill_id ` set fs)"
    using sql_add_fills_keeps by blast
next
  fix s k res s'
  assume "sql_get is_uuid now k s = (res, s')"
  then show "sql_status_of s' = sql_status_of s \<and> sql_fill_ids s' = sql_fill_ids s \<and>
      (\<forall>found. res = Inr found \<longrightarrow> map_option ord_status found = sql_status_of s k)"
    using sql_get_keeps[of is_uuid now k s res s'] by simp
next
  fix s res s'
  assume "sql_ok s" "sql_pending now s = (res, s')"
  then show "sql_status_of s' = sql_status_of s \<and> sql_fill_ids s' = sql_fill_ids s \<and>
      (\<forall>ords. res = Inr ords \<longrightarrow> (\<lambda>ord. req_client_order_id (ord_request ord)) ` set ords =
         {k. \<exists>x. sql_status_of s k = Some x \<and> unresolved x})"
    using sql_pending_keeps[of s now res s'] by simp
next
  fix s k ev pl t res s'
  assume "sql_ok s" "sql_close_unreceived is_uuid k ev pl t s = (res, s')"
  then show "if res = Inr True
       then (\<exists>x. sql_status_of s k = Some x \<and> unresolved x) \<and> sql_status_of s' = (sql_status_of s)(k \<mapsto> CANCELED)
       else sql_status_of s' = sql_status_of s"
    using sql_close_keeps by blast
qed

end
