(* ===== verification/Execution.thy ===== *)
theory Execution
  imports Broker OrderStore
begin

text \<open>
  Persistence-first execution: \<^verbatim>\<open>ExecutionEngine\<close> of \<^verbatim>\<open>execution/engine.py\<close>, the audit closure record of
  \<^verbatim>\<open>execution/audit.py\<close> and \<^verbatim>\<open>OrderCloser\<close> of \<^verbatim>\<open>execution/closure.py\<close>. The engine runs over any
  broker and any order store (\<open>engine_env\<close> holds their operations and the two observers), and its
  state is theirs plus its own counters. Logging is not modelled, except for the bounded memory of
  fills already logged, which is state.

  The locale \<open>engine_store\<close> proves what follows from the store's contract alone, whatever the broker
  does; \<open>execution\<close> adds the broker's. Both are interpreted on the simulated broker with the database.
\<close>

section \<open>State and environment\<close>

record ('b, 's, 'o) engine =
  en_broker :: 'b
  en_store :: 's
  en_observer :: 'o
  en_consecutive_never_sent :: nat
  en_logged_fills :: "string list"

record ('b, 's, 'o) engine_env =
  ev_broker :: "'b broker_ops"
  ev_store :: "'s order_store_ops"
  ev_on_recorded :: "(trade_order \<Rightarrow> fill list \<Rightarrow> (exn, 'o, unit) act) option"
  ev_on_order_closed :: "(trade_order \<Rightarrow> exn \<Rightarrow> (exn, 'o, unit) act) option"
  ev_now :: datetime
  ev_quantity_text :: "rat \<Rightarrow> string"
  ev_isoformat :: "datetime \<Rightarrow> string"

definition on_broker :: "(exn, 'b, 'a) act \<Rightarrow> (exn, ('b, 's, 'o) engine, 'a) act" where
  "on_broker m e = (case m (en_broker e) of (r, b) \<Rightarrow> (r, e\<lparr>en_broker := b\<rparr>))"

definition on_store :: "(exn, 's, 'a) act \<Rightarrow> (exn, ('b, 's, 'o) engine, 'a) act" where
  "on_store m e = (case m (en_store e) of (r, s) \<Rightarrow> (r, e\<lparr>en_store := s\<rparr>))"

definition on_observer :: "(exn, 'o, 'a) act \<Rightarrow> (exn, ('b, 's, 'o) engine, 'a) act" where
  "on_observer m e = (case m (en_observer e) of (r, x) \<Rightarrow> (r, e\<lparr>en_observer := x\<rparr>))"

section \<open>Closure records\<close>

definition ORDER_CLOSED_EVENT :: string where
  "ORDER_CLOSED_EVENT = ''order_closed_never_received''"

definition NEVER_RECEIVED :: string where
  "NEVER_RECEIVED = ''never received by the venue''"

record closure_record =
  cr_order :: trade_order
  cr_previous_status :: order_status
  cr_actor :: string
  cr_reason :: string
  cr_closed_at :: datetime
  cr_broker_lookup :: string

definition to_payload :: "(rat \<Rightarrow> string) \<Rightarrow> (datetime \<Rightarrow> string) \<Rightarrow> closure_record \<Rightarrow> payload" where
  "to_payload quantity_text isoformat c =
     (let r = ord_request (cr_order c) in
      [(''client_order_id'', req_client_order_id r),
       (''order_id'', ord_order_id (cr_order c)),
       (''signal_id'', req_signal_id r),
       (''strategy_version'', req_strategy_version r),
       (''symbol'', req_symbol r),
       (''side'', side_value (req_side r)),
       (''quantity'', quantity_text (req_quantity r)),
       (''previous_status'', status_value (cr_previous_status c)),
       (''new_status'', status_value CANCELED),
       (''actor'', cr_actor c),
       (''reason'', cr_reason c),
       (''closed_at'', isoformat (cr_closed_at c)),
       (''broker_lookup'', cr_broker_lookup c),
       (''broker_fills'', ''0''),
       (''outcome'', NEVER_RECEIVED)])"

section \<open>The engine\<close>

definition LOGGED_FILL_MEMORY :: nat where
  "LOGGED_FILL_MEMORY = 10000"

definition log_fill :: "string list \<Rightarrow> string \<Rightarrow> string list" where
  "log_fill logged fid =
     (if fid \<in> set logged then logged
      else let l = logged @ [fid] in if LOGGED_FILL_MEMORY < length l then tl l else l)"

definition log_new_fills :: "fill list \<Rightarrow> ('b, 's, 'o) engine \<Rightarrow> ('b, 's, 'o) engine" where
  "log_new_fills fills e = e\<lparr>en_logged_fills := foldl log_fill (en_logged_fills e) (map fill_fill_id fills)\<rparr>"

definition linked_to_local_order :: "trade_order \<Rightarrow> fill list \<Rightarrow> fill list" where
  "linked_to_local_order ord fills =
     (let local_id = req_client_order_id (ord_request ord) in
      map (\<lambda>f. if fill_order_id f = local_id then f else f\<lparr>fill_order_id := local_id\<rparr>) fills)"

text \<open>The three parts of \<^verbatim>\<open>_record\<close> that follow the read of the fills.\<close>

definition record_fills :: "('b, 's, 'o) engine_env \<Rightarrow> fill list \<Rightarrow> (exn, ('b, 's, 'o) engine, unit) act" where
  "record_fills env linked =
     (if linked = [] then aret ()
      else abind (on_store (os_add_fills (ev_store env) linked)) (\<lambda>_ e. (Inr (), log_new_fills linked e)))"

definition record_status :: "('b, 's, 'o) engine_env \<Rightarrow> trade_order \<Rightarrow> fill list \<Rightarrow> (exn, ('b, 's, 'o) engine, unit) act" where
  "record_status env ord linked =
     (if ord_filled_quantity ord \<le> dsum (map fill_quantity linked)
      then on_store (os_update (ev_store env) ord) else aret ())"

definition record_notify :: "('b, 's, 'o) engine_env \<Rightarrow> trade_order \<Rightarrow> fill list \<Rightarrow> (exn, ('b, 's, 'o) engine, unit) act" where
  "record_notify env ord linked =
     (case ev_on_recorded env of None \<Rightarrow> aret () | Some notify \<Rightarrow> on_observer (notify ord linked))"

definition engine_record ::
  "('b, 's, 'o) engine_env \<Rightarrow> trade_order \<Rightarrow> (exn, ('b, 's, 'o) engine, trade_order) act"
where
  "engine_record env ord =
     abind (on_broker (bo_get_fills (ev_broker env) (req_client_order_id (ord_request ord)))) (\<lambda>fills.
       let linked = linked_to_local_order ord fills in
       abind (record_fills env linked) (\<lambda>_.
       abind (record_status env ord linked) (\<lambda>_.
       abind (record_notify env ord linked) (\<lambda>_. aret ord))))"

definition never_sent_record :: "('b, 's, 'o) engine_env \<Rightarrow> trade_order \<Rightarrow> exn \<Rightarrow> closure_record" where
  "never_sent_record env ord failure =
     \<lparr>cr_order = ord, cr_previous_status = ord_status ord, cr_actor = ''system'',
      cr_reason = ''Pre-submit order-status lookup failed: '' @ describe_provider_failure failure,
      cr_closed_at = ev_now env, cr_broker_lookup = ''failed ('' @ exn_name failure @ '')''\<rparr>"

definition close_never_sent ::
  "('b, 's, 'o) engine_env \<Rightarrow> trade_order \<Rightarrow> exn \<Rightarrow> (exn, ('b, 's, 'o) engine, unit) act"
where
  "close_never_sent env ord failure =
     abind (on_store (os_close_unreceived (ev_store env) (req_client_order_id (ord_request ord)) ORDER_CLOSED_EVENT
              (to_payload (ev_quantity_text env) (ev_isoformat env) (never_sent_record env ord failure))
              (ev_now env))) (\<lambda>closed.
       if \<not> closed
       then athrow (PersistenceUnavailable
              ''new pending order was already resolved elsewhere, so it was not audit-closed'')
       else (\<lambda>e. let e1 = e\<lparr>en_consecutive_never_sent := en_consecutive_never_sent e + 1\<rparr> in
         case ev_on_order_closed env of
           None \<Rightarrow> (Inr (), e1)
         | Some notify \<Rightarrow> (Inr (), snd (on_observer (notify ord failure) e1))))"

definition engine_send ::
  "('b, 's, 'o) engine_env \<Rightarrow> order_request \<Rightarrow> risk_approval \<Rightarrow> (exn, ('b, 's, 'o) engine, trade_order) act"
where
  "engine_send env r apr e =
     (case on_broker (bo_submit_order (ev_broker env) r apr) e of
        (Inl exc, e1) \<Rightarrow>
          (case exn_order exc of
             None \<Rightarrow> (Inl exc, e1)
           | Some provider_order \<Rightarrow>
               abind (on_store (os_update (ev_store env) provider_order)) (\<lambda>_. athrow exc) e1)
      | (Inr result, e1) \<Rightarrow> engine_record env result e1)"

definition engine_lookup_and_send ::
  "('b, 's, 'o) engine_env \<Rightarrow> order_request \<Rightarrow> risk_approval \<Rightarrow> trade_order \<Rightarrow> bool \<Rightarrow>
     (exn, ('b, 's, 'o) engine, trade_order) act"
where
  "engine_lookup_and_send env r apr persisted created e =
     (case on_broker (bo_get_order (ev_broker env) (req_client_order_id r)) e of
        (Inl exc, e1) \<Rightarrow>
          if created then abind (close_never_sent env persisted exc) (\<lambda>_. athrow exc) e1 else (Inl exc, e1)
      | (Inr existing, e1) \<Rightarrow>
          let e2 = e1\<lparr>en_consecutive_never_sent := 0\<rparr> in
          (case existing of
             Some ord \<Rightarrow> engine_record env ord e2
           | None \<Rightarrow> engine_send env r apr e2))"

definition engine_submit ::
  "('b, 's, 'o) engine_env \<Rightarrow> order_request \<Rightarrow> risk_approval \<Rightarrow> (exn, ('b, 's, 'o) engine, trade_order) act"
where
  "engine_submit env r apr =
     (if req_signal_id r \<noteq> apr_signal_id apr
        then athrow (ValueError ''risk approval does not belong to order request'')
      else if \<not> apr_approved apr then athrow (PermissionError ''order is not approved by risk engine'')
      else abind (on_store (os_reserve_with_created (ev_store env) r apr)) (\<lambda>(persisted, created).
        if \<not> unresolved (ord_status persisted) then aret persisted
        else engine_lookup_and_send env r apr persisted created))"

definition engine_recover ::
  "('b, 's, 'o) engine_env \<Rightarrow> string \<Rightarrow> (exn, ('b, 's, 'o) engine, trade_order option) act"
where
  "engine_recover env k =
     abind (on_broker (bo_get_order (ev_broker env) k)) (\<lambda>existing.
       case existing of
         None \<Rightarrow> on_store (os_get (ev_store env) k)
       | Some ord \<Rightarrow> abind (engine_record env ord) (\<lambda>x. aret (Some x)))"

fun recover_loop ::
  "('b, 's, 'o) engine_env \<Rightarrow> trade_order list \<Rightarrow> trade_order list \<Rightarrow> (exn, ('b, 's, 'o) engine, trade_order list) act"
where
  "recover_loop env [] recovered e = (Inr recovered, e)"
| "recover_loop env (ord # rest) recovered e =
     (case engine_recover env (req_client_order_id (ord_request ord)) e of
        (Inl exc, e1) \<Rightarrow> (Inl exc, e1)
      | (Inr result, e1) \<Rightarrow>
          recover_loop env rest (case result of None \<Rightarrow> recovered | Some x \<Rightarrow> recovered @ [x]) e1)"

definition engine_recover_pending ::
  "('b, 's, 'o) engine_env \<Rightarrow> (exn, ('b, 's, 'o) engine, trade_order list) act"
where
  "engine_recover_pending env =
     abind (on_store (os_pending (ev_store env))) (\<lambda>ords. recover_loop env ords [])"

section \<open>Closing an order the venue never received\<close>

datatype closure_code =
    CLOSED | INVALID_ID | ORDER_NOT_FOUND | NOT_UNRESOLVED | VENUE_HAS_ORDER | VENUE_HAS_FILLS
  | LOOKUP_FAILED | NOT_RECORDED

record closure_outcome =
  co_code :: closure_code
  co_client_order_id :: string
  co_detail :: string
  co_broker_lookup :: string
  co_record :: "closure_record option"

text \<open>\<^verbatim>\<open>ClosureOutcome.closed\<close>, of a call that returned.\<close>

fun closed_outcome :: "exn + closure_outcome \<Rightarrow> bool" where
  "closed_outcome (Inl _) = False"
| "closed_outcome (Inr out) = (co_code out = CLOSED)"

definition LOOKUP_NOT_FOUND :: string where
  "LOOKUP_NOT_FOUND = ''not found (the venue has no record of this order)''"

definition refused :: "closure_code \<Rightarrow> string \<Rightarrow> string \<Rightarrow> string \<Rightarrow> closure_outcome" where
  "refused code k detail lookup =
     \<lparr>co_code = code, co_client_order_id = k, co_detail = detail, co_broker_lookup = lookup, co_record = None\<rparr>"

fun failure_kind :: "exn \<Rightarrow> string" where
  "failure_kind (ProviderHTTPError code _ _) = ''HTTP '' @ nat_str code"
| "failure_kind e = exn_name e"

definition lookup_failed :: "string \<Rightarrow> string \<Rightarrow> exn \<Rightarrow> closure_outcome" where
  "lookup_failed k what exc =
     refused LOOKUP_FAILED k
       (what @ '' failed ('' @ failure_kind exc @ ''), so the venue has not said the order is absent. Only a definite not-found answer allows a close. Try again when the venue responds.'')
       (''failed ('' @ failure_kind exc @ '')'')"

definition close_record ::
  "('b, 's, 'o) engine_env \<Rightarrow> trade_order \<Rightarrow> string \<Rightarrow> string \<Rightarrow> closure_record"
where
  "close_record env ord actor reason =
     \<lparr>cr_order = ord, cr_previous_status = ord_status ord, cr_actor = actor, cr_reason = reason,
      cr_closed_at = ev_now env, cr_broker_lookup = LOOKUP_NOT_FOUND\<rparr>"

definition close_recorded ::
  "('b, 's, 'o) engine_env \<Rightarrow> string \<Rightarrow> closure_record \<Rightarrow> ('b, 's, 'o) engine \<Rightarrow>
     (exn + closure_outcome) \<times> ('b, 's, 'o) engine"
where
  "close_recorded env k c e =
     (case on_store (os_close_unreceived (ev_store env) k ORDER_CLOSED_EVENT
              (to_payload (ev_quantity_text env) (ev_isoformat env) c) (cr_closed_at c)) e of
        (Inl (PersistenceUnavailable _), e1) \<Rightarrow>
          (Inr (refused NOT_RECORDED k
             ''The closure could not be recorded in the audit history, so it was not applied.'' LOOKUP_NOT_FOUND), e1)
      | (Inl exc, e1) \<Rightarrow> (Inl exc, e1)
      | (Inr was_closed, e1) \<Rightarrow>
          if \<not> was_closed then
            (Inr (refused NOT_UNRESOLVED k
               ''The order was resolved by something else while the venue was being asked, so it was left as it is.''
               LOOKUP_NOT_FOUND), e1)
          else
            (Inr \<lparr>co_code = CLOSED, co_client_order_id = k,
               co_detail = ''The venue has no record of this order and no fills. It is closed, never resubmitted, and no replacement was created.'',
               co_broker_lookup = LOOKUP_NOT_FOUND, co_record = Some c\<rparr>, e1))"

definition close_ask_venue ::
  "('b, 's, 'o) engine_env \<Rightarrow> string \<Rightarrow> string \<Rightarrow> string \<Rightarrow> trade_order \<Rightarrow> ('b, 's, 'o) engine \<Rightarrow>
     (exn + closure_outcome) \<times> ('b, 's, 'o) engine"
where
  "close_ask_venue env k actor reason ord e =
     (case on_broker (bo_get_order (ev_broker env) k) e of
        (Inl exc, e1) \<Rightarrow> (Inr (lookup_failed k ''The order lookup'' exc), e1)
      | (Inr (Some found), e1) \<Rightarrow>
          (Inr (refused VENUE_HAS_ORDER k
             (''The venue has a record of this order ('' @ status_value (ord_status found) @ ''). It was received, so it is not closed here. Let startup recovery or reconciliation resolve it.'')
             (''found ('' @ status_value (ord_status found) @ '')'')), e1)
      | (Inr None, e1) \<Rightarrow>
          (case on_broker (bo_get_fills (ev_broker env) k) e1 of
             (Inl exc, e2) \<Rightarrow> (Inr (lookup_failed k ''The fills lookup'' exc), e2)
           | (Inr fills, e2) \<Rightarrow>
               if fills \<noteq> [] then
                 (Inr (refused VENUE_HAS_FILLS k
                    (''The venue reports '' @ nat_str (length fills) @ '' fill(s) for this order. It was received, so it is not closed here. Let startup recovery or reconciliation resolve it.'')
                    (''not found, but '' @ nat_str (length fills) @ '' fill(s) reported'')), e2)
               else close_recorded env k (close_record env ord actor reason) e2))"

definition close_order ::
  "(string \<Rightarrow> bool) \<Rightarrow> ('b, 's, 'o) engine_env \<Rightarrow> string \<Rightarrow> string \<Rightarrow> string \<Rightarrow> ('b, 's, 'o) engine \<Rightarrow>
     (exn + closure_outcome) \<times> ('b, 's, 'o) engine"
where
  "close_order is_uuid env k actor reason e =
     (if \<not> is_uuid k then (Inr (refused INVALID_ID k ''That is not an order ID.'' ''not asked''), e)
      else case on_store (os_get (ev_store env) k) e of
        (Inl (PersistenceUnavailable _), e1) \<Rightarrow>
          (Inr (refused NOT_RECORDED k ''The order store could not be read, so nothing was changed.'' ''not asked''), e1)
      | (Inl exc, e1) \<Rightarrow> (Inl exc, e1)
      | (Inr None, e1) \<Rightarrow> (Inr (refused ORDER_NOT_FOUND k ''No such order is saved here.'' ''not asked''), e1)
      | (Inr (Some ord), e1) \<Rightarrow>
          if \<not> unresolved (ord_status ord) then
            (Inr (refused NOT_UNRESOLVED k
               (''The order is '' @ status_value (ord_status ord) @ ''. Only a pending_submit or unknown order can be closed.'')
               ''not asked''), e1)
          else close_ask_venue env k actor reason ord e1)"

section \<open>What each step touches\<close>

lemma on_brokerE:
  assumes "on_broker m e = (r, e')"
  obtains b where "m (en_broker e) = (r, b)" "e' = e\<lparr>en_broker := b\<rparr>"
  using assms by (auto simp: on_broker_def split: prod.splits)

lemma on_storeE:
  assumes "on_store m e = (r, e')"
  obtains s where "m (en_store e) = (r, s)" "e' = e\<lparr>en_store := s\<rparr>"
  using assms by (auto simp: on_store_def split: prod.splits)

lemma snd_on_store [simp]:
  "en_broker (snd (on_store m e)) = en_broker e" "en_store (snd (on_store m e)) = snd (m (en_store e))"
  by (auto simp: on_store_def split: prod.splits)

lemma snd_on_broker [simp]:
  "en_store (snd (on_broker m e)) = en_store e" "en_broker (snd (on_broker m e)) = snd (m (en_broker e))"
  by (auto simp: on_broker_def split: prod.splits)

lemma snd_on_observer [simp]:
  "en_store (snd (on_observer m e)) = en_store e" "en_broker (snd (on_observer m e)) = en_broker e"
  by (auto simp: on_observer_def split: prod.splits)

lemma log_new_fills_frame [simp]:
  "en_store (log_new_fills fs e) = en_store e" "en_broker (log_new_fills fs e) = en_broker e"
  by (simp_all add: log_new_fills_def)

text \<open>The memory of logged fills never outgrows its bound.\<close>

lemma log_fill_bound: "length l \<le> LOGGED_FILL_MEMORY \<Longrightarrow> length (log_fill l f) \<le> LOGGED_FILL_MEMORY"
  by (auto simp: log_fill_def Let_def)

lemma linked_ids [simp]:
  "map fill_fill_id (linked_to_local_order ord fs) = map fill_fill_id fs"
  "map fill_quantity (linked_to_local_order ord fs) = map fill_quantity fs"
  "linked_to_local_order ord fs = [] \<longleftrightarrow> fs = []"
  by (simp_all add: linked_to_local_order_def Let_def)

lemma record_frames [simp]:
  "en_broker (snd (record_fills env l e)) = en_broker e"
  "en_broker (snd (record_status env ord l e)) = en_broker e"
  "en_broker (snd (record_notify env ord l e)) = en_broker e"
  "en_store (snd (record_notify env ord l e)) = en_store e"
proof -
  obtain r s where "os_add_fills (ev_store env) l (en_store e) = (r, s)" by force
  then show "en_broker (snd (record_fills env l e)) = en_broker e"
    by (simp add: record_fills_def abind_def on_store_def split: sum.splits)
qed (simp_all add: record_status_def record_notify_def split: option.splits)

lemma snd_abind:
  "snd (abind m f s) = (case m s of (Inl _, t) \<Rightarrow> t | (Inr x, t) \<Rightarrow> snd (f x t))"
  by (simp add: abind_def split: prod.splits sum.splits)

text \<open>Recording asks the broker for the order's fills and nothing else.\<close>

lemma abind_frame:
  assumes "g (snd (m s)) = v" "\<And>x t. g t = v \<Longrightarrow> g (snd (f x t)) = v"
  shows "g (snd (abind m f s)) = v"
  by (rule abind_keeps[where P = "\<lambda>t. g t = v"]) (use assms in auto)

lemma store_then_raise: "en_broker (snd (abind (on_store m) (\<lambda>_. athrow x) t)) = en_broker t"
  by (rule abind_frame[where g = en_broker]) simp_all

lemma record_rest_broker:
  "en_broker (snd (abind (record_fills env l) (\<lambda>_. abind (record_status env ord l)
     (\<lambda>_. abind (record_notify env ord l) (\<lambda>_. aret ord))) e)) = en_broker e"
  by (intro abind_frame[where g = en_broker]) simp_all

lemma engine_record_broker:
  "en_broker (snd (engine_record env ord e)) =
     snd (bo_get_fills (ev_broker env) (req_client_order_id (ord_request ord)) (en_broker e))"
proof -
  obtain r b where "bo_get_fills (ev_broker env) (req_client_order_id (ord_request ord)) (en_broker e) = (r, b)"
    by force
  then show ?thesis
    unfolding engine_record_def Let_def
    by (cases r) (simp_all add: snd_abind[of "on_broker _"] on_broker_def record_rest_broker)
qed

text \<open>
  The evidence for an order's status: the broker reported the order, then fills that cover its filled
  quantity, and all of those are among the saved fills \<open>ids\<close>.
\<close>

definition covered_by_fills :: "'b broker_ops \<Rightarrow> 'b \<Rightarrow> trade_order \<Rightarrow> string set \<Rightarrow> bool" where
  "covered_by_fills bops b ord ids \<longleftrightarrow>
     (\<exists>fs b'. bo_get_fills bops (req_client_order_id (ord_request ord)) b = (Inr fs, b') \<and>
        ord_filled_quantity ord \<le> dsum (map fill_quantity fs) \<and> fill_fill_id ` set fs \<subseteq> ids)"

text \<open>
  Why a submission gave the order \<open>k\<close> the status \<open>x\<close>, when \<open>saved\<close> holds the statuses saved before it:
  the order had no row before this call, its pre-submit lookup failed, and it is canceled as never sent,
  without a submission; or the venue refused or lost the submission and its exception carried the
  order; or the order is covered by saved fills. In every case the submitted order was new or its saved
  status was pending or unknown.
\<close>

definition open_or_new :: "order_status option \<Rightarrow> bool" where
  "open_or_new st \<longleftrightarrow> (case st of None \<Rightarrow> True | Some x \<Rightarrow> unresolved x)"

definition settle_reason ::
  "(string \<Rightarrow> order_status option) \<Rightarrow> 'b broker_ops \<Rightarrow> 'b \<Rightarrow> order_request \<Rightarrow> risk_approval \<Rightarrow> 'b \<Rightarrow>
     string set \<Rightarrow> string \<Rightarrow> order_status \<Rightarrow> bool"
where
  "settle_reason saved bops b r apr b_end ids k x \<longleftrightarrow> open_or_new (saved (req_client_order_id r)) \<and>
     ((\<exists>exc. bo_get_order bops (req_client_order_id r) b = (Inl exc, b_end) \<and>
        k = req_client_order_id r \<and> saved k = None \<and> x = CANCELED) \<or>
     (\<exists>exc ord b1 b2. bo_get_order bops (req_client_order_id r) b = (Inr None, b1) \<and>
        bo_submit_order bops r apr b1 = (Inl exc, b2) \<and> exn_order exc = Some ord \<and>
        k = req_client_order_id (ord_request ord) \<and> x = ord_status ord) \<or>
     (\<exists>ord b1 b2. (bo_get_order bops (req_client_order_id r) b = (Inr (Some ord), b2) \<or>
          bo_get_order bops (req_client_order_id r) b = (Inr None, b1) \<and>
          bo_submit_order bops r apr b1 = (Inr ord, b2)) \<and>
        covered_by_fills bops b2 ord ids \<and>
        k = req_client_order_id (ord_request ord) \<and> x = ord_status ord))"

section \<open>What follows from the store's contract\<close>

locale engine_store =
  order_store "ev_store env" status_of fill_ids sinv
  for env :: "('b, 's, 'o) engine_env"
    and status_of :: "'s \<Rightarrow> string \<Rightarrow> order_status option"
    and fill_ids :: "'s \<Rightarrow> string set"
    and sinv :: "'s \<Rightarrow> bool"
begin

lemma record_fills_store:
  assumes inv: "sinv (en_store e)" and rec: "record_fills env l e = (r, e')"
  shows "sinv (en_store e') \<and> status_of (en_store e') = status_of (en_store e) \<and>
    fill_ids (en_store e') = (case r of Inl _ \<Rightarrow> fill_ids (en_store e)
      | Inr _ \<Rightarrow> fill_ids (en_store e) \<union> fill_fill_id ` set l)"
proof (cases "l = []")
  case True
  then show ?thesis using assms by (auto simp: record_fills_def)
next
  case False
  obtain r1 s where s: "os_add_fills (ev_store env) l (en_store e) = (r1, s)" by force
  have "sinv s" "status_of s = status_of (en_store e)"
    using inv_add_fills[OF inv, of l] add_fills_status[OF inv, of l] s by simp_all
  moreover have "en_store e' = s" "r = (case r1 of Inl x \<Rightarrow> Inl x | Inr _ \<Rightarrow> Inr ())"
    using rec False s by (cases r1; force simp: record_fills_def abind_def on_store_def)+
  ultimately show ?thesis using add_fills_ids[OF inv s] by (cases r1) simp_all
qed

lemma record_status_store:
  assumes inv: "sinv (en_store e)" and rec: "record_status env ord l e = (r, e')"
  shows "sinv (en_store e') \<and> fill_ids (en_store e') = fill_ids (en_store e) \<and>
    (status_of (en_store e') = status_of (en_store e) \<or>
     ord_filled_quantity ord \<le> dsum (map fill_quantity l) \<and>
     status_of (en_store e') = (status_of (en_store e))(req_client_order_id (ord_request ord) \<mapsto> ord_status ord))"
proof -
  obtain r1 s where s: "os_update (ev_store env) ord (en_store e) = (r1, s)" by force
  have "sinv s" "fill_ids s = fill_ids (en_store e)"
    using inv_update[OF inv, of ord] update_fills[OF inv, of ord] s by simp_all
  moreover have "en_store e' = (if ord_filled_quantity ord \<le> dsum (map fill_quantity l) then s else en_store e)"
    using rec s by (force simp: record_status_def on_store_def split: if_splits)
  ultimately show ?thesis using inv update_status[OF inv s] by (cases r1) simp_all
qed

text \<open>
  Recording either leaves every status alone, or it was told by the broker of fills that cover the
  order, has saved all of them, and only then gives the order its status.
\<close>

lemma engine_record_settles:
  assumes inv: "sinv (en_store e)" and rec: "engine_record env ord e = (res, e')"
  shows "sinv (en_store e') \<and> fill_ids (en_store e) \<subseteq> fill_ids (en_store e') \<and>
    (status_of (en_store e') = status_of (en_store e) \<or>
     status_of (en_store e') = (status_of (en_store e))(req_client_order_id (ord_request ord) \<mapsto> ord_status ord) \<and>
     (\<exists>fs b. bo_get_fills (ev_broker env) (req_client_order_id (ord_request ord)) (en_broker e) = (Inr fs, b) \<and>
        ord_filled_quantity ord \<le> dsum (map fill_quantity fs) \<and> fill_fill_id ` set fs \<subseteq> fill_ids (en_store e')))"
proof -
  let ?k = "req_client_order_id (ord_request ord)"
  obtain r b where gf: "bo_get_fills (ev_broker env) ?k (en_broker e) = (r, b)" by force
  show ?thesis
  proof (cases r)
    case (Inl x)
    with rec gf show ?thesis using inv by (auto simp: engine_record_def abind_def on_broker_def)
  next
    case (Inr fs)
    let ?l = "linked_to_local_order ord fs"
    have ids: "fill_fill_id ` set ?l = fill_fill_id ` set fs" using linked_ids(1) by (metis list.set_map)
    obtain r1 e1 where s1: "record_fills env ?l (e\<lparr>en_broker := b\<rparr>) = (r1, e1)" by force
    obtain r2 e2 where s2: "record_status env ord ?l e1 = (r2, e2)" by force
    obtain r3 e3 where s3: "record_notify env ord ?l e2 = (r3, e3)" by force
    have st3: "en_store e3 = en_store e2" using record_frames(4)[of env ord ?l e2] s3 by simp
    have e': "e' = (case r1 of Inl _ \<Rightarrow> e1 | Inr _ \<Rightarrow> case r2 of Inl _ \<Rightarrow> e2 | Inr _ \<Rightarrow> e3)"
      using rec gf Inr s1 s2 s3
      by (auto simp: engine_record_def abind_def on_broker_def Let_def split: sum.splits)
    have f1: "sinv (en_store e1)" "status_of (en_store e1) = status_of (en_store e)"
      "fill_ids (en_store e1) = (case r1 of Inl _ \<Rightarrow> fill_ids (en_store e)
        | Inr _ \<Rightarrow> fill_ids (en_store e) \<union> fill_fill_id ` set fs)"
      using record_fills_store[OF _ s1] inv ids by (simp_all split: sum.splits)
    note f2 = record_status_store[OF f1(1) s2]
    show ?thesis
    proof (cases r1)
      case (Inl x)
      then show ?thesis using e' f1 by simp
    next
      case (Inr u)
      then have "en_store e' = en_store e2" using e' st3 by (simp split: sum.splits)
      then show ?thesis using f1 f2 Inr gf \<open>r = Inr fs\<close> by auto
    qed
  qed
qed


lemma engine_record_keeps_saved:
  assumes "sinv (en_store e)" "status_of (en_store e) k \<noteq> None"
  shows "status_of (en_store (snd (engine_record env ord e))) k \<noteq> None"
  using engine_record_settles[OF assms(1), of ord "fst (engine_record env ord e)" "snd (engine_record env ord e)"] assms(2)
  by auto

text \<open>The close of a never-sent order, when it succeeds, cancels exactly that order.\<close>

lemma close_never_sent_store:
  assumes inv: "sinv (en_store e)" and c: "close_never_sent env ord exc e = (res, e')"
  shows "sinv (en_store e') \<and> en_broker e' = en_broker e \<and> fill_ids (en_store e') = fill_ids (en_store e) \<and>
    (case res of Inl _ \<Rightarrow> status_of (en_store e') = status_of (en_store e)
     | Inr _ \<Rightarrow> status_of (en_store e') = (status_of (en_store e))(req_client_order_id (ord_request ord) \<mapsto> CANCELED))"
proof -
  let ?k = "req_client_order_id (ord_request ord)"
  let ?close = "os_close_unreceived (ev_store env) ?k ORDER_CLOSED_EVENT
      (to_payload (ev_quantity_text env) (ev_isoformat env) (never_sent_record env ord exc)) (ev_now env)"
  obtain r s where s: "?close (en_store e) = (r, s)" by force
  have keep: "sinv s" "fill_ids s = fill_ids (en_store e)"
    using inv_close[OF inv, of ?k] close_fills[OF inv, of ?k] s by (metis snd_conv)+
  have "en_store e' = s \<and> en_broker e' = en_broker e \<and> (res = Inr () \<longleftrightarrow> r = Inr True)"
    using c s by (cases r)
      (force simp: close_never_sent_def abind_def on_store_def Let_def on_observer_def split: if_splits option.splits prod.splits)+
  then show ?thesis using keep close_status[OF inv s] by (cases res) auto
qed


lemma engine_record_change:
  assumes "sinv (en_store e)" "engine_record env ord e = (res, e')"
    "status_of (en_store e') k = Some x" "status_of (en_store e) k \<noteq> Some x"
  shows "covered_by_fills (ev_broker env) (en_broker e) ord (fill_ids (en_store e')) \<and>
    k = req_client_order_id (ord_request ord) \<and> x = ord_status ord"
  using engine_record_settles[OF assms(1,2)] assms(3,4)
  by (auto simp: covered_by_fills_def split: if_splits)

lemma engine_send_keeps:
  assumes inv: "sinv (en_store e)" and snd: "engine_send env r apr e = (res, e')"
  shows "sinv (en_store e') \<and>
    (\<forall>k. status_of (en_store e) k \<noteq> None \<longrightarrow> status_of (en_store e') k \<noteq> None)"
proof -
  obtain r1 b where b: "bo_submit_order (ev_broker env) r apr (en_broker e) = (r1, b)" by force
  let ?e1 = "e\<lparr>en_broker := b\<rparr>"
  show ?thesis
  proof (cases r1)
    case (Inr ord)
    then have "engine_record env ord ?e1 = (res, e')" using snd b by (simp add: engine_send_def on_broker_def)
    from engine_record_settles[OF _ this] inv show ?thesis by auto
  next
    case (Inl exc)
    show ?thesis
    proof (cases "exn_order exc")
      case None
      then have "e' = ?e1" using snd b Inl by (simp add: engine_send_def on_broker_def)
      then show ?thesis using inv by simp
    next
      case (Some ord)
      obtain r2 s2 where u: "os_update (ev_store env) ord (en_store e) = (r2, s2)" by force
      have "en_store e' = s2"
        using snd b Inl Some u by (cases r2) (force simp: engine_send_def on_broker_def abind_def on_store_def)+
      then show ?thesis using update_status[OF inv u] inv_update[OF inv, of ord] u by (cases r2) auto
    qed
  qed
qed

lemma engine_send_change:
  assumes inv: "sinv (en_store e)" and snd: "engine_send env r apr e = (res, e')"
    and ch: "status_of (en_store e') k = Some x" "status_of (en_store e) k \<noteq> Some x"
  shows "(\<exists>exc ord b. bo_submit_order (ev_broker env) r apr (en_broker e) = (Inl exc, b) \<and>
      exn_order exc = Some ord \<and> k = req_client_order_id (ord_request ord) \<and> x = ord_status ord) \<or>
    (\<exists>ord b. bo_submit_order (ev_broker env) r apr (en_broker e) = (Inr ord, b) \<and>
      covered_by_fills (ev_broker env) b ord (fill_ids (en_store e')) \<and>
      k = req_client_order_id (ord_request ord) \<and> x = ord_status ord)"
proof -
  obtain r1 b where b: "bo_submit_order (ev_broker env) r apr (en_broker e) = (r1, b)" by force
  let ?e1 = "e\<lparr>en_broker := b\<rparr>"
  show ?thesis
  proof (cases r1)
    case (Inr ord)
    then have "engine_record env ord ?e1 = (res, e')" using snd b by (simp add: engine_send_def on_broker_def)
    from engine_record_change[OF _ this ch(1)] inv ch(2) b Inr show ?thesis by simp
  next
    case (Inl exc)
    show ?thesis
    proof (cases "exn_order exc")
      case None
      then have "e' = ?e1" using snd b Inl by (simp add: engine_send_def on_broker_def)
      then show ?thesis using ch by simp
    next
      case (Some ord)
      obtain r2 s2 where u: "os_update (ev_store env) ord (en_store e) = (r2, s2)" by force
      have "en_store e' = s2"
        using snd b Inl Some u by (cases r2) (force simp: engine_send_def on_broker_def abind_def on_store_def)+
      then show ?thesis
        using update_status[OF inv u] ch b Inl Some by (cases r2) (auto split: if_splits)
    qed
  qed
qed

text \<open>The part of \<^verbatim>\<open>submit\<close> after the reservation, by what the lookup answered.\<close>

lemma lookup_cases:
  assumes "engine_lookup_and_send env r apr persisted created e = (res, e')"
  obtains (failed) exc b where "bo_get_order (ev_broker env) (req_client_order_id r) (en_broker e) = (Inl exc, b)"
      "(if created then abind (close_never_sent env persisted exc) (\<lambda>_. athrow exc) (e\<lparr>en_broker := b\<rparr>)
        else (Inl exc, e\<lparr>en_broker := b\<rparr>)) = (res, e')"
  | (found) ord b where "bo_get_order (ev_broker env) (req_client_order_id r) (en_broker e) = (Inr (Some ord), b)"
      "engine_record env ord (e\<lparr>en_broker := b, en_consecutive_never_sent := 0\<rparr>) = (res, e')"
  | (absent) b where "bo_get_order (ev_broker env) (req_client_order_id r) (en_broker e) = (Inr None, b)"
      "engine_send env r apr (e\<lparr>en_broker := b, en_consecutive_never_sent := 0\<rparr>) = (res, e')"
proof -
  obtain r1 b where b: "bo_get_order (ev_broker env) (req_client_order_id r) (en_broker e) = (r1, b)" by force
  show ?thesis
  proof (cases r1)
    case (Inl exc)
    with b assms show ?thesis by (intro failed) (simp_all add: engine_lookup_and_send_def on_broker_def)
  next
    case (Inr x)
    show ?thesis
    proof (cases x)
      case None
      with b assms Inr show ?thesis
        by (intro absent) (simp_all add: engine_lookup_and_send_def on_broker_def Let_def)
    next
      case (Some ord)
      with b assms Inr show ?thesis
        by (intro found) (simp_all add: engine_lookup_and_send_def on_broker_def Let_def)
    qed
  qed
qed

text \<open>The never-sent branch: a status changes only to canceled, and only when the row is this call's.\<close>

lemma never_sent_branch:
  assumes inv: "sinv (en_store e)"
    and c: "(if created then abind (close_never_sent env ord exc) (\<lambda>_. athrow exc) e else (Inl exc, e)) = (res, e')"
  shows "sinv (en_store e') \<and> en_broker e' = en_broker e \<and> (\<exists>exc'. res = Inl exc') \<and>
    (status_of (en_store e') = status_of (en_store e) \<or>
     created \<and> status_of (en_store e') = (status_of (en_store e))(req_client_order_id (ord_request ord) \<mapsto> CANCELED))"
proof (cases created)
  case True
  obtain r1 e1 where s1: "close_never_sent env ord exc e = (r1, e1)" by force
  have "e' = e1 \<and> (\<exists>exc'. res = Inl exc')" using c True s1 by (cases r1) (auto simp: abind_def)
  then show ?thesis using close_never_sent_store[OF inv s1] True by (cases r1) auto
qed (use c inv in auto)

lemma lookup_keeps:
  assumes inv: "sinv (en_store e)" and l: "engine_lookup_and_send env r apr persisted created e = (res, e')"
  shows "sinv (en_store e') \<and>
    (\<forall>k. status_of (en_store e) k \<noteq> None \<longrightarrow> status_of (en_store e') k \<noteq> None)"
  using l
proof (cases rule: lookup_cases)
  case (failed exc b)
  from never_sent_branch[OF _ failed(2)] inv show ?thesis by auto
next
  case (found ord b)
  from engine_record_settles[OF _ found(2)] inv show ?thesis by auto
next
  case (absent b)
  from engine_send_keeps[OF _ absent(2)] inv show ?thesis by simp
qed

lemma lookup_change:
  assumes inv: "sinv (en_store e)" and l: "engine_lookup_and_send env r apr persisted created e = (res, e')"
    and id: "req_client_order_id (ord_request persisted) = req_client_order_id r"
    and old: "open_or_new (saved (req_client_order_id r))" "created \<Longrightarrow> saved (req_client_order_id r) = None"
    and ch: "status_of (en_store e') k = Some x" "status_of (en_store e) k \<noteq> Some x"
  shows "settle_reason saved (ev_broker env) (en_broker e) r apr (en_broker e') (fill_ids (en_store e')) k x"
  using l
proof (cases rule: lookup_cases)
  case (failed exc b)
  have "en_broker e' = b" "status_of (en_store e') = status_of (en_store e) \<or>
     created \<and> status_of (en_store e') = (status_of (en_store e))(req_client_order_id r \<mapsto> CANCELED)"
    using never_sent_branch[OF _ failed(2)] inv id by auto
  then have "created" "k = req_client_order_id r" "x = CANCELED" using ch by (auto split: if_splits)
  then show ?thesis using failed(1) old \<open>en_broker e' = b\<close> by (auto simp: settle_reason_def)
next
  case (found ord b)
  from engine_record_change[OF _ found(2) ch(1)] inv ch(2) found(1) old(1) show ?thesis
    by (auto simp: settle_reason_def)
next
  case (absent b)
  from engine_send_change[OF _ absent(2) ch(1)] inv ch(2) absent(1) old(1) show ?thesis
    by (auto simp: settle_reason_def)
qed


lemma submit_cases:
  assumes "engine_submit env r apr e = (res, e')"
  obtains (refused) "e' = e" "\<exists>exc. res = Inl exc" "req_signal_id r \<noteq> apr_signal_id apr \<or> \<not> apr_approved apr"
  | (unsaved) exc s where "os_reserve_with_created (ev_store env) r apr (en_store e) = (Inl exc, s)"
      "res = Inl exc" "e' = e\<lparr>en_store := s\<rparr>"
  | (settled) ord created s where
      "os_reserve_with_created (ev_store env) r apr (en_store e) = (Inr (ord, created), s)"
      "\<not> unresolved (ord_status ord)" "res = Inr ord" "e' = e\<lparr>en_store := s\<rparr>"
  | (sent) ord created s where "req_signal_id r = apr_signal_id apr" "apr_approved apr"
      "os_reserve_with_created (ev_store env) r apr (en_store e) = (Inr (ord, created), s)"
      "unresolved (ord_status ord)"
      "engine_lookup_and_send env r apr ord created (e\<lparr>en_store := s\<rparr>) = (res, e')"
proof -
  obtain r1 s where s: "os_reserve_with_created (ev_store env) r apr (en_store e) = (r1, s)" by force
  show ?thesis
  proof (cases "req_signal_id r \<noteq> apr_signal_id apr \<or> \<not> apr_approved apr")
    case True
    then show ?thesis using assms by (intro refused) (auto simp: engine_submit_def split: if_splits)
  next
    case False
    show ?thesis
    proof (cases r1)
      case (Inl exc)
      then have "engine_submit env r apr e = (Inl exc, e\<lparr>en_store := s\<rparr>)"
        using False s by (simp add: engine_submit_def abind_def on_store_def)
      then show ?thesis using assms s Inl by (intro unsaved) simp_all
    next
      case (Inr p)
      obtain ord created where p: "p = (ord, created)" by force
      show ?thesis
      proof (cases "unresolved (ord_status ord)")
        case True
        then show ?thesis
          using assms False s Inr p by (intro sent[of ord created s]) (auto simp: engine_submit_def abind_def on_store_def)
      next
        case nu: False
        then have "engine_submit env r apr e = (Inr ord, e\<lparr>en_store := s\<rparr>)"
          using False s Inr p by (simp add: engine_submit_def abind_def on_store_def)
        then show ?thesis using assms s Inr p nu by (intro settled[of ord created s]) simp_all
      qed
    qed
  qed
qed

lemma reserve_keeps:
  assumes "sinv s" "os_reserve_with_created (ev_store env) r apr s = (res, s')"
  shows "sinv s' \<and> fill_ids s' = fill_ids s"
  using assms inv_reserve[of s r apr] reserve_fills[of s r apr] by simp

text \<open>A status that a submission changes was either a new row's pending, or has a reason.\<close>

lemma submit_change:
  assumes inv: "sinv (en_store e)" and sub: "engine_submit env r apr e = (res, e')"
    and ch: "status_of (en_store e') k = Some x" "status_of (en_store e) k \<noteq> Some x"
  shows "(k = req_client_order_id r \<and> status_of (en_store e) k = None \<and> x = PENDING_SUBMIT) \<or>
    settle_reason (status_of (en_store e)) (ev_broker env) (en_broker e) r apr (en_broker e')
      (fill_ids (en_store e')) k x"
  using sub
proof (cases rule: submit_cases)
  case (unsaved exc s)
  then show ?thesis using reserve_Inl[OF inv unsaved(1)] ch by (auto split: if_splits)
next
  case (settled ord created s)
  then show ?thesis using reserve_Inr[OF inv settled(1)] ch by (auto split: if_splits)
next
  case (sent ord created s)
  have s: "sinv (en_store (e\<lparr>en_store := s\<rparr>))" using reserve_keeps[OF inv sent(3)] by simp
  have id: "req_client_order_id (ord_request ord) = req_client_order_id r"
    using reserve_Inr[OF inv sent(3)] by simp
  show ?thesis
  proof (cases "status_of s k = Some x")
    case True
    then show ?thesis using reserve_Inr[OF inv sent(3)] ch(2) by (auto split: if_splits)
  next
    case False
    have "open_or_new (status_of (en_store e) (req_client_order_id r))"
      "created \<Longrightarrow> status_of (en_store e) (req_client_order_id r) = None"
      using reserve_Inr[OF inv sent(3)] sent(4) by (auto simp: open_or_new_def split: if_splits)
    from lookup_change[where saved = "status_of (en_store e)", OF s sent(5) id this ch(1)] False show ?thesis by simp
  qed
qed (use ch in simp)

text \<open>A settled order is returned without asking the broker anything.\<close>

lemma submit_settled:
  assumes inv: "sinv (en_store e)" and sub: "engine_submit env r apr e = (res, e')"
    and st: "status_of (en_store e) (req_client_order_id r) = Some x" "\<not> unresolved x"
  shows "en_broker e' = en_broker e \<and> status_of (en_store e') = status_of (en_store e) \<and>
    (\<forall>ord. res = Inr ord \<longrightarrow> ord_status ord = x)"
  using sub
proof (cases rule: submit_cases)
  case (unsaved exc s)
  then show ?thesis using reserve_Inl[OF inv unsaved(1)] st by auto
next
  case (settled ord created s)
  then show ?thesis using reserve_Inr[OF inv settled(1)] st by (auto split: if_splits)
next
  case (sent ord created s)
  then show ?thesis using reserve_Inr[OF inv sent(3)] st by (auto split: if_splits)
qed auto

text \<open>The broker is asked only for an approved order that is already saved.\<close>

lemma submit_saves_first:
  assumes inv: "sinv (en_store e)" and sub: "engine_submit env r apr e = (res, e')"
    and ch: "en_broker e' \<noteq> en_broker e"
  shows "req_signal_id r = apr_signal_id apr \<and> apr_approved apr \<and>
    status_of (en_store e') (req_client_order_id r) \<noteq> None"
  using sub
proof (cases rule: submit_cases)
  case (sent ord created s)
  have s: "sinv (en_store (e\<lparr>en_store := s\<rparr>))" using reserve_keeps[OF inv sent(3)] by simp
  have "status_of s (req_client_order_id r) \<noteq> None"
    using reserve_Inr[OF inv sent(3)] by (auto split: if_splits)
  then show ?thesis using lookup_keeps[OF s sent(5)] sent(1,2) by auto
qed (use ch in simp_all)

text \<open>
  A close attempt. Only the outcome \<open>CLOSED\<close> changes the store, and it needs both answers of the venue:
  no such order, and no fill.
\<close>

lemma close_recorded_store:
  assumes inv: "sinv (en_store e)" and c: "close_recorded env k rec e = (res, e')"
  shows "sinv (en_store e') \<and> en_broker e' = en_broker e \<and>
    (if closed_outcome res
     then (\<exists>x. status_of (en_store e) k = Some x \<and> unresolved x) \<and>
       status_of (en_store e') = (status_of (en_store e))(k \<mapsto> CANCELED)
     else status_of (en_store e') = status_of (en_store e))"
proof -
  let ?close = "os_close_unreceived (ev_store env) k ORDER_CLOSED_EVENT
      (to_payload (ev_quantity_text env) (ev_isoformat env) rec) (cr_closed_at rec)"
  obtain r s where s: "?close (en_store e) = (r, s)" by force
  have "(\<exists>res'. (res, e') = (res', e\<lparr>en_store := s\<rparr>) \<and> (closed_outcome res' \<longleftrightarrow> r = Inr True))"
    unfolding c[symmetric]
  proof (cases r)
    case (Inl exc)
    then show "\<exists>res'. close_recorded env k rec e = (res', e\<lparr>en_store := s\<rparr>) \<and> (closed_outcome res' \<longleftrightarrow> r = Inr True)"
      using s by (cases exc) (simp_all add: close_recorded_def on_store_def refused_def)
  next
    case (Inr was_closed)
    then show "\<exists>res'. close_recorded env k rec e = (res', e\<lparr>en_store := s\<rparr>) \<and> (closed_outcome res' \<longleftrightarrow> r = Inr True)"
      using s by (cases was_closed) (simp_all add: close_recorded_def on_store_def refused_def)
  qed
  then have "e' = e\<lparr>en_store := s\<rparr>" "closed_outcome res \<longleftrightarrow> r = Inr True" by blast+
  moreover have "sinv s"
    using inv_close[OF inv, of k ORDER_CLOSED_EVENT] s by (metis snd_conv)
  ultimately show ?thesis using close_status[OF inv s] by simp
qed

lemma close_ask_venue_store:
  assumes inv: "sinv (en_store e)" and c: "close_ask_venue env k actor reason ord e = (res, e')"
  shows "sinv (en_store e') \<and> (if closed_outcome res
     then (\<exists>x. status_of (en_store e) k = Some x \<and> unresolved x) \<and>
       status_of (en_store e') = (status_of (en_store e))(k \<mapsto> CANCELED) \<and>
       (\<exists>b1. bo_get_order (ev_broker env) k (en_broker e) = (Inr None, b1) \<and>
          bo_get_fills (ev_broker env) k b1 = (Inr [], en_broker e'))
     else status_of (en_store e') = status_of (en_store e))"
proof -
  obtain r1 b1 where g: "bo_get_order (ev_broker env) k (en_broker e) = (r1, b1)" by force
  obtain r2 b2 where f: "bo_get_fills (ev_broker env) k b1 = (r2, b2)" by force
  show ?thesis
  proof (cases "r1 = Inr None \<and> r2 = Inr []")
    case True
    then have "close_recorded env k (close_record env ord actor reason) (e\<lparr>en_broker := b2\<rparr>) = (res, e')"
      using c g f by (simp add: close_ask_venue_def on_broker_def)
    from close_recorded_store[OF _ this] inv True g f show ?thesis by auto
  next
    case False
    have "\<not> closed_outcome (fst (close_ask_venue env k actor reason ord e)) \<and>
        en_store (snd (close_ask_venue env k actor reason ord e)) = en_store e"
      using False g f
      by (cases r1; cases r2; cases "projr r1"; cases "projr r2")
        (simp_all add: close_ask_venue_def on_broker_def lookup_failed_def refused_def)
    then show ?thesis using c inv by simp
  qed
qed

lemma close_order_store:
  assumes inv: "sinv (en_store e)" and c: "close_order is_uuid env k actor reason e = (res, e')"
  shows "sinv (en_store e') \<and> (if closed_outcome res
     then (\<exists>x. status_of (en_store e) k = Some x \<and> unresolved x) \<and>
       status_of (en_store e') = (status_of (en_store e))(k \<mapsto> CANCELED) \<and>
       (\<exists>b1. bo_get_order (ev_broker env) k (en_broker e) = (Inr None, b1) \<and>
          bo_get_fills (ev_broker env) k b1 = (Inr [], en_broker e'))
     else status_of (en_store e') = status_of (en_store e))"
proof -
  obtain r s where s: "os_get (ev_store env) k (en_store e) = (r, s)" by force
  have gs: "sinv s" "status_of s = status_of (en_store e)"
    using inv_get[OF inv, of k] get_reads[OF inv s] s by simp_all
  show ?thesis
  proof (cases "is_uuid k \<and> (\<exists>ord. r = Inr (Some ord) \<and> unresolved (ord_status ord))")
    case False
    have "sinv (en_store (snd (close_order is_uuid env k actor reason e))) \<and>
        \<not> closed_outcome (fst (close_order is_uuid env k actor reason e)) \<and>
        status_of (en_store (snd (close_order is_uuid env k actor reason e))) = status_of (en_store e)"
    proof (cases r)
      case (Inl exc)
      then show ?thesis
        using s gs inv by (cases exc) (simp_all add: close_order_def on_store_def refused_def)
    next
      case (Inr found)
      then show ?thesis
        using s gs inv False by (cases found) (simp_all add: close_order_def on_store_def refused_def)
    qed
    then show ?thesis using c by simp
  next
    case True
    then obtain ord where "close_ask_venue env k actor reason ord (e\<lparr>en_store := s\<rparr>) = (res, e')"
      using c s by (auto simp: close_order_def on_store_def)
    from close_ask_venue_store[OF _ this] gs show ?thesis by (simp split: if_splits)
  qed
qed

end

section \<open>What follows from the store's and the broker's contracts\<close>

locale execution =
  engine_store env status_of fill_ids sinv + broker_contract "ev_broker env" placed binv
  for env :: "('b, 's, 'o) engine_env"
    and status_of :: "'s \<Rightarrow> string \<Rightarrow> order_status option"
    and fill_ids :: "'s \<Rightarrow> string set"
    and sinv :: "'s \<Rightarrow> bool"
    and placed :: "'b \<Rightarrow> string set"
    and binv :: "'b \<Rightarrow> bool"
begin

lemma engine_record_placed:
  assumes "binv (en_broker e)" "engine_record env ord e = (res, e')"
  shows "binv (en_broker e') \<and> placed (en_broker e') = placed (en_broker e)"
proof -
  have "en_broker e' = snd (bo_get_fills (ev_broker env) (req_client_order_id (ord_request ord)) (en_broker e))"
    using engine_record_broker[of env ord e] assms(2) by simp
  then show ?thesis using placed_get_fills[OF assms(1)] inv_get_fills[OF assms(1)] by simp
qed

lemma get_order_keeps:
  "binv b \<Longrightarrow> bo_get_order (ev_broker env) k b = (res, b') \<Longrightarrow> binv b' \<and> placed b' = placed b"
  using inv_get_order[of b k] placed_get_order[of b k] by simp

lemma engine_send_placed:
  assumes inv: "binv (en_broker e)" and snd: "engine_send env r apr e = (res, e')"
  shows "binv (en_broker e') \<and> placed (en_broker e) \<subseteq> placed (en_broker e') \<and>
    placed (en_broker e') \<subseteq> insert (req_client_order_id r) (placed (en_broker e))"
proof -
  obtain r1 b where b: "bo_submit_order (ev_broker env) r apr (en_broker e) = (r1, b)" by force
  have bb: "binv b" "placed (en_broker e) \<subseteq> placed b" "placed b \<subseteq> insert (req_client_order_id r) (placed (en_broker e))"
    using inv_submit[OF inv, of r apr] placed_submit_grows[OF inv, of r apr] placed_submit_only[OF inv, of r apr] b
    by simp_all
  have "binv (en_broker e') \<and> placed (en_broker e') = placed b"
  proof (cases r1)
    case (Inr ord)
    then have "engine_record env ord (e\<lparr>en_broker := b\<rparr>) = (res, e')"
      using snd b by (simp add: engine_send_def on_broker_def)
    from engine_record_placed[OF _ this] bb show ?thesis by simp
  next
    case (Inl exc)
    have "e' = snd (engine_send env r apr e)" using snd by simp
    then have "en_broker e' = b"
      using b Inl by (cases "exn_order exc") (simp_all add: engine_send_def on_broker_def store_then_raise)
    then show ?thesis using bb by simp
  qed
  then show ?thesis using bb by simp
qed

text \<open>A submission can put only its own order at the venue, and never one the venue already has.\<close>

lemma submit_placed:
  assumes inv: "sinv (en_store e)" "binv (en_broker e)" and sub: "engine_submit env r apr e = (res, e')"
  shows "binv (en_broker e') \<and> placed (en_broker e) \<subseteq> placed (en_broker e') \<and>
    placed (en_broker e') \<subseteq> insert (req_client_order_id r) (placed (en_broker e))"
  using sub
proof (cases rule: submit_cases)
  case (sent ord created s)
  from sent(5) show ?thesis
  proof (cases rule: lookup_cases)
    case (failed exc b)
    have s: "sinv s" using reserve_keeps[OF inv(1) sent(3)] by simp
    have "en_broker e' = b" using never_sent_branch[OF _ failed(2)] s by simp
    then show ?thesis using get_order_keeps[OF inv(2), of "req_client_order_id r" "Inl exc" b] failed(1) by auto
  next
    case (found ord b)
    have "binv b \<and> placed b = placed (en_broker e)" using get_order_keeps[OF inv(2)] found(1) by simp
    then show ?thesis using engine_record_placed[OF _ found(2)] by auto
  next
    case (absent b)
    have "binv b \<and> placed b = placed (en_broker e)" using get_order_keeps[OF inv(2)] absent(1) by simp
    then show ?thesis using engine_send_placed[OF _ absent(2)] by simp
  qed
qed (use inv in auto)

lemma recover_placed:
  assumes "binv (en_broker e)" "engine_recover env k e = (res, e')"
  shows "binv (en_broker e') \<and> placed (en_broker e') = placed (en_broker e)"
proof -
  obtain r1 b where b: "bo_get_order (ev_broker env) k (en_broker e) = (r1, b)" by force
  have bb: "binv b" "placed b = placed (en_broker e)" using get_order_keeps[OF assms(1) b] by simp_all
  show ?thesis
  proof (cases r1)
    case (Inl exc)
    then have "e' = e\<lparr>en_broker := b\<rparr>" using assms(2) b by (simp add: engine_recover_def abind_def on_broker_def)
    then show ?thesis using bb by simp
  next
    case (Inr found)
    show ?thesis
    proof (cases found)
      case None
      then have "e' = snd (on_store (os_get (ev_store env) k) (e\<lparr>en_broker := b\<rparr>))"
        using assms(2) b Inr by (simp add: engine_recover_def abind_def on_broker_def)
      then show ?thesis using bb by simp
    next
      case (Some ord)
      obtain r2 e2 where rec: "engine_record env ord (e\<lparr>en_broker := b\<rparr>) = (r2, e2)" by force
      then have "e' = e2"
        using assms(2) b Inr Some by (cases r2) (simp_all add: engine_recover_def abind_def on_broker_def)
      then show ?thesis using engine_record_placed[OF _ rec] bb by simp
    qed
  qed
qed

lemma close_order_placed:
  assumes inv: "sinv (en_store e)" "binv (en_broker e)"
    and c: "close_order is_uuid env k actor reason e = (res, e')" and cl: "closed_outcome res"
  shows "k \<notin> placed (en_broker e')"
proof -
  obtain b1 where "bo_get_order (ev_broker env) k (en_broker e) = (Inr None, b1)"
    "bo_get_fills (ev_broker env) k b1 = (Inr [], en_broker e')"
    using close_order_store[OF inv(1) c] cl by auto
  then show ?thesis
    using not_found_not_placed[OF inv(2)] get_order_keeps[OF inv(2)] placed_get_fills[of b1 k] by (metis snd_conv)
qed

end

section \<open>The engine over the database, with any broker\<close>

definition db_env ::
  "'b broker_ops \<Rightarrow> (rat \<Rightarrow> rat) \<Rightarrow> (string \<Rightarrow> bool) \<Rightarrow> datetime \<Rightarrow>
     (trade_order \<Rightarrow> fill list \<Rightarrow> (exn, 'o, unit) act) option \<Rightarrow>
     (trade_order \<Rightarrow> exn \<Rightarrow> (exn, 'o, unit) act) option \<Rightarrow> (rat \<Rightarrow> string) \<Rightarrow> (datetime \<Rightarrow> string) \<Rightarrow>
     ('b, order_db, 'o) engine_env"
where
  "db_env bops num is_uuid now recorded never_sent qtext itext =
     \<lparr>ev_broker = bops, ev_store = sql_ops num is_uuid now, ev_on_recorded = recorded,
      ev_on_order_closed = never_sent, ev_now = now, ev_quantity_text = qtext, ev_isoformat = itext\<rparr>"

lemma db_env_simps [simp]:
  "ev_broker (db_env bops num is_uuid now rec cl qt itext) = bops"
  "ev_store (db_env bops num is_uuid now rec cl qt itext) = sql_ops num is_uuid now"
  by (simp_all add: db_env_def)

interpretation dbe: engine_store "db_env bops num is_uuid now rec cl qt itext" sql_status_of sql_fill_ids sql_ok
  for bops num is_uuid now rec cl qt itext
  unfolding engine_store_def db_env_simps by (rule sql.order_store_axioms)

interpretation paper: execution "db_env (sim_ops t) num is_uuid now rec cl qt itext" sql_status_of sql_fill_ids sql_ok
    sim_placed sim_ok for t num is_uuid now rec cl qt itext
  unfolding execution_def db_env_simps
  by (intro conjI dbe.engine_store_axioms) (rule sim_broker_contract)

section \<open>Properties\<close>

text \<open>
  C8. Orders are saved before the venue is asked. Whatever the broker and the database do, if a
  submission touched the broker at all, then the approval belonged to the request and approved it,
  and the order is saved in the database.
\<close>

theorem submission_is_persisted_first:
  assumes "sql_ok (en_store e)"
    "engine_submit (db_env bops num is_uuid now rec cl qt itext) r apr e = (res, e')"
    "en_broker e' \<noteq> en_broker e"
  shows "req_signal_id r = apr_signal_id apr \<and> apr_approved apr \<and>
    sql_status_of (en_store e') (req_client_order_id r) \<noteq> None"
  using dbe.submit_saves_first[OF assms] .

text \<open>
  C9. No order settles without evidence. When a submission gives any order in the database a status it
  did not have, then either that is the pending status of the row this very call made, or the submitted
  order was new or still pending or unknown when the call began, and one of three things happened. The
  order had no row before this call, the pre-submit lookup failed, and the order was canceled without
  being sent (a lookup that fails for an order saved earlier changes nothing, since that order may be
  at the venue). Or the venue's exception carried the order with that status. Or the broker reported the
  order with that status together with fills that cover its filled quantity, and every one of those
  fills is saved.
\<close>

theorem order_settles_only_with_evidence:
  assumes "sql_ok (en_store e)"
    "engine_submit (db_env bops num is_uuid now rec cl qt itext) r apr e = (res, e')"
    "sql_status_of (en_store e') k = Some x" "sql_status_of (en_store e) k \<noteq> Some x"
  shows "(k = req_client_order_id r \<and> sql_status_of (en_store e) k = None \<and> x = PENDING_SUBMIT) \<or>
    settle_reason (sql_status_of (en_store e)) bops (en_broker e) r apr (en_broker e')
      (sql_fill_ids (en_store e')) k x"
  using dbe.submit_change[OF assms] by simp

text \<open>
  A settled order is never sent again: submitting a request whose saved order is neither pending
  nor unknown does not touch the broker or any status, and returns nothing but an order with the saved
  status.
\<close>

theorem settled_order_is_never_resent:
  assumes "sql_ok (en_store e)"
    "engine_submit (db_env bops num is_uuid now rec cl qt itext) r apr e = (res, e')"
    "sql_status_of (en_store e) (req_client_order_id r) = Some x" "\<not> unresolved x"
  shows "en_broker e' = en_broker e \<and> sql_status_of (en_store e') = sql_status_of (en_store e) \<and>
    (\<forall>ord. res = Inr ord \<longrightarrow> ord_status ord = x)"
  using dbe.submit_settled[OF assms] .

text \<open>
  With the simulated broker, a submission puts at most its own order at the venue and removes none.
\<close>

theorem submission_places_only_its_order:
  assumes "sql_ok (en_store e)" "sim_ok (en_broker e)"
    "engine_submit (db_env (sim_ops t) num is_uuid now rec cl qt itext) r apr e = (res, e')"
  shows "sim_placed (en_broker e) \<subseteq> sim_placed (en_broker e') \<and>
    sim_placed (en_broker e') \<subseteq> insert (req_client_order_id r) (sim_placed (en_broker e))"
  using paper.submit_placed[OF assms] by blast

text \<open>
  An order is closed only on proof of absence. \<^verbatim>\<open>OrderCloser.close\<close> reports \<open>CLOSED\<close> only when the
  saved order was pending or unknown and the venue answered both that it has no such order and that it
  has no fill; then exactly that order becomes canceled. Every other outcome, exceptions included,
  leaves every saved status as it was.
\<close>

theorem close_needs_proof_of_absence:
  assumes "sql_ok (en_store e)"
    "close_order is_uuid (db_env bops num is_uuid now rec cl qt itext) k actor reason e = (res, e')"
  shows "if closed_outcome res
     then (\<exists>x. sql_status_of (en_store e) k = Some x \<and> unresolved x) \<and>
       sql_status_of (en_store e') = (sql_status_of (en_store e))(k \<mapsto> CANCELED) \<and>
       (\<exists>b1. bo_get_order bops k (en_broker e) = (Inr None, b1) \<and> bo_get_fills bops k b1 = (Inr [], en_broker e'))
     else sql_status_of (en_store e') = sql_status_of (en_store e)"
  using dbe.close_order_store[OF assms, unfolded db_env_simps] by blast

text \<open>
  A closed order is never resubmitted: after a close that succeeded, submitting any request with that
  client order ID, at any time, leaves the broker untouched and the order canceled.
\<close>

theorem closed_order_is_never_sent:
  assumes "sql_ok (en_store e)"
    "close_order is_uuid (db_env bops num is_uuid now rec cl qt itext) k actor reason e = (out, e1)"
    "closed_outcome out"
    "engine_submit (db_env bops num is_uuid now' rec cl qt itext) r apr e1 = (res, e2)"
    "req_client_order_id r = k"
  shows "en_broker e2 = en_broker e1 \<and> sql_status_of (en_store e2) k = Some CANCELED"
proof -
  have ok: "sql_ok (en_store e1)" and st: "sql_status_of (en_store e1) (req_client_order_id r) = Some CANCELED"
    using dbe.close_order_store[OF assms(1,2)] assms(3,5) by simp_all
  from dbe.submit_settled[OF ok assms(4) st] st assms(5) show ?thesis by simp
qed


section \<open>Witnesses\<close>

text \<open>A venue that counts its calls: in \<open>lookup_down\<close> every lookup fails, in \<open>empty_venue\<close> it has no order.\<close>

definition lookup_down :: "nat broker_ops" where
  "lookup_down = \<lparr>bo_get_quote = \<lambda>_ n. (Inl (ProviderHTTPError 500 [] []), n + 1),
     bo_get_balances = \<lambda>n. (Inl (ProviderHTTPError 500 [] []), n + 1),
     bo_get_positions = \<lambda>n. (Inl (ProviderHTTPError 500 [] []), n + 1),
     bo_submit_order = \<lambda>_ _ n. (Inl (ProviderHTTPError 500 [] []), n + 1),
     bo_get_order = \<lambda>_ n. (Inl (ProviderHTTPError 500 [] []), n + 1),
     bo_get_fills = \<lambda>_ n. (Inl (ProviderHTTPError 500 [] []), n + 1)\<rparr>"

definition empty_venue :: "nat broker_ops" where
  "empty_venue = lookup_down\<lparr>bo_get_order := \<lambda>_ n. (Inr None, n + 1), bo_get_fills := \<lambda>_ n. (Inr [], n + 1)\<rparr>"

abbreviation plain_env :: "'b broker_ops \<Rightarrow> ('b, order_db, unit) engine_env" where
  "plain_env bops \<equiv> db_env bops (\<lambda>x. x) (\<lambda>_. True) 0 None None (\<lambda>_. []) (\<lambda>_. [])"

definition sample_engine :: "order_record list \<Rightarrow> (nat, order_db, unit) engine" where
  "sample_engine rows = \<lparr>en_broker = 0,
     en_store = \<lparr>db_orders = rows, db_fills = [], db_events = [], db_failures = []\<rparr>,
     en_observer = (), en_consecutive_never_sent = 0, en_logged_fills = []\<rparr>"

abbreviation k_request :: order_request where
  "k_request \<equiv> sample_request ''k'' BUY MARKET None"

definition sample_row :: "order_status \<Rightarrow> order_record" where
  "sample_row st = (new_row (\<lambda>x. x) 0 k_request sample_approval)\<lparr>or_status := st\<rparr>"

lemmas engine_run_defs = engine_submit_def engine_lookup_and_send_def close_never_sent_def on_store_def
  on_broker_def abind_def Let_def sql_ops_def sql_reserve_with_created_def sql_close_unreceived_def db_call_def
  row_of_def new_row_def to_order_def mk_request_def valid_request_def set_row_status_def db_env_def

lemma sample_never_sent:
  "\<exists>res e'. engine_submit (plain_env lookup_down) k_request sample_approval (sample_engine []) = (res, e') \<and>
     en_broker e' = 1 \<and> sql_status_of (en_store e') ''k'' = Some CANCELED"
  by (simp add: engine_run_defs sample_engine_def lookup_down_def sample_request_def sample_approval_def
      sql_status_of_def)

lemma sample_db_ok: "sql_ok (en_store (sample_engine []))" "sql_ok (en_store (sample_engine [sample_row st]))"
  by (simp_all add: sample_engine_def sql_ok_def)

lemma sample_db_status:
  "sql_status_of (en_store (sample_engine [])) k = None"
  "sql_status_of (en_store (sample_engine [sample_row st])) ''k'' = Some st"
  by (simp_all add: sample_engine_def sql_status_of_def row_of_def sample_row_def new_row_def sample_request_def)

theorem submission_is_persisted_first_witness:
  "\<exists>res e'. engine_submit (plain_env lookup_down) k_request sample_approval (sample_engine []) = (res, e') \<and>
     en_broker e' \<noteq> en_broker (sample_engine []) \<and>
     apr_approved sample_approval \<and> sql_status_of (en_store e') ''k'' \<noteq> None"
proof -
  obtain res e' where r: "engine_submit (plain_env lookup_down) k_request sample_approval (sample_engine []) = (res, e')"
    "en_broker e' = 1" using sample_never_sent by blast
  have ne: "en_broker e' \<noteq> en_broker (sample_engine [])" using r(2) by (simp add: sample_engine_def)
  from submission_is_persisted_first[OF sample_db_ok(1) r(1) ne] ne r(1) show ?thesis
    by (auto simp: sample_request_def)
qed

theorem order_settles_only_with_evidence_witness:
  "\<exists>res e'. engine_submit (plain_env lookup_down) k_request sample_approval (sample_engine []) = (res, e') \<and>
     settle_reason Map.empty lookup_down 0 k_request sample_approval (en_broker e')
       (sql_fill_ids (en_store e')) ''k'' CANCELED"
proof -
  obtain res e' where r: "engine_submit (plain_env lookup_down) k_request sample_approval (sample_engine []) = (res, e')"
    "sql_status_of (en_store e') ''k'' = Some CANCELED" using sample_never_sent by blast
  have "en_broker (sample_engine []) = 0" "sql_status_of (en_store (sample_engine [])) = Map.empty"
    using sample_db_status(1) by (auto simp: sample_engine_def)
  with order_settles_only_with_evidence[OF sample_db_ok(1) r] r(1) show ?thesis by auto
qed

theorem settled_order_is_never_resent_witness:
  "\<exists>res e'. engine_submit (plain_env empty_venue) k_request sample_approval (sample_engine [sample_row FILLED]) = (res, e') \<and>
     en_broker e' = en_broker (sample_engine [sample_row FILLED])"
proof -
  obtain res e' where r:
    "engine_submit (plain_env empty_venue) k_request sample_approval (sample_engine [sample_row FILLED]) = (res, e')"
    by (rule prod.exhaust)
  have "sql_status_of (en_store (sample_engine [sample_row FILLED])) (req_client_order_id k_request) = Some FILLED"
    using sample_db_status(2) by (simp add: sample_request_def)
  from settled_order_is_never_resent[OF sample_db_ok(2) r this] r show ?thesis by auto
qed

theorem submission_places_only_its_order_witness:
  "\<exists>res e'. engine_submit (plain_env (sim_ops 0)) k_request sample_approval
      \<lparr>en_broker = sample_broker [], en_store = en_store (sample_engine []), en_observer = (),
       en_consecutive_never_sent = 0, en_logged_fills = []\<rparr> = (res, e') \<and>
     sim_placed (en_broker e') \<subseteq> {''k''}"
proof -
  let ?e = "\<lparr>en_broker = sample_broker [], en_store = en_store (sample_engine []), en_observer = (),
       en_consecutive_never_sent = 0, en_logged_fills = []\<rparr>"
  obtain res e' where r: "engine_submit (plain_env (sim_ops 0)) k_request sample_approval ?e = (res, e')"
    by (rule prod.exhaust)
  have ok: "sql_ok (en_store ?e)" "sim_ok (en_broker ?e)"
    using sample_db_ok(1) sim_init_ok[OF sample_broker_init] by simp_all
  have "sim_placed (sample_broker []) = {}" by (simp add: sim_placed_def has_order_def sample_broker_def)
  with submission_places_only_its_order[OF ok r] r show ?thesis by (auto simp: sample_request_def)
qed

lemma sample_close:
  "\<exists>res e'. close_order (\<lambda>_. True) (plain_env empty_venue) ''k'' ''op'' ''why'' (sample_engine [sample_row UNKNOWN]) = (res, e') \<and>
     closed_outcome res"
  by (simp add: close_order_def close_ask_venue_def close_recorded_def engine_run_defs sql_get_def sample_engine_def
      empty_venue_def sample_row_def sample_request_def refused_def)

theorem close_needs_proof_of_absence_witness:
  "\<exists>res e'. close_order (\<lambda>_. True) (plain_env empty_venue) ''k'' ''op'' ''why'' (sample_engine [sample_row UNKNOWN]) = (res, e') \<and>
     sql_status_of (en_store e') = (sql_status_of (en_store (sample_engine [sample_row UNKNOWN])))(''k'' \<mapsto> CANCELED)"
proof -
  obtain res e' where r: "close_order (\<lambda>_. True) (plain_env empty_venue) ''k'' ''op'' ''why'' (sample_engine [sample_row UNKNOWN]) = (res, e')"
    "closed_outcome res" using sample_close by blast
  from close_needs_proof_of_absence[OF sample_db_ok(2) r(1)] r show ?thesis by auto
qed

theorem closed_order_is_never_sent_witness:
  "\<exists>e1 res e2. engine_submit (plain_env empty_venue) k_request sample_approval e1 = (res, e2) \<and>
     en_broker e2 = en_broker e1 \<and> sql_status_of (en_store e2) ''k'' = Some CANCELED"
proof -
  obtain out e1 where c: "close_order (\<lambda>_. True) (plain_env empty_venue) ''k'' ''op'' ''why'' (sample_engine [sample_row UNKNOWN]) = (out, e1)"
    "closed_outcome out" using sample_close by blast
  obtain res e2 where r: "engine_submit (plain_env empty_venue) k_request sample_approval e1 = (res, e2)"
    by (rule prod.exhaust)
  have "req_client_order_id k_request = ''k''" by (simp add: sample_request_def)
  from closed_order_is_never_sent[OF sample_db_ok(2) c r this] r show ?thesis by blast
qed

end
