(* ===== verification/Reconcile.thy ===== *)
theory Reconcile
  imports Ledger KillSwitch Broker
begin

text \<open>
  Broker-authoritative reconciliation: \<^verbatim>\<open>Reconciler.reconcile\<close> (\<^verbatim>\<open>portfolio/reconciliation.py\<close>), the
  description of what differed (\<^verbatim>\<open>portfolio/divergence.py\<close>) and the unattended
  \<^verbatim>\<open>ScheduledReconciler\<close> (\<^verbatim>\<open>portfolio/scheduler.py\<close>). The state \<open>rec_world\<close> holds the broker, the
  kill switch, the portfolio store and the receiver of alerts; each is used through its operations.
  The program's log lines are not modelled (\<^verbatim>\<open>log_discrepancy\<close> runs inside a \<^verbatim>\<open>try\<close> that swallows
  every failure). The order of discrepancies between fills is the iteration order of a Python set,
  which is unspecified; the model uses the order of the dictionary.
\<close>

section \<open>Discrepancies\<close>

datatype entity =
    Absent
  | StatusText string
  | OrderPair string string
  | PositionEntity position
  | BalanceEntity balance
  | FillEntity fill

record discrepancy =
  dis_entity_type :: string
  dis_entity_key :: string
  dis_local :: entity
  dis_broker :: entity

record reconciliation_result =
  rr_authoritative :: portfolio_state
  rr_discrepancies :: "discrepancy list"
  rr_safety_tripped :: bool

definition entity_of :: "('a \<Rightarrow> entity) \<Rightarrow> 'a option \<Rightarrow> entity" where
  "entity_of f x = (case x of None \<Rightarrow> Absent | Some y \<Rightarrow> f y)"

text \<open>\<^verbatim>\<open>sorted(set(a) | set(b))\<close> over the keys of two dictionaries.\<close>

definition union_keys :: "('k::linorder, 'v) dict \<Rightarrow> ('k, 'w) dict \<Rightarrow> 'k list" where
  "union_keys a b = sort (remdups (map fst a @ map fst b))"

definition position_differs :: "position option \<Rightarrow> position option \<Rightarrow> bool" where
  "position_differs l r =
     (case (l, r) of
        (Some lp, Some rp) \<Rightarrow>
          pos_quantity lp \<noteq> pos_quantity rp \<or>
          (case (pos_average_price lp, pos_average_price rp) of
             (Some a, Some b) \<Rightarrow> a \<noteq> b | _ \<Rightarrow> False)
      | _ \<Rightarrow> True)"

definition balance_differs :: "balance option \<Rightarrow> balance option \<Rightarrow> bool" where
  "balance_differs l r =
     (case (l, r) of
        (Some lb, Some rb) \<Rightarrow> bal_available lb \<noteq> bal_available rb \<or> bal_hold lb \<noteq> bal_hold rb
      | _ \<Rightarrow> True)"

definition by_symbol :: "position list \<Rightarrow> (string, position) dict" where
  "by_symbol ps = dict_of (map (\<lambda>p. (pos_symbol p, p)) ps)"

definition by_asset :: "balance list \<Rightarrow> (string, balance) dict" where
  "by_asset bs = dict_of (map (\<lambda>b. (bal_asset b, b)) bs)"

definition position_discrepancies :: "position list \<Rightarrow> position list \<Rightarrow> discrepancy list" where
  "position_discrepancies local remote =
     (let l = by_symbol local; r = by_symbol remote in
      map (\<lambda>k. \<lparr>dis_entity_type = ''position'', dis_entity_key = k,
                dis_local = entity_of PositionEntity (map_of l k),
                dis_broker = entity_of PositionEntity (map_of r k)\<rparr>)
        (filter (\<lambda>k. position_differs (map_of l k) (map_of r k)) (union_keys l r)))"

definition balance_discrepancies :: "balance list \<Rightarrow> balance list \<Rightarrow> discrepancy list" where
  "balance_discrepancies local remote =
     (let l = by_asset local; r = by_asset remote in
      map (\<lambda>k. \<lparr>dis_entity_type = ''balance'', dis_entity_key = k,
                dis_local = entity_of BalanceEntity (map_of l k),
                dis_broker = entity_of BalanceEntity (map_of r k)\<rparr>)
        (filter (\<lambda>k. balance_differs (map_of l k) (map_of r k)) (union_keys l r)))"

definition fill_discrepancies :: "(string, fill) dict \<Rightarrow> (string, fill) dict \<Rightarrow> discrepancy list" where
  "fill_discrepancies local remote =
     map (\<lambda>(k, f). \<lparr>dis_entity_type = ''fill'', dis_entity_key = k, dis_local = FillEntity f, dis_broker = Absent\<rparr>)
       (filter (\<lambda>(k, _). map_of remote k = None) local) @
     map (\<lambda>(k, f). \<lparr>dis_entity_type = ''fill'', dis_entity_key = k, dis_local = Absent, dis_broker = FillEntity f\<rparr>)
       (filter (\<lambda>(k, _). map_of local k = None) remote)"

definition order_discrepancy :: "(rat \<Rightarrow> string) \<Rightarrow> string \<Rightarrow> trade_order \<Rightarrow> trade_order \<Rightarrow> discrepancy list" where
  "order_discrepancy dec_text k lo br =
     (if ord_status br \<noteq> ord_status lo \<or> ord_filled_quantity br \<noteq> ord_filled_quantity lo
      then [\<lparr>dis_entity_type = ''order'', dis_entity_key = k,
             dis_local = OrderPair (status_value (ord_status lo)) (dec_text (ord_filled_quantity lo)),
             dis_broker = OrderPair (status_value (ord_status br)) (dec_text (ord_filled_quantity br))\<rparr>]
      else [])"

section \<open>One reconciliation\<close>

record ('b, 'p, 'a) rec_world =
  rw_broker :: 'b
  rw_kill :: kill_switch
  rw_store :: 'p
  rw_alerts :: 'a

record 'p portfolio_store_ops =
  ps_save_snapshot :: "portfolio_state \<Rightarrow> string \<Rightarrow> (exn, 'p, unit) act"
  ps_save_discrepancy :: "discrepancy \<Rightarrow> string \<Rightarrow> (exn, 'p, unit) act"

record ('b, 'p, 'a) rec_env =
  re_broker :: "'b broker_ops"
  re_kill_env :: "nat \<Rightarrow> ks_env"
  re_store :: "'p portfolio_store_ops option"
  re_alert :: "(discrepancy \<Rightarrow> (exn, 'a, unit) act) option"
  re_dec_text :: "rat \<Rightarrow> string"

definition rw_on_broker :: "(exn, 'b, 'x) act \<Rightarrow> (exn, ('b, 'p, 'a) rec_world, 'x) act" where
  "rw_on_broker m w = (case m (rw_broker w) of (r, b) \<Rightarrow> (r, w\<lparr>rw_broker := b\<rparr>))"

definition rw_on_kill :: "(exn, kill_switch, 'x) act \<Rightarrow> (exn, ('b, 'p, 'a) rec_world, 'x) act" where
  "rw_on_kill m w = (case m (rw_kill w) of (r, k) \<Rightarrow> (r, w\<lparr>rw_kill := k\<rparr>))"

definition rw_on_store :: "(exn, 'p, 'x) act \<Rightarrow> (exn, ('b, 'p, 'a) rec_world, 'x) act" where
  "rw_on_store m w = (case m (rw_store w) of (r, p) \<Rightarrow> (r, w\<lparr>rw_store := p\<rparr>))"

definition rw_on_alerts :: "(exn, 'a, 'x) act \<Rightarrow> (exn, ('b, 'p, 'a) rec_world, 'x) act" where
  "rw_on_alerts m w = (case m (rw_alerts w) of (r, a) \<Rightarrow> (r, w\<lparr>rw_alerts := a\<rparr>))"

text \<open>
  A read whose failure trips the switch and raises \<^verbatim>\<open>ReconciliationUnavailable\<close>; if the trip itself
  raises (the state file cannot be written), that exception propagates instead.
\<close>

definition guarded_read ::
  "('b, 'p, 'a) rec_env \<Rightarrow> nat \<Rightarrow> string \<Rightarrow> string \<Rightarrow> (exn, ('b, 'p, 'a) rec_world, 'x) act \<Rightarrow>
     (exn, ('b, 'p, 'a) rec_world, 'x) act"
where
  "guarded_read env i reason message m w =
     (case m w of
        (Inr x, w') \<Rightarrow> (Inr x, w')
      | (Inl _, w') \<Rightarrow>
          abind (rw_on_kill (ks_trip (re_kill_env env i) reason))
            (\<lambda>_. athrow (ReconciliationUnavailable message)) w')"

fun reconcile_orders ::
  "('b, 'p, 'a) rec_env \<Rightarrow> (string \<times> trade_order) list \<Rightarrow>
     (string, trade_order) dict \<times> (string, fill) dict \<times> discrepancy list \<Rightarrow>
     (exn, ('b, 'p, 'a) rec_world, (string, trade_order) dict \<times> (string, fill) dict \<times> discrepancy list) act"
where
  "reconcile_orders env [] acc w = (Inr acc, w)"
| "reconcile_orders env ((k, lo) # rest) (orders, fills, ds) w =
     abind (guarded_read env 0 ''broker unavailable during order reconciliation''
              ''broker order state could not be read'' (rw_on_broker (bo_get_order (re_broker env) k)))
       (\<lambda>found. case found of
          None \<Rightarrow> reconcile_orders env rest
            (orders, fills, ds @ [\<lparr>dis_entity_type = ''order'', dis_entity_key = k,
               dis_local = StatusText (status_value (ord_status lo)), dis_broker = Absent\<rparr>])
        | Some br \<Rightarrow>
            abind (guarded_read env 0 ''broker unavailable during fill reconciliation''
                     ''broker fill state could not be read'' (rw_on_broker (bo_get_fills (re_broker env) k)))
              (\<lambda>remote. reconcile_orders env rest
                 (AList.update k br orders,
                  foldl (\<lambda>d f. AList.update (fill_fill_id f) f d) fills remote,
                  ds @ order_discrepancy (re_dec_text env) k lo br))) w"

definition report_all :: "('b, 'p, 'a) rec_env \<Rightarrow> discrepancy list \<Rightarrow> (exn, ('b, 'p, 'a) rec_world, unit) act" where
  "report_all env ds =
     aforeach (\<lambda>d. case re_alert env of None \<Rightarrow> aret () | Some alert \<Rightarrow> rw_on_alerts (alert d)) ds"

definition save_all ::
  "('b, 'p, 'a) rec_env \<Rightarrow> portfolio_state \<Rightarrow> discrepancy list \<Rightarrow> (exn, ('b, 'p, 'a) rec_world, unit) act"
where
  "save_all env authoritative ds =
     (case re_store env of
        None \<Rightarrow> aret ()
      | Some ps \<Rightarrow>
          guarded_read env 1 ''portfolio persistence unavailable during reconciliation''
            ''authoritative portfolio state could not be persisted''
            (abind (rw_on_store (ps_save_snapshot ps authoritative ''broker''))
               (\<lambda>_. aforeach (\<lambda>d. rw_on_store (ps_save_discrepancy ps d ''halted'')) ds)))"

definition reconcile_found ::
  "portfolio_state \<Rightarrow> balance list \<Rightarrow> position list \<Rightarrow>
     (string, trade_order) dict \<times> (string, fill) dict \<times> discrepancy list \<Rightarrow> reconciliation_result"
where
  "reconcile_found local balances positions found =
     (case found of (orders, fills, ds) \<Rightarrow>
        let all = ds @ position_discrepancies (pf_positions local) positions @
                  balance_discrepancies (pf_balances local) balances @
                  fill_discrepancies (pf_fills local) fills in
        \<lparr>rr_authoritative = \<lparr>pf_orders = orders, pf_fills = fills, pf_positions = positions, pf_balances = balances\<rparr>,
         rr_discrepancies = all, rr_safety_tripped = (all \<noteq> [])\<rparr>)"

definition reconcile ::
  "('b, 'p, 'a) rec_env \<Rightarrow> portfolio_state \<Rightarrow> (exn, ('b, 'p, 'a) rec_world, reconciliation_result) act"
where
  "reconcile env local =
     abind (guarded_read env 0 ''broker unavailable during reconciliation'' ''broker state could not be read''
              (abind (rw_on_broker (bo_get_balances (re_broker env)))
                 (\<lambda>bs. abind (rw_on_broker (bo_get_positions (re_broker env))) (\<lambda>ps. aret (bs, ps)))))
       (\<lambda>(balances, positions).
     abind (reconcile_orders env (pf_orders local) ([], [], [])) (\<lambda>found.
       let result = reconcile_found local balances positions found in
     abind (report_all env (rr_discrepancies result)) (\<lambda>_.
     abind (if rr_discrepancies result \<noteq> []
            then rw_on_kill (ks_trip (re_kill_env env 0) ''broker-authoritative reconciliation divergence'')
            else aret ()) (\<lambda>_.
     abind (save_all env (rr_authoritative result) (rr_discrepancies result)) (\<lambda>_. aret result)))))"

section \<open>What differed\<close>

record field_change =
  fc_field :: string
  fc_local :: string
  fc_broker :: string
  fc_delta :: "rat option"

text \<open>
  \<^verbatim>\<open>field_changes\<close>, on the entities the reconciler records. \<open>dec_text\<close> is \<^verbatim>\<open>str\<close> of a decimal and
  \<open>dec_value\<close> the constructor \<^verbatim>\<open>Decimal\<close> on a text (\<open>None\<close> is \<^verbatim>\<open>InvalidOperation\<close>). A delta is the
  broker's number minus the local one.
\<close>

fun render_entity :: "(rat \<Rightarrow> string) \<Rightarrow> entity \<Rightarrow> string" where
  "render_entity dec_text Absent = ''absent''"
| "render_entity dec_text (StatusText v) = v"
| "render_entity dec_text (OrderPair st qty) = ''('' @ [CHR 0x27] @ st @ [CHR 0x27] @ '', '' @ [CHR 0x27] @ qty @ [CHR 0x27] @ '')''"
| "render_entity dec_text (PositionEntity p) =
     ''quantity='' @ dec_text (pos_quantity p) @
     '' average_price='' @ (case pos_average_price p of None \<Rightarrow> ''None'' | Some a \<Rightarrow> dec_text a)"
| "render_entity dec_text (BalanceEntity b) =
     ''available='' @ dec_text (bal_available b) @ '' hold='' @ dec_text (bal_hold b)"
| "render_entity dec_text (FillEntity f) =
     ''quantity='' @ dec_text (fill_quantity f) @ '' price='' @ dec_text (fill_price f) @ '' fee='' @ dec_text (fill_fee f)"

definition compared_number :: "(rat \<Rightarrow> string) \<Rightarrow> string \<Rightarrow> rat option \<Rightarrow> rat option \<Rightarrow> field_change list" where
  "compared_number dec_text field l b =
     (case (l, b) of
        (Some x, Some y) \<Rightarrow>
          if x = y then []
          else [\<lparr>fc_field = field, fc_local = dec_text x, fc_broker = dec_text y, fc_delta = Some (dsub y x)\<rparr>]
      | _ \<Rightarrow> [])"

definition compared_text :: "(string \<Rightarrow> rat option) \<Rightarrow> string \<Rightarrow> string \<Rightarrow> string \<Rightarrow> field_change list" where
  "compared_text dec_value field l b =
     (if l = b then []
      else [\<lparr>fc_field = field, fc_local = l, fc_broker = b,
             fc_delta = (case (dec_value l, dec_value b) of (Some x, Some y) \<Rightarrow> Some (dsub y x) | _ \<Rightarrow> None)\<rparr>])"

fun entity_changes :: "(rat \<Rightarrow> string) \<Rightarrow> (string \<Rightarrow> rat option) \<Rightarrow> entity \<Rightarrow> entity \<Rightarrow> field_change list" where
  "entity_changes dec_text dec_value (OrderPair ls lq) (OrderPair bs bq) =
     compared_text dec_value ''status'' ls bs @ compared_text dec_value ''filled_quantity'' lq bq"
| "entity_changes dec_text dec_value (PositionEntity l) (PositionEntity b) =
     compared_number dec_text ''quantity'' (Some (pos_quantity l)) (Some (pos_quantity b)) @
     compared_number dec_text ''average_price'' (pos_average_price l) (pos_average_price b)"
| "entity_changes dec_text dec_value (BalanceEntity l) (BalanceEntity b) =
     compared_number dec_text ''available'' (Some (bal_available l)) (Some (bal_available b)) @
     compared_number dec_text ''hold'' (Some (bal_hold l)) (Some (bal_hold b))"
| "entity_changes dec_text dec_value _ _ = []"

definition field_changes ::
  "(rat \<Rightarrow> string) \<Rightarrow> (string \<Rightarrow> rat option) \<Rightarrow> discrepancy \<Rightarrow> field_change list"
where
  "field_changes dec_text dec_value d =
     (let l = dis_local d; b = dis_broker d;
          whole = (\<lambda>field. \<lparr>fc_field = field, fc_local = render_entity dec_text l,
                            fc_broker = render_entity dec_text b, fc_delta = None\<rparr>) in
      if l = Absent \<or> b = Absent then [whole ''presence'']
      else let changes = entity_changes dec_text dec_value l b in
        if changes = [] then [whole ''value''] else changes)"

section \<open>The scheduled reconciler\<close>

record reconciliation_status =
  rs_started_at :: datetime
  rs_runs :: nat
  rs_clean_runs :: nat
  rs_diverged_runs :: nat
  rs_unavailable_runs :: nat
  rs_last_run_at :: "datetime option"
  rs_last_result :: string
  rs_last_discrepancies :: nat

record ('b, 'p, 'a) scheduler =
  sc_world :: "('b, 'p, 'a) rec_world"
  sc_baseline :: portfolio_state
  sc_fills :: "(string, fill) dict"
  sc_orders :: "(string, trade_order) dict"
  sc_applied :: "string set"
  sc_increments :: amounts
  sc_status :: reconciliation_status

record ('b, 'p, 'a) sched_env =
  se_rec :: "('b, 'p, 'a) rec_env"
  se_refresh_order :: "(string \<Rightarrow> (exn, ('b, 'p, 'a) scheduler, unit) act) option"
  se_on_divergence :: "(discrepancy list \<Rightarrow> (exn, 'a, unit) act) option"
  se_on_unavailable :: "(string \<Rightarrow> (exn, 'a, unit) act) option"
  se_on_reconciled :: "(portfolio_state \<Rightarrow> (exn, 'a, unit) act) option"
  se_now :: datetime

definition on_world ::
  "(exn, ('b, 'p, 'a) rec_world, 'x) act \<Rightarrow> (exn, ('b, 'p, 'a) scheduler, 'x) act"
where
  "on_world m s = (case m (sc_world s) of (r, w) \<Rightarrow> (r, s\<lparr>sc_world := w\<rparr>))"

definition holdings_only :: "portfolio_state \<Rightarrow> portfolio_state" where
  "holdings_only p = \<lparr>pf_orders = [], pf_fills = [], pf_positions = pf_positions p, pf_balances = pf_balances p\<rparr>"

definition needs_refresh :: "(string, fill) dict \<Rightarrow> string \<Rightarrow> trade_order \<Rightarrow> bool" where
  "needs_refresh fills k ord =
     (if \<not> terminal (ord_status ord) then True
      else if ord_status ord \<noteq> FILLED then False
      else dsum (map fill_quantity (filter (\<lambda>f. fill_order_id f \<in> {k, ord_order_id ord}) (map snd fills)))
             < ord_filled_quantity ord)"

definition scheduler_init ::
  "('b, 'p, 'a) rec_world \<Rightarrow> portfolio_state \<Rightarrow> rat \<Rightarrow> amounts \<Rightarrow> datetime \<Rightarrow> exn + ('b, 'p, 'a) scheduler"
where
  "scheduler_init w baseline interval_seconds increments now =
     (if interval_seconds \<le> 0 then Inl (ValueError ''reconciliation interval must be positive'')
      else Inr \<lparr>sc_world = w, sc_baseline = holdings_only baseline, sc_fills = pf_fills baseline,
        sc_orders = filter (\<lambda>(k, ord). needs_refresh (pf_fills baseline) k ord) (pf_orders baseline),
        sc_applied = fst ` set (pf_fills baseline), sc_increments = increments,
        sc_status = \<lparr>rs_started_at = now, rs_runs = 0, rs_clean_runs = 0, rs_diverged_runs = 0,
          rs_unavailable_runs = 0, rs_last_run_at = None, rs_last_result = ''not_run'',
          rs_last_discrepancies = 0\<rparr>\<rparr>)"

definition sched_observe :: "trade_order \<Rightarrow> fill list \<Rightarrow> ('b, 'p, 'a) scheduler \<Rightarrow> ('b, 'p, 'a) scheduler" where
  "sched_observe ord fills s =
     s\<lparr>sc_orders := AList.update (req_client_order_id (ord_request ord)) ord (sc_orders s),
       sc_fills := foldl (\<lambda>d f. AList.update (fill_fill_id f) f d) (sc_fills s) fills\<rparr>"

definition forget_order :: "string \<Rightarrow> ('b, 'p, 'a) scheduler \<Rightarrow> ('b, 'p, 'a) scheduler" where
  "forget_order k s = s\<lparr>sc_orders := AList.delete k (sc_orders s)\<rparr>"

definition expected_state :: "datetime \<Rightarrow> ('b, 'p, 'a) scheduler \<Rightarrow> exn + portfolio_state" where
  "expected_state now s =
     (let new_fills = map snd (filter (\<lambda>(k, _). k \<notin> sc_applied s) (sc_fills s)) in
      rbind (apply_fills now (sc_increments s) (sc_baseline s) new_fills)
        (\<lambda>projected. Inr \<lparr>pf_orders = sc_orders s, pf_fills = sc_fills s,
           pf_positions = pf_positions projected, pf_balances = pf_balances projected\<rparr>))"

text \<open>\<^verbatim>\<open>_read_order\<close>, the refresh used when none is configured.\<close>

definition read_order :: "('b, 'p, 'a) sched_env \<Rightarrow> string \<Rightarrow> (exn, ('b, 'p, 'a) scheduler, unit) act" where
  "read_order env k =
     (let bops = re_broker (se_rec env) in
      abind (on_world (rw_on_broker (bo_get_order bops k))) (\<lambda>found.
        case found of
          None \<Rightarrow> aret ()
        | Some ord \<Rightarrow>
            abind (on_world (rw_on_broker (bo_get_fills bops k)))
              (\<lambda>fills s. (Inr (), sched_observe ord fills s))))"

definition refresh_tracked_orders ::
  "('b, 'p, 'a) sched_env \<Rightarrow> (exn, ('b, 'p, 'a) scheduler, unit) act"
where
  "refresh_tracked_orders env s =
     aforeach (\<lambda>(k, ord) t.
         if needs_refresh (sc_fills t) k ord
         then case_option (read_order env) id (se_refresh_order env) k t else (Inr (), t))
       (sc_orders s) s"

definition adopt :: "reconciliation_result \<Rightarrow> portfolio_state \<Rightarrow> ('b, 'p, 'a) scheduler \<Rightarrow> ('b, 'p, 'a) scheduler" where
  "adopt result local s =
     (let auth = rr_authoritative result;
          open_orders = filter (\<lambda>(k, ord). \<not> terminal (ord_status ord)) (pf_orders auth);
          open_ids = fst ` set open_orders \<union> (\<lambda>(k, ord). ord_order_id ord) ` set open_orders in
      s\<lparr>sc_baseline := holdings_only auth,
        sc_applied := sc_applied s \<union> fst ` set (pf_fills local) \<union> fst ` set (pf_fills auth),
        sc_orders := open_orders,
        sc_fills := filter (\<lambda>(k, f). fill_order_id f \<in> open_ids) (pf_fills auth)\<rparr>)"

definition sched_trip :: "('b, 'p, 'a) sched_env \<Rightarrow> string \<Rightarrow> (exn, ('b, 'p, 'a) scheduler, unit) act" where
  "sched_trip env reason = on_world (rw_on_kill (ks_trip (re_kill_env (se_rec env) 2) reason))"

text \<open>\<^verbatim>\<open>_compare\<close>: a text says why the run was unavailable.\<close>

definition sched_reconcile ::
  "('b, 'p, 'a) sched_env \<Rightarrow> portfolio_state \<Rightarrow> (exn, ('b, 'p, 'a) scheduler, string + reconciliation_result) act"
where
  "sched_reconcile env local s =
     (case on_world (reconcile (se_rec env) local) s of
        (Inl (ReconciliationUnavailable message), s') \<Rightarrow> (Inr (Inl message), s')
      | (Inl exc, s') \<Rightarrow> (Inl exc, s')
      | (Inr result, s') \<Rightarrow> (Inr (Inr result), adopt result local s'))"

definition sched_compare ::
  "('b, 'p, 'a) sched_env \<Rightarrow> (exn, ('b, 'p, 'a) scheduler, string + reconciliation_result) act"
where
  "sched_compare env s =
     (case refresh_tracked_orders env s of
        (Inl _, s1) \<Rightarrow>
          abind (sched_trip env ''open orders could not be refreshed'')
            (\<lambda>_. aret (Inl ''open orders could not be refreshed'')) s1
      | (Inr _, s1) \<Rightarrow>
          (case expected_state (se_now env) s1 of
             Inl exc \<Rightarrow>
               if is_value_error exc
               then abind (sched_trip env ''expected portfolio could not be projected'')
                      (\<lambda>_. aret (Inl ''expected portfolio could not be projected'')) s1
               else (Inl exc, s1)
           | Inr local \<Rightarrow> sched_reconcile env local s1))"

definition sched_hook ::
  "('x \<Rightarrow> (exn, 'a, unit) act) option \<Rightarrow> 'x \<Rightarrow> (exn, ('b, 'p, 'a) scheduler, unit) act"
where
  "sched_hook hook x =
     (case hook of None \<Rightarrow> aret () | Some h \<Rightarrow> on_world (rw_on_alerts (h x)))"

definition sched_unavailable :: "('b, 'p, 'a) sched_env \<Rightarrow> string \<Rightarrow> (exn, ('b, 'p, 'a) scheduler, unit) act" where
  "sched_unavailable env detail s =
     (let st = sc_status s in
      sched_hook (se_on_unavailable env) detail
        (s\<lparr>sc_status := st\<lparr>rs_runs := rs_runs st + 1, rs_unavailable_runs := rs_unavailable_runs st + 1,
           rs_last_run_at := Some (se_now env), rs_last_result := ''unavailable'',
           rs_last_discrepancies := 0\<rparr>\<rparr>))"

definition sched_report :: "('b, 'p, 'a) sched_env \<Rightarrow> reconciliation_result \<Rightarrow> (exn, ('b, 'p, 'a) scheduler, unit) act" where
  "sched_report env result s =
     (let st = sc_status s; diverged = (rr_discrepancies result \<noteq> []);
          s1 = s\<lparr>sc_status := st\<lparr>rs_runs := rs_runs st + 1,
             rs_clean_runs := rs_clean_runs st + (if diverged then 0 else 1),
             rs_diverged_runs := rs_diverged_runs st + (if diverged then 1 else 0),
             rs_last_run_at := Some (se_now env),
             rs_last_result := if diverged then ''diverged'' else ''clean'',
             rs_last_discrepancies := length (rr_discrepancies result)\<rparr>\<rparr> in
      if diverged then sched_hook (se_on_divergence env) (rr_discrepancies result) s1 else (Inr (), s1))"

definition run_once ::
  "('b, 'p, 'a) sched_env \<Rightarrow> (exn, ('b, 'p, 'a) scheduler, reconciliation_result option) act"
where
  "run_once env =
     abind (sched_compare env) (\<lambda>outcome.
       case outcome of
         Inl detail \<Rightarrow> abind (sched_unavailable env detail) (\<lambda>_. aret None)
       | Inr result \<Rightarrow>
           abind (sched_report env result) (\<lambda>_ s.
             (Inr (Some result),
              snd (sched_hook (se_on_reconciled env) (rr_authoritative result) s))))"

text \<open>One turn of \<^verbatim>\<open>run\<close>, when the interval has passed: an unexpected failure halts trading.\<close>

definition run_tick :: "('b, 'p, 'a) sched_env \<Rightarrow> (exn, ('b, 'p, 'a) scheduler, unit) act" where
  "run_tick env s =
     (case run_once env s of
        (Inl _, s') \<Rightarrow> sched_trip env ''scheduled reconciliation failed'' s'
      | (Inr _, s') \<Rightarrow> (Inr (), s'))"

section \<open>When a discrepancy is found\<close>

lemma set_union_keys: "set (union_keys a b) = fst ` set a \<union> fst ` set b"
  by (simp add: union_keys_def)

text \<open>The entry of a dictionary keyed by a field of its values.\<close>

lemma by_symbol_keys: "fst ` set (by_symbol ps) = pos_symbol ` set ps"
  by (simp add: by_symbol_def keys_dict_of image_image)

lemma by_asset_keys: "fst ` set (by_asset bs) = bal_asset ` set bs"
  by (simp add: by_asset_def keys_dict_of image_image)

lemma position_discrepancies_Nil:
  "position_discrepancies l r = [] \<longleftrightarrow>
     (\<forall>k \<in> pos_symbol ` set l \<union> pos_symbol ` set r. \<not> position_differs (map_of (by_symbol l) k) (map_of (by_symbol r) k))"
  by (simp only: position_discrepancies_def Let_def map_is_Nil_conv filter_empty_conv set_union_keys by_symbol_keys)

lemma balance_discrepancies_Nil:
  "balance_discrepancies l r = [] \<longleftrightarrow>
     (\<forall>k \<in> bal_asset ` set l \<union> bal_asset ` set r. \<not> balance_differs (map_of (by_asset l) k) (map_of (by_asset r) k))"
  by (simp only: balance_discrepancies_def Let_def map_is_Nil_conv filter_empty_conv set_union_keys by_asset_keys)

lemma fill_discrepancies_Nil:
  "fill_discrepancies l r = [] \<longleftrightarrow> fst ` set l = fst ` set r"
proof -
  have "fill_discrepancies l r = [] \<longleftrightarrow>
      (\<forall>x \<in> set l. fst x \<in> fst ` set r) \<and> (\<forall>x \<in> set r. fst x \<in> fst ` set l)"
    by (simp add: fill_discrepancies_def filter_empty_conv map_of_eq_None_iff case_prod_beta)
  then show ?thesis by blast
qed

lemma order_discrepancy_Nil:
  "order_discrepancy dt k lo br = [] \<longleftrightarrow>
     ord_status br = ord_status lo \<and> ord_filled_quantity br = ord_filled_quantity lo"
  by (simp add: order_discrepancy_def)

text \<open>What the broker must have answered for a local order to be in agreement.\<close>

definition order_agrees :: "(string, trade_order) dict \<Rightarrow> string \<Rightarrow> trade_order \<Rightarrow> bool" where
  "order_agrees remote k lo = (case map_of remote k of
      None \<Rightarrow> False
    | Some br \<Rightarrow> ord_status br = ord_status lo \<and> ord_filled_quantity br = ord_filled_quantity lo)"

lemma guarded_read_InrD:
  "guarded_read env i reason msg m w = (Inr x, w') \<Longrightarrow> m w = (Inr x, w')"
  by (auto simp: guarded_read_def abind_def split: sum.splits prod.splits)

lemma reconcile_orders_ConsE:
  assumes "reconcile_orders env ((k, lo) # rest) (orders, fills, ds) w = (Inr found, w')"
  obtains (missing) d w1 where
      "reconcile_orders env rest (orders, fills, ds @ [d]) w1 = (Inr found, w')"
  | (known) br fills' w1 where
      "reconcile_orders env rest
         (AList.update k br orders, fills', ds @ order_discrepancy (re_dec_text env) k lo br) w1 = (Inr found, w')"
  using assms by (auto simp: abind_def split: sum.splits prod.splits option.splits)

text \<open>A key the rest of the loop does not visit keeps the order that was found for it.\<close>

lemma reconcile_orders_keeps:
  assumes "reconcile_orders env los (ord0, fl0, ds0) w = (Inr (orders, fills, ds), w')" "k \<notin> fst ` set los"
  shows "map_of orders k = map_of ord0 k"
  using assms
proof (induction los arbitrary: ord0 fl0 ds0 w)
  case (Cons lo rest)
  obtain k' l where lo: "lo = (k', l)" by force
  from Cons.prems(1)[unfolded lo] show ?case
  proof (cases rule: reconcile_orders_ConsE)
    case (missing d w1)
    then show ?thesis using Cons by auto
  next
    case (known br fills' w1)
    then show ?thesis using Cons.IH[OF known] Cons.prems(2) lo by auto
  qed
qed simp

lemma reconcile_orders_clean:
  assumes "reconcile_orders env los (ord0, fl0, ds0) w = (Inr (orders, fills, ds), w')"
    and "distinct_keys los" "fst ` set los \<inter> fst ` set ord0 = {}"
  shows "ds = [] \<longleftrightarrow> ds0 = [] \<and> (\<forall>(k, lo) \<in> set los. order_agrees orders k lo)"
  using assms
proof (induction los arbitrary: ord0 fl0 ds0 w)
  case (Cons x rest)
  obtain k lo where x: "x = (k, lo)" by force
  have fresh: "k \<notin> fst ` set rest" "k \<notin> fst ` set ord0" "distinct_keys rest"
      "fst ` set rest \<inter> fst ` set ord0 = {}"
    using Cons.prems(2,3) by (auto simp: x)
  from Cons.prems(1)[unfolded x] show ?case
  proof (cases rule: reconcile_orders_ConsE)
    case (missing d w1)
    have "map_of orders k = None"
      using reconcile_orders_keeps[OF missing fresh(1)] fresh(2) by (simp add: map_of_eq_None_iff)
    moreover have "ds \<noteq> []" using Cons.IH[OF missing fresh(3,4)] by simp
    ultimately show ?thesis by (simp add: x order_agrees_def)
  next
    case (known br fills' w1)
    have "map_of orders k = Some br" using reconcile_orders_keeps[OF known fresh(1)] by simp
    moreover have "fst ` set rest \<inter> fst ` set (AList.update k br ord0) = {}"
      using fresh(1,4) by (auto simp: keys_update)
    ultimately show ?thesis
      using Cons.IH[OF known fresh(3)] by (auto simp: x order_agrees_def order_discrepancy_Nil)
  qed
qed simp

lemma reconcile_InrE:
  assumes "reconcile env local w = (Inr result, w')"
  obtains balances positions found w1 w2 where
    "reconcile_orders env (pf_orders local) ([], [], []) w1 = (Inr found, w2)"
    "result = reconcile_found local balances positions found"
  using assms by (auto simp: reconcile_def abind_def Let_def split: sum.splits prod.splits)

text \<open>What agreement of two positions and of two balances means, without the code's case analysis.\<close>

definition same_position :: "position option \<Rightarrow> position option \<Rightarrow> bool" where
  "same_position l r \<longleftrightarrow> (\<exists>a b. l = Some a \<and> r = Some b \<and> pos_quantity a = pos_quantity b \<and>
     (\<forall>p q. pos_average_price a = Some p \<longrightarrow> pos_average_price b = Some q \<longrightarrow> p = q))"

definition same_balance :: "balance option \<Rightarrow> balance option \<Rightarrow> bool" where
  "same_balance l r \<longleftrightarrow> (\<exists>a b. l = Some a \<and> r = Some b \<and>
     bal_available a = bal_available b \<and> bal_hold a = bal_hold b)"

lemma same_position_iff: "same_position l r \<longleftrightarrow> \<not> position_differs l r"
  by (auto simp: same_position_def position_differs_def split: option.splits)

lemma same_balance_iff: "same_balance l r \<longleftrightarrow> \<not> balance_differs l r"
  by (auto simp: same_balance_def balance_differs_def split: option.splits)

text \<open>
  C24. A reconciliation that returns reports no discrepancy exactly when the two sides agree: every
  local order was found at the broker with the same status and the same filled quantity, every
  position has the same quantity and no contradicting price, every balance the same available amount
  and hold, and the two sides know the same fills; and it says that the safety
  response was taken exactly when it reports one.
\<close>

theorem reconcile_clean_iff_sides_agree:
  assumes "reconcile env local w = (Inr result, w')" and "distinct_keys (pf_orders local)"
  shows "(rr_discrepancies result = [] \<longleftrightarrow>
      (\<forall>(k, lo) \<in> set (pf_orders local). order_agrees (pf_orders (rr_authoritative result)) k lo) \<and>
      (\<forall>k \<in> pos_symbol ` set (pf_positions local) \<union> pos_symbol ` set (pf_positions (rr_authoritative result)).
         same_position (map_of (by_symbol (pf_positions local)) k)
             (map_of (by_symbol (pf_positions (rr_authoritative result))) k)) \<and>
      (\<forall>k \<in> bal_asset ` set (pf_balances local) \<union> bal_asset ` set (pf_balances (rr_authoritative result)).
         same_balance (map_of (by_asset (pf_balances local)) k)
             (map_of (by_asset (pf_balances (rr_authoritative result))) k)) \<and>
      fst ` set (pf_fills local) = fst ` set (pf_fills (rr_authoritative result))) \<and>
    (rr_safety_tripped result \<longleftrightarrow> rr_discrepancies result \<noteq> [])"
proof -
  obtain balances positions found w1 w2 where
    loop: "reconcile_orders env (pf_orders local) ([], [], []) w1 = (Inr found, w2)" and
    result: "result = reconcile_found local balances positions found"
    using assms(1) by (rule reconcile_InrE)
  obtain orders fills ds where found: "found = (orders, fills, ds)" by (cases found)
  have "ds = [] \<longleftrightarrow> (\<forall>(k, lo) \<in> set (pf_orders local). order_agrees orders k lo)"
    using reconcile_orders_clean[OF loop[unfolded found] assms(2)] by simp
  then show ?thesis
    by (simp only: result found reconcile_found_def Let_def prod.case append_is_Nil_conv
        position_discrepancies_Nil balance_discrepancies_Nil fill_discrepancies_Nil same_position_iff same_balance_iff
        reconciliation_result.simps portfolio_state.simps not_False_eq_True simp_thms)
qed

section \<open>A reconciliation is clean or halts trading\<close>

abbreviation rw_halted :: "('b, 'p, 'a) rec_world \<Rightarrow> bool" where
  "rw_halted w \<equiv> ks_state (rw_kill w) = HALTED"

text \<open>Every operation outside the kill switch leaves it as it was, whether it returns or raises.\<close>

lemma rw_kill_frame:
  "triple (\<lambda>w. J (rw_kill w)) (rw_on_broker m) (\<lambda>_ w. J (rw_kill w)) (\<lambda>_ w. J (rw_kill w))"
  "triple (\<lambda>w. J (rw_kill w)) (rw_on_store n) (\<lambda>_ w. J (rw_kill w)) (\<lambda>_ w. J (rw_kill w))"
  "triple (\<lambda>w. J (rw_kill w)) (rw_on_alerts q) (\<lambda>_ w. J (rw_kill w)) (\<lambda>_ w. J (rw_kill w))"
  by (rule triple_snd, simp add: rw_on_broker_def rw_on_store_def rw_on_alerts_def split_beta)+

lemma rw_trip_halts: "triple P (rw_on_kill (ks_trip e reason)) (\<lambda>_. rw_halted) (\<lambda>_. rw_halted)"
  by (rule triple_snd) (simp add: rw_on_kill_def split_beta trip_state)

lemma guarded_read_halts:
  fixes m :: "(exn, ('b, 'p, 'a) rec_world, 'x) act"
  assumes "triple P m (\<lambda>_. P) E"
  shows "triple P (guarded_read env i reason msg m) (\<lambda>_. P) (\<lambda>_. rw_halted)"
proof (rule tripleI)
  fix s x t
  assume "P s" and ret: "guarded_read env i reason msg m s = (Inr x, t)"
  from triple_returns[OF assms \<open>P s\<close> guarded_read_InrD[OF ret]] show "P t" .
next
  fix s e t
  assume *: "guarded_read env i reason msg m s = (Inl e, t)"
  have "triple (\<lambda>_. True) (abind (rw_on_kill (ks_trip (re_kill_env env i) reason))
            (\<lambda>_. athrow (ReconciliationUnavailable msg)) :: (exn, ('b, 'p, 'a) rec_world, 'x) act)
          (\<lambda>_. rw_halted) (\<lambda>_. rw_halted)" (is "triple _ ?raise _ _")
    by (rule triple_abind, rule rw_trip_halts) (rule triple_athrow)
  moreover have "\<exists>u. ?raise u = (Inl e, t)"
    using * by (auto simp: guarded_read_def split: prod.splits sum.splits)
  ultimately show "rw_halted t" by (auto elim: triple_raises)
qed

lemma reconcile_orders_halts:
  "triple (\<lambda>w. J (rw_kill w)) (reconcile_orders env los acc) (\<lambda>_ w. J (rw_kill w)) (\<lambda>_. rw_halted)"
proof (induction los arbitrary: acc)
  case Nil
  then show ?case by (simp add: triple_def)
next
  case (Cons x rest)
  obtain k lo where x: "x = (k, lo)" by force
  obtain orders fills ds where acc: "acc = (orders, fills, ds)" by (cases acc)
  note read = guarded_read_halts[OF rw_kill_frame(1)]
  have *: "triple (\<lambda>w. J (rw_kill w)) (\<lambda>w. abind m f w) (\<lambda>_ w. J (rw_kill w)) (\<lambda>_. rw_halted)"
    if "triple (\<lambda>w. J (rw_kill w)) m (\<lambda>_ w. J (rw_kill w)) (\<lambda>_. rw_halted)"
      "\<And>y. triple (\<lambda>w. J (rw_kill w)) (f y) (\<lambda>_ w. J (rw_kill w)) (\<lambda>_. rw_halted)" for m f
    using that by (rule triple_abind)
  show ?case
    unfolding x acc reconcile_orders.simps
    by (rule *, rule read) (auto split: option.split intro!: * read Cons.IH)
qed

text \<open>The exceptions the receiver of alerts may raise.\<close>

definition alert_raises :: "(exn \<Rightarrow> bool) \<Rightarrow> ('b, 'p, 'a) rec_env \<Rightarrow> bool" where
  "alert_raises R env \<longleftrightarrow>
     (\<forall>alert d a e. re_alert env = Some alert \<longrightarrow> fst (alert d a) = Inl e \<longrightarrow> R e)"

lemma report_all_frame:
  assumes "alert_raises R env"
  shows "triple (\<lambda>w. J (rw_kill w)) (report_all env ds) (\<lambda>_ w. J (rw_kill w)) (\<lambda>e _. R e)"
  unfolding report_all_def
proof (rule triple_aforeach)
  fix d
  show "triple (\<lambda>w. J (rw_kill w)) (case re_alert env of None \<Rightarrow> aret () | Some alert \<Rightarrow> rw_on_alerts (alert d))
     (\<lambda>_ w. J (rw_kill w)) (\<lambda>e _. R e)"
  proof (cases "re_alert env")
    case (Some alert)
    then have "fst (alert d a) = Inl e \<Longrightarrow> R e" for a e using assms by (auto simp: alert_raises_def)
    then show ?thesis by (simp add: Some triple_def rw_on_alerts_def split_beta split: sum.split)
  qed (simp add: triple_aret)
qed

lemma save_all_halts:
  "triple (\<lambda>w. J (rw_kill w)) (save_all env auth ds) (\<lambda>_ w. J (rw_kill w)) (\<lambda>_. rw_halted)"
proof (cases "re_store env")
  case (Some ps)
  have "triple (\<lambda>w. J (rw_kill w))
      (abind (rw_on_store (ps_save_snapshot ps auth ''broker''))
         (\<lambda>_. aforeach (\<lambda>d. rw_on_store (ps_save_discrepancy ps d ''halted'')) ds))
      (\<lambda>_ w. J (rw_kill w)) (\<lambda>_ w. J (rw_kill w))"
    by (rule triple_abind, rule rw_kill_frame(2)) (rule triple_aforeach, rule rw_kill_frame(2))
  then show ?thesis unfolding save_all_def Some option.case by (rule guarded_read_halts)
qed (simp add: save_all_def triple_aret)

text \<open>What a run leaves of the switch: untouched when nothing differed, halted otherwise.\<close>

lemma reconcile_halts:
  assumes "alert_raises R env"
  shows "triple (\<lambda>w. rw_kill w = k) (reconcile env local)
     (\<lambda>result w. if rr_discrepancies result = [] then rw_kill w = k else rw_halted w)
     (\<lambda>e w. R e \<or> rw_halted w)"
proof -
  have read: "triple (\<lambda>w. rw_kill w = k)
      (abind (rw_on_broker (bo_get_balances (re_broker env)))
         (\<lambda>bs. abind (rw_on_broker (bo_get_positions (re_broker env))) (\<lambda>ps. aret (bs, ps))))
      (\<lambda>_ w. rw_kill w = k) (\<lambda>_ w. rw_kill w = k)"
    by (intro triple_abind[where R = "\<lambda>_ w. rw_kill w = k"] rw_kill_frame triple_aret)
  have trip: "triple (\<lambda>w. rw_kill w = k)
      (if ds \<noteq> [] then rw_on_kill (ks_trip e reason) else aret ())
      (\<lambda>_ w. if ds = [] then rw_kill w = k else rw_halted w) (\<lambda>_. rw_halted)" for ds e reason
    by (rule triple_if) (auto intro: triple_weaken[OF rw_trip_halts] triple_aret)
  have halts: "triple P m Q (\<lambda>e w. R e \<or> rw_halted w)" if "triple P m Q (\<lambda>_. rw_halted)" for P Q m
    by (rule triple_weaken[OF that]) auto
  have raises: "triple P m Q (\<lambda>e w. R e \<or> rw_halted w)" if "triple P m Q (\<lambda>e _. R e)" for P Q m
    by (rule triple_weaken[OF that]) auto
  show ?thesis
    unfolding reconcile_def
    apply (rule triple_abind, rule halts, rule guarded_read_halts, rule read)
    apply (simp only: split_beta)
    apply (rule triple_abind, rule halts, rule reconcile_orders_halts)
    apply (simp only: Let_def)
    apply (rule triple_abind, rule raises, rule report_all_frame[OF assms])
    apply (rule triple_abind, rule halts, rule trip)
    apply (rule triple_abind, rule halts, rule save_all_halts)
    apply (rule triple_aret, assumption)
    done
qed

text \<open>
  When the receiver of alerts does not raise, a reconciliation either returns with no
  discrepancy and leaves the kill switch as it was, or leaves it HALTED: after a divergence, after a
  broker read that failed and after a snapshot that could not be saved.
\<close>

theorem reconcile_clean_or_halted:
  assumes "alert_raises (\<lambda>_. False) env" and "reconcile env local w = (r, w')"
  shows "(\<exists>result. r = Inr result \<and> rr_discrepancies result = [] \<and> rw_kill w' = rw_kill w) \<or>
     ks_state (rw_kill w') = HALTED"
proof (cases r)
  case (Inl e)
  then show ?thesis
    using triple_raises[OF reconcile_halts[OF assms(1), of "rw_kill w" local], of w e w'] assms(2) by simp
next
  case (Inr result)
  then show ?thesis
    using triple_returns[OF reconcile_halts[OF assms(1), of "rw_kill w" local], of w result w'] assms(2)
    by (auto split: if_splits)
qed

section \<open>The scheduled run\<close>

abbreviation sc_halted :: "('b, 'p, 'a) scheduler \<Rightarrow> bool" where
  "sc_halted s \<equiv> rw_halted (sc_world s)"

lemma on_world_triple:
  assumes "triple P m Q E"
  shows "triple (\<lambda>s. P (sc_world s)) (on_world m) (\<lambda>x s. Q x (sc_world s)) (\<lambda>e s. E e (sc_world s))"
  using assms by (auto simp: triple_def on_world_def split_beta split: sum.splits)

lemma sched_trip_halts: "triple P (sched_trip env reason) (\<lambda>_. sc_halted) (\<lambda>_. sc_halted)"
  unfolding sched_trip_def
  by (rule triple_weaken[OF on_world_triple[OF rw_trip_halts[where P = "\<lambda>_. True"]]]) auto

text \<open>What a comparison shows of the switch: a reason to be unavailable, or a divergence, halts.\<close>

fun compared_safely :: "string + reconciliation_result \<Rightarrow> ('b, 'p, 'a) scheduler \<Rightarrow> bool" where
  "compared_safely (Inl detail) s = sc_halted s"
| "compared_safely (Inr result) s = (rr_discrepancies result \<noteq> [] \<longrightarrow> sc_halted s)"

lemma sched_reconcile_safe:
  assumes "alert_raises (\<lambda>e. \<forall>m. e \<noteq> ReconciliationUnavailable m) (se_rec env)"
  shows "triple (\<lambda>_. True) (sched_reconcile env local) compared_safely (\<lambda>_ _. True)"
proof (rule tripleI)
  fix s outcome t
  assume run: "sched_reconcile env local s = (Inr outcome, t)"
  note tr = on_world_triple[OF reconcile_halts[OF assms, of "rw_kill (sc_world s)" local]]
  obtain r u where rec: "on_world (reconcile (se_rec env) local) s = (r, u)" by force
  show "compared_safely outcome t"
  proof (cases r)
    case (Inl e)
    then obtain m where e: "e = ReconciliationUnavailable m"
      using run by (auto simp: sched_reconcile_def rec split: exn.splits)
    then have "sc_halted u" using triple_raises[OF tr, of s e u] rec Inl by simp
    then show ?thesis using run Inl e by (auto simp: sched_reconcile_def rec)
  next
    case (Inr result)
    then have "rr_discrepancies result \<noteq> [] \<longrightarrow> sc_halted u"
      using triple_returns[OF tr, of s result u] rec by (auto split: if_splits)
    then show ?thesis
      using run Inr by (auto simp: sched_reconcile_def rec adopt_def Let_def)
  qed
qed simp

lemma sched_compare_safe:
  assumes "alert_raises (\<lambda>e. \<forall>m. e \<noteq> ReconciliationUnavailable m) (se_rec env)"
  shows "triple (\<lambda>_. True) (sched_compare env) compared_safely (\<lambda>_ _. True)"
proof (rule tripleI)
  fix s outcome t
  assume run: "sched_compare env s = (Inr outcome, t)"
  have stopped: "triple (\<lambda>_. True) (abind (sched_trip env why) (\<lambda>_. aret (Inl detail))) compared_safely (\<lambda>_ _. True)"
    for why detail
    by (rule triple_abind[where R = "\<lambda>_. sc_halted"], rule triple_weaken[OF sched_trip_halts])
      (auto intro: triple_aret)
  obtain r u where ref: "refresh_tracked_orders env s = (r, u)" by force
  show "compared_safely outcome t"
  proof (cases r)
    case (Inl e)
    then show ?thesis using run triple_returns[OF stopped] by (auto simp: sched_compare_def ref)
  next
    case (Inr x)
    then show ?thesis
      using run triple_returns[OF stopped] triple_returns[OF sched_reconcile_safe[OF assms]]
      by (auto simp: sched_compare_def ref split: sum.splits if_splits)
  qed
qed simp

text \<open>Counting the run and calling the hooks leave the kill switch alone.\<close>

lemma sched_hook_frame:
  "sched_hook hook x s = (r, s') \<Longrightarrow> rw_kill (sc_world s') = rw_kill (sc_world s) \<and> sc_status s' = sc_status s"
  by (auto simp: sched_hook_def on_world_def rw_on_alerts_def split: option.splits prod.splits)

lemma sched_unavailable_frame:
  "sched_unavailable env detail s = (r, s') \<Longrightarrow> rw_kill (sc_world s') = rw_kill (sc_world s)"
  by (auto simp: sched_unavailable_def Let_def dest!: sched_hook_frame)

lemma sched_report_frame:
  "sched_report env result s = (r, s') \<Longrightarrow> rw_kill (sc_world s') = rw_kill (sc_world s) \<and>
     (rr_discrepancies result = [] \<longrightarrow> rs_last_result (sc_status s') = ''clean'')"
  by (auto simp: sched_report_def Let_def dest!: sched_hook_frame split: if_splits)

lemma run_once_safe:
  assumes "alert_raises (\<lambda>e. \<forall>m. e \<noteq> ReconciliationUnavailable m) (se_rec env)"
    and "run_once env s = (Inr res, t)"
  shows "rs_last_result (sc_status t) = ''clean'' \<or> sc_halted t"
proof -
  obtain oc u where cmp: "sched_compare env s = (Inr oc, u)"
    using assms(2) by (auto simp: run_once_def abind_def split: prod.splits sum.splits)
  have safe: "compared_safely oc u" using triple_returns[OF sched_compare_safe[OF assms(1)] _ cmp] by simp
  show ?thesis
  proof (cases oc)
    case (Inl detail)
    then obtain x where "sched_unavailable env detail u = (x, t)"
      using assms(2) by (auto simp: run_once_def abind_def cmp split: prod.splits sum.splits)
    then show ?thesis using safe Inl sched_unavailable_frame by fastforce
  next
    case (Inr result)
    obtain x v where rep: "sched_report env result u = (x, v)" by force
    then have "t = snd (sched_hook (se_on_reconciled env) (rr_authoritative result) v)"
      using assms(2) by (auto simp: run_once_def abind_def cmp Inr rep split: sum.splits)
    then have "rw_kill (sc_world t) = rw_kill (sc_world v) \<and> sc_status t = sc_status v"
      using sched_hook_frame[of "se_on_reconciled env" "rr_authoritative result" v] by (metis prod.collapse)
    then show ?thesis using safe Inr sched_report_frame[OF rep] by auto
  qed
qed

text \<open>
  C25. One turn of the unattended reconciliation ends with a comparison recorded as clean, or with
  the kill switch HALTED. This covers a refresh, a projection, a comparison or a hook that raises
  anything, as long as the receiver of alerts does not itself raise \<^verbatim>\<open>ReconciliationUnavailable\<close>.
\<close>

theorem run_tick_clean_or_halted:
  assumes "alert_raises (\<lambda>e. \<forall>m. e \<noteq> ReconciliationUnavailable m) (se_rec env)"
    and "run_tick env s = (r, s')"
  shows "(r = Inr () \<and> rs_last_result (sc_status s') = ''clean'') \<or> ks_state (rw_kill (sc_world s')) = HALTED"
proof (cases "run_once env s")
  case (Pair outcome t)
  show ?thesis
  proof (cases outcome)
    case (Inl e)
    have "run_tick env s = sched_trip env ''scheduled reconciliation failed'' t"
      by (simp add: run_tick_def Pair Inl)
    then show ?thesis
      using assms(2) sched_trip_halts[of "\<lambda>_. True", THEN triple_snd_iff[THEN iffD1]] by (metis snd_conv)
  next
    case (Inr res)
    have "s' = t" "r = Inr ()" using assms(2) by (simp_all add: run_tick_def Pair Inr)
    moreover have "rs_last_result (sc_status t) = ''clean'' \<or> sc_halted t"
      using run_once_safe[OF assms(1)] Pair Inr by simp
    ultimately show ?thesis by simp
  qed
qed

section \<open>The adopted state is the next expectation\<close>

lemma map_of_dict_of_values:
  "map_of (dict_of (map (\<lambda>x. (f x, g x)) xs)) k = map_option g (map_of (dict_of (map (\<lambda>x. (f x, x)) xs)) k)"
proof (induction xs rule: rev_induct)
  case (snoc x xs)
  then show ?case by (simp add: map_of_dict_of rev_map)
qed (simp add: dict_of_def)

lemma map_of_map_key: "map_of (map (\<lambda>(k, v). (k, f k v)) xs) k = map_option (f k) (map_of xs k)"
  by (induction xs) auto

text \<open>A dictionary rebuilt from the kept entries of a sorted one.\<close>

lemma map_of_rebuilt:
  assumes "distinct_keys d"
  shows "map_of (dict_of (map (\<lambda>(k, v). (k, f k v)) (filter P (sort_key fst d)))) k =
    (case map_of d k of None \<Rightarrow> None | Some v \<Rightarrow> if P (k, v) then Some (f k v) else None)"
proof -
  have d: "distinct_keys (sort_key fst d)" using assms by (rule distinct_keys_sort_key)
  then have "distinct_keys (map (\<lambda>(k, v). (k, f k v)) (filter P (sort_key fst d)))"
    by (simp add: comp_def case_prod_unfold distinct_map_filter)
  then show ?thesis
    by (simp add: map_of_dict_of map_of_rev_distinct map_of_map_key map_of_filter_distinct[OF d]
        map_of_sort_key_fst[OF assms] split: option.splits)
qed

lemma by_symbol_ledger_positions:
  assumes "distinct_keys d"
  shows "map_of (by_symbol (ledger_positions now d)) k =
    (case map_of d k of None \<Rightarrow> None
     | Some (q, a) \<Rightarrow> if q = 0 then None
         else Some \<lparr>pos_symbol = k, pos_quantity = q, pos_average_price = a, pos_as_of = now\<rparr>)"
proof -
  have "map (\<lambda>p. (pos_symbol p, p)) (ledger_positions now d) =
      map (\<lambda>(s, v). (s, \<lparr>pos_symbol = s, pos_quantity = fst v, pos_average_price = snd v, pos_as_of = now\<rparr>))
        (filter (\<lambda>(symbol, q, a). q \<noteq> 0) (sort_key fst d))"
    by (simp add: ledger_positions_def comp_def case_prod_unfold)
  then show ?thesis by (auto simp: by_symbol_def map_of_rebuilt[OF assms] split: option.splits)
qed

lemma by_asset_ledger_balances:
  assumes "distinct_keys d"
  shows "map_of (by_asset (ledger_balances now holds d)) k =
    (case map_of d k of None \<Rightarrow> None
     | Some q \<Rightarrow> if q = 0 \<and> dict_get holds k 0 = 0 then None
         else Some \<lparr>bal_asset = k, bal_available = q, bal_hold = dict_get holds k 0, bal_as_of = now\<rparr>)"
proof -
  have "map (\<lambda>b. (bal_asset b, b)) (ledger_balances now holds d) =
      map (\<lambda>(s, q). (s, \<lparr>bal_asset = s, bal_available = q, bal_hold = dict_get holds s 0, bal_as_of = now\<rparr>))
        (filter (\<lambda>(asset, amount). amount \<noteq> 0 \<or> dict_get holds asset 0 \<noteq> 0) (sort_key fst d))"
    by (simp add: ledger_balances_def comp_def case_prod_unfold)
  then show ?thesis by (auto simp: by_asset_def map_of_rebuilt[OF assms] split: option.splits)
qed

text \<open>A snapshot as the adapters report it: valid entries, none of them zero.\<close>

definition reported_position :: "position \<Rightarrow> bool" where
  "reported_position p \<longleftrightarrow> valid_position p \<and> pos_quantity p \<noteq> 0"

definition reported_balance :: "balance \<Rightarrow> bool" where
  "reported_balance b \<longleftrightarrow> valid_balance b \<and> (bal_available b \<noteq> 0 \<or> bal_hold b \<noteq> 0)"

lemma by_symbolD: "map_of (by_symbol ps) k = Some p \<Longrightarrow> p \<in> set ps \<and> pos_symbol p = k"
  unfolding by_symbol_def map_of_dict_of by (drule map_of_SomeD) auto

lemma by_assetD: "map_of (by_asset bs) k = Some b \<Longrightarrow> b \<in> set bs \<and> bal_asset b = k"
  unfolding by_asset_def map_of_dict_of by (drule map_of_SomeD) auto

lemma init_positions_lookup:
  "map_of (ls_positions (ledger_init base)) k =
     map_option (\<lambda>p. (pos_quantity p, pos_average_price p)) (map_of (by_symbol (pf_positions base)) k)"
  by (simp add: ledger_init_def by_symbol_def map_of_dict_of_values[of _ "\<lambda>p. (pos_quantity p, pos_average_price p)"])

lemma init_available_lookup:
  "map_of (ls_available (ledger_init base)) k = map_option bal_available (map_of (by_asset (pf_balances base)) k)"
  "map_of (holds_of base) k = map_option bal_hold (map_of (by_asset (pf_balances base)) k)"
  by (simp_all add: ledger_init_def holds_of_def by_asset_def map_of_dict_of_values[of _ bal_available]
      map_of_dict_of_values[of _ bal_hold])

lemma init_distinct: "distinct_keys (ls_positions (ledger_init base))" "distinct_keys (ls_available (ledger_init base))"
  by (simp_all add: ledger_init_def)

lemma project_positions_agree:
  assumes "\<forall>p \<in> set (pf_positions base). reported_position p"
  shows "position_discrepancies (ledger_positions now (ls_positions (ledger_init base))) (pf_positions base) = []"
  unfolding position_discrepancies_Nil
proof
  fix k
  assume k: "k \<in> pos_symbol ` set (ledger_positions now (ls_positions (ledger_init base))) \<union>
    pos_symbol ` set (pf_positions base)"
  let ?r = "map_of (by_symbol (pf_positions base)) k"
  let ?l = "map_of (by_symbol (ledger_positions now (ls_positions (ledger_init base)))) k"
  have l: "?l = (case ?r of None \<Rightarrow> None | Some p \<Rightarrow>
      Some \<lparr>pos_symbol = k, pos_quantity = pos_quantity p, pos_average_price = pos_average_price p, pos_as_of = now\<rparr>)"
    using assms by (auto simp: by_symbol_ledger_positions[OF init_distinct(1)] init_positions_lookup
        reported_position_def dest: by_symbolD split: option.splits)
  have "?l \<noteq> None \<or> ?r \<noteq> None"
    using k by (auto simp: map_of_eq_None_iff by_symbol_keys)
  then obtain p where "?r = Some p" using l by (cases ?r) auto
  then show "\<not> position_differs ?l ?r"
    using l by (auto simp: position_differs_def split: option.splits)
qed

lemma project_balances_agree:
  assumes "\<forall>b \<in> set (pf_balances base). reported_balance b"
  shows "balance_discrepancies (ledger_balances now (holds_of base) (ls_available (ledger_init base)))
     (pf_balances base) = []"
  unfolding balance_discrepancies_Nil
proof
  fix k
  assume k: "k \<in> bal_asset ` set (ledger_balances now (holds_of base) (ls_available (ledger_init base))) \<union>
    bal_asset ` set (pf_balances base)"
  let ?r = "map_of (by_asset (pf_balances base)) k"
  let ?l = "map_of (by_asset (ledger_balances now (holds_of base) (ls_available (ledger_init base)))) k"
  have l: "?l = (case ?r of None \<Rightarrow> None | Some b \<Rightarrow>
      Some \<lparr>bal_asset = k, bal_available = bal_available b, bal_hold = bal_hold b, bal_as_of = now\<rparr>)"
    using assms by (auto simp: by_asset_ledger_balances[OF init_distinct(2)] init_available_lookup
        reported_balance_def dest: by_assetD split: option.splits)
  have "?l \<noteq> None \<or> ?r \<noteq> None"
    using k by (auto simp: map_of_eq_None_iff by_asset_keys)
  then obtain b where "?r = Some b" using l by (cases ?r) auto
  then show "\<not> balance_differs ?l ?r" using l by (simp add: balance_differs_def)
qed

lemma init_positionsD:
  assumes "(k, q, a) \<in> set (ls_positions (ledger_init base))"
  obtains p where "p \<in> set (pf_positions base)" "pos_quantity p = q" "pos_average_price p = a"
proof -
  have "map_of (ls_positions (ledger_init base)) k = Some (q, a)"
    using assms init_distinct(1) by simp
  then show thesis using that by (auto simp: init_positions_lookup dest: by_symbolD)
qed

lemma init_availableD:
  assumes "(k, q) \<in> set (ls_available (ledger_init base))"
  obtains b where "b \<in> set (pf_balances base)" "bal_available b = q" "map_of (holds_of base) k = Some (bal_hold b)"
proof -
  have "map_of (ls_available (ledger_init base)) k = Some q"
    using assms init_distinct(2) by simp
  then show thesis using that by (auto simp: init_available_lookup dest: by_assetD)
qed

lemma apply_no_fills:
  assumes "\<forall>p \<in> set (pf_positions base). reported_position p" "\<forall>b \<in> set (pf_balances base). reported_balance b"
  shows "apply_fills now inc base [] = Inr \<lparr>pf_orders = pf_orders base, pf_fills = pf_fills base,
    pf_positions = ledger_positions now (ls_positions (ledger_init base)),
    pf_balances = ledger_balances now (holds_of base) (ls_available (ledger_init base))\<rparr>"
proof -
  have exact: "ls_exact (ledger_init base) = ls_available (ledger_init base)" by (simp add: ledger_init_def)
  have nonneg: "\<not> q < 0" if "(k, q) \<in> set (ls_available (ledger_init base))" for k q
    using that assms(2) by (auto simp: reported_balance_def valid_balance_def not_less elim!: init_availableD)
  have "negative_assets (ledger_init base) = []"
    using init_distinct(2) by (auto simp: negative_assets_def exact filter_empty_conv dest: nonneg)
  moreover have "list_all valid_position (ledger_positions now (ls_positions (ledger_init base)))"
    using assms(1) by (fastforce simp: list_all_iff ledger_positions_def reported_position_def valid_position_def
        elim!: init_positionsD)
  moreover have "list_all valid_balance (ledger_balances now (holds_of base) (ls_available (ledger_init base)))"
    using assms(2) by (fastforce simp: list_all_iff ledger_balances_def reported_balance_def valid_balance_def
        elim!: init_availableD)
  ultimately show ?thesis by (simp add: apply_fills_def Let_def)
qed

text \<open>
  After a run has adopted the broker's state, and before another fill is observed, the expected
  portfolio is that state again: it is computed without an error, its positions and balances differ
  from the broker's in nothing, and it follows exactly the orders the broker still has open. A
  correction is therefore reported once and not again by the next run.
\<close>

theorem adopted_state_is_expected_next:
  assumes "\<forall>p \<in> set (pf_positions (rr_authoritative result)). reported_position p"
    and "\<forall>b \<in> set (pf_balances (rr_authoritative result)). reported_balance b"
  shows "\<exists>expected. expected_state now (adopt result local s) = Inr expected \<and>
     position_discrepancies (pf_positions expected) (pf_positions (rr_authoritative result)) = [] \<and>
     balance_discrepancies (pf_balances expected) (pf_balances (rr_authoritative result)) = [] \<and>
     pf_orders expected = filter (\<lambda>(k, ord). \<not> terminal (ord_status ord)) (pf_orders (rr_authoritative result)) \<and>
     set (pf_fills expected) \<subseteq> set (pf_fills (rr_authoritative result))"
proof -
  let ?s = "adopt result local s" and ?base = "holdings_only (rr_authoritative result)"
  have new: "filter (\<lambda>(k, _). k \<notin> sc_applied ?s) (sc_fills ?s) = []"
    by (force simp: adopt_def Let_def filter_empty_conv)
  have base: "sc_baseline ?s = ?base" "pf_positions ?base = pf_positions (rr_authoritative result)"
      "pf_balances ?base = pf_balances (rr_authoritative result)"
    by (simp_all add: adopt_def Let_def holdings_only_def)
  have *: "\<forall>p \<in> set (pf_positions ?base). reported_position p" "\<forall>b \<in> set (pf_balances ?base). reported_balance b"
    using assms by (simp_all add: base)
  show ?thesis
    using project_positions_agree[OF *(1), of now] project_balances_agree[OF *(2), of now]
    by (simp add: expected_state_def new base(1) apply_no_fills[OF *] base(2,3))
      (auto simp: adopt_def Let_def)
qed

section \<open>Concrete runs\<close>

definition sample_world :: "(sim_broker, unit, nat) rec_world" where
  "sample_world = \<lparr>rw_broker = sample_broker [], rw_kill = sample_kill, rw_store = (), rw_alerts = 0\<rparr>"

definition sample_rec_env ::
  "(discrepancy \<Rightarrow> (exn, nat, unit) act) option \<Rightarrow> (sim_broker, unit, nat) rec_env"
where
  "sample_rec_env alert = \<lparr>re_broker = sim_ops 0, re_kill_env = (\<lambda>_. sample_ks_env), re_store = None,
     re_alert = alert, re_dec_text = (\<lambda>_. [])\<rparr>"

definition sample_cash :: "rat \<Rightarrow> balance" where
  "sample_cash x = \<lparr>bal_asset = ''U'', bal_available = x, bal_hold = 0, bal_as_of = 0\<rparr>"

definition sample_local :: "rat \<Rightarrow> portfolio_state" where
  "sample_local x = \<lparr>pf_orders = [], pf_fills = [], pf_positions = [], pf_balances = [sample_cash x]\<rparr>"

lemma sample_reads:
  "sim_get_balances 0 (sample_broker []) = (Inr [sample_cash 100], sample_broker [])"
  "sim_get_positions 0 (sample_broker []) = (Inr [], sample_broker [])"
  by (simp_all add: sim_get_balances_def sim_get_positions_def raise_for_fault_def take_fault_def abind_def
      Let_def sample_defs sample_cash_def valid_balance_def)

lemmas reconcile_run_defs = reconcile_def abind_def guarded_read_def rw_on_broker_def rw_on_kill_def
  rw_on_alerts_def report_all_def save_all_def reconcile_found_def Let_def
  sample_rec_env_def sample_world_def sample_local_def sim_ops_def

lemma sample_balance_discrepancies:
  "balance_discrepancies [sample_cash x] [sample_cash y] =
     (if x = y then [] else [\<lparr>dis_entity_type = ''balance'', dis_entity_key = ''U'',
        dis_local = BalanceEntity (sample_cash x), dis_broker = BalanceEntity (sample_cash y)\<rparr>])"
  by (simp add: balance_discrepancies_def Let_def by_asset_def dict_of_def union_keys_def balance_differs_def
      entity_of_def sample_cash_def)

lemma sample_position_discrepancies: "position_discrepancies [] [] = []"
  by (simp add: position_discrepancies_Nil)

lemma sample_fill_discrepancies: "fill_discrepancies [] [] = []"
  by (simp add: fill_discrepancies_def)

lemma sample_reconcile_clean:
  "reconcile (sample_rec_env alert) (sample_local 100) sample_world =
     (Inr \<lparr>rr_authoritative = sample_local 100, rr_discrepancies = [], rr_safety_tripped = False\<rparr>, sample_world)"
  by (simp add: reconcile_run_defs sample_reads sample_balance_discrepancies sample_position_discrepancies
      sample_fill_discrepancies)

theorem reconcile_clean_iff_sides_agree_witness:
  "\<exists>result w'. reconcile (sample_rec_env None) (sample_local 100) sample_world = (Inr result, w') \<and>
     rr_discrepancies result = [] \<and> \<not> rr_safety_tripped result"
proof -
  have "distinct_keys (pf_orders (sample_local 100))" by (simp add: sample_local_def)
  note agree = reconcile_clean_iff_sides_agree[OF sample_reconcile_clean this, THEN conjunct2]
  show ?thesis
    by (rule exI, rule exI, rule conjI, rule sample_reconcile_clean) (use agree in simp)
qed

theorem reconcile_clean_or_halted_witness:
  "\<exists>r w'. reconcile (sample_rec_env None) (sample_local 90) sample_world = (r, w') \<and>
     ((\<exists>result. r = Inr result \<and> rr_discrepancies result = [] \<and> rw_kill w' = rw_kill sample_world) \<or>
      ks_state (rw_kill w') = HALTED)"
proof -
  obtain r w' where run: "reconcile (sample_rec_env None) (sample_local 90) sample_world = (r, w')" by force
  have "alert_raises (\<lambda>_. False) (sample_rec_env None)"
    by (simp add: alert_raises_def sample_rec_env_def)
  note safe = reconcile_clean_or_halted[OF this run]
  show ?thesis by (rule exI, rule exI, rule conjI, rule run, rule safe)
qed

definition sample_sched_env :: "(sim_broker, unit, nat) sched_env" where
  "sample_sched_env = \<lparr>se_rec = sample_rec_env None, se_refresh_order = None, se_on_divergence = None,
     se_on_unavailable = None, se_on_reconciled = None, se_now = 0\<rparr>"

definition sample_scheduler :: "(sim_broker, unit, nat) scheduler" where
  "sample_scheduler = \<lparr>sc_world = sample_world, sc_baseline = sample_local 100, sc_fills = [], sc_orders = [],
     sc_applied = {}, sc_increments = [], sc_status = \<lparr>rs_started_at = 0, rs_runs = 0, rs_clean_runs = 0,
       rs_diverged_runs = 0, rs_unavailable_runs = 0, rs_last_run_at = None, rs_last_result = ''not_run'',
       rs_last_discrepancies = 0\<rparr>\<rparr>"

theorem run_tick_clean_or_halted_witness:
  "\<exists>r s'. run_tick sample_sched_env sample_scheduler = (r, s') \<and>
     ((r = Inr () \<and> rs_last_result (sc_status s') = ''clean'') \<or> ks_state (rw_kill (sc_world s')) = HALTED)"
proof -
  obtain r s' where run: "run_tick sample_sched_env sample_scheduler = (r, s')" by force
  have "alert_raises (\<lambda>e. \<forall>m. e \<noteq> ReconciliationUnavailable m) (se_rec sample_sched_env)"
    by (simp add: alert_raises_def sample_rec_env_def sample_sched_env_def)
  note safe = run_tick_clean_or_halted[OF this run]
  show ?thesis by (rule exI, rule exI, rule conjI, rule run, rule safe)
qed

definition sample_result :: reconciliation_result where
  "sample_result = \<lparr>rr_authoritative = sample_local 100, rr_discrepancies = [], rr_safety_tripped = False\<rparr>"

theorem adopted_state_is_expected_next_witness:
  "\<exists>expected. expected_state 9 (adopt sample_result (sample_local 90) sample_scheduler) = Inr expected \<and>
     balance_discrepancies (pf_balances expected) [sample_cash 100] = []"
  using adopted_state_is_expected_next[of sample_result 9 "sample_local 90" sample_scheduler]
  by (auto simp: sample_result_def sample_local_def sample_cash_def reported_balance_def valid_balance_def)

text \<open>
  A receiver of alerts that raises stops a reconciliation before the switch is tripped: on a
  diverging balance the exception leaves \<^verbatim>\<open>reconcile\<close> and trading is still RUNNING.
\<close>

theorem raising_alert_skips_the_halt:
  "case reconcile (sample_rec_env (Some (\<lambda>_. athrow (RuntimeError ''alert channel down'')))) (sample_local 90)
      sample_world of (r, w') \<Rightarrow>
     r = Inl (RuntimeError ''alert channel down'') \<and> ks_state (rw_kill w') = RUNNING"
  by (simp add: reconcile_run_defs sample_reads sample_balance_discrepancies sample_position_discrepancies
      sample_fill_discrepancies sample_kill_def)

end
