(* ===== verification/AuditTrail.thy ===== *)
theory AuditTrail
  imports OrderStore
begin

text \<open>
  The audit records of \<^verbatim>\<open>execution/audit.py\<close>: signals and risk decisions, in memory and in the
  database, and the lineage every order must have. A lineage joins the audit tables with the order
  store, so it is a function of both; the audit state itself holds only what the two record methods
  write. As for the orders, \<open>ad_failures\<close> says call by call whether the database fails.
\<close>

section \<open>Lineage\<close>

record order_lineage =
  ol_client_order_id :: string
  ol_status :: order_status
  ol_signal_recorded :: bool
  ol_strategy_version_matches :: bool
  ol_risk_decision_recorded :: bool
  ol_risk_decision_approved :: bool
  ol_fill_count :: nat
  ol_filled_quantity :: rat

definition lineage_gaps :: "order_lineage \<Rightarrow> string list" where
  "lineage_gaps l =
     (if \<not> ol_signal_recorded l then [''signal'']
      else if \<not> ol_strategy_version_matches l then [''strategy_version''] else []) @
     (if \<not> ol_risk_decision_recorded l then [''risk_decision'']
      else if \<not> ol_risk_decision_approved l then [''risk_decision_not_approved''] else []) @
     (if (ol_status l \<in> {FILLED, PARTIALLY_FILLED} \<or> 0 < ol_filled_quantity l) \<and> ol_fill_count l = 0
      then [''fills''] else [])"

definition unlinked_orders :: "order_lineage list \<Rightarrow> order_lineage list" where
  "unlinked_orders ls = filter (\<lambda>l. lineage_gaps l \<noteq> []) ls"

record 'a audit_ops =
  au_record_signal :: "signal \<Rightarrow> (exn, 'a, unit) act"
  au_record_risk_decision :: "risk_approval \<Rightarrow> (exn, 'a, unit) act"

section \<open>In memory\<close>

record memory_audit =
  ma_fail_writes :: bool
  ma_signals :: "(uuid, signal) dict"
  ma_decisions :: "(uuid, risk_approval) dict"

definition ma_record_signal :: "signal \<Rightarrow> (exn, memory_audit, unit) act" where
  "ma_record_signal sg a =
     (if ma_fail_writes a then (Inl (PersistenceUnavailable ''signal audit record is unavailable''), a)
      else (Inr (), a\<lparr>ma_signals := dict_setdefault (sig_signal_id sg) sg (ma_signals a)\<rparr>))"

definition ma_record_risk_decision :: "risk_approval \<Rightarrow> (exn, memory_audit, unit) act" where
  "ma_record_risk_decision d a =
     (if ma_fail_writes a then (Inl (PersistenceUnavailable ''risk decision audit record is unavailable''), a)
      else (Inr (), a\<lparr>ma_decisions := dict_setdefault (apr_approval_id d) d (ma_decisions a)\<rparr>))"

definition ma_fill_count :: "memory_store \<Rightarrow> trade_order \<Rightarrow> nat" where
  "ma_fill_count s ord =
     length (filter (\<lambda>(_, f). fill_order_id f = req_client_order_id (ord_request ord)) (im_fills s))"

definition ma_lineage :: "memory_store \<Rightarrow> memory_audit \<Rightarrow> order_lineage list" where
  "ma_lineage s a =
     map (\<lambda>(key, ord).
         let sg = map_of (ma_signals a) (req_signal_id (ord_request ord));
             decision = Option.bind (map_of (im_approvals s) key) (\<lambda>apr. map_of (ma_decisions a) (apr_approval_id apr)) in
         \<lparr>ol_client_order_id = key, ol_status = ord_status ord, ol_signal_recorded = (sg \<noteq> None),
          ol_strategy_version_matches =
            (case sg of None \<Rightarrow> False | Some x \<Rightarrow> sig_strategy_version x = req_strategy_version (ord_request ord)),
          ol_risk_decision_recorded = (decision \<noteq> None),
          ol_risk_decision_approved = (case decision of None \<Rightarrow> False | Some d \<Rightarrow> apr_approved d),
          ol_fill_count = ma_fill_count s ord, ol_filled_quantity = ord_filled_quantity ord\<rparr>)
       (im_orders s)"

definition memory_audit_ops :: "memory_audit audit_ops" where
  "memory_audit_ops = \<lparr>au_record_signal = ma_record_signal, au_record_risk_decision = ma_record_risk_decision\<rparr>"

section \<open>In the database\<close>

record signal_record =
  sr_signal_id :: uuid
  sr_signal_symbol :: string
  sr_strategy_version :: string
  sr_side :: order_side
  sr_quantity :: rat
  sr_created_at :: datetime

record decision_record =
  rd_approval_id :: uuid
  rd_signal_id :: uuid
  rd_approved :: bool
  rd_reason :: string
  rd_failed_gate :: "string option"
  rd_correlation_id :: uuid
  rd_decided_at :: datetime

record audit_db =
  ad_signals :: "signal_record list"
  ad_decisions :: "decision_record list"
  ad_failures :: "bool list"

definition audit_call :: "string \<Rightarrow> (audit_db \<Rightarrow> audit_db) \<Rightarrow> (exn, audit_db, unit) act" where
  "audit_call message body a =
     (let a' = a\<lparr>ad_failures := tl (ad_failures a)\<rparr> in
      if ad_failures a \<noteq> [] \<and> hd (ad_failures a) then (Inl (PersistenceUnavailable message), a')
      else (Inr (), body a'))"

definition signal_row :: "(rat \<Rightarrow> rat) \<Rightarrow> signal \<Rightarrow> signal_record" where
  "signal_row numeric sg = \<lparr>sr_signal_id = sig_signal_id sg, sr_signal_symbol = sig_symbol sg,
     sr_strategy_version = sig_strategy_version sg, sr_side = sig_side sg,
     sr_quantity = numeric (sig_quantity sg), sr_created_at = sig_created_at sg\<rparr>"

definition decision_row :: "risk_approval \<Rightarrow> decision_record" where
  "decision_row d = \<lparr>rd_approval_id = apr_approval_id d, rd_signal_id = apr_signal_id d,
     rd_approved = apr_approved d, rd_reason = apr_reason d, rd_failed_gate = apr_failed_gate d,
     rd_correlation_id = apr_correlation_id d, rd_decided_at = apr_approved_at d\<rparr>"

definition sa_record_signal :: "(rat \<Rightarrow> rat) \<Rightarrow> signal \<Rightarrow> (exn, audit_db, unit) act" where
  "sa_record_signal numeric sg =
     audit_call ''database unavailable while recording signal'' (\<lambda>a.
       if list_ex (\<lambda>rec. sr_signal_id rec = sig_signal_id sg) (ad_signals a) then a
       else a\<lparr>ad_signals := ad_signals a @ [signal_row numeric sg]\<rparr>)"

definition sa_record_risk_decision :: "risk_approval \<Rightarrow> (exn, audit_db, unit) act" where
  "sa_record_risk_decision d =
     audit_call ''database unavailable while recording risk decision'' (\<lambda>a.
       if list_ex (\<lambda>rec. rd_approval_id rec = apr_approval_id d) (ad_decisions a) then a
       else a\<lparr>ad_decisions := ad_decisions a @ [decision_row d]\<rparr>)"

text \<open>
  The outer joins of \<^verbatim>\<open>lineage\<close>. The joined columns are primary keys, so an order has at most one
  signal and one decision; the first row with the key is the row with the key.
\<close>

definition lineage_of_row :: "order_db \<Rightarrow> audit_db \<Rightarrow> order_record \<Rightarrow> order_lineage" where
  "lineage_of_row s a rec =
     (let sg = List.find (\<lambda>x. sr_signal_id x = or_signal_id rec) (ad_signals a);
          decision = List.find (\<lambda>x. rd_approval_id x = or_risk_approval_id rec) (ad_decisions a) in
      \<lparr>ol_client_order_id = or_client_order_id rec, ol_status = or_status rec,
       ol_signal_recorded = (sg \<noteq> None),
       ol_strategy_version_matches = (map_option sr_strategy_version sg = Some (or_strategy_version rec)),
       ol_risk_decision_recorded = (decision \<noteq> None),
       ol_risk_decision_approved = (case decision of None \<Rightarrow> False | Some d \<Rightarrow> rd_approved d),
       ol_fill_count = length (filter (\<lambda>f. fr_order_id f = or_order_id rec) (db_fills s)),
       ol_filled_quantity = 0\<rparr>)"

definition sa_lineage :: "order_db \<Rightarrow> audit_db \<Rightarrow> order_lineage list" where
  "sa_lineage s a = map (lineage_of_row s a) (db_orders s)"

definition sql_audit_ops :: "(rat \<Rightarrow> rat) \<Rightarrow> audit_db audit_ops" where
  "sql_audit_ops numeric = \<lparr>au_record_signal = sa_record_signal numeric, au_record_risk_decision = sa_record_risk_decision\<rparr>"

section \<open>What a record leaves behind\<close>

text \<open>
  A client of an audit store sees which signals are recorded, with their strategy version, and which
  risk decisions, with whether they approve. What is recorded stays; a record call that returns has
  recorded its argument or found the identifier taken; one that raises has recorded nothing.
\<close>

locale audit_store =
  fixes au :: "'a audit_ops"
    and signal_version :: "'a \<Rightarrow> uuid \<Rightarrow> string option"
    and decision_approved :: "'a \<Rightarrow> uuid \<Rightarrow> bool option"
  assumes signal_Inr: "au_record_signal au sg a = (Inr (), a') \<Longrightarrow>
      signal_version a' = (if signal_version a (sig_signal_id sg) = None
        then (signal_version a)(sig_signal_id sg \<mapsto> sig_strategy_version sg) else signal_version a) \<and>
      decision_approved a' = decision_approved a"
    and signal_Inl: "au_record_signal au sg a = (Inl e, a') \<Longrightarrow>
      signal_version a' = signal_version a \<and> decision_approved a' = decision_approved a"
    and decision_Inr: "au_record_risk_decision au d a = (Inr (), a') \<Longrightarrow>
      decision_approved a' = (if decision_approved a (apr_approval_id d) = None
        then (decision_approved a)(apr_approval_id d \<mapsto> apr_approved d) else decision_approved a) \<and>
      signal_version a' = signal_version a"
    and decision_Inl: "au_record_risk_decision au d a = (Inl e, a') \<Longrightarrow>
      signal_version a' = signal_version a \<and> decision_approved a' = decision_approved a"
begin

definition vouched :: "'a \<Rightarrow> uuid \<Rightarrow> string \<Rightarrow> uuid \<Rightarrow> bool" where
  "vouched a sid version aid \<longleftrightarrow> signal_version a sid = Some version \<and> decision_approved a aid = Some True"

lemma vouched_record_signal:
  assumes "vouched a sid version aid"
  shows "vouched (snd (au_record_signal au sg a)) sid version aid"
proof (cases "au_record_signal au sg a")
  case (Pair r a')
  then show ?thesis
    using assms signal_Inr[of sg a a'] signal_Inl[of sg a _ a'] by (cases r) (auto simp: vouched_def)
qed

lemma vouched_record_decision:
  assumes "vouched a sid version aid"
  shows "vouched (snd (au_record_risk_decision au d a)) sid version aid"
proof (cases "au_record_risk_decision au d a")
  case (Pair r a')
  then show ?thesis
    using assms decision_Inr[of d a a'] decision_Inl[of d a _ a'] by (cases r) (auto simp: vouched_def)
qed

end

definition sa_signal_version :: "audit_db \<Rightarrow> uuid \<Rightarrow> string option" where
  "sa_signal_version a sid = map_option sr_strategy_version (List.find (\<lambda>x. sr_signal_id x = sid) (ad_signals a))"

definition sa_decision_approved :: "audit_db \<Rightarrow> uuid \<Rightarrow> bool option" where
  "sa_decision_approved a aid = map_option rd_approved (List.find (\<lambda>x. rd_approval_id x = aid) (ad_decisions a))"

lemma list_ex_find: "list_ex P xs \<longleftrightarrow> List.find P xs \<noteq> None"
  by (induction xs) auto

interpretation sql_audit: audit_store "sql_audit_ops numeric" sa_signal_version sa_decision_approved for numeric
  by unfold_locales
    (auto simp: sql_audit_ops_def sa_record_signal_def sa_record_risk_decision_def audit_call_def Let_def
      sa_signal_version_def sa_decision_approved_def signal_row_def decision_row_def find_append
      list_ex_find fun_eq_iff split: if_splits option.splits)

definition ma_signal_version :: "memory_audit \<Rightarrow> uuid \<Rightarrow> string option" where
  "ma_signal_version a sid = map_option sig_strategy_version (map_of (ma_signals a) sid)"

definition ma_decision_approved :: "memory_audit \<Rightarrow> uuid \<Rightarrow> bool option" where
  "ma_decision_approved a aid = map_option apr_approved (map_of (ma_decisions a) aid)"

interpretation memory_audit: audit_store memory_audit_ops ma_signal_version ma_decision_approved
  by unfold_locales
    (auto simp: memory_audit_ops_def ma_record_signal_def ma_record_risk_decision_def dict_setdefault_def
      ma_signal_version_def ma_decision_approved_def fun_eq_iff split: if_splits option.splits)

end
