(* ===== verification/Trading.thy ===== *)
theory Trading
  imports Execution KillSwitch RiskEngine Ledger AuditTrail
begin

text \<open>
  The trading loop of \<^verbatim>\<open>app/trading.py\<close>: \<^verbatim>\<open>TradingCycle\<close>, which takes one market state through
  the kill-switch flags, the pending orders, the strategy, the audit, the risk gates and the execution
  engine, and \<^verbatim>\<open>BrokerRiskInputs\<close>, which assembles the risk inputs and measures losses.

  The cycle's state holds every object it calls: the engine (with broker and order store), the kill
  switch, the audit store, the strategy, the state of the risk inputs and the receiver of halt alerts.
  Strategy, audit store, risk inputs and observers are operations of the environment, so a cycle is
  modelled for any of them. One cycle reads its clock at most once (\<open>te_now\<close>). The lock that
  \<^verbatim>\<open>on_market_state\<close> holds makes a cycle one step; log lines are not modelled.
\<close>

section \<open>The cycle\<close>

definition NEVER_SENT_HALT_THRESHOLD :: nat where
  "NEVER_SENT_HALT_THRESHOLD = 3"

definition DEFAULT_PENDING_TIMEOUT :: timedelta where
  "DEFAULT_PENDING_TIMEOUT = microseconds (5 * 60)"

datatype cycle_status =
    NO_SIGNAL | REFUSED | SUBMITTED | CYCLE_REJECTED | AMBIGUOUS | UNRESOLVED | BROKER_ERROR | CYCLE_HALTED

record cycle_outcome =
  out_status :: cycle_status
  out_detail :: string
  out_signal :: "signal option"
  out_decision :: "risk_approval option"
  out_order :: "trade_order option"

definition outcome ::
  "cycle_status \<Rightarrow> string \<Rightarrow> signal option \<Rightarrow> risk_approval option \<Rightarrow> trade_order option \<Rightarrow> cycle_outcome"
where
  "outcome st detail sg d ord =
     \<lparr>out_status = st, out_detail = detail, out_signal = sg, out_decision = d, out_order = ord\<rparr>"

record cycle_context =
  cx_kill_switch :: kill_switch_state
  cx_ordered_signal_ids :: "uuid list"
  cx_last_order_at :: "datetime option"

record ('b, 's, 'o, 'a, 'r, 'i, 'h) cycle =
  tc_engine :: "('b, 's, 'o) engine"
  tc_kill :: kill_switch
  tc_audit :: 'a
  tc_strategy :: 'r
  tc_inputs :: 'i
  tc_hook :: 'h
  tc_ordered_signal_ids :: "uuid list"
  tc_last_order_at :: "(string, datetime) dict"
  tc_unresolved_since :: "datetime option"

record ('b, 's, 'o, 'a, 'r, 'i, 'h) cycle_env =
  te_engine :: "('b, 's, 'o) engine_env"
  te_audit :: "'a audit_ops"
  te_strategy :: "market_state \<Rightarrow> (exn, 'r, signal option) act"
  te_risk_inputs :: "signal \<Rightarrow> market_state \<Rightarrow> cycle_context \<Rightarrow> (exn, 'b \<times> 'i, risk_inputs) act"
  te_observe :: "(market_state \<Rightarrow> (exn, 'b \<times> 'i, unit) act) option"
  te_limits :: risk_limits
  te_kill_env :: "nat \<Rightarrow> ks_env"
  te_environ :: string
  te_flag :: flag_file
  te_now :: datetime
  te_pending_timeout :: timedelta
  te_timeout_text :: string
  te_on_halt :: "(string \<Rightarrow> (exn, 'h, unit) act) option"
  te_approval_id :: uuid
  te_decided_at :: datetime
  te_uuid5 :: "uuid \<Rightarrow> string \<Rightarrow> uuid"
  te_dec_text :: "rat \<Rightarrow> string"

type_synonym ('b, 's, 'o, 'a, 'r, 'i, 'h, 'x) cycle_act =
  "(exn, ('b, 's, 'o, 'a, 'r, 'i, 'h) cycle, 'x) act"

definition tc_on_engine :: "(exn, ('b, 's, 'o) engine, 'x) act \<Rightarrow> ('b, 's, 'o, 'a, 'r, 'i, 'h, 'x) cycle_act" where
  "tc_on_engine m c = (case m (tc_engine c) of (x, e) \<Rightarrow> (x, c\<lparr>tc_engine := e\<rparr>))"

definition tc_on_kill :: "(exn, kill_switch, 'x) act \<Rightarrow> ('b, 's, 'o, 'a, 'r, 'i, 'h, 'x) cycle_act" where
  "tc_on_kill m c = (case m (tc_kill c) of (x, k) \<Rightarrow> (x, c\<lparr>tc_kill := k\<rparr>))"

definition tc_on_audit :: "(exn, 'a, 'x) act \<Rightarrow> ('b, 's, 'o, 'a, 'r, 'i, 'h, 'x) cycle_act" where
  "tc_on_audit m c = (case m (tc_audit c) of (x, a) \<Rightarrow> (x, c\<lparr>tc_audit := a\<rparr>))"

definition tc_on_strategy :: "(exn, 'r, 'x) act \<Rightarrow> ('b, 's, 'o, 'a, 'r, 'i, 'h, 'x) cycle_act" where
  "tc_on_strategy m c = (case m (tc_strategy c) of (x, r) \<Rightarrow> (x, c\<lparr>tc_strategy := r\<rparr>))"

definition tc_on_hook :: "(exn, 'h, 'x) act \<Rightarrow> ('b, 's, 'o, 'a, 'r, 'i, 'h, 'x) cycle_act" where
  "tc_on_hook m c = (case m (tc_hook c) of (x, h) \<Rightarrow> (x, c\<lparr>tc_hook := h\<rparr>))"

text \<open>The risk inputs read the engine's broker.\<close>

definition tc_on_inputs :: "(exn, 'b \<times> 'i, 'x) act \<Rightarrow> ('b, 's, 'o, 'a, 'r, 'i, 'h, 'x) cycle_act" where
  "tc_on_inputs m c =
     (case m (en_broker (tc_engine c), tc_inputs c) of
        (x, b, i) \<Rightarrow> (x, c\<lparr>tc_engine := (tc_engine c)\<lparr>en_broker := b\<rparr>, tc_inputs := i\<rparr>))"

definition cycle_halt ::
  "('b, 's, 'o, 'a, 'r, 'i, 'h) cycle_env \<Rightarrow> string \<Rightarrow> signal option \<Rightarrow> risk_approval option \<Rightarrow>
     ('b, 's, 'o, 'a, 'r, 'i, 'h, cycle_outcome) cycle_act"
where
  "cycle_halt env reason sg d c =
     (if ks_state (tc_kill c) = HALTED then (Inr (outcome CYCLE_HALTED reason sg d None), c)
      else abind (tc_on_kill (ks_trip (te_kill_env env 2) (''trading cycle: '' @ reason)))
             (\<lambda>_. abind (attempt (case te_on_halt env of None \<Rightarrow> aret () | Some hook \<Rightarrow> tc_on_hook (hook reason)))
               (\<lambda>_. aret (outcome CYCLE_HALTED reason sg d None))) c)"

definition cycle_unresolved ::
  "('b, 's, 'o, 'a, 'r, 'i, 'h) cycle_env \<Rightarrow> cycle_status \<Rightarrow> string \<Rightarrow>
     ('b, 's, 'o, 'a, 'r, 'i, 'h, cycle_outcome) cycle_act"
where
  "cycle_unresolved env st detail c =
     (let since = case_option (te_now env) id (tc_unresolved_since c);
          c' = c\<lparr>tc_unresolved_since := Some since\<rparr> in
      if te_pending_timeout env \<le> te_now env - since
      then cycle_halt env (detail @ '' after '' @ te_timeout_text env @ ''; operator review required'') None None c'
      else (Inr (outcome st detail None None None), c'))"

definition sample_equity ::
  "('b, 's, 'o, 'a, 'r, 'i, 'h) cycle_env \<Rightarrow> market_state \<Rightarrow> ('b, 's, 'o, 'a, 'r, 'i, 'h, unit) cycle_act"
where
  "sample_equity env state =
     (case te_observe env of
        None \<Rightarrow> aret ()
      | Some observe \<Rightarrow> abind (attempt (tc_on_inputs (observe state))) (\<lambda>_. aret ()))"

definition inputs_refused :: "('b, 's, 'o, 'a, 'r, 'i, 'h) cycle_env \<Rightarrow> signal \<Rightarrow> risk_approval" where
  "inputs_refused env sg =
     \<lparr>apr_approval_id = te_approval_id env, apr_signal_id = sig_signal_id sg, apr_approved = False,
      apr_reason = ''risk inputs could not be assembled'', apr_failed_gate = Some ''risk_inputs'',
      apr_approved_at = te_decided_at env, apr_correlation_id = sig_correlation_id sg\<rparr>"

definition cycle_decide ::
  "('b, 's, 'o, 'a, 'r, 'i, 'h) cycle_env \<Rightarrow> signal \<Rightarrow> market_state \<Rightarrow>
     ('b, 's, 'o, 'a, 'r, 'i, 'h, risk_approval) cycle_act"
where
  "cycle_decide env sg state c =
     (let context = \<lparr>cx_kill_switch = ks_state (tc_kill c), cx_ordered_signal_ids = tc_ordered_signal_ids c,
            cx_last_order_at = map_of (tc_last_order_at c) (sig_symbol sg)\<rparr> in
      abind (attempt (tc_on_inputs (te_risk_inputs env sg state context)))
        (\<lambda>r c'. case r of
             Inl _ \<Rightarrow> (Inr (inputs_refused env sg), c')
           | Inr inputs \<Rightarrow>
               (evaluate (te_approval_id env) (te_decided_at env) sg
                  (inputs\<lparr>ri_kill_switch := Some (ks_state (tc_kill c'))\<rparr>) (Some (te_limits env)), c')) c)"

definition broker_failure :: "exn \<Rightarrow> signal \<Rightarrow> risk_approval \<Rightarrow> cycle_outcome" where
  "broker_failure exc sg d =
     (case exn_order exc of
        Some ord \<Rightarrow>
          if ord_status ord = UNKNOWN
          then outcome AMBIGUOUS ''submission outcome unknown; the next loop queries client_order_id first''
                 (Some sg) (Some d) (Some ord)
          else if ord_status ord = REJECTED
          then outcome CYCLE_REJECTED ''broker rejected the order'' (Some sg) (Some d) (Some ord)
          else outcome BROKER_ERROR (''broker failure: '' @ exn_name exc) (Some sg) (Some d) None
      | None \<Rightarrow> outcome BROKER_ERROR (''broker failure: '' @ exn_name exc) (Some sg) (Some d) None)"

definition cycle_request :: "('b, 's, 'o, 'a, 'r, 'i, 'h) cycle_env \<Rightarrow> signal \<Rightarrow> order_request" where
  "cycle_request env sg =
     assign_client_order_id (te_uuid5 env) (te_dec_text env)
       \<lparr>req_signal_id = sig_signal_id sg, req_strategy_version = sig_strategy_version sg,
        req_symbol = sig_symbol sg, req_side = sig_side sg, req_order_type = MARKET,
        req_quantity = sig_quantity sg, req_limit_price = None, req_client_order_id = [],
        req_correlation_id = sig_correlation_id sg\<rparr>"

text \<open>What a failed submission makes of the cycle.\<close>

definition submit_failed ::
  "('b, 's, 'o, 'a, 'r, 'i, 'h) cycle_env \<Rightarrow> signal \<Rightarrow> risk_approval \<Rightarrow> exn \<Rightarrow>
     ('b, 's, 'o, 'a, 'r, 'i, 'h, cycle_outcome) cycle_act"
where
  "submit_failed env sg d exc c =
     (case exc of
        PersistenceUnavailable _ \<Rightarrow>
          cycle_halt env ''order could not be persisted; refusing to trade un-audited'' (Some sg) (Some d) c
      | _ \<Rightarrow>
          let closed_in_a_row = en_consecutive_never_sent (tc_engine c) in
          if NEVER_SENT_HALT_THRESHOLD \<le> closed_in_a_row
          then cycle_halt env (nat_str closed_in_a_row @ '' orders in a row were closed as never sent because the order-status lookup kept failing (last failure: '' @ exn_name exc @ ''); operator review required'')
                 (Some sg) (Some d)
                 (c\<lparr>tc_engine := (tc_engine c)\<lparr>en_consecutive_never_sent := 0\<rparr>\<rparr>)
          else (Inr (broker_failure exc sg d), c))"

definition cycle_submit ::
  "('b, 's, 'o, 'a, 'r, 'i, 'h) cycle_env \<Rightarrow> signal \<Rightarrow> risk_approval \<Rightarrow>
     ('b, 's, 'o, 'a, 'r, 'i, 'h, cycle_outcome) cycle_act"
where
  "cycle_submit env sg d c =
     (case mk_request (cycle_request env sg) of
        Inl exc \<Rightarrow> (Inl exc, c)
      | Inr request \<Rightarrow>
          abind (attempt (tc_on_engine (engine_submit (te_engine env) request d)))
            (\<lambda>r. case r of
               Inl exc \<Rightarrow> submit_failed env sg d exc
             | Inr ord \<Rightarrow> aret (outcome SUBMITTED ''order submitted'' (Some sg) (Some d) (Some ord)))
            (c\<lparr>tc_ordered_signal_ids := List.insert (sig_signal_id sg) (tc_ordered_signal_ids c),
               tc_last_order_at := AList.update (sig_symbol sg) (te_now env) (tc_last_order_at c)\<rparr>))"

text \<open>An audit write that failed halts trading; any other exception propagates.\<close>

definition audited_or_halt ::
  "('b, 's, 'o, 'a, 'r, 'i, 'h) cycle_env \<Rightarrow> string \<Rightarrow> signal \<Rightarrow> (exn, 'a, unit) act \<Rightarrow>
     ('b, 's, 'o, 'a, 'r, 'i, 'h, cycle_outcome) cycle_act \<Rightarrow> ('b, 's, 'o, 'a, 'r, 'i, 'h, cycle_outcome) cycle_act"
where
  "audited_or_halt env reason sg m continue =
     abind (attempt (tc_on_audit m)) (\<lambda>r. case r of
        Inl (PersistenceUnavailable _) \<Rightarrow> cycle_halt env reason (Some sg) None
      | Inl exc \<Rightarrow> athrow exc
      | Inr _ \<Rightarrow> continue)"

definition cycle_decided ::
  "('b, 's, 'o, 'a, 'r, 'i, 'h) cycle_env \<Rightarrow> signal \<Rightarrow> risk_approval \<Rightarrow>
     ('b, 's, 'o, 'a, 'r, 'i, 'h, cycle_outcome) cycle_act"
where
  "cycle_decided env sg d =
     audited_or_halt env ''risk decision could not be recorded'' sg (au_record_risk_decision (te_audit env) d)
       (if \<not> apr_approved d then aret (outcome REFUSED (apr_reason d) (Some sg) (Some d) None)
        else cycle_submit env sg d)"

definition cycle_signalled ::
  "('b, 's, 'o, 'a, 'r, 'i, 'h) cycle_env \<Rightarrow> market_state \<Rightarrow> signal \<Rightarrow>
     ('b, 's, 'o, 'a, 'r, 'i, 'h, cycle_outcome) cycle_act"
where
  "cycle_signalled env state sg =
     audited_or_halt env ''signal could not be recorded'' sg (au_record_signal (te_audit env) sg)
       (abind (cycle_decide env sg state) (cycle_decided env sg))"

definition cycle_trade ::
  "('b, 's, 'o, 'a, 'r, 'i, 'h) cycle_env \<Rightarrow> market_state \<Rightarrow> ('b, 's, 'o, 'a, 'r, 'i, 'h, cycle_outcome) cycle_act"
where
  "cycle_trade env state =
     abind (tc_on_strategy (te_strategy env state)) (\<lambda>signal. case signal of
       None \<Rightarrow> abind (sample_equity env state)
                 (\<lambda>_. aret (outcome NO_SIGNAL ''strategy returned no signal'' None None None))
     | Some sg \<Rightarrow> cycle_signalled env state sg)"

definition resolve_pending ::
  "('b, 's, 'o, 'a, 'r, 'i, 'h) cycle_env \<Rightarrow> (exn, ('b, 's, 'o) engine, trade_order list) act"
where
  "resolve_pending env =
     (let read = on_store (os_pending (ev_store (te_engine env))) in
      abind read (\<lambda>pending. if pending = [] then aret []
        else abind (engine_recover_pending (te_engine env)) (\<lambda>_. read)))"

text \<open>What the cycle does with the outcome of resolving the pending orders.\<close>

definition cycle_continue ::
  "('b, 's, 'o, 'a, 'r, 'i, 'h) cycle_env \<Rightarrow> market_state \<Rightarrow> exn + trade_order list \<Rightarrow>
     ('b, 's, 'o, 'a, 'r, 'i, 'h, cycle_outcome) cycle_act"
where
  "cycle_continue env state r =
     (case r of
        Inl (PersistenceUnavailable _) \<Rightarrow>
          cycle_halt env ''order store unavailable while resolving pending orders'' None None
      | Inl _ \<Rightarrow> cycle_unresolved env BROKER_ERROR ''pending orders could not be queried at the broker''
      | Inr pending \<Rightarrow>
          if pending \<noteq> []
          then cycle_unresolved env UNRESOLVED (nat_str (length pending) @
                 '' order(s) remain unresolved; no new entries until the broker confirms them'')
          else (\<lambda>c. cycle_trade env state (c\<lparr>tc_unresolved_since := None\<rparr>)))"

definition cycle_run ::
  "('b, 's, 'o, 'a, 'r, 'i, 'h) cycle_env \<Rightarrow> market_state \<Rightarrow> ('b, 's, 'o, 'a, 'r, 'i, 'h, cycle_outcome) cycle_act"
where
  "cycle_run env state =
     abind (tc_on_kill (ks_sync_external_state (te_kill_env env) (te_environ env) (te_flag env))) (\<lambda>_.
     abind (attempt (tc_on_engine (resolve_pending env))) (cycle_continue env state))"

section \<open>Risk inputs from the broker\<close>

text \<open>
  \<^verbatim>\<open>BrokerRiskInputs\<close>: its own state is the loss measure and the state file. The file holds the
  decimals as text; \<^verbatim>\<open>str\<close> and \<^verbatim>\<open>Decimal\<close> are inverse on them, so the model keeps the values.
  \<open>ie_date\<close> is \<^verbatim>\<open>date().isoformat()\<close>.
\<close>

datatype loss_file = LossSaved string rat rat | LossUnreadable

record loss_state =
  ls_peak_equity :: "rat option"
  ls_day_start :: "(string \<times> rat) option"
  ls_unreadable :: bool
  ls_file :: "loss_file option"

record 'b inputs_env =
  ie_broker :: "'b broker_ops"
  ie_healthy :: "'b \<Rightarrow> bool"
  ie_constraints :: "exchange_constraints + (string, exchange_constraints) dict"
  ie_estimated_slippage :: rat
  ie_quote_asset :: string
  ie_cooldown :: timedelta
  ie_trading_window :: "(datetime \<Rightarrow> bool) option"
  ie_now :: datetime
  ie_date :: "datetime \<Rightarrow> string"
  ie_has_path :: bool
  ie_disk_ok :: bool

type_synonym ('b, 'x) inputs_act = "(exn, 'b \<times> loss_state, 'x) act"

definition ie_on_broker :: "(exn, 'b, 'x) act \<Rightarrow> ('b, 'x) inputs_act" where
  "ie_on_broker m = (\<lambda>(b, l). case m b of (r, b') \<Rightarrow> (r, b', l))"

definition load_loss_state :: "bool \<Rightarrow> loss_file option \<Rightarrow> loss_state" where
  "load_loss_state has_path file =
     (let fresh = \<lparr>ls_peak_equity = None, ls_day_start = None, ls_unreadable = False, ls_file = file\<rparr> in
      if \<not> has_path then fresh
      else case file of
        None \<Rightarrow> fresh
      | Some (LossSaved day start peak) \<Rightarrow> fresh\<lparr>ls_day_start := Some (day, start), ls_peak_equity := Some peak\<rparr>
      | Some LossUnreadable \<Rightarrow> fresh\<lparr>ls_unreadable := True\<rparr>)"

definition save_loss_state :: "'b inputs_env \<Rightarrow> loss_state \<Rightarrow> bool \<times> loss_state" where
  "save_loss_state env l =
     (if \<not> ie_has_path env then (True, l)
      else case (ls_day_start l, ls_peak_equity l) of
        (Some (day, start), Some peak) \<Rightarrow>
          if ie_disk_ok env then (True, l\<lparr>ls_file := Some (LossSaved day start peak)\<rparr>) else (False, l)
      | _ \<Rightarrow> (False, l))"

text \<open>
  \<^verbatim>\<open>max(self._peak_equity or equity, equity)\<close>: a peak of zero counts as no peak.
\<close>

definition next_peak :: "rat option \<Rightarrow> rat \<Rightarrow> rat" where
  "next_peak peak equity =
     max (case peak of None \<Rightarrow> equity | Some p \<Rightarrow> if p = 0 then equity else p) equity"

definition next_day_start :: "string \<Rightarrow> rat \<Rightarrow> (string \<times> rat) option \<Rightarrow> string \<times> rat" where
  "next_day_start day equity start =
     (case start of None \<Rightarrow> (day, equity) | Some (d, e) \<Rightarrow> if d \<noteq> day then (day, equity) else (d, e))"

definition loss_measures ::
  "'b inputs_env \<Rightarrow> rat \<Rightarrow> rat option \<Rightarrow> loss_state \<Rightarrow> (exn + (rat option \<times> rat option)) \<times> loss_state"
where
  "loss_measures env cash exposure l =
     (case exposure of
        None \<Rightarrow> (Inr (None, None), l)
      | Some ex \<Rightarrow>
          if ls_unreadable l then (Inr (None, None), l)
          else
            let equity = equity_value cash ex;
                start = next_day_start (ie_date env (ie_now env)) equity (ls_day_start l);
                peak = next_peak (ls_peak_equity l) equity;
                l1 = l\<lparr>ls_day_start := Some start, ls_peak_equity := Some peak\<rparr> in
            (case save_loss_state env l1 of
               (False, l2) \<Rightarrow> (Inr (None, None), l2)
             | (True, l2) \<Rightarrow>
                 (rbind (if peak = 0 then Inr None
                         else rbind (lift_arith (ddiv (dsub peak equity) peak)) (\<lambda>x. Inr (Some x)))
                    (\<lambda>drawdown. Inr (Some (max 0 (dsub (snd start) equity)), drawdown)), l2)))"

definition mark :: "'b inputs_env \<Rightarrow> string \<Rightarrow> ('b, rat option) inputs_act" where
  "mark env symb =
     abind (attempt (ie_on_broker (bo_get_quote (ie_broker env) symb))) (\<lambda>r. aret (case r of
        Inl _ \<Rightarrow> None | Inr q \<Rightarrow> mark_from_quote q symb))"

fun exposure_loop ::
  "'b inputs_env \<Rightarrow> string \<Rightarrow> rat option \<Rightarrow> (string \<times> position) list \<Rightarrow> rat \<Rightarrow> ('b, rat option) inputs_act"
where
  "exposure_loop env symb ref [] acc s = (Inr (Some acc), s)"
| "exposure_loop env symb ref ((held_symbol, p) # rest) acc s =
     abind (if held_symbol = symb then aret ref else mark env held_symbol)
       (\<lambda>m. case m of
          None \<Rightarrow> aret None
        | Some v \<Rightarrow> if v \<le> 0 then aret None
                    else exposure_loop env symb ref rest (dadd acc (position_value p v))) s"

definition exposure ::
  "'b inputs_env \<Rightarrow> position list \<Rightarrow> string \<Rightarrow> rat option \<Rightarrow> ('b, (string, position) dict \<times> rat option) inputs_act"
where
  "exposure env ps symb ref =
     abind (exposure_loop env symb ref (held_positions ps) 0) (\<lambda>x. aret (held_positions ps, x))"

definition last_close :: "market_state \<Rightarrow> rat option" where
  "last_close state = (if ms_candles state = [] then None else Some (cdl_close (last (ms_candles state))))"

definition window_open :: "'b inputs_env \<Rightarrow> bool" where
  "window_open env = (case ie_trading_window env of None \<Rightarrow> True | Some w \<Rightarrow> w (ie_now env))"

definition constraints_for :: "'b inputs_env \<Rightarrow> string \<Rightarrow> exchange_constraints option" where
  "constraints_for env symb = (case ie_constraints env of Inl c \<Rightarrow> Some c | Inr m \<Rightarrow> map_of m symb)"

definition on_loss :: "(loss_state \<Rightarrow> (exn + 'x) \<times> loss_state) \<Rightarrow> ('b, 'x) inputs_act" where
  "on_loss f = (\<lambda>(b, l). case f l of (r, l') \<Rightarrow> (r, b, l'))"

definition observe :: "'b inputs_env \<Rightarrow> market_state \<Rightarrow> ('b, unit) inputs_act" where
  "observe env state =
     abind (ie_on_broker (bo_get_balances (ie_broker env))) (\<lambda>balances.
     abind (ie_on_broker (bo_get_positions (ie_broker env))) (\<lambda>positions.
     abind (exposure env positions (ms_symbol state) (last_close state)) (\<lambda>(_, ex).
     abind (on_loss (loss_measures env (snd (quote_cash balances (ie_quote_asset env))) ex)) (\<lambda>_. aret ()))))"

definition unavailable_inputs :: "'b inputs_env \<Rightarrow> cycle_context \<Rightarrow> risk_inputs" where
  "unavailable_inputs env context =
     \<lparr>ri_kill_switch = Some (cx_kill_switch context), ri_operator_paused = Some False,
      ri_trading_window_open = Some (window_open env), ri_broker_healthy = Some False, ri_quote = None,
      ri_reference_price = None, ri_volatility = None, ri_duplicate_signal_ids = None,
      ri_symbol_cooldown_clear = None, ri_open_positions = None, ri_open_notional = None,
      ri_symbol_position = None, ri_aggregate_allocation = None, ri_available_cash = None,
      ri_daily_loss = None, ri_drawdown = None, ri_expected_price = None, ri_estimated_slippage = None,
      ri_constraints = None, ri_now = ie_now env\<rparr>"

definition volatility_of :: "market_state \<Rightarrow> exn + rat option" where
  "volatility_of state =
     (if ms_candles state = [] then Inr None
      else let bar = last (ms_candles state) in
        rbind (lift_arith (ddiv (dsub (cdl_high bar) (cdl_low bar)) (cdl_close bar))) (\<lambda>v. Inr (Some v)))"

definition read_broker :: "'b inputs_env \<Rightarrow> string \<Rightarrow> ('b, quote \<times> balance list \<times> position list) inputs_act" where
  "read_broker env symb =
     abind (ie_on_broker (bo_get_quote (ie_broker env) symb)) (\<lambda>q.
     abind (ie_on_broker (bo_get_balances (ie_broker env))) (\<lambda>bs.
     abind (ie_on_broker (bo_get_positions (ie_broker env))) (\<lambda>ps. aret (q, bs, ps))))"

definition assemble_inputs ::
  "'b inputs_env \<Rightarrow> signal \<Rightarrow> market_state \<Rightarrow> cycle_context \<Rightarrow> quote \<times> balance list \<times> position list \<Rightarrow>
     ('b, risk_inputs) inputs_act"
where
  "assemble_inputs env sg state context = (\<lambda>(q, balances, positions).
     abind (\<lambda>s. (volatility_of state, s)) (\<lambda>vol.
     abind (exposure env positions (sig_symbol sg) (last_close state)) (\<lambda>(held, ex).
     abind (on_loss (loss_measures env (snd (quote_cash balances (ie_quote_asset env))) ex)) (\<lambda>(daily_loss, drawdown).
       \<lambda>(b, l). (Inr
         \<lparr>ri_kill_switch = Some (cx_kill_switch context), ri_operator_paused = Some False,
          ri_trading_window_open = Some (window_open env), ri_broker_healthy = Some (ie_healthy env b),
          ri_quote = Some q, ri_reference_price = last_close state, ri_volatility = vol,
          ri_duplicate_signal_ids = Some (cx_ordered_signal_ids context),
          ri_symbol_cooldown_clear = Some (case cx_last_order_at context of
             None \<Rightarrow> True | Some t \<Rightarrow> ie_cooldown env \<le> ie_now env - t),
          ri_open_positions = Some (int (length held)), ri_open_notional = ex,
          ri_symbol_position = Some (case map_of held (sig_symbol sg) of None \<Rightarrow> 0 | Some p \<Rightarrow> pos_quantity p),
          ri_aggregate_allocation = ex,
          ri_available_cash = Some (fst (quote_cash balances (ie_quote_asset env))),
          ri_daily_loss = daily_loss, ri_drawdown = drawdown,
          ri_expected_price = Some (if sig_side sg = BUY then q_ask q else q_bid q),
          ri_estimated_slippage = Some (ie_estimated_slippage env),
          ri_constraints = constraints_for env (sig_symbol sg), ri_now = ie_now env\<rparr>, b, l)))))"

definition broker_risk_inputs ::
  "'b inputs_env \<Rightarrow> signal \<Rightarrow> market_state \<Rightarrow> cycle_context \<Rightarrow> ('b, risk_inputs) inputs_act"
where
  "broker_risk_inputs env sg state context =
     abind (attempt (read_broker env (sig_symbol sg))) (\<lambda>r. case r of
        Inl _ \<Rightarrow> aret (unavailable_inputs env context)
      | Inr found \<Rightarrow> assemble_inputs env sg state context found)"

section \<open>What the steps of a cycle keep\<close>

text \<open>The engine keeps what every operation of its store keeps.\<close>

lemma on_store_triple:
  assumes "triple J m (\<lambda>_. J) (\<lambda>_. J)"
  shows "triple (\<lambda>e. J (en_store e)) (on_store m) (\<lambda>_ e. J (en_store e)) (\<lambda>_ e. J (en_store e))"
  using assms unfolding triple_snd_iff by simp

lemma on_broker_triple:
  "triple (\<lambda>e. J (en_store e)) (on_broker m) (\<lambda>_ e. J (en_store e)) (\<lambda>_ e. J (en_store e))"
  unfolding triple_snd_iff by simp

lemma on_observer_triple:
  "triple (\<lambda>e. J (en_store e)) (on_observer m) (\<lambda>_ e. J (en_store e)) (\<lambda>_ e. J (en_store e))"
  unfolding triple_snd_iff by simp

lemma triple_same:
  assumes "triple P m (\<lambda>_. P) (\<lambda>_. P)" "\<And>x. triple P (f x) (\<lambda>_. P) (\<lambda>_. P)"
  shows "triple P (abind m f) (\<lambda>_. P) (\<lambda>_. P)"
  using assms by (rule triple_abind)

lemma triple_pure: "triple P (\<lambda>s. (x, s)) (\<lambda>_. P) (\<lambda>_. P)"
  by (simp add: triple_snd_iff)

lemma engine_record_keeps:
  assumes "\<And>fs. triple J (os_add_fills (ev_store env) fs) (\<lambda>_. J) (\<lambda>_. J)"
    and "\<And>ord. triple J (os_update (ev_store env) ord) (\<lambda>_. J) (\<lambda>_. J)"
  shows "triple (\<lambda>e. J (en_store e)) (engine_record env ord) (\<lambda>_ e. J (en_store e)) (\<lambda>_ e. J (en_store e))"
proof -
  have fills: "triple (\<lambda>e. J (en_store e)) (record_fills env l) (\<lambda>_ e. J (en_store e)) (\<lambda>_ e. J (en_store e))" for l
    unfolding record_fills_def
    by (auto intro!: triple_same triple_aret on_store_triple assms(1)) (simp add: triple_snd_iff)
  have status: "triple (\<lambda>e. J (en_store e)) (record_status env ord l) (\<lambda>_ e. J (en_store e)) (\<lambda>_ e. J (en_store e))" for l
    unfolding record_status_def by (auto intro!: triple_aret on_store_triple assms(2))
  have notify: "triple (\<lambda>e. J (en_store e)) (record_notify env ord l) (\<lambda>_ e. J (en_store e)) (\<lambda>_ e. J (en_store e))" for l
    unfolding record_notify_def by (auto intro!: triple_aret on_observer_triple split: option.split)
  show ?thesis
    unfolding engine_record_def Let_def
    by (intro triple_same on_broker_triple fills status notify triple_aret)
qed

lemma engine_recover_keeps:
  assumes "\<And>fs. triple J (os_add_fills (ev_store env) fs) (\<lambda>_. J) (\<lambda>_. J)"
    and "\<And>ord. triple J (os_update (ev_store env) ord) (\<lambda>_. J) (\<lambda>_. J)"
    and "\<And>k. triple J (os_get (ev_store env) k) (\<lambda>_. J) (\<lambda>_. J)"
  shows "triple (\<lambda>e. J (en_store e)) (engine_recover env k) (\<lambda>_ e. J (en_store e)) (\<lambda>_ e. J (en_store e))"
  unfolding engine_recover_def
  by (rule triple_same, rule on_broker_triple)
    (auto intro!: triple_same triple_aret on_store_triple engine_record_keeps assms split: option.split)

lemma recover_loop_keeps:
  assumes "\<And>k. triple P (engine_recover env k) (\<lambda>_. P) (\<lambda>_. P)"
  shows "triple P (recover_loop env ords acc) (\<lambda>_. P) (\<lambda>_. P)"
proof (induction ords arbitrary: acc)
  case (Cons ord rest)
  have "recover_loop env (ord # rest) acc =
      abind (engine_recover env (req_client_order_id (ord_request ord)))
        (\<lambda>r. recover_loop env rest (case r of None \<Rightarrow> acc | Some x \<Rightarrow> acc @ [x]))"
    by (simp add: fun_eq_iff abind_def split: prod.split sum.split)
  then show ?case by (simp add: triple_same assms Cons.IH)
qed (simp add: triple_def)

lemma close_never_sent_keeps:
  assumes "\<And>k ev pl t. triple J (os_close_unreceived (ev_store env) k ev pl t) (\<lambda>_. J) (\<lambda>_. J)"
  shows "triple (\<lambda>e. J (en_store e)) (close_never_sent env ord exc) (\<lambda>_ e. J (en_store e)) (\<lambda>_ e. J (en_store e))"
  unfolding close_never_sent_def
proof (intro triple_same on_store_triple assms)
  fix was_closed
  show "triple (\<lambda>e. J (en_store e))
     (if \<not> was_closed then athrow (PersistenceUnavailable
            ''new pending order was already resolved elsewhere, so it was not audit-closed'')
      else (\<lambda>e. let e1 = e\<lparr>en_consecutive_never_sent := en_consecutive_never_sent e + 1\<rparr> in
         case ev_on_order_closed env of
           None \<Rightarrow> (Inr (), e1)
         | Some notify \<Rightarrow> (Inr (), snd (on_observer (notify ord exc) e1))))
     (\<lambda>_ e. J (en_store e)) (\<lambda>_ e. J (en_store e))"
    by (auto simp: triple_snd_iff Let_def split: option.split)
qed

lemma engine_submit_keeps:
  fixes env :: "('b, 's, 'o) engine_env"
  assumes "apr_approved apr \<Longrightarrow> triple J (os_reserve_with_created (ev_store env) r apr) (\<lambda>_. J) (\<lambda>_. J)"
    and "\<And>fs. triple J (os_add_fills (ev_store env) fs) (\<lambda>_. J) (\<lambda>_. J)"
    and "\<And>ord. triple J (os_update (ev_store env) ord) (\<lambda>_. J) (\<lambda>_. J)"
    and "\<And>k ev pl t. triple J (os_close_unreceived (ev_store env) k ev pl t) (\<lambda>_. J) (\<lambda>_. J)"
  shows "triple (\<lambda>e. J (en_store e)) (engine_submit env r apr) (\<lambda>_ e. J (en_store e)) (\<lambda>_ e. J (en_store e))"
proof -
  let ?P = "\<lambda>e :: ('b, 's, 'o) engine. J (en_store e)"
  have send: "triple ?P (engine_send env r apr) (\<lambda>_. ?P) (\<lambda>_. ?P)"
    unfolding triple_snd_iff
  proof (intro allI impI)
    fix e :: "('b, 's, 'o) engine"
    assume e: "J (en_store e)"
    obtain x e1 where sub: "on_broker (bo_submit_order (ev_broker env) r apr) e = (x, e1)" by force
    then have e1: "J (en_store e1)" using e snd_on_broker(1) by (metis snd_conv)
    have "triple ?P (abind (on_store (os_update (ev_store env) ord)) (\<lambda>_. athrow exc)) (\<lambda>_. ?P) (\<lambda>_. ?P)" for ord exc
      by (intro triple_same on_store_triple assms triple_athrow)
    then show "J (en_store (snd (engine_send env r apr e)))"
      using e1 engine_record_keeps[OF assms(2,3)]
      by (auto simp: engine_send_def sub triple_snd_iff split: sum.split option.split)
  qed
  have look: "triple ?P (engine_lookup_and_send env r apr p c) (\<lambda>_. ?P) (\<lambda>_. ?P)" for p c
    unfolding triple_snd_iff
  proof (intro allI impI)
    fix e :: "('b, 's, 'o) engine"
    assume e: "J (en_store e)"
    obtain x e1 where sub: "on_broker (bo_get_order (ev_broker env) (req_client_order_id r)) e = (x, e1)" by force
    then have e1: "J (en_store e1)" using e snd_on_broker(1) by (metis snd_conv)
    have "triple ?P (abind (close_never_sent env p exc) (\<lambda>_. athrow exc)) (\<lambda>_. ?P) (\<lambda>_. ?P)" for exc
      by (intro triple_same close_never_sent_keeps assms triple_athrow)
    then show "J (en_store (snd (engine_lookup_and_send env r apr p c e)))"
      using e1 engine_record_keeps[OF assms(2,3)] send
      by (auto simp: engine_lookup_and_send_def sub Let_def triple_snd_iff split: sum.split option.split)
  qed
  show ?thesis
    unfolding engine_submit_def
    by (auto intro!: triple_same triple_athrow triple_aret on_store_triple assms look)
qed

section \<open>Every order stays linked to its signal and its decision\<close>

text \<open>What links an order: its signal, that signal's strategy version and its risk decision.\<close>

definition order_link :: "order_record \<Rightarrow> uuid \<times> string \<times> uuid" where
  "order_link rec = (or_signal_id rec, or_strategy_version rec, or_risk_approval_id rec)"

definition order_links :: "order_db \<Rightarrow> (uuid \<times> string \<times> uuid) set" where
  "order_links s = order_link ` set (db_orders s)"

lemma order_links_set_status: "order_link ` set (set_row_status k st rows) = order_link ` set rows"
  unfolding set_row_status_def set_map image_image
  by (rule image_cong) (auto simp: order_link_def)

lemma order_links_update: "order_links (snd (sql_update ord s)) = order_links s"
  by (simp add: sql_update_def db_call_def Let_def order_links_def order_links_set_status split: option.split)

lemma order_links_add_fills: "order_links (snd (sql_add_fills numeric fs s)) = order_links s"
  by (simp add: sql_add_fills_def db_call_def Let_def order_links_def)

lemma order_links_close: "order_links (snd (sql_close_unreceived is_uuid k ev pl t s)) = order_links s"
  by (simp add: sql_close_unreceived_def db_call_def Let_def order_links_def order_links_set_status split: option.split)

lemma order_links_get: "order_links (snd (sql_get is_uuid now k s)) = order_links s"
  by (simp add: sql_get_def db_call_def Let_def order_links_def split: option.split sum.split)

lemma order_links_pending: "order_links (snd (sql_pending now s)) = order_links s"
  by (simp add: sql_pending_def db_call_def Let_def order_links_def)

lemma order_links_reserve:
  "order_links (snd (sql_reserve_with_created numeric now r apr s)) \<subseteq>
     insert (req_signal_id r, req_strategy_version r, apr_approval_id apr) (order_links s)"
  by (auto simp: sql_reserve_with_created_def db_call_def Let_def order_links_def new_row_def order_link_def
      split: option.split)

lemmas order_links_ops = order_links_update order_links_add_fills order_links_close order_links_get order_links_pending

definition vouched_links :: "audit_db \<Rightarrow> (uuid \<times> string \<times> uuid) set" where
  "vouched_links a = {(sid, version, aid). sa_signal_version a sid = Some version \<and> sa_decision_approved a aid = Some True}"

text \<open>The lineage of an order lacks at most its fills exactly when its link is vouched for.\<close>

lemma lineage_of_vouched:
  "set (lineage_gaps (lineage_of_row s a rec)) \<subseteq> {''fills''} \<longleftrightarrow> order_link rec \<in> vouched_links a"
  by (auto simp: lineage_gaps_def lineage_of_row_def Let_def order_link_def vouched_links_def
      sa_signal_version_def sa_decision_approved_def split: option.splits if_splits)

lemma lineage_linked:
  "(\<forall>l \<in> set (sa_lineage s a). set (lineage_gaps l) \<subseteq> {''fills''}) \<longleftrightarrow> order_links s \<subseteq> vouched_links a"
  by (auto simp: sa_lineage_def lineage_of_vouched order_links_def)

text \<open>A view of the cycle's state through the order store and the audit store.\<close>

abbreviation seen :: "('s \<Rightarrow> 'a \<Rightarrow> bool) \<Rightarrow> ('b, 's, 'o, 'a, 'r, 'i, 'h) cycle \<Rightarrow> bool" where
  "seen K c \<equiv> K (en_store (tc_engine c)) (tc_audit c)"

lemma seen_frame:
  "triple (seen K) (tc_on_kill m1) (\<lambda>_. seen K) (\<lambda>_. seen K)"
  "triple (seen K) (tc_on_hook m2) (\<lambda>_. seen K) (\<lambda>_. seen K)"
  "triple (seen K) (tc_on_strategy m3) (\<lambda>_. seen K) (\<lambda>_. seen K)"
  "triple (seen K) (tc_on_inputs m4) (\<lambda>_. seen K) (\<lambda>_. seen K)"
  unfolding triple_snd_iff
  by (simp_all add: tc_on_kill_def tc_on_hook_def tc_on_strategy_def tc_on_inputs_def split_beta)

lemma triple_attempt_same:
  assumes "triple P m (\<lambda>_. P) (\<lambda>_. P)"
  shows "triple P (attempt m) (\<lambda>_. P) (\<lambda>_. P)"
  using assms by (simp add: triple_snd_iff)

lemma seen_halt:
  fixes env :: "('b, 's, 'o, 'a, 'r, 'i, 'h) cycle_env"
  shows "triple (seen K) (cycle_halt env reason sg d) (\<lambda>_. seen K) (\<lambda>_. seen K)"
proof -
  have "triple (seen K) (abind (tc_on_kill (ks_trip (te_kill_env env 2) (''trading cycle: '' @ reason)))
             (\<lambda>_. abind (attempt (case te_on_halt env of None \<Rightarrow> aret () | Some hook \<Rightarrow> tc_on_hook (hook reason)))
               (\<lambda>_. aret (outcome CYCLE_HALTED reason sg d None)))
           :: ('b, 's, 'o, 'a, 'r, 'i, 'h, cycle_outcome) cycle_act) (\<lambda>_. seen K) (\<lambda>_. seen K)"
    by (intro triple_same seen_frame triple_attempt_same triple_aret)
      (auto intro!: seen_frame triple_aret split: option.split)
  then show ?thesis by (simp add: triple_snd_iff cycle_halt_def)
qed

lemma seen_unresolved: "triple (seen K) (cycle_unresolved env st detail) (\<lambda>_. seen K) (\<lambda>_. seen K)"
  unfolding triple_snd_iff
  by (simp add: cycle_unresolved_def Let_def seen_halt[unfolded triple_snd_iff, rule_format])

lemma seen_sample: "triple (seen K) (sample_equity env state) (\<lambda>_. seen K) (\<lambda>_. seen K)"
  unfolding sample_equity_def
  by (auto intro!: triple_same triple_attempt_same seen_frame triple_aret split: option.split)

lemma seen_decide:
  fixes env :: "('b, 's, 'o, 'a, 'r, 'i, 'h) cycle_env"
  shows "triple (seen K) (cycle_decide env sg state) (\<lambda>_. seen K) (\<lambda>_. seen K)"
proof -
  have "triple (seen K) (abind (attempt (tc_on_inputs (te_risk_inputs env sg state cx)))
        (\<lambda>r c'. case r of
             Inl _ \<Rightarrow> (Inr (inputs_refused env sg), c')
           | Inr inputs \<Rightarrow>
               (evaluate (te_approval_id env) (te_decided_at env) sg
                  (inputs\<lparr>ri_kill_switch := Some (ks_state (tc_kill c'))\<rparr>) (Some (te_limits env)), c'))
           :: ('b, 's, 'o, 'a, 'r, 'i, 'h, risk_approval) cycle_act)
     (\<lambda>_. seen K) (\<lambda>_. seen K)" for cx
    by (intro triple_same triple_attempt_same seen_frame) (simp add: triple_snd_iff split: sum.split)
  then show ?thesis by (simp add: triple_snd_iff cycle_decide_def Let_def)
qed

text \<open>The engine's operations, seen from the cycle.\<close>

lemma seen_engine:
  assumes "\<And>a. triple (\<lambda>e. K (en_store e) a) m (\<lambda>_ e. K (en_store e) a) (\<lambda>_ e. K (en_store e) a)"
  shows "triple (seen K) (tc_on_engine m) (\<lambda>_. seen K) (\<lambda>_. seen K)"
  using assms unfolding triple_snd_iff by (simp add: tc_on_engine_def split_beta)

definition links_within :: "(uuid \<times> string \<times> uuid) set \<Rightarrow> order_db \<Rightarrow> bool" where
  "links_within L s \<longleftrightarrow> order_links s \<subseteq> L"

lemma links_within_ops:
  "triple (links_within L) (sql_update ord) (\<lambda>_. links_within L) (\<lambda>_. links_within L)"
  "triple (links_within L) (sql_add_fills numeric fs) (\<lambda>_. links_within L) (\<lambda>_. links_within L)"
  "triple (links_within L) (sql_close_unreceived is_uuid k ev pl t) (\<lambda>_. links_within L) (\<lambda>_. links_within L)"
  "triple (links_within L) (sql_get is_uuid now k) (\<lambda>_. links_within L) (\<lambda>_. links_within L)"
  "triple (links_within L) (sql_pending now) (\<lambda>_. links_within L) (\<lambda>_. links_within L)"
  by (simp_all add: triple_snd_iff links_within_def order_links_ops)

lemma links_within_reserve:
  assumes "(req_signal_id r, req_strategy_version r, apr_approval_id apr) \<in> L"
  shows "triple (links_within L) (sql_reserve_with_created numeric now r apr) (\<lambda>_. links_within L) (\<lambda>_. links_within L)"
  using assms order_links_reserve[of numeric now r apr] by (fastforce simp: triple_snd_iff links_within_def)

definition on_database ::
  "(rat \<Rightarrow> rat) \<Rightarrow> (string \<Rightarrow> bool) \<Rightarrow> datetime \<Rightarrow>
     ('b, order_db, 'o, audit_db, 'r, 'i, 'h) cycle_env \<Rightarrow> bool"
where
  "on_database numeric is_uuid now env \<longleftrightarrow>
     ev_store (te_engine env) = sql_ops numeric is_uuid now \<and> te_audit env = sql_audit_ops numeric"

lemma resolve_pending_links:
  assumes "on_database numeric is_uuid now env"
  shows "triple (\<lambda>e. links_within L (en_store e)) (resolve_pending env)
     (\<lambda>_ e. links_within L (en_store e)) (\<lambda>_ e. links_within L (en_store e))"
proof -
  have st: "ev_store (te_engine env) = sql_ops numeric is_uuid now" using assms by (simp add: on_database_def)
  have pend: "triple (\<lambda>e. links_within L (en_store e)) (on_store (os_pending (ev_store (te_engine env))))
      (\<lambda>_ e. links_within L (en_store e)) (\<lambda>_ e. links_within L (en_store e))"
    by (rule on_store_triple) (simp add: st sql_ops_def links_within_ops)
  have loop: "triple (\<lambda>e. links_within L (en_store e)) (recover_loop (te_engine env) ords acc)
      (\<lambda>_ e. links_within L (en_store e)) (\<lambda>_ e. links_within L (en_store e))" for ords acc
    by (rule recover_loop_keeps, rule engine_recover_keeps) (simp_all add: st sql_ops_def links_within_ops)
  show ?thesis
    unfolding resolve_pending_def Let_def engine_recover_pending_def
    by (auto intro!: triple_same triple_aret pend loop)
qed

lemma submit_links:
  assumes "on_database numeric is_uuid now env"
    and "(req_signal_id r, req_strategy_version r, apr_approval_id d) \<in> L"
  shows "triple (\<lambda>e. links_within L (en_store e)) (engine_submit (te_engine env) r d)
     (\<lambda>_ e. links_within L (en_store e)) (\<lambda>_ e. links_within L (en_store e))"
  using assms(1)
  by (intro engine_submit_keeps) (simp_all add: on_database_def sql_ops_def links_within_ops links_within_reserve assms(2))

lemma cycle_request_fields [simp]:
  "req_signal_id (cycle_request env sg) = sig_signal_id sg"
  "req_strategy_version (cycle_request env sg) = sig_strategy_version sg"
  by (simp_all add: cycle_request_def assign_client_order_id_def)

lemma seen_submit_failed: "triple (seen K) (submit_failed env sg d exc) (\<lambda>_. seen K) (\<lambda>_. seen K)"
  unfolding triple_snd_iff
  by (simp add: submit_failed_def Let_def seen_halt[unfolded triple_snd_iff, rule_format] split: exn.split)

lemma cycle_submit_links:
  fixes env :: "('b, order_db, 'o, audit_db, 'r, 'i, 'h) cycle_env"
  assumes "on_database numeric is_uuid now env"
    and "(sig_signal_id sg, sig_strategy_version sg, apr_approval_id d) \<in> L"
  shows "triple (seen (\<lambda>s a. links_within L s \<and> R a)) (cycle_submit env sg d)
     (\<lambda>_. seen (\<lambda>s a. links_within L s \<and> R a)) (\<lambda>_. seen (\<lambda>s a. links_within L s \<and> R a))"
proof (unfold triple_snd_iff, intro allI impI)
  let ?K = "\<lambda>s a. links_within L s \<and> R a"
  fix c :: "('b, order_db, 'o, audit_db, 'r, 'i, 'h) cycle"
  assume c: "seen ?K c"
  show "seen ?K (snd (cycle_submit env sg d c))"
  proof (cases "mk_request (cycle_request env sg)")
    case (Inr request)
    then have "request = cycle_request env sg" by (simp add: mk_request_def split: if_splits)
    then have sub: "triple (\<lambda>e. links_within L (en_store e)) (engine_submit (te_engine env) request d)
        (\<lambda>_ e. links_within L (en_store e)) (\<lambda>_ e. links_within L (en_store e))"
      using submit_links[OF assms(1)] assms(2) by simp
    have eng: "triple (seen ?K) (tc_on_engine (engine_submit (te_engine env) request d)) (\<lambda>_. seen ?K) (\<lambda>_. seen ?K)"
      by (rule seen_engine) (use sub in \<open>simp add: triple_snd_iff\<close>)
    have "triple (seen ?K) (abind (attempt (tc_on_engine (engine_submit (te_engine env) request d)))
            (\<lambda>r. case r of
               Inl exc \<Rightarrow> submit_failed env sg d exc
             | Inr ord \<Rightarrow> aret (outcome SUBMITTED ''order submitted'' (Some sg) (Some d) (Some ord)))
           :: ('b, order_db, 'o, audit_db, 'r, 'i, 'h, cycle_outcome) cycle_act)
         (\<lambda>_. seen ?K) (\<lambda>_. seen ?K)"
      by (intro triple_same triple_attempt_same eng)
        (auto intro!: seen_submit_failed triple_aret split: sum.split)
    then show ?thesis using c by (simp add: triple_snd_iff cycle_submit_def Inr)
  qed (use c in \<open>simp add: cycle_submit_def\<close>)
qed

text \<open>All saved orders are vouched for by the audit tables.\<close>

definition all_vouched :: "order_db \<Rightarrow> audit_db \<Rightarrow> bool" where
  "all_vouched s a \<longleftrightarrow> links_within (vouched_links a) s"

lemma cycle_submit_vouched:
  fixes env :: "('b, order_db, 'o, audit_db, 'r, 'i, 'h) cycle_env"
  assumes "on_database numeric is_uuid now env"
  shows "triple (seen (\<lambda>s a. all_vouched s a \<and>
       (sig_signal_id sg, sig_strategy_version sg, apr_approval_id d) \<in> vouched_links a))
     (cycle_submit env sg d) (\<lambda>_. seen all_vouched) (\<lambda>_. seen all_vouched)"
proof (unfold triple_snd_iff, intro allI impI)
  fix c :: "('b, order_db, 'o, audit_db, 'r, 'i, 'h) cycle"
  assume c: "seen (\<lambda>s a. all_vouched s a \<and>
       (sig_signal_id sg, sig_strategy_version sg, apr_approval_id d) \<in> vouched_links a) c"
  show "seen all_vouched (snd (cycle_submit env sg d c))"
    using cycle_submit_links[OF assms, of sg d "vouched_links (tc_audit c)" "\<lambda>a. a = tc_audit c"] c
    by (simp add: triple_snd_iff all_vouched_def)
qed

lemma audited_or_halt_triple:
  fixes env :: "('b, 's, 'o, 'a, 'r, 'i, 'h) cycle_env"
  assumes "\<And>s a. K s a \<Longrightarrow> (case m a of (Inl _, a') \<Rightarrow> Q s a' | (Inr _, a') \<Rightarrow> K' s a')"
    and "triple (seen K') continue (\<lambda>_. seen Q) (\<lambda>_. seen Q)"
  shows "triple (seen K) (audited_or_halt env reason sg m continue) (\<lambda>_. seen Q) (\<lambda>_. seen Q)"
  unfolding audited_or_halt_def
proof (rule triple_abind[where R = "\<lambda>r c. case r of Inl _ \<Rightarrow> seen Q c | Inr _ \<Rightarrow> seen K' c"])
  have "triple (seen K) (tc_on_audit m :: ('b, 's, 'o, 'a, 'r, 'i, 'h, unit) cycle_act) (\<lambda>_. seen K') (\<lambda>_. seen Q)"
    unfolding triple_def
  proof (intro allI impI)
    fix c :: "('b, 's, 'o, 'a, 'r, 'i, 'h) cycle"
    assume "seen K c"
    from assms(1)[OF this]
    show "case tc_on_audit m c of (Inl e, t) \<Rightarrow> seen Q t | (Inr x, t) \<Rightarrow> seen K' t"
      by (simp add: tc_on_audit_def split_beta split: sum.splits)
  qed
  then show "triple (seen K) (attempt (tc_on_audit m))
     (\<lambda>r (c :: ('b, 's, 'o, 'a, 'r, 'i, 'h) cycle). case r of Inl _ \<Rightarrow> seen Q c | Inr _ \<Rightarrow> seen K' c) (\<lambda>_. seen Q)"
    by (rule triple_attempt)
next
  fix r :: "exn + unit"
  show "triple (\<lambda>c. case r of Inl _ \<Rightarrow> seen Q c | Inr _ \<Rightarrow> seen K' c)
     (case r of Inl (PersistenceUnavailable _) \<Rightarrow> cycle_halt env reason (Some sg) None
        | Inl exc \<Rightarrow> athrow exc | Inr _ \<Rightarrow> continue) (\<lambda>_. seen Q) (\<lambda>_. seen Q)"
    using assms(2) by (auto intro!: seen_halt triple_athrow split: sum.split exn.split)
qed

lemma vouched_links_mono:
  assumes "sa_signal_version a \<subseteq>\<^sub>m sa_signal_version a'" "sa_decision_approved a \<subseteq>\<^sub>m sa_decision_approved a'"
  shows "vouched_links a \<subseteq> vouched_links a'"
  using assms by (force simp: vouched_links_def map_le_def dom_def)

lemma record_signal_vouches:
  assumes "sa_record_signal numeric sg a = (r, a')"
    and "sa_signal_version a (sig_signal_id sg) \<in> {None, Some (sig_strategy_version sg)}"
  shows "vouched_links a \<subseteq> vouched_links a' \<and> sa_decision_approved a' = sa_decision_approved a \<and>
    (r = Inr () \<longrightarrow> sa_signal_version a' (sig_signal_id sg) = Some (sig_strategy_version sg))"
proof (cases r)
  case (Inl e)
  then show ?thesis
    using sql_audit.signal_Inl[of numeric sg a e a'] assms(1)
    by (auto simp: sql_audit_ops_def vouched_links_def)
next
  case (Inr u)
  then have "sa_signal_version a' = (if sa_signal_version a (sig_signal_id sg) = None
        then (sa_signal_version a)(sig_signal_id sg \<mapsto> sig_strategy_version sg) else sa_signal_version a)"
    and d: "sa_decision_approved a' = sa_decision_approved a"
    using sql_audit.signal_Inr[of numeric sg a a'] assms(1) by (auto simp: sql_audit_ops_def)
  then have v: "sa_signal_version a \<subseteq>\<^sub>m sa_signal_version a'"
      "sa_signal_version a' (sig_signal_id sg) = Some (sig_strategy_version sg)"
    using assms(2) by (auto simp: map_le_def)
  then show ?thesis using vouched_links_mono[OF v(1)] d by (simp add: map_le_def)
qed

lemma record_decision_vouches:
  assumes "sa_record_risk_decision d a = (r, a')" "sa_decision_approved a (apr_approval_id d) = None"
  shows "vouched_links a \<subseteq> vouched_links a' \<and> sa_signal_version a' = sa_signal_version a \<and>
    (r = Inr () \<longrightarrow> sa_decision_approved a' (apr_approval_id d) = Some (apr_approved d))"
proof (cases r)
  case (Inl e)
  then show ?thesis
    using sql_audit.decision_Inl[of undefined d a e a'] assms(1)
    by (auto simp: sql_audit_ops_def vouched_links_def)
next
  case (Inr u)
  then have d: "sa_decision_approved a' = (sa_decision_approved a)(apr_approval_id d \<mapsto> apr_approved d)"
    and v: "sa_signal_version a' = sa_signal_version a"
    using sql_audit.decision_Inr[of undefined d a a'] assms by (auto simp: sql_audit_ops_def)
  then have "sa_decision_approved a \<subseteq>\<^sub>m sa_decision_approved a'" using assms(2) by (auto simp: map_le_def)
  then show ?thesis using vouched_links_mono[of a a'] d v by (simp add: map_le_def)
qed

text \<open>The decision the gates give carries the identifier it was asked for.\<close>

lemma evaluate_id: "evaluate aid now sg i limits = Inr d \<Longrightarrow> apr_approval_id d = aid"
  by (auto simp: evaluate_def risk_reject_def risk_approve_def split: option.splits)

lemma cycle_decide_id: "triple P (cycle_decide env sg state) (\<lambda>d _. apr_approval_id d = te_approval_id env) (\<lambda>_ _. True)"
  by (rule tripleI)
    (auto simp: cycle_decide_def Let_def abind_def attempt_def inputs_refused_def dest: evaluate_id
      split: prod.splits sum.splits)

lemma triple_conj:
  assumes "triple P m Q E" "triple P m Q' E'"
  shows "triple P m (\<lambda>x s. Q x s \<and> Q' x s) (\<lambda>e s. E e s \<and> E' e s)"
  using assms by (auto simp: triple_def split: prod.splits sum.splits)

lemma vouched_links_iff:
  "(sid, version, aid) \<in> vouched_links a \<longleftrightarrow>
     sa_signal_version a sid = Some version \<and> sa_decision_approved a aid = Some True"
  by (simp add: vouched_links_def)

text \<open>What holds once the signal is recorded, before the decision is.\<close>

definition signal_recorded :: "uuid \<Rightarrow> signal \<Rightarrow> order_db \<Rightarrow> audit_db \<Rightarrow> bool" where
  "signal_recorded aid sg s a \<longleftrightarrow> all_vouched s a \<and> sa_decision_approved a aid = None \<and>
     sa_signal_version a (sig_signal_id sg) = Some (sig_strategy_version sg)"

lemma cycle_decided_links:
  fixes env :: "('b, order_db, 'o, audit_db, 'r, 'i, 'h) cycle_env"
  assumes db: "on_database numeric is_uuid now env"
  shows "triple (seen (\<lambda>s a. signal_recorded (te_approval_id env) sg s a \<and> apr_approval_id d = te_approval_id env))
     (cycle_decided env sg d) (\<lambda>_. seen all_vouched) (\<lambda>_. seen all_vouched)"
  unfolding cycle_decided_def
proof (rule audited_or_halt_triple[where K' = "\<lambda>s a. all_vouched s a \<and>
    (apr_approved d \<longrightarrow> (sig_signal_id sg, sig_strategy_version sg, apr_approval_id d) \<in> vouched_links a)"])
  fix s a
  assume k: "signal_recorded (te_approval_id env) sg s a \<and> apr_approval_id d = te_approval_id env"
  obtain r a' where rec: "sa_record_risk_decision d a = (r, a')" by force
  show "case au_record_risk_decision (te_audit env) d a of
      (Inl _, a') \<Rightarrow> all_vouched s a'
    | (Inr _, a') \<Rightarrow> all_vouched s a' \<and>
        (apr_approved d \<longrightarrow> (sig_signal_id sg, sig_strategy_version sg, apr_approval_id d) \<in> vouched_links a')"
    using record_decision_vouches[OF rec] k db rec
    by (auto simp: on_database_def sql_audit_ops_def signal_recorded_def all_vouched_def links_within_def
        vouched_links_iff split: sum.split)
next
  show "triple (seen (\<lambda>s a. all_vouched s a \<and>
      (apr_approved d \<longrightarrow> (sig_signal_id sg, sig_strategy_version sg, apr_approval_id d) \<in> vouched_links a)))
     (if \<not> apr_approved d then aret (outcome REFUSED (apr_reason d) (Some sg) (Some d) None)
      else cycle_submit env sg d) (\<lambda>_. seen all_vouched) (\<lambda>_. seen all_vouched)"
    using triple_weaken[OF cycle_submit_vouched[OF db, of sg d]] by (auto intro!: triple_aret)
qed

lemma cycle_signalled_links:
  fixes env :: "('b, order_db, 'o, audit_db, 'r, 'i, 'h) cycle_env"
  assumes db: "on_database numeric is_uuid now env"
    and fresh: "sa_decision_approved a0 (te_approval_id env) = None"
    and ver: "sa_signal_version a0 (sig_signal_id sg) \<in> {None, Some (sig_strategy_version sg)}"
  shows "triple (seen (\<lambda>s a. all_vouched s a \<and> a = a0)) (cycle_signalled env state sg)
     (\<lambda>_. seen all_vouched) (\<lambda>_. seen all_vouched)"
  unfolding cycle_signalled_def
proof (rule audited_or_halt_triple[where K' = "signal_recorded (te_approval_id env) sg"])
  fix s a
  assume k: "all_vouched s a \<and> a = a0"
  obtain r a' where rec: "sa_record_signal numeric sg a = (r, a')" by force
  show "case au_record_signal (te_audit env) sg a of
      (Inl _, a') \<Rightarrow> all_vouched s a' | (Inr _, a') \<Rightarrow> signal_recorded (te_approval_id env) sg s a'"
    using record_signal_vouches[OF rec] k ver fresh db rec
    by (auto simp: on_database_def sql_audit_ops_def signal_recorded_def all_vouched_def links_within_def
        split: sum.split)
next
  show "triple (seen (signal_recorded (te_approval_id env) sg))
      (abind (cycle_decide env sg state) (cycle_decided env sg)) (\<lambda>_. seen all_vouched) (\<lambda>_. seen all_vouched)"
    by (rule triple_abind[OF _ cycle_decided_links[OF db]],
        rule triple_weaken[OF triple_conj[OF seen_decide[of "signal_recorded (te_approval_id env) sg"] cycle_decide_id]])
      (simp_all add: signal_recorded_def)
qed

lemma cycle_trade_links:
  fixes env :: "('b, order_db, 'o, audit_db, 'r, 'i, 'h) cycle_env"
  assumes db: "on_database numeric is_uuid now env"
    and fresh: "sa_decision_approved a0 (te_approval_id env) = None"
    and versions: "\<And>r sg r'. te_strategy env state r = (Inr (Some sg), r') \<Longrightarrow>
      sa_signal_version a0 (sig_signal_id sg) \<in> {None, Some (sig_strategy_version sg)}"
  shows "triple (seen (\<lambda>s a. all_vouched s a \<and> a = a0)) (cycle_trade env state)
     (\<lambda>_. seen all_vouched) (\<lambda>_. seen all_vouched)"
  unfolding cycle_trade_def
proof (rule triple_abind)
  let ?K = "\<lambda>s a. all_vouched s a \<and> a = a0"
  let ?ok = "\<lambda>sg. sa_signal_version a0 (sig_signal_id sg) \<in> {None, Some (sig_strategy_version sg)}"
  show "triple (seen ?K) (tc_on_strategy (te_strategy env state))
      (\<lambda>x c. seen ?K c \<and> (\<forall>sg. x = Some sg \<longrightarrow> ?ok sg)) (\<lambda>_. seen all_vouched)"
    using versions by (auto simp: triple_def tc_on_strategy_def split: prod.splits sum.splits)
  fix x :: "signal option"
  have none: "triple (seen ?K) (abind (sample_equity env state)
      (\<lambda>_. aret (outcome NO_SIGNAL ''strategy returned no signal'' None None None)))
      (\<lambda>_. seen all_vouched) (\<lambda>_. seen all_vouched)"
    by (rule triple_weaken[OF triple_same[OF seen_sample[of ?K] triple_aret]]) auto
  show "triple (\<lambda>c. seen ?K c \<and> (\<forall>sg. x = Some sg \<longrightarrow> ?ok sg))
     (case x of
       None \<Rightarrow> abind (sample_equity env state)
                 (\<lambda>_. aret (outcome NO_SIGNAL ''strategy returned no signal'' None None None))
     | Some sg \<Rightarrow> cycle_signalled env state sg) (\<lambda>_. seen all_vouched) (\<lambda>_. seen all_vouched)"
  proof (cases x)
    case None
    then show ?thesis using none by (auto intro: triple_weaken)
  next
    case (Some sg)
    show ?thesis
    proof (cases "?ok sg")
      case True
      show ?thesis
        unfolding Some option.case
        by (rule triple_weaken[OF cycle_signalled_links[OF db fresh True]]) auto
    qed (auto simp: Some triple_def)
  qed
qed

text \<open>
  C26. Whatever the broker, the strategy, the risk inputs and the hooks do, and wherever the cycle
  stops, every order in the database keeps its lineage: its signal is recorded with the order's
  strategy version, and the risk decision it cites is recorded and approved. The strategy must not
  reuse a signal identifier for another version, and the decision's identifier must be new.
\<close>

theorem cycle_keeps_orders_linked:
  assumes "\<forall>l \<in> set (sa_lineage (en_store (tc_engine c)) (tc_audit c)). set (lineage_gaps l) \<subseteq> {''fills''}"
    and "on_database numeric is_uuid now env"
    and "sa_decision_approved (tc_audit c) (te_approval_id env) = None"
    and "\<And>r sg r'. te_strategy env state r = (Inr (Some sg), r') \<Longrightarrow>
      sa_signal_version (tc_audit c) (sig_signal_id sg) \<in> {None, Some (sig_strategy_version sg)}"
    and "cycle_run env state c = (res, c')"
  shows "\<forall>l \<in> set (sa_lineage (en_store (tc_engine c')) (tc_audit c')). set (lineage_gaps l) \<subseteq> {''fills''}"
proof -
  let ?K = "\<lambda>s a. all_vouched s a \<and> a = tc_audit c"
  have resolve: "triple (seen ?K) (tc_on_engine (resolve_pending env)) (\<lambda>_. seen ?K) (\<lambda>_. seen ?K)"
    by (rule seen_engine)
      (use resolve_pending_links[OF assms(2), of "vouched_links (tc_audit c)"] in
        \<open>auto simp: triple_snd_iff all_vouched_def\<close>)
  have weak: "triple (seen ?K) m (\<lambda>_. seen all_vouched) (\<lambda>_. seen all_vouched)"
    if "triple (seen ?K) m (\<lambda>_. seen ?K) (\<lambda>_. seen ?K)" for m
    by (rule triple_weaken[OF that]) auto
  have "triple (seen ?K) (\<lambda>c. cycle_trade env state (c\<lparr>tc_unresolved_since := None\<rparr>))
      (\<lambda>_. seen all_vouched) (\<lambda>_. seen all_vouched)"
    using cycle_trade_links[OF assms(2,3,4)] by (auto simp: triple_snd_iff)
  then have continue: "triple (seen ?K) (cycle_continue env state r) (\<lambda>_. seen all_vouched) (\<lambda>_. seen all_vouched)" for r
    unfolding cycle_continue_def
    by (auto intro: weak[OF seen_halt] weak[OF seen_unresolved] split: sum.split exn.split)
  have sync: "triple (seen ?K) (tc_on_kill m) (\<lambda>_. seen ?K) (\<lambda>_. seen all_vouched)" for m
    by (rule triple_weaken[OF seen_frame(1)[of ?K]]) auto
  have pending: "triple (seen ?K) (attempt (tc_on_engine (resolve_pending env))) (\<lambda>_. seen ?K) (\<lambda>_. seen all_vouched)"
    by (rule triple_weaken[OF triple_attempt_same[OF resolve]]) auto
  have "triple (seen ?K) (cycle_run env state) (\<lambda>_. seen all_vouched) (\<lambda>_. seen all_vouched)"
    unfolding cycle_run_def by (rule triple_abind[OF sync triple_abind[OF pending continue]])
  moreover have "seen ?K c" using assms(1) by (simp add: all_vouched_def links_within_def lineage_linked)
  ultimately have "seen all_vouched c'" using assms(5) by (auto simp: triple_snd_iff dest!: spec[of _ c])
  then show ?thesis by (simp add: all_vouched_def links_within_def lineage_linked)
qed

section \<open>No entry while the kill switch is not running\<close>

definition stopped :: "uuid set \<Rightarrow> uuid list \<Rightarrow> ('b, order_db, 'o, 'a, 'r, 'i, 'h) cycle \<Rightarrow> bool" where
  "stopped saved ordered c \<longleftrightarrow>
     or_client_order_id ` set (db_orders (en_store (tc_engine c))) = saved \<and>
     tc_ordered_signal_ids c = ordered \<and> ks_state (tc_kill c) \<noteq> RUNNING"

lemma stopped_frame:
  "triple (stopped I W) (tc_on_hook m2) (\<lambda>_. stopped I W) (\<lambda>_. stopped I W)"
  "triple (stopped I W) (tc_on_strategy m3) (\<lambda>_. stopped I W) (\<lambda>_. stopped I W)"
  "triple (stopped I W) (tc_on_inputs m4) (\<lambda>_. stopped I W) (\<lambda>_. stopped I W)"
  "triple (stopped I W) (tc_on_audit m5) (\<lambda>_. stopped I W) (\<lambda>_. stopped I W)"
  "triple (stopped I W) (tc_on_kill (ks_trip e reason)) (\<lambda>_. stopped I W) (\<lambda>_. stopped I W)"
  unfolding triple_snd_iff
  by (simp_all add: tc_on_kill_def tc_on_hook_def tc_on_strategy_def tc_on_inputs_def tc_on_audit_def
      split_beta stopped_def trip_state)

lemma stopped_halt:
  fixes env :: "('b, order_db, 'o, 'a, 'r, 'i, 'h) cycle_env"
  shows "triple (stopped I W) (cycle_halt env reason sg d) (\<lambda>_. stopped I W) (\<lambda>_. stopped I W)"
proof -
  have "triple (stopped I W) (abind (tc_on_kill (ks_trip (te_kill_env env 2) (''trading cycle: '' @ reason)))
             (\<lambda>_. abind (attempt (case te_on_halt env of None \<Rightarrow> aret () | Some hook \<Rightarrow> tc_on_hook (hook reason)))
               (\<lambda>_. aret (outcome CYCLE_HALTED reason sg d None)))
           :: ('b, order_db, 'o, 'a, 'r, 'i, 'h, cycle_outcome) cycle_act) (\<lambda>_. stopped I W) (\<lambda>_. stopped I W)"
    by (intro triple_same stopped_frame triple_attempt_same triple_aret)
      (auto intro!: stopped_frame triple_aret split: option.split)
  then show ?thesis by (simp add: triple_snd_iff cycle_halt_def)
qed

lemma stopped_since [simp]: "stopped I W (c\<lparr>tc_unresolved_since := x\<rparr>) = stopped I W c"
  by (simp add: stopped_def)

lemma stopped_unresolved: "triple (stopped I W) (cycle_unresolved env st detail) (\<lambda>_. stopped I W) (\<lambda>_. stopped I W)"
  unfolding triple_snd_iff
  by (simp add: cycle_unresolved_def Let_def stopped_halt[unfolded triple_snd_iff, rule_format])

lemma evaluate_needs_running:
  assumes "evaluate aid now sg i limits = Inr d" "apr_approved d"
  shows "ri_kill_switch i = Some RUNNING"
  using approval_parts[OF assms] by (simp add: market_ok_def)

lemma stopped_decide:
  fixes env :: "('b, order_db, 'o, 'a, 'r, 'i, 'h) cycle_env"
  shows "triple (stopped I W) (cycle_decide env sg state)
     (\<lambda>d c. stopped I W c \<and> \<not> apr_approved d) (\<lambda>_. stopped I W)"
proof -
  have refused: "triple (stopped I W) (\<lambda>c'.
      (evaluate aid now sg (inputs\<lparr>ri_kill_switch := Some (ks_state (tc_kill c'))\<rparr>) limits, c' :: ('b, order_db, 'o, 'a, 'r, 'i, 'h) cycle))
      (\<lambda>d c. stopped I W c \<and> \<not> apr_approved d) (\<lambda>_. stopped I W)" for aid now inputs limits
    by (rule tripleI) (auto simp: stopped_def dest: evaluate_needs_running)
  have "triple (stopped I W) (abind (attempt (tc_on_inputs (te_risk_inputs env sg state cx)))
        (\<lambda>r c'. case r of
             Inl _ \<Rightarrow> (Inr (inputs_refused env sg), c')
           | Inr inputs \<Rightarrow>
               (evaluate (te_approval_id env) (te_decided_at env) sg
                  (inputs\<lparr>ri_kill_switch := Some (ks_state (tc_kill c'))\<rparr>) (Some (te_limits env)), c'))
           :: ('b, order_db, 'o, 'a, 'r, 'i, 'h, risk_approval) cycle_act)
     (\<lambda>d c. stopped I W c \<and> \<not> apr_approved d) (\<lambda>_. stopped I W)" for cx
  proof (rule triple_abind[OF triple_attempt_same[OF stopped_frame(3)]])
    show "triple (stopped I W) (\<lambda>c' :: ('b, order_db, 'o, 'a, 'r, 'i, 'h) cycle. case r of
             Inl _ \<Rightarrow> (Inr (inputs_refused env sg), c')
           | Inr inputs \<Rightarrow>
               (evaluate (te_approval_id env) (te_decided_at env) sg
                  (inputs\<lparr>ri_kill_switch := Some (ks_state (tc_kill c'))\<rparr>) (Some (te_limits env)), c'))
       (\<lambda>d c. stopped I W c \<and> \<not> apr_approved d) (\<lambda>_. stopped I W)" for r
    proof (cases r)
      case (Inr inputs)
      show ?thesis unfolding Inr sum.case by (rule refused)
    qed (simp add: triple_def inputs_refused_def)
  qed
  then show ?thesis by (simp add: triple_def cycle_decide_def Let_def)
qed

lemma stopped_audited:
  fixes env :: "('b, order_db, 'o, 'a, 'r, 'i, 'h) cycle_env"
  assumes "triple (stopped I W) continue (\<lambda>_. stopped I W) (\<lambda>_. stopped I W)"
  shows "triple (stopped I W) (audited_or_halt env reason sg m continue) (\<lambda>_. stopped I W) (\<lambda>_. stopped I W)"
  unfolding audited_or_halt_def
  by (rule triple_same[OF triple_attempt_same[OF stopped_frame(4)]])
    (auto intro!: stopped_halt triple_athrow assms split: sum.split exn.split)

lemma stopped_trade:
  fixes env :: "('b, order_db, 'o, 'a, 'r, 'i, 'h) cycle_env"
  shows "triple (stopped I W) (cycle_trade env state) (\<lambda>_. stopped I W) (\<lambda>_. stopped I W)"
proof -
  have decided: "triple (\<lambda>c. stopped I W c \<and> \<not> apr_approved d) (cycle_decided env sg d)
      (\<lambda>_. stopped I W) (\<lambda>_. stopped I W)" for sg d
  proof (cases "apr_approved d")
    case False
    have "triple (stopped I W) (cycle_decided env sg d) (\<lambda>_. stopped I W) (\<lambda>_. stopped I W)"
      unfolding cycle_decided_def by (rule stopped_audited) (simp add: False triple_aret)
    then show ?thesis by (rule triple_weaken) auto
  qed (simp add: triple_def)
  have signalled: "triple (stopped I W) (cycle_signalled env state sg) (\<lambda>_. stopped I W) (\<lambda>_. stopped I W)" for sg
    unfolding cycle_signalled_def by (rule stopped_audited) (rule triple_abind[OF stopped_decide decided])
  show ?thesis
    unfolding cycle_trade_def
    by (rule triple_same[OF stopped_frame(2)])
      (auto intro!: signalled triple_same triple_aret triple_attempt_same stopped_frame
        simp: sample_equity_def split: option.split)
qed

lemma saved_ids_ops:
  "or_client_order_id ` set (db_orders (snd (sql_update ord s))) = or_client_order_id ` set (db_orders s)"
  "or_client_order_id ` set (db_orders (snd (sql_add_fills numeric fs s))) = or_client_order_id ` set (db_orders s)"
  "or_client_order_id ` set (db_orders (snd (sql_get is_uuid now k s))) = or_client_order_id ` set (db_orders s)"
  "or_client_order_id ` set (db_orders (snd (sql_pending now s))) = or_client_order_id ` set (db_orders s)"
proof -
  have "or_client_order_id ` set (set_row_status k st rows) = or_client_order_id ` set rows" for k st rows
    unfolding set_row_status_def set_map image_image by (rule image_cong) auto
  then show "or_client_order_id ` set (db_orders (snd (sql_update ord s))) = or_client_order_id ` set (db_orders s)"
    by (simp add: sql_update_def db_call_def Let_def split: option.split)
qed (simp_all add: sql_add_fills_def sql_get_def sql_pending_def db_call_def Let_def split: option.split sum.split)

lemma resolve_pending_saved:
  fixes env :: "('b, order_db, 'o, 'a, 'r, 'i, 'h) cycle_env"
  assumes "ev_store (te_engine env) = sql_ops numeric is_uuid now"
  shows "triple (stopped I W) (tc_on_engine (resolve_pending env)) (\<lambda>_. stopped I W) (\<lambda>_. stopped I W)"
proof -
  let ?J = "\<lambda>s. or_client_order_id ` set (db_orders s) = I"
  have pend: "triple (\<lambda>e. ?J (en_store e)) (on_store (os_pending (ev_store (te_engine env))))
      (\<lambda>_ e. ?J (en_store e)) (\<lambda>_ e. ?J (en_store e))"
    by (rule on_store_triple) (simp add: assms sql_ops_def triple_snd_iff saved_ids_ops)
  have loop: "triple (\<lambda>e. ?J (en_store e)) (recover_loop (te_engine env) ords acc)
      (\<lambda>_ e. ?J (en_store e)) (\<lambda>_ e. ?J (en_store e))" for ords acc
    by (rule recover_loop_keeps, rule engine_recover_keeps)
      (simp_all add: assms sql_ops_def triple_snd_iff saved_ids_ops)
  have "triple (\<lambda>e. ?J (en_store e)) (resolve_pending env) (\<lambda>_ e. ?J (en_store e)) (\<lambda>_ e. ?J (en_store e))"
    unfolding resolve_pending_def Let_def engine_recover_pending_def
    by (auto intro!: triple_same triple_aret pend loop)
  then show ?thesis
    unfolding triple_snd_iff by (simp add: tc_on_engine_def split_beta stopped_def)
qed

text \<open>
  C27. While the kill switch is not RUNNING, as the external flags leave it at the start of the cycle,
  a cycle saves no new order and takes no signal for ordered, whatever the strategy and the risk
  inputs answer: the risk inputs' own copy of the switch's state is never believed.
\<close>

theorem no_entry_unless_running:
  assumes "ev_store (te_engine env) = sql_ops numeric is_uuid now"
    and "ks_sync_external_state (te_kill_env env) (te_environ env) (te_flag env) (tc_kill c) = (x, k)"
    and "ks_state k \<noteq> RUNNING"
    and "cycle_run env state c = (res, c')"
  shows "or_client_order_id ` set (db_orders (en_store (tc_engine c'))) =
      or_client_order_id ` set (db_orders (en_store (tc_engine c))) \<and>
    tc_ordered_signal_ids c' = tc_ordered_signal_ids c"
proof -
  let ?P = "stopped (or_client_order_id ` set (db_orders (en_store (tc_engine c)))) (tc_ordered_signal_ids c)"
  have sync: "tc_on_kill (ks_sync_external_state (te_kill_env env) (te_environ env) (te_flag env)) c = (x, c\<lparr>tc_kill := k\<rparr>)"
    by (simp add: tc_on_kill_def assms(2))
  have continue: "triple ?P (cycle_continue env state r) (\<lambda>_. ?P) (\<lambda>_. ?P)" for r
  proof -
    have "triple ?P (\<lambda>c. cycle_trade env state (c\<lparr>tc_unresolved_since := None\<rparr>)) (\<lambda>_. ?P) (\<lambda>_. ?P)"
      unfolding triple_snd_iff by (simp add: stopped_trade[unfolded triple_snd_iff, rule_format])
    then show ?thesis
      unfolding cycle_continue_def by (auto intro: stopped_halt stopped_unresolved split: sum.split exn.split)
  qed
  have "triple ?P (abind (attempt (tc_on_engine (resolve_pending env))) (cycle_continue env state)) (\<lambda>_. ?P) (\<lambda>_. ?P)"
    by (rule triple_same[OF triple_attempt_same[OF resolve_pending_saved[OF assms(1)]] continue])
  moreover have "?P (c\<lparr>tc_kill := k\<rparr>)" using assms(3) by (simp add: stopped_def)
  ultimately have "?P c'"
    using assms(4) by (cases x) (auto simp: cycle_run_def abind_def[of "tc_on_kill _"] sync triple_snd_iff stopped_def dest!: spec[of _ "c\<lparr>tc_kill := k\<rparr>"])
  then show ?thesis by (simp add: stopped_def)
qed

section \<open>Waiting ends\<close>

text \<open>
  A cycle is blocked when the flags were read and the pending orders could not be resolved: the broker
  could not be asked, or it confirmed too few of them.
\<close>

definition blocked :: "('b, 's, 'o, 'a, 'r, 'i, 'h) cycle_env \<Rightarrow> ('b, 's, 'o, 'a, 'r, 'i, 'h) cycle \<Rightarrow> bool" where
  "blocked env c \<longleftrightarrow>
     (case ks_sync_external_state (te_kill_env env) (te_environ env) (te_flag env) (tc_kill c) of
        (Inl _, _) \<Rightarrow> False
      | (Inr _, _) \<Rightarrow>
          (case fst (resolve_pending env (tc_engine c)) of
             Inl (PersistenceUnavailable _) \<Rightarrow> False
           | Inl _ \<Rightarrow> True
           | Inr pending \<Rightarrow> pending \<noteq> []))"

fun cycle_runs ::
  "(('b, 's, 'o, 'a, 'r, 'i, 'h) cycle_env \<times> market_state) list \<Rightarrow> ('b, 's, 'o, 'a, 'r, 'i, 'h) cycle \<Rightarrow>
     ('b, 's, 'o, 'a, 'r, 'i, 'h) cycle"
where
  "cycle_runs [] c = c"
| "cycle_runs ((env, state) # rest) c = cycle_runs rest (snd (cycle_run env state c))"

fun blocked_run ::
  "(('b, 's, 'o, 'a, 'r, 'i, 'h) cycle_env \<times> market_state) list \<Rightarrow> ('b, 's, 'o, 'a, 'r, 'i, 'h) cycle \<Rightarrow> bool"
where
  "blocked_run [] c = True"
| "blocked_run ((env, state) # rest) c = (blocked env c \<and> blocked_run rest (snd (cycle_run env state c)))"

lemma cycle_halt_halts: "ks_state (tc_kill (snd (cycle_halt env reason sg d c))) = HALTED"
proof -
  have hook: "tc_kill (snd ((case te_on_halt env of None \<Rightarrow> aret () | Some h \<Rightarrow> tc_on_hook (h reason)) c1)) = tc_kill c1" for c1
    by (simp add: tc_on_hook_def split_beta split: option.split)
  show ?thesis
    by (cases "fst (ks_trip (te_kill_env env 2) (''trading cycle: '' @ reason) (tc_kill c))")
      (simp_all add: cycle_halt_def abind_def tc_on_kill_def split_beta attempt_def trip_state hook)
qed

lemma cycle_halt_since: "tc_unresolved_since (snd (cycle_halt env reason sg d c)) = tc_unresolved_since c"
proof -
  have hook: "tc_unresolved_since (snd ((case te_on_halt env of None \<Rightarrow> aret () | Some h \<Rightarrow> tc_on_hook (h reason)) c1))
      = tc_unresolved_since c1" for c1
    by (simp add: tc_on_hook_def split_beta split: option.split)
  show ?thesis
    by (cases "fst (ks_trip (te_kill_env env 2) (''trading cycle: '' @ reason) (tc_kill c))")
      (simp_all add: cycle_halt_def abind_def tc_on_kill_def split_beta attempt_def hook)
qed

lemma blocked_cycle:
  assumes "blocked env c"
  shows "tc_unresolved_since (snd (cycle_run env state c)) =
      Some (case_option (te_now env) id (tc_unresolved_since c)) \<and>
    (te_pending_timeout env \<le> te_now env - case_option (te_now env) id (tc_unresolved_since c) \<longrightarrow>
      ks_state (tc_kill (snd (cycle_run env state c))) = HALTED)"
proof -
  obtain x k where sync: "ks_sync_external_state (te_kill_env env) (te_environ env) (te_flag env) (tc_kill c) = (Inr x, k)"
    using assms by (auto simp: blocked_def split: prod.splits sum.splits)
  obtain r e where res: "resolve_pending env (tc_engine c) = (r, e)" by force
  obtain st detail where "cycle_continue env state r = cycle_unresolved env st detail"
    using assms by (auto simp: blocked_def sync res cycle_continue_def split: sum.splits exn.splits)
  then have "cycle_run env state c = cycle_unresolved env st detail (c\<lparr>tc_kill := k, tc_engine := e\<rparr>)"
    by (simp add: cycle_run_def abind_def tc_on_kill_def tc_on_engine_def attempt_def sync res)
  then show ?thesis
    by (simp add: cycle_unresolved_def Let_def cycle_halt_halts cycle_halt_since)
qed

lemma blocked_run_halts:
  assumes "blocked_run steps c" "steps \<noteq> []" "tc_unresolved_since c = Some t"
    and "te_pending_timeout (fst (last steps)) \<le> te_now (fst (last steps)) - t"
  shows "ks_state (tc_kill (cycle_runs steps c)) = HALTED"
  using assms
proof (induction steps arbitrary: c)
  case (Cons step rest)
  obtain env state where step: "step = (env, state)" by force
  note one = blocked_cycle[of env c state]
  show ?case
  proof (cases "rest = []")
    case True
    then show ?thesis using one Cons.prems by (simp add: step)
  next
    case False
    then show ?thesis using one Cons.prems Cons.IH[of "snd (cycle_run env state c)"] by (simp add: step)
  qed
qed simp

text \<open>
  C28. Pending orders do not block trading for ever: when every cycle from the first one that finds
  them on is blocked, the cycle that comes \<open>pending_timeout\<close> or more after the first leaves the kill
  switch HALTED, so an operator is called.
\<close>

theorem blocked_cycles_halt_in_time:
  assumes "blocked_run ((env, state) # rest) c" and "tc_unresolved_since c = None"
    and "te_pending_timeout (fst (last ((env, state) # rest))) \<le> te_now (fst (last ((env, state) # rest))) - te_now env"
  shows "ks_state (tc_kill (cycle_runs ((env, state) # rest) c)) = HALTED"
proof (cases "rest = []")
  case True
  then show ?thesis using assms blocked_cycle[of env c state] by simp
next
  case False
  then show ?thesis
    using assms blocked_cycle[of env c state]
      blocked_run_halts[of rest "snd (cycle_run env state c)" "te_now env"] by simp
qed

section \<open>The loss measures\<close>

text \<open>One sample of the loss measures, after a restart or not.\<close>

definition loss_sample ::
  "bool \<times> 'b inputs_env \<times> rat \<times> rat \<Rightarrow> loss_state \<Rightarrow> (exn + (rat option \<times> rat option)) \<times> loss_state"
where
  "loss_sample = (\<lambda>(restarted, env, cash, ex) l.
     loss_measures env cash (Some ex) (if restarted then load_loss_state True (ls_file l) else l))"

fun loss_run :: "(bool \<times> 'b inputs_env \<times> rat \<times> rat) list \<Rightarrow> loss_state \<Rightarrow> loss_state" where
  "loss_run [] l = l"
| "loss_run (x # xs) l = loss_run xs (snd (loss_sample x l))"

definition sample_equity_of :: "bool \<times> 'b inputs_env \<times> rat \<times> rat \<Rightarrow> rat" where
  "sample_equity_of = (\<lambda>(_, _, cash, ex). equity_value cash ex)"

definition sample_env_of :: "bool \<times> 'b inputs_env \<times> rat \<times> rat \<Rightarrow> 'b inputs_env" where
  "sample_env_of = (\<lambda>(_, env, _, _). env)"

definition dated_equity :: "bool \<times> 'b inputs_env \<times> rat \<times> rat \<Rightarrow> string \<times> rat" where
  "dated_equity x = (ie_date (sample_env_of x) (ie_now (sample_env_of x)), sample_equity_of x)"

text \<open>A sample of a positive equity in a process that keeps a state file; a saved one could write the file.\<close>

definition sampled :: "bool \<times> 'b inputs_env \<times> rat \<times> rat \<Rightarrow> bool" where
  "sampled x \<longleftrightarrow> ie_has_path (sample_env_of x) \<and> 0 < sample_equity_of x"

definition sampled_and_saved :: "bool \<times> 'b inputs_env \<times> rat \<times> rat \<Rightarrow> bool" where
  "sampled_and_saved x \<longleftrightarrow> sampled x \<and> ie_disk_ok (sample_env_of x)"

text \<open>
  What a state file knows: the opening equity of one day, and a peak. The opening equity of the last day
  of a dated history is the first one after the date last changed.
\<close>

fun file_days :: "loss_file option \<Rightarrow> (string \<times> rat) list" where
  "file_days (Some (LossSaved day start peak)) = [(day, start)]"
| "file_days _ = []"

fun file_peaks :: "loss_file option \<Rightarrow> rat set" where
  "file_peaks (Some (LossSaved day start peak)) = {peak}"
| "file_peaks _ = {}"

definition opening_equity :: "(string \<times> rat) list \<Rightarrow> rat" where
  "opening_equity days = snd (last (takeWhile (\<lambda>(day, _). day = fst (last days)) (rev days)))"

lemma opening_equity_snoc:
  "opening_equity (days @ [(day, e)]) =
     (if days \<noteq> [] \<and> fst (last days) = day then opening_equity days else e)"
  by (cases days rule: rev_cases) (auto simp: opening_equity_def)

definition loss_known :: "string \<Rightarrow> rat \<Rightarrow> rat \<Rightarrow> loss_state" where
  "loss_known day start peak =
     \<lparr>ls_peak_equity = Some peak, ls_day_start = Some (day, start), ls_unreadable = False,
      ls_file = Some (LossSaved day start peak)\<rparr>"

lemma reload_known [simp]: "load_loss_state True (Some (LossSaved day start peak)) = loss_known day start peak"
  by (simp add: load_loss_state_def loss_known_def)

lemma reload_same [simp]:
  "load_loss_state True (ls_file (load_loss_state True file)) = load_loss_state True file"
  "load_loss_state True (ls_file (loss_known day start peak)) = loss_known day start peak"
  by (cases "file" rule: file_days.cases) (simp_all add: load_loss_state_def loss_known_def Let_def)

lemmas loss_sample_defs = loss_sample_def sampled_def sampled_and_saved_def sample_equity_of_def sample_env_of_def
  dated_equity_def loss_measures_def Let_def next_day_start_def next_peak_def save_loss_state_def

lemma loss_sample_unreadable:
  "loss_sample x (load_loss_state True (Some LossUnreadable)) = (Inr (None, None), load_loss_state True (Some LossUnreadable))"
proof (cases x)
  case (fields restarted env cash ex)
  have "ls_unreadable (load_loss_state True (Some LossUnreadable))" by (simp add: load_loss_state_def)
  then show ?thesis by (simp add: fields loss_sample_def loss_measures_def)
qed

lemma loss_sample_fresh:
  assumes "sampled x"
  shows "fst (loss_sample x (load_loss_state True None)) =
      (if ie_disk_ok (sample_env_of x) then Inr (Some 0, Some 0) else Inr (None, None))"
    and "ie_disk_ok (sample_env_of x) \<Longrightarrow>
      snd (loss_sample x (load_loss_state True None)) = loss_known (fst (dated_equity x)) (sample_equity_of x) (sample_equity_of x)"
  using assms
  by (cases x, simp add: loss_sample_defs load_loss_state_def loss_known_def dsub_def)+

lemma loss_sample_known:
  assumes "sampled x"
  defines "e \<equiv> sample_equity_of x" and "s \<equiv> \<lambda>day start. if day = fst (dated_equity x) then start else sample_equity_of x"
  shows "fst (loss_sample x (loss_known day start peak)) =
      (if ie_disk_ok (sample_env_of x)
       then Inr (Some (max 0 (dsub (s day start) e)), Some (dec (dsub (max peak e) e / max peak e))) else Inr (None, None))"
    and "ie_disk_ok (sample_env_of x) \<Longrightarrow>
      snd (loss_sample x (loss_known day start peak)) = loss_known (fst (dated_equity x)) (s day start) (max peak e)"
proof -
  obtain restarted env cash ex where x: "x = (restarted, env, cash, ex)" by (cases x)
  have pos: "0 < e" using assms(1) by (simp add: sampled_def e_def)
  then have peak: "next_peak (Some peak) e = max peak e" "max peak e \<noteq> 0" by (auto simp: next_peak_def max_def)
  have start: "next_day_start (fst (dated_equity x)) e (Some (day, start)) = (fst (dated_equity x), s day start)"
    by (simp add: next_day_start_def s_def e_def)
  have e: "equity_value cash ex = e" "ie_has_path env" "sample_env_of x = env" "fst (dated_equity x) = ie_date env (ie_now env)"
    using assms(1) by (simp_all add: x e_def sample_equity_of_def sampled_def sample_env_of_def dated_equity_def)
  have measured: "loss_sample x (loss_known day start peak) = loss_measures env cash (Some ex) (loss_known day start peak)"
    by (simp add: x loss_sample_def)
  show "fst (loss_sample x (loss_known day start peak)) =
      (if ie_disk_ok (sample_env_of x)
       then Inr (Some (max 0 (dsub (s day start) e)), Some (dec (dsub (max peak e) e / max peak e))) else Inr (None, None))"
    unfolding measured using peak start e by (simp add: loss_measures_def Let_def loss_known_def save_loss_state_def)
  show "snd (loss_sample x (loss_known day start peak)) = loss_known (fst (dated_equity x)) (s day start) (max peak e)"
    if "ie_disk_ok (sample_env_of x)"
    unfolding measured using that peak start e by (simp add: loss_measures_def Let_def loss_known_def save_loss_state_def)
qed

lemma loss_run_snoc [simp]: "loss_run (xs @ [x]) l = snd (loss_sample x (loss_run xs l))"
  by (induction xs arbitrary: l) simp_all

lemma loss_run_unreadable: "loss_run xs (load_loss_state True (Some LossUnreadable)) = load_loss_state True (Some LossUnreadable)"
  by (induction xs) (simp_all add: loss_sample_unreadable)

text \<open>What the process knows after a run is its dated history, from the state file on.\<close>

abbreviation loss_history :: "loss_file option \<Rightarrow> (bool \<times> 'b inputs_env \<times> rat \<times> rat) list \<Rightarrow> (string \<times> rat) list" where
  "loss_history file xs \<equiv> file_days file @ map dated_equity xs"

abbreviation peak_equity :: "loss_file option \<Rightarrow> (bool \<times> 'b inputs_env \<times> rat \<times> rat) list \<Rightarrow> rat" where
  "peak_equity file xs \<equiv> Max (file_peaks file \<union> sample_equity_of ` set xs)"

lemma peak_equity_snoc:
  assumes "loss_history file xs \<noteq> []"
  shows "peak_equity file (xs @ [x]) = max (peak_equity file xs) (sample_equity_of x)"
proof -
  have "finite (file_peaks file \<union> sample_equity_of ` set xs)" "file_peaks file \<union> sample_equity_of ` set xs \<noteq> {}"
    using assms by (cases "file" rule: file_days.cases; simp)+
  then show ?thesis by (simp add: max.commute)
qed

lemma opening_equity_after:
  "opening_equity (loss_history file (xs @ [x])) =
     (if loss_history file xs \<noteq> [] \<and> fst (last (loss_history file xs)) = fst (dated_equity x)
      then opening_equity (loss_history file xs) else sample_equity_of x)"
  using opening_equity_snoc[of "loss_history file xs" "fst (dated_equity x)" "sample_equity_of x"]
  by (simp add: dated_equity_def)

lemma loss_run_known:
  assumes "list_all sampled_and_saved xs" "file \<noteq> Some LossUnreadable"
  shows "loss_run xs (load_loss_state True file) =
    (if loss_history file xs = [] then load_loss_state True None
     else loss_known (fst (last (loss_history file xs))) (opening_equity (loss_history file xs)) (peak_equity file xs))"
  using assms
proof (induction xs rule: rev_induct)
  case Nil
  then show ?case by (cases "file" rule: file_days.cases) (auto simp: opening_equity_def)
next
  case (snoc x xs)
  then have x: "sampled x" "ie_disk_ok (sample_env_of x)" by (simp_all add: sampled_and_saved_def)
  show ?case
  proof (cases "loss_history file xs = []")
    case True
    then have "file_peaks file = {}" "xs = []" using snoc.prems(2) by (cases "file" rule: file_days.cases; simp)+
    then show ?thesis using snoc True loss_sample_fresh(2)[OF x] opening_equity_after[of "file" xs x] by simp
  next
    case False
    have before: "loss_run xs (load_loss_state True file) =
        loss_known (fst (last (loss_history file xs))) (opening_equity (loss_history file xs)) (peak_equity file xs)"
      using snoc.IH snoc.prems False by (simp only: list_all_append simp_thms if_False)
    have "loss_history file (xs @ [x]) \<noteq> []" "fst (last (loss_history file (xs @ [x]))) = fst (dated_equity x)" by simp_all
    moreover have "loss_run (xs @ [x]) (load_loss_state True file) = loss_known (fst (dated_equity x))
        (opening_equity (loss_history file (xs @ [x]))) (peak_equity file (xs @ [x]))"
      unfolding loss_run_snoc before loss_sample_known(2)[OF x] opening_equity_after peak_equity_snoc[OF False]
      using False by (simp only: simp_thms if_True)
    ultimately show ?thesis by (simp only: if_False)
  qed
qed

text \<open>
  C29. The loss limits survive restarts and start again with the day. Take any state file, or none, and
  any run of samples over any number of days with restarts anywhere between them, each of a positive
  equity and each but the last saved to the file. Then the next sample measures its daily loss from the
  first equity sampled since the date last changed, where an opening equity in the file counts as a
  sample of its date, and its drawdown from the highest equity of all samples and the peak in the file.
  When the file of the first start was unreadable, or this sample cannot be saved, there is no measure
  at all.
\<close>

theorem loss_limits_survive_restarts:
  assumes "list_all sampled_and_saved xs" "sampled y"
  shows "fst (loss_sample y (loss_run xs (load_loss_state True file))) =
    (if file = Some LossUnreadable \<or> \<not> ie_disk_ok (sample_env_of y) then Inr (None, None)
     else Inr (Some (max 0 (dsub (opening_equity (loss_history file (xs @ [y]))) (sample_equity_of y))),
               Some (dec (dsub (peak_equity file (xs @ [y])) (sample_equity_of y) / peak_equity file (xs @ [y])))))"
proof (cases "file = Some LossUnreadable")
  case True
  then show ?thesis by (simp add: loss_run_unreadable loss_sample_unreadable)
next
  case readable: False
  note run = loss_run_known[OF assms(1) readable]
  show ?thesis
  proof (cases "loss_history file xs = []")
    case True
    then have "file_peaks file = {}" "xs = []" using readable by (cases "file" rule: file_days.cases; simp)+
    then show ?thesis
      using run True loss_sample_fresh(1)[OF assms(2)] opening_equity_after[of "file" xs y] readable by (simp add: dsub_def)
  next
    case False
    have before: "loss_run xs (load_loss_state True file) =
        loss_known (fst (last (loss_history file xs))) (opening_equity (loss_history file xs)) (peak_equity file xs)"
      using run False by (simp only: if_False)
    show ?thesis
      unfolding before opening_equity_after peak_equity_snoc[OF False] loss_sample_known(1)[OF assms(2)]
      using readable False by (cases "ie_disk_ok (sample_env_of y)") (simp_all only: simp_thms if_True if_False)
  qed
qed

section \<open>Concrete cycles\<close>

text \<open>
  A cycle over the database and a venue whose calls all fail, with a strategy that always gives one
  signal.
\<close>

definition sample_cycle_env :: "(nat, order_db, unit, audit_db, unit, unit, unit) cycle_env" where
  "sample_cycle_env = \<lparr>te_engine = plain_env lookup_down, te_audit = sql_audit_ops (\<lambda>x. x),
     te_strategy = (\<lambda>_ r. (Inr (Some sample_signal), r)),
     te_risk_inputs = (\<lambda>_ _ _ s. (Inl (RuntimeError ''down''), s)), te_observe = None,
     te_limits = default_limits, te_kill_env = (\<lambda>_. sample_ks_env), te_environ = [], te_flag = NoFlag,
     te_now = 0, te_pending_timeout = 0, te_timeout_text = ''0:00:00'', te_on_halt = None,
     te_approval_id = ''new'', te_decided_at = 0, te_uuid5 = (\<lambda>_ t. t), te_dec_text = (\<lambda>_. [])\<rparr>"

definition sample_cycle ::
  "order_status \<Rightarrow> kill_switch_state \<Rightarrow> (nat, order_db, unit, audit_db, unit, unit, unit) cycle"
where
  "sample_cycle st k = \<lparr>tc_engine = sample_engine [sample_row st], tc_kill = sample_kill\<lparr>ks_state := k\<rparr>,
     tc_audit = \<lparr>ad_signals = [signal_row (\<lambda>x. x) (sample_signal\<lparr>sig_signal_id := ''s'', sig_strategy_version := ''v''\<rparr>)],
       ad_decisions = [decision_row sample_approval], ad_failures = []\<rparr>,
     tc_strategy = (), tc_inputs = (), tc_hook = (), tc_ordered_signal_ids = [], tc_last_order_at = [],
     tc_unresolved_since = None\<rparr>"

definition sample_state :: market_state where
  "sample_state = \<lparr>ms_symbol = ''B-U'', ms_quote = sample_quote, ms_candles = [], ms_observed_at = 0\<rparr>"

lemma sample_on_database: "on_database (\<lambda>x. x) (\<lambda>_. True) 0 sample_cycle_env"
  by (simp add: on_database_def sample_cycle_env_def db_env_def)

lemma sample_cycle_linked:
  "\<forall>l \<in> set (sa_lineage (en_store (tc_engine (sample_cycle st k))) (tc_audit (sample_cycle st k))).
     set (lineage_gaps l) \<subseteq> {''fills''}"
  by (simp add: lineage_linked order_links_def order_link_def vouched_links_iff sample_cycle_def sample_engine_def
      sample_row_def new_row_def sample_request_def sample_approval_def sa_signal_version_def
      sa_decision_approved_def signal_row_def decision_row_def)

theorem cycle_keeps_orders_linked_witness:
  "\<exists>res c'. cycle_run sample_cycle_env sample_state (sample_cycle FILLED RUNNING) = (res, c') \<and>
     (\<forall>l \<in> set (sa_lineage (en_store (tc_engine c')) (tc_audit c')). set (lineage_gaps l) \<subseteq> {''fills''})"
proof -
  obtain res c' where run: "cycle_run sample_cycle_env sample_state (sample_cycle FILLED RUNNING) = (res, c')" by force
  have fresh: "sa_decision_approved (tc_audit (sample_cycle FILLED RUNNING)) (te_approval_id sample_cycle_env) = None"
    by (simp add: sample_cycle_def sample_cycle_env_def sa_decision_approved_def decision_row_def sample_approval_def)
  have "sa_signal_version (tc_audit (sample_cycle FILLED RUNNING)) (sig_signal_id sg) \<in> {None, Some (sig_strategy_version sg)}"
    if "te_strategy sample_cycle_env sample_state r = (Inr (Some sg), r')" for r sg r'
    using that by (auto simp: sample_cycle_env_def sample_cycle_def sa_signal_version_def signal_row_def sample_signal_def)
  note linked = cycle_keeps_orders_linked[OF sample_cycle_linked sample_on_database fresh this run]
  show ?thesis by (rule exI, rule exI, rule conjI, rule run, rule linked)
qed

theorem no_entry_unless_running_witness:
  "\<exists>res c'. cycle_run sample_cycle_env sample_state (sample_cycle FILLED HALTED) = (res, c') \<and>
     or_client_order_id ` set (db_orders (en_store (tc_engine c'))) = {''k''} \<and> tc_ordered_signal_ids c' = []"
proof -
  obtain res c' where run: "cycle_run sample_cycle_env sample_state (sample_cycle FILLED HALTED) = (res, c')" by force
  have st: "ev_store (te_engine sample_cycle_env) = sql_ops (\<lambda>x. x) (\<lambda>_. True) 0"
    using sample_on_database by (simp add: on_database_def)
  have "ks_sync_external_state (te_kill_env sample_cycle_env) (te_environ sample_cycle_env) (te_flag sample_cycle_env)
      (tc_kill (sample_cycle FILLED HALTED)) = (Inr HALTED, tc_kill (sample_cycle FILLED HALTED))"
    by (simp add: ks_sync_external_state_def sample_cycle_env_def sample_cycle_def abind_def sync_one_def
        py_strip_def py_lower_def Let_def)
  from no_entry_unless_running[OF st this _ run] have "or_client_order_id ` set (db_orders (en_store (tc_engine c'))) =
      or_client_order_id ` set (db_orders (en_store (tc_engine (sample_cycle FILLED HALTED)))) \<and>
    tc_ordered_signal_ids c' = tc_ordered_signal_ids (sample_cycle FILLED HALTED)"
    by (simp add: sample_cycle_def)
  then show ?thesis
    using run by (simp add: sample_cycle_def sample_engine_def sample_row_def new_row_def sample_request_def)
qed

theorem blocked_cycles_halt_in_time_witness:
  "ks_state (tc_kill (cycle_runs [(sample_cycle_env, sample_state)] (sample_cycle UNKNOWN RUNNING))) = HALTED"
proof (rule blocked_cycles_halt_in_time)
  show "blocked_run [(sample_cycle_env, sample_state)] (sample_cycle UNKNOWN RUNNING)"
    by (simp add: blocked_def ks_sync_external_state_def sample_cycle_env_def sample_cycle_def abind_def sync_one_def
        py_strip_def py_lower_def Let_def resolve_pending_def engine_recover_pending_def on_store_def sql_ops_def
        sql_pending_def db_env_def db_call_def sample_engine_def sample_row_def new_row_def to_order_def
        mk_request_def valid_request_def sample_request_def engine_recover_def on_broker_def lookup_down_def)
qed (simp_all add: sample_cycle_def sample_cycle_env_def)

definition sample_inputs_env :: "nat inputs_env" where
  "sample_inputs_env = \<lparr>ie_broker = lookup_down, ie_healthy = (\<lambda>_. True), ie_constraints = Inr [],
     ie_estimated_slippage = 0, ie_quote_asset = ''U'', ie_cooldown = 0, ie_trading_window = None, ie_now = 0,
     ie_date = (\<lambda>_. ''1970-01-01''), ie_has_path = True, ie_disk_ok = True\<rparr>"

text \<open>Two samples on one day and two on the next, with a restart before the third.\<close>

definition next_day_env :: "nat inputs_env" where
  "next_day_env = sample_inputs_env\<lparr>ie_date := (\<lambda>_. ''1970-01-02'')\<rparr>"

definition two_days :: "(bool \<times> nat inputs_env \<times> rat \<times> rat) list" where
  "two_days = [(False, sample_inputs_env, 100, 0), (False, sample_inputs_env, 120, 0), (True, next_day_env, 90, 0)]"

theorem loss_limits_survive_restarts_witness:
  "fst (loss_sample (False, next_day_env, 60, 20) (loss_run two_days (load_loss_state True None))) =
     Inr (Some (max 0 (dsub 90 80)), Some (dec (dsub 120 80 / 120)))"
  using loss_limits_survive_restarts[of two_days "(False, next_day_env, 60, 20)" None]
  by (simp add: two_days_def sampled_def sampled_and_saved_def sample_equity_of_def sample_env_of_def equity_value_def
      dadd_def sample_inputs_env_def next_day_env_def dated_equity_def opening_equity_def)

end
