(* ===== verification/Recovery.thy ===== *)
theory Recovery
  imports Reconcile Execution
begin

text \<open>
  Restart recovery, \<^verbatim>\<open>recover_on_startup\<close> of \<^verbatim>\<open>app/recovery.py\<close>: it runs before the service accepts
  work, resolves the pending orders, projects the saved portfolio over the fills saved after its
  snapshot and reconciles it with the broker. Its state is the reconciler's world (broker, kill
  switch, portfolio store, alerts) and the order store; the portfolio store's two reads and the order
  store's three recovery reads are operations of the environment.
\<close>

section \<open>State and environment\<close>

record startup_result =
  su_status :: string
  su_detail :: string
  su_pending_orders :: nat
  su_recovered_orders :: nat
  su_discrepancies :: nat
  su_completed_at :: string

record ('b, 's, 'p, 'a) startup =
  st_world :: "('b, 'p, 'a) rec_world"
  st_orders :: 's

record ('b, 's, 'p, 'a) startup_env =
  sv_rec :: "('b, 'p, 'a) rec_env"
  sv_has_broker :: bool
  sv_increments :: amounts
  sv_engine :: "('b, 's, unit) engine_env"
  sv_open_orders :: "(exn, 's, trade_order list) act"
  sv_fills_for :: "trade_order list \<Rightarrow> (exn, 's, fill list) act"
  sv_fills_after :: "datetime \<Rightarrow> (exn, 's, fill list) act"
  sv_latest_state :: "(exn, 'p, portfolio_state option) act"
  sv_latest_recorded_at :: "(exn, 'p, datetime option) act"
  sv_now :: datetime
  sv_completed_at :: string

type_synonym ('b, 's, 'p, 'a, 'x) startup_act = "(exn, ('b, 's, 'p, 'a) startup, 'x) act"

definition st_on_orders :: "(exn, 's, 'x) act \<Rightarrow> ('b, 's, 'p, 'a, 'x) startup_act" where
  "st_on_orders m s = (case m (st_orders s) of (r, t) \<Rightarrow> (r, s\<lparr>st_orders := t\<rparr>))"

definition st_on_world :: "(exn, ('b, 'p, 'a) rec_world, 'x) act \<Rightarrow> ('b, 's, 'p, 'a, 'x) startup_act" where
  "st_on_world m s = (case m (st_world s) of (r, w) \<Rightarrow> (r, s\<lparr>st_world := w\<rparr>))"

text \<open>A new execution engine over the same broker and order store.\<close>

definition st_on_engine :: "(exn, ('b, 's, unit) engine, 'x) act \<Rightarrow> ('b, 's, 'p, 'a, 'x) startup_act" where
  "st_on_engine m s =
     (case m \<lparr>en_broker = rw_broker (st_world s), en_store = st_orders s, en_observer = (),
              en_consecutive_never_sent = 0, en_logged_fills = []\<rparr> of
        (r, e) \<Rightarrow> (r, s\<lparr>st_world := (st_world s)\<lparr>rw_broker := en_broker e\<rparr>, st_orders := en_store e\<rparr>))"

section \<open>Recovery\<close>

definition startup_result_of ::
  "('b, 's, 'p, 'a) startup_env \<Rightarrow> string \<Rightarrow> string \<Rightarrow> nat \<Rightarrow> nat \<Rightarrow> nat \<Rightarrow> startup_result"
where
  "startup_result_of env status detail pending recovered discrepancies =
     \<lparr>su_status = status, su_detail = detail, su_pending_orders = pending, su_recovered_orders = recovered,
      su_discrepancies = discrepancies, su_completed_at = sv_completed_at env\<rparr>"

definition startup_halt ::
  "('b, 's, 'p, 'a) startup_env \<Rightarrow> string \<Rightarrow> nat \<Rightarrow> nat \<Rightarrow> nat \<Rightarrow> ('b, 's, 'p, 'a, startup_result) startup_act"
where
  "startup_halt env reason pending recovered discrepancies =
     abind (st_on_world (rw_on_kill (ks_trip (re_kill_env (sv_rec env) 3) (''startup recovery: '' @ reason))))
       (\<lambda>_. aret (startup_result_of env ''halted'' reason pending recovered discrepancies))"

definition load_saved ::
  "('b, 's, 'p, 'a) startup_env \<Rightarrow>
     ('b, 's, 'p, 'a, portfolio_state option \<times> trade_order list \<times> fill list \<times> fill list) startup_act"
where
  "load_saved env =
     abind (st_on_world (rw_on_store (sv_latest_state env))) (\<lambda>baseline.
     abind (st_on_orders (sv_open_orders env)) (\<lambda>orders.
     abind (st_on_orders (sv_fills_for env orders)) (\<lambda>fills.
     abind (if baseline \<noteq> None then st_on_world (rw_on_store (sv_latest_recorded_at env)) else aret None) (\<lambda>snapshot_at.
     abind (case snapshot_at of None \<Rightarrow> aret [] | Some t \<Rightarrow> st_on_orders (sv_fills_after env t)) (\<lambda>later.
       aret (baseline, orders, fills, later))))))"

definition saved_holdings ::
  "('b, 's, 'p, 'a) startup_env \<Rightarrow> portfolio_state option \<Rightarrow> fill list \<Rightarrow> exn + (position list \<times> balance list)"
where
  "saved_holdings env baseline later =
     (case baseline of
        None \<Rightarrow> Inr ([], [])
      | Some base \<Rightarrow>
          if later = [] then Inr (pf_positions base, pf_balances base)
          else rbind (apply_fills (sv_now env) (sv_increments env) base later)
                 (\<lambda>p. Inr (pf_positions p, pf_balances p)))"

definition startup_local :: "trade_order list \<Rightarrow> fill list \<Rightarrow> position list \<times> balance list \<Rightarrow> portfolio_state" where
  "startup_local orders fills holdings =
     \<lparr>pf_orders = dict_of (map (\<lambda>ord. (req_client_order_id (ord_request ord), ord)) orders),
      pf_fills = dict_of (map (\<lambda>f. (fill_fill_id f, f)) fills),
      pf_positions = fst holdings, pf_balances = snd holdings\<rparr>"

definition startup_reconcile ::
  "('b, 's, 'p, 'a) startup_env \<Rightarrow> bool \<Rightarrow> portfolio_state \<Rightarrow> nat \<Rightarrow> nat \<Rightarrow> nat \<Rightarrow>
     ('b, 's, 'p, 'a, startup_result) startup_act"
where
  "startup_reconcile env has_baseline local pending recovered later =
     abind (attempt (st_on_world (reconcile (sv_rec env) local))) (\<lambda>r. case r of
        Inl (ReconciliationUnavailable _) \<Rightarrow>
          startup_halt env ''broker reconciliation was unavailable during startup recovery'' pending recovered 0
      | Inl exc \<Rightarrow> athrow exc
      | Inr result \<Rightarrow>
          if rr_safety_tripped result
          then startup_halt env
                 (''broker-authoritative reconciliation diverged from persisted state'' @
                  (if has_baseline then [] else ''; no persisted portfolio baseline existed''))
                 pending recovered (length (rr_discrepancies result))
          else aret (startup_result_of env ''reconciled''
                 (''persisted orders and portfolio state match the broker'' @
                  (if later = 0 then []
                   else '' (counting '' @ nat_str later @ '' fill(s) saved after the last snapshot)''))
                 pending recovered 0))"

text \<open>Once no order is pending: the saved state, the fills saved after it, the comparison.\<close>

definition startup_compare ::
  "('b, 's, 'p, 'a) startup_env \<Rightarrow> nat \<Rightarrow> trade_order list \<Rightarrow>
     portfolio_state option \<times> trade_order list \<times> fill list \<times> fill list \<Rightarrow> ('b, 's, 'p, 'a, startup_result) startup_act"
where
  "startup_compare env pending recovered saved =
     (case saved of (baseline, orders, fills, saved_later) \<Rightarrow>
        let recovered_ids = (\<lambda>ord. req_client_order_id (ord_request ord)) ` set recovered;
            later = filter (\<lambda>f. fill_order_id f \<notin> recovered_ids) saved_later in
        case saved_holdings env baseline later of
          Inl exc \<Rightarrow>
            if is_value_error exc
            then startup_halt env ''fills saved after the last snapshot could not be applied to it''
                   pending (length recovered) 0
            else athrow exc
        | Inr holdings \<Rightarrow>
            startup_reconcile env (baseline \<noteq> None) (startup_local orders fills holdings)
              pending (length recovered) (length later))"

definition startup_resolved ::
  "('b, 's, 'p, 'a) startup_env \<Rightarrow> nat \<Rightarrow> trade_order list \<Rightarrow> ('b, 's, 'p, 'a, startup_result) startup_act"
where
  "startup_resolved env pending recovered =
     abind (attempt (load_saved env)) (\<lambda>r. case r of
        Inl _ \<Rightarrow> startup_halt env ''persisted portfolio state could not be loaded during startup recovery''
          pending (length recovered) 0
      | Inr saved \<Rightarrow> startup_compare env pending recovered saved)"

definition startup_with_broker ::
  "('b, 's, 'p, 'a) startup_env \<Rightarrow> nat \<Rightarrow> ('b, 's, 'p, 'a, startup_result) startup_act"
where
  "startup_with_broker env pending =
     abind (attempt (st_on_engine (abind (engine_recover_pending (sv_engine env))
              (\<lambda>recovered. abind (on_store (os_pending (ev_store (sv_engine env)))) (\<lambda>left. aret (recovered, left))))))
     (\<lambda>r. case r of
        Inl _ \<Rightarrow> startup_halt env
          ''pending orders could not be queried by client_order_id during startup recovery'' pending 0 0
      | Inr (recovered, left) \<Rightarrow>
          if left \<noteq> []
          then startup_halt env ''broker has no record of persisted pending orders; operator review required''
                 pending (length recovered) 0
          else startup_resolved env pending recovered)"

definition recover_on_startup :: "('b, 's, 'p, 'a) startup_env \<Rightarrow> ('b, 's, 'p, 'a, startup_result) startup_act" where
  "recover_on_startup env =
     abind (attempt (st_on_orders (os_pending (ev_store (sv_engine env))))) (\<lambda>r. case r of
        Inl _ \<Rightarrow> startup_halt env ''persisted orders could not be read during startup recovery'' 0 0 0
      | Inr pending \<Rightarrow>
          if \<not> sv_has_broker env
          then if pending \<noteq> []
            then startup_halt env ''persisted pending orders cannot be resolved without a configured broker''
                   (length pending) 0 0
            else aret (startup_result_of env ''no_broker''
                   ''no broker is configured and no orders are pending; reconciliation not performed'' 0 0 0)
          else startup_with_broker env (length pending))"

section \<open>Every failure leaves the switch halted\<close>

abbreviation st_halted :: "('b, 's, 'p, 'a) startup \<Rightarrow> bool" where
  "st_halted s \<equiv> rw_halted (st_world s)"

text \<open>
  What recovery promises of the switch that stood at \<open>k\<close>: a result that is not \<^verbatim>\<open>halted\<close> leaves it
  alone, a result that is leaves it HALTED.
\<close>

definition startup_ok :: "kill_switch \<Rightarrow> startup_result \<Rightarrow> ('b, 's, 'p, 'a) startup \<Rightarrow> bool" where
  "startup_ok k res s \<longleftrightarrow>
     (if su_status res = ''halted'' then st_halted s
      else su_status res \<in> {''reconciled'', ''no_broker''} \<and> rw_kill (st_world s) = k)"

definition startup_raised :: "exn \<Rightarrow> ('b, 's, 'p, 'a) startup \<Rightarrow> bool" where
  "startup_raised e s \<longleftrightarrow> st_halted s \<or> (\<exists>x. e = ArithmeticError x)"

lemma st_world_triple:
  assumes "triple P m Q E"
  shows "triple (\<lambda>s. P (st_world s)) (st_on_world m) (\<lambda>x s. Q x (st_world s)) (\<lambda>e s. E e (st_world s))"
  using assms by (auto simp: triple_def st_on_world_def split_beta split: sum.splits)

abbreviation kill_is :: "kill_switch \<Rightarrow> ('b, 's, 'p, 'a) startup \<Rightarrow> bool" where
  "kill_is k s \<equiv> rw_kill (st_world s) = k"

lemma kill_frame:
  "triple (kill_is k) (st_on_orders m1) (\<lambda>_. kill_is k) (\<lambda>_. kill_is k)"
  "triple (kill_is k) (st_on_engine m2) (\<lambda>_. kill_is k) (\<lambda>_. kill_is k)"
  "triple (kill_is k) (st_on_world (rw_on_store m3)) (\<lambda>_. kill_is k) (\<lambda>_. kill_is k)"
  unfolding triple_snd_iff
  by (simp_all add: st_on_orders_def st_on_engine_def st_on_world_def rw_on_store_def split_beta)

lemma startup_halt_ok: "triple P (startup_halt env reason a b d) (startup_ok k) startup_raised"
proof -
  have "triple P (st_on_world (rw_on_kill (ks_trip e reason'))) (\<lambda>_. st_halted) startup_raised" for e reason'
    by (rule triple_weaken[OF st_world_triple[OF rw_trip_halts[where P = "\<lambda>_. True"]]])
      (auto simp: startup_raised_def)
  then show ?thesis
    unfolding startup_halt_def
    by (rule triple_abind) (rule triple_aret, simp add: startup_ok_def startup_result_of_def)
qed

lemma attempt_kill:
  assumes "triple (kill_is k) m (\<lambda>_. kill_is k) (\<lambda>_. kill_is k)"
    and "\<And>r. triple (kill_is k) (f r) (startup_ok k) startup_raised"
  shows "triple (kill_is k) (abind (attempt m) f) (startup_ok k) startup_raised"
proof (rule triple_abind[OF _ assms(2)])
  show "triple (kill_is k) (attempt m) (\<lambda>_. kill_is k) startup_raised"
    using assms(1) by (simp add: triple_def attempt_def split_beta split: sum.splits)
qed

lemma load_saved_kill: "triple (kill_is k) (load_saved env) (\<lambda>_. kill_is k) (\<lambda>_. kill_is k)"
proof -
  have same: "triple (kill_is k) (abind m f) (\<lambda>_. kill_is k) (\<lambda>_. kill_is k)"
    if "triple (kill_is k) m (\<lambda>_. kill_is k) (\<lambda>_. kill_is k)"
      "\<And>x. triple (kill_is k) (f x) (\<lambda>_. kill_is k) (\<lambda>_. kill_is k)" for m f
    using that by (rule triple_abind)
  show ?thesis
    unfolding load_saved_def
    by (auto intro!: same kill_frame triple_aret split: option.split)
qed

text \<open>A projection fails with a \<^verbatim>\<open>ValueError\<close> or with an error of decimal arithmetic.\<close>

definition projection_error :: "exn \<Rightarrow> bool" where
  "projection_error e \<longleftrightarrow> is_value_error e \<or> (\<exists>x. e = ArithmeticError x)"

lemma rbind_error:
  assumes "\<And>e. m = Inl e \<Longrightarrow> P e" "\<And>x e. f x = Inl e \<Longrightarrow> P e"
  shows "rbind m f = Inl e \<Longrightarrow> P e"
  using assms by (cases m) auto

lemma rfold_error:
  assumes "\<And>x s e. f x s = Inl e \<Longrightarrow> P e"
  shows "rfold f xs s = Inl e \<Longrightarrow> P e"
  by (induction xs arbitrary: s) (auto split: sum.splits dest: assms)

lemma lift_arith_error: "lift_arith r = Inl e \<Longrightarrow> projection_error e"
  by (cases r) (auto simp: projection_error_def)

lemma settle_error: "settle inc a x = Inl e \<Longrightarrow> projection_error e"
  by (auto simp: settle_def toward_zero_def dest: lift_arith_error elim!: rbind_error[rotated -1] split: option.splits)

lemma move_asset_error: "move_asset inc am s = Inl e \<Longrightarrow> projection_error e"
  by (cases am) (auto simp: move_asset_def dest: settle_error elim!: rbind_error[rotated -1])

lemma moves_error: "rfold (move_asset inc) ms s = Inl e \<Longrightarrow> projection_error e"
  by (erule rfold_error[rotated]) (rule move_asset_error)

lemma next_holding_error: "next_holding f h = Inl e \<Longrightarrow> projection_error e"
  by (auto simp: next_holding_def Let_def dest: lift_arith_error elim!: rbind_error[rotated -1]
      split: prod.splits if_splits option.splits)

lemma apply_fill_error: "apply_fill inc f s = Inl e \<Longrightarrow> projection_error e"
proof (cases "split_hyphen (fill_symbol f)")
  case (Some pair)
  assume "apply_fill inc f s = Inl e"
  with Some show ?thesis
    by (auto simp: apply_fill_def split: prod.splits elim!: rbind_error[rotated -1]
        dest: next_holding_error moves_error)
qed (auto simp: apply_fill_def projection_error_def)

lemma fills_error: "rfold (apply_fill inc) fs s = Inl e \<Longrightarrow> projection_error e"
  by (erule rfold_error[rotated]) (rule apply_fill_error)

lemma apply_fills_error: "apply_fills now inc base fs = Inl e \<Longrightarrow> projection_error e"
  unfolding apply_fills_def
  by (erule rbind_error[rotated -1])
    (auto simp: Let_def projection_error_def[of "ValueError _"] projection_error_def[of "ValidationError _"]
      dest: fills_error split: if_splits)

lemma saved_holdings_error: "saved_holdings env baseline later = Inl e \<Longrightarrow> projection_error e"
  by (auto simp: saved_holdings_def dest: apply_fills_error elim!: rbind_error[rotated -1] split: option.splits if_splits)

lemma startup_reconcile_ok:
  fixes env :: "('b, 's, 'p, 'a) startup_env"
  assumes "alert_raises (\<lambda>_. False) (sv_rec env)"
  shows "triple (kill_is k) (startup_reconcile env has local a b n) (startup_ok k) startup_raised"
proof -
  note rec = st_world_triple[OF reconcile_halts[OF assms, of k local]]
  have "triple (kill_is k) (attempt (st_on_world (reconcile (sv_rec env) local)))
      (\<lambda>r (s :: ('b, 's, 'p, 'a) startup). case r of Inl _ \<Rightarrow> st_halted s
        | Inr result \<Rightarrow> if rr_safety_tripped result then st_halted s else kill_is k s) startup_raised"
  proof (rule tripleI)
    fix s t :: "('b, 's, 'p, 'a) startup" and r
    assume k: "kill_is k s" and run: "attempt (st_on_world (reconcile (sv_rec env) local)) s = (Inr r, t)"
    then have st: "st_on_world (reconcile (sv_rec env) local) s = (r, t)"
      by (auto simp: attempt_def split: prod.splits)
    show "case r of Inl _ \<Rightarrow> st_halted t
        | Inr result \<Rightarrow> if rr_safety_tripped result then st_halted t else kill_is k t"
    proof (cases r)
      case (Inl e)
      then show ?thesis using triple_raises[OF rec k] st by simp
    next
      case (Inr result)
      have "rr_safety_tripped result \<longleftrightarrow> rr_discrepancies result \<noteq> []"
        using st Inr by (auto simp: st_on_world_def reconcile_found_def Let_def elim!: reconcile_InrE
            split: prod.splits)
      then show ?thesis using triple_returns[OF rec k] st Inr by (auto split: if_splits)
    qed
  qed (simp add: attempt_def split_beta)
  then show ?thesis
    unfolding startup_reconcile_def
    by (rule triple_abind)
      (auto intro!: startup_halt_ok triple_aret triple_athrow
        simp: startup_ok_def startup_result_of_def startup_raised_def split: sum.split exn.split)
qed

text \<open>
  C30. With a receiver of alerts that does not raise, restart recovery that returns \<^verbatim>\<open>reconciled\<close> or
  \<^verbatim>\<open>no_broker\<close> leaves the kill switch as it was, and one that returns anything else, or raises, leaves
  it HALTED, with one exception: an arithmetic error of the projection escapes.
\<close>

theorem recovery_settled_or_halted:
  assumes "alert_raises (\<lambda>_. False) (sv_rec env)" and "recover_on_startup env s = (r, s')"
  shows "case r of
      Inr res \<Rightarrow> if su_status res = ''halted'' then ks_state (rw_kill (st_world s')) = HALTED
        else su_status res \<in> {''reconciled'', ''no_broker''} \<and> rw_kill (st_world s') = rw_kill (st_world s)
    | Inl e \<Rightarrow> ks_state (rw_kill (st_world s')) = HALTED \<or> (\<exists>x. e = ArithmeticError x)"
proof -
  let ?k = "rw_kill (st_world s)"
  have compare: "triple (kill_is ?k) (startup_compare env n recovered saved) (startup_ok ?k) startup_raised" for n recovered saved
    unfolding startup_compare_def Let_def
    by (auto intro!: startup_halt_ok startup_reconcile_ok[OF assms(1)] triple_athrow
        simp: startup_raised_def projection_error_def dest!: saved_holdings_error split: prod.split sum.split)
  have resolved: "triple (kill_is ?k) (startup_resolved env n recovered) (startup_ok ?k) startup_raised" for n recovered
    unfolding startup_resolved_def
    by (rule attempt_kill[OF load_saved_kill]) (auto intro!: startup_halt_ok compare split: sum.split)
  have with_broker: "triple (kill_is ?k) (startup_with_broker env n) (startup_ok ?k) startup_raised" for n
    unfolding startup_with_broker_def
    by (rule attempt_kill[OF kill_frame(2)]) (auto intro!: startup_halt_ok resolved split: sum.split prod.split)
  have "triple (kill_is ?k) (recover_on_startup env) (startup_ok ?k) startup_raised"
    unfolding recover_on_startup_def
    by (rule attempt_kill[OF kill_frame(1)])
      (auto intro!: startup_halt_ok with_broker triple_aret simp: startup_ok_def startup_result_of_def split: sum.split)
  then show ?thesis
    using assms(2) by (cases r) (auto simp: triple_def startup_ok_def startup_raised_def dest!: spec[of _ s])
qed

section \<open>Concrete recoveries\<close>

definition sample_startup_env :: "(sim_broker, order_db, unit, nat) startup_env" where
  "sample_startup_env = \<lparr>sv_rec = sample_rec_env None, sv_has_broker = True, sv_increments = [],
     sv_engine = plain_env (sim_ops 0), sv_open_orders = sql_open_orders 0, sv_fills_for = sql_fills_for,
     sv_fills_after = sql_fills_after 0, sv_latest_state = (\<lambda>p. (Inr None, p)),
     sv_latest_recorded_at = (\<lambda>p. (Inr None, p)), sv_now = 0, sv_completed_at = ''1970-01-01''\<rparr>"

definition sample_startup :: "(sim_broker, order_db, unit, nat) startup" where
  "sample_startup = \<lparr>st_world = sample_world, st_orders = en_store (sample_engine [])\<rparr>"

theorem recovery_settled_or_halted_witness:
  "\<exists>r s'. recover_on_startup sample_startup_env sample_startup = (r, s') \<and>
    (case r of
      Inr res \<Rightarrow> if su_status res = ''halted'' then ks_state (rw_kill (st_world s')) = HALTED
        else su_status res \<in> {''reconciled'', ''no_broker''} \<and> rw_kill (st_world s') = rw_kill (st_world sample_startup)
    | Inl e \<Rightarrow> ks_state (rw_kill (st_world s')) = HALTED \<or> (\<exists>x. e = ArithmeticError x))"
proof -
  obtain r s' where run: "recover_on_startup sample_startup_env sample_startup = (r, s')" by force
  have "alert_raises (\<lambda>_. False) (sv_rec sample_startup_env)"
    by (simp add: alert_raises_def sample_startup_env_def sample_rec_env_def)
  note safe = recovery_settled_or_halted[OF this run]
  show ?thesis by (rule exI, rule exI, rule conjI, rule run, rule safe)
qed

text \<open>
  The exception is real. A position with a known cost that the saved fills first oversell and then buy
  back to zero divides by the zero quantity: recovery raises, and the switch stays RUNNING.
\<close>

definition oversold_fill :: "string \<Rightarrow> order_side \<Rightarrow> rat \<Rightarrow> rat \<Rightarrow> datetime \<Rightarrow> fill" where
  "oversold_fill fid side quantity price t = \<lparr>fill_fill_id = fid, fill_order_id = ''o'', fill_symbol = ''B-U'',
     fill_side = side, fill_quantity = quantity, fill_price = price, fill_fee = 0, fill_fee_asset = ''U'',
     fill_occurred_at = t\<rparr>"

definition oversold_base :: portfolio_state where
  "oversold_base = \<lparr>pf_orders = [], pf_fills = [],
     pf_positions = [\<lparr>pos_symbol = ''B-U'', pos_quantity = 1, pos_average_price = Some 10, pos_as_of = 0\<rparr>],
     pf_balances = [sample_cash 100]\<rparr>"

theorem oversold_projection_escapes_recovery:
  "case startup_compare sample_startup_env 0 []
      (Some oversold_base, [], [], [oversold_fill ''f1'' SELL 2 10 1, oversold_fill ''f2'' BUY 1 11 2]) sample_startup of
     (r, s') \<Rightarrow> r = Inl (ArithmeticError DivisionByZero) \<and> ks_state (rw_kill (st_world s')) = RUNNING"
proof -
  have "apply_fills 0 [] oversold_base [oversold_fill ''f1'' SELL 2 10 1, oversold_fill ''f2'' BUY 1 11 2] =
      Inl (ArithmeticError DivisionByZero)"
    by (simp add: apply_fills_def oversold_base_def oversold_fill_def fill_key_def ledger_init_def dict_of_def
        sample_cash_def apply_fill_def movements_def side_sign_def move_asset_def settle_def
        next_holding_def Let_def dec_op_defs dec.r_minus ddiv_def)
  then show ?thesis
    by (simp add: startup_compare_def saved_holdings_def sample_startup_env_def sample_startup_def sample_world_def
        sample_kill_def)
qed

end
