(* ===== verification/Backtest.thy ===== *)
theory Backtest
  imports Models
begin

text \<open>
  The closed-bar backtester and walk-forward runner of \<^verbatim>\<open>strategy/backtest.py\<close> and the reference
  strategies of \<^verbatim>\<open>strategy/reference.py\<close>. A strategy is an operation on its own state \<open>'r\<close> (the
  object's attributes), so a run is modelled for any strategy; the order of its calls and the states
  it is shown are the source's. All amounts are decimals. \<open>year_text\<close> (the text of a time's year) and
  \<open>sha256\<close> are the standard library's.
\<close>

section \<open>Configuration and results\<close>

record cost_assumptions =
  ca_maker_fee_rate :: rat
  ca_taker_fee_rate :: rat
  ca_spread_bps :: rat
  ca_slippage_bps :: rat
  ca_fee_asset :: string
  ca_partial_fill_ratio :: rat

definition BPS :: rat where
  "BPS = 10000"

definition CENT :: rat where
  "CENT = 1 / 100"

definition execution_cost_rate :: "cost_assumptions \<Rightarrow> rat" where
  "execution_cost_rate c = dadd (dec (ca_spread_bps c / dmul BPS 2)) (dec (ca_slippage_bps c / BPS))"

definition valid_costs :: "cost_assumptions \<Rightarrow> bool" where
  "valid_costs c \<longleftrightarrow>
     0 \<le> ca_maker_fee_rate c \<and> 0 \<le> ca_taker_fee_rate c \<and> 0 \<le> ca_spread_bps c \<and> 0 \<le> ca_slippage_bps c \<and>
     ca_fee_asset c \<noteq> [] \<and> 0 < ca_partial_fill_ratio c \<and> ca_partial_fill_ratio c \<le> 1 \<and>
     \<not> 1 \<le> execution_cost_rate c"

record backtest_config =
  bc_initial_cash :: rat
  bc_data_source :: string
  bc_granularity :: string
  bc_quote_asset :: string
  bc_costs :: cost_assumptions
  bc_enforce_closed_bar_guard :: bool

definition default_costs :: cost_assumptions where
  "default_costs = \<lparr>ca_maker_fee_rate = 0, ca_taker_fee_rate = 0, ca_spread_bps = 0, ca_slippage_bps = 0,
     ca_fee_asset = ''USD'', ca_partial_fill_ratio = 1\<rparr>"

definition default_config :: backtest_config where
  "default_config = \<lparr>bc_initial_cash = 100000, bc_data_source = ''coinbase-advanced-trade'',
     bc_granularity = ''ONE_MINUTE'', bc_quote_asset = ''USD'', bc_costs = default_costs,
     bc_enforce_closed_bar_guard = True\<rparr>"

definition valid_config :: "backtest_config \<Rightarrow> bool" where
  "valid_config c \<longleftrightarrow>
     0 < bc_initial_cash c \<and> bc_data_source c \<noteq> [] \<and> bc_granularity c \<noteq> [] \<and> bc_quote_asset c \<noteq> [] \<and>
     valid_costs (bc_costs c)"

record trade =
  trd_symbol :: string
  trd_quantity :: rat
  trd_entry_at :: datetime
  trd_exit_at :: datetime
  trd_entry_price :: rat
  trd_exit_price :: rat
  trd_entry_fee :: rat
  trd_exit_fee :: rat
  trd_fee_asset :: string
  trd_pnl :: rat

definition valid_trade :: "trade \<Rightarrow> bool" where
  "valid_trade t \<longleftrightarrow>
     0 < trd_quantity t \<and> 0 < trd_entry_price t \<and> 0 < trd_exit_price t \<and> 0 \<le> trd_entry_fee t \<and>
     0 \<le> trd_exit_fee t \<and> trd_fee_asset t \<noteq> []"

record return_distribution =
  rdist_count :: nat
  rdist_minimum :: rat
  rdist_maximum :: rat
  rdist_mean :: rat
  rdist_median :: rat
  rdist_positive_count :: nat
  rdist_negative_count :: nat

record period_result =
  per_period :: string
  per_return_pct :: rat
  per_trade_count :: nat
  per_exposure :: rat
  per_max_drawdown :: rat

record backtest_report =
  rep_data_source :: string
  rep_window_start :: datetime
  rep_window_end :: datetime
  rep_symbols :: "string list"
  rep_granularity :: string
  rep_cost_assumptions :: cost_assumptions
  rep_trade_count :: nat
  rep_exposure :: rat
  rep_return_distribution :: return_distribution
  rep_max_drawdown :: rat
  rep_max_drawdown_duration :: timedelta
  rep_per_year :: "(string, period_result) dict"
  rep_per_regime :: "(string, period_result) dict"
  rep_strategy_version :: string
  rep_strategy_version_hash :: string
  rep_initial_cash :: rat
  rep_final_equity :: rat
  rep_total_return_pct :: rat
  rep_trades :: "trade list"

section \<open>Statistics\<close>

definition money :: "rat \<Rightarrow> exn + rat" where
  "money x = lift_arith (quantize_half_up x CENT)"

definition execution_price :: "rat \<Rightarrow> order_side \<Rightarrow> cost_assumptions \<Rightarrow> rat" where
  "execution_price price side c =
     (let adjustment = execution_cost_rate c in
      if side = BUY then dmul price (dadd 1 adjustment) else dmul price (dsub 1 adjustment))"

definition median_of :: "rat list \<Rightarrow> rat" where
  "median_of ordered =
     (let midpoint = length ordered div 2 in
      if even (length ordered) then dec (dadd (ordered ! (midpoint - 1)) (ordered ! midpoint) / 2)
      else ordered ! midpoint)"

definition return_distribution_of :: "rat list \<Rightarrow> return_distribution" where
  "return_distribution_of values =
     (if values = []
      then \<lparr>rdist_count = 0, rdist_minimum = 0, rdist_maximum = 0, rdist_mean = 0, rdist_median = 0,
            rdist_positive_count = 0, rdist_negative_count = 0\<rparr>
      else \<lparr>rdist_count = length values, rdist_minimum = Min (set values), rdist_maximum = Max (set values),
            rdist_mean = dec (dsum values / of_nat (length values)), rdist_median = median_of (sort values),
            rdist_positive_count = length (filter (\<lambda>v. 0 < v) values),
            rdist_negative_count = length (filter (\<lambda>v. v < 0) values)\<rparr>)"

text \<open>The loop of \<^verbatim>\<open>_max_drawdown\<close>: its state is peak, time of the peak, largest drawdown, its duration.\<close>

definition drawdown_step ::
  "rat \<times> datetime \<Rightarrow> rat \<times> datetime \<times> rat \<times> timedelta \<Rightarrow> rat \<times> datetime \<times> rat \<times> timedelta"
where
  "drawdown_step = (\<lambda>(val, stamp) (peak, peak_at, largest, duration).
     let (peak, peak_at) = (if peak < val then (val, stamp) else (peak, peak_at)) in
     if 0 < peak
     then let drawdown = dec (dsub peak val / peak) in
       if largest < drawdown then (peak, peak_at, drawdown, stamp - peak_at) else (peak, peak_at, largest, duration)
     else (peak, peak_at, largest, duration))"

definition max_drawdown_of :: "rat list \<Rightarrow> datetime list \<Rightarrow> rat \<times> timedelta" where
  "max_drawdown_of equity stamps =
     (case fold drawdown_step (zip equity stamps) (0, hd stamps, 0, 0) of
        (_, _, largest, duration) \<Rightarrow> (largest, duration))"

definition period_drawdown :: "rat list \<Rightarrow> rat" where
  "period_drawdown equity =
     snd (fold (\<lambda>val (peak, drawdown).
            let peak = max peak val in
            (peak, if 0 < peak then max drawdown (dec (dsub peak val / peak)) else drawdown))
          equity (hd equity, 0))"

definition period_result_of :: "string \<Rightarrow> rat list \<Rightarrow> nat \<Rightarrow> rat \<Rightarrow> period_result" where
  "period_result_of period equity trade_count exposure =
     (if equity = []
      then \<lparr>per_period = period, per_return_pct = 0, per_trade_count = trade_count, per_exposure = exposure,
            per_max_drawdown = 0\<rparr>
      else \<lparr>per_period = period,
            per_return_pct = (if hd equity = 0 then 0 else dec (dsub (last equity) (hd equity) / hd equity)),
            per_trade_count = trade_count, per_exposure = exposure, per_max_drawdown = period_drawdown equity\<rparr>)"

section \<open>The run\<close>

fun series_ordered :: "string \<Rightarrow> candle list \<Rightarrow> exn + unit" where
  "series_ordered symb (previous # current # rest) =
     (if cdl_symbol current \<noteq> symb then Inl (ValueError ''a backtest cannot mix symbols'')
      else if cdl_opened_at current \<le> cdl_opened_at previous then Inl (ValueError ''candles must be strictly ordered'')
      else if cdl_opened_at current < cdl_closed_at previous then Inl (ValueError ''candles must not overlap'')
      else series_ordered symb (current # rest))"
| "series_ordered symb _ = Inr ()"

definition validate_series :: "candle list \<Rightarrow> exn + unit" where
  "validate_series series =
     (if length series < 2 then Inl (ValueError ''a backtest requires at least two closed candles'')
      else series_ordered (cdl_symbol (hd series)) series)"

record account =
  ac_cash :: rat
  ac_position :: rat
  ac_entry_price :: rat
  ac_entry_fee :: rat
  ac_entry_at :: datetime
  ac_trades :: "trade list"
  ac_equity :: "rat list"
  ac_stamps :: "datetime list"
  ac_flags :: "bool list"

definition account_init :: "backtest_config \<Rightarrow> candle list \<Rightarrow> account" where
  "account_init cfg series =
     \<lparr>ac_cash = bc_initial_cash cfg, ac_position = 0, ac_entry_price = 0, ac_entry_fee = 0,
      ac_entry_at = cdl_opened_at (hd series), ac_trades = [], ac_equity = [], ac_stamps = [], ac_flags = []\<rparr>"

definition backtest_buy :: "backtest_config \<Rightarrow> rat \<Rightarrow> candle \<Rightarrow> account \<Rightarrow> exn + account" where
  "backtest_buy cfg requested c a =
     (let quantity = dmul requested (ca_partial_fill_ratio (bc_costs cfg));
          price = execution_price (cdl_open c) BUY (bc_costs cfg);
          fee = dmul (dmul quantity price) (ca_taker_fee_rate (bc_costs cfg));
          total = dadd (dmul quantity price) fee in
      if ac_cash a < total then Inl (ValueError ''strategy requested a buy larger than available cash'')
      else Inr (a\<lparr>ac_position := quantity, ac_cash := dsub (ac_cash a) total, ac_entry_price := price,
                  ac_entry_fee := fee, ac_entry_at := cdl_opened_at c\<rparr>))"

definition backtest_sell :: "backtest_config \<Rightarrow> string \<Rightarrow> rat \<Rightarrow> datetime \<Rightarrow> account \<Rightarrow> exn + account" where
  "backtest_sell cfg symb market_price exit_at a =
     (let quantity = ac_position a;
          price = execution_price market_price SELL (bc_costs cfg);
          fee = dmul (dmul quantity price) (ca_taker_fee_rate (bc_costs cfg));
          proceeds = dsub (dmul quantity price) fee;
          t = \<lparr>trd_symbol = symb, trd_quantity = quantity, trd_entry_at = ac_entry_at a, trd_exit_at = exit_at,
               trd_entry_price = ac_entry_price a, trd_exit_price = price, trd_entry_fee = ac_entry_fee a,
               trd_exit_fee = fee, trd_fee_asset = ca_fee_asset (bc_costs cfg),
               trd_pnl = dsub (dsub (dmul quantity (dsub price (ac_entry_price a))) (ac_entry_fee a)) fee\<rparr> in
      if \<not> valid_trade t then Inl (ValidationError ''Trade'')
      else Inr (a\<lparr>ac_cash := dadd (ac_cash a) proceeds, ac_trades := ac_trades a @ [t], ac_position := 0\<rparr>))"

text \<open>The state shown to the strategy at one bar: the closed bars, or all of them without the guard.\<close>

definition bar_state :: "backtest_config \<Rightarrow> candle list \<Rightarrow> nat \<Rightarrow> exn + market_state" where
  "bar_state cfg series index =
     (let c = series ! index in
      rbind (mk_quote \<lparr>q_symbol = cdl_symbol (hd series), q_bid = cdl_close c, q_ask = cdl_close c,
               q_as_of = cdl_closed_at c, q_source = bc_data_source cfg, q_received_at = cdl_closed_at c\<rparr>)
        (\<lambda>q. Inr \<lparr>ms_symbol = cdl_symbol (hd series), ms_quote = q,
           ms_candles = (if bc_enforce_closed_bar_guard cfg then take (index + 1) series else series),
           ms_observed_at = cdl_closed_at c\<rparr>))"

text \<open>What a signal does at a bar that has a successor.\<close>

definition act_on_signal ::
  "backtest_config \<Rightarrow> string \<Rightarrow> candle \<Rightarrow> signal option \<Rightarrow> account \<Rightarrow> exn + account"
where
  "act_on_signal cfg symb next signal a =
     (case signal of
        None \<Rightarrow> Inr a
      | Some sg \<Rightarrow>
          if sig_symbol sg \<noteq> symb
          then Inl (ValueError ''strategy signal symbol does not match the backtest series'')
          else if sig_side sg = BUY \<and> ac_position a = 0 then backtest_buy cfg (sig_quantity sg) next a
          else if sig_side sg = SELL \<and> 0 < ac_position a
          then backtest_sell cfg symb (cdl_open next) (cdl_opened_at next) a
          else Inr a)"

type_synonym 'r strategy = "market_state \<Rightarrow> (exn, 'r, signal option) act"

definition close_bar :: "candle \<Rightarrow> account \<Rightarrow> account" where
  "close_bar c a = a\<lparr>ac_equity := ac_equity a @ [dadd (ac_cash a) (dmul (ac_position a) (cdl_close c))],
                     ac_stamps := ac_stamps a @ [cdl_closed_at c]\<rparr>"

definition backtest_bar ::
  "backtest_config \<Rightarrow> 'r strategy \<Rightarrow> candle list \<Rightarrow> nat \<Rightarrow> 'r \<times> account \<Rightarrow> exn + ('r \<times> account)"
where
  "backtest_bar cfg strat series index = (\<lambda>(r, a).
     rbind (bar_state cfg series index) (\<lambda>state.
       let c = series ! index; a1 = a\<lparr>ac_flags := ac_flags a @ [0 < ac_position a]\<rparr> in
       if index < length series - 1
       then (case strat state r of
               (Inl e, _) \<Rightarrow> Inl e
             | (Inr signal, r') \<Rightarrow>
                 rbind (act_on_signal cfg (cdl_symbol (hd series)) (series ! (index + 1)) signal a1)
                   (\<lambda>a2. Inr (r', close_bar c a2)))
       else Inr (r, close_bar c a1)))"

definition liquidate :: "backtest_config \<Rightarrow> candle list \<Rightarrow> account \<Rightarrow> exn + account" where
  "liquidate cfg series a =
     (if 0 < ac_position a
      then rbind (backtest_sell cfg (cdl_symbol (hd series)) (cdl_close (last series)) (cdl_closed_at (last series)) a)
             (\<lambda>a'. Inr (a'\<lparr>ac_equity := butlast (ac_equity a') @ [ac_cash a']\<rparr>))
      else Inr a)"

definition returns_of :: "rat list \<Rightarrow> rat list" where
  "returns_of equity =
     [dec (dsub current previous / previous). (previous, current) \<leftarrow> zip equity (tl equity), previous \<noteq> 0]"

definition period_key :: "(datetime \<Rightarrow> string) \<Rightarrow> bool \<Rightarrow> candle list \<Rightarrow> nat \<Rightarrow> string" where
  "period_key year_text by_year series index =
     (if by_year then year_text (cdl_closed_at (series ! index))
      else if index = 0 then ''flat''
      else if cdl_close (series ! (index - 1)) \<le> cdl_close (series ! index) then ''up'' else ''down'')"

definition period_indexes :: "(datetime \<Rightarrow> string) \<Rightarrow> bool \<Rightarrow> candle list \<Rightarrow> (string, nat list) dict" where
  "period_indexes year_text by_year series =
     foldl (\<lambda>d i. let k = period_key year_text by_year series i in AList.update k (dict_get d k [] @ [i]) d)
       [] [0..<length series]"

definition group_periods ::
  "(datetime \<Rightarrow> string) \<Rightarrow> bool \<Rightarrow> candle list \<Rightarrow> account \<Rightarrow> (string, period_result) dict"
where
  "group_periods year_text by_year series a =
     map (\<lambda>(key, indexes).
        (key, period_result_of key (map (\<lambda>i. ac_equity a ! i) indexes)
           (if by_year then length (filter (\<lambda>t. year_text (trd_entry_at t) = key) (ac_trades a)) else 0)
           (dec (of_nat (length (filter (\<lambda>i. ac_flags a ! i) indexes)) / of_nat (length indexes)))))
       (period_indexes year_text by_year series)"

definition backtest_report_of ::
  "(datetime \<Rightarrow> string) \<Rightarrow> (string \<Rightarrow> string) \<Rightarrow> backtest_config \<Rightarrow> string \<Rightarrow> candle list \<Rightarrow> account \<Rightarrow>
     exn + backtest_report"
where
  "backtest_report_of year_text sha256 cfg version series a =
     rbind (money (ac_cash a)) (\<lambda>final.
       if final < 0 then Inl (ValidationError ''BacktestReport'')
       else let dd = max_drawdown_of (ac_equity a) (ac_stamps a) in
         Inr \<lparr>rep_data_source = bc_data_source cfg, rep_window_start = cdl_opened_at (hd series),
              rep_window_end = cdl_closed_at (last series), rep_symbols = [cdl_symbol (hd series)],
              rep_granularity = bc_granularity cfg, rep_cost_assumptions = bc_costs cfg,
              rep_trade_count = length (ac_trades a),
              rep_exposure = dec (of_nat (length (filter id (ac_flags a))) / of_nat (length series)),
              rep_return_distribution = return_distribution_of (returns_of (ac_equity a)),
              rep_max_drawdown = fst dd, rep_max_drawdown_duration = snd dd,
              rep_per_year = group_periods year_text True series a,
              rep_per_regime = group_periods year_text False series a,
              rep_strategy_version = version, rep_strategy_version_hash = sha256 version,
              rep_initial_cash = bc_initial_cash cfg, rep_final_equity = final,
              rep_total_return_pct = dec (dsub final (bc_initial_cash cfg) / bc_initial_cash cfg),
              rep_trades = ac_trades a\<rparr>)"

definition backtest_run ::
  "(datetime \<Rightarrow> string) \<Rightarrow> (string \<Rightarrow> string) \<Rightarrow> backtest_config \<Rightarrow> string \<Rightarrow> 'r strategy \<Rightarrow> candle list \<Rightarrow> 'r \<Rightarrow>
     exn + backtest_report"
where
  "backtest_run year_text sha256 cfg version strat series r =
     rbind (validate_series series) (\<lambda>_.
     rbind (rfold (backtest_bar cfg strat series) [0..<length series] (r, account_init cfg series)) (\<lambda>(_, a).
     rbind (liquidate cfg series a) (backtest_report_of year_text sha256 cfg version series)))"

section \<open>Walk-forward evaluation\<close>

record walk_forward_config =
  wf_train_bars :: nat
  wf_test_bars :: nat
  wf_step_bars :: "nat option"
  wf_holdout_bars :: nat

definition valid_walk_forward :: "walk_forward_config \<Rightarrow> bool" where
  "valid_walk_forward w \<longleftrightarrow> 0 < wf_train_bars w \<and> 0 < wf_test_bars w \<and> wf_step_bars w \<noteq> Some 0"

definition wf_step :: "walk_forward_config \<Rightarrow> nat" where
  "wf_step w = (case wf_step_bars w of None \<Rightarrow> wf_test_bars w | Some s \<Rightarrow> s)"

record walk_forward_window =
  win_train_start :: datetime
  win_train_end :: datetime
  win_test_start :: datetime
  win_test_end :: datetime
  win_report :: backtest_report

record walk_forward_report =
  wfr_windows :: "walk_forward_window list"
  wfr_holdout :: "backtest_report option"

text \<open>
  The starts of the windows, \<open>bars\<close> bars each. A valid configuration has a positive step, which ends
  the loop.
\<close>

function walk_starts :: "nat \<Rightarrow> nat \<Rightarrow> nat \<Rightarrow> nat \<Rightarrow> nat list" where
  "walk_starts bars step available start =
     (if 0 < step \<and> start + bars \<le> available
      then start # walk_starts bars step available (start + step) else [])"
  by pat_completeness auto
termination by (relation "measure (\<lambda>(bars, step, available, start). available + 1 - start)") auto

declare walk_starts.simps [simp del]

text \<open>A factory makes a strategy from training candles: its version, its code and its first state.\<close>

type_synonym 'r strategy_factory = "candle list \<Rightarrow> exn + (string \<times> 'r strategy \<times> 'r)"

definition slice :: "nat \<Rightarrow> nat \<Rightarrow> 'a list \<Rightarrow> 'a list" where
  "slice from len xs = take len (drop from xs)"

definition walk_window ::
  "(datetime \<Rightarrow> string) \<Rightarrow> (string \<Rightarrow> string) \<Rightarrow> backtest_config \<Rightarrow> walk_forward_config \<Rightarrow>
     'r strategy_factory \<Rightarrow> candle list \<Rightarrow> nat \<Rightarrow> exn + walk_forward_window"
where
  "walk_window year_text sha256 cfg w factory series start =
     (let training = slice start (wf_train_bars w) series;
          testing = slice (start + wf_train_bars w) (wf_test_bars w) series in
      rbind (factory training) (\<lambda>(version, strat, r).
      rbind (backtest_run year_text sha256 cfg version strat testing r) (\<lambda>report.
        Inr \<lparr>win_train_start = cdl_opened_at (hd training), win_train_end = cdl_closed_at (last training),
             win_test_start = cdl_opened_at (hd testing), win_test_end = cdl_closed_at (last testing),
             win_report = report\<rparr>)))"

definition walk_windows ::
  "(datetime \<Rightarrow> string) \<Rightarrow> (string \<Rightarrow> string) \<Rightarrow> backtest_config \<Rightarrow> walk_forward_config \<Rightarrow>
     'r strategy_factory \<Rightarrow> candle list \<Rightarrow> exn + walk_forward_window list"
where
  "walk_windows year_text sha256 cfg w factory series =
     rfold (\<lambda>start ws. rbind (walk_window year_text sha256 cfg w factory series start) (\<lambda>x. Inr (ws @ [x])))
       (walk_starts (wf_train_bars w + wf_test_bars w) (wf_step w) (length series - wf_holdout_bars w) 0) []"

definition run_walk_forward ::
  "(datetime \<Rightarrow> string) \<Rightarrow> (string \<Rightarrow> string) \<Rightarrow> backtest_config \<Rightarrow> walk_forward_config \<Rightarrow>
     'r strategy_factory \<Rightarrow> candle list \<Rightarrow> exn + walk_forward_report"
where
  "run_walk_forward year_text sha256 cfg w factory series =
     (let available = length series - wf_holdout_bars w in
      if available < wf_train_bars w + wf_test_bars w
      then Inl (ValueError ''not enough candles for the requested walk-forward windows'')
      else rbind (walk_windows year_text sha256 cfg w factory series) (\<lambda>windows.
        if wf_holdout_bars w = 0 then Inr \<lparr>wfr_windows = windows, wfr_holdout = None\<rparr>
        else rbind (factory []) (\<lambda>(version, strat, r).
             rbind (backtest_run year_text sha256 cfg version strat (drop available series) r) (\<lambda>report.
               Inr \<lparr>wfr_windows = windows, wfr_holdout = Some report\<rparr>))))"

section \<open>Reference strategies\<close>

text \<open>
  \<^verbatim>\<open>AlwaysBuyStrategy\<close>: its state is whether it has emitted. The identifier and time of the signal are
  the model's defaults (a random UUID and the clock), so they are arguments.
\<close>

definition always_buy_init :: "rat \<Rightarrow> exn + bool" where
  "always_buy_init quantity =
     (if quantity \<le> 0 then Inl (ValueError ''quantity must be positive'') else Inr False)"

definition deterministic_signal_id :: "(uuid \<Rightarrow> string \<Rightarrow> uuid) \<Rightarrow> uuid \<Rightarrow> string \<Rightarrow> string \<Rightarrow> uuid" where
  "deterministic_signal_id uuid5 namespace_url version symb =
     uuid5 namespace_url (''algorithmic-crypto-trader:'' @ version @ '':'' @ symb)"

definition always_buy ::
  "(uuid \<Rightarrow> string \<Rightarrow> uuid) \<Rightarrow> uuid \<Rightarrow> uuid \<Rightarrow> datetime \<Rightarrow> rat \<Rightarrow> bool strategy"
where
  "always_buy uuid5 namespace_url sid now quantity state emitted =
     (if emitted then (Inr None, True)
      else case mk_signal \<lparr>sig_signal_id = sid, sig_symbol = ms_symbol state, sig_side = BUY,
             sig_quantity = quantity, sig_strategy_version = ''always-buy-v1'', sig_created_at = now,
             sig_correlation_id = deterministic_signal_id uuid5 namespace_url ''always-buy-v1'' (ms_symbol state)\<rparr> of
          Inl e \<Rightarrow> (Inl e, True)
        | Inr sg \<Rightarrow> (Inr (Some sg), True))"

record ma_cross =
  mc_fast :: nat
  mc_slow :: nat
  mc_quantity :: "rat + (string, rat) dict"

definition ma_cross_init :: "int \<Rightarrow> int \<Rightarrow> rat + (string, rat) dict \<Rightarrow> exn + ma_cross" where
  "ma_cross_init fast slow quantity =
     (if fast < 1 \<or> slow \<le> fast then Inl (ValueError ''require 1 <= fast < slow'')
      else let values = (case quantity of Inl q \<Rightarrow> [q] | Inr m \<Rightarrow> map snd m) in
        if values = [] then Inl (ValueError ''quantity must name at least one symbol'')
        else if list_ex (\<lambda>v. v \<le> 0) values then Inl (ValueError ''quantity must be positive'')
        else Inr \<lparr>mc_fast = nat fast, mc_slow = nat slow, mc_quantity = quantity\<rparr>)"

definition mc_version :: "ma_cross \<Rightarrow> string" where
  "mc_version m = ''ma-cross-'' @ nat_str (mc_fast m) @ ''-'' @ nat_str (mc_slow m) @ ''-v1''"

definition quantity_for :: "ma_cross \<Rightarrow> string \<Rightarrow> rat option" where
  "quantity_for m symb = (case mc_quantity m of Inl q \<Rightarrow> Some q | Inr d \<Rightarrow> map_of d symb)"

definition mean_of :: "rat list \<Rightarrow> rat" where
  "mean_of values = dec (dsum values / of_nat (length values))"

text \<open>The last \<open>n\<close> values, and the \<open>n\<close> values before the last one.\<close>

definition last_values :: "nat \<Rightarrow> 'a list \<Rightarrow> 'a list" where
  "last_values n xs = drop (length xs - n) xs"

definition before_last :: "nat \<Rightarrow> 'a list \<Rightarrow> 'a list" where
  "before_last n xs = butlast (last_values (n + 1) xs)"

definition ma_cross_side :: "ma_cross \<Rightarrow> rat list \<Rightarrow> order_side option" where
  "ma_cross_side m closes =
     (let before = dsub (mean_of (before_last (mc_fast m) closes)) (mean_of (before_last (mc_slow m) closes));
          after = dsub (mean_of (last_values (mc_fast m) closes)) (mean_of (last_values (mc_slow m) closes)) in
      if before \<le> 0 \<and> 0 < after then Some BUY
      else if 0 \<le> before \<and> after < 0 then Some SELL else None)"

definition ma_cross_signal ::
  "(uuid \<Rightarrow> string \<Rightarrow> uuid) \<Rightarrow> uuid \<Rightarrow> (datetime \<Rightarrow> string) \<Rightarrow> ma_cross \<Rightarrow> market_state \<Rightarrow> exn + signal option"
where
  "ma_cross_signal uuid5 namespace_url isoformat m state =
     (case quantity_for m (ms_symbol state) of
        None \<Rightarrow> Inr None
      | Some quantity \<Rightarrow>
          if length (ms_candles state) \<le> mc_slow m then Inr None
          else case ma_cross_side m (map cdl_close (ms_candles state)) of
            None \<Rightarrow> Inr None
          | Some side \<Rightarrow>
              let bar = last (ms_candles state);
                  key = mc_version m @ ''|'' @ ms_symbol state @ ''|'' @ isoformat (cdl_closed_at bar) @ ''|'' @ side_value side in
              rbind (mk_signal
                \<lparr>sig_signal_id = uuid5 namespace_url (''algorithmic-crypto-trader:signal:'' @ key),
                 sig_symbol = ms_symbol state, sig_side = side, sig_quantity = quantity,
                 sig_strategy_version = mc_version m, sig_created_at = cdl_closed_at bar,
                 sig_correlation_id = uuid5 namespace_url (''algorithmic-crypto-trader:correlation:'' @ key)\<rparr>)
                (\<lambda>sg. Inr (Some sg)))"

section \<open>No look-ahead\<close>

lemma rfold_cong: "(\<And>x s. x \<in> set xs \<Longrightarrow> f x s = g x s) \<Longrightarrow> rfold f xs s = rfold g xs s"
  by (induction xs arbitrary: s) (auto split: sum.splits)

text \<open>Two series that share their first bars share everything a bar among them looks at.\<close>

lemma take_less: "take n xs = take n ys \<Longrightarrow> m \<le> n \<Longrightarrow> take m xs = take m ys"
  by (metis min.absorb1 take_take)

lemma take_hd: "take n xs = take n ys \<Longrightarrow> 0 < n \<Longrightarrow> hd xs = hd ys"
  by (metis hd_take)

lemma take_nth: "take n xs = take n ys \<Longrightarrow> i < n \<Longrightarrow> xs ! i = ys ! i"
  by (metis nth_take)

text \<open>What the next bar gives a fill: when it opened and at what price, and nothing else.\<close>

definition same_opening :: "candle \<Rightarrow> candle \<Rightarrow> bool" where
  "same_opening c d \<longleftrightarrow> cdl_opened_at c = cdl_opened_at d \<and> cdl_open c = cdl_open d"

lemma act_on_signal_opening:
  assumes "same_opening c d"
  shows "act_on_signal cfg symb c signal a = act_on_signal cfg symb d signal a"
proof -
  have same: "cdl_opened_at c = cdl_opened_at d" "cdl_open c = cdl_open d"
    using assms by (simp_all add: same_opening_def)
  show ?thesis unfolding act_on_signal_def backtest_buy_def same ..
qed

lemma bar_state_prefix:
  assumes "bc_enforce_closed_bar_guard cfg" "take (i + 1) xs = take (i + 1) ys"
  shows "bar_state cfg xs i = bar_state cfg ys i"
  using assms take_hd[OF assms(2)] take_nth[OF assms(2), of i] by (simp add: bar_state_def)

lemma backtest_bar_causal:
  assumes "bc_enforce_closed_bar_guard cfg" "take (i + 1) xs = take (i + 1) ys"
    and "same_opening (xs ! (i + 1)) (ys ! (i + 1))" "i + 1 < length xs" "i + 1 < length ys"
  shows "backtest_bar cfg strat xs i = backtest_bar cfg strat ys i"
proof -
  have same: "hd xs = hd ys" "xs ! i = ys ! i"
    using take_hd[OF assms(2)] take_nth[OF assms(2)] by simp_all
  have "i < length xs - 1" "i < length ys - 1" using assms(4,5) by auto
  then show ?thesis
    by (simp only: backtest_bar_def bar_state_prefix[OF assms(1,2)] act_on_signal_opening[OF assms(3)] same if_True)
qed

abbreviation after_bars ::
  "backtest_config \<Rightarrow> 'r strategy \<Rightarrow> candle list \<Rightarrow> nat \<Rightarrow> 'r \<Rightarrow> exn + ('r \<times> account)"
where
  "after_bars cfg strat series k r \<equiv> rfold (backtest_bar cfg strat series) [0..<k] (r, account_init cfg series)"

lemma after_bars_causal:
  assumes "bc_enforce_closed_bar_guard cfg" "take k xs = take k ys" "same_opening (xs ! k) (ys ! k)"
    and "k < length xs" "k < length ys"
  shows "after_bars cfg strat xs k r = after_bars cfg strat ys k r"
proof -
  have "backtest_bar cfg strat xs i = backtest_bar cfg strat ys i" if "i < k" for i
  proof (rule backtest_bar_causal[OF assms(1)])
    show "same_opening (xs ! (i + 1)) (ys ! (i + 1))"
      using assms(3) take_nth[OF assms(2), of "i + 1"] that
      by (cases "i + 1 = k") (simp_all add: same_opening_def)
  qed (use take_less[OF assms(2)] assms(4,5) that in auto)
  moreover have "account_init cfg xs = account_init cfg ys"
    using take_hd[OF assms(2)] assms(3-5)
    by (cases "k = 0") (simp_all add: account_init_def same_opening_def hd_conv_nth)
  moreover from calculation(1)
  have "rfold (backtest_bar cfg strat xs) [0..<k] s = rfold (backtest_bar cfg strat ys) [0..<k] s" for s
    by (intro rfold_cong) simp
  ultimately show ?thesis by simp
qed

text \<open>What the strategy is shown at a bar, and so what it becomes there, needs no later bar at all.\<close>

lemma strategy_causal:
  assumes "bc_enforce_closed_bar_guard cfg" "take (i + 1) xs = take (i + 1) ys" "i + 1 < length xs" "i + 1 < length ys"
    and "backtest_bar cfg strat xs i (r, a) = Inr (r1, a1)" "backtest_bar cfg strat ys i (r, a) = Inr (r2, a2)"
  shows "r1 = r2"
proof -
  have "i < length xs - 1" "i < length ys - 1" using assms(3,4) by auto
  then show ?thesis
    using assms(5,6) unfolding backtest_bar_def bar_state_prefix[OF assms(1,2)]
    by (auto simp: rbind_def Let_def split: sum.splits prod.splits)
qed

lemma last_bar:
  assumes "after_bars cfg strat series (Suc m) r = Inr (r1, a1)"
  obtains r0 a0 where "after_bars cfg strat series m r = Inr (r0, a0)" "backtest_bar cfg strat series m (r0, a0) = Inr (r1, a1)"
  using assms by (auto simp: rfold_append rbind_def split: sum.splits)

text \<open>
  C34. With the closed-bar guard, a backtest cannot see the future. Take two series that share their
  first \<open>k\<close> bars. Then the strategy, which may keep all it was shown, is in the same state after its
  first \<open>k\<close> bars whatever the series hold later, as long as both runs get that far. And everything the
  backtest has done by then (the errors it may have ended with, the cash, the position, the trades and
  the equity curve) is the same as soon as the next bars opened at the same time and the same price: the
  high, the low, the close and the volume of that bar and everything later may differ.
\<close>

theorem backtest_has_no_lookahead:
  assumes "bc_enforce_closed_bar_guard cfg" and "take k xs = take k ys"
    and "k < length xs" and "k < length ys"
  shows "(\<forall>r1 a1 r2 a2. after_bars cfg strat xs k r = Inr (r1, a1) \<and> after_bars cfg strat ys k r = Inr (r2, a2) \<longrightarrow> r1 = r2) \<and>
    (same_opening (xs ! k) (ys ! k) \<longrightarrow> after_bars cfg strat xs k r = after_bars cfg strat ys k r)"
proof (cases k)
  case (Suc m)
  have prefix: "take (m + 1) xs = take (m + 1) ys" "take m xs = take m ys" "xs ! m = ys ! m"
    using assms(2) Suc take_less[OF assms(2), of m] take_nth[OF assms(2), of m] by simp_all
  then have same: "after_bars cfg strat xs m r = after_bars cfg strat ys m r"
    using assms(3,4) Suc by (intro after_bars_causal[OF assms(1)]) (simp_all add: same_opening_def)
  have "r1 = r2" if x: "after_bars cfg strat xs k r = Inr (r1, a1)" and y: "after_bars cfg strat ys k r = Inr (r2, a2)"
    for r1 a1 r2 a2
  proof -
    obtain r0 a0 where s: "after_bars cfg strat xs m r = Inr (r0, a0)" "backtest_bar cfg strat xs m (r0, a0) = Inr (r1, a1)"
      using last_bar[OF x[unfolded Suc]] .
    moreover obtain r0' a0' where "after_bars cfg strat ys m r = Inr (r0', a0')" "backtest_bar cfg strat ys m (r0', a0') = Inr (r2, a2)"
      using last_bar[OF y[unfolded Suc]] .
    ultimately show ?thesis using same assms(3,4) Suc by (intro strategy_causal[OF assms(1) prefix(1) _ _ s(2)]) simp_all
  qed
  then show ?thesis by (intro conjI allI impI after_bars_causal[OF assms(1,2) _ assms(3,4)]) (elim conjE)
qed (use after_bars_causal[OF assms(1,2) _ assms(3,4)] in auto)

section \<open>The holdout stays sealed\<close>

lemma walk_starts_bound: "s \<in> set (walk_starts bars step available start) \<Longrightarrow> s + bars \<le> available"
proof (induction bars step available start rule: walk_starts.induct)
  case (1 bars step available start)
  then show ?case by (simp add: walk_starts.simps[of bars step available start] split: if_splits) blast
qed

lemma slice_take: "a + n \<le> m \<Longrightarrow> slice a n (take m xs) = slice a n xs"
  by (simp add: slice_def take_drop min_def)

lemma walk_window_prefix:
  assumes "take m xs = take m ys" "start + (wf_train_bars w + wf_test_bars w) \<le> m"
  shows "walk_window yt sh cfg w factory xs start = walk_window yt sh cfg w factory ys start"
proof -
  have "slice a n xs = slice a n ys" if "a + n \<le> m" for a n
    using slice_take[OF that, of xs] slice_take[OF that, of ys] assms(1) by simp
  then show ?thesis using assms(2) by (simp add: walk_window_def)
qed

lemma walk_windows_prefix:
  assumes "length xs = length ys" "take (length xs - wf_holdout_bars w) xs = take (length xs - wf_holdout_bars w) ys"
  shows "walk_windows yt sh cfg w factory xs = walk_windows yt sh cfg w factory ys"
  unfolding walk_windows_def assms(1)[symmetric]
proof (rule rfold_cong)
  fix start ws
  assume st: "start \<in> set (walk_starts (wf_train_bars w + wf_test_bars w) (wf_step w) (length xs - wf_holdout_bars w) 0)"
  show "rbind (walk_window yt sh cfg w factory xs start) (\<lambda>x. Inr (ws @ [x])) =
      rbind (walk_window yt sh cfg w factory ys start) (\<lambda>x. Inr (ws @ [x]))"
    by (simp only: walk_window_prefix[OF assms(2) walk_starts_bound[OF st]])
qed

text \<open>
  The holdout stays sealed: the train and test windows of a walk-forward run are the same on any
  two series that differ only in their last \<open>holdout_bars\<close> bars, whatever the factory does with the
  training candles it is given.
\<close>

theorem holdout_never_reaches_the_windows:
  assumes "length xs = length ys"
    and "take (length xs - wf_holdout_bars w) xs = take (length xs - wf_holdout_bars w) ys"
    and "run_walk_forward yt sh cfg w factory xs = Inr rx" and "run_walk_forward yt sh cfg w factory ys = Inr ry"
  shows "wfr_windows rx = wfr_windows ry"
proof -
  have "wfr_windows rep = ws"
    if "run_walk_forward yt sh cfg w factory zs = Inr rep" "walk_windows yt sh cfg w factory zs = Inr ws" for zs rep ws
    using that by (auto simp: run_walk_forward_def Let_def split: if_splits)
  moreover obtain ws where "walk_windows yt sh cfg w factory xs = Inr ws"
    using assms(3) by (auto simp: run_walk_forward_def Let_def split: if_splits)
  ultimately show ?thesis using walk_windows_prefix[OF assms(1,2), of yt sh cfg factory] assms(3,4) by metis
qed

section \<open>A crossing is decided by the latest bars\<close>

lemma last_values_recent: "n \<le> k \<Longrightarrow> k \<le> length xs \<Longrightarrow> last_values n (last_values k xs) = last_values n xs"
  by (simp add: last_values_def)

lemma before_last_recent: "n + 1 \<le> k \<Longrightarrow> k \<le> length xs \<Longrightarrow> before_last n (last_values k xs) = before_last n xs"
  by (simp only: before_last_def last_values_recent)

lemma map_last_values: "map f (last_values n xs) = last_values n (map f xs)"
  by (simp add: last_values_def drop_map)

text \<open>
  The crossover strategy depends only on the last \<open>slow + 1\<close> closed bars, so a loop that keeps that
  many bars, as the paper runtime's history does, gives the signal the full history would give.
\<close>

theorem ma_cross_needs_only_recent_bars:
  assumes "mc_fast m < mc_slow m" and "mc_slow m + 1 \<le> k" and "k \<le> length (ms_candles state)"
  shows "ma_cross_signal uuid5 ns iso_text m (state\<lparr>ms_candles := last_values k (ms_candles state)\<rparr>) =
     ma_cross_signal uuid5 ns iso_text m state"
proof -
  have bar: "last (last_values k (ms_candles state)) = last (ms_candles state)"
    using assms by (simp add: last_values_def)
  have side: "ma_cross_side m (last_values k (map cdl_close (ms_candles state))) =
      ma_cross_side m (map cdl_close (ms_candles state))"
    using assms by (simp add: ma_cross_side_def Let_def last_values_recent before_last_recent)
  have "length (last_values k (ms_candles state)) = k" using assms(3) by (simp add: last_values_def)
  then have long: "\<not> length (last_values k (ms_candles state)) \<le> mc_slow m" "\<not> length (ms_candles state) \<le> mc_slow m"
    using assms(2,3) by simp_all
  show ?thesis
    using long
    by (cases "quantity_for m (ms_symbol state)"; cases "ma_cross_side m (map cdl_close (ms_candles state))")
      (simp_all add: ma_cross_signal_def map_last_values side bar Let_def)
qed

section \<open>Witnesses\<close>

definition sample_bar :: "nat \<Rightarrow> rat \<Rightarrow> candle" where
  "sample_bar i price = \<lparr>cdl_symbol = ''B-U'', cdl_interval = ''ONE_MINUTE'', cdl_opened_at = int i * 60,
     cdl_closed_at = int i * 60 + 60, cdl_open = price, cdl_high = price, cdl_low = price, cdl_close = price,
     cdl_volume = 1, cdl_source = ''t'', cdl_as_of = 0, cdl_ingested_at = 0\<rparr>"

text \<open>Two series that share a bar and the opening of the next; a signal of the first is filled there.\<close>

definition calm_bars :: "candle list" where
  "calm_bars = [sample_bar 0 10, sample_bar 1 11, sample_bar 2 5]"

definition wild_bars :: "candle list" where
  "wild_bars = [sample_bar 0 10, (sample_bar 1 11)\<lparr>cdl_high := 90, cdl_close := 80, cdl_volume := 7\<rparr>, sample_bar 2 500]"

theorem backtest_has_no_lookahead_witness:
  "after_bars default_config (always_buy (\<lambda>_ t. t) [] ''s'' 0 1) calm_bars 1 False =
   after_bars default_config (always_buy (\<lambda>_ t. t) [] ''s'' 0 1) wild_bars 1 False"
proof -
  have "same_opening (calm_bars ! 1) (wild_bars ! 1)" "take 1 calm_bars = take 1 wild_bars"
    "1 < length calm_bars" "1 < length wild_bars" "bc_enforce_closed_bar_guard default_config"
    by (simp_all add: default_config_def calm_bars_def wild_bars_def same_opening_def sample_bar_def)
  then show ?thesis by (intro backtest_has_no_lookahead[THEN conjunct2, THEN mp])
qed

definition no_signal :: "unit strategy" where
  "no_signal = (\<lambda>_ r. (Inr None, r))"

definition sample_walk :: walk_forward_config where
  "sample_walk = \<lparr>wf_train_bars = 2, wf_test_bars = 2, wf_step_bars = None, wf_holdout_bars = 2\<rparr>"

definition sample_series :: "rat \<Rightarrow> candle list" where
  "sample_series x = [sample_bar 0 10, sample_bar 1 11, sample_bar 2 12, sample_bar 3 12, sample_bar 4 x, sample_bar 5 x]"

lemma sample_factory_run:
  "\<exists>rep. run_walk_forward (\<lambda>_. []) (\<lambda>_. []) default_config sample_walk (\<lambda>_. Inr ([], no_signal, ())) (sample_series x) = Inr rep"
  if "0 < x"
  using that
  by (simp add: run_walk_forward_def walk_windows_def walk_window_def sample_walk_def sample_series_def wf_step_def
      walk_starts.simps slice_def backtest_run_def validate_series_def sample_bar_def backtest_bar_def bar_state_def
      mk_quote_def valid_quote_def default_config_def no_signal_def act_on_signal_def account_init_def close_bar_def
      liquidate_def backtest_report_of_def money_def quantize_half_up_def half_up_def CENT_def Let_def upt_rec
      default_costs_def numeral_eq_Suc)

theorem holdout_never_reaches_the_windows_witness:
  "\<exists>rx ry. run_walk_forward (\<lambda>_. []) (\<lambda>_. []) default_config sample_walk (\<lambda>_. Inr ([], no_signal, ())) (sample_series 10) = Inr rx \<and>
     run_walk_forward (\<lambda>_. []) (\<lambda>_. []) default_config sample_walk (\<lambda>_. Inr ([], no_signal, ())) (sample_series 900) = Inr ry \<and>
     wfr_windows rx = wfr_windows ry"
proof -
  obtain rx ry where
    x: "run_walk_forward (\<lambda>_. []) (\<lambda>_. []) default_config sample_walk (\<lambda>_. Inr ([], no_signal, ())) (sample_series 10) = Inr rx" and
    y: "run_walk_forward (\<lambda>_. []) (\<lambda>_. []) default_config sample_walk (\<lambda>_. Inr ([], no_signal, ())) (sample_series 900) = Inr ry"
    using sample_factory_run[of 10] sample_factory_run[of 900] by auto
  have "length (sample_series 10) = length (sample_series 900)"
    "take (length (sample_series 10) - wf_holdout_bars sample_walk) (sample_series 10) =
     take (length (sample_series 10) - wf_holdout_bars sample_walk) (sample_series 900)"
    by (simp_all add: sample_series_def sample_walk_def)
  from holdout_never_reaches_the_windows[OF this x y] x y show ?thesis by blast
qed

end
