(* ===== verification/MarketData.thy ===== *)
theory MarketData
  imports Models "HOL-Library.Sublist"
begin

text \<open>
  Stored market data: the fail-closed validator (\<^verbatim>\<open>data/validation.py\<close>), the two candle stores
  (\<^verbatim>\<open>data/storage.py\<close>) and the resumable backfill (\<^verbatim>\<open>data/backfill.py\<close>). The provider's client is an
  operation of the environment. The contract \<open>candle_store\<close> is what the backfill relies on; it is
  interpreted on both stores. The lemmas show what an accepted series looks like and which rows a
  backfill that returns has written. A time is always aware here, so the check of \<^verbatim>\<open>tzinfo\<close> has no
  counterpart.
\<close>

section \<open>Validation\<close>

definition GRANULARITY_SECONDS :: "(string, int) dict" where
  "GRANULARITY_SECONDS =
     [(''ONE_MINUTE'', 60), (''FIVE_MINUTE'', 300), (''FIFTEEN_MINUTE'', 900), (''THIRTY_MINUTE'', 1800),
      (''ONE_HOUR'', 3600), (''TWO_HOUR'', 7200), (''SIX_HOUR'', 21600), (''ONE_DAY'', 86400)]"

definition MAX_CANDLES_PER_REQUEST :: int where
  "MAX_CANDLES_PER_REQUEST = 300"

record validation_issue =
  iss_code :: string
  iss_message :: string
  iss_opened_at :: "datetime option"

record validator =
  mv_max_price_change_ratio :: rat
  mv_max_quote_age_seconds :: int

definition validator_init :: "rat \<Rightarrow> int \<Rightarrow> exn + validator" where
  "validator_init ratio age =
     (if ratio \<le> 0 then Inl (ValueError ''max_price_change_ratio must be positive'')
      else if age \<le> 0 then Inl (ValueError ''max_quote_age_seconds must be positive'')
      else Inr \<lparr>mv_max_price_change_ratio = ratio, mv_max_quote_age_seconds = age\<rparr>)"

definition candle_key :: "candle \<Rightarrow> string \<times> string \<times> datetime" where
  "candle_key c = (cdl_symbol c, cdl_interval c, cdl_opened_at c)"

definition issues_with_previous :: "validator \<Rightarrow> timedelta \<Rightarrow> candle \<Rightarrow> candle \<Rightarrow> validation_issue list" where
  "issues_with_previous v interval previous c =
     (if cdl_opened_at c \<le> cdl_opened_at previous
      then [\<lparr>iss_code = ''ordering'', iss_message = ''candle timestamps are not increasing'', iss_opened_at = None\<rparr>] else []) @
     (if cdl_opened_at c - cdl_opened_at previous \<noteq> interval
      then [\<lparr>iss_code = ''gap'', iss_message = ''candle series contains an unexplained gap'', iss_opened_at = None\<rparr>] else []) @
     (if 0 < cdl_close previous \<and>
         mv_max_price_change_ratio v < dec (dabs (dsub (cdl_open c) (cdl_close previous)) / cdl_close previous)
      then [\<lparr>iss_code = ''outlier'',
             iss_message = ''candle open moved beyond the configured suspicious-outlier threshold'',
             iss_opened_at = Some (cdl_opened_at c)\<rparr>] else [])"

fun candle_issues ::
  "validator \<Rightarrow> timedelta \<Rightarrow> candle option \<Rightarrow> (string \<times> string \<times> datetime) set \<Rightarrow> candle list \<Rightarrow> validation_issue list"
where
  "candle_issues v interval previous seen [] = []"
| "candle_issues v interval previous seen (c # rest) =
     (if candle_key c \<in> seen
      then [\<lparr>iss_code = ''duplicate'', iss_message = ''duplicate candle'', iss_opened_at = Some (cdl_opened_at c)\<rparr>] else []) @
     (if cdl_closed_at c - cdl_opened_at c \<noteq> interval
      then [\<lparr>iss_code = ''duration'', iss_message = ''candle duration does not match the requested interval'',
             iss_opened_at = Some (cdl_opened_at c)\<rparr>] else []) @
     (case previous of None \<Rightarrow> [] | Some p \<Rightarrow> issues_with_previous v interval p c) @
     candle_issues v interval (Some c) (insert (candle_key c) seen) rest"

fun join_issues :: "validation_issue list \<Rightarrow> string" where
  "join_issues [] = []"
| "join_issues [i] = iss_code i @ '': '' @ iss_message i"
| "join_issues (i # rest) = iss_code i @ '': '' @ iss_message i @ ''; '' @ join_issues rest"

definition validate_candles :: "validator \<Rightarrow> timedelta \<Rightarrow> candle list \<Rightarrow> exn + candle list" where
  "validate_candles v interval candles =
     (let issues = candle_issues v interval None {} candles in
      if issues \<noteq> [] then Inl (ValueError (join_issues issues)) else Inr candles)"

definition validate_quote :: "validator \<Rightarrow> quote \<Rightarrow> datetime \<Rightarrow> exn + quote" where
  "validate_quote v q now =
     (if microseconds (mv_max_quote_age_seconds v) < now - q_received_at q
      then Inl (ValueError ''stale: quote exceeds the maximum allowed age'') else Inr q)"

section \<open>Candle stores\<close>

record 's candle_store_ops =
  cs_latest_opened_at :: "string \<Rightarrow> string \<Rightarrow> (exn, 's, datetime option) act"
  cs_upsert_many :: "candle list \<Rightarrow> (exn, 's, nat) act"
  cs_latest :: "string \<Rightarrow> string \<Rightarrow> int \<Rightarrow> (exn, 's, candle list) act"

type_synonym memory_candles = "(string \<times> string \<times> datetime, candle) dict"

definition of_series :: "string \<Rightarrow> string \<Rightarrow> candle \<Rightarrow> bool" where
  "of_series symb interval c \<longleftrightarrow> cdl_symbol c = symb \<and> cdl_interval c = interval"

definition mem_opened :: "string \<Rightarrow> string \<Rightarrow> memory_candles \<Rightarrow> datetime list" where
  "mem_opened symb interval d = [t. (s, i, t) \<leftarrow> map fst d, s = symb \<and> i = interval]"

definition mem_latest_opened_at :: "string \<Rightarrow> string \<Rightarrow> (exn, memory_candles, datetime option) act" where
  "mem_latest_opened_at symb interval d =
     (let ts = mem_opened symb interval d in (Inr (if ts = [] then None else Some (Max (set ts))), d))"

definition mem_upsert_many :: "candle list \<Rightarrow> (exn, memory_candles, nat) act" where
  "mem_upsert_many candles d =
     (let d' = foldl (\<lambda>d c. AList.update (candle_key c) c d) d candles in (Inr (length d' - length d), d'))"

definition mem_read :: "string \<Rightarrow> string \<Rightarrow> memory_candles \<Rightarrow> candle list" where
  "mem_read symb interval d =
     sort_key cdl_opened_at (map snd (filter (\<lambda>((s, i, _), _). s = symb \<and> i = interval) d))"

definition mem_latest :: "string \<Rightarrow> string \<Rightarrow> int \<Rightarrow> (exn, memory_candles, candle list) act" where
  "mem_latest symb interval limit d =
     (if limit \<le> 0 then (Inl (ValueError ''candle limit must be positive''), d)
      else let cs = mem_read symb interval d in (Inr (drop (length cs - nat limit) cs), d))"

definition memory_candle_ops :: "memory_candles candle_store_ops" where
  "memory_candle_ops = \<lparr>cs_latest_opened_at = mem_latest_opened_at, cs_upsert_many = mem_upsert_many, cs_latest = mem_latest\<rparr>"

text \<open>
  The table of candles. A numeric column stores \<open>numeric x\<close>; a row is read back through the
  model's validators. The natural key is unique, so a row stands for its identifier in
  \<open>sqlc_prune_before\<close>.
\<close>

definition stored_candle :: "(rat \<Rightarrow> rat) \<Rightarrow> candle \<Rightarrow> candle" where
  "stored_candle numeric c = c\<lparr>cdl_open := numeric (cdl_open c), cdl_high := numeric (cdl_high c),
     cdl_low := numeric (cdl_low c), cdl_close := numeric (cdl_close c), cdl_volume := numeric (cdl_volume c)\<rparr>"

definition sqlc_opened :: "string \<Rightarrow> string \<Rightarrow> candle list \<Rightarrow> datetime list" where
  "sqlc_opened symb interval rows = map cdl_opened_at (filter (of_series symb interval) rows)"

definition sqlc_latest_opened_at :: "string \<Rightarrow> string \<Rightarrow> (exn, candle list, datetime option) act" where
  "sqlc_latest_opened_at symb interval rows =
     (Inr (case rev (sort (sqlc_opened symb interval rows)) of [] \<Rightarrow> None | t # _ \<Rightarrow> Some t), rows)"

definition sqlc_upsert_one :: "(rat \<Rightarrow> rat) \<Rightarrow> candle \<Rightarrow> candle list \<times> nat \<Rightarrow> candle list \<times> nat" where
  "sqlc_upsert_one numeric c = (\<lambda>(rows, inserted).
     if list_ex (\<lambda>x. candle_key x = candle_key c) rows
     then (map (\<lambda>x. if candle_key x = candle_key c then stored_candle numeric c else x) rows, inserted)
     else (rows @ [stored_candle numeric c], inserted + 1))"

definition sqlc_upsert_many :: "(rat \<Rightarrow> rat) \<Rightarrow> candle list \<Rightarrow> (exn, candle list, nat) act" where
  "sqlc_upsert_many numeric candles rows =
     (case fold (sqlc_upsert_one numeric) candles (rows, 0) of (rows', inserted) \<Rightarrow> (Inr inserted, rows'))"

fun read_rows :: "candle list \<Rightarrow> exn + candle list" where
  "read_rows [] = Inr []"
| "read_rows (r # rest) = rbind (mk_candle r) (\<lambda>c. rbind (read_rows rest) (\<lambda>cs. Inr (c # cs)))"

definition sqlc_latest :: "string \<Rightarrow> string \<Rightarrow> int \<Rightarrow> (exn, candle list, candle list) act" where
  "sqlc_latest symb interval limit rows =
     (if limit \<le> 0 then (Inl (ValueError ''candle limit must be positive''), rows)
      else (read_rows (rev (take (nat limit) (rev (sort_key cdl_opened_at (filter (of_series symb interval) rows))))), rows))"

definition sqlc_prune_before :: "string \<Rightarrow> string \<Rightarrow> datetime \<Rightarrow> int \<Rightarrow> (exn, candle list, nat) act" where
  "sqlc_prune_before symb interval cutoff limit rows =
     (if limit \<le> 0 then (Inl (ValueError ''prune limit must be positive''), rows)
      else let old = take (nat limit) (sort_key cdl_opened_at
                 (filter (\<lambda>c. of_series symb interval c \<and> cdl_opened_at c < cutoff) rows)) in
        (Inr (length old), filter (\<lambda>c. c \<notin> set old) rows))"

definition sql_candle_ops :: "(rat \<Rightarrow> rat) \<Rightarrow> candle list candle_store_ops" where
  "sql_candle_ops numeric = \<lparr>cs_latest_opened_at = sqlc_latest_opened_at, cs_upsert_many = sqlc_upsert_many numeric, cs_latest = sqlc_latest\<rparr>"

section \<open>Backfill\<close>

record ('c, 's) backfill_env =
  bf_get_candles :: "string \<Rightarrow> datetime \<Rightarrow> datetime \<Rightarrow> string \<Rightarrow> (exn, 'c, candle list) act"
  bf_store :: "'s candle_store_ops"
  bf_validator :: validator

definition bf_on_client :: "(exn, 'c, 'x) act \<Rightarrow> (exn, 'c \<times> 's, 'x) act" where
  "bf_on_client m = (\<lambda>(c, s). case m c of (r, c') \<Rightarrow> (r, c', s))"

definition bf_on_store :: "(exn, 's, 'x) act \<Rightarrow> (exn, 'c \<times> 's, 'x) act" where
  "bf_on_store m = (\<lambda>(c, s). case m s of (r, s') \<Rightarrow> (r, c, s'))"

text \<open>One page: fetched, validated, checked at both edges and written.\<close>

definition checked_page :: "validator \<Rightarrow> timedelta \<Rightarrow> datetime \<Rightarrow> datetime \<Rightarrow> candle list \<Rightarrow> exn + candle list" where
  "checked_page v interval cursor page_end candles =
     (if candles = [] then Inl (RuntimeError ''Coinbase returned no candles for a non-empty backfill page'')
      else rbind (validate_candles v interval candles) (\<lambda>normalized.
        let page = filter (\<lambda>c. cursor \<le> cdl_opened_at c \<and> cdl_opened_at c < page_end) normalized in
        if page = [] then Inl (RuntimeError ''Coinbase candle page did not overlap the requested window'')
        else if cdl_opened_at (hd page) \<noteq> cursor \<or> cdl_opened_at (last page) \<noteq> page_end - interval
        then Inl (RuntimeError ''Coinbase candle page contains an unexplained edge gap'')
        else Inr page))"

definition backfill_page ::
  "('c, 's) backfill_env \<Rightarrow> string \<Rightarrow> string \<Rightarrow> timedelta \<Rightarrow> datetime \<Rightarrow> datetime \<Rightarrow> (exn, 'c \<times> 's, nat) act"
where
  "backfill_page env product_id gran interval cursor page_end =
     abind (bf_on_client (bf_get_candles env product_id cursor page_end gran)) (\<lambda>candles.
     abind (\<lambda>st. (checked_page (bf_validator env) interval cursor page_end candles, st)) (\<lambda>page.
       bf_on_store (cs_upsert_many (bf_store env) page)))"

definition page_end_of :: "timedelta \<Rightarrow> datetime \<Rightarrow> datetime \<Rightarrow> datetime" where
  "page_end_of interval stop cursor = min stop (cursor + interval * MAX_CANDLES_PER_REQUEST)"

text \<open>The interval comes from the table, so it is positive and each page moves the cursor on.\<close>

function backfill_loop ::
  "('c, 's) backfill_env \<Rightarrow> string \<Rightarrow> string \<Rightarrow> timedelta \<Rightarrow> datetime \<Rightarrow> datetime \<Rightarrow> nat \<Rightarrow> 'c \<times> 's \<Rightarrow>
     (exn + nat) \<times> ('c \<times> 's)"
where
  "backfill_loop env product_id gran interval stop cursor written st =
     (if cursor < stop \<and> 0 < interval
      then (case backfill_page env product_id gran interval cursor (page_end_of interval stop cursor) st of
              (Inl e, st') \<Rightarrow> (Inl e, st')
            | (Inr n, st') \<Rightarrow>
                backfill_loop env product_id gran interval stop (page_end_of interval stop cursor) (written + n) st')
      else (Inr written, st))"
  by pat_completeness auto
termination
  by (relation "measure (\<lambda>(env, product_id, gran, interval, stop, cursor, written, st). nat (stop - cursor))")
    (auto simp: page_end_of_def MAX_CANDLES_PER_REQUEST_def)

declare backfill_loop.simps [simp del]

definition resume_at :: "timedelta \<Rightarrow> datetime \<Rightarrow> datetime option \<Rightarrow> datetime" where
  "resume_at interval start latest =
     (case latest of None \<Rightarrow> start | Some t \<Rightarrow> max start (t + interval))"

definition backfill_run ::
  "('c, 's) backfill_env \<Rightarrow> string \<Rightarrow> datetime \<Rightarrow> datetime \<Rightarrow> string \<Rightarrow> bool \<Rightarrow> (exn, 'c \<times> 's, nat) act"
where
  "backfill_run env product_id start stop gran refresh_existing =
     (if stop \<le> start then aret 0
      else case map_of GRANULARITY_SECONDS gran of
        None \<Rightarrow> athrow (KeyError gran)
      | Some seconds \<Rightarrow>
          let interval = microseconds seconds in
          abind (if refresh_existing then aret None else bf_on_store (cs_latest_opened_at (bf_store env) product_id gran))
            (\<lambda>latest. backfill_loop env product_id gran interval stop
               (resume_at interval start latest) 0))"

text \<open>
  The client answers for the product and the granularity it was asked for: it writes both into
  every candle it normalizes.
\<close>

definition client_keeps_series :: "('c, 's) backfill_env \<Rightarrow> bool" where
  "client_keeps_series env \<longleftrightarrow> (\<forall>product_id a b gran c cs c'.
     bf_get_candles env product_id a b gran c = (Inr cs, c') \<longrightarrow> list_all (of_series product_id gran) cs)"

lemma granularity_positive: "map_of GRANULARITY_SECONDS gran = Some seconds \<Longrightarrow> 0 < microseconds seconds"
  by (auto simp: GRANULARITY_SECONDS_def microseconds_def split: if_splits)

section \<open>What validation accepts\<close>

text \<open>
  One pair of neighbouring candles as the validator wants it, and the whole series: every candle
  lasts the interval and follows its predecessor with no gap and no jump. The check for duplicates
  does not appear: no candle of such a series can have been seen before.
\<close>

definition neighbours_ok :: "validator \<Rightarrow> timedelta \<Rightarrow> candle \<Rightarrow> candle \<Rightarrow> bool" where
  "neighbours_ok v interval p c \<longleftrightarrow>
     cdl_opened_at p < cdl_opened_at c \<and> cdl_opened_at c = cdl_opened_at p + interval \<and>
     \<not> (0 < cdl_close p \<and>
        mv_max_price_change_ratio v < dec (dabs (dsub (cdl_open c) (cdl_close p)) / cdl_close p))"

lemma issues_with_previous_Nil [simp]:
  "issues_with_previous v interval p c = [] \<longleftrightarrow> neighbours_ok v interval p c"
  by (auto simp: issues_with_previous_def neighbours_ok_def)

definition lasts :: "timedelta \<Rightarrow> candle \<Rightarrow> bool" where
  "lasts interval c \<longleftrightarrow> cdl_closed_at c = cdl_opened_at c + interval"

lemma candle_issues_after:
  assumes "\<forall>k\<in>seen. snd (snd k) \<le> cdl_opened_at p"
  shows "candle_issues v interval (Some p) seen cs = [] \<longleftrightarrow>
    list_all (lasts interval) cs \<and> successively (neighbours_ok v interval) (p # cs)"
  using assms
proof (induction cs arbitrary: p seen)
  case (Cons c cs)
  show ?case
  proof (cases "neighbours_ok v interval p c")
    case True
    then have later: "cdl_opened_at p < cdl_opened_at c" by (simp add: neighbours_ok_def)
    then have "candle_key c \<notin> seen" using Cons.prems by (force simp: candle_key_def)
    moreover have "\<forall>k\<in>insert (candle_key c) seen. snd (snd k) \<le> cdl_opened_at c"
      using Cons.prems later by (force simp: candle_key_def)
    ultimately show ?thesis using True Cons.IH[of "insert (candle_key c) seen" c]
      by (auto simp: lasts_def)
  qed auto
qed simp

lemma candle_issues_Nil_iff:
  "candle_issues v interval None {} cs = [] \<longleftrightarrow>
   list_all (lasts interval) cs \<and> successively (neighbours_ok v interval) cs"
proof (cases cs)
  case (Cons c rest)
  have "\<forall>k\<in>{candle_key c}. snd (snd k) \<le> cdl_opened_at c" by (simp add: candle_key_def)
  from candle_issues_after[OF this, of v interval rest] show ?thesis
    by (auto simp: Cons lasts_def)
qed simp

lemma validate_candles_iff:
  "validate_candles v interval cs = Inr ds \<longleftrightarrow>
   ds = cs \<and> list_all (lasts interval) cs \<and> successively (neighbours_ok v interval) cs"
  by (auto simp: validate_candles_def candle_issues_Nil_iff Let_def)

text \<open>The opening times of an accepted series form an arithmetic progression.\<close>

lemma neighbours_progression:
  assumes "successively (neighbours_ok v interval) cs" "k < length cs"
  shows "cdl_opened_at (cs ! k) = cdl_opened_at (hd cs) + int k * interval"
  using assms(2)
proof (induction k)
  case 0
  then show ?case by (simp add: hd_conv_nth)
next
  case (Suc k)
  then have "neighbours_ok v interval (cs ! k) (cs ! Suc k)"
    using assms(1) by (simp add: successively_conv_nth)
  then show ?case using Suc by (simp add: neighbours_ok_def algebra_simps)
qed

lemma opened_set_progression:
  assumes "successively (neighbours_ok v interval) cs"
  shows "cdl_opened_at ` set cs = {cdl_opened_at (hd cs) + int k * interval | k. k < length cs}"
  using neighbours_progression[OF assms] by (force simp: in_set_conv_nth image_iff)

lemma neighbours_sorted:
  assumes "successively (neighbours_ok v interval) cs"
  shows "sorted_wrt (<) (map cdl_opened_at cs)"
proof -
  have trans: "transp (\<lambda>p c. cdl_opened_at p < cdl_opened_at c)" by (auto intro: transpI)
  have "successively (\<lambda>p c. cdl_opened_at p < cdl_opened_at c) cs"
    by (rule successively_mono[OF assms]) (simp add: neighbours_ok_def)
  then show ?thesis by (simp add: sorted_wrt_map successively_conv_sorted_wrt[OF trans])
qed

section \<open>What a backfilled page holds\<close>

text \<open>The opening times of the buckets from one moment up to another.\<close>

definition buckets :: "timedelta \<Rightarrow> datetime \<Rightarrow> datetime \<Rightarrow> datetime set" where
  "buckets interval a b = {a + int k * interval | k. a + int k * interval < b}"

lemma buckets_empty [simp]: "0 < interval \<Longrightarrow> b \<le> a \<Longrightarrow> buckets interval a b = {}"
proof -
  assume pos: "0 < interval" "b \<le> a"
  have "\<not> a + int k * interval < b" for k :: nat
  proof -
    have "0 \<le> int k * interval" using pos by simp
    then show ?thesis using pos by linarith
  qed
  then show ?thesis by (auto simp: buckets_def)
qed

lemma buckets_split:
  assumes pos: "0 < interval" and m: "mid = a + int m * interval" "mid \<le> b"
  shows "buckets interval a mid \<union> buckets interval mid b = buckets interval a b"
proof (intro set_eqI iffI)
  fix t
  assume "t \<in> buckets interval a mid \<union> buckets interval mid b"
  then consider k where "t = a + int k * interval" "t < mid" | k where "t = mid + int k * interval" "t < b"
    by (auto simp: buckets_def)
  then show "t \<in> buckets interval a b"
  proof cases
    case 1
    then show ?thesis using m by (auto simp: buckets_def)
  next
    case 2
    then have "t = a + int (m + k) * interval" by (simp add: m(1) distrib_right)
    with 2(2) show ?thesis unfolding buckets_def by blast
  qed
next
  fix t
  assume "t \<in> buckets interval a b"
  then obtain k where k: "t = a + int k * interval" "t < b" by (auto simp: buckets_def)
  show "t \<in> buckets interval a mid \<union> buckets interval mid b"
  proof (cases "k < m")
    case True
    then have "t < mid" using pos by (simp add: k m)
    then show ?thesis using k by (auto simp: buckets_def)
  next
    case False
    then obtain j where "k = m + j" using le_Suc_ex by (metis not_less)
    then have "t = mid + int j * interval" by (simp add: k(1) m(1) distrib_right)
    then show ?thesis using k by (auto simp: buckets_def)
  qed
qed

lemma checked_page_holds:
  assumes pos: "0 < interval" and page: "checked_page v interval cursor page_end cs = Inr page"
  shows "cdl_opened_at ` set page = buckets interval cursor page_end"
    and "\<exists>m. page_end = cursor + int m * interval"
    and "set page \<subseteq> set cs"
proof -
  have chain: "successively (neighbours_ok v interval) cs"
    and page_def: "page = filter (\<lambda>c. cursor \<le> cdl_opened_at c \<and> cdl_opened_at c < page_end) cs"
    and ne: "page \<noteq> []" and first: "cdl_opened_at (hd page) = cursor"
    and final: "cdl_opened_at (last page) = page_end - interval"
    using page by (auto simp: checked_page_def rbind_def validate_candles_iff Let_def
        split: if_splits sum.splits)
  show "set page \<subseteq> set cs" by (simp add: page_def)
  define t where "t = cdl_opened_at (hd cs)"
  have opened: "cdl_opened_at ` set cs = {t + int k * interval | k. k < length cs}"
    using opened_set_progression[OF chain] by (simp add: t_def)
  have "hd page \<in> set page" "last page \<in> set page" using ne by simp_all
  then have ends: "hd page \<in> set cs" "last page \<in> set cs" "cursor \<le> cdl_opened_at (last page)"
    by (simp_all add: page_def)
  then have "cursor \<in> cdl_opened_at ` set cs" "page_end - interval \<in> cdl_opened_at ` set cs"
    using first final by (metis image_eqI)+
  then obtain i j where i: "cursor = t + int i * interval" "i < length cs"
    and j: "page_end - interval = t + int j * interval" "j < length cs"
    using opened by auto
  have "cursor \<le> page_end - interval" using ends(3) final by simp
  then have "int i \<le> int j" using pos by (simp add: i j)
  then have ij: "i \<le> j" by simp
  have "page_end = t + int j * interval + interval" using j by linarith
  moreover obtain d where "j = i + d" using ij le_Suc_ex by blast
  ultimately have "page_end = cursor + int (Suc d) * interval"
    by (simp add: i(1) distrib_right)
  then show "\<exists>m. page_end = cursor + int m * interval" by blast
  show "cdl_opened_at ` set page = buckets interval cursor page_end"
  proof (intro set_eqI iffI)
    fix u
    assume "u \<in> cdl_opened_at ` set page"
    then have u: "u \<in> cdl_opened_at ` set cs" "cursor \<le> u" "u < page_end" by (auto simp: page_def)
    then obtain k where k: "u = t + int k * interval" using opened by auto
    then have "int i \<le> int k" using u pos by (simp add: i)
    then obtain d where "k = i + d" using le_Suc_ex by auto
    then have "u = cursor + int d * interval" by (simp add: k(1) i(1) distrib_right)
    then show "u \<in> buckets interval cursor page_end" using u by (auto simp: buckets_def)
  next
    fix u
    assume "u \<in> buckets interval cursor page_end"
    then obtain k where k: "u = cursor + int k * interval" "u < page_end" by (auto simp: buckets_def)
    then have u: "u = t + int (i + k) * interval" by (simp add: i(1) distrib_right)
    then have "int (i + k) * interval < int (Suc j) * interval" using k j by (simp add: algebra_simps)
    then have "i + k < Suc j" using pos by (metis mult_less_cancel_right_disj not_less_iff_gr_or_eq of_nat_less_iff)
    then have "i + k < length cs" using j(2) by linarith
    then have "u \<in> cdl_opened_at ` set cs" unfolding opened using u by blast
    moreover have "cursor \<le> u" using pos by (simp add: k)
    ultimately show "u \<in> cdl_opened_at ` set page" using k by (auto simp: page_def)
  qed
qed

section \<open>The contract of a candle store\<close>

text \<open>
  What the backfill relies on: a write adds exactly the keys of its candles and counts the new
  ones; the newest opening time is the greatest one stored for the series, and reading it changes
  nothing. \<open>stored\<close> is the set of natural keys a store holds.
\<close>

definition newest :: "datetime set \<Rightarrow> datetime option" where
  "newest ts = (if ts = {} then None else Some (Max ts))"

lemma newest_of_sorted: "(case rev (sort ts) of [] \<Rightarrow> None | t # _ \<Rightarrow> Some t) = newest (set ts)"
proof (cases "rev (sort ts)")
  case Nil
  then show ?thesis by (metis list.simps(4) newest_def rev_is_Nil_conv set_empty set_sort)
next
  case (Cons t us)
  then have srt: "sort ts = rev us @ [t]" by (metis rev.simps(2) rev_rev_ident)
  then have "sorted (rev us @ [t])" by (metis sorted_sort)
  moreover have elems: "set ts = insert t (set us)" by (metis srt Un_insert_right set_append set_rev set_sort
        sup_bot.right_neutral list.simps(15) list.set(1))
  ultimately have "Max (set ts) = t" by (auto simp: sorted_append intro!: Max_eqI)
  then show ?thesis using elems Cons by (simp add: newest_def)
qed

locale candle_store =
  fixes ops :: "'s candle_store_ops"
    and stored :: "'s \<Rightarrow> (string \<times> string \<times> datetime) set"
  assumes finite_stored: "finite (stored s)"
    and upsert_stores: "cs_upsert_many ops cs s = (r, s') \<Longrightarrow>
      stored s' = stored s \<union> candle_key ` set cs \<and> r = Inr (card (stored s') - card (stored s))"
    and latest_reads: "cs_latest_opened_at ops symb interval s =
      (Inr (newest {t. (symb, interval, t) \<in> stored s}), s)"
begin

lemma upsert_counts:
  assumes "cs_upsert_many ops cs s = (Inr n, s')"
  shows "stored s' = stored s \<union> candle_key ` set cs" "card (stored s') = card (stored s) + n"
proof -
  show st: "stored s' = stored s \<union> candle_key ` set cs" using upsert_stores[OF assms] by simp
  have "card (stored s) \<le> card (stored s')" using finite_stored by (simp add: st card_mono)
  then show "card (stored s') = card (stored s) + n" using upsert_stores[OF assms] by simp
qed

text \<open>A page that is written adds exactly the keys of its window.\<close>

lemma page_stored:
  assumes env: "bf_store env = ops" and client: "client_keeps_series env"
    and pos: "0 < interval"
    and run: "backfill_page env product_id gran interval cursor page_end (c, s) = (Inr n, (c', s'))"
  shows "stored s' = stored s \<union> (\<lambda>t. (product_id, gran, t)) ` buckets interval cursor page_end"
    and "card (stored s') = card (stored s) + n"
    and "\<exists>m. page_end = cursor + int m * interval"
proof -
  obtain cs page where got: "bf_get_candles env product_id cursor page_end gran c = (Inr cs, c')"
    and page: "checked_page (bf_validator env) interval cursor page_end cs = Inr page"
    and put: "cs_upsert_many ops page s = (Inr n, s')"
    using run unfolding backfill_page_def env
    by (auto simp: abind_def bf_on_client_def bf_on_store_def split: prod.splits sum.splits)
  note holds = checked_page_holds[OF pos page]
  have "list_all (of_series product_id gran) cs"
    using client got unfolding client_keeps_series_def by blast
  then have "candle_key x = (product_id, gran, cdl_opened_at x)" if "x \<in> set page" for x
    using that holds(3) by (auto simp: candle_key_def of_series_def list_all_iff)
  then have "candle_key ` set page = (\<lambda>t. (product_id, gran, t)) ` cdl_opened_at ` set page"
    unfolding image_image by (rule image_cong[OF refl])
  then show "stored s' = stored s \<union> (\<lambda>t. (product_id, gran, t)) ` buckets interval cursor page_end"
    using upsert_counts(1)[OF put] holds(1) by simp
  show "card (stored s') = card (stored s) + n" by (rule upsert_counts(2)[OF put])
  show "\<exists>m. page_end = cursor + int m * interval" by (rule holds(2))
qed

lemma loop_stored:
  assumes "backfill_loop env product_id gran interval stop cursor written st = (Inr n, st')"
    and "bf_store env = ops" "client_keeps_series env" "0 < interval"
  shows "stored (snd st') = stored (snd st) \<union> (\<lambda>t. (product_id, gran, t)) ` buckets interval cursor stop \<and>
    n + card (stored (snd st)) = written + card (stored (snd st'))"
  using assms
proof (induction env product_id gran interval stop cursor written st rule: backfill_loop.induct)
  case (1 env product_id gran interval stop cursor written st)
  let ?pe = "page_end_of interval stop cursor"
  show ?case
  proof (cases "cursor < stop")
    case False
    then show ?thesis using "1.prems" by (simp add: backfill_loop.simps[of env])
  next
    case True
    obtain c s where st: "st = (c, s)" by (cases st)
    obtain k u where page: "backfill_page env product_id gran interval cursor ?pe st = (Inr k, u)"
      and rest: "backfill_loop env product_id gran interval stop ?pe (written + k) u = (Inr n, st')"
      using "1.prems"(1,4) True
      by (auto simp: backfill_loop.simps[of env _ _ _ _ cursor] split: prod.splits sum.splits)
    obtain c' s' where u: "u = (c', s')" by (cases u)
    note one = page_stored[OF "1.prems"(2,3,4) page[unfolded st u]]
    have IH: "stored (snd st') = stored s' \<union> (\<lambda>t. (product_id, gran, t)) ` buckets interval ?pe stop \<and>
      n + card (stored s') = written + k + card (stored (snd st'))"
      using "1.IH"[OF conjI[OF True "1.prems"(4)] page[symmetric] refl rest "1.prems"(2,3,4)] by (simp add: u)
    have "?pe \<le> stop" by (simp add: page_end_of_def)
    with one(3) obtain m where "?pe = cursor + int m * interval" "?pe \<le> stop" by blast
    from buckets_split[OF "1.prems"(4) this] IH one(1,2)
    show ?thesis by (auto simp: st)
  qed
qed

text \<open>Where the run starts: at the first moment asked for that the series does not hold yet.\<close>

lemma run_stored:
  assumes run: "backfill_run env product_id start stop gran refresh (c, s) = (Inr n, (c', s'))"
    and env: "bf_store env = ops" "client_keeps_series env"
    and gran: "map_of GRANULARITY_SECONDS gran = Some seconds" and "start < stop"
    and cursor: "cursor = (if refresh then start else resume_at (microseconds seconds) start
      (newest {t. (product_id, gran, t) \<in> stored s}))"
  shows "stored s' = stored s \<union> (\<lambda>t. (product_id, gran, t)) ` buckets (microseconds seconds) cursor stop"
    and "n = card (stored s') - card (stored s)"
proof -
  have pos: "0 < microseconds seconds" using gran by (rule granularity_positive)
  have "backfill_loop env product_id gran (microseconds seconds) stop cursor 0 (c, s) = (Inr n, (c', s'))"
    using run \<open>start < stop\<close> unfolding backfill_run_def env gran cursor
    by (auto simp: abind_def bf_on_store_def latest_reads resume_at_def Let_def)
  note fin = loop_stored[OF this env pos]
  show "stored s' = stored s \<union> (\<lambda>t. (product_id, gran, t)) ` buckets (microseconds seconds) cursor stop"
    using fin by simp
  have "n + card (stored s) = card (stored s')" using fin by (simp del: Un_iff)
  then show "n = card (stored s') - card (stored s)" by simp
qed

end

text \<open>Both stores keep the contract: a dict keyed by the natural key, and rows unique in it.\<close>

definition mem_stored :: "memory_candles \<Rightarrow> (string \<times> string \<times> datetime) set" where
  "mem_stored d = fst ` set d"

definition sqlc_stored :: "candle list \<Rightarrow> (string \<times> string \<times> datetime) set" where
  "sqlc_stored rows = candle_key ` set rows"

lemma mem_upsert_grows:
  assumes "foldl (\<lambda>d c. AList.update (candle_key c) c d) d cs = d'"
  shows "mem_stored d' = mem_stored d \<union> candle_key ` set cs \<and> length d + card (mem_stored d') = length d' + card (mem_stored d)"
  using assms
proof (induction cs arbitrary: d)
  case (Cons c cs)
  let ?u = "AList.update (candle_key c) c d"
  have keys: "mem_stored ?u = insert (candle_key c) (mem_stored d)"
    by (simp add: mem_stored_def dom_update)
  have len: "length ?u = (if candle_key c \<in> mem_stored d then length d else Suc (length d))"
    unfolding mem_stored_def by (induction d) (auto simp: image_iff)
  have "finite (mem_stored d)" by (simp add: mem_stored_def)
  then have "length d + card (mem_stored ?u) = length ?u + card (mem_stored d)"
    by (simp add: keys len insert_absorb)
  moreover have "mem_stored d' = mem_stored ?u \<union> candle_key ` set cs \<and>
    length ?u + card (mem_stored d') = length d' + card (mem_stored ?u)"
    by (rule Cons.IH) (use Cons.prems in simp)
  ultimately show ?case by (auto simp: keys)
qed simp

interpretation memory_candles: candle_store memory_candle_ops mem_stored
proof
  show "finite (mem_stored d)" for d by (simp add: mem_stored_def)
  show "mem_stored d' = mem_stored d \<union> candle_key ` set cs \<and> r = Inr (card (mem_stored d') - card (mem_stored d))"
    if "cs_upsert_many memory_candle_ops cs d = (r, d')" for cs d r d'
  proof -
    have d': "foldl (\<lambda>d c. AList.update (candle_key c) c d) d cs = d'" and r: "r = Inr (length d' - length d)"
      using that by (auto simp: memory_candle_ops_def mem_upsert_many_def Let_def)
    have "card (mem_stored d) \<le> card (mem_stored d')"
      using mem_upsert_grows[OF d'] by (auto intro!: card_mono simp: mem_stored_def)
    then show ?thesis using mem_upsert_grows[OF d'] r by auto
  qed
  show "cs_latest_opened_at memory_candle_ops symb interval d =
      (Inr (newest {t. (symb, interval, t) \<in> mem_stored d}), d)" for symb interval d
  proof -
    have opened: "set (mem_opened symb interval d) = {t. (symb, interval, t) \<in> mem_stored d}"
      by (force simp: mem_opened_def mem_stored_def)
    then have "mem_opened symb interval d = [] \<longleftrightarrow> {t. (symb, interval, t) \<in> mem_stored d} = {}"
      by (metis set_empty)
    then show ?thesis
      by (simp add: memory_candle_ops_def mem_latest_opened_at_def newest_def opened Let_def)
  qed
qed

lemma stored_candle_key [simp]: "candle_key (stored_candle numeric c) = candle_key c"
  by (simp add: stored_candle_def candle_key_def)

lemma sqlc_upsert_one_grows:
  assumes "sqlc_upsert_one numeric c (rows, i) = (rows', j)"
  shows "sqlc_stored rows' = insert (candle_key c) (sqlc_stored rows)"
    "j + card (sqlc_stored rows) = i + card (sqlc_stored rows')"
proof -
  show keys: "sqlc_stored rows' = insert (candle_key c) (sqlc_stored rows)"
  proof (cases "list_ex (\<lambda>x. candle_key x = candle_key c) rows")
    case True
    let ?f = "\<lambda>x. if candle_key x = candle_key c then stored_candle numeric c else x"
    have "rows' = map ?f rows" using assms True by (simp add: sqlc_upsert_one_def)
    then have "map candle_key rows' = map candle_key rows" by simp
    then have "sqlc_stored rows' = sqlc_stored rows" unfolding sqlc_stored_def by (metis set_map)
    moreover have "candle_key c \<in> sqlc_stored rows"
      using True unfolding sqlc_stored_def list_ex_iff by (metis imageI)
    ultimately show ?thesis by blast
  next
    case False
    then show ?thesis using assms by (auto simp: sqlc_upsert_one_def sqlc_stored_def)
  qed
  have "j = (if candle_key c \<in> sqlc_stored rows then i else Suc i)"
    using assms by (auto simp: sqlc_upsert_one_def sqlc_stored_def list_ex_iff dest: sym split: if_splits)
  moreover have "finite (sqlc_stored rows)" by (simp add: sqlc_stored_def)
  ultimately show "j + card (sqlc_stored rows) = i + card (sqlc_stored rows')"
    by (simp add: keys insert_absorb)
qed

lemma sqlc_upsert_grows:
  assumes "fold (sqlc_upsert_one numeric) cs (rows, i) = (rows', j)"
  shows "sqlc_stored rows' = sqlc_stored rows \<union> candle_key ` set cs \<and>
    j + card (sqlc_stored rows) = i + card (sqlc_stored rows')"
  using assms
proof (induction cs arbitrary: rows i)
  case (Cons c cs)
  obtain r k where one: "sqlc_upsert_one numeric c (rows, i) = (r, k)" by fastforce
  then have "sqlc_stored rows' = sqlc_stored r \<union> candle_key ` set cs \<and>
    j + card (sqlc_stored r) = k + card (sqlc_stored rows')"
    using Cons by simp
  with sqlc_upsert_one_grows[OF one] show ?case by auto
qed simp

interpretation sql_candles: candle_store "sql_candle_ops numeric" sqlc_stored
proof
  show "finite (sqlc_stored rows)" for rows by (simp add: sqlc_stored_def)
  show "sqlc_stored rows' = sqlc_stored rows \<union> candle_key ` set cs \<and>
      r = Inr (card (sqlc_stored rows') - card (sqlc_stored rows))"
    if "cs_upsert_many (sql_candle_ops numeric) cs rows = (r, rows')" for cs rows r rows'
  proof -
    obtain u j where "fold (sqlc_upsert_one numeric) cs (rows, 0) = (u, j)" by fastforce
    moreover from this that have "u = rows'" "r = Inr j"
      by (simp_all add: sql_candle_ops_def sqlc_upsert_many_def)
    ultimately have "fold (sqlc_upsert_one numeric) cs (rows, 0) = (rows', j)" "r = Inr j" by simp_all
    then show ?thesis using sqlc_upsert_grows[of numeric cs rows 0 rows' j] by auto
  qed
  show "cs_latest_opened_at (sql_candle_ops numeric) symb interval rows =
      (Inr (newest {t. (symb, interval, t) \<in> sqlc_stored rows}), rows)" for symb interval rows
  proof -
    have opened: "{t. (symb, interval, t) \<in> sqlc_stored rows} = set (sqlc_opened symb interval rows)"
      by (force simp: sqlc_opened_def sqlc_stored_def candle_key_def of_series_def)
    show ?thesis
      by (simp add: sql_candle_ops_def sqlc_latest_opened_at_def opened newest_of_sorted)
  qed
qed

text \<open>
  C33. A series passes the validator exactly when every candle lasts the interval and each
  opens one interval after its predecessor, with no jump beyond the threshold; it is returned as it
  is. An accepted series is strictly increasing and has no two candles with one key.
\<close>

theorem validated_series_is_gapless:
  "(validate_candles v interval cs = Inr ds \<longleftrightarrow>
      ds = cs \<and> list_all (lasts interval) cs \<and> successively (neighbours_ok v interval) cs) \<and>
   (validate_candles v interval cs = Inr ds \<longrightarrow>
      sorted_wrt (<) (map cdl_opened_at ds) \<and> distinct (map candle_key ds) \<and>
      (\<forall>k < length ds. cdl_opened_at (ds ! k) = cdl_opened_at (hd ds) + int k * interval))"
proof (intro conjI impI allI)
  assume "validate_candles v interval cs = Inr ds"
  then have chain: "successively (neighbours_ok v interval) ds" by (simp add: validate_candles_iff)
  show sorted: "sorted_wrt (<) (map cdl_opened_at ds)" by (rule neighbours_sorted[OF chain])
  then have "distinct (map cdl_opened_at ds)" by (simp add: strict_sorted_iff)
  then show "distinct (map candle_key ds)"
    by (auto simp: distinct_map inj_on_def candle_key_def)
  show "cdl_opened_at (ds ! k) = cdl_opened_at (hd ds) + int k * interval" if "k < length ds" for k
    by (rule neighbours_progression[OF chain that])
qed (simp add: validate_candles_iff)

definition sample_candle :: "datetime \<Rightarrow> candle" where
  "sample_candle t = \<lparr>cdl_symbol = ''BTC-USD'', cdl_interval = ''ONE_MINUTE'', cdl_opened_at = t,
     cdl_closed_at = t + 60000000, cdl_open = 100, cdl_high = 101, cdl_low = 99, cdl_close = 100,
     cdl_volume = 1, cdl_source = ''sample'', cdl_as_of = t, cdl_ingested_at = t\<rparr>"

definition sample_validator :: validator where
  "sample_validator = \<lparr>mv_max_price_change_ratio = 1/4, mv_max_quote_age_seconds = 60\<rparr>"

lemma sample_series_valid:
  "validate_candles sample_validator 60000000 [sample_candle 0, sample_candle 60000000] =
   Inr [sample_candle 0, sample_candle 60000000]"
  by (simp add: validate_candles_iff lasts_def neighbours_ok_def sample_candle_def sample_validator_def dsub_def dabs_def)

theorem validated_series_is_gapless_witness:
  "sorted_wrt (<) (map cdl_opened_at [sample_candle 0, sample_candle 60000000]) \<and>
   distinct (map candle_key [sample_candle 0, sample_candle 60000000])"
  using validated_series_is_gapless[of sample_validator 60000000 "[sample_candle 0, sample_candle 60000000]"
      "[sample_candle 0, sample_candle 60000000]"] sample_series_valid by blast

text \<open>
  A backfill that returns has stored exactly the buckets it was asked for: every
  bucket of the granularity from where it resumes up to the end is in the table, nothing else was
  added, and the count it returns is the number of rows that are new.
\<close>

theorem backfill_leaves_no_gap:
  assumes "bf_store env = sql_candle_ops numeric" "client_keeps_series env"
    and "map_of GRANULARITY_SECONDS gran = Some seconds" "start < stop"
    and "backfill_run env product_id start stop gran False (c, rows) = (Inr n, (c', rows'))"
  shows "sqlc_stored rows' = sqlc_stored rows \<union>
      (\<lambda>t. (product_id, gran, t)) ` buckets (microseconds seconds)
         (resume_at (microseconds seconds) start (newest {t. (product_id, gran, t) \<in> sqlc_stored rows})) stop \<and>
    n = card (sqlc_stored rows') - card (sqlc_stored rows)"
  using sql_candles.run_stored[OF assms(5,1,2,3,4) refl] by simp

definition sample_backfill :: "(unit, candle list) backfill_env" where
  "sample_backfill = \<lparr>
     bf_get_candles = (\<lambda>product_id start stop gran c.
       (Inr [(sample_candle start)\<lparr>cdl_symbol := product_id, cdl_interval := gran\<rparr>,
             (sample_candle (start + 60000000))\<lparr>cdl_symbol := product_id, cdl_interval := gran\<rparr>], c)),
     bf_store = sql_candle_ops id, bf_validator = sample_validator\<rparr>"

lemma sample_backfill_runs:
  "\<exists>rows'. backfill_run sample_backfill ''BTC-USD'' 0 120000000 ''ONE_MINUTE'' False ((), []) = (Inr 2, ((), rows'))"
  by (simp add: backfill_run_def GRANULARITY_SECONDS_def microseconds_def Let_def sample_backfill_def
      sql_candle_ops_def bf_on_store_def bf_on_client_def abind_def sqlc_latest_opened_at_def sqlc_opened_def resume_at_def
      backfill_loop.simps backfill_page_def page_end_of_def MAX_CANDLES_PER_REQUEST_def checked_page_def
      validate_candles_def candle_issues.simps issues_with_previous_def sample_candle_def sample_validator_def dsub_def dabs_def
      candle_key_def rbind_def sqlc_upsert_many_def sqlc_upsert_one_def stored_candle_def aret_def)

theorem backfill_leaves_no_gap_witness:
  "\<exists>rows'. sqlc_stored rows' =
     (\<lambda>t. (''BTC-USD'', ''ONE_MINUTE'', t)) ` buckets 60000000 0 120000000"
proof -
  obtain rows' where run:
    "backfill_run sample_backfill ''BTC-USD'' 0 120000000 ''ONE_MINUTE'' False ((), []) = (Inr 2, ((), rows'))"
    using sample_backfill_runs by blast
  have "bf_store sample_backfill = sql_candle_ops id" "client_keeps_series sample_backfill"
    "map_of GRANULARITY_SECONDS ''ONE_MINUTE'' = Some 60"
    by (auto simp: sample_backfill_def client_keeps_series_def of_series_def GRANULARITY_SECONDS_def)
  from backfill_leaves_no_gap[OF this _ run] show ?thesis
    by (auto simp: sqlc_stored_def microseconds_def newest_def resume_at_def)
qed

end
