(* ===== verification/MarketStream.thy ===== *)
theory MarketStream
  imports MarketData
begin

text \<open>
  The websocket ingestor of \<^verbatim>\<open>data/stream.py\<close>: the bucket in progress and its emission, the
  heartbeat and health rules of one connection, the handler that backfills the gap after a
  disconnect, and the reconnect loop. A run is a function of what the network does, written as a
  list of connections: whether each could be opened, what it received and when, how it ended, and
  what the clock and the stop event said in the handler. A message is its parsed content, so a
  payload that cannot be parsed is an item of its own. The callbacks are actions on a world the
  stream does not look into. A connection that is not in the list was never opened because the
  stop event was set.
\<close>

section \<open>Disconnects\<close>

datatype stream_exn =
    HeartbeatTimeout string
  | StaleMarketData string
  | MalformedPayload string
  | ConnectionClosed string
  | CancelledError
  | OtherError string

record disconnect_reason =
  dr_kind :: string
  dr_note :: string

definition DISCONNECT_REASON_KINDS :: "string list" where
  "DISCONNECT_REASON_KINDS =
     [''connect_failed'', ''subscribe_failed'', ''heartbeat_timeout'', ''stale_data'', ''parse_error'',
      ''closed_by_peer'', ''unknown'']"

text \<open>\<open>redact\<close> is \<^verbatim>\<open>redact_diagnostic\<close>, whose patterns are the regular expressions of the logger.\<close>

definition mk_disconnect_reason :: "(string \<Rightarrow> string) \<Rightarrow> string \<Rightarrow> string \<Rightarrow> disconnect_reason" where
  "mk_disconnect_reason redact kind note =
     \<lparr>dr_kind = (if kind \<in> set DISCONNECT_REASON_KINDS then kind else ''unknown''), dr_note = redact note\<rparr>"

datatype stage = Connect | Subscribe | Consume

definition classify_disconnect ::
  "(string \<Rightarrow> string) \<Rightarrow> (stream_exn \<Rightarrow> string) \<Rightarrow> stream_exn \<Rightarrow> stage \<Rightarrow> disconnect_reason"
where
  "classify_disconnect redact describe_exception exc stg =
     mk_disconnect_reason redact
       (case stg of
          Connect \<Rightarrow> ''connect_failed''
        | Subscribe \<Rightarrow> ''subscribe_failed''
        | Consume \<Rightarrow> (case exc of
              HeartbeatTimeout _ \<Rightarrow> ''heartbeat_timeout''
            | StaleMarketData _ \<Rightarrow> ''stale_data''
            | MalformedPayload _ \<Rightarrow> ''parse_error''
            | ConnectionClosed _ \<Rightarrow> ''closed_by_peer''
            | _ \<Rightarrow> ''unknown''))
       (describe_exception exc)"

section \<open>State and callbacks\<close>

record stream =
  st_last_heartbeat :: "datetime option"
  st_last_candle_at :: "string \<rightharpoonup> datetime"
  st_open_buckets :: "string \<rightharpoonup> candle"
  st_last_quote :: "string \<rightharpoonup> quote"
  st_connection_healthy :: bool

definition stream_init :: stream where
  "stream_init = \<lparr>st_last_heartbeat = None, st_last_candle_at = Map.empty, st_open_buckets = Map.empty,
     st_last_quote = Map.empty, st_connection_healthy = False\<rparr>"

text \<open>One message of the socket, by its content.\<close>

datatype stream_item =
    Candle_update candle
  | Quote_update quote
  | Malformed_item string
  | Undated_ticker

datatype stream_message =
    Unparsable string
  | Payload bool "stream_item list"

record 'w stream_env =
  sv_product_ids :: "string list"
  sv_on_candle :: "(candle \<Rightarrow> (stream_exn, 'w, unit) act) option"
  sv_on_quote :: "(quote \<Rightarrow> (stream_exn, 'w, unit) act) option"
  sv_gap_fill :: "(string \<Rightarrow> datetime option \<Rightarrow> datetime \<Rightarrow> (stream_exn, 'w, unit) act) option"
  sv_on_disconnect :: "(datetime \<Rightarrow> disconnect_reason \<Rightarrow> (stream_exn, 'w, unit) act) option"
  sv_on_healthy :: "(datetime \<Rightarrow> (stream_exn, 'w, unit) act) option"
  sv_record :: "(datetime \<Rightarrow> stream_message \<Rightarrow> (stream_exn, 'w, unit) act) option"
  sv_sleep :: "rat \<Rightarrow> (stream_exn, 'w, unit) act"
  sv_heartbeat_timeout :: timedelta
  sv_reconnect_base :: rat
  sv_reconnect_max :: rat
  sv_healthy_period :: timedelta
  sv_redact :: "string \<Rightarrow> string"
  sv_describe :: "stream_exn \<Rightarrow> string"

definition valid_stream_env :: "'w stream_env \<Rightarrow> bool" where
  "valid_stream_env env \<longleftrightarrow>
     sv_product_ids env \<noteq> [] \<and> 0 < sv_heartbeat_timeout env \<and> 0 < sv_reconnect_base env \<and>
     sv_reconnect_base env \<le> sv_reconnect_max env \<and> 0 < sv_healthy_period env"

definition on_world :: "(stream_exn, 'w, unit) act \<Rightarrow> (stream_exn, stream \<times> 'w, unit) act" where
  "on_world m = (\<lambda>(st, w). case m w of (r, w') \<Rightarrow> (r, st, w'))"

definition callback :: "(stream_exn, 'w, unit) act option \<Rightarrow> (stream_exn, stream \<times> 'w, unit) act" where
  "callback m = (case m of None \<Rightarrow> aret () | Some f \<Rightarrow> on_world f)"

definition on_stream :: "(stream \<Rightarrow> stream) \<Rightarrow> (stream_exn, stream \<times> 'w, unit) act" where
  "on_stream f = (\<lambda>(st, w). (Inr (), f st, w))"

text \<open>\<^verbatim>\<open>except Exception\<close> around a callback: a cancellation passes, the rest is logged.\<close>

definition guarded :: "(stream_exn, 's, unit) act \<Rightarrow> (stream_exn, 's, unit) act" where
  "guarded m = abind (attempt m) (\<lambda>r. case r of Inl CancelledError \<Rightarrow> athrow CancelledError | _ \<Rightarrow> aret ())"

section \<open>One connection\<close>

definition update_bucket :: "'w stream_env \<Rightarrow> string \<Rightarrow> candle \<Rightarrow> (stream_exn, stream \<times> 'w, unit) act" where
  "update_bucket env p c = (\<lambda>(st, w).
     let hold = on_stream (\<lambda>st. st\<lparr>st_open_buckets := (st_open_buckets st)(p \<mapsto> c)\<rparr>) in
     if (case st_last_candle_at st p of None \<Rightarrow> False | Some t \<Rightarrow> cdl_opened_at c \<le> t) then (Inr (), st, w)
     else case st_open_buckets st p of
       None \<Rightarrow> hold (st, w)
     | Some cur \<Rightarrow>
         if cdl_opened_at c < cdl_opened_at cur then (Inr (), st, w)
         else if cdl_opened_at cur < cdl_opened_at c
         then abind (on_stream (\<lambda>st. st\<lparr>st_last_candle_at := (st_last_candle_at st)(p \<mapsto> cdl_opened_at cur)\<rparr>))
           (\<lambda>_. abind (callback (map_option (\<lambda>f. f cur) (sv_on_candle env))) (\<lambda>_. hold)) (st, w)
         else hold (st, w))"

definition handle_item :: "'w stream_env \<Rightarrow> stream_item \<Rightarrow> (stream_exn, stream \<times> 'w, unit) act" where
  "handle_item env item =
     (case item of
        Candle_update c \<Rightarrow> update_bucket env (cdl_symbol c) c
      | Quote_update q \<Rightarrow>
          abind (on_stream (\<lambda>st. st\<lparr>st_last_quote := (st_last_quote st)(q_symbol q \<mapsto> q)\<rparr>))
            (\<lambda>_. callback (map_option (\<lambda>f. f q) (sv_on_quote env)))
      | Malformed_item note \<Rightarrow> athrow (MalformedPayload note)
      | Undated_ticker \<Rightarrow> athrow (StaleMarketData ''Coinbase ticker omitted its timestamp''))"

definition record_heartbeat :: "bool \<Rightarrow> datetime \<Rightarrow> stream \<Rightarrow> stream" where
  "record_heartbeat heartbeat received_at st =
     (if heartbeat then st\<lparr>st_last_heartbeat := Some received_at\<rparr> else st)"

definition require_heartbeat :: "'w stream_env \<Rightarrow> datetime \<Rightarrow> datetime \<Rightarrow> (stream_exn, stream \<times> 'w, unit) act" where
  "require_heartbeat env started received_at = (\<lambda>(st, w).
     if sv_heartbeat_timeout env < received_at - (case st_last_heartbeat st of None \<Rightarrow> started | Some t \<Rightarrow> t)
     then (Inl (HeartbeatTimeout ''Coinbase heartbeat is stale''), st, w) else (Inr (), st, w))"

datatype recv_end = Recv_stopped | Recv_timeout | Recv_raises stream_exn

fun end_of :: "recv_end \<Rightarrow> (stream_exn, 's, unit) act" where
  "end_of Recv_stopped = aret ()"
| "end_of Recv_timeout = athrow (HeartbeatTimeout ''Coinbase heartbeat timeout'')"
| "end_of (Recv_raises e) = athrow e"

definition now_healthy :: "'w stream_env \<Rightarrow> datetime \<Rightarrow> bool \<Rightarrow> bool \<Rightarrow> datetime \<Rightarrow> bool" where
  "now_healthy env started healthy heartbeat received_at \<longleftrightarrow>
     heartbeat \<and> \<not> healthy \<and> sv_healthy_period env \<le> received_at - started"

definition handle_message ::
  "'w stream_env \<Rightarrow> datetime \<Rightarrow> bool \<Rightarrow> datetime \<Rightarrow> bool \<Rightarrow> stream_item list \<Rightarrow> (stream_exn, stream \<times> 'w, unit) act"
where
  "handle_message env started healthy received_at heartbeat items =
     abind (callback (map_option (\<lambda>f. f received_at (Payload heartbeat items)) (sv_record env))) (\<lambda>_.
     abind (on_stream (record_heartbeat heartbeat received_at)) (\<lambda>_.
     abind (require_heartbeat env started received_at) (\<lambda>_.
     abind (aforeach (handle_item env) items) (\<lambda>_.
       if now_healthy env started healthy heartbeat received_at
       then abind (on_stream (\<lambda>st. st\<lparr>st_connection_healthy := True\<rparr>)) (\<lambda>_.
              guarded (callback (map_option (\<lambda>f. f received_at) (sv_on_healthy env))))
       else aret ()))))"

fun consume ::
  "'w stream_env \<Rightarrow> datetime \<Rightarrow> bool \<Rightarrow> recv_end \<Rightarrow> (datetime \<times> stream_message) list \<Rightarrow> (stream_exn, stream \<times> 'w, unit) act"
where
  "consume env started healthy fin [] = end_of fin"
| "consume env started healthy fin ((received_at, Unparsable note) # rest) = athrow (MalformedPayload note)"
| "consume env started healthy fin ((received_at, Payload heartbeat items) # rest) =
     abind (handle_message env started healthy received_at heartbeat items) (\<lambda>_.
       consume env started (healthy \<or> now_healthy env started healthy heartbeat received_at) fin rest)"

section \<open>The disconnect handler and the reconnect loop\<close>

text \<open>
  What a connection of the network does: \<open>cx_connect\<close> and \<open>cx_subscribe\<close> are the exceptions of those
  stages, if any, and \<open>cx_close\<close> that of closing the transport. The stop event is read three times
  in the handler, the clock twice.
\<close>

record connection =
  cx_connect :: "stream_exn option"
  cx_subscribe :: "stream_exn option"
  cx_started :: datetime
  cx_messages :: "(datetime \<times> stream_message) list"
  cx_end :: recv_end
  cx_close :: "stream_exn option"
  cx_notify_at :: datetime
  cx_fill_at :: datetime
  cx_stop_notify :: bool
  cx_stop_fill :: bool
  cx_stop_sleep :: bool

definition bucket_microseconds :: timedelta where
  "bucket_microseconds = microseconds 300"

text \<open>
  \<^verbatim>\<open>int(moment.timestamp())\<close> truncates; \<^verbatim>\<open>//\<close> is the floor. The timestamp's float keeps every
  microsecond apart from the next whole second.
\<close>

definition bucket_start :: "datetime \<Rightarrow> datetime" where
  "bucket_start moment =
     microseconds ((if 0 \<le> moment then moment div 1000000 else - ((- moment) div 1000000)) div 300 * 300)"

definition fill_product :: "'w stream_env \<Rightarrow> datetime \<Rightarrow> string \<Rightarrow> (stream_exn, stream \<times> 'w, unit) act" where
  "fill_product env gap_end p = (\<lambda>(st, w).
     let last_filled = gap_end - bucket_microseconds; previous = st_last_candle_at st p in
     if (case previous of None \<Rightarrow> False | Some t \<Rightarrow> last_filled \<le> t) then (Inr (), st, w)
     else abind (callback (map_option (\<lambda>f. f p previous gap_end) (sv_gap_fill env))) (\<lambda>_.
       on_stream (\<lambda>st. st\<lparr>st_last_candle_at := (st_last_candle_at st)(p \<mapsto> last_filled)\<rparr>)) (st, w))"

definition fill_gaps :: "'w stream_env \<Rightarrow> connection \<Rightarrow> (stream_exn, stream \<times> 'w, unit) act" where
  "fill_gaps env cx =
     (if sv_gap_fill env \<noteq> None \<and> \<not> cx_stop_fill cx
      then aforeach (fill_product env (bucket_start (cx_fill_at cx))) (sv_product_ids env) else aret ())"

definition notify_disconnect ::
  "'w stream_env \<Rightarrow> connection \<Rightarrow> stream_exn \<Rightarrow> stage \<Rightarrow> (stream_exn, stream \<times> 'w, unit) act"
where
  "notify_disconnect env cx exc stg =
     (if cx_stop_notify cx then aret ()
      else guarded (callback (map_option
        (\<lambda>f. f (cx_notify_at cx) (classify_disconnect (sv_redact env) (sv_describe env) exc stg)) (sv_on_disconnect env))))"

definition next_delay :: "'w stream_env \<Rightarrow> rat \<Rightarrow> rat" where
  "next_delay env delay = min (sv_reconnect_max env) (delay * 2)"

text \<open>The handler of an exception: \<open>None\<close> ends the loop, otherwise the next delay.\<close>

definition on_exception ::
  "'w stream_env \<Rightarrow> connection \<Rightarrow> rat \<Rightarrow> stream_exn \<Rightarrow> stage \<Rightarrow> (stream_exn, stream \<times> 'w, rat option) act"
where
  "on_exception env cx delay exc stg =
     abind (on_stream (\<lambda>st. st\<lparr>st_open_buckets := Map.empty\<rparr>)) (\<lambda>_.
     abind (notify_disconnect env cx exc stg) (\<lambda>_.
     abind (fill_gaps env cx) (\<lambda>_.
       if cx_stop_sleep cx then aret None
       else (\<lambda>(st, w).
         let waited = (if st_connection_healthy st then sv_reconnect_base env else delay) in
         abind (on_world (sv_sleep env waited)) (\<lambda>_. aret (Some (next_delay env waited))) (st, w)))))"

text \<open>The \<^verbatim>\<open>finally\<close>: an exception of the close replaces what was on its way.\<close>

definition closing :: "stream_exn option \<Rightarrow> (stream_exn, 's, 'a) act \<Rightarrow> (stream_exn, 's, 'a) act" where
  "closing e m = (\<lambda>s. case m s of (r, t) \<Rightarrow> (case e of None \<Rightarrow> r | Some x \<Rightarrow> Inl x, t))"

definition handled ::
  "'w stream_env \<Rightarrow> connection \<Rightarrow> rat \<Rightarrow> stage \<Rightarrow> stream_exn + unit \<Rightarrow> (stream_exn, stream \<times> 'w, rat option) act"
where
  "handled env cx delay stg r =
     (case r of
        Inr _ \<Rightarrow> aret None
      | Inl CancelledError \<Rightarrow> athrow CancelledError
      | Inl exc \<Rightarrow> on_exception env cx delay exc stg)"

definition run_connection :: "'w stream_env \<Rightarrow> connection \<Rightarrow> rat \<Rightarrow> (stream_exn, stream \<times> 'w, rat option) act" where
  "run_connection env cx delay =
     abind (on_stream (\<lambda>st. st\<lparr>st_connection_healthy := False\<rparr>)) (\<lambda>_.
       case cx_connect cx of
         Some exc \<Rightarrow> handled env cx delay Connect (Inl exc)
       | None \<Rightarrow> closing (cx_close cx)
           (case cx_subscribe cx of
              Some exc \<Rightarrow> handled env cx delay Subscribe (Inl exc)
            | None \<Rightarrow>
                abind (attempt (consume env (cx_started cx) False (cx_end cx) (cx_messages cx)))
                  (handled env cx delay Consume)))"

fun stream_run ::
  "'w stream_env \<Rightarrow> nat option \<Rightarrow> connection list \<Rightarrow> nat \<Rightarrow> rat \<Rightarrow> (stream_exn, stream \<times> 'w, unit) act"
where
  "stream_run env max_connections [] attempts delay = aret ()"
| "stream_run env max_connections (cx # rest) attempts delay =
     (if (case max_connections of None \<Rightarrow> False | Some m \<Rightarrow> m \<le> attempts) then aret ()
      else abind (run_connection env cx delay) (\<lambda>r.
        case r of None \<Rightarrow> aret () | Some d \<Rightarrow> stream_run env max_connections rest (attempts + 1) d))"

section \<open>Freshness of a quote\<close>

text \<open>The age in seconds as microseconds; \<open>None\<close> is \<^verbatim>\<open>inf\<close>.\<close>

definition quote_age :: "stream \<Rightarrow> string \<Rightarrow> datetime \<Rightarrow> timedelta option" where
  "quote_age st p now = map_option (\<lambda>q. max 0 (now - q_received_at q)) (st_last_quote st p)"

definition require_fresh_quote :: "'w stream_env \<Rightarrow> stream \<Rightarrow> string \<Rightarrow> datetime \<Rightarrow> stream_exn + quote" where
  "require_fresh_quote env st p now =
     (case st_last_quote st p of
        None \<Rightarrow> Inl (StaleMarketData (''no fresh quote for '' @ p))
      | Some q \<Rightarrow>
          if (case quote_age st p now of None \<Rightarrow> True | Some age \<Rightarrow> sv_heartbeat_timeout env < age)
          then Inl (StaleMarketData (''no fresh quote for '' @ p)) else Inr q)"

section \<open>What the callbacks see\<close>

text \<open>
  The world of a recording environment is the list of the calls made, in order; each call may also
  raise, as any function \<open>outcome\<close> of the calls before it decides. Nothing else about the
  environment is fixed.
\<close>

datatype delivery =
    Emitted candle
  | Filled string "datetime option" datetime
  | Quoted quote
  | Disconnected disconnect_reason
  | Healthy datetime
  | Recorded datetime
  | Slept rat

definition tell ::
  "(delivery list \<Rightarrow> delivery \<Rightarrow> stream_exn + unit) \<Rightarrow> delivery \<Rightarrow> (stream_exn, delivery list, unit) act"
where
  "tell outcome d w = (outcome w d, w @ [d])"

definition recording ::
  "(delivery list \<Rightarrow> delivery \<Rightarrow> stream_exn + unit) \<Rightarrow> delivery list stream_env \<Rightarrow> delivery list stream_env"
where
  "recording outcome env = env\<lparr>
     sv_on_candle := Some (\<lambda>c. tell outcome (Emitted c)),
     sv_on_quote := Some (\<lambda>q. tell outcome (Quoted q)),
     sv_gap_fill := Some (\<lambda>p previous gap_end. tell outcome (Filled p previous gap_end)),
     sv_on_disconnect := Some (\<lambda>t r. tell outcome (Disconnected r)),
     sv_on_healthy := Some (\<lambda>t. tell outcome (Healthy t)),
     sv_record := Some (\<lambda>t m. tell outcome (Recorded t)),
     sv_sleep := (\<lambda>d. tell outcome (Slept d))\<rparr>"

text \<open>
  The newest bucket of a product that a call delivers: the one emitted, or the last one before the
  end of the gap. A call continues what went before when it delivers a newer bucket than all
  earlier ones, and a backfill also starts from exactly the newest delivered.
\<close>

fun mark :: "string \<Rightarrow> delivery \<Rightarrow> datetime option" where
  "mark p (Emitted c) = (if cdl_symbol c = p then Some (cdl_opened_at c) else None)"
| "mark p (Filled q previous gap_end) = (if q = p then Some (gap_end - bucket_microseconds) else None)"
| "mark p _ = None"

definition advance :: "string \<Rightarrow> datetime option \<Rightarrow> delivery \<Rightarrow> datetime option" where
  "advance p m d = (case mark p d of None \<Rightarrow> m | Some t \<Rightarrow> Some t)"

definition newer :: "datetime option \<Rightarrow> datetime option \<Rightarrow> bool" where
  "newer m t \<longleftrightarrow> (case (m, t) of (Some a, Some b) \<Rightarrow> a < b | _ \<Rightarrow> True)"

fun continues :: "string \<Rightarrow> datetime option \<Rightarrow> delivery \<Rightarrow> bool" where
  "continues p m (Filled q previous gap_end) =
     (q = p \<longrightarrow> previous = m \<and> newer m (Some (gap_end - bucket_microseconds)))"
| "continues p m d = newer m (mark p d)"

fun in_order :: "string \<Rightarrow> datetime option \<Rightarrow> delivery list \<Rightarrow> bool" where
  "in_order p m [] = True"
| "in_order p m (d # ds) = (continues p m d \<and> in_order p (advance p m d) ds)"

lemma in_order_snoc:
  "in_order p m (ds @ [d]) \<longleftrightarrow> in_order p m ds \<and> continues p (foldl (advance p) m ds) d"
  by (induction ds arbitrary: m) auto

text \<open>
  The invariant of the log. \<open>sound\<close> holds between any two calls, \<open>ready\<close> also says that a bucket
  in progress is newer than everything delivered: this is what the handler restores by clearing
  the buckets.
\<close>

definition sound :: "stream \<times> delivery list \<Rightarrow> bool" where
  "sound = (\<lambda>(st, w). \<forall>p. in_order p None w \<and> foldl (advance p) None w = st_last_candle_at st p)"

definition ready :: "stream \<times> delivery list \<Rightarrow> bool" where
  "ready s \<longleftrightarrow> sound s \<and>
     (\<forall>p c. st_open_buckets (fst s) p = Some c \<longrightarrow>
        cdl_symbol c = p \<and> newer (st_last_candle_at (fst s) p) (Some (cdl_opened_at c)))"

definition ordered_log :: "stream \<times> delivery list \<Rightarrow> bool" where
  "ordered_log s \<longleftrightarrow> (\<forall>p. in_order p None (snd s))"

lemma ready_sound: "ready s \<Longrightarrow> sound s"
  by (simp add: ready_def)

lemma sound_ordered: "sound s \<Longrightarrow> ordered_log s"
  by (auto simp: sound_def ordered_log_def)

lemma ready_init: "ready (stream_init, [])"
  by (simp add: ready_def sound_def stream_init_def)

text \<open>A call that delivers no bucket keeps both.\<close>

definition silent :: "delivery \<Rightarrow> bool" where
  "silent d \<longleftrightarrow> (\<forall>p. mark p d = None \<and> (\<forall>m. continues p m d))"

lemma silent_simps [simp]:
  "silent (Quoted q)" "silent (Disconnected r)" "silent (Healthy t)" "silent (Recorded t)" "silent (Slept x)"
  by (auto simp: silent_def newer_def split: option.splits)

lemma sound_snoc_silent: "silent d \<Longrightarrow> sound (st, w @ [d]) = sound (st, w)"
  by (auto simp: sound_def in_order_snoc silent_def advance_def)

lemma triple_tell_silent:
  assumes "silent d"
  shows "triple ready (on_world (tell outcome d)) (\<lambda>_. ready) (\<lambda>_. ready)"
  unfolding triple_snd_iff using assms
  by (auto simp: on_world_def tell_def ready_def sound_snoc_silent)

lemma triple_guarded:
  assumes "triple P m (\<lambda>_. P) (\<lambda>_. P)"
  shows "triple P (guarded m) (\<lambda>_. P) (\<lambda>_. P)"
  unfolding guarded_def
proof (rule triple_abind[where R = "\<lambda>_. P"])
  show "triple P (attempt m) (\<lambda>_. P) (\<lambda>_. P)"
    using assms unfolding triple_snd_iff by simp
  show "triple P (case r of Inl CancelledError \<Rightarrow> athrow CancelledError | _ \<Rightarrow> aret ()) (\<lambda>_. P) (\<lambda>_. P)"
    for r :: "stream_exn + unit"
    by (auto simp: triple_def split: sum.splits stream_exn.splits)
qed

text \<open>A change of the state that touches neither the buckets nor what was delivered.\<close>

lemma triple_on_stream:
  assumes "\<And>st w. P (st, w) \<Longrightarrow> Q (f st, w)"
  shows "triple P (on_stream f) (\<lambda>_. Q) E"
  using assms by (auto simp: triple_def on_stream_def)

lemma callback_recording [simp]:
  "callback (map_option (\<lambda>f. f c) (sv_on_candle (recording outcome env))) = on_world (tell outcome (Emitted c))"
  "callback (map_option (\<lambda>f. f q) (sv_on_quote (recording outcome env))) = on_world (tell outcome (Quoted q))"
  "callback (map_option (\<lambda>f. f p prev gap_end) (sv_gap_fill (recording outcome env))) =
     on_world (tell outcome (Filled p prev gap_end))"
  "callback (map_option (\<lambda>f. f t r) (sv_on_disconnect (recording outcome env))) = on_world (tell outcome (Disconnected r))"
  "callback (map_option (\<lambda>f. f t) (sv_on_healthy (recording outcome env))) = on_world (tell outcome (Healthy t))"
  "callback (map_option (\<lambda>f. f t m) (sv_record (recording outcome env))) = on_world (tell outcome (Recorded t))"
  "sv_sleep (recording outcome env) x = tell outcome (Slept x)"
  by (simp_all add: callback_def recording_def)

section \<open>The log stays in order\<close>

lemma update_bucket_triple:
  "triple ready (update_bucket (recording outcome env) (cdl_symbol c) c) (\<lambda>_. ready) (\<lambda>_. sound)"
proof -
  let ?p = "cdl_symbol c"
  have one: "case update_bucket (recording outcome env) ?p c (st, w) of (Inl e, t) \<Rightarrow> sound t | (Inr x, t) \<Rightarrow> ready t"
    if r: "ready (st, w)" for st w
  proof -
    have new: "newer (st_last_candle_at st ?p) (Some (cdl_opened_at c))"
      if "\<not> (case st_last_candle_at st ?p of None \<Rightarrow> False | Some t \<Rightarrow> cdl_opened_at c \<le> t)"
      using that by (auto simp: newer_def split: option.splits)
    have holds: "ready (st\<lparr>st_open_buckets := (st_open_buckets st)(?p \<mapsto> c)\<rparr>, w)"
      if "newer (st_last_candle_at st ?p) (Some (cdl_opened_at c))"
      using r that by (auto simp: ready_def sound_def)
    show ?thesis
    proof (cases "st_open_buckets st ?p")
      case None
      then show ?thesis using r new holds by (simp add: update_bucket_def on_stream_def Let_def)
    next
      case (Some cur)
      have cur: "cdl_symbol cur = ?p" "newer (st_last_candle_at st ?p) (Some (cdl_opened_at cur))"
        using r Some by (auto simp: ready_def)
      define st1 where "st1 = st\<lparr>st_last_candle_at := (st_last_candle_at st)(?p \<mapsto> cdl_opened_at cur)\<rparr>"
      have emitted: "sound (st1, w @ [Emitted cur])"
        using r cur by (auto simp: st1_def ready_def sound_def in_order_snoc advance_def newer_def split: option.splits)
      have kept: "ready (st1\<lparr>st_open_buckets := (st_open_buckets st1)(?p \<mapsto> c)\<rparr>, w @ [Emitted cur])"
        if "cdl_opened_at cur < cdl_opened_at c"
        using emitted r that by (auto simp: ready_def sound_def st1_def newer_def)
      show ?thesis
        using r new holds Some emitted kept
        by (auto simp: update_bucket_def on_stream_def Let_def abind_def on_world_def tell_def st1_def
            split: sum.splits)
    qed
  qed
  show ?thesis unfolding triple_def split_paired_All by (intro allI impI) (rule one)
qed

lemma handle_item_triple:
  "triple ready (handle_item (recording outcome env) item) (\<lambda>_. ready) (\<lambda>_. sound)"
proof (cases item)
  case (Candle_update c)
  then show ?thesis using update_bucket_triple by (simp add: handle_item_def)
next
  case (Quote_update q)
  have "triple ready (on_world (tell outcome (Quoted q))) (\<lambda>_. ready) (\<lambda>_. sound)"
    by (rule triple_weaken[OF triple_tell_silent]) (auto intro: ready_sound)
  then show ?thesis unfolding handle_item_def Quote_update
    by (auto intro!: triple_abind[OF triple_on_stream[where Q = ready]] simp: ready_def sound_def)
qed (auto simp: handle_item_def intro!: triple_athrow ready_sound)

lemma handle_message_triple:
  "triple ready (handle_message (recording outcome env) started healthy received_at heartbeat items)
     (\<lambda>_. ready) (\<lambda>_. sound)"
  unfolding handle_message_def callback_recording
proof (intro triple_abind[where R = "\<lambda>_. ready"] triple_if triple_aret)
  show "triple ready (on_world (tell outcome (Recorded received_at))) (\<lambda>_. ready) (\<lambda>_. sound)"
    by (rule triple_weaken[OF triple_tell_silent]) (auto intro: ready_sound)
  show "triple ready (on_stream (record_heartbeat heartbeat received_at)) (\<lambda>_. ready) (\<lambda>_. sound)"
    by (rule triple_on_stream) (auto simp: ready_def sound_def record_heartbeat_def)
  show "triple ready (require_heartbeat (recording outcome env) started received_at) (\<lambda>_. ready) (\<lambda>_. sound)"
    by (auto simp: triple_def require_heartbeat_def intro: ready_sound)
  show "triple ready (aforeach (handle_item (recording outcome env)) items) (\<lambda>_. ready) (\<lambda>_. sound)"
    by (rule triple_aforeach) (rule handle_item_triple)
  show "triple ready (on_stream (st_connection_healthy_update (\<lambda>_. True))) (\<lambda>_. ready) (\<lambda>_. sound)"
    by (rule triple_on_stream) (auto simp: ready_def sound_def)
  show "triple ready (guarded (on_world (tell outcome (Healthy received_at)))) (\<lambda>_. ready) (\<lambda>_. sound)"
    by (rule triple_weaken[OF triple_guarded[OF triple_tell_silent]]) (auto intro: ready_sound)
qed assumption

lemma consume_triple:
  "triple ready (consume (recording outcome env) started healthy fin msgs) (\<lambda>_. ready) (\<lambda>_. sound)"
proof (induction "recording outcome env" started healthy fin msgs rule: consume.induct)
  case (1 started healthy fin)
  show ?case by (cases fin) (auto intro: triple_aret triple_athrow ready_sound)
next
  case (2 started healthy fin received_at why rest)
  show ?case by (auto intro: triple_athrow ready_sound)
next
  case (3 started healthy fin received_at heartbeat items rest)
  show ?case unfolding consume.simps
    by (rule triple_abind[OF handle_message_triple]) (rule 3)
qed

text \<open>In the handler the buckets are clear, so that a backfill cannot overtake one in progress.\<close>

definition quiet :: "stream \<times> delivery list \<Rightarrow> bool" where
  "quiet s \<longleftrightarrow> sound s \<and> st_open_buckets (fst s) = Map.empty"

lemma quiet_ready: "quiet s \<Longrightarrow> ready s"
  by (simp add: quiet_def ready_def)

lemma quiet_ordered: "quiet s \<Longrightarrow> ordered_log s"
  by (simp add: quiet_def sound_ordered)

lemma triple_tell_quiet:
  assumes "silent d"
  shows "triple quiet (on_world (tell outcome d)) (\<lambda>_. quiet) (\<lambda>_. quiet)"
  unfolding triple_snd_iff using assms
  by (auto simp: on_world_def tell_def quiet_def sound_snoc_silent)

lemma fill_product_triple:
  "triple quiet (fill_product (recording outcome env) gap_end p) (\<lambda>_. quiet) (\<lambda>_. ordered_log)"
proof -
  have one: "case fill_product (recording outcome env) gap_end p (st, w) of
      (Inl e, t) \<Rightarrow> ordered_log t | (Inr x, t) \<Rightarrow> quiet t" if q: "quiet (st, w)" for st w
  proof (cases "case st_last_candle_at st p of None \<Rightarrow> False | Some t \<Rightarrow> gap_end - bucket_microseconds \<le> t")
    case True
    then show ?thesis using q by (simp add: fill_product_def Let_def)
  next
    case False
    let ?d = "Filled p (st_last_candle_at st p) gap_end"
    let ?st = "st\<lparr>st_last_candle_at := (st_last_candle_at st)(p \<mapsto> gap_end - bucket_microseconds)\<rparr>"
    have newer: "newer (st_last_candle_at st p) (Some (gap_end - bucket_microseconds))"
      using False by (auto simp: newer_def split: option.splits)
    have "quiet (?st, w @ [?d])"
      using q newer by (auto simp: quiet_def sound_def in_order_snoc advance_def)
    moreover from this have "ordered_log (st, w @ [?d])"
      using quiet_ordered by (auto simp: ordered_log_def)
    ultimately show ?thesis using False
      by (auto simp: fill_product_def Let_def abind_def on_world_def tell_def on_stream_def split: sum.splits)
  qed
  show ?thesis unfolding triple_def split_paired_All by (intro allI impI) (rule one)
qed

lemma on_exception_triple:
  "triple sound (on_exception (recording outcome env) cx delay exc stg) (\<lambda>_. quiet) (\<lambda>_. ordered_log)"
  unfolding on_exception_def
proof (rule triple_abind[where R = "\<lambda>_. quiet"])
  show "triple sound (on_stream (st_open_buckets_update (\<lambda>_. Map.empty))) (\<lambda>_. quiet) (\<lambda>_. ordered_log)"
    by (rule triple_on_stream) (auto simp: quiet_def sound_def)
  have quietly: "triple quiet (on_world (tell outcome d)) (\<lambda>_. quiet) (\<lambda>_. ordered_log)" if "silent d" for d
    by (rule triple_weaken[OF triple_tell_quiet[OF that]]) (auto intro: quiet_ordered)
  have notify: "triple quiet (notify_disconnect (recording outcome env) cx exc stg) (\<lambda>_. quiet) (\<lambda>_. ordered_log)"
    unfolding notify_disconnect_def callback_recording
  proof (intro triple_if triple_aret)
    show "triple quiet (guarded (on_world (tell outcome (Disconnected r)))) (\<lambda>_. quiet) (\<lambda>_. ordered_log)" for r
      by (rule triple_weaken[OF triple_guarded[OF triple_tell_quiet]]) (auto intro: quiet_ordered)
  qed assumption
  have fill: "triple quiet (fill_gaps (recording outcome env) cx) (\<lambda>_. quiet) (\<lambda>_. ordered_log)"
    unfolding fill_gaps_def by (intro triple_if triple_aret triple_aforeach fill_product_triple)
  have wait: "triple quiet (\<lambda>(st, w).
         let waited = (if st_connection_healthy st then sv_reconnect_base (recording outcome env) else delay) in
         abind (on_world (sv_sleep (recording outcome env) waited))
           (\<lambda>_. aret (Some (next_delay (recording outcome env) waited))) (st, w)) (\<lambda>_. quiet) (\<lambda>_. ordered_log)"
  proof -
    have "triple quiet (abind (on_world (tell outcome (Slept x))) (\<lambda>_. aret y)) (\<lambda>_. quiet) (\<lambda>_. ordered_log)"
      for x and y :: "rat option"
      by (rule triple_abind[OF quietly]) (auto intro: triple_aret)
    then show ?thesis unfolding triple_def by (auto simp: Let_def)
  qed
  show "triple quiet (abind (notify_disconnect (recording outcome env) cx exc stg) (\<lambda>_.
     abind (fill_gaps (recording outcome env) cx) (\<lambda>_.
       if cx_stop_sleep cx then aret None
       else (\<lambda>(st, w).
         let waited = (if st_connection_healthy st then sv_reconnect_base (recording outcome env) else delay) in
         abind (on_world (sv_sleep (recording outcome env) waited))
           (\<lambda>_. aret (Some (next_delay (recording outcome env) waited))) (st, w)))))
     (\<lambda>_. quiet) (\<lambda>_. ordered_log)"
    by (intro triple_abind[OF notify] triple_abind[OF fill] triple_if wait triple_aret)
qed

lemma handled_triple:
  "triple (if r = Inr () then ready else sound) (handled (recording outcome env) cx delay stg r)
     (\<lambda>_. ready) (\<lambda>_. ordered_log)"
proof (cases r)
  case (Inl exc)
  have "triple sound (on_exception (recording outcome env) cx delay exc stg) (\<lambda>_. ready) (\<lambda>_. ordered_log)"
    by (rule triple_weaken[OF on_exception_triple]) (auto intro: quiet_ready)
  moreover have "triple sound (athrow CancelledError) (\<lambda>_. ready) (\<lambda>_. ordered_log)"
    by (rule triple_athrow) (rule sound_ordered)
  ultimately show ?thesis by (cases exc) (simp_all add: Inl handled_def)
qed (simp add: handled_def triple_def)

lemma closing_triple:
  assumes "triple P m (\<lambda>_. Q) (\<lambda>_. E)" "\<And>s. Q s \<Longrightarrow> E s"
  shows "triple P (closing e m) (\<lambda>_. Q) (\<lambda>_. E)"
proof -
  have "case closing e m s of (Inl x, t) \<Rightarrow> E t | (Inr x, t) \<Rightarrow> Q t" if "P s" for s
  proof -
    obtain r t where "m s = (r, t)" by fastforce
    moreover from this assms(1) that have "case r of Inl x \<Rightarrow> E t | Inr x \<Rightarrow> Q t"
      by (auto simp: triple_def)
    ultimately show ?thesis using assms(2) by (auto simp: closing_def split: sum.splits option.splits)
  qed
  then show ?thesis by (simp add: triple_def)
qed

lemma run_connection_triple:
  "triple ready (run_connection (recording outcome env) cx delay) (\<lambda>_. ready) (\<lambda>_. ordered_log)"
proof -
  let ?env = "recording outcome env"
  have failed: "triple ready (handled ?env cx delay stg (Inl exc)) (\<lambda>_. ready) (\<lambda>_. ordered_log)" for stg exc
    by (rule triple_weaken[OF handled_triple]) (auto intro: ready_sound)
  have ran: "triple ready (abind (attempt (consume ?env (cx_started cx) False (cx_end cx) (cx_messages cx)))
      (handled ?env cx delay Consume)) (\<lambda>_. ready) (\<lambda>_. ordered_log)"
  proof (rule triple_abind)
    show "triple ready (attempt (consume ?env (cx_started cx) False (cx_end cx) (cx_messages cx)))
      (\<lambda>r. if r = Inr () then ready else sound) (\<lambda>_. ordered_log)"
      by (rule triple_weaken[OF triple_attempt[OF consume_triple]]) (auto split: sum.splits)
    show "triple (if r = Inr () then ready else sound) (handled ?env cx delay Consume r) (\<lambda>_. ready) (\<lambda>_. ordered_log)" for r
      by (rule handled_triple)
  qed
  show ?thesis unfolding run_connection_def
  proof (rule triple_abind[where R = "\<lambda>_. ready"])
    show "triple ready (on_stream (st_connection_healthy_update (\<lambda>_. False))) (\<lambda>_. ready) (\<lambda>_. ordered_log)"
      by (rule triple_on_stream) (auto simp: ready_def sound_def)
    show "triple ready (case cx_connect cx of
         Some exc \<Rightarrow> handled ?env cx delay Connect (Inl exc)
       | None \<Rightarrow> closing (cx_close cx)
           (case cx_subscribe cx of
              Some exc \<Rightarrow> handled ?env cx delay Subscribe (Inl exc)
            | None \<Rightarrow>
                abind (attempt (consume ?env (cx_started cx) False (cx_end cx) (cx_messages cx)))
                  (handled ?env cx delay Consume))) (\<lambda>_. ready) (\<lambda>_. ordered_log)"
      using failed ran
      by (auto split: option.splits intro!: closing_triple sound_ordered intro: ready_sound)
  qed
qed

lemma stream_run_triple:
  "triple ready (stream_run (recording outcome env) max_connections conns attempts delay) (\<lambda>_. ready) (\<lambda>_. ordered_log)"
proof (induction conns arbitrary: attempts delay)
  case (Cons cx rest)
  have "triple ready (case r of None \<Rightarrow> aret ()
      | Some d \<Rightarrow> stream_run (recording outcome env) max_connections rest (attempts + 1) d) (\<lambda>_. ready) (\<lambda>_. ordered_log)" for r
    by (cases r) (auto intro: triple_aret Cons.IH)
  then show ?case unfolding stream_run.simps
    by (intro triple_if triple_aret triple_abind[OF run_connection_triple])
qed (auto intro: triple_aret)

text \<open>
  C31. Whatever the network does and whichever callbacks raise, the buckets of every
  product are handed over in strictly increasing order: none is emitted or backfilled twice, none
  is emitted after a newer one, and every backfill starts exactly at the newest bucket already
  delivered, so none is skipped.
\<close>

theorem buckets_delivered_once_in_order:
  "in_order p None (snd (snd (stream_run (recording outcome env) max_connections conns 0 delay (stream_init, []))))"
proof -
  have "triple ready (stream_run (recording outcome env) max_connections conns 0 delay) (\<lambda>_. ordered_log) (\<lambda>_. ordered_log)"
    by (rule triple_weaken[OF stream_run_triple]) (auto intro: sound_ordered ready_sound)
  then show ?thesis
    unfolding triple_snd_iff using ready_init by (auto simp: ordered_log_def)
qed

section \<open>Delays, freshness and the heartbeat of an earlier connection\<close>

lemma next_delay_bounds:
  assumes "valid_stream_env env" "sv_reconnect_base env \<le> delay"
  shows "sv_reconnect_base env \<le> next_delay env delay" "next_delay env delay \<le> sv_reconnect_max env"
  using assms by (auto simp: next_delay_def valid_stream_env_def)

lemma require_fresh_quote_iff:
  "require_fresh_quote env st p now = Inr q \<longleftrightarrow>
   st_last_quote st p = Some q \<and> max 0 (now - q_received_at q) \<le> sv_heartbeat_timeout env"
  by (auto simp: require_fresh_quote_def quote_age_def split: option.splits if_splits)

text \<open>
  The time of the last heartbeat survives a disconnect. A connection whose first message is not a
  heartbeat is therefore measured against the heartbeat of the connection before it and fails at
  once when the outage was longer than the timeout, however recently it was opened; the next one
  fails the same way until a heartbeat happens to come first.
\<close>

theorem old_heartbeat_ends_a_new_connection:
  assumes "st_last_heartbeat st = Some t" "sv_heartbeat_timeout env < received_at - t" "sv_record env = None"
  shows "consume env started False fin ((received_at, Payload False items) # rest) (st, w) =
    (Inl (HeartbeatTimeout ''Coinbase heartbeat is stale''), st, w)"
  using assms
  by (simp add: handle_message_def callback_def on_stream_def record_heartbeat_def require_heartbeat_def abind_def)

end
