(* ===== verification/PortfolioStore.thy ===== *)
theory PortfolioStore
  imports Recovery
begin

text \<open>
  The durable portfolio snapshots of \<^verbatim>\<open>portfolio/store.py\<close>: \<^verbatim>\<open>SqlAlchemyPortfolioStore\<close> over the rows of
  its tables. The locale \<open>portfolio_store\<close> states what the reconciler and the restart recovery rely on
  (the newest snapshot is the last one saved) and proves what a reconciliation leaves behind; it is
  interpreted on the database.

  As for the orders, \<open>pd_failures\<close> says call by call whether the database fails, a failed call rolls
  its transaction back, and a numeric column stores \<open>numeric x\<close>. \<open>uuid4 n\<close> is the \<open>n\<close>-th identifier
  issued; the identifiers of single position and balance rows are never read and are left out. Of two
  snapshots with one time the database may return either; the model returns the later row.
\<close>

section \<open>Tables\<close>

record batch_row =
  bt_batch_id :: uuid
  bt_source :: string
  bt_recorded_at :: datetime

record position_row =
  pr_batch_id :: uuid
  pr_position :: position
  pr_source :: string

record balance_row =
  br_batch_id :: uuid
  br_balance :: balance
  br_source :: string

record equity_row =
  eqr_snapshot_id :: uuid
  eqr_equity :: "rat option"
  eqr_as_of :: datetime
  eqr_source :: string
  eqr_partial :: bool

record discrepancy_row =
  dr_discrepancy :: discrepancy
  dr_safety_action :: string
  dr_created_at :: datetime

record portfolio_db =
  pd_batches :: "batch_row list"
  pd_positions :: "position_row list"
  pd_balances :: "balance_row list"
  pd_equity :: "equity_row list"
  pd_discrepancies :: "discrepancy_row list"
  pd_issued :: nat
  pd_failures :: "bool list"

definition pd_call :: "string \<Rightarrow> (exn, portfolio_db, 'a) act \<Rightarrow> (exn, portfolio_db, 'a) act" where
  "pd_call message body s =
     (let s' = s\<lparr>pd_failures := tl (pd_failures s)\<rparr> in
      if pd_failures s \<noteq> [] \<and> hd (pd_failures s) then (Inl (PortfolioPersistenceUnavailable message), s')
      else body s')"

section \<open>Operations\<close>

definition stored_position :: "(rat \<Rightarrow> rat) \<Rightarrow> position \<Rightarrow> position" where
  "stored_position numeric p =
     p\<lparr>pos_quantity := numeric (pos_quantity p), pos_average_price := map_option numeric (pos_average_price p)\<rparr>"

definition stored_balance :: "(rat \<Rightarrow> rat) \<Rightarrow> balance \<Rightarrow> balance" where
  "stored_balance numeric b = b\<lparr>bal_available := numeric (bal_available b), bal_hold := numeric (bal_hold b)\<rparr>"

definition add_snapshot ::
  "(nat \<Rightarrow> uuid) \<Rightarrow> (rat \<Rightarrow> rat) \<Rightarrow> datetime \<Rightarrow> portfolio_state \<Rightarrow> rat option \<Rightarrow> string \<Rightarrow> portfolio_db \<Rightarrow> portfolio_db"
where
  "add_snapshot uuid4 numeric now state equity source s =
     (let batch_id = uuid4 (pd_issued s) in
      s\<lparr>pd_batches := pd_batches s @ [\<lparr>bt_batch_id = batch_id, bt_source = source, bt_recorded_at = now\<rparr>],
        pd_positions := pd_positions s @
          map (\<lambda>p. \<lparr>pr_batch_id = batch_id, pr_position = stored_position numeric p, pr_source = source\<rparr>)
            (pf_positions state),
        pd_balances := pd_balances s @
          map (\<lambda>b. \<lparr>br_batch_id = batch_id, br_balance = stored_balance numeric b, br_source = source\<rparr>)
            (pf_balances state),
        pd_equity := pd_equity s @
          (case equity of
             None \<Rightarrow> []
           | Some e \<Rightarrow> [\<lparr>eqr_snapshot_id = uuid4 (pd_issued s + 1), eqr_equity = Some (numeric e), eqr_as_of = now,
                         eqr_source = source, eqr_partial = False\<rparr>]),
        pd_issued := pd_issued s + 2\<rparr>)"

definition sqlp_save_snapshot ::
  "(nat \<Rightarrow> uuid) \<Rightarrow> (rat \<Rightarrow> rat) \<Rightarrow> datetime \<Rightarrow> rat option \<Rightarrow> portfolio_state \<Rightarrow> string \<Rightarrow> (exn, portfolio_db, unit) act"
where
  "sqlp_save_snapshot uuid4 numeric now equity state source =
     pd_call ''database unavailable for portfolio snapshot''
       (\<lambda>s. (Inr (), add_snapshot uuid4 numeric now state equity source s))"

definition sqlp_save_discrepancy :: "datetime \<Rightarrow> discrepancy \<Rightarrow> string \<Rightarrow> (exn, portfolio_db, unit) act" where
  "sqlp_save_discrepancy now d safety_action =
     pd_call ''database unavailable for discrepancy record''
       (\<lambda>s. (Inr (), s\<lparr>pd_discrepancies := pd_discrepancies s @
          [\<lparr>dr_discrepancy = d, dr_safety_action = safety_action, dr_created_at = now\<rparr>]\<rparr>))"

text \<open>\<^verbatim>\<open>ORDER BY recorded_at DESC LIMIT 1\<close>.\<close>

definition later_batch :: "batch_row \<Rightarrow> batch_row option \<Rightarrow> batch_row option" where
  "later_batch b best =
     (case best of None \<Rightarrow> Some b | Some c \<Rightarrow> if bt_recorded_at c \<le> bt_recorded_at b then Some b else Some c)"

definition latest_batch :: "string \<Rightarrow> portfolio_db \<Rightarrow> batch_row option" where
  "latest_batch source s = fold later_batch (filter (\<lambda>b. bt_source b = source) (pd_batches s)) None"

definition sqlp_latest_recorded_at :: "string \<Rightarrow> (exn, portfolio_db, datetime option) act" where
  "sqlp_latest_recorded_at source =
     pd_call ''database unavailable while reading the snapshot time''
       (\<lambda>s. (Inr (map_option bt_recorded_at (latest_batch source s)), s))"

text \<open>A tuple of models built row by row: the first row that does not validate raises.\<close>

fun read_all :: "('r \<Rightarrow> 'e + 'm) \<Rightarrow> 'r list \<Rightarrow> 'e + 'm list" where
  "read_all mk [] = Inr []"
| "read_all mk (r # rs) = rbind (mk r) (\<lambda>m. rbind (read_all mk rs) (\<lambda>ms. Inr (m # ms)))"

definition batch_state :: "uuid \<Rightarrow> portfolio_db \<Rightarrow> exn + portfolio_state" where
  "batch_state batch_id s =
     rbind (read_all (\<lambda>r. mk_position (pr_position r)) (filter (\<lambda>r. pr_batch_id r = batch_id) (pd_positions s))) (\<lambda>ps.
     rbind (read_all (\<lambda>r. mk_balance (br_balance r)) (filter (\<lambda>r. br_batch_id r = batch_id) (pd_balances s))) (\<lambda>bs.
       Inr \<lparr>pf_orders = [], pf_fills = [], pf_positions = ps, pf_balances = bs\<rparr>))"

definition sqlp_latest_state :: "string \<Rightarrow> (exn, portfolio_db, portfolio_state option) act" where
  "sqlp_latest_state source =
     pd_call ''database unavailable while loading portfolio snapshot''
       (\<lambda>s. (case latest_batch source s of
               None \<Rightarrow> Inr None
             | Some b \<Rightarrow> rbind (batch_state (bt_batch_id b) s) (\<lambda>state. Inr (Some state)), s))"

definition sql_portfolio_ops :: "(nat \<Rightarrow> uuid) \<Rightarrow> (rat \<Rightarrow> rat) \<Rightarrow> datetime \<Rightarrow> portfolio_db portfolio_store_ops" where
  "sql_portfolio_ops uuid4 numeric now =
     \<lparr>ps_save_snapshot = sqlp_save_snapshot uuid4 numeric now None, ps_save_discrepancy = sqlp_save_discrepancy now\<rparr>"

section \<open>What the reconciler and the recovery rely on\<close>

text \<open>Up to the last step of a reconciliation the store is as it was.\<close>

abbreviation keeps_store :: "'p \<Rightarrow> (exn, ('b, 'p, 'a) rec_world, 'x) act \<Rightarrow> bool" where
  "keeps_store p m \<equiv> triple (\<lambda>w. rw_store w = p) m (\<lambda>_ w. rw_store w = p) (\<lambda>_ w. rw_store w = p)"

lemma store_frame:
  "keeps_store p (rw_on_broker m)" "keeps_store p (rw_on_kill k)" "keeps_store p (rw_on_alerts a)"
  by (auto simp: triple_def rw_on_broker_def rw_on_kill_def rw_on_alerts_def split: prod.splits sum.splits)

lemma guarded_read_store:
  fixes m :: "(exn, ('b, 'p, 'a) rec_world, 'x) act"
  assumes "keeps_store p m"
  shows "keeps_store p (guarded_read env i reason message m)"
proof -
  have raised: "rw_store (snd (abind (rw_on_kill (ks_trip (re_kill_env env i) reason))
      (\<lambda>_. athrow (ReconciliationUnavailable message)) w :: (exn + 'x) \<times> ('b, 'p, 'a) rec_world)) = rw_store w" for w
    by (auto simp: abind_def rw_on_kill_def athrow_def split: prod.splits sum.splits)
  have read: "rw_store (snd (m w)) = p" if "rw_store w = p" for w
    using assms that unfolding triple_snd_iff by blast
  have "rw_store (snd (guarded_read env i reason message m w)) = p" if "rw_store w = p" for w
  proof (cases "m w")
    case (Pair r v)
    then show ?thesis using read[OF that] by (cases r) (simp_all add: guarded_read_def raised)
  qed
  then show ?thesis unfolding triple_snd_iff by blast
qed

lemma reconcile_orders_store: "keeps_store p (reconcile_orders env los acc)"
proof (induction los arbitrary: acc)
  case (Cons x los)
  obtain k lo where x: "x = (k, lo)" by (cases x)
  obtain orders fills ds where acc: "acc = (orders, fills, ds)" by (cases acc)
  show ?case unfolding x acc reconcile_orders.simps
    by (rule triple_abind[OF guarded_read_store[OF store_frame(1)]])
      (auto split: option.splits intro!: Cons.IH triple_abind[OF guarded_read_store[OF store_frame(1)]])
qed (simp add: triple_def)

lemma report_all_store: "keeps_store p (report_all env ds)"
  unfolding report_all_def
  by (rule triple_aforeach) (auto split: option.splits intro: triple_aret store_frame)

lemma reconcile_saves_last:
  fixes env :: "('a, 'b, 'c) rec_env"
  assumes "reconcile env local w = (Inr result, w')"
  obtains v where "save_all env (rr_authoritative result) (rr_discrepancies result) v = (Inr (), w')"
    "rw_store v = rw_store w"
proof -
  define reads where "reads = guarded_read env 0 ''broker unavailable during reconciliation'' ''broker state could not be read''
    (abind (rw_on_broker (bo_get_balances (re_broker env)))
      (\<lambda>bs. abind (rw_on_broker (bo_get_positions (re_broker env))) (\<lambda>ps. aret (bs, ps))))"
  define halt where "halt ds = (if ds \<noteq> []
    then rw_on_kill (ks_trip (re_kill_env env 0) ''broker-authoritative reconciliation divergence'') else aret () :: (exn, ('a, 'b, 'c) rec_world, unit) act)"
    for ds :: "discrepancy list"
  obtain balances positions w1 found w2 w3 w4 where
    steps: "reads w = (Inr (balances, positions), w1)"
      "reconcile_orders env (pf_orders local) ([], [], []) w1 = (Inr found, w2)"
      "report_all env (rr_discrepancies result) w2 = (Inr (), w3)"
      "halt (rr_discrepancies result) w3 = (Inr (), w4)"
    and last: "save_all env (rr_authoritative result) (rr_discrepancies result) w4 = (Inr (), w')"
    using assms unfolding reconcile_def reads_def[symmetric] halt_def[symmetric]
    by (auto simp: abind_def aret_def Let_def split: sum.splits prod.splits)
  have reads: "keeps_store (rw_store w) reads"
    unfolding reads_def by (intro guarded_read_store triple_abind[OF store_frame(1)] triple_aret)
  have halts: "keeps_store (rw_store w) (halt ds)" for ds
    unfolding halt_def by (intro triple_if store_frame triple_aret)
  have "rw_store w1 = rw_store w" by (rule triple_returns[OF reads refl steps(1)])
  then have "rw_store w2 = rw_store w" by (rule triple_returns[OF reconcile_orders_store _ steps(2)])
  then have "rw_store w3 = rw_store w" by (rule triple_returns[OF report_all_store _ steps(3)])
  then have "rw_store w4 = rw_store w" by (rule triple_returns[OF halts _ steps(4)])
  then show ?thesis by (rule that[OF last])
qed

text \<open>
  \<open>saved\<close> is the newest snapshot of the broker's holdings and its time. A store is \<open>fresh\<close> for a time
  when that time is later than every snapshot in it; \<open>storable\<close> states come back as they were saved.
\<close>

definition holdings_of :: "portfolio_state \<Rightarrow> portfolio_state" where
  "holdings_of state = state\<lparr>pf_orders := [], pf_fills := []\<rparr>"

locale portfolio_store =
  fixes ops :: "'p portfolio_store_ops"
    and latest_state :: "(exn, 'p, portfolio_state option) act"
    and latest_recorded_at :: "(exn, 'p, datetime option) act"
    and now :: datetime
    and saved :: "'p \<Rightarrow> (datetime \<times> portfolio_state) option"
    and fresh :: "'p \<Rightarrow> bool"
    and storable :: "portfolio_state \<Rightarrow> bool"
  assumes save_keeps: "ps_save_snapshot ops state ''broker'' s = (Inr (), s') \<Longrightarrow> fresh s \<Longrightarrow> storable state \<Longrightarrow>
      saved s' = Some (now, holdings_of state)"
    and discrepancy_keeps: "saved (snd (ps_save_discrepancy ops d action s)) = saved s"
    and state_reads: "latest_state s = (Inr x, s') \<Longrightarrow> saved s = Some (t, state) \<Longrightarrow> x = Some state \<and> saved s' = saved s"
    and time_reads: "latest_recorded_at s = (Inr y, s') \<Longrightarrow> saved s = Some (t, state) \<Longrightarrow> y = Some t"
begin

lemma discrepancies_keep:
  "saved (rw_store (snd (aforeach (\<lambda>d. rw_on_store (ps_save_discrepancy ops d action)) ds w))) = saved (rw_store w)"
  by (rule aforeach_invariant[where P = "\<lambda>v. saved (rw_store v) = saved (rw_store w)"])
    (auto simp: rw_on_store_def split_beta discrepancy_keeps)

text \<open>The broker, the kill switch and the alerts do not touch the store.\<close>

lemma reconcile_saves:
  assumes run: "reconcile env local w = (Inr result, w')" and store: "re_store env = Some ops"
    and fresh: "fresh (rw_store w)" and storable: "storable (rr_authoritative result)"
  shows "saved (rw_store w') = Some (now, holdings_of (rr_authoritative result))"
proof -
  obtain v where "save_all env (rr_authoritative result) (rr_discrepancies result) v = (Inr (), w')"
    and same: "rw_store v = rw_store w"
    using run by (rule reconcile_saves_last)
  then obtain u where save: "ps_save_snapshot ops (rr_authoritative result) ''broker'' (rw_store v) = (Inr (), u)"
    and rest: "aforeach (\<lambda>d. rw_on_store (ps_save_discrepancy ops d ''halted'')) (rr_discrepancies result)
      (v\<lparr>rw_store := u\<rparr>) = (Inr (), w')"
    unfolding save_all_def store
    by (auto dest!: guarded_read_InrD simp: abind_def rw_on_store_def split: prod.splits sum.splits)
  have "saved (rw_store w') = saved u"
    using discrepancies_keep[of "''halted''" "rr_discrepancies result" "v\<lparr>rw_store := u\<rparr>"] by (simp add: rest)
  then show ?thesis using save_keeps[OF save _ storable] fresh by (simp add: same)
qed

end

section \<open>The database keeps the contract\<close>

definition sqlp_saved :: "portfolio_db \<Rightarrow> (datetime \<times> portfolio_state) option" where
  "sqlp_saved s =
     (case latest_batch ''broker'' s of
        None \<Rightarrow> None
      | Some b \<Rightarrow> (case batch_state (bt_batch_id b) s of Inl _ \<Rightarrow> None | Inr state \<Rightarrow> Some (bt_recorded_at b, state)))"

definition sqlp_fresh :: "(nat \<Rightarrow> uuid) \<Rightarrow> datetime \<Rightarrow> portfolio_db \<Rightarrow> bool" where
  "sqlp_fresh uuid4 now s \<longleftrightarrow> inj uuid4 \<and>
     (\<forall>b \<in> set (pd_batches s). bt_recorded_at b < now) \<and>
     pr_batch_id ` set (pd_positions s) \<union> br_batch_id ` set (pd_balances s) \<subseteq> uuid4 ` {..<pd_issued s}"

definition sqlp_storable :: "(rat \<Rightarrow> rat) \<Rightarrow> portfolio_state \<Rightarrow> bool" where
  "sqlp_storable numeric state \<longleftrightarrow>
     list_all (\<lambda>p. valid_position p \<and> stored_position numeric p = p) (pf_positions state) \<and>
     list_all (\<lambda>b. valid_balance b \<and> stored_balance numeric b = b) (pf_balances state)"

lemma read_all_positions:
  "list_all (\<lambda>p. valid_position p \<and> stored_position numeric p = p) ps \<Longrightarrow>
   read_all (\<lambda>r. mk_position (pr_position r))
     (map (\<lambda>p. \<lparr>pr_batch_id = i, pr_position = stored_position numeric p, pr_source = source\<rparr>) ps) = Inr ps"
  by (induction ps) (auto simp: mk_position_def)

lemma read_all_balances:
  "list_all (\<lambda>b. valid_balance b \<and> stored_balance numeric b = b) bs \<Longrightarrow>
   read_all (\<lambda>r. mk_balance (br_balance r))
     (map (\<lambda>b. \<lparr>br_batch_id = i, br_balance = stored_balance numeric b, br_source = source\<rparr>) bs) = Inr bs"
  by (induction bs) (auto simp: mk_balance_def)

lemma latest_batch_mem: "fold later_batch bs best = Some c \<Longrightarrow> c \<in> set bs \<or> best = Some c"
  by (induction bs arbitrary: best) (auto simp: later_batch_def split: option.splits if_splits)

lemma add_snapshot_latest:
  assumes "sqlp_fresh uuid4 now s"
  shows "latest_batch ''broker'' (add_snapshot uuid4 numeric now state e ''broker'' s) =
    Some \<lparr>bt_batch_id = uuid4 (pd_issued s), bt_source = ''broker'', bt_recorded_at = now\<rparr>"
proof -
  have "bt_recorded_at c < now" if "latest_batch ''broker'' s = Some c" for c
    using assms latest_batch_mem that by (fastforce simp: latest_batch_def sqlp_fresh_def)
  then show ?thesis
    by (auto simp: latest_batch_def add_snapshot_def later_batch_def Let_def less_imp_le split: option.splits)
qed

lemma add_snapshot_state:
  assumes fresh: "sqlp_fresh uuid4 now s" and "sqlp_storable numeric state"
  shows "batch_state (uuid4 (pd_issued s)) (add_snapshot uuid4 numeric now state e source s) = Inr (holdings_of state)"
proof -
  have new: "uuid4 (pd_issued s) \<notin> uuid4 ` {..<pd_issued s}"
    using fresh by (auto simp: sqlp_fresh_def inj_eq)
  have "filter (\<lambda>r. pr_batch_id r = uuid4 (pd_issued s)) (pd_positions s) = []"
    "filter (\<lambda>r. br_batch_id r = uuid4 (pd_issued s)) (pd_balances s) = []"
    using fresh new unfolding sqlp_fresh_def filter_empty_conv by (metis UnCI image_eqI subset_iff)+
  then show ?thesis using assms(2)
    by (simp add: batch_state_def add_snapshot_def Let_def sqlp_storable_def holdings_of_def filter_map o_def
        read_all_positions read_all_balances)
qed

lemma sqlp_saved_cong:
  assumes "pd_batches s = pd_batches t" "pd_positions s = pd_positions t" "pd_balances s = pd_balances t"
  shows "sqlp_saved s = sqlp_saved t"
proof -
  have "batch_state i s = batch_state i t" for i using assms by (simp add: batch_state_def)
  moreover have "latest_batch ''broker'' s = latest_batch ''broker'' t" using assms by (simp add: latest_batch_def)
  ultimately show ?thesis by (cases "latest_batch ''broker'' t") (simp_all add: sqlp_saved_def)
qed

lemma sqlp_saved_failures [simp]: "sqlp_saved (s\<lparr>pd_failures := fs\<rparr>) = sqlp_saved s"
  by (rule sqlp_saved_cong) simp_all

lemma sqlp_read_saved:
  assumes "sqlp_saved s = Some (t, state)"
  shows "fst (sqlp_latest_state ''broker'' s) =
      (if pd_failures s \<noteq> [] \<and> hd (pd_failures s)
       then Inl (PortfolioPersistenceUnavailable ''database unavailable while loading portfolio snapshot'')
       else Inr (Some state))"
    and "fst (sqlp_latest_recorded_at ''broker'' s) =
      (if pd_failures s \<noteq> [] \<and> hd (pd_failures s)
       then Inl (PortfolioPersistenceUnavailable ''database unavailable while reading the snapshot time'')
       else Inr (Some t))"
    and "sqlp_saved (snd (sqlp_latest_state ''broker'' s)) = sqlp_saved s"
proof -
  obtain b where b: "latest_batch ''broker'' s = Some b" "batch_state (bt_batch_id b) s = Inr state" "bt_recorded_at b = t"
    using assms by (auto simp: sqlp_saved_def split: option.splits sum.splits)
  have same: "latest_batch source (s\<lparr>pd_failures := fs\<rparr>) = latest_batch source s"
    "batch_state i (s\<lparr>pd_failures := fs\<rparr>) = batch_state i s" for source i fs
    by (simp_all add: latest_batch_def batch_state_def)
  show "fst (sqlp_latest_state ''broker'' s) =
      (if pd_failures s \<noteq> [] \<and> hd (pd_failures s)
       then Inl (PortfolioPersistenceUnavailable ''database unavailable while loading portfolio snapshot'')
       else Inr (Some state))"
    by (simp add: sqlp_latest_state_def pd_call_def Let_def same b)
  show "fst (sqlp_latest_recorded_at ''broker'' s) =
      (if pd_failures s \<noteq> [] \<and> hd (pd_failures s)
       then Inl (PortfolioPersistenceUnavailable ''database unavailable while reading the snapshot time'')
       else Inr (Some t))"
    by (simp add: sqlp_latest_recorded_at_def pd_call_def Let_def same b)
  show "sqlp_saved (snd (sqlp_latest_state ''broker'' s)) = sqlp_saved s"
    by (simp add: sqlp_latest_state_def pd_call_def Let_def)
qed

interpretation sql_portfolio: portfolio_store "sql_portfolio_ops uuid4 numeric now" "sqlp_latest_state ''broker''"
  "sqlp_latest_recorded_at ''broker''" now sqlp_saved "sqlp_fresh uuid4 now" "sqlp_storable numeric"
  for uuid4 numeric now
proof
  show "sqlp_saved s' = Some (now, holdings_of state)"
    if "ps_save_snapshot (sql_portfolio_ops uuid4 numeric now) state ''broker'' s = (Inr (), s')"
      and fresh: "sqlp_fresh uuid4 now s" and storable: "sqlp_storable numeric state" for state s s'
  proof -
    define u where "u = s\<lparr>pd_failures := tl (pd_failures s)\<rparr>"
    have s': "s' = add_snapshot uuid4 numeric now state None ''broker'' u"
      using that(1) by (simp add: sql_portfolio_ops_def sqlp_save_snapshot_def pd_call_def Let_def u_def split: if_splits)
    have "sqlp_fresh uuid4 now u" using fresh by (simp add: u_def sqlp_fresh_def)
    from add_snapshot_latest[OF this] add_snapshot_state[OF this storable] show ?thesis
      by (simp add: s' sqlp_saved_def)
  qed
  show "sqlp_saved (snd (ps_save_discrepancy (sql_portfolio_ops uuid4 numeric now) d action s)) = sqlp_saved s"
    for d action s
    by (auto simp: sql_portfolio_ops_def sqlp_save_discrepancy_def pd_call_def Let_def intro!: sqlp_saved_cong)
  show "x = Some state \<and> sqlp_saved s' = sqlp_saved s"
    if "sqlp_latest_state ''broker'' s = (Inr x, s')" "sqlp_saved s = Some (t, state)" for s x s' t state
    using sqlp_read_saved[OF that(2)] that(1) by (auto split: if_splits)
  show "y = Some t" if "sqlp_latest_recorded_at ''broker'' s = (Inr y, s')" "sqlp_saved s = Some (t, state)"
    for s y s' t state
    using sqlp_read_saved[OF that(2)] that(1) by (auto split: if_splits)
qed

text \<open>
  C35. What a reconciliation saved is what a restart starts from: after a reconciliation that
  returns, the newest snapshot of the database is the broker's positions and balances with the time
  of saving, and both reads of the restart recovery return it unless the database itself fails.
\<close>

theorem reconciled_state_is_the_restart_baseline:
  assumes "reconcile env local w = (Inr result, w')" and "re_store env = Some (sql_portfolio_ops uuid4 numeric now)"
    and "sqlp_fresh uuid4 now (rw_store w)" and "sqlp_storable numeric (rr_authoritative result)"
  shows "fst (sqlp_latest_state ''broker'' (rw_store w')) =
      (if pd_failures (rw_store w') \<noteq> [] \<and> hd (pd_failures (rw_store w'))
       then Inl (PortfolioPersistenceUnavailable ''database unavailable while loading portfolio snapshot'')
       else Inr (Some \<lparr>pf_orders = [], pf_fills = [], pf_positions = pf_positions (rr_authoritative result),
                       pf_balances = pf_balances (rr_authoritative result)\<rparr>)) \<and>
    fst (sqlp_latest_recorded_at ''broker'' (rw_store w')) =
      (if pd_failures (rw_store w') \<noteq> [] \<and> hd (pd_failures (rw_store w'))
       then Inl (PortfolioPersistenceUnavailable ''database unavailable while reading the snapshot time'')
       else Inr (Some now))"
proof -
  have "holdings_of (rr_authoritative result) =
    \<lparr>pf_orders = [], pf_fills = [], pf_positions = pf_positions (rr_authoritative result),
     pf_balances = pf_balances (rr_authoritative result)\<rparr>"
    by (simp add: holdings_of_def)
  then show ?thesis
    using sqlp_read_saved(1,2)[OF sql_portfolio.reconcile_saves[OF assms]] by simp
qed

definition sample_ids :: "nat \<Rightarrow> uuid" where
  "sample_ids n = replicate n (CHR ''i'')"

definition sample_pdb :: portfolio_db where
  "sample_pdb = \<lparr>pd_batches = [], pd_positions = [], pd_balances = [], pd_equity = [], pd_discrepancies = [],
     pd_issued = 0, pd_failures = []\<rparr>"

definition sample_saving_env :: "(sim_broker, portfolio_db, nat) rec_env" where
  "sample_saving_env = \<lparr>re_broker = sim_ops 0, re_kill_env = (\<lambda>_. sample_ks_env),
     re_store = Some (sql_portfolio_ops sample_ids id 7), re_alert = None, re_dec_text = (\<lambda>_. [])\<rparr>"

definition sample_saving_world :: "(sim_broker, portfolio_db, nat) rec_world" where
  "sample_saving_world = \<lparr>rw_broker = sample_broker [], rw_kill = sample_kill, rw_store = sample_pdb, rw_alerts = 0\<rparr>"

definition sample_saved_world :: "(sim_broker, portfolio_db, nat) rec_world" where
  "sample_saved_world = sample_saving_world\<lparr>rw_store := add_snapshot sample_ids id 7 (sample_local 100) None ''broker'' sample_pdb\<rparr>"

lemma sample_reconcile_saves:
  "reconcile sample_saving_env (sample_local 100) sample_saving_world =
     (Inr \<lparr>rr_authoritative = sample_local 100, rr_discrepancies = [], rr_safety_tripped = False\<rparr>, sample_saved_world)"
  by (simp add: reconcile_run_defs sample_reads sample_balance_discrepancies sample_position_discrepancies
      sample_fill_discrepancies sample_saving_env_def sample_saving_world_def sample_saved_world_def save_all_def
      sql_portfolio_ops_def sqlp_save_snapshot_def pd_call_def Let_def sample_pdb_def rw_on_store_def)

theorem reconciled_state_is_the_restart_baseline_witness:
  "fst (sqlp_latest_state ''broker'' (rw_store sample_saved_world)) = Inr (Some (sample_local 100))"
proof -
  have "inj sample_ids" by (rule injI) (metis sample_ids_def length_replicate)
  then have "sqlp_fresh sample_ids 7 (rw_store sample_saving_world)"
    by (simp add: sqlp_fresh_def sample_saving_world_def sample_pdb_def)
  moreover have "sqlp_storable id (sample_local 100)"
    by (simp add: sqlp_storable_def sample_local_def sample_cash_def valid_balance_def stored_balance_def)
  ultimately show ?thesis
    using reconciled_state_is_the_restart_baseline[OF sample_reconcile_saves, of sample_ids id 7]
    by (simp add: sample_saving_env_def sample_saved_world_def sample_saving_world_def add_snapshot_def
        sample_pdb_def Let_def sample_local_def)
qed

end
