(* ===== verification/Equity.thy ===== *)
theory Equity
  imports PortfolioStore
begin

text \<open>
  The account's recorded equity: the sampler and its store (\<^verbatim>\<open>portfolio/equity.py\<close>) and the day's
  profit or loss read from it (\<^verbatim>\<open>portfolio/day_pnl.py\<close>). The sampler works over any broker and any
  store; the database is the rows of its tables, \<open>ed_failures\<close> says call by call whether it fails. A
  \<^verbatim>\<open>SQLAlchemyError\<close> is what a failed call raises here, since nothing in this module wraps it. The
  texts of times and amounts are parameters (\<open>stamp\<close>, \<open>amount_text\<close>). Log lines are not modelled.
\<close>

section \<open>Samples\<close>

datatype basis = FRESH | LAST_KNOWN | UNPRICED

record last_price =
  lp_symbol :: string
  lp_bid :: rat
  lp_observed_at :: datetime
  lp_source :: string

record valued_holding =
  vh_symbol :: string
  vh_quantity :: rat
  vh_basis :: basis
  vh_price :: "rat option"
  vh_observed_at :: "datetime option"
  vh_age_seconds :: "int option"

record equity_sample =
  es_as_of :: datetime
  es_equity :: "rat option"
  es_holdings :: "valued_holding list"

definition es_partial :: "equity_sample \<Rightarrow> bool" where
  "es_partial smp \<longleftrightarrow> es_equity smp = None"

text \<open>The two protocols, \<^verbatim>\<open>LastPriceStore\<close> and \<^verbatim>\<open>EquityStore\<close>, over one state.\<close>

record 'e equity_ops =
  eo_record :: "last_price \<Rightarrow> (exn, 'e, unit) act"
  eo_latest :: "string list \<Rightarrow> (exn, 'e, (string, last_price) dict) act"
  eo_save :: "equity_sample \<Rightarrow> string \<Rightarrow> (exn, 'e, unit) act"

section \<open>The database store\<close>

record holding_row =
  hr_snapshot_id :: uuid
  hr_holding :: valued_holding

record equity_db =
  ed_prices :: "last_price list"
  ed_snapshots :: "equity_row list"
  ed_holdings :: "holding_row list"
  ed_issued :: nat
  ed_failures :: "bool list"

definition ed_call :: "(exn, equity_db, 'a) act \<Rightarrow> (exn, equity_db, 'a) act" where
  "ed_call body s =
     (let s' = s\<lparr>ed_failures := tl (ed_failures s)\<rparr> in
      if ed_failures s \<noteq> [] \<and> hd (ed_failures s) then (Inl (SQLAlchemyError ''database''), s') else body s')"

definition price_row :: "string \<Rightarrow> last_price list \<Rightarrow> last_price option" where
  "price_row symb rows = List.find (\<lambda>r. lp_symbol r = symb) rows"

definition put_price :: "(rat \<Rightarrow> rat) \<Rightarrow> last_price \<Rightarrow> last_price list \<Rightarrow> last_price list" where
  "put_price numeric price rows =
     (let stored = price\<lparr>lp_bid := numeric (lp_bid price)\<rparr> in
      case price_row (lp_symbol price) rows of
        None \<Rightarrow> rows @ [stored]
      | Some row \<Rightarrow>
          if lp_observed_at row \<le> lp_observed_at price
          then map (\<lambda>r. if lp_symbol r = lp_symbol price then stored else r) rows else rows)"

definition sqle_record :: "(rat \<Rightarrow> rat) \<Rightarrow> last_price \<Rightarrow> (exn, equity_db, unit) act" where
  "sqle_record numeric price =
     ed_call (\<lambda>s. (Inr (), s\<lparr>ed_prices := put_price numeric price (ed_prices s)\<rparr>))"

definition sqle_latest :: "string list \<Rightarrow> (exn, equity_db, (string, last_price) dict) act" where
  "sqle_latest symbols =
     (if symbols = [] then aret []
      else ed_call (\<lambda>s. (Inr (dict_of (map (\<lambda>r. (lp_symbol r, r))
             (filter (\<lambda>r. lp_symbol r \<in> set symbols) (ed_prices s)))), s)))"

definition sqle_save :: "(nat \<Rightarrow> uuid) \<Rightarrow> (rat \<Rightarrow> rat) \<Rightarrow> equity_sample \<Rightarrow> string \<Rightarrow> (exn, equity_db, unit) act" where
  "sqle_save uuid4 numeric smp source =
     ed_call (\<lambda>s. let snapshot_id = uuid4 (ed_issued s) in
       (Inr (), s\<lparr>ed_snapshots := ed_snapshots s @
            [\<lparr>eqr_snapshot_id = snapshot_id, eqr_equity = map_option numeric (es_equity smp), eqr_as_of = es_as_of smp,
              eqr_source = source, eqr_partial = es_partial smp\<rparr>],
          ed_holdings := ed_holdings s @
            map (\<lambda>h. \<lparr>hr_snapshot_id = snapshot_id,
                 hr_holding = h\<lparr>vh_quantity := numeric (vh_quantity h), vh_price := map_option numeric (vh_price h)\<rparr>\<rparr>)
              (filter (\<lambda>h. vh_basis h \<noteq> FRESH) (es_holdings smp)),
          ed_issued := ed_issued s + 1\<rparr>))"

definition sql_equity_ops :: "(nat \<Rightarrow> uuid) \<Rightarrow> (rat \<Rightarrow> rat) \<Rightarrow> equity_db equity_ops" where
  "sql_equity_ops uuid4 numeric =
     \<lparr>eo_record = sqle_record numeric, eo_latest = sqle_latest, eo_save = sqle_save uuid4 numeric\<rparr>"

section \<open>The sampler\<close>

record ('b, 'e) sampler_env =
  eq_broker :: "'b broker_ops"
  eq_store :: "'e equity_ops"
  eq_quote_asset :: string
  eq_source :: string
  eq_now :: datetime

definition sm_on_broker :: "(exn, 'b, 'x) act \<Rightarrow> (exn, 'b \<times> 'e, 'x) act" where
  "sm_on_broker m = (\<lambda>(b, e). case m b of (r, b') \<Rightarrow> (r, b', e))"

definition sm_on_store :: "(exn, 'e, 'x) act \<Rightarrow> (exn, 'b \<times> 'e, 'x) act" where
  "sm_on_store m = (\<lambda>(b, e). case m e of (r, e') \<Rightarrow> (r, b, e'))"

text \<open>\<^verbatim>\<open>except (SQLAlchemyError, OSError)\<close> with a default.\<close>

fun is_store_error :: "exn \<Rightarrow> bool" where
  "is_store_error (SQLAlchemyError _) = True"
| "is_store_error (OSError _) = True"
| "is_store_error _ = False"

definition or_else :: "(exn, 's, 'x) act \<Rightarrow> 'x \<Rightarrow> (exn, 's, 'x) act" where
  "or_else m x = abind (attempt m) (\<lambda>r. case r of
     Inl exc \<Rightarrow> if is_store_error exc then aret x else athrow exc
   | Inr y \<Rightarrow> aret y)"

definition fresh_mark :: "('b, 'e) sampler_env \<Rightarrow> string \<Rightarrow> (exn, 'b \<times> 'e, rat option) act" where
  "fresh_mark env symb =
     abind (attempt (sm_on_broker (bo_get_quote (eq_broker env) symb))) (\<lambda>r. case r of
        Inl _ \<Rightarrow> aret None
      | Inr q \<Rightarrow>
          (case mark_from_quote q symb of
             None \<Rightarrow> aret None
           | Some mark \<Rightarrow>
               if mark \<le> 0 then aret None
               else abind (or_else (sm_on_store (eo_record (eq_store env)
                       \<lparr>lp_symbol = symb, lp_bid = mark, lp_observed_at = q_as_of q, lp_source = take 64 (q_source q)\<rparr>)) ())
                     (\<lambda>_. aret (Some mark))))"

definition stored_prices :: "('b, 'e) sampler_env \<Rightarrow> string list \<Rightarrow> (exn, 'b \<times> 'e, (string, last_price) dict) act" where
  "stored_prices env symbols = or_else (sm_on_store (eo_latest (eq_store env) symbols)) []"

definition age_seconds :: "datetime \<Rightarrow> datetime \<Rightarrow> int" where
  "age_seconds now observed = max 0 ((now - observed) div 1000000)"

definition valued :: "datetime \<Rightarrow> (string, last_price) dict \<Rightarrow> string \<Rightarrow> position \<Rightarrow> rat option \<Rightarrow> valued_holding" where
  "valued now stored symb p mark =
     (case mark of
        Some m \<Rightarrow> \<lparr>vh_symbol = symb, vh_quantity = pos_quantity p, vh_basis = FRESH, vh_price = Some m,
                   vh_observed_at = None, vh_age_seconds = None\<rparr>
      | None \<Rightarrow> (case map_of stored symb of
            Some l \<Rightarrow> \<lparr>vh_symbol = symb, vh_quantity = pos_quantity p, vh_basis = LAST_KNOWN, vh_price = Some (lp_bid l),
                       vh_observed_at = Some (lp_observed_at l),
                       vh_age_seconds = Some (age_seconds now (lp_observed_at l))\<rparr>
          | None \<Rightarrow> \<lparr>vh_symbol = symb, vh_quantity = pos_quantity p, vh_basis = UNPRICED, vh_price = None,
                     vh_observed_at = None, vh_age_seconds = None\<rparr>))"

fun value_holdings ::
  "('b, 'e) sampler_env \<Rightarrow> (string, last_price) dict \<Rightarrow> (string, position) dict \<Rightarrow> rat \<times> bool \<times> valued_holding list \<Rightarrow>
     (exn, 'b \<times> 'e, rat \<times> bool \<times> valued_holding list) act"
where
  "value_holdings env stored [] acc = aret acc"
| "value_holdings env stored ((symb, p) # rest) (exposure, unpriced, holdings) =
     abind (fresh_mark env symb) (\<lambda>mark.
       let h = valued (eq_now env) stored symb p mark in
       value_holdings env stored rest
         (case vh_price h of
            None \<Rightarrow> (exposure, True, holdings @ [h])
          | Some m \<Rightarrow> (dadd exposure (position_value p m), unpriced, holdings @ [h])))"

definition value_account ::
  "('b, 'e) sampler_env \<Rightarrow> balance list \<Rightarrow> position list \<Rightarrow> (exn, 'b \<times> 'e, equity_sample) act"
where
  "value_account env balances positions =
     (let held = held_positions positions; total_cash = snd (quote_cash balances (eq_quote_asset env)) in
      abind (stored_prices env (map fst held)) (\<lambda>stored.
      abind (value_holdings env stored held (0, False, [])) (\<lambda>(exposure, unpriced, holdings).
        aret \<lparr>es_as_of = eq_now env, es_equity = (if unpriced then None else Some (equity_value total_cash exposure)),
              es_holdings = holdings\<rparr>)))"

definition account_of ::
  "('b, 'e) sampler_env \<Rightarrow> portfolio_state option \<Rightarrow> (exn, 'b \<times> 'e, balance list \<times> position list) act"
where
  "account_of env state =
     (case state of
        Some p \<Rightarrow> aret (pf_balances p, pf_positions p)
      | None \<Rightarrow> abind (sm_on_broker (bo_get_balances (eq_broker env))) (\<lambda>bs.
          abind (sm_on_broker (bo_get_positions (eq_broker env))) (\<lambda>ps. aret (bs, ps))))"

text \<open>\<^verbatim>\<open>sample\<close>: \<open>None\<close> when nothing was recorded.\<close>

definition take_sample ::
  "('b, 'e) sampler_env \<Rightarrow> portfolio_state option \<Rightarrow> (exn, 'b \<times> 'e, equity_sample option) act"
where
  "take_sample env state =
     abind (attempt (abind (account_of env state) (\<lambda>(balances, positions). value_account env balances positions)))
       (\<lambda>r. case r of
          Inl _ \<Rightarrow> aret None
        | Inr smp \<Rightarrow> or_else (abind (sm_on_store (eo_save (eq_store env) smp (eq_source env))) (\<lambda>_. aret (Some smp))) None)"

section \<open>The day's profit or loss\<close>

datatype pnl_status = Current | Unavailable

record day_pnl =
  dp_status :: pnl_status
  dp_detail :: string
  dp_amount :: "rat option"
  dp_as_of :: "datetime option"

definition pnl_unavailable :: "string \<Rightarrow> day_pnl" where
  "pnl_unavailable reason = \<lparr>dp_status = Unavailable, dp_detail = reason, dp_amount = None, dp_as_of = None\<rparr>"

record pnl_env =
  pn_stale_after :: timedelta
  pn_quote_asset :: string
  pn_now :: datetime
  pn_stamp :: "datetime \<Rightarrow> string"
  pn_amount_text :: "rat \<Rightarrow> string"

definition day_length :: timedelta where
  "day_length = microseconds 86400"

definition day_start :: "datetime \<Rightarrow> datetime" where
  "day_start now = now div day_length * day_length"

definition plural :: "string \<Rightarrow> nat \<Rightarrow> string" where
  "plural word n = nat_str n @ '' '' @ word @ (if n = 1 then [] else ''s'')"

definition duration_text :: "timedelta \<Rightarrow> string" where
  "duration_text d =
     (let minutes = nat (d div microseconds 60) in
      if minutes mod 60 = 0 \<and> 60 \<le> minutes then plural ''hour'' (minutes div 60) else plural ''minute'' minutes)"

text \<open>\<^verbatim>\<open>ORDER BY as_of LIMIT 1\<close> in either direction.\<close>

definition earlier_row :: "equity_row \<Rightarrow> equity_row option \<Rightarrow> equity_row option" where
  "earlier_row r best = (case best of None \<Rightarrow> Some r | Some c \<Rightarrow> if eqr_as_of r < eqr_as_of c then Some r else Some c)"

definition later_row :: "equity_row \<Rightarrow> equity_row option \<Rightarrow> equity_row option" where
  "later_row r best = (case best of None \<Rightarrow> Some r | Some c \<Rightarrow> if eqr_as_of c < eqr_as_of r then Some r else Some c)"

definition rows_today :: "datetime \<Rightarrow> equity_row list \<Rightarrow> equity_row list" where
  "rows_today now rows = filter (\<lambda>r. day_start now \<le> eqr_as_of r \<and> eqr_as_of r < day_start now + day_length) rows"

fun join_names :: "string list \<Rightarrow> string" where
  "join_names [] = []"
| "join_names [x] = x"
| "join_names (x # xs) = x @ '', '' @ join_names xs"

definition last_known_symbols :: "equity_row \<Rightarrow> equity_row \<Rightarrow> holding_row list \<Rightarrow> string list" where
  "last_known_symbols first latest rows =
     sort (remdups (map (\<lambda>r. vh_symbol (hr_holding r))
       (filter (\<lambda>r. hr_snapshot_id r \<in> {eqr_snapshot_id first, eqr_snapshot_id latest} \<and>
          vh_basis (hr_holding r) = LAST_KNOWN) rows)))"

definition change_since :: "pnl_env \<Rightarrow> equity_row \<Rightarrow> equity_row \<Rightarrow> string list \<Rightarrow> rat \<Rightarrow> day_pnl" where
  "change_since env first latest held amount =
     \<lparr>dp_status = Current,
      dp_detail = pn_amount_text env amount @ '' '' @ pn_quote_asset env @ '' since the first equity snapshot today ('' @
        pn_stamp env (eqr_as_of first) @ ''), as of '' @ pn_stamp env (eqr_as_of latest) @
        (if held = [] then [] else ''; includes last-known prices for '' @ join_names held) @
        ''; a change in account equity, so a deposit or withdrawal would move it'',
      dp_amount = Some amount, dp_as_of = Some (eqr_as_of latest)\<rparr>"

definition pnl_of_rows :: "pnl_env \<Rightarrow> equity_row \<Rightarrow> equity_row \<Rightarrow> holding_row list \<Rightarrow> day_pnl" where
  "pnl_of_rows env first latest holdings =
     (if eqr_snapshot_id first = eqr_snapshot_id latest
      then pnl_unavailable ''only one equity snapshot has been recorded today (UTC); a change needs two''
      else if pn_stale_after env < pn_now env - eqr_as_of latest
      then pnl_unavailable (''the latest equity snapshot ('' @ pn_stamp env (eqr_as_of latest) @ '') is older than '' @
        duration_text (pn_stale_after env) @ '', so it is not shown as current'')
      else case (eqr_partial first, eqr_equity first) of
        (False, Some e1) \<Rightarrow>
          (case (eqr_partial latest, eqr_equity latest) of
             (False, Some e2) \<Rightarrow> change_since env first latest (last_known_symbols first latest holdings) (dsub e2 e1)
           | _ \<Rightarrow> pnl_unavailable (''the latest equity snapshot ('' @ pn_stamp env (eqr_as_of latest) @
               '') is partial: a holding had no price, and it is not counted as zero''))
      | _ \<Rightarrow> pnl_unavailable (''the first equity snapshot today ('' @ pn_stamp env (eqr_as_of first) @
          '') is partial: a holding had no price, and it is not counted as zero''))"

text \<open>The reader: a database that fails anywhere in the read gives the last reason.\<close>

definition read_day_pnl :: "pnl_env \<Rightarrow> bool \<Rightarrow> equity_db \<Rightarrow> day_pnl" where
  "read_day_pnl env db_fails s =
     (if db_fails then pnl_unavailable ''the saved equity history could not be read''
      else let today = rows_today (pn_now env) (ed_snapshots s) in
        case (fold earlier_row today None, fold later_row today None) of
          (Some first, Some latest) \<Rightarrow> pnl_of_rows env first latest (ed_holdings s)
        | _ \<Rightarrow> pnl_unavailable ''no equity snapshot has been recorded yet today (UTC)'')"

section \<open>What a sample says\<close>

text \<open>
  The value of an account whose holdings were all priced: the cash plus every holding at its mark,
  added in order. One holding without a price makes the value unknown.
\<close>

definition holding_value :: "valued_holding \<Rightarrow> rat" where
  "holding_value h = dmul (dabs (vh_quantity h)) (case vh_price h of Some m \<Rightarrow> m | None \<Rightarrow> 0)"

definition account_value :: "rat \<Rightarrow> valued_holding list \<Rightarrow> rat option" where
  "account_value cash hs =
     (if list_all (\<lambda>h. vh_price h \<noteq> None) hs then Some (dadd cash (foldl (\<lambda>x h. dadd x (holding_value h)) 0 hs))
      else None)"

text \<open>A price is either a positive quote of now or the stored one, and has its basis.\<close>

definition priced_by :: "(string, last_price) dict \<Rightarrow> valued_holding \<Rightarrow> bool" where
  "priced_by stored h \<longleftrightarrow>
     (case vh_basis h of
        FRESH \<Rightarrow> (\<exists>m > 0. vh_price h = Some m)
      | LAST_KNOWN \<Rightarrow> (\<exists>l. map_of stored (vh_symbol h) = Some l \<and> vh_price h = Some (lp_bid l) \<and>
          vh_observed_at h = Some (lp_observed_at l))
      | UNPRICED \<Rightarrow> vh_price h = None \<and> map_of stored (vh_symbol h) = None)"

lemma fresh_mark_positive: "fresh_mark env symb w = (Inr (Some m), w') \<Longrightarrow> 0 < m"
  by (auto simp: fresh_mark_def abind_def attempt_def split: prod.splits sum.splits option.splits if_splits)

lemma valued_fields:
  "vh_symbol (valued now stored symb p mark) = symb" "vh_quantity (valued now stored symb p mark) = pos_quantity p"
  "(\<And>m. mark = Some m \<Longrightarrow> 0 < m) \<Longrightarrow> priced_by stored (valued now stored symb p mark)"
  by (auto simp: valued_def priced_by_def split: option.splits)

lemma value_holdings_result:
  assumes "value_holdings env stored held (x, u, hs) w = (Inr (x', u', hs'), w')"
  shows "\<exists>new. hs' = hs @ new \<and> map (\<lambda>h. (vh_symbol h, vh_quantity h)) new = map (\<lambda>(k, p). (k, pos_quantity p)) held \<and>
    list_all (priced_by stored) new \<and> (u' \<longleftrightarrow> u \<or> \<not> list_all (\<lambda>h. vh_price h \<noteq> None) new) \<and>
    (list_all (\<lambda>h. vh_price h \<noteq> None) new \<longrightarrow> x' = foldl (\<lambda>x h. dadd x (holding_value h)) x new)"
  using assms
proof (induction held arbitrary: x u hs w)
  case (Cons kp held)
  obtain symb p where kp: "kp = (symb, p)" by (cases kp)
  obtain mark v where mark: "fresh_mark env symb w = (Inr mark, v)"
    using Cons.prems by (auto simp: kp abind_def split: prod.splits sum.splits)
  define h where "h = valued (eq_now env) stored symb p mark"
  have h: "vh_symbol h = symb" "vh_quantity h = pos_quantity p" "priced_by stored h"
    using mark by (auto simp: h_def valued_fields intro!: valued_fields(3) dest: fresh_mark_positive)
  define acc where "acc = (case vh_price h of None \<Rightarrow> (x, True, hs @ [h])
    | Some m \<Rightarrow> (dadd x (position_value p m), u, hs @ [h]))"
  have rest: "value_holdings env stored held acc v = (Inr (x', u', hs'), w')"
    using Cons.prems mark unfolding acc_def h_def by (simp add: kp abind_def Let_def)
  show ?case
  proof (cases "vh_price h")
    case None
    from Cons.IH[OF rest[unfolded acc_def None option.case]] obtain new where
      "hs' = (hs @ [h]) @ new" "map (\<lambda>h. (vh_symbol h, vh_quantity h)) new = map (\<lambda>(k, p). (k, pos_quantity p)) held"
      "list_all (priced_by stored) new" "u'" by auto
    then show ?thesis using h None by (intro exI[of _ "h # new"]) (simp add: kp)
  next
    case (Some m)
    have "holding_value h = position_value p m"
      by (simp add: holding_value_def Some h position_value_def)
    with Cons.IH[OF rest[unfolded acc_def Some option.case]] obtain new where
      "hs' = (hs @ [h]) @ new" "map (\<lambda>h. (vh_symbol h, vh_quantity h)) new = map (\<lambda>(k, p). (k, pos_quantity p)) held"
      "list_all (priced_by stored) new" "u' \<longleftrightarrow> u \<or> \<not> list_all (\<lambda>h. vh_price h \<noteq> None) new"
      "list_all (\<lambda>h. vh_price h \<noteq> None) new \<longrightarrow>
         x' = foldl (\<lambda>x h. dadd x (holding_value h)) (dadd x (holding_value h)) new" by auto
    then show ?thesis using h Some by (intro exI[of _ "h # new"]) (simp add: kp)
  qed
qed (simp add: aret_def)

lemma value_account_result:
  assumes "value_account env balances positions w = (Inr smp, w')"
  shows "map (\<lambda>h. (vh_symbol h, vh_quantity h)) (es_holdings smp) =
      map (\<lambda>(k, p). (k, pos_quantity p)) (held_positions positions) \<and>
    es_equity smp = account_value (snd (quote_cash balances (eq_quote_asset env))) (es_holdings smp) \<and>
    es_as_of smp = eq_now env \<and> (\<exists>stored. list_all (priced_by stored) (es_holdings smp))"
proof -
  obtain stored v x u hs where
    vals: "value_holdings env stored (held_positions positions) (0, False, []) v = (Inr (x, u, hs), w')"
    and smp: "smp = \<lparr>es_as_of = eq_now env, es_equity = (if u then None
      else Some (equity_value (snd (quote_cash balances (eq_quote_asset env))) x)), es_holdings = hs\<rparr>"
    using assms by (auto simp: value_account_def abind_def aret_def Let_def split: prod.splits sum.splits)
  show ?thesis using value_holdings_result[OF vals]
    by (auto simp: smp account_value_def equity_value_def)
qed

text \<open>
  A recorded equity counts every holding: the sample lists each held symbol with the broker's
  quantity, each priced by a positive quote of now or by the stored price; its equity is the cash, free
  and held, plus every holding at its mark, and it is unknown as soon as one holding has no price.
\<close>

theorem equity_counts_every_holding:
  assumes "take_sample env (Some state) w = (Inr (Some smp), w')"
  shows "map (\<lambda>h. (vh_symbol h, vh_quantity h)) (es_holdings smp) =
      map (\<lambda>(k, p). (k, pos_quantity p)) (held_positions (pf_positions state)) \<and>
    es_equity smp = account_value (snd (quote_cash (pf_balances state) (eq_quote_asset env))) (es_holdings smp) \<and>
    (\<exists>stored. list_all (priced_by stored) (es_holdings smp))"
proof -
  obtain v where "value_account env (pf_balances state) (pf_positions state) w = (Inr smp, v)"
    using assms by (auto simp: take_sample_def account_of_def or_else_def abind_def attempt_def aret_def athrow_def
        split: prod.splits sum.splits if_splits)
  from value_account_result[OF this] show ?thesis by simp
qed

section \<open>What sampling does to the database\<close>

definition newer_prices :: "last_price list \<Rightarrow> last_price list \<Rightarrow> bool" where
  "newer_prices old new \<longleftrightarrow> (\<forall>symb l. price_row symb old = Some l \<longrightarrow>
     (\<exists>n. price_row symb new = Some n \<and> lp_observed_at l \<le> lp_observed_at n))"

lemma newer_prices_refl: "newer_prices rows rows"
  by (auto simp: newer_prices_def)

lemma newer_prices_trans: "newer_prices a b \<Longrightarrow> newer_prices b c \<Longrightarrow> newer_prices a c"
  unfolding newer_prices_def by (metis order_trans)

lemma price_row_replaced:
  assumes "lp_symbol new = k"
  shows "price_row symb (map (\<lambda>r. if lp_symbol r = k then new else r) rows) =
    (if symb = k then map_option (\<lambda>_. new) (price_row k rows) else price_row symb rows)"
  using assms by (induction rows) (auto simp: price_row_def)

lemma put_price_newer: "newer_prices rows (put_price numeric price rows)"
proof (cases "price_row (lp_symbol price) rows")
  case None
  then show ?thesis
    by (auto simp: put_price_def newer_prices_def price_row_def find_append split: option.splits)
next
  case (Some row)
  let ?new = "price\<lparr>lp_bid := numeric (lp_bid price)\<rparr>"
  show ?thesis
  proof (cases "lp_observed_at row \<le> lp_observed_at price")
    case True
    then show ?thesis using Some price_row_replaced[of ?new "lp_symbol price" _ rows]
      by (auto simp: put_price_def newer_prices_def Let_def)
  next
    case False
    then show ?thesis using Some by (simp add: put_price_def Let_def newer_prices_refl)
  qed
qed

text \<open>Up to the final write a sample adds no row and only renews prices.\<close>

definition only_prices :: "equity_db \<Rightarrow> 'b \<times> equity_db \<Rightarrow> bool" where
  "only_prices s0 w \<longleftrightarrow> newer_prices (ed_prices s0) (ed_prices (snd w)) \<and>
     ed_snapshots (snd w) = ed_snapshots s0 \<and> ed_issued (snd w) = ed_issued s0"

abbreviation prices_triple :: "equity_db \<Rightarrow> (exn, 'b \<times> equity_db, 'x) act \<Rightarrow> bool" where
  "prices_triple s0 m \<equiv> triple (only_prices s0) m (\<lambda>_. only_prices s0) (\<lambda>_. only_prices s0)"

lemma prices_broker: "prices_triple s0 (sm_on_broker m)"
  by (auto simp: triple_def sm_on_broker_def only_prices_def split: prod.splits sum.splits)

lemma prices_record: "prices_triple s0 (sm_on_store (sqle_record numeric price))"
  unfolding triple_snd_iff
  by (auto simp: sm_on_store_def sqle_record_def ed_call_def only_prices_def Let_def
      intro: newer_prices_trans put_price_newer)

lemma prices_latest: "prices_triple s0 (sm_on_store (sqle_latest symbols))"
  unfolding triple_snd_iff
  by (auto simp: sm_on_store_def sqle_latest_def ed_call_def only_prices_def Let_def aret_def)

lemma prices_attempt:
  assumes "prices_triple s0 m"
  shows "prices_triple s0 (attempt m)"
  using assms unfolding triple_snd_iff by simp

lemma prices_or_else:
  assumes "prices_triple s0 m"
  shows "prices_triple s0 (or_else m x)"
  unfolding or_else_def
proof (rule triple_abind[OF prices_attempt[OF assms]])
  show "prices_triple s0 (case r of Inl exc \<Rightarrow> if is_store_error exc then aret x else athrow exc | Inr y \<Rightarrow> aret y)" for r
    by (cases r) (auto intro!: triple_if triple_aret triple_athrow)
qed

lemma prices_fresh_mark:
  assumes "eq_store env = sql_equity_ops uuid4 numeric"
  shows "prices_triple s0 (fresh_mark env symb)"
  unfolding fresh_mark_def
proof (rule triple_abind[OF prices_attempt[OF prices_broker]])
  have rec: "eo_record (eq_store env) = sqle_record numeric" by (simp add: assms sql_equity_ops_def)
  show "prices_triple s0 (case r of Inl _ \<Rightarrow> aret None
      | Inr q \<Rightarrow> (case mark_from_quote q symb of None \<Rightarrow> aret None
         | Some mark \<Rightarrow> if mark \<le> 0 then aret None
             else abind (or_else (sm_on_store (eo_record (eq_store env)
                       \<lparr>lp_symbol = symb, lp_bid = mark, lp_observed_at = q_as_of q, lp_source = take 64 (q_source q)\<rparr>)) ())
                     (\<lambda>_. aret (Some mark))))" for r
    unfolding rec
    by (auto split: sum.splits option.splits
        intro!: triple_if triple_aret triple_abind[OF prices_or_else[OF prices_record]])
qed

lemma prices_value_holdings:
  assumes "eq_store env = sql_equity_ops uuid4 numeric"
  shows "prices_triple s0 (value_holdings env stored held acc)"
proof (induction held arbitrary: acc)
  case Nil
  show ?case unfolding value_holdings.simps by (rule triple_aret)
next
  case (Cons kp held)
  obtain x u hs where acc: "acc = (x, u, hs)" by (cases acc)
  show ?case unfolding acc
    by (cases kp) (auto simp: Let_def intro!: triple_abind[OF prices_fresh_mark[OF assms]] Cons.IH)
qed

lemma prices_value_account:
  assumes "eq_store env = sql_equity_ops uuid4 numeric"
  shows "prices_triple s0 (value_account env balances positions)"
  unfolding value_account_def Let_def stored_prices_def
proof (rule triple_abind)
  show "prices_triple s0 (or_else (sm_on_store (eo_latest (eq_store env) symbols)) [])" for symbols
    by (simp add: assms sql_equity_ops_def prices_or_else prices_latest)
  show "prices_triple s0 (abind (value_holdings env stored (held_positions positions) (0, False, []))
      (\<lambda>(exposure, unpriced, holdings). aret (f exposure unpriced holdings)))" for stored f
    by (rule triple_abind[OF prices_value_holdings[OF assms]]) (auto intro: triple_aret)
qed

lemma prices_sampled:
  assumes "eq_store env = sql_equity_ops uuid4 numeric"
  shows "prices_triple s0 (abind (account_of env state) (\<lambda>(balances, positions). value_account env balances positions))"
proof (rule triple_abind)
  show "prices_triple s0 (account_of env state)"
    unfolding account_of_def
    by (auto split: option.splits intro!: triple_aret triple_abind[OF prices_broker])
  show "prices_triple s0 (case x of (balances, positions) \<Rightarrow> value_account env balances positions)" for x
    by (cases x) (simp add: prices_value_account[OF assms])
qed

text \<open>
  Sampling never raises and writes only what it reports: whatever the broker does and whichever
  database call fails, the call returns, a stored price is only ever replaced by one observed no
  earlier, and exactly one snapshot row is added when a sample is returned, with its value and marked
  partial exactly when that is unknown, and none otherwise.
\<close>

theorem sampling_never_raises_and_keeps_newest_prices:
  assumes "eq_store env = sql_equity_ops uuid4 numeric" and "take_sample env state (b, s) = (r, (b', s'))"
  shows "\<exists>recorded. r = Inr recorded \<and> newer_prices (ed_prices s) (ed_prices s') \<and>
    ed_snapshots s' = ed_snapshots s @
      (case recorded of None \<Rightarrow> [] | Some smp \<Rightarrow>
        [\<lparr>eqr_snapshot_id = uuid4 (ed_issued s), eqr_equity = map_option numeric (es_equity smp),
          eqr_as_of = es_as_of smp, eqr_source = eq_source env, eqr_partial = (es_equity smp = None)\<rparr>])"
proof -
  let ?m = "abind (account_of env state) (\<lambda>(balances, positions). value_account env balances positions)"
  obtain q c t where first: "?m (b, s) = (q, (c, t))" by (cases "?m (b, s)") auto
  have "only_prices s (b, s)" by (simp add: only_prices_def newer_prices_refl)
  then have "only_prices s (snd (?m (b, s)))"
    using prices_sampled[OF assms(1), of s state] unfolding triple_snd_iff by blast
  then have t: "newer_prices (ed_prices s) (ed_prices t)" "ed_snapshots t = ed_snapshots s" "ed_issued t = ed_issued s"
    by (simp_all add: first only_prices_def)
  show ?thesis
  proof (cases q)
    case (Inl exc)
    then have "r = Inr None" "s' = t"
      using assms(2) by (auto simp: take_sample_def abind_def attempt_def first[unfolded abind_def] aret_def)
    then show ?thesis using t by simp
  next
    case (Inr smp)
    have "(r, (b', s')) = or_else (abind (sm_on_store (sqle_save uuid4 numeric smp (eq_source env))) (\<lambda>_. aret (Some smp)))
        None (c, t)"
      using assms by (simp add: take_sample_def abind_def[of "attempt _"] attempt_def first Inr sql_equity_ops_def)
    then show ?thesis using t
      by (cases "ed_failures t \<noteq> [] \<and> hd (ed_failures t)")
        (auto simp: or_else_def abind_def attempt_def sm_on_store_def sqle_save_def ed_call_def aret_def Let_def es_partial_def)
  qed
qed

section \<open>When a change is shown\<close>

lemma earlier_row_least:
  assumes "fold earlier_row rows best = Some first"
  shows "(first \<in> set rows \<or> best = Some first) \<and> (\<forall>r \<in> set rows. eqr_as_of first \<le> eqr_as_of r) \<and>
    (\<forall>c. best = Some c \<longrightarrow> eqr_as_of first \<le> eqr_as_of c)"
  using assms
proof (induction rows arbitrary: best)
  case (Cons r rows)
  from Cons.IH[of "earlier_row r best"] Cons.prems show ?case
    by (cases best) (auto simp: earlier_row_def split: if_splits)
qed simp

lemma later_row_greatest:
  assumes "fold later_row rows best = Some latest"
  shows "(latest \<in> set rows \<or> best = Some latest) \<and> (\<forall>r \<in> set rows. eqr_as_of r \<le> eqr_as_of latest) \<and>
    (\<forall>c. best = Some c \<longrightarrow> eqr_as_of c \<le> eqr_as_of latest)"
  using assms
proof (induction rows arbitrary: best)
  case (Cons r rows)
  from Cons.IH[of "later_row r best"] Cons.prems show ?case
    by (cases best) (auto simp: later_row_def split: if_splits)
qed simp

lemma pnl_of_rows_current:
  assumes "dp_status (pnl_of_rows env first latest holdings) = Current"
  shows "eqr_snapshot_id first \<noteq> eqr_snapshot_id latest \<and> pn_now env - eqr_as_of latest \<le> pn_stale_after env \<and>
    \<not> eqr_partial first \<and> \<not> eqr_partial latest \<and>
    (\<exists>e1 e2. eqr_equity first = Some e1 \<and> eqr_equity latest = Some e2 \<and>
      dp_amount (pnl_of_rows env first latest holdings) = Some (dsub e2 e1))"
  using assms
  by (auto simp: pnl_of_rows_def pnl_unavailable_def change_since_def split: if_splits bool.splits option.splits)

text \<open>
  A day's change is shown only when it is real: it is the difference between the latest and the
  first snapshot of the UTC day, which are two different snapshots, both with every holding priced,
  the latest no older than the limit.
\<close>

theorem day_change_needs_two_priced_snapshots:
  assumes "dp_status (read_day_pnl env db_fails s) = Current"
  shows "\<exists>first latest e1 e2. first \<in> set (ed_snapshots s) \<and> latest \<in> set (ed_snapshots s) \<and>
    eqr_snapshot_id first \<noteq> eqr_snapshot_id latest \<and>
    day_start (pn_now env) \<le> eqr_as_of first \<and> eqr_as_of latest < day_start (pn_now env) + day_length \<and>
    (\<forall>r \<in> set (rows_today (pn_now env) (ed_snapshots s)). eqr_as_of first \<le> eqr_as_of r \<and> eqr_as_of r \<le> eqr_as_of latest) \<and>
    pn_now env - eqr_as_of latest \<le> pn_stale_after env \<and>
    \<not> eqr_partial first \<and> eqr_equity first = Some e1 \<and> \<not> eqr_partial latest \<and> eqr_equity latest = Some e2 \<and>
    dp_amount (read_day_pnl env db_fails s) = Some (dsub e2 e1)"
proof -
  let ?today = "rows_today (pn_now env) (ed_snapshots s)"
  obtain first latest where ends: "fold earlier_row ?today None = Some first" "fold later_row ?today None = Some latest"
    and pnl: "read_day_pnl env db_fails s = pnl_of_rows env first latest (ed_holdings s)"
    using assms by (auto simp: read_day_pnl_def pnl_unavailable_def Let_def split: if_splits option.splits)
  have "first \<in> set ?today" "latest \<in> set ?today"
    "\<forall>r \<in> set ?today. eqr_as_of first \<le> eqr_as_of r \<and> eqr_as_of r \<le> eqr_as_of latest"
    using earlier_row_least[OF ends(1)] later_row_greatest[OF ends(2)] by auto
  moreover from this have "first \<in> set (ed_snapshots s)" "latest \<in> set (ed_snapshots s)"
    "day_start (pn_now env) \<le> eqr_as_of first" "eqr_as_of latest < day_start (pn_now env) + day_length"
    by (auto simp: rows_today_def)
  ultimately show ?thesis
    using pnl_of_rows_current[OF assms[unfolded pnl]] unfolding pnl by blast
qed

section \<open>Examples\<close>

definition sample_holding :: portfolio_state where
  "sample_holding = \<lparr>pf_orders = [], pf_fills = [],
     pf_positions = [\<lparr>pos_symbol = ''A-U'', pos_quantity = 2, pos_average_price = None, pos_as_of = 0\<rparr>],
     pf_balances = [sample_cash 100]\<rparr>"

definition quoted_at :: "rat \<Rightarrow> sim_broker broker_ops" where
  "quoted_at x = (sim_ops 0)\<lparr>bo_get_quote := (\<lambda>symb b. (Inr \<lparr>q_symbol = symb, q_bid = x, q_ask = x, q_as_of = 5,
     q_source = ''venue'', q_received_at = 5\<rparr>, b))\<rparr>"

definition sample_sampler :: "(sim_broker, equity_db) sampler_env" where
  "sample_sampler = \<lparr>eq_broker = quoted_at 3, eq_store = sql_equity_ops sample_ids id, eq_quote_asset = ''U'',
     eq_source = ''broker'', eq_now = 9\<rparr>"

definition sample_edb :: equity_db where
  "sample_edb = \<lparr>ed_prices = [], ed_snapshots = [], ed_holdings = [], ed_issued = 0, ed_failures = []\<rparr>"

lemma take_sample_run:
  "\<exists>smp w'. take_sample sample_sampler (Some sample_holding) (sample_broker [], sample_edb) = (Inr (Some smp), w')"
  by (simp add: take_sample_def account_of_def value_account_def stored_prices_def or_else_def attempt_def abind_def
      aret_def sm_on_store_def sm_on_broker_def sample_sampler_def sql_equity_ops_def sqle_latest_def sqle_record_def
      sqle_save_def ed_call_def Let_def sample_edb_def sample_holding_def held_positions_def dict_of_def fresh_mark_def
      quoted_at_def mark_from_quote_def valued_def)

theorem equity_counts_every_holding_witness:
  "\<exists>smp w'. take_sample sample_sampler (Some sample_holding) (sample_broker [], sample_edb) = (Inr (Some smp), w') \<and>
     map (\<lambda>h. (vh_symbol h, vh_quantity h)) (es_holdings smp) = [(''A-U'', 2)]"
proof -
  obtain smp w' where run: "take_sample sample_sampler (Some sample_holding) (sample_broker [], sample_edb) = (Inr (Some smp), w')"
    using take_sample_run by blast
  have holdings: "map (\<lambda>h. (vh_symbol h, vh_quantity h)) (es_holdings smp) = [(''A-U'', 2)]"
    using equity_counts_every_holding[OF run, THEN conjunct1]
    by (simp add: sample_holding_def held_positions_def dict_of_def)
  show ?thesis by (rule exI, rule exI, rule conjI, rule run, rule holdings)
qed

theorem sampling_never_raises_and_keeps_newest_prices_witness:
  "\<exists>recorded b' s'. take_sample sample_sampler None (sample_broker [], sample_edb) = (Inr recorded, (b', s')) \<and>
     newer_prices [] (ed_prices s')"
proof -
  obtain r b' s' where run: "take_sample sample_sampler None (sample_broker [], sample_edb) = (r, (b', s'))"
    by (metis prod.exhaust)
  have "eq_store sample_sampler = sql_equity_ops sample_ids id" by (simp add: sample_sampler_def)
  from sampling_never_raises_and_keeps_newest_prices[OF this run] run show ?thesis
    by (auto simp: sample_edb_def)
qed

definition sample_row :: "nat \<Rightarrow> rat \<Rightarrow> equity_row" where
  "sample_row n e = \<lparr>eqr_snapshot_id = sample_ids n, eqr_equity = Some e, eqr_as_of = int n, eqr_source = ''broker'',
     eqr_partial = False\<rparr>"

definition sample_pnl_env :: pnl_env where
  "sample_pnl_env = \<lparr>pn_stale_after = 60, pn_quote_asset = ''U'', pn_now = 9, pn_stamp = (\<lambda>_. []), pn_amount_text = (\<lambda>_. [])\<rparr>"

lemma sample_pnl_current:
  "dp_status (read_day_pnl sample_pnl_env False (sample_edb\<lparr>ed_snapshots := [sample_row 1 100, sample_row 2 106]\<rparr>)) = Current"
  by (simp add: read_day_pnl_def sample_pnl_env_def sample_edb_def sample_row_def rows_today_def day_start_def day_length_def
      microseconds_def earlier_row_def later_row_def pnl_of_rows_def change_since_def sample_ids_def numeral_2_eq_2)

theorem day_change_needs_two_priced_snapshots_witness:
  "\<exists>e1 e2. dp_amount (read_day_pnl sample_pnl_env False
      (sample_edb\<lparr>ed_snapshots := [sample_row 1 100, sample_row 2 106]\<rparr>)) = Some (dsub e2 e1)"
  using day_change_needs_two_priced_snapshots[OF sample_pnl_current] by blast

end
