(* ===== verification/FillCost.thy ===== *)
theory FillCost
  imports OrderStore Ledger
begin

text \<open>
  Two figures the program derives from its own saved fills, for display only: the average price of a
  position (\<^verbatim>\<open>portfolio/fill_cost.py\<close>) and the itemised explanation of a projected balance
  (\<^verbatim>\<open>portfolio/explain.py\<close>). The average is tried under two readings of the fee; the main result
  is that the two cannot disagree. A row's side is already an \<open>order_side\<close>, so \<^verbatim>\<open>OrderSide(side)\<close>
  does not fail.
\<close>

section \<open>The average price from saved fills\<close>

definition NO_FILLS :: string where
  "NO_FILLS = ''this system has no saved fills for it''"

definition NOT_COVERED :: string where
  "NOT_COVERED = ''the position includes units our saved fills do not cover''"

definition EXCESS :: string where
  "EXCESS = ''our saved fills record more units than the broker holds''"

definition UNREADABLE :: string where
  "UNREADABLE = ''our saved fills could not be read''"

record fill_cost =
  fc_symbol :: string
  fc_quantity :: rat
  fc_average_price :: "rat option"
  fc_reason :: "string option"

definition fc_unknown :: "string \<Rightarrow> rat \<Rightarrow> string \<Rightarrow> fill_cost" where
  "fc_unknown symb quantity reason =
     \<lparr>fc_symbol = symb, fc_quantity = quantity, fc_average_price = None, fc_reason = Some reason\<rparr>"

record saved_fill =
  sf_fill_id :: string
  sf_occurred_at :: datetime
  sf_side :: order_side
  sf_quantity :: rat
  sf_price :: rat
  sf_fee :: rat

text \<open>One step of \<^verbatim>\<open>_walk\<close>: a quantity that falls below zero restarts the walk.\<close>

definition restart_below_zero :: "rat \<times> rat option \<Rightarrow> rat \<times> rat option" where
  "restart_below_zero s = (if fst s < 0 then (0, None) else s)"

definition next_average :: "rat \<Rightarrow> rat option \<Rightarrow> saved_fill \<Rightarrow> exn + rat" where
  "next_average quantity average f =
     (let notional = dmul (sf_quantity f) (sf_price f) in
      case average of
        Some a \<Rightarrow>
          if quantity = 0 then lift_arith (ddiv notional (sf_quantity f))
          else lift_arith (ddiv (dadd (dmul quantity a) notional) (dadd quantity (sf_quantity f)))
      | None \<Rightarrow> lift_arith (ddiv notional (sf_quantity f)))"

definition walk_step :: "bool \<Rightarrow> saved_fill \<Rightarrow> rat \<times> rat option \<Rightarrow> exn + rat \<times> rat option" where
  "walk_step fee_in_base f s =
     (case s of (quantity, average) \<Rightarrow>
        let base_fee = (if fee_in_base then sf_fee f else 0) in
        if sf_side f = BUY
        then rbind (next_average quantity average f) (\<lambda>a.
               Inr (restart_below_zero (dsub (dadd quantity (sf_quantity f)) base_fee, Some a)))
        else Inr (restart_below_zero (dsub quantity (dadd (sf_quantity f) base_fee), average)))"

definition walk :: "bool \<Rightarrow> saved_fill list \<Rightarrow> exn + rat \<times> rat option" where
  "walk fee_in_base fills =
     rbind (rfold (walk_step fee_in_base) fills (0, None)) (\<lambda>(quantity, average).
       Inr (quantity, if 0 < quantity then average else None))"

definition matching :: "rat \<Rightarrow> (rat \<times> rat option) list \<Rightarrow> rat option" where
  "matching held readings =
     (case List.find (\<lambda>(quantity, average). quantity = held \<and> average \<noteq> None) readings of
        Some (_, average) \<Rightarrow> average | None \<Rightarrow> None)"

definition walk_order :: "saved_fill list \<Rightarrow> saved_fill list" where
  "walk_order fills = sort_key (\<lambda>f. (sf_occurred_at f, sf_fill_id f)) fills"

definition fee_readings :: "saved_fill list \<Rightarrow> exn + (rat \<times> rat option) list" where
  "fee_readings ordered =
     rbind (walk False ordered) (\<lambda>plain.
       if list_ex (\<lambda>f. 0 < sf_fee f) ordered then rbind (walk True ordered) (\<lambda>netted. Inr [plain, netted])
       else Inr [plain])"

definition cost_from_fills :: "string \<Rightarrow> rat \<Rightarrow> saved_fill list \<Rightarrow> exn + fill_cost" where
  "cost_from_fills symb held fills =
     (if fills = [] then Inr (fc_unknown symb held NO_FILLS)
      else rbind (fee_readings (walk_order fills)) (\<lambda>readings.
        Inr (case matching held readings of
               Some price \<Rightarrow> \<lparr>fc_symbol = symb, fc_quantity = held, fc_average_price = Some price, fc_reason = None\<rparr>
             | None \<Rightarrow> fc_unknown symb held (if held < fst (hd readings) then EXCESS else NOT_COVERED))))"

text \<open>The reader: the fills of the database joined with their orders, by symbol.\<close>

definition saved_fills_of :: "string \<Rightarrow> order_db \<Rightarrow> saved_fill list" where
  "saved_fills_of symb s =
     [\<lparr>sf_fill_id = fr_broker_fill_id r, sf_occurred_at = fr_occurred_at r, sf_side = the (or_side rec),
       sf_quantity = fr_quantity r, sf_price = fr_price r, sf_fee = fr_fee r\<rparr>.
      r \<leftarrow> db_fills s, rec \<leftarrow> db_orders s,
      or_order_id rec = fr_order_id r \<and> or_symbol rec = Some symb \<and> or_side rec \<noteq> None]"

definition wanted_positions :: "position list \<Rightarrow> (string, rat) dict" where
  "wanted_positions ps =
     dict_of (map (\<lambda>p. (pos_symbol p, pos_quantity p)) (filter (\<lambda>p. pos_average_price p = None) ps))"

fun cost_each :: "order_db \<Rightarrow> (string, rat) dict \<Rightarrow> exn + (string, fill_cost) dict" where
  "cost_each s [] = Inr []"
| "cost_each s ((symb, quantity) # rest) =
     rbind (cost_from_fills symb quantity (saved_fills_of symb s)) (\<lambda>c.
     rbind (cost_each s rest) (\<lambda>cs. Inr ((symb, c) # cs)))"

definition read_fill_costs :: "position list \<Rightarrow> bool \<Rightarrow> order_db \<Rightarrow> exn + (string, fill_cost) dict" where
  "read_fill_costs ps db_fails s =
     (let wanted = wanted_positions ps in
      if wanted = [] then Inr []
      else if db_fails then Inr (map (\<lambda>(symb, quantity). (symb, fc_unknown symb quantity UNREADABLE)) wanted)
      else cost_each s wanted)"

section \<open>The two readings of a fee agree\<close>

text \<open>
  The amounts a venue reports are whole multiples of a power of ten; as long as the running total
  stays below \<open>10\<^sup>2\<^sup>8\<close> of these units the decimal arithmetic on quantities is exact. \<open>room\<close> bounds
  everything the fills can add up to.
\<close>

definition units :: "nat \<Rightarrow> rat \<Rightarrow> bool" where
  "units k x \<longleftrightarrow> x * 10 ^ k \<in> \<int>"

definition on_grid :: "nat \<Rightarrow> saved_fill \<Rightarrow> bool" where
  "on_grid k f \<longleftrightarrow> units k (sf_quantity f) \<and> units k (sf_fee f) \<and> 0 < sf_quantity f \<and> 0 \<le> sf_fee f"

definition room :: "saved_fill list \<Rightarrow> rat" where
  "room fs = (\<Sum>f\<leftarrow>fs. sf_quantity f + sf_fee f)"

lemma units_add: "units k x \<Longrightarrow> units k y \<Longrightarrow> units k (x + y)"
  and units_diff: "units k x \<Longrightarrow> units k y \<Longrightarrow> units k (x - y)"
  by (simp_all add: units_def distrib_right left_diff_distrib)

lemma units_exact:
  assumes "units k x" "\<bar>x\<bar> * 10 ^ k < 10 ^ 28"
  shows "dec x = x"
  using assms unfolding units_def by (rule dec_grid)

text \<open>
  The relation between the two walks after the same fills: the reading that nets fees never holds
  more, and where both hold the same they have the same average.
\<close>

definition in_step :: "nat \<Rightarrow> rat \<Rightarrow> rat \<times> rat option \<Rightarrow> rat \<times> rat option \<Rightarrow> bool" where
  "in_step k bound p n \<longleftrightarrow>
     units k (fst p) \<and> units k (fst n) \<and> 0 \<le> fst n \<and> fst n \<le> fst p \<and> fst p \<le> bound \<and>
     (fst n = fst p \<longrightarrow> 0 < fst p \<longrightarrow> snd n = snd p)"

lemma next_average_cong:
  assumes "q' = q" "0 < q \<longrightarrow> a' = a" "0 \<le> q"
  shows "next_average q' a' f = next_average q a f"
  using assms by (auto simp: next_average_def Let_def split: option.splits)

lemma walk_steps_in_step:
  assumes grid: "on_grid k f" and small: "(bound + sf_quantity f + sf_fee f) * 10 ^ k < 10 ^ 28"
    and rel: "in_step k bound p n"
    and steps: "walk_step False f p = Inr p'" "walk_step True f n = Inr n'"
  shows "in_step k (bound + sf_quantity f + sf_fee f) p' n'"
proof -
  obtain q a m b where pn: "p = (q, a)" "n = (m, b)" by (cases p, cases n)
  let ?x = "sf_quantity f" and ?e = "sf_fee f"
  have x: "units k ?x" "units k ?e" "0 < ?x" "0 \<le> ?e" using grid by (auto simp: on_grid_def)
  have r: "units k q" "units k m" "0 \<le> m" "m \<le> q" "q \<le> bound" "m = q \<longrightarrow> 0 < q \<longrightarrow> b = a"
    using rel by (auto simp: in_step_def pn)
  have exact: "dec y = y" if "units k y" "\<bar>y\<bar> \<le> bound + ?x + ?e" for y
  proof (rule units_exact[OF that(1)])
    have "\<bar>y\<bar> * 10 ^ k \<le> (bound + ?x + ?e) * 10 ^ k" using that(2) by (intro mult_right_mono) auto
    then show "\<bar>y\<bar> * 10 ^ k < 10 ^ 28" using small by linarith
  qed
  have sums: "units k (q + ?x)" "units k (m + ?x)" "units k (?x + ?e)" "units k (m + ?x - ?e)"
    "units k (q - ?x)" "units k (m - (?x + ?e))"
    using x r by (auto intro: units_add units_diff)
  have zero: "units k 0" by (simp add: units_def)
  show ?thesis
  proof (cases "sf_side f = BUY")
    case True
    have plain: "dsub (dadd q ?x) 0 = q + ?x" "dsub (dadd m ?x) ?e = m + ?x - ?e"
      using x r sums by (auto simp: dsub_def dadd_def exact)
    obtain c where c: "next_average q a f = Inr c" "p' = restart_below_zero (q + ?x, Some c)"
      using steps(1) True by (auto simp: walk_step_def pn plain Let_def rbind_Inr_iff)
    obtain d where d: "next_average m b f = Inr d" "n' = restart_below_zero (m + ?x - ?e, Some d)"
      using steps(2) True by (auto simp: walk_step_def pn plain Let_def rbind_Inr_iff)
    have "d = c" if "m + ?x - ?e = q + ?x"
    proof -
      have "m = q" using that r x by linarith
      then show ?thesis using next_average_cong[of m q b a f] c d r by simp
    qed
    then show ?thesis using x r sums zero
      by (auto simp: c(2) d(2) restart_below_zero_def in_step_def)
  next
    case False
    have plain: "dsub q (dadd ?x 0) = q - ?x" "dsub m (dadd ?x ?e) = m - (?x + ?e)"
      using x r sums by (auto simp: dsub_def dadd_def exact)
    have p': "p' = restart_below_zero (q - ?x, a)" and n': "n' = restart_below_zero (m - (?x + ?e), b)"
      using steps False by (auto simp: walk_step_def pn plain Let_def)
    show ?thesis using x r sums zero
      by (auto simp: p' n' restart_below_zero_def in_step_def)
  qed
qed

lemma walks_in_step:
  assumes "list_all (on_grid k) fs" "(bound + room fs) * 10 ^ k < 10 ^ 28" "in_step k bound p n"
    and "rfold (walk_step False) fs p = Inr p'" "rfold (walk_step True) fs n = Inr n'"
  shows "in_step k (bound + room fs) p' n'"
  using assms
proof (induction fs arbitrary: bound p n)
  case (Cons f fs)
  obtain q m where one: "walk_step False f p = Inr q" "rfold (walk_step False) fs q = Inr p'"
    "walk_step True f n = Inr m" "rfold (walk_step True) fs m = Inr n'"
    using Cons.prems(4,5) by (auto split: sum.splits)
  have room: "bound + room (f # fs) = bound + sf_quantity f + sf_fee f + room fs" by (simp add: room_def)
  have "0 \<le> room fs"
    using Cons.prems(1) unfolding room_def by (intro sum_list_nonneg) (auto simp: on_grid_def list_all_iff)
  then have "(bound + sf_quantity f + sf_fee f) * 10 ^ k \<le> (bound + room (f # fs)) * 10 ^ k"
    unfolding room by (intro mult_right_mono) auto
  then have "(bound + sf_quantity f + sf_fee f) * 10 ^ k < 10 ^ 28" using Cons.prems(2) by linarith
  then have "in_step k (bound + sf_quantity f + sf_fee f) q m"
    using Cons.prems(1,3) one by (intro walk_steps_in_step) auto
  then show ?case using Cons.prems(1,2) one unfolding room by (intro Cons.IH) auto
qed (simp add: room_def)

lemma walk_end:
  assumes "walk fee_in_base fs = Inr (held, Some p)"
  shows "rfold (walk_step fee_in_base) fs (0, None) = Inr (held, Some p)" "0 < held"
  using assms by (auto simp: walk_def rbind_def split: sum.splits if_splits)

text \<open>
  The two readings of the fees cannot both match with different prices: when the walk that
  ignores fees and the walk that nets them both end on the same quantity with an average, the
  averages are equal, so the price that is reported does not depend on the order in which the
  readings are tried.
\<close>

theorem fee_readings_never_disagree:
  assumes "list_all (on_grid k) fills" and "room fills * 10 ^ k < 10 ^ 28"
    and "walk False (walk_order fills) = Inr (held, Some p)" and "walk True (walk_order fills) = Inr (held, Some q)"
  shows "p = q"
proof -
  let ?fs = "walk_order fills"
  have "room ?fs = room fills"
    by (simp add: room_def walk_order_def flip: sum_mset_sum_list)
  moreover have "list_all (on_grid k) ?fs" using assms(1) by (simp add: walk_order_def list_all_iff)
  ultimately have ok: "list_all (on_grid k) ?fs" "(0 + room ?fs) * 10 ^ k < 10 ^ 28" using assms(2) by simp_all
  note ends = walk_end[OF assms(3)] walk_end[OF assms(4)]
  have "in_step k 0 (0, None) (0, None)" by (simp add: in_step_def units_def)
  from walks_in_step[OF ok this ends(1,3)] ends(2) show ?thesis by (simp add: in_step_def)
qed

definition sample_fill_paid :: "string \<Rightarrow> order_side \<Rightarrow> rat \<Rightarrow> rat \<Rightarrow> rat \<Rightarrow> saved_fill" where
  "sample_fill_paid i side quantity price fee = \<lparr>sf_fill_id = i, sf_occurred_at = 0, sf_side = side,
     sf_quantity = quantity, sf_price = price, sf_fee = fee\<rparr>"

text \<open>A fee that is netted empties the holding early; from there the readings agree on two units at seven.\<close>

definition sample_paid :: "saved_fill list" where
  "sample_paid = [sample_fill_paid ''a'' BUY 3 5 1, sample_fill_paid ''b'' SELL 3 6 0, sample_fill_paid ''c'' BUY 2 7 0]"

lemma sample_walks: "walk b (walk_order sample_paid) = Inr (2, Some 7)"
  by (cases b) (simp_all add: walk_order_def sample_paid_def sample_fill_paid_def walk_def walk_step_def rbind_def
      next_average_def restart_below_zero_def Let_def dec_op_defs)

theorem fee_readings_never_disagree_witness:
  "walk False (walk_order sample_paid) = Inr (2, Some 7) \<and> (7::rat) = 7"
  using fee_readings_never_disagree[of 0 sample_paid 2 7 7] sample_walks
  by (simp add: sample_paid_def sample_fill_paid_def on_grid_def units_def room_def)

section \<open>Explaining a projected balance\<close>

record item =
  it_label :: string
  it_amount :: rat

record asset_explanation =
  ax_asset :: string
  ax_before :: rat
  ax_items :: "item list"
  ax_exact :: rat
  ax_rounding :: rat
  ax_projected :: rat
  ax_broker :: rat
  ax_difference :: rat

text \<open>\<open>reference\<close> is \<^verbatim>\<open>fill_reference\<close>, the end of the identifier.\<close>

definition fill_items :: "(string \<Rightarrow> string) \<Rightarrow> string \<Rightarrow> string \<Rightarrow> fill \<Rightarrow> (string \<times> item) list" where
  "fill_items reference base quote f =
     (let label = (\<lambda>what. ''fill '' @ reference (fill_fill_id f) @ what) in
      [(base, \<lparr>it_label = label '' quantity'', it_amount = dmul (side_sign (fill_side f)) (fill_quantity f)\<rparr>),
       (quote, \<lparr>it_label = label ('' quantity '' @ [CHR 0xD7] @ '' price''),
                it_amount = dmul (dmul (dneg (side_sign (fill_side f))) (fill_quantity f)) (fill_price f)\<rparr>),
       (fill_fee_asset f, \<lparr>it_label = label '' fee'', it_amount = dneg (fill_fee f)\<rparr>)])"

definition add_item :: "string \<times> item \<Rightarrow> (string, item list) dict \<Rightarrow> (string, item list) dict" where
  "add_item ai d = (case ai of (asset, i) \<Rightarrow> AList.update asset (dict_get d asset [] @ [i]) d)"

definition collect_fill :: "(string \<Rightarrow> string) \<Rightarrow> fill \<Rightarrow> (string, item list) dict \<Rightarrow> exn + (string, item list) dict" where
  "collect_fill reference f d =
     (case split_hyphen (fill_symbol f) of
        None \<Rightarrow> Inl (ValueError ''not enough values to unpack'')
      | Some (base, quote) \<Rightarrow> Inr (fold add_item (fill_items reference base quote f) d))"

definition explain_asset :: "portfolio_state \<Rightarrow> portfolio_state \<Rightarrow> portfolio_state \<Rightarrow> string \<times> item list \<Rightarrow> asset_explanation" where
  "explain_asset before projected after ai =
     (case ai of (asset, items) \<Rightarrow>
        let start = available_of (pf_balances before) asset;
            exact = dadd start (dsum (map it_amount items));
            final = available_of (pf_balances projected) asset;
            broker = available_of (pf_balances after) asset
        in \<lparr>ax_asset = asset, ax_before = start, ax_items = items, ax_exact = exact, ax_rounding = dsub final exact,
            ax_projected = final, ax_broker = broker, ax_difference = dsub broker final\<rparr>)"

definition explain_window ::
  "(string \<Rightarrow> string) \<Rightarrow> datetime \<Rightarrow> amounts \<Rightarrow> portfolio_state \<Rightarrow> portfolio_state \<Rightarrow> fill list \<Rightarrow>
     exn + asset_explanation list"
where
  "explain_window reference now increments before after fills =
     (let ordered = sort_key fill_key fills in
      rbind (apply_fills now increments before ordered) (\<lambda>projected.
      rbind (rfold (collect_fill reference) ordered []) (\<lambda>items.
        Inr (map (explain_asset before projected after) (sort_key fst items)))))"

text \<open>Every asset a fill moves is explained; an asset that is not explained did not move.\<close>

lemma fold_add_item_keys: "fst ` set (fold add_item ais d) = fst ` set d \<union> fst ` set ais"
proof (induction ais arbitrary: d)
  case (Cons ai ais)
  have "fst ` set (add_item ai d) = insert (fst ai) (fst ` set d)"
    by (cases ai) (simp add: add_item_def dom_update)
  then show ?case using Cons[of "add_item ai d"] by simp
qed simp

lemma fill_items_keys: "map fst (fill_items reference base quote f) = map fst (movements base quote f)"
  by (simp add: fill_items_def movements_def Let_def)

lemma collected_assets:
  assumes "rfold (collect_fill reference) fs d = Inr items"
  shows "fst ` set d \<subseteq> fst ` set items" "f \<in> set fs \<Longrightarrow> asset_moves a f \<noteq> [] \<Longrightarrow> a \<in> fst ` set items"
proof -
  have "fst ` set d \<subseteq> fst ` set items \<and> (\<forall>f \<in> set fs. asset_moves a f \<noteq> [] \<longrightarrow> a \<in> fst ` set items)"
    using assms
  proof (induction fs arbitrary: d)
    case (Cons g fs)
    obtain base quote where g: "split_hyphen (fill_symbol g) = Some (base, quote)"
      and rest: "rfold (collect_fill reference) fs (fold add_item (fill_items reference base quote g) d) = Inr items"
      using Cons.prems by (auto simp: collect_fill_def[of reference g] split: option.splits)
    have keys: "fst ` set (fold add_item (fill_items reference base quote g) d) =
      fst ` set d \<union> fst ` set (movements base quote g)"
      unfolding fold_add_item_keys using fill_items_keys[of reference base quote g] by (metis set_map)
    have "a \<in> fst ` set (movements base quote g)" if "asset_moves a g \<noteq> []"
      using that by (force simp: asset_moves_def g filter_empty_conv)
    then show ?case using Cons.IH[OF rest] unfolding keys by auto
  qed simp
  then show "fst ` set d \<subseteq> fst ` set items" "f \<in> set fs \<Longrightarrow> asset_moves a f \<noteq> [] \<Longrightarrow> a \<in> fst ` set items"
    by auto
qed

lemma unexplained_assets_did_not_move:
  assumes run: "explain_window reference now inc before after fills = Inr es"
    and projected: "apply_fills now inc before (sort_key fill_key fills) = Inr p"
    and "a \<notin> ax_asset ` set es"
  shows "available_of (pf_balances p) a = available_of (pf_balances before) a"
proof -
  obtain items where items: "rfold (collect_fill reference) (sort_key fill_key fills) [] = Inr items"
    and es: "es = map (explain_asset before p after) (sort_key fst items)"
    using run projected by (auto simp: explain_window_def Let_def rbind_def split: sum.splits)
  have "a \<notin> fst ` set items"
    using assms(3) by (force simp: es explain_asset_def Let_def split_beta)
  then have "asset_moves a f = []" if "f \<in> set fills" for f
    using collected_assets(2)[OF items, of f a] that by auto
  then have none: "concat (map (asset_moves a) (sort_key fill_key (sort_key fill_key fills))) = []" by auto
  obtain s where s: "rfold (apply_fill inc) (sort_key fill_key (sort_key fill_key fills)) (ledger_init before) = Inr s"
    and "ledger_ok s" and bs: "pf_balances p = ledger_balances now (holds_of before) (ls_available s)"
    using projected by (rule apply_fills_InrE)
  then have "available_of (pf_balances p) a = dict_get (ls_available s) a 0"
    by (simp add: ledger_balances_available ledger_ok_def)
  then show ?thesis
    using rfold_apply_fill_moves[OF s, of a] by (simp add: none settled_moves_def ledger_init_get)
qed

end
