(* ===== verification/Payload.thy ===== *)
theory Payload
  imports Guards
begin

text \<open>
  Decoded JSON, the value a provider's response is to the program, and the operations of the standard
  library the adapters apply to it. A number is kept as the text \<^verbatim>\<open>str\<close> gives for it, because the
  program only converts it through that text. Reading of texts (decimals, floats, UUIDs, times), hashing
  (\<^verbatim>\<open>uuid5\<close>), the splitting of a URL and the redaction of free text are the fields of \<open>pylib\<close>:
  they are not code of the adapters.
\<close>

section \<open>Values\<close>

datatype json =
    JNull
  | JBool bool
  | JNum string
  | JStr string
  | JArr "json list"
  | JObj "(string \<times> json) list"

datatype float_text = Number rat | NaN | Infinite | Minus_Infinite

text \<open>
  \<open>None\<close> is the text being refused. A decimal that is not finite counts as refused: the models reject
  it a step later.
\<close>

record pylib =
  lib_repr :: "json \<Rightarrow> string"
  lib_decimal :: "string \<Rightarrow> rat option"
  lib_dec_str :: "rat \<Rightarrow> string"
  lib_int :: "json \<Rightarrow> int option"
  lib_float :: "string \<Rightarrow> float_text option"
  lib_parsedate :: "string \<Rightarrow> rat option"
  lib_fromtimestamp :: "string \<Rightarrow> datetime option"
  lib_fromisoformat :: "string \<Rightarrow> datetime option"
  lib_rfc3339 :: "datetime \<Rightarrow> string"
  lib_uuid :: "string \<Rightarrow> uuid option"
  lib_uuid5 :: "uuid \<Rightarrow> string \<Rightarrow> uuid"
  lib_url_path :: "string \<Rightarrow> string"
  lib_redact :: "string \<Rightarrow> string"

section \<open>Reading a value\<close>

fun is_mapping :: "json \<Rightarrow> bool" where
  "is_mapping (JObj _) = True"
| "is_mapping _ = False"

text \<open>\<^verbatim>\<open>payload.get(key)\<close> of a mapping; an absent key and a null are both \<^verbatim>\<open>None\<close>.\<close>

fun jget :: "json \<Rightarrow> string \<Rightarrow> json" where
  "jget (JObj d) k = (case map_of d k of None \<Rightarrow> JNull | Some v \<Rightarrow> v)"
| "jget _ k = JNull"

text \<open>Python's truth value: the texts of a zero are those \<^verbatim>\<open>str\<close> gives.\<close>

fun truthy :: "json \<Rightarrow> bool" where
  "truthy JNull = False"
| "truthy (JBool b) = b"
| "truthy (JNum t) = (t \<notin> {''0'', ''0.0'', ''-0.0''})"
| "truthy (JStr s) = (s \<noteq> [])"
| "truthy (JArr xs) = (xs \<noteq> [])"
| "truthy (JObj d) = (d \<noteq> [])"

definition py_or :: "json \<Rightarrow> json \<Rightarrow> json" where
  "py_or a b = (if truthy a then a else b)"

fun get_first :: "json \<Rightarrow> string list \<Rightarrow> json" where
  "get_first raw [] = JNull"
| "get_first raw [k] = jget raw k"
| "get_first raw (k # ks) = py_or (jget raw k) (get_first raw ks)"

fun py_str :: "pylib \<Rightarrow> json \<Rightarrow> string" where
  "py_str lib JNull = ''None''"
| "py_str lib (JBool b) = (if b then ''True'' else ''False'')"
| "py_str lib (JNum t) = t"
| "py_str lib (JStr s) = s"
| "py_str lib j = lib_repr lib j"

text \<open>\<^verbatim>\<open>str(value or fallback)\<close>\<close>

definition str_or :: "pylib \<Rightarrow> json \<Rightarrow> string \<Rightarrow> string" where
  "str_or lib v fallback = (if truthy v then py_str lib v else fallback)"

text \<open>\<^verbatim>\<open>c in text\<close> and \<^verbatim>\<open>text.isdigit()\<close> on Latin-1: the superscripts two, three and one are digits.\<close>

definition digit :: "char \<Rightarrow> bool" where
  "digit c \<longleftrightarrow> (let n = of_char c :: nat in 48 \<le> n \<and> n \<le> 57 \<or> n = 178 \<or> n = 179 \<or> n = 185)"

definition py_isdigit :: "string \<Rightarrow> bool" where
  "py_isdigit s \<longleftrightarrow> s \<noteq> [] \<and> list_all digit s"

definition py_upper :: "string \<Rightarrow> string" where
  "py_upper s = map upper_char s"

lemma truthy_get_first:
  "truthy (get_first raw ks) \<Longrightarrow> \<exists>k \<in> set ks. get_first raw ks = jget raw k"
  by (induction raw ks rule: get_first.induct) (auto simp: py_or_def split: if_splits)

lemma jget_not_mapping [simp]: "\<not> is_mapping j \<Longrightarrow> jget j k = JNull"
  by (cases j) simp_all

section \<open>A library to evaluate on\<close>

text \<open>A concrete instance for evaluation: it reads decimal digits with an optional point.\<close>

definition read_digits :: "string \<Rightarrow> int" where
  "read_digits s = foldl (\<lambda>n c. 10 * n + (of_char c - 48)) 0 s"

definition read_decimal :: "string \<Rightarrow> rat option" where
  "read_decimal s =
     (let whole = takeWhile (\<lambda>c. c \<noteq> CHR ''.'') s; part = drop (Suc (length whole)) s in
      if s \<noteq> [] \<and> list_all digit (whole @ part) \<and> whole \<noteq> []
      then Some (of_int (read_digits (whole @ part)) / 10 ^ length part) else None)"

definition demo_lib :: pylib where
  "demo_lib = \<lparr>lib_repr = (\<lambda>_. ''repr''), lib_decimal = read_decimal, lib_dec_str = (\<lambda>x. nat_str (nat \<lfloor>x\<rfloor>)),
     lib_int = (\<lambda>j. case j of JNum t \<Rightarrow> map_option floor (read_decimal t) | JStr t \<Rightarrow> map_option floor (read_decimal t) | _ \<Rightarrow> None),
     lib_float = (\<lambda>s. map_option Number (read_decimal s)), lib_parsedate = (\<lambda>_. None),
     lib_fromtimestamp = (\<lambda>s. if list_all digit s then Some (microseconds (read_digits s)) else None),
     lib_fromisoformat = (\<lambda>s. Some (int (length s))), lib_rfc3339 = (\<lambda>t. nat_str (nat t)),
     lib_uuid = (\<lambda>s. if length s = 36 then Some s else None), lib_uuid5 = (\<lambda>ns t. ns @ ''/'' @ t),
     lib_url_path = (\<lambda>u. u), lib_redact = (\<lambda>t. t)\<rparr>"

end
