(* ===== verification/ProviderHttp.thy ===== *)
theory ProviderHttp
  imports Payload
begin

text \<open>
  \<^verbatim>\<open>brokers/http.py\<close>: the HTTP client every venue adapter calls through. A request is admitted by the
  circuit breaker and the rate limiter of \<open>Guards\<close>, sent, retried while the venue answers 429, and
  repeated once with fresh credentials after a 401. The network, the clocks and sleeping are the fields
  of \<open>net\<close> over a world \<open>'v\<close> that each call may change; \<open>net_wait\<close> gives the clock readings of the
  turns a wait for the limiter takes, and readings that run out are a task cancelled in its sleep.
  \<open>hs_trace\<close> records every request that went out, with what came back. An adapter extends
  \<open>http_state\<close> with its own fields.
\<close>

section \<open>Requests and responses\<close>

record http_request =
  hr_method :: string
  hr_url :: string
  hr_headers :: "(string, string) dict"
  hr_params :: "(string, json) dict option"
  hr_json :: "json option"

record response =
  rsp_status :: nat
  rsp_retry_after :: "string option"
  rsp_has_content :: bool
  rsp_json :: "json option"
  rsp_text :: string

text \<open>\<open>Broken e\<close> is any other exception out of the HTTP library.\<close>

datatype transport = Response response | TimedOut | TransportFailed | Broken exn

record 'v net =
  net_request :: "http_request \<Rightarrow> 'v \<Rightarrow> transport \<times> 'v"
  net_monotonic :: "'v \<Rightarrow> rat \<times> 'v"
  net_time :: "'v \<Rightarrow> rat \<times> 'v"
  net_utc_now :: "'v \<Rightarrow> datetime \<times> 'v"
  net_wait :: "'v \<Rightarrow> (rat \<times> rat) list \<times> 'v"
  net_sleep :: "rat \<Rightarrow> 'v \<Rightarrow> 'v"

record 'v http_state =
  hs_world :: 'v
  hs_trace :: "(http_request \<times> transport) list"
  hs_rate_limiter :: bucket
  hs_circuit_breaker :: breaker
  hs_max_429_retries :: int
  hs_backoff_base_seconds :: rat
  hs_max_backoff_seconds :: rat

definition provider_timeout :: exn where
  "provider_timeout = ProviderError ''ProviderTimeoutError'' None"

definition provider_error :: exn where
  "provider_error = ProviderError ''ProviderError'' None"

definition rate_limit_exceeded :: exn where
  "rate_limit_exceeded = RuntimeError ''request budget was not available before timeout''"

definition circuit_open :: exn where
  "circuit_open = RuntimeError ''provider circuit is open''"

lemmas provider_exns = provider_timeout_def provider_error_def rate_limit_exceeded_def circuit_open_def

section \<open>What a failure may say\<close>

fun split_slash :: "string \<Rightarrow> string list" where
  "split_slash [] = [[]]"
| "split_slash (c # cs) =
     (if c = CHR ''/'' then [] # split_slash cs
      else case split_slash cs of [] \<Rightarrow> [[c]] | s # ss \<Rightarrow> (c # s) # ss)"

fun join_slash :: "string list \<Rightarrow> string" where
  "join_slash [] = []"
| "join_slash [s] = s"
| "join_slash (s # ss) = s @ ''/'' @ join_slash ss"

definition looks_like_identifier :: "string \<Rightarrow> bool" where
  "looks_like_identifier segment \<longleftrightarrow> 16 \<le> length segment \<and> (\<exists>c \<in> set segment. digit c)"

definition endpoint_path :: "pylib \<Rightarrow> string \<Rightarrow> string" where
  "endpoint_path lib url =
     take 120 (join_slash (map (\<lambda>segment. if looks_like_identifier segment then '':id'' else segment)
       (split_slash (lib_url_path lib url))))"

text \<open>\<^verbatim>\<open>ProviderHTTPError.reason\<close>; the empty text stands for \<^verbatim>\<open>None\<close>.\<close>

definition failure_reason :: "pylib \<Rightarrow> json \<Rightarrow> string" where
  "failure_reason lib payload =
     (case jget payload ''reason'' of
        JStr raw \<Rightarrow> if py_strip raw = [] then [] else take 80 (lib_redact lib raw)
      | _ \<Rightarrow> [])"

definition http_error :: "pylib \<Rightarrow> nat \<Rightarrow> json \<Rightarrow> string \<Rightarrow> exn" where
  "http_error lib code payload url = ProviderHTTPError code (endpoint_path lib url) (failure_reason lib payload)"

text \<open>\<^verbatim>\<open>ProviderHTTPError(code, message)\<close> with neither payload nor path.\<close>

abbreviation bare_http_error :: "nat \<Rightarrow> exn" where
  "bare_http_error code \<equiv> ProviderHTTPError code [] []"

definition replacement_quantity :: "trade_order \<Rightarrow> rat \<Rightarrow> exn + rat" where
  "replacement_quantity canceled quantity =
     (if ord_status canceled \<noteq> CANCELED then Inl (bare_http_error 409)
      else Inr (dsub quantity (ord_filled_quantity canceled)))"

section \<open>Delay before a retry\<close>

text \<open>
  \<^verbatim>\<open>min(maximum, max(0.0, delay))\<close> over the floats: \<^verbatim>\<open>max(0.0, nan)\<close> is \<^verbatim>\<open>0.0\<close>, because no
  comparison with it holds.
\<close>

fun bounded_delay :: "rat \<Rightarrow> float_text \<Rightarrow> rat" where
  "bounded_delay maximum (Number d) = min maximum (max 0 d)"
| "bounded_delay maximum NaN = min maximum 0"
| "bounded_delay maximum Infinite = maximum"
| "bounded_delay maximum Minus_Infinite = min maximum 0"

definition retry_after_seconds :: "pylib \<Rightarrow> string option \<Rightarrow> rat \<Rightarrow> rat \<Rightarrow> rat \<Rightarrow> rat" where
  "retry_after_seconds lib header now fallback maximum =
     bounded_delay maximum
       (case header of
          None \<Rightarrow> Number fallback
        | Some raw \<Rightarrow>
            if raw = [] then Number fallback
            else case lib_float lib raw of
              Some d \<Rightarrow> d
            | None \<Rightarrow> (case lib_parsedate lib raw of
                  Some t \<Rightarrow> Number (max 0 (flt (t - now)))
                | None \<Rightarrow> Number fallback))"

section \<open>The client\<close>

definition ask :: "('v \<Rightarrow> 'a \<times> 'v) \<Rightarrow> (exn, ('v, 'z) http_state_scheme, 'a) act" where
  "ask f s = (case f (hs_world s) of (x, v) \<Rightarrow> (Inr x, s\<lparr>hs_world := v\<rparr>))"

definition admit :: "'v net \<Rightarrow> (exn, ('v, 'z) http_state_scheme, unit) act" where
  "admit net = abind (ask (net_monotonic net)) (\<lambda>now s.
     case before_request now (hs_circuit_breaker s) of (r, b) \<Rightarrow> (r, s\<lparr>hs_circuit_breaker := b\<rparr>))"

fun wait_result :: "exn + wait_end \<Rightarrow> exn + unit" where
  "wait_result (Inl e) = Inl e"
| "wait_result (Inr Acquired) = Inr ()"
| "wait_result (Inr RateLimitExceeded) = Inl rate_limit_exceeded"
| "wait_result (Inr Waiting) = Inl (PyError ''CancelledError'')"

definition take_token :: "'v net \<Rightarrow> (exn, ('v, 'z) http_state_scheme, unit) act" where
  "take_token net = abind (ask (net_monotonic net)) (\<lambda>started. abind (ask (net_wait net)) (\<lambda>turns s.
     case acquire 1 5 started turns (hs_rate_limiter s) of (r, b) \<Rightarrow> (wait_result r, s\<lparr>hs_rate_limiter := b\<rparr>)))"

definition send :: "'v net \<Rightarrow> http_request \<Rightarrow> (exn, ('v, 'z) http_state_scheme, transport) act" where
  "send net req s =
     (case net_request net req (hs_world s) of
        (t, v) \<Rightarrow> (Inr t, s\<lparr>hs_world := v, hs_trace := hs_trace s @ [(req, t)]\<rparr>))"

definition count_failure :: "'v net \<Rightarrow> (exn, ('v, 'z) http_state_scheme, unit) act" where
  "count_failure net = abind (ask (net_monotonic net)) (\<lambda>now s.
     (Inr (), s\<lparr>hs_circuit_breaker := record_failure now (hs_circuit_breaker s)\<rparr>))"

definition count_success :: "(exn, ('v, 'z) http_state_scheme, unit) act" where
  "count_success s = (Inr (), s\<lparr>hs_circuit_breaker := record_success (hs_circuit_breaker s)\<rparr>)"

definition response_json :: "response \<Rightarrow> json" where
  "response_json rsp =
     (if \<not> rsp_has_content rsp then JObj []
      else case rsp_json rsp of Some j \<Rightarrow> j | None \<Rightarrow> JObj [(''text'', JStr (rsp_text rsp))])"

definition back_off :: "pylib \<Rightarrow> 'v net \<Rightarrow> response \<Rightarrow> nat \<Rightarrow> (exn, ('v, 'z) http_state_scheme, unit) act" where
  "back_off lib net rsp n = abind (ask (net_time net)) (\<lambda>now s.
     let delay = retry_after_seconds lib (rsp_retry_after rsp) now
       (flt (hs_backoff_base_seconds s * 2 ^ n)) (hs_max_backoff_seconds s)
     in (Inr (), s\<lparr>hs_world := net_sleep net delay (hs_world s)\<rparr>))"

text \<open>The end of an attempt whose response is not a 429.\<close>

definition conclude :: "pylib \<Rightarrow> 'v net \<Rightarrow> http_request \<Rightarrow> response \<Rightarrow> (exn, ('v, 'z) http_state_scheme, json) act" where
  "conclude lib net req rsp =
     (let payload = response_json rsp; code = rsp_status rsp in
      abind (if 500 \<le> code then count_failure net else if code < 400 then count_success else aret ()) (\<lambda>_.
        if 400 \<le> code then athrow (http_error lib code payload (hr_url req)) else aret payload))"

fun request_attempts ::
  "pylib \<Rightarrow> 'v net \<Rightarrow> http_request \<Rightarrow> nat \<Rightarrow> nat \<Rightarrow> (exn, ('v, 'z) http_state_scheme, json) act"
where
  "request_attempts lib net req n 0 = athrow AssertionError"
| "request_attempts lib net req n (Suc left) =
     abind (admit net) (\<lambda>_. abind (take_token net) (\<lambda>_. abind (send net req) (\<lambda>outcome.
       case outcome of
         TimedOut \<Rightarrow> abind (count_failure net) (\<lambda>_. athrow provider_timeout)
       | TransportFailed \<Rightarrow> abind (count_failure net) (\<lambda>_. athrow provider_error)
       | Broken e \<Rightarrow> athrow e
       | Response rsp \<Rightarrow> (\<lambda>s.
           if rsp_status rsp = 429
           then if hs_max_429_retries s \<le> int n
             then abind (count_failure net) (\<lambda>_. athrow (http_error lib 429 (response_json rsp) (hr_url req))) s
             else abind (back_off lib net rsp n) (\<lambda>_. request_attempts lib net req (Suc n) left) s
           else conclude lib net req rsp s))))"

definition request_once :: "pylib \<Rightarrow> 'v net \<Rightarrow> http_request \<Rightarrow> (exn, ('v, 'z) http_state_scheme, json) act" where
  "request_once lib net req s = request_attempts lib net req 0 (nat (hs_max_429_retries s + 1)) s"

type_synonym 's auth_headers = "bool \<Rightarrow> (exn, 's, (string, string) dict) act"

definition signed_request :: "'s auth_headers option \<Rightarrow> bool \<Rightarrow> http_request \<Rightarrow> (exn, 's, http_request) act" where
  "signed_request auth again req =
     (case auth of
        None \<Rightarrow> aret req
      | Some headers \<Rightarrow> abind (headers again) (\<lambda>extra.
          aret (req\<lparr>hr_headers := foldl (\<lambda>d (k, v). AList.update k v d) (hr_headers req) extra\<rparr>)))"

fun is_unauthorized :: "exn \<Rightarrow> bool" where
  "is_unauthorized (ProviderHTTPError code _ _) = (code = 401)"
| "is_unauthorized _ = False"

fun request_rounds ::
  "pylib \<Rightarrow> 'v net \<Rightarrow> http_request \<Rightarrow> ('v, 'z) http_state_scheme auth_headers option \<Rightarrow>
     (('v, 'z) http_state_scheme \<Rightarrow> ('v, 'z) http_state_scheme) \<Rightarrow> nat \<Rightarrow> nat \<Rightarrow>
     (exn, ('v, 'z) http_state_scheme, json) act"
where
  "request_rounds lib net req auth refresh auth_attempt 0 = athrow AssertionError"
| "request_rounds lib net req auth refresh auth_attempt (Suc left) =
     abind (signed_request auth (0 < auth_attempt) req) (\<lambda>req'.
     abind (attempt (request_once lib net req')) (\<lambda>r.
       case r of
         Inr payload \<Rightarrow> aret payload
       | Inl e \<Rightarrow>
           if \<not> is_unauthorized e \<or> auth = None \<or> auth_attempt \<noteq> 0 then athrow e
           else (\<lambda>s. request_rounds lib net req auth refresh (Suc auth_attempt) left (refresh s))))"

definition request_json ::
  "pylib \<Rightarrow> 'v net \<Rightarrow> http_request \<Rightarrow> ('v, 'z) http_state_scheme auth_headers option \<Rightarrow>
     (('v, 'z) http_state_scheme \<Rightarrow> ('v, 'z) http_state_scheme) \<Rightarrow>
     (exn, ('v, 'z) http_state_scheme, json) act"
where
  "request_json lib net req auth refresh =
     request_rounds lib net req auth refresh 0 (if auth \<noteq> None then 2 else 1)"

text \<open>The settings the constructor of the client refuses.\<close>

definition valid_retry_settings :: "int \<Rightarrow> rat \<Rightarrow> rat \<Rightarrow> exn + unit" where
  "valid_retry_settings retries base maximum =
     (if retries < 0 \<or> base < 0 \<or> maximum < 0 then Inl (ValueError ''retry settings must not be negative'') else Inr ())"

section \<open>What a delay and a path may be\<close>

text \<open>A wait before a retry is never negative and never longer than the configured maximum.\<close>

lemma retry_delay_bounded:
  assumes "0 \<le> maximum"
  shows "0 \<le> retry_after_seconds lib header now fallback maximum"
    and "retry_after_seconds lib header now fallback maximum \<le> maximum"
proof -
  have "0 \<le> bounded_delay maximum d \<and> bounded_delay maximum d \<le> maximum" for d
    using assms by (cases d) auto
  then show "0 \<le> retry_after_seconds lib header now fallback maximum"
    and "retry_after_seconds lib header now fallback maximum \<le> maximum"
    by (simp_all add: retry_after_seconds_def)
qed

lemma split_slash_nonempty [simp]: "split_slash s \<noteq> []"
  by (induction s) (auto split: list.splits)

lemma split_slash_segments: "seg \<in> set (split_slash s) \<Longrightarrow> CHR ''/'' \<notin> set seg"
  by (induction s arbitrary: seg) (auto split: list.splits if_splits)

lemma split_join_slash:
  assumes "ss \<noteq> []" "\<forall>s \<in> set ss. CHR ''/'' \<notin> set s"
  shows "split_slash (join_slash ss) = ss"
proof -
  have plain: "CHR ''/'' \<notin> set s \<Longrightarrow> split_slash s = [s]" for s by (induction s) auto
  have step: "CHR ''/'' \<notin> set s \<Longrightarrow> split_slash (s @ ''/'' @ t) = s # split_slash t" for s t
    by (induction s) auto
  show ?thesis using assms by (induction ss rule: join_slash.induct) (use plain step in auto)
qed

text \<open>Cutting a text cuts its last segment and drops those after it.\<close>

lemma split_slash_append:
  "split_slash (a @ b) =
     butlast (split_slash a) @ (last (split_slash a) @ hd (split_slash b)) # tl (split_slash b)"
proof (induction a)
  case (Cons c a)
  obtain u us where u: "split_slash a = u # us" by (cases "split_slash a") auto
  show ?case using Cons u by (cases us) auto
qed simp

lemma split_slash_take:
  assumes "seg \<in> set (split_slash (take n s))"
  shows "\<exists>t \<in> set (split_slash s). \<exists>u. t = seg @ u"
proof -
  let ?a = "take n s" and ?b = "drop n s"
  have s: "split_slash s = butlast (split_slash ?a) @ (last (split_slash ?a) @ hd (split_slash ?b)) # tl (split_slash ?b)"
    using split_slash_append[of ?a ?b] by simp
  have "seg \<in> set (butlast (split_slash ?a)) \<or> seg = last (split_slash ?a)"
    using assms append_butlast_last_id[OF split_slash_nonempty, of ?a]
    by (metis UnE empty_iff empty_set list.set_cases set_ConsD set_append)
  then show ?thesis unfolding s
  proof
    assume "seg = last (split_slash ?a)"
    then show "\<exists>t \<in> set (butlast (split_slash ?a) @ (last (split_slash ?a) @ hd (split_slash ?b)) # tl (split_slash ?b)).
        \<exists>u. t = seg @ u"
      by (intro bexI[of _ "last (split_slash ?a) @ hd (split_slash ?b)"]) auto
  qed (auto intro: exI[of _ "[]"])
qed

lemma endpoint_path_hides:
  assumes "seg \<in> set (split_slash (endpoint_path lib url))"
  shows "\<not> looks_like_identifier seg"
proof -
  let ?ss = "map (\<lambda>segment. if looks_like_identifier segment then '':id'' else segment) (split_slash (lib_url_path lib url))"
  obtain t u where t: "t \<in> set (split_slash (join_slash ?ss))" "t = seg @ u"
    using split_slash_take[of seg 120 "join_slash ?ss"] assms by (auto simp: endpoint_path_def)
  have "split_slash (join_slash ?ss) = ?ss"
    by (rule split_join_slash) (auto dest: split_slash_segments)
  then have "t \<in> set ?ss" using t(1) by simp
  moreover have "\<not> looks_like_identifier '':id''" by (simp add: looks_like_identifier_def)
  ultimately have "\<not> looks_like_identifier t" by auto
  then show ?thesis using t(2) by (auto simp: looks_like_identifier_def)
qed

section \<open>What goes over the wire\<close>

text \<open>
  The payloads of the answers below 400 in a trace, and a logic of traces: \<open>talks I m P\<close> says that
  \<open>m\<close> keeps \<open>I\<close> and adds to the trace exchanges that \<open>P\<close> relates to its outcome.
\<close>

fun accepted_payload :: "transport \<Rightarrow> json option" where
  "accepted_payload (Response rsp) = (if rsp_status rsp < 400 then Some (response_json rsp) else None)"
| "accepted_payload _ = None"

definition answers_in :: "(http_request \<times> transport) list \<Rightarrow> (http_request \<times> json) list" where
  "answers_in ts = List.map_filter (\<lambda>(q, t). map_option (Pair q) (accepted_payload t)) ts"

lemma answers_in_simps [simp]:
  "answers_in [] = []"
  "answers_in ((q, t) # ts) = (case accepted_payload t of None \<Rightarrow> answers_in ts | Some p \<Rightarrow> (q, p) # answers_in ts)"
  "answers_in (ts @ us) = answers_in ts @ answers_in us"
  by (simp_all add: answers_in_def List.map_filter_def split: option.splits)

lemma answers_in_requests: "(q, p) \<in> set (answers_in ts) \<Longrightarrow> q \<in> fst ` set ts"
  by (force simp: answers_in_def List.map_filter_def)

definition same_call :: "http_request \<Rightarrow> http_request \<Rightarrow> bool" where
  "same_call req q \<longleftrightarrow> hr_method q = hr_method req \<and> hr_url q = hr_url req \<and> hr_params q = hr_params req \<and>
     hr_json q = hr_json req"

definition talks ::
  "(('v, 'z) http_state_scheme \<Rightarrow> bool) \<Rightarrow> (exn, ('v, 'z) http_state_scheme, 'a) act \<Rightarrow>
     (exn + 'a \<Rightarrow> (http_request \<times> transport) list \<Rightarrow> bool) \<Rightarrow> bool"
where
  "talks I m P \<longleftrightarrow> (\<forall>s. I s \<longrightarrow> I (snd (m s)) \<and>
     (\<exists>ts. hs_trace (snd (m s)) = hs_trace s @ ts \<and> P (fst (m s)) ts))"

text \<open>The conditions a state keeps while a request is made: those on the adapter's own fields and settings.\<close>

definition steady :: "(('v, 'z) http_state_scheme \<Rightarrow> bool) \<Rightarrow> bool" where
  "steady I \<longleftrightarrow> (\<forall>s v b c ts. I s \<longrightarrow>
     I (s\<lparr>hs_world := v\<rparr>) \<and> I (s\<lparr>hs_trace := ts\<rparr>) \<and> I (s\<lparr>hs_rate_limiter := b\<rparr>) \<and> I (s\<lparr>hs_circuit_breaker := c\<rparr>))"

lemma steadyD:
  assumes "steady I" "I s"
  shows "I (s\<lparr>hs_world := v\<rparr>)" "I (s\<lparr>hs_trace := ts\<rparr>)" "I (s\<lparr>hs_rate_limiter := b\<rparr>)"
    "I (s\<lparr>hs_circuit_breaker := c\<rparr>)"
  using assms by (auto simp: steady_def)

lemma talksD:
  assumes "talks I m P" "I s" "m s = (r, s')"
  obtains ts where "I s'" "hs_trace s' = hs_trace s @ ts" "P r ts"
  using assms by (auto simp: talks_def dest!: spec[of _ s])

lemma talks_at:
  "talks I m P \<Longrightarrow> I s \<Longrightarrow> I (snd (m s)) \<and> (\<exists>ts. hs_trace (snd (m s)) = hs_trace s @ ts \<and> P (fst (m s)) ts)"
  by (simp add: talks_def)

lemma talks_weaken: "talks I m P \<Longrightarrow> (\<And>r ts. P r ts \<Longrightarrow> Q r ts) \<Longrightarrow> talks I m Q"
  unfolding talks_def by meson

lemma talks_quiet:
  "(\<And>s. I s \<Longrightarrow> I (snd (m s)) \<and> hs_trace (snd (m s)) = hs_trace s \<and> P (fst (m s)) []) \<Longrightarrow> talks I m P"
  by (auto simp: talks_def)

lemma talks_aret [intro!]: "P (Inr x) [] \<Longrightarrow> talks I (aret x) P"
  by (rule talks_quiet) simp

lemma talks_athrow [intro!]: "P (Inl e) [] \<Longrightarrow> talks I (athrow e) P"
  by (rule talks_quiet) simp

lemma talks_bind:
  assumes m: "talks I m Q" and f: "\<And>x ts. Q (Inr x) ts \<Longrightarrow> talks I (f x) (R x)"
    and raise: "\<And>e ts. Q (Inl e) ts \<Longrightarrow> P (Inl e) ts"
    and go: "\<And>x ts r us. Q (Inr x) ts \<Longrightarrow> R x r us \<Longrightarrow> P r (ts @ us)"
  shows "talks I (abind m f) P"
proof (unfold talks_def, intro allI impI)
  fix s assume I: "I s"
  obtain r t where mr: "m s = (r, t)" by force
  obtain ts where ts: "I t" "hs_trace t = hs_trace s @ ts" "Q r ts" using talksD[OF m I mr] .
  show "I (snd (abind m f s)) \<and> (\<exists>ts. hs_trace (snd (abind m f s)) = hs_trace s @ ts \<and> P (fst (abind m f s)) ts)"
  proof (cases r)
    case (Inl e)
    then show ?thesis using mr ts raise by (auto simp: abind_def)
  next
    case (Inr x)
    obtain r' u where fr: "f x t = (r', u)" by force
    have fx: "talks I (f x) (R x)" using f ts(3) Inr by simp
    obtain us where "I u" "hs_trace u = hs_trace t @ us" "R x r' us" using talksD[OF fx ts(1) fr] .
    then show ?thesis using mr Inr fr ts go by (auto simp: abind_def)
  qed
qed

text \<open>Steps that send nothing before or after one that does.\<close>

definition no_traffic :: "exn + 'a \<Rightarrow> (http_request \<times> transport) list \<Rightarrow> bool" where
  "no_traffic r ts \<longleftrightarrow> ts = []"

lemma talks_after_no_traffic:
  assumes "talks I m no_traffic" "\<And>x. talks I (f x) P" "\<And>e. P (Inl e) []"
  shows "talks I (abind m f) P"
  by (rule talks_bind[OF assms(1), where R = "\<lambda>_. P"]) (use assms(2,3) in \<open>auto simp: no_traffic_def\<close>)

lemma talks_ask: "steady I \<Longrightarrow> talks I (ask f) no_traffic"
  by (rule talks_quiet) (simp add: ask_def split_beta no_traffic_def steadyD)

lemma talks_then:
  assumes "steady I" "\<And>x s. I s \<Longrightarrow> I (snd (f x s)) \<and> hs_trace (snd (f x s)) = hs_trace s"
  shows "talks I (abind (ask g) f) no_traffic"
  by (rule talks_after_no_traffic[OF talks_ask[OF assms(1)]])
    (auto intro!: talks_quiet simp: assms(2) no_traffic_def)

lemma talks_admit: "steady I \<Longrightarrow> talks I (admit net) no_traffic"
  unfolding admit_def by (rule talks_then) (simp_all add: split_beta steadyD)

lemma talks_take_token:
  assumes "steady I"
  shows "talks I (take_token net) no_traffic"
proof -
  have "talks I (abind (ask (net_wait net)) (\<lambda>turns s.
     case acquire 1 5 started turns (hs_rate_limiter s) of (r, b) \<Rightarrow> (wait_result r, s\<lparr>hs_rate_limiter := b\<rparr>))) no_traffic" for started
    by (rule talks_then[OF assms]) (simp_all add: split_beta steadyD[OF assms])
  then show ?thesis unfolding take_token_def
    by (rule talks_after_no_traffic[OF talks_ask[OF assms]]) (simp_all add: no_traffic_def)
qed

lemma talks_count_failure: "steady I \<Longrightarrow> talks I (count_failure net) no_traffic"
  unfolding count_failure_def by (rule talks_then) (simp_all add: steadyD)

lemma talks_back_off: "steady I \<Longrightarrow> talks I (back_off lib net rsp n) no_traffic"
  unfolding back_off_def Let_def by (rule talks_then) (simp_all add: steadyD)

lemma talks_send:
  assumes "steady I"
  shows "talks I (send net req) (\<lambda>r ts. \<exists>t. r = Inr t \<and> ts = [(req, t)])"
  unfolding talks_def
proof (intro allI impI)
  fix s assume I: "I s"
  obtain t v where w: "net_request net req (hs_world s) = (t, v)" by force
  have "I (s\<lparr>hs_world := v, hs_trace := hs_trace s @ [(req, t)]\<rparr>)" by (intro steadyD[OF assms] I)
  then show "I (snd (send net req s)) \<and> (\<exists>ts. hs_trace (snd (send net req s)) = hs_trace s @ ts \<and>
      (\<exists>t. fst (send net req s) = Inr t \<and> ts = [(req, t)]))"
    by (simp add: send_def w)
qed

lemma talks_conclude:
  assumes "steady I"
  shows "talks I (conclude lib net req rsp) (\<lambda>r ts. ts = [] \<and> (if 400 \<le> rsp_status rsp then \<exists>e. r = Inl e else r = Inr (response_json rsp)))"
proof -
  have step: "talks I (if 500 \<le> rsp_status rsp then count_failure net else if rsp_status rsp < 400 then count_success else aret ())
      (\<lambda>r ts. r = Inr () \<and> ts = [])"
  proof -
    have "talks I (count_failure net) (\<lambda>r ts. r = Inr () \<and> ts = [])"
      unfolding count_failure_def
      by (rule talks_quiet) (simp add: abind_def ask_def split_beta steadyD[OF assms])
    moreover have "talks I count_success (\<lambda>r ts. r = Inr () \<and> ts = [])"
      by (rule talks_quiet) (simp add: count_success_def steadyD[OF assms])
    ultimately show ?thesis by auto
  qed
  show ?thesis unfolding conclude_def Let_def
    by (rule talks_bind[OF step, where R = "\<lambda>_ r ts. ts = [] \<and> (if 400 \<le> rsp_status rsp then \<exists>e. r = Inl e else r = Inr (response_json rsp))"]) auto
qed

text \<open>
  The exchanges of a request: every request sent is of the kind \<open>S\<close>, and exactly the answer that is returned
  was accepted by the venue; an exception means that none was.
\<close>

definition exchange :: "(http_request \<Rightarrow> bool) \<Rightarrow> nat \<Rightarrow> exn + json \<Rightarrow> (http_request \<times> transport) list \<Rightarrow> bool" where
  "exchange S n r ts \<longleftrightarrow> length ts \<le> n \<and> (\<forall>q \<in> fst ` set ts. S q) \<and>
     map snd (answers_in ts) = (case r of Inr p \<Rightarrow> [p] | Inl _ \<Rightarrow> [])"

lemma same_call_refl [simp]: "same_call req req" "same_call req (req\<lparr>hr_headers := h\<rparr>)"
  by (simp_all add: same_call_def)

lemma exchange_nothing [simp]: "exchange S n (Inl e) []"
  by (simp add: exchange_def)

lemma request_attempts_talks:
  assumes "steady I"
  shows "talks I (request_attempts lib net req n left) (exchange ((=) req) left)"
proof (induction left arbitrary: n)
  case (Suc left)
  note after = talks_after_no_traffic[OF talks_admit[OF assms]] talks_after_no_traffic[OF talks_take_token[OF assms]]
    talks_after_no_traffic[OF talks_count_failure[OF assms]]
  let ?Q = "\<lambda>t r us. exchange ((=) req) (Suc left) r ((req, t) # us)"
  have rest: "talks I (case t of
         TimedOut \<Rightarrow> abind (count_failure net) (\<lambda>_. athrow provider_timeout)
       | TransportFailed \<Rightarrow> abind (count_failure net) (\<lambda>_. athrow provider_error)
       | Broken e \<Rightarrow> athrow e
       | Response rsp \<Rightarrow> (\<lambda>s.
           if rsp_status rsp = 429
           then if hs_max_429_retries s \<le> int n
             then abind (count_failure net) (\<lambda>_. athrow (http_error lib 429 (response_json rsp) (hr_url req))) s
             else abind (back_off lib net rsp n) (\<lambda>_. request_attempts lib net req (Suc n) left) s
           else conclude lib net req rsp s)) (?Q t)" for t
  proof (cases t)
    case (Response rsp)
    have fail: "talks I (abind (count_failure net) (\<lambda>_. athrow e)) (?Q t)" if "rsp_status rsp = 429" for e
      by (rule after(3)) (use that Response in \<open>auto simp: exchange_def\<close>)
    have again: "talks I (abind (back_off lib net rsp n) (\<lambda>_. request_attempts lib net req (Suc n) left)) (?Q t)"
      if "rsp_status rsp = 429"
      by (rule talks_after_no_traffic[OF talks_back_off[OF assms]], rule talks_weaken[OF Suc.IH])
        (use that Response in \<open>auto simp: exchange_def\<close>)
    have ended: "talks I (conclude lib net req rsp) (?Q t)"
      by (rule talks_weaken[OF talks_conclude[OF assms]])
        (use Response in \<open>auto simp: exchange_def split: if_splits\<close>)
    show ?thesis
      using fail again ended unfolding Response talks_def by (auto split: if_splits)
  qed (auto intro!: after(3) simp: exchange_def)
  show ?case unfolding request_attempts.simps
    by (intro after(1,2), rule talks_bind[OF talks_send[OF assms], where R = ?Q])
      (use rest in auto)
qed (simp add: talks_athrow)

lemma request_once_talks:
  assumes I: "steady I" and n: "\<And>s. I s \<Longrightarrow> hs_max_429_retries s = n"
  shows "talks I (request_once lib net req) (exchange ((=) req) (nat (n + 1)))"
  using request_attempts_talks[OF I, of lib net req 0 "nat (n + 1)"] n
  by (auto simp: talks_def request_once_def)

lemma talks_attempt:
  assumes "talks I m P"
  shows "talks I (attempt m) (\<lambda>r ts. \<exists>x. r = Inr x \<and> P x ts)"
  using assms by (auto simp: talks_def attempt_def split_beta)

text \<open>Credentials are made without a request; a refresh only forgets them.\<close>

lemma talks_signed:
  assumes "\<And>headers again. auth = Some headers \<Longrightarrow> talks I (headers again) no_traffic"
  shows "talks I (signed_request auth again req) (\<lambda>r ts. ts = [] \<and> (\<forall>q. r = Inr q \<longrightarrow> same_call req q))"
proof (cases auth)
  case (Some headers)
  show ?thesis unfolding signed_request_def Some option.case
    by (rule talks_after_no_traffic[OF assms[OF Some]]) (auto simp: same_call_def)
qed (auto simp: signed_request_def)

lemma same_call_trans: "same_call req q \<Longrightarrow> same_call q q' \<Longrightarrow> same_call req q'"
  by (simp add: same_call_def)

lemma request_rounds_talks:
  assumes I: "steady I" and n: "\<And>s. I s \<Longrightarrow> hs_max_429_retries s = n"
    and auth: "\<And>headers again. auth = Some headers \<Longrightarrow> talks I (headers again) no_traffic"
    and refresh: "\<And>s. I s \<Longrightarrow> I (refresh s) \<and> hs_trace (refresh s) = hs_trace s"
  shows "talks I (request_rounds lib net req auth refresh k left) (exchange (same_call req) (left * nat (n + 1)))"
proof (induction left arbitrary: k)
  case (Suc left)
  have later: "talks I (\<lambda>s. request_rounds lib net req auth refresh (Suc k) left (refresh s)) (exchange (same_call req) (left * nat (n + 1)))"
    using Suc[of "Suc k"] refresh unfolding talks_def by metis
  have turn: "talks I (case r of Inr payload \<Rightarrow> aret payload
       | Inl e \<Rightarrow> if \<not> is_unauthorized e \<or> auth = None \<or> k \<noteq> 0 then athrow e
           else (\<lambda>s. request_rounds lib net req auth refresh (Suc k) left (refresh s)))
      (\<lambda>r' us. case r of Inr p \<Rightarrow> r' = Inr p \<and> us = [] | Inl e \<Rightarrow> exchange (same_call req) (left * nat (n + 1)) r' us)" for r
    using later by (cases r) auto
  have one: "talks I (abind (attempt (request_once lib net q)) (\<lambda>r. case r of Inr payload \<Rightarrow> aret payload
       | Inl e \<Rightarrow> if \<not> is_unauthorized e \<or> auth = None \<or> k \<noteq> 0 then athrow e
           else (\<lambda>s. request_rounds lib net req auth refresh (Suc k) left (refresh s))))
      (exchange (same_call req) (Suc left * nat (n + 1)))" if "same_call req q" for q
    by (rule talks_bind[OF talks_attempt[OF request_once_talks[OF I n]] turn])
      (use that in \<open>auto simp: exchange_def dest: same_call_trans split: sum.splits\<close>)
  have signed: "talks I (signed_request auth (0 < k) req) (\<lambda>r ts. ts = [] \<and> (\<forall>q. r = Inr q \<longrightarrow> same_call req q))"
    by (rule talks_signed) (rule auth)
  show ?case unfolding request_rounds.simps
    by (rule talks_bind[OF signed, where R = "\<lambda>_. exchange (same_call req) (Suc left * nat (n + 1))"]) (use one in auto)
qed (simp add: talks_athrow)

text \<open>Without credentials of its own a request is sent exactly as it is.\<close>

lemma request_json_plain:
  assumes "steady I" and "\<And>s. I s \<Longrightarrow> hs_max_429_retries s = n"
  shows "talks I (request_json lib net req None refresh) (exchange ((=) req) (nat (n + 1)))"
proof -
  have once: "talks I (attempt (request_once lib net req)) (\<lambda>r ts. \<exists>x. r = Inr x \<and> exchange ((=) req) (nat (n + 1)) x ts)"
    by (rule talks_attempt[OF request_once_talks[OF assms]])
  have "request_json lib net req None refresh = abind (attempt (request_once lib net req)) (\<lambda>r. case r of Inr p \<Rightarrow> aret p | Inl e \<Rightarrow> athrow e)"
    by (auto simp: request_json_def signed_request_def abind_def fun_eq_iff split: sum.splits prod.splits)
  moreover have "talks I (abind (attempt (request_once lib net req)) (\<lambda>r. case r of Inr p \<Rightarrow> aret p | Inl e \<Rightarrow> athrow e))
      (exchange ((=) req) (nat (n + 1)))"
    by (rule talks_bind[OF once, where R = "\<lambda>x r us. r = x \<and> us = []"]) (auto split: sum.split)
  ultimately show ?thesis by simp
qed

lemma request_json_talks:
  assumes "steady I" and "\<And>s. I s \<Longrightarrow> hs_max_429_retries s = n"
    and "\<And>headers again. auth = Some headers \<Longrightarrow> talks I (headers again) no_traffic"
    and "\<And>s. I s \<Longrightarrow> I (refresh s) \<and> hs_trace (refresh s) = hs_trace s"
  shows "talks I (request_json lib net req auth refresh) (exchange (same_call req) (2 * nat (n + 1)))"
proof -
  have "talks I (request_json lib net req auth refresh) (exchange (same_call req) ((if auth \<noteq> None then 2 else 1) * nat (n + 1)))"
    unfolding request_json_def by (rule request_rounds_talks) (rule assms, assumption?)+
  then show ?thesis by (rule talks_weaken) (auto simp: exchange_def split: if_splits)
qed

definition lift :: "exn + 'a \<Rightarrow> (exn, 's, 'a) act" where
  "lift r = (case r of Inl e \<Rightarrow> athrow e | Inr x \<Rightarrow> aret x)"

lemma lift_simps [simp]: "lift (Inl e) = athrow e" "lift (Inr x) = aret x"
  by (simp_all add: lift_def)

lemma abind_InrE:
  assumes "abind m f s = (Inr y, t)"
  obtains x u where "m s = (Inr x, u)" "f x u = (Inr y, t)"
  using assms by (auto simp: abind_def split: prod.splits sum.splits)

lemma talks_lift [simp]: "talks I (lift r) (\<lambda>r' ts. r' = r \<and> ts = [])"
  by (cases r) auto

lemma talks_quiet_lift: "talks I (lift r) no_traffic"
  by (cases r) (auto simp: no_traffic_def)

lemma talks_quiet_bind: "talks I m no_traffic \<Longrightarrow> (\<And>x. talks I (f x) no_traffic) \<Longrightarrow> talks I (abind m f) no_traffic"
  by (rule talks_after_no_traffic) (auto simp: no_traffic_def)

lemma talks_pre:
  assumes "talks I m P" "\<And>s. I s \<Longrightarrow> I (f s) \<and> hs_trace (f s) = hs_trace s"
  shows "talks I (\<lambda>s. m (f s)) P"
  unfolding talks_def
proof (intro allI impI)
  fix s assume "I s"
  then show "I (snd (m (f s))) \<and> (\<exists>ts. hs_trace (snd (m (f s))) = hs_trace s @ ts \<and> P (fst (m (f s))) ts)"
    using talks_at[OF assms(1), of "f s"] assms(2)[of s] by simp
qed

lemma exchange_answer:
  assumes "exchange S k (Inr p) ts"
  shows "\<exists>q. answers_in ts = [(q, p)] \<and> S q"
  using assms answers_in_requests[of _ _ ts] by (cases "answers_in ts") (force simp: exchange_def)+

text \<open>Every request of an action satisfies a condition.\<close>

definition sends_only ::
  "(('v, 'z) http_state_scheme \<Rightarrow> bool) \<Rightarrow> (http_request \<Rightarrow> bool) \<Rightarrow> (exn, ('v, 'z) http_state_scheme, 'a) act \<Rightarrow> bool"
where
  "sends_only I S m \<longleftrightarrow> talks I m (\<lambda>r ts. \<forall>q \<in> fst ` set ts. S q)"

lemma sends_only_bind:
  "sends_only I S m \<Longrightarrow> (\<And>x. sends_only I S (f x)) \<Longrightarrow> sends_only I S (abind m f)"
  unfolding sends_only_def
  by (rule talks_bind[where Q = "\<lambda>r ts. \<forall>q \<in> fst ` set ts. S q" and R = "\<lambda>_ r ts. \<forall>q \<in> fst ` set ts. S q"]) auto

lemma sends_only_quiet: "talks I m no_traffic \<Longrightarrow> sends_only I S m"
  unfolding sends_only_def by (erule talks_weaken) (simp add: no_traffic_def)

lemma sends_only_simple [simp]:
  "sends_only I S (aret x)" "sends_only I S (athrow e)" "sends_only I S (lift r)"
  by (auto simp: sends_only_def intro: talks_weaken[OF talks_lift])

lemma sends_only_weaken: "sends_only I S m \<Longrightarrow> (\<And>q. S q \<Longrightarrow> T q) \<Longrightarrow> sends_only I T m"
  unfolding sends_only_def by (erule talks_weaken) auto

lemma sends_only_attempt: "sends_only I S m \<Longrightarrow> sends_only I S (attempt m)"
  unfolding sends_only_def by (rule talks_weaken[OF talks_attempt]) auto

abbreviation is_get :: "http_request \<Rightarrow> bool" where
  "is_get q \<equiv> hr_method q = ''GET''"

text \<open>The answers to requests that change something.\<close>

definition writes_answered :: "(http_request \<times> transport) list \<Rightarrow> nat" where
  "writes_answered ts = length (filter (\<lambda>(q, p). \<not> is_get q) (answers_in ts))"

lemma writes_answered_append [simp]: "writes_answered (ts @ us) = writes_answered ts + writes_answered us"
  by (simp add: writes_answered_def)

lemma gets_answer_no_write: "\<forall>q \<in> fst ` set ts. is_get q \<Longrightarrow> writes_answered ts = 0"
  by (auto simp: writes_answered_def filter_empty_conv dest!: answers_in_requests)

section \<open>An adapter's call\<close>

definition call_request :: "string \<Rightarrow> string \<Rightarrow> string \<Rightarrow> (string, json) dict option \<Rightarrow> json option \<Rightarrow> http_request" where
  "call_request base verb path params body =
     \<lparr>hr_method = verb, hr_url = base @ path, hr_headers = [], hr_params = params, hr_json = body\<rparr>"

text \<open>
  What an adapter relies on when it calls through the client: a call keeps the adapter's settings \<open>I\<close> and
  is one exchange of at most \<open>k\<close> requests, all of them allowed for what was asked.
\<close>

locale venue_calls =
  fixes I :: "('v, 'z) http_state_scheme \<Rightarrow> bool"
    and allowed :: "'q \<Rightarrow> http_request \<Rightarrow> bool"
    and call :: "'q \<Rightarrow> (exn, ('v, 'z) http_state_scheme, json) act"
    and k :: nat
  assumes call_is_exchange: "talks I (call q) (exchange (allowed q) k)"
begin

lemma call_sends_only: "sends_only I (allowed q) (call q)"
  unfolding sends_only_def by (rule talks_weaken[OF call_is_exchange]) (auto simp: exchange_def)

lemma call_sends: "(\<And>q'. allowed q q' \<Longrightarrow> S q') \<Longrightarrow> sends_only I S (call q)"
  by (rule sends_only_weaken[OF call_sends_only])

lemma call_answered_once: "talks I (call q) (\<lambda>r ts. length (answers_in ts) \<le> 1)"
  by (rule talks_weaken[OF call_is_exchange])
    (auto simp: exchange_def split: sum.splits dest!: arg_cong[of _ _ length])

lemma call_writes_once: "talks I (call q) (\<lambda>r ts. (\<forall>q' \<in> fst ` set ts. allowed q q') \<and> writes_answered ts \<le> 1)"
proof (rule talks_weaken[OF call_is_exchange])
  fix r ts assume ex: "exchange (allowed q) k r ts"
  then have "length (answers_in ts) \<le> 1" by (auto simp: exchange_def split: sum.splits dest!: arg_cong[of _ _ length])
  then have "writes_answered ts \<le> 1" unfolding writes_answered_def by (rule order_trans[OF length_filter_le])
  then show "(\<forall>q' \<in> fst ` set ts. allowed q q') \<and> writes_answered ts \<le> 1"
    using ex by (simp add: exchange_def)
qed

end

section \<open>A network to evaluate on\<close>

definition sample_response :: "json \<Rightarrow> response" where
  "sample_response payload = \<lparr>rsp_status = 200, rsp_retry_after = None, rsp_has_content = True, rsp_json = Some payload, rsp_text = []\<rparr>"

text \<open>A network that answers from a list of scripted outcomes and whose clock stands still.\<close>

definition scripted_net :: "transport list net" where
  "scripted_net = \<lparr>net_request = (\<lambda>req w. case w of [] \<Rightarrow> (TimedOut, []) | t # ts \<Rightarrow> (t, ts)),
     net_monotonic = (\<lambda>w. (0, w)), net_time = (\<lambda>w. (0, w)), net_utc_now = (\<lambda>w. (0, w)), net_wait = (\<lambda>w. ([(0, 0)], w)),
     net_sleep = (\<lambda>d w. w)\<rparr>"

definition sample_http :: "transport list \<Rightarrow> transport list http_state" where
  "sample_http script = \<lparr>hs_world = script, hs_trace = [],
     hs_rate_limiter = \<lparr>tb_capacity = 5, tb_refill_per_second = 5, tb_tokens = 5, tb_last_refill = 0\<rparr>,
     hs_circuit_breaker = \<lparr>cb_failure_threshold = 3, cb_recovery_timeout = 30, cb_state = CLOSED, cb_failures = 0, cb_opened_at = None\<rparr>,
     hs_max_429_retries = 2, hs_backoff_base_seconds = 1 / 4, hs_max_backoff_seconds = 2\<rparr>"


end
