(* ===== verification/CandleClient.thy ===== *)
theory CandleClient
  imports ProviderHttp MarketData
begin

text \<open>
  \<^verbatim>\<open>data/coinbase.py\<close>: the public market-data client. It needs no credentials and does not retry: one
  admission, one request, and every exception after the admission counts as a failure of the provider.
  The state is that of \<open>ProviderHttp\<close>, whose retry settings it does not read. The candle client of
  \<open>MarketData\<close> is instantiated with it, which discharges the assumption its theorems make of a client.
\<close>

section \<open>Normalization\<close>

text \<open>\<^verbatim>\<open>raw[key]\<close>\<close>

fun jindex :: "json \<Rightarrow> string \<Rightarrow> exn + json" where
  "jindex (JObj d) k = (case map_of d k of None \<Rightarrow> Inl (KeyError k) | Some v \<Rightarrow> Inr v)"
| "jindex _ k = Inl (PyError ''TypeError'')"

text \<open>The seconds that a \<^verbatim>\<open>datetime\<close> can hold: the years 1 to 9999.\<close>

definition epoch_datetime :: "int \<Rightarrow> exn + datetime" where
  "epoch_datetime seconds =
     (if - 62135596800 \<le> seconds \<and> seconds \<le> 253402300799 then Inr (microseconds seconds)
      else Inl (ValueError ''year is out of range''))"

definition utc_from_epoch :: "pylib \<Rightarrow> json \<Rightarrow> exn + datetime" where
  "utc_from_epoch lib v =
     (case lib_int lib v of None \<Rightarrow> Inl (ValueError ''invalid literal for int()'') | Some n \<Rightarrow> epoch_datetime n)"

definition decimal_field :: "pylib \<Rightarrow> json \<Rightarrow> string \<Rightarrow> exn + rat" where
  "decimal_field lib raw key =
     rbind (jindex raw key) (\<lambda>v. case lib_decimal lib (py_str lib v) of
       Some x \<Rightarrow> Inr x | None \<Rightarrow> Inl (ArithmeticError InvalidOperation))"

definition candle_end :: "pylib \<Rightarrow> json \<Rightarrow> datetime \<Rightarrow> int \<Rightarrow> exn + datetime" where
  "candle_end lib raw opened seconds =
     (case raw of
        JObj d \<Rightarrow> (case map_of d ''end'' of
            Some v \<Rightarrow> utc_from_epoch lib v
          | None \<Rightarrow> epoch_datetime (opened div 1000000 + seconds))
      | _ \<Rightarrow> Inl (PyError ''AttributeError''))"

definition normalize_coinbase_candle :: "pylib \<Rightarrow> string \<Rightarrow> json \<Rightarrow> string \<Rightarrow> datetime \<Rightarrow> exn + candle" where
  "normalize_coinbase_candle lib product_id raw interval received_at =
     rbind (jindex raw ''start'') (\<lambda>start.
     rbind (utc_from_epoch lib start) (\<lambda>opened.
     rbind (case map_of GRANULARITY_SECONDS interval of None \<Rightarrow> Inl (KeyError interval) | Some s \<Rightarrow> Inr s) (\<lambda>seconds.
     rbind (candle_end lib raw opened seconds) (\<lambda>closed.
     rbind (decimal_field lib raw ''open'') (\<lambda>op.
     rbind (decimal_field lib raw ''high'') (\<lambda>hi.
     rbind (decimal_field lib raw ''low'') (\<lambda>lo.
     rbind (decimal_field lib raw ''close'') (\<lambda>cl.
     rbind (decimal_field lib raw ''volume'') (\<lambda>vol.
       mk_candle \<lparr>cdl_symbol = product_id, cdl_interval = interval, cdl_opened_at = opened, cdl_closed_at = closed,
         cdl_open = op, cdl_high = hi, cdl_low = lo, cdl_close = cl, cdl_volume = vol,
         cdl_source = ''coinbase-advanced-trade'', cdl_as_of = closed, cdl_ingested_at = received_at\<rparr>)))))))))"

fun rmap :: "('a \<Rightarrow> 'e + 'b) \<Rightarrow> 'a list \<Rightarrow> 'e + 'b list" where
  "rmap f [] = Inr []"
| "rmap f (x # xs) = rbind (f x) (\<lambda>y. rbind (rmap f xs) (\<lambda>ys. Inr (y # ys)))"

lemma rmap_Inr: "rmap f xs = Inr ys \<Longrightarrow> list_all2 (\<lambda>x y. f x = Inr y) xs ys"
  by (induction xs arbitrary: ys) auto

section \<open>The client\<close>

text \<open>\<^verbatim>\<open>raise_for_status\<close> and \<^verbatim>\<open>json()\<close> of the response of one request.\<close>

definition get_response :: "'v net \<Rightarrow> string \<Rightarrow> (string, json) dict option \<Rightarrow> (exn, 'v http_state, response) act" where
  "get_response net url params =
     abind (send net \<lparr>hr_method = ''GET'', hr_url = url, hr_headers = [], hr_params = params, hr_json = None\<rparr>)
       (\<lambda>outcome. case outcome of
          Response rsp \<Rightarrow> aret rsp
        | TimedOut \<Rightarrow> athrow (PyError ''TimeoutException'')
        | TransportFailed \<Rightarrow> athrow (PyError ''HTTPError'')
        | Broken e \<Rightarrow> athrow e)"

definition http_status_error :: "nat \<Rightarrow> exn" where
  "http_status_error code = PyError (''HTTPStatusError '' @ nat_str code)"

definition successful_json :: "response \<Rightarrow> exn + json" where
  "successful_json rsp =
     (if \<not> (200 \<le> rsp_status rsp \<and> rsp_status rsp < 300) then Inl (http_status_error (rsp_status rsp))
      else case (if rsp_has_content rsp then rsp_json rsp else None) of
        None \<Rightarrow> Inl (ValueError ''JSONDecodeError'') | Some j \<Rightarrow> Inr j)"

definition market_data_error :: exn where
  "market_data_error = RuntimeError ''CoinbaseMarketDataError''"

definition product_not_found :: exn where
  "product_not_found = RuntimeError ''CoinbaseProductNotFound''"

text \<open>The \<^verbatim>\<open>try\<close> of each call: a failure counts against the breaker and is raised again.\<close>

definition counted :: "'v net \<Rightarrow> (exn \<Rightarrow> bool) \<Rightarrow> (exn, 'v http_state, 'a) act \<Rightarrow> (exn, 'v http_state, 'a) act" where
  "counted net passes body =
     abind (attempt body) (\<lambda>r. case r of
       Inr x \<Rightarrow> aret x
     | Inl e \<Rightarrow> if passes e then athrow e else abind (count_failure net) (\<lambda>_. athrow e))"

definition admitted :: "'v net \<Rightarrow> (exn \<Rightarrow> bool) \<Rightarrow> (exn, 'v http_state, 'a) act \<Rightarrow> (exn, 'v http_state, 'a) act" where
  "admitted net passes body = abind (admit net) (\<lambda>_. abind (take_token net) (\<lambda>_. counted net passes body))"

definition candle_request_error :: "datetime \<Rightarrow> datetime \<Rightarrow> string \<Rightarrow> exn option" where
  "candle_request_error start stop gran =
     (if stop \<le> start then Some (ValueError ''candle bounds must be timezone-aware and end after start'')
      else case map_of GRANULARITY_SECONDS gran of
        None \<Rightarrow> Some (ValueError (''unsupported Coinbase granularity: '' @ gran))
      | Some seconds \<Rightarrow>
          if microseconds (seconds * MAX_CANDLES_PER_REQUEST) < stop - start
          then Some (ValueError ''candle request exceeds the bounded provider page size'') else None)"

definition int_str :: "int \<Rightarrow> string" where
  "int_str n = (if n < 0 then ''-'' @ nat_str (nat (- n)) else nat_str (nat n))"

text \<open>\<^verbatim>\<open>int(moment.timestamp())\<close> truncates toward zero.\<close>

definition epoch_seconds :: "datetime \<Rightarrow> int" where
  "epoch_seconds t = trunc (of_int t / 1000000)"

definition normalize_all :: "pylib \<Rightarrow> 'v net \<Rightarrow> string \<Rightarrow> string \<Rightarrow> json list \<Rightarrow> (exn, 'v http_state, candle list) act" where
  "normalize_all lib net product_id gran raws =
     abind (ask (net_utc_now net)) (\<lambda>received_at.
       lift (rmap (\<lambda>raw. normalize_coinbase_candle lib product_id raw gran received_at) raws))"

definition get_candles ::
  "pylib \<Rightarrow> 'v net \<Rightarrow> string \<Rightarrow> string \<Rightarrow> datetime \<Rightarrow> datetime \<Rightarrow> string \<Rightarrow> (exn, 'v http_state, candle list) act"
where
  "get_candles lib net base_url product_id start stop gran =
     (case candle_request_error start stop gran of
        Some e \<Rightarrow> athrow e
      | None \<Rightarrow> admitted net (\<lambda>_. False)
          (abind (get_response net (base_url @ ''/market/products/'' @ product_id @ ''/candles'')
             (Some [(''start'', JNum (int_str (epoch_seconds start))), (''end'', JNum (int_str (epoch_seconds stop))),
                    (''granularity'', JStr gran)])) (\<lambda>rsp.
           abind (lift (successful_json rsp)) (\<lambda>payload.
           if \<not> is_mapping payload then athrow (PyError ''AttributeError'')
           else case jget payload ''candles'' of
             JArr raws \<Rightarrow> abind (normalize_all lib net product_id gran raws) (\<lambda>normalized.
               abind count_success (\<lambda>_. aret (sort_key cdl_opened_at normalized)))
           | _ \<Rightarrow> athrow market_data_error))))"

record coinbase_product =
  cpr_product_id :: string
  cpr_status :: string
  cpr_trading_disabled :: bool
  cpr_is_disabled :: bool
  cpr_product_type :: string

definition tradable :: "coinbase_product \<Rightarrow> bool" where
  "tradable p \<longleftrightarrow> cpr_status p = ''online'' \<and> \<not> cpr_trading_disabled p \<and> \<not> cpr_is_disabled p \<and> cpr_product_type p = ''SPOT''"

text \<open>\<^verbatim>\<open>str(payload.get(key, ""))\<close>: a null that is present reads \<^verbatim>\<open>None\<close>.\<close>

fun get_str :: "pylib \<Rightarrow> json \<Rightarrow> string \<Rightarrow> string" where
  "get_str lib (JObj d) k = (case map_of d k of None \<Rightarrow> [] | Some v \<Rightarrow> py_str lib v)"
| "get_str lib _ k = []"

definition product_of :: "pylib \<Rightarrow> string \<Rightarrow> json \<Rightarrow> coinbase_product" where
  "product_of lib product_id payload =
     \<lparr>cpr_product_id = product_id, cpr_status = py_lower (get_str lib payload ''status''),
      cpr_trading_disabled = truthy (jget payload ''trading_disabled''),
      cpr_is_disabled = truthy (jget payload ''is_disabled''),
      cpr_product_type = py_upper (get_str lib payload ''product_type'')\<rparr>"

definition get_product :: "pylib \<Rightarrow> 'v net \<Rightarrow> string \<Rightarrow> string \<Rightarrow> (exn, 'v http_state, coinbase_product) act" where
  "get_product lib net base_url product_id =
     admitted net (\<lambda>e. e = product_not_found)
       (abind (get_response net (base_url @ ''/market/products/'' @ product_id) None) (\<lambda>rsp.
        if rsp_status rsp = 404 then abind count_success (\<lambda>_. athrow product_not_found)
        else abind (lift (successful_json rsp)) (\<lambda>payload.
          if \<not> is_mapping payload \<or> jget payload ''product_id'' \<noteq> JStr product_id then athrow market_data_error
          else abind count_success (\<lambda>_. aret (product_of lib product_id payload)))))"

definition list_public_products_page ::
  "'v net \<Rightarrow> string \<Rightarrow> int \<Rightarrow> int \<Rightarrow> (exn, 'v http_state, json) act"
where
  "list_public_products_page net base_url limit offset =
     (if \<not> (1 \<le> limit \<and> limit \<le> 500) \<or> offset < 0 then athrow (ValueError ''public product page bounds are invalid'')
      else admitted net (\<lambda>_. False)
        (abind (get_response net (base_url @ ''/market/products'')
           (Some [(''product_type'', JStr ''SPOT''), (''limit'', JNum (int_str limit)), (''offset'', JNum (int_str offset))])) (\<lambda>rsp.
         abind (lift (successful_json rsp)) (\<lambda>payload.
           if \<not> is_mapping payload then athrow market_data_error
           else abind count_success (\<lambda>_. aret payload)))))"

section \<open>What the client returns\<close>

lemma normalize_keeps_series:
  "normalize_coinbase_candle lib product_id raw interval received_at = Inr c \<Longrightarrow>
     of_series product_id interval c \<and> valid_candle c"
  unfolding normalize_coinbase_candle_def
  by (auto simp: rbind_Inr_iff mk_candle_def of_series_def split: if_splits)

lemma admitted_InrE:
  assumes "admitted net passes body s = (Inr x, t)"
  obtains u where "body u = (Inr x, t)"
  using assms unfolding admitted_def counted_def
  by (auto elim!: abind_InrE simp: attempt_def split: prod.splits sum.splits if_splits)

lemma normalize_all_series:
  assumes "normalize_all lib net product_id gran raws s = (Inr cs, t)"
  shows "list_all (\<lambda>c. of_series product_id gran c \<and> valid_candle c) cs"
proof -
  obtain received_at where "rmap (\<lambda>raw. normalize_coinbase_candle lib product_id raw gran received_at) raws = Inr cs"
    using assms unfolding normalize_all_def by (auto elim!: abind_InrE simp: lift_def split: sum.splits)
  then have "list_all2 (\<lambda>raw c. normalize_coinbase_candle lib product_id raw gran received_at = Inr c) raws cs"
    by (rule rmap_Inr)
  then show ?thesis by (induction rule: list_all2_induct) (auto dest: normalize_keeps_series)
qed

lemma get_candles_series:
  assumes "get_candles lib net base_url product_id start stop gran s = (Inr cs, t)"
  shows "list_all (\<lambda>c. of_series product_id gran c \<and> valid_candle c) cs \<and> sorted (map cdl_opened_at cs)"
proof -
  obtain raws u v ds where norm: "normalize_all lib net product_id gran raws u = (Inr ds, v)" "cs = sort_key cdl_opened_at ds"
    using assms unfolding get_candles_def
    by (auto elim!: admitted_InrE abind_InrE simp: lift_def count_success_def split: option.splits sum.splits if_splits json.splits)
  then show ?thesis using normalize_all_series[OF norm(1)] by (simp add: list_all_iff)
qed

text \<open>A page of the backfill is never wider than the client allows.\<close>

lemma backfill_page_is_admissible:
  assumes "map_of GRANULARITY_SECONDS gran = Some seconds" "cursor < stop"
  shows "candle_request_error cursor (page_end_of (microseconds seconds) stop cursor) gran = None"
proof -
  have pos: "0 < microseconds seconds" using assms(1) by (rule granularity_positive)
  then have "cursor < page_end_of (microseconds seconds) stop cursor"
    using assms(2) by (simp add: page_end_of_def MAX_CANDLES_PER_REQUEST_def)
  then show ?thesis using assms(1)
    by (auto simp: candle_request_error_def page_end_of_def microseconds_def MAX_CANDLES_PER_REQUEST_def)
qed

definition coinbase_backfill ::
  "pylib \<Rightarrow> 'v net \<Rightarrow> string \<Rightarrow> (rat \<Rightarrow> rat) \<Rightarrow> validator \<Rightarrow> ('v http_state, candle list) backfill_env"
where
  "coinbase_backfill lib net base_url numeric validator =
     \<lparr>bf_get_candles = get_candles lib net base_url, bf_store = sql_candle_ops numeric, bf_validator = validator\<rparr>"

lemma coinbase_keeps_series: "client_keeps_series (coinbase_backfill lib net base_url numeric v)"
  unfolding client_keeps_series_def coinbase_backfill_def
  using get_candles_series by (fastforce simp: list_all_iff)



text \<open>A venue that answers every request with two candles, and a client to ask it.\<close>

definition sample_bucket :: "string \<Rightarrow> json" where
  "sample_bucket start = JObj [(''start'', JStr start), (''open'', JStr ''100''), (''high'', JStr ''101''), (''low'', JStr ''99''),
     (''close'', JStr ''100''), (''volume'', JStr ''5'')]"

definition sample_client_env :: "(transport list http_state, candle list) backfill_env" where
  "sample_client_env = coinbase_backfill demo_lib scripted_net ''https://venue'' id sample_validator"

definition sample_client :: "transport list http_state" where
  "sample_client = sample_http [Response (sample_response (JObj [(''candles'', JArr [sample_bucket ''60'', sample_bucket ''0''])]))]"

lemma sample_client_runs:
  "fst (backfill_run sample_client_env ''BTC-USD'' 0 120000000 ''ONE_MINUTE'' False (sample_client, [])) = Inr 2"
  by code_simp


end
