(* ===== verification/Coinbase.thy ===== *)
theory Coinbase
  imports CandleClient Broker
begin

text \<open>
  \<^verbatim>\<open>brokers/coinbase.py\<close>: the Coinbase Advanced Trade adapter over the client of \<open>ProviderHttp\<close>. The
  adapter's object extends the client's state; the venue is whatever the network answers. Payloads are
  \<open>json\<close> values. The signing of a JWT (PyJWT) and the caller's token provider are parameters, and
  reading the clock is a step of the world. Messages of exceptions are not kept; \<^verbatim>\<open>ProviderOrderRejectedError\<close>
  and \<^verbatim>\<open>AmbiguousSubmissionError\<close> carry their order.
\<close>

section \<open>Constants and state\<close>

definition coinbase_namespace :: uuid where
  "coinbase_namespace = ''8c3c7e68-982d-4e4f-93c1-6d5e7d2c52a1''"

definition page_limit :: json where "page_limit = JNum ''250''"
definition max_account_pages :: nat where "max_account_pages = 40"
definition max_fill_pages :: nat where "max_fill_pages = 20"
definition order_search_pages :: nat where "order_search_pages = 10"
definition order_search_margin :: timedelta where "order_search_margin = microseconds 300"
definition account_snapshot_seconds :: rat where "account_snapshot_seconds = 1"

record jwt_claims =
  jc_subject :: string
  jc_issuer :: string
  jc_not_before :: int
  jc_expires :: int
  jc_uri :: "string option"

record jwt_provider =
  jwt_api_key :: "string option"
  jwt_private_key :: "string option"
  jwt_token_provider :: "(string \<Rightarrow> string \<Rightarrow> exn + string) option"
  jwt_ttl_seconds :: int
  jwt_host :: string
  jwt_cached :: "(string \<times> string, string \<times> rat) dict"

record 'v coinbase = "'v http_state" +
  cb_base_url :: string
  cb_path_prefix :: string
  cb_auth_token :: "string option"
  cb_jwt :: "jwt_provider option"
  cb_requests :: "(string, order_request) dict"
  cb_orders :: "(string, trade_order) dict"
  cb_provider_order_ids :: "(string, string) dict"
  cb_saved_orders :: "(string \<Rightarrow> exn + trade_order option) option"
  cb_account_snapshot :: "(rat \<times> balance list) option"

record 'v surroundings =
  su_lib :: pylib
  su_net :: "'v net"
  su_encode :: "jwt_claims \<Rightarrow> 'v \<Rightarrow> (exn + string) \<times> 'v"

section \<open>Tokens\<close>

definition jwt_init ::
  "string option \<Rightarrow> string option \<Rightarrow> (string \<Rightarrow> string \<Rightarrow> exn + string) option \<Rightarrow> int \<Rightarrow> string \<Rightarrow> exn + jwt_provider"
where
  "jwt_init api_key private_key token_provider ttl host =
     (if ttl \<le> 0 then Inl (ValueError ''JWT TTL must be positive'')
      else if (api_key = None) \<noteq> (private_key = None)
      then Inl (ValueError ''Coinbase api_key and private_key must be supplied together'')
      else if token_provider = None \<and> api_key = None
      then Inl (ValueError ''Coinbase credentials or a token_provider are required'')
      else Inr \<lparr>jwt_api_key = api_key, jwt_private_key = private_key, jwt_token_provider = token_provider,
                jwt_ttl_seconds = ttl, jwt_host = host, jwt_cached = []\<rparr>)"

definition jwt_claims_at :: "jwt_provider \<Rightarrow> rat \<Rightarrow> string option \<Rightarrow> jwt_claims" where
  "jwt_claims_at j now uri =
     \<lparr>jc_subject = (case jwt_api_key j of Some k \<Rightarrow> k | None \<Rightarrow> []), jc_issuer = ''cdp'', jc_not_before = trunc now,
      jc_expires = trunc now + jwt_ttl_seconds j, jc_uri = uri\<rparr>"

definition jwt_issue ::
  "'v surroundings \<Rightarrow> jwt_provider \<Rightarrow> string \<Rightarrow> string \<Rightarrow> string option \<Rightarrow> bool \<Rightarrow> 'v \<Rightarrow> (exn + string) \<times> jwt_provider \<times> 'v"
where
  "jwt_issue env j verb path uri force_refresh w =
     (case net_time (su_net env) w of (now, w1) \<Rightarrow>
        let key = (py_upper verb, path);
            make = (case jwt_token_provider j of
                Some provider \<Rightarrow> (provider verb path, w1)
              | None \<Rightarrow> su_encode env (jwt_claims_at j now uri) w1);
            fresh = (case make of
                (Inl e, w2) \<Rightarrow> (Inl e, j, w2)
              | (Inr tok, w2) \<Rightarrow> (Inr tok, j\<lparr>jwt_cached :=
                  AList.update key (tok, flt (now + of_int (jwt_ttl_seconds j))) (jwt_cached j)\<rparr>, w2)) in
        case map_of (jwt_cached j) key of
          Some (tok, expires) \<Rightarrow> if \<not> force_refresh \<and> flt (now + 5) < expires then (Inr tok, j, w1) else fresh
        | None \<Rightarrow> fresh)"

definition jwt_token ::
  "'v surroundings \<Rightarrow> jwt_provider \<Rightarrow> string \<Rightarrow> string \<Rightarrow> bool \<Rightarrow> 'v \<Rightarrow> (exn + string) \<times> jwt_provider \<times> 'v"
where
  "jwt_token env j verb path force_refresh =
     jwt_issue env j verb path (Some (py_upper verb @ '' '' @ jwt_host j @ path)) force_refresh"

definition jwt_websocket_token ::
  "'v surroundings \<Rightarrow> jwt_provider \<Rightarrow> bool \<Rightarrow> 'v \<Rightarrow> (exn + string) \<times> jwt_provider \<times> 'v"
where
  "jwt_websocket_token env j force_refresh = jwt_issue env j ''WS'' [] None force_refresh"

definition token_for :: "'v surroundings \<Rightarrow> string \<Rightarrow> string \<Rightarrow> bool \<Rightarrow> (exn, 'v coinbase, string) act" where
  "token_for env verb path force s =
     (case cb_auth_token s of
        Some tok \<Rightarrow> (Inr tok, s)
      | None \<Rightarrow>
          (case cb_jwt s of
             None \<Rightarrow> (Inl AssertionError, s)
           | Some j \<Rightarrow>
               (case jwt_token env j verb (cb_path_prefix s @ path) force (hs_world s) of
                  (r, j', w) \<Rightarrow> (r, s\<lparr>cb_jwt := Some j', hs_world := w\<rparr>))))"

definition websocket_token :: "'v surroundings \<Rightarrow> (exn, 'v coinbase, string) act" where
  "websocket_token env s =
     (case cb_auth_token s of
        Some tok \<Rightarrow> (Inr tok, s)
      | None \<Rightarrow>
          (case cb_jwt s of
             None \<Rightarrow> (Inl AssertionError, s)
           | Some j \<Rightarrow>
               (case jwt_websocket_token env j False (hs_world s) of
                  (r, j', w) \<Rightarrow> (r, s\<lparr>cb_jwt := Some j', hs_world := w\<rparr>))))"

definition invalidate_token :: "'v coinbase \<Rightarrow> 'v coinbase" where
  "invalidate_token s = s\<lparr>cb_jwt := map_option (jwt_cached_update (\<lambda>_. [])) (cb_jwt s)\<rparr>"

section \<open>Calls\<close>

definition public_call ::
  "'v surroundings \<Rightarrow> string \<Rightarrow> string \<Rightarrow> (string, json) dict option \<Rightarrow> (exn, 'v coinbase, json) act"
where
  "public_call env verb path params s =
     request_json (su_lib env) (su_net env)
       \<lparr>hr_method = verb, hr_url = cb_base_url s @ path, hr_headers = [], hr_params = params, hr_json = None\<rparr>
       None id s"

definition bearer :: "'v surroundings \<Rightarrow> string \<Rightarrow> string \<Rightarrow> 'v coinbase auth_headers" where
  "bearer env verb path force =
     abind (token_for env verb path force) (\<lambda>tok. aret [(''Authorization'', ''Bearer '' @ tok)])"

text \<open>The \<^verbatim>\<open>finally\<close> clause runs whether the request returned or raised.\<close>

definition private_call ::
  "'v surroundings \<Rightarrow> string \<Rightarrow> string \<Rightarrow> (string, json) dict option \<Rightarrow> json option \<Rightarrow> (exn, 'v coinbase, json) act"
where
  "private_call env verb path params body s =
     (case request_json (su_lib env) (su_net env)
         \<lparr>hr_method = verb, hr_url = cb_base_url s @ path, hr_headers = [], hr_params = params, hr_json = body\<rparr>
         (Some (bearer env verb path)) invalidate_token s of
        (r, t) \<Rightarrow> (r, if verb \<noteq> ''GET'' then t\<lparr>cb_account_snapshot := None\<rparr> else t))"

section \<open>Reading payloads\<close>

fun find_mapping :: "json \<Rightarrow> string list \<Rightarrow> json option" where
  "find_mapping payload [] = None"
| "find_mapping payload (k # ks) = (if is_mapping (jget payload k) then Some (jget payload k) else find_mapping payload ks)"

definition unwrap :: "json \<Rightarrow> string list \<Rightarrow> json" where
  "unwrap payload keys =
     (if \<not> is_mapping payload then JObj []
      else case find_mapping payload keys of Some v \<Rightarrow> v | None \<Rightarrow> payload)"

fun rows :: "json \<Rightarrow> string \<Rightarrow> json list" where
  "rows (JArr xs) key = filter is_mapping xs"
| "rows (JObj d) key = (case map_of d key of Some (JArr xs) \<Rightarrow> filter is_mapping xs | _ \<Rightarrow> [])"
| "rows _ key = []"

fun nested :: "json \<Rightarrow> string list \<Rightarrow> json" where
  "nested v [] = v"
| "nested v (k # ks) = (if is_mapping v then nested (jget v k) ks else JNull)"

definition required_decimal :: "pylib \<Rightarrow> json \<Rightarrow> rat option \<Rightarrow> exn + rat" where
  "required_decimal lib v fallback =
     (if v = JNull
      then case fallback of Some d \<Rightarrow> Inr d | None \<Rightarrow> Inl (ValueError ''provider response omitted a required decimal'')
      else case lib_decimal lib (py_str lib (if is_mapping v then jget v ''value'' else v)) of
        Some x \<Rightarrow> Inr x
      | None \<Rightarrow> Inl (ArithmeticError InvalidOperation))"

definition optional_decimal :: "pylib \<Rightarrow> json \<Rightarrow> exn + rat option" where
  "optional_decimal lib v = (if v = JNull then Inr None else rbind (required_decimal lib v None) (\<lambda>x. Inr (Some x)))"

definition replace_z :: "string \<Rightarrow> string" where
  "replace_z s = concat (map (\<lambda>c. if c = CHR ''Z'' then ''+00:00'' else [c]) s)"

fun numeric_text :: "json \<Rightarrow> string option" where
  "numeric_text (JNum t) = Some t"
| "numeric_text (JBool b) = Some (if b then ''1'' else ''0'')"
| "numeric_text (JStr s) = (if py_isdigit s then Some s else None)"
| "numeric_text _ = None"

definition timestamp :: "'v surroundings \<Rightarrow> json \<Rightarrow> (exn, ('v, 'z) http_state_scheme, datetime) act" where
  "timestamp env v =
     (if v = JNull then ask (net_utc_now (su_net env))
      else let lib = su_lib env;
               read = (case numeric_text v of
                   Some t \<Rightarrow> lib_fromtimestamp lib t
                 | None \<Rightarrow> lib_fromisoformat lib (replace_z (py_str lib v))) in
        case read of Some t \<Rightarrow> aret t | None \<Rightarrow> athrow (ValueError ''timestamp''))"

definition is_missing :: "pylib \<Rightarrow> json \<Rightarrow> bool" where
  "is_missing lib payload \<longleftrightarrow> is_mapping payload \<and>
     py_lower (str_or lib (jget payload ''error'') []) \<in> {''not_found'', ''order_not_found''}"

definition next_cursor :: "pylib \<Rightarrow> json \<Rightarrow> string \<Rightarrow> exn + string" where
  "next_cursor lib payload previous =
     (if \<not> is_mapping payload \<or> jget payload ''has_next'' = JBool False then Inr []
      else let cursor = str_or lib (jget payload ''cursor'') [] in
        if cursor \<noteq> [] \<and> cursor = previous then Inl (bare_http_error 502) else Inr cursor)"

section \<open>Orders out of payloads\<close>

definition cb_order_status :: "pylib \<Rightarrow> json \<Rightarrow> rat \<Rightarrow> exn + order_status" where
  "cb_order_status lib raw requested =
     (let value = py_lower (str_or lib (get_first raw [''status'', ''order_status'']) []) in
      if value = ''unknown_order_status'' then Inr UNKNOWN
      else if value \<in> {''cancelled'', ''canceled'', ''expired''} then Inr CANCELED
      else if value \<in> {''rejected'', ''failed''} \<or> jget raw ''success'' = JBool False then Inr REJECTED
      else rbind (required_decimal lib (get_first raw [''filled_size'', ''filled_quantity'']) (Some 0)) (\<lambda>filled.
        if value = ''filled'' then Inr FILLED
        else if 0 < filled \<or> value \<in> {''partially_filled'', ''partial''} then
          (if value \<noteq> [] \<or> filled < requested then Inr PARTIALLY_FILLED else Inr FILLED)
        else if value \<in> {''pending'', ''pending_submit''} then Inr PENDING_SUBMIT
        else Inr OPEN))"

definition configured_order :: "pylib \<Rightarrow> json \<Rightarrow> exn + rat option \<times> rat option" where
  "configured_order lib raw =
     (case jget raw ''order_configuration'' of
        JObj settings \<Rightarrow>
          (case List.find is_mapping (map snd settings) of
             Some chosen \<Rightarrow> rbind (optional_decimal lib (jget chosen ''base_size'')) (\<lambda>qty.
               rbind (optional_decimal lib (jget chosen ''limit_price'')) (\<lambda>price. Inr (qty, price)))
           | None \<Rightarrow> Inr (None, None))
      | _ \<Rightarrow> Inr (None, None))"

text \<open>A decimal is false when it is zero.\<close>

fun truthy_decimal :: "rat option \<Rightarrow> bool" where
  "truthy_decimal None = False"
| "truthy_decimal (Some x) = (x \<noteq> 0)"

definition cb_side :: "pylib \<Rightarrow> json \<Rightarrow> exn + order_side" where
  "cb_side lib raw =
     (let v = py_lower (str_or lib (jget raw ''side'') ''buy'') in
      if v = ''buy'' then Inr BUY else if v = ''sell'' then Inr SELL else Inl (ValueError ''OrderSide''))"

definition smallest_size :: rat where "smallest_size = 1 / 100000000"

definition recovered_request :: "pylib \<Rightarrow> json \<Rightarrow> string \<Rightarrow> exn + order_request" where
  "recovered_request lib raw key =
     rbind (cb_side lib raw) (\<lambda>side.
     rbind (configured_order lib raw) (\<lambda>(configured_size, configured_price).
     rbind (if truthy_decimal configured_price then Inr configured_price
            else optional_decimal lib (get_first raw [''limit_price'', ''price''])) (\<lambda>limit_price.
     let order_type = (if truthy_decimal limit_price then LIMIT else MARKET) in
     rbind (case configured_size of
              Some q \<Rightarrow> if q \<noteq> 0 then Inr q
                else required_decimal lib (get_first raw [''original_size'', ''size'', ''filled_size'']) (Some smallest_size)
            | None \<Rightarrow> required_decimal lib (get_first raw [''original_size'', ''size'', ''filled_size'']) (Some smallest_size)) (\<lambda>quantity.
     case lib_uuid lib key of
       None \<Rightarrow> Inl (ValueError ''badly formed hexadecimal UUID string'')
     | Some cid \<Rightarrow> mk_request \<lparr>req_signal_id = lib_uuid5 lib coinbase_namespace (''signal|'' @ key),
         req_strategy_version = ''provider-recovery'', req_symbol = str_or lib (jget raw ''product_id'') ''BTC-USD'',
         req_side = side, req_order_type = order_type, req_quantity = max quantity smallest_size,
         req_limit_price = (if order_type = LIMIT then limit_price else None), req_client_order_id = cid,
         req_correlation_id = lib_uuid5 lib coinbase_namespace (''correlation|'' @ key)\<rparr>))))"

definition provider_uuid :: "pylib \<Rightarrow> string \<Rightarrow> uuid" where
  "provider_uuid lib v = (case lib_uuid lib v of Some u \<Rightarrow> u | None \<Rightarrow> lib_uuid5 lib coinbase_namespace v)"

definition mk_order :: "trade_order \<Rightarrow> exn + trade_order" where
  "mk_order ord = (if valid_order ord then Inr ord else Inl (ValidationError ''Order''))"

definition payload_client_id :: "pylib \<Rightarrow> json \<Rightarrow> order_request option \<Rightarrow> string option \<Rightarrow> string" where
  "payload_client_id lib raw request key =
     (let known = (case key of Some k \<Rightarrow> if k \<noteq> [] then Some k else map_option req_client_order_id request
                   | None \<Rightarrow> map_option req_client_order_id request) in
      str_or lib (jget raw ''client_order_id'') (case known of Some k \<Rightarrow> k | None \<Rightarrow> ''None''))"

definition payload_request ::
  "pylib \<Rightarrow> json \<Rightarrow> order_request option \<Rightarrow> string \<Rightarrow> (string, order_request) dict \<Rightarrow> exn + order_request"
where
  "payload_request lib raw request client_id requests =
     (case request of
        Some r \<Rightarrow> Inr r
      | None \<Rightarrow> (case map_of requests client_id of Some r \<Rightarrow> Inr r | None \<Rightarrow> recovered_request lib raw client_id))"

definition order_of_raw ::
  "'v surroundings \<Rightarrow> json \<Rightarrow> order_request \<Rightarrow> string \<Rightarrow> (exn, ('v, 'z) http_state_scheme, trade_order) act"
where
  "order_of_raw env raw r provider_id =
     (let lib = su_lib env in
      abind (lift (cb_order_status lib raw (req_quantity r))) (\<lambda>st.
      abind (lift (required_decimal lib (get_first raw [''filled_size'', ''filled_quantity'', ''executed_size'']) (Some 0))) (\<lambda>filled.
      abind (lift (optional_decimal lib (get_first raw [''average_filled_price'', ''average_fill_price'']))) (\<lambda>average.
      abind (timestamp env (get_first raw [''created_time'', ''created_at''])) (\<lambda>created.
      abind (ask (net_utc_now (su_net env))) (\<lambda>updated.
        lift (mk_order \<lparr>ord_order_id = provider_uuid lib provider_id, ord_request = r, ord_status = st,
          ord_filled_quantity = filled, ord_average_fill_price = average, ord_created_at = created,
          ord_updated_at = updated\<rparr>)))))))"

text \<open>
  The venue's identifier is remembered before the rest of the payload is read, so it stays known when
  that raises.
\<close>

definition order_from_payload ::
  "'v surroundings \<Rightarrow> json \<Rightarrow> order_request option \<Rightarrow> string option \<Rightarrow> (exn, 'v coinbase, trade_order) act"
where
  "order_from_payload env payload request key s =
     (let lib = su_lib env;
          raw = unwrap payload [''order'', ''success_response''];
          client_id = payload_client_id lib raw request key in
      case payload_request lib raw request client_id (cb_requests s) of
        Inl e \<Rightarrow> (Inl e, s)
      | Inr r \<Rightarrow>
          let provider_id = str_or lib (get_first raw [''order_id'', ''id'']) client_id in
          order_of_raw env raw r provider_id
            (s\<lparr>cb_provider_order_ids := AList.update client_id provider_id (cb_provider_order_ids s)\<rparr>))"

definition coinbase_fill :: "'v surroundings \<Rightarrow> json \<Rightarrow> trade_order \<Rightarrow> (exn, 'v coinbase, fill) act" where
  "coinbase_fill env raw ord =
     (let lib = su_lib env in
      abind (lift (required_decimal lib (get_first raw [''size'', ''quantity'']) (Some smallest_size))) (\<lambda>quantity.
      abind (lift (required_decimal lib (jget raw ''price'') (Some smallest_size))) (\<lambda>price.
      abind (lift (required_decimal lib (get_first raw [''commission'', ''fee'']) (Some 0))) (\<lambda>fee.
      abind (timestamp env (get_first raw [''trade_time'', ''timestamp''])) (\<lambda>occurred.
        lift (mk_fill \<lparr>fill_fill_id = str_or lib (get_first raw [''entry_id'', ''trade_id'', ''fill_id''])
            (ord_order_id ord @ ''-'' @ py_str lib (jget raw ''price'')),
          fill_order_id = ord_order_id ord, fill_symbol = req_symbol (ord_request ord),
          fill_side = req_side (ord_request ord), fill_quantity = quantity, fill_price = price, fill_fee = fee,
          fill_fee_asset = str_or lib (get_first raw [''commission_asset'', ''fee_asset'']) ''USD'',
          fill_occurred_at = occurred\<rparr>))))))"

fun amap :: "('a \<Rightarrow> ('e, 's, 'b) act) \<Rightarrow> 'a list \<Rightarrow> ('e, 's, 'b list) act" where
  "amap f [] = aret []"
| "amap f (x # xs) = abind (f x) (\<lambda>y. abind (amap f xs) (\<lambda>ys. aret (y # ys)))"

section \<open>Listings\<close>

definition with_cursor :: "(string, json) dict \<Rightarrow> string \<Rightarrow> (string, json) dict" where
  "with_cursor params cursor = (if cursor \<noteq> [] then AList.update ''cursor'' (JStr cursor) params else params)"

fun paginate_from ::
  "'v surroundings \<Rightarrow> string \<Rightarrow> string \<Rightarrow> (string, json) dict \<Rightarrow> string \<Rightarrow> json list \<Rightarrow> nat \<Rightarrow> (exn, 'v coinbase, json list) act"
where
  "paginate_from env path key base cursor sofar 0 = athrow (bare_http_error 502)"
| "paginate_from env path key base cursor sofar (Suc left) =
     abind (private_call env ''GET'' path (Some (with_cursor base cursor)) None) (\<lambda>payload.
       let page = rows payload key in
       abind (lift (if page \<noteq> [] then next_cursor (su_lib env) payload cursor else Inr [])) (\<lambda>cursor'.
         if cursor' = [] then aret (sofar @ page)
         else paginate_from env path key base cursor' (sofar @ page) left))"

definition paginate ::
  "'v surroundings \<Rightarrow> string \<Rightarrow> string \<Rightarrow> (string, json) dict \<Rightarrow> nat \<Rightarrow> (exn, 'v coinbase, json list) act"
where
  "paginate env path key params max_pages =
     paginate_from env path key (AList.update ''limit'' page_limit params) [] [] max_pages"

text \<open>\<^verbatim>\<open>_saved_order\<close>: an unreadable store gives \<open>None\<close>.\<close>

definition saved_order :: "string \<Rightarrow> 'v coinbase \<Rightarrow> trade_order option" where
  "saved_order key s =
     (case cb_saved_orders s of
        None \<Rightarrow> None
      | Some lookup \<Rightarrow> (case lookup key of Inl _ \<Rightarrow> None | Inr found \<Rightarrow> found))"

fun search_pages ::
  "'v surroundings \<Rightarrow> string \<Rightarrow> (string, json) dict \<Rightarrow> string \<Rightarrow> nat \<Rightarrow> (exn, 'v coinbase, json option) act"
where
  "search_pages env key params cursor 0 = athrow (bare_http_error 502)"
| "search_pages env key params cursor (Suc left) =
     abind (private_call env ''GET'' ''/orders/historical/batch'' (Some (with_cursor params cursor)) None) (\<lambda>payload.
       case List.find (\<lambda>row. py_str (su_lib env) (jget row ''client_order_id'') = key) (rows payload ''orders'') of
         Some row \<Rightarrow> aret (Some row)
       | None \<Rightarrow> abind (lift (next_cursor (su_lib env) payload cursor)) (\<lambda>cursor'.
           if cursor' = [] then
             (if jget payload ''has_next'' = JBool True then athrow (bare_http_error 502) else aret None)
           else search_pages env key params cursor' left))"

definition search_params :: "pylib \<Rightarrow> string \<Rightarrow> 'v coinbase \<Rightarrow> (string, json) dict" where
  "search_params lib key s =
     (let saved = saved_order key s;
          request = (case map_of (cb_requests s) key of Some r \<Rightarrow> Some r | None \<Rightarrow> map_option ord_request saved) in
      [(''limit'', page_limit)] @
      (case request of Some r \<Rightarrow> [(''product_ids'', JArr [JStr (req_symbol r)])] | None \<Rightarrow> []) @
      (case saved of
         Some ord \<Rightarrow> [(''start_date'', JStr (lib_rfc3339 lib (ord_created_at ord - order_search_margin)))]
       | None \<Rightarrow> []))"

definition find_by_client_order_id :: "'v surroundings \<Rightarrow> string \<Rightarrow> (exn, 'v coinbase, json option) act" where
  "find_by_client_order_id env key s =
     search_pages env key (search_params (su_lib env) key s) [] order_search_pages s"

section \<open>Reading the account\<close>

definition balance_of_row :: "'v surroundings \<Rightarrow> datetime \<Rightarrow> json \<Rightarrow> exn + balance option" where
  "balance_of_row env now row =
     (let lib = su_lib env; currency = py_upper (str_or lib (get_first row [''currency'', ''asset'']) []) in
      if currency = [] then Inr None
      else rbind (required_decimal lib (nested row [''available_balance'', ''value'']) (Some 0)) (\<lambda>available.
        rbind (required_decimal lib (nested row [''hold'', ''value'']) (Some 0)) (\<lambda>hold.
          if available \<noteq> 0 \<or> hold \<noteq> 0
          then rbind (mk_balance \<lparr>bal_asset = currency, bal_available = available, bal_hold = hold, bal_as_of = now\<rparr>)
            (\<lambda>b. Inr (Some b))
          else Inr None)))"

definition collect_balances :: "'v surroundings \<Rightarrow> datetime \<Rightarrow> json list \<Rightarrow> exn + balance list" where
  "collect_balances env now listing =
     rfold (\<lambda>row sofar. rbind (balance_of_row env now row) (\<lambda>found.
       Inr (case found of None \<Rightarrow> sofar | Some b \<Rightarrow> sofar @ [b]))) listing []"

definition cb_get_balances :: "'v surroundings \<Rightarrow> (exn, 'v coinbase, balance list) act" where
  "cb_get_balances env =
     abind (paginate env ''/accounts'' ''accounts'' [] max_account_pages) (\<lambda>listing.
     abind (ask (net_utc_now (su_net env))) (\<lambda>now.
     abind (lift (collect_balances env now listing)) (\<lambda>found.
     abind (ask (net_monotonic (su_net env))) (\<lambda>taken s.
       let balances = sort_key bal_asset found in
       (Inr balances, s\<lparr>cb_account_snapshot := Some (taken, balances)\<rparr>)))))"

definition coin_positions :: "datetime \<Rightarrow> balance list \<Rightarrow> position list" where
  "coin_positions now balances =
     map (\<lambda>b. \<lparr>pos_symbol = bal_asset b @ ''-USD'', pos_quantity = dadd (bal_available b) (bal_hold b),
               pos_average_price = None, pos_as_of = now\<rparr>)
       (filter (\<lambda>b. bal_asset b \<noteq> ''USD'' \<and> (bal_available b \<noteq> 0 \<or> bal_hold b \<noteq> 0)) balances)"

definition cb_get_positions :: "'v surroundings \<Rightarrow> (exn, 'v coinbase, position list) act" where
  "cb_get_positions env s =
     (let positions = (\<lambda>balances. abind (ask (net_utc_now (su_net env))) (\<lambda>now. aret (coin_positions now balances))) in
      case cb_account_snapshot s of
        None \<Rightarrow> abind (cb_get_balances env) positions s
      | Some (taken, balances) \<Rightarrow>
          abind (ask (net_monotonic (su_net env))) (\<lambda>now.
            abind (if flt (now - taken) < account_snapshot_seconds then aret balances else cb_get_balances env) positions) s)"

definition cb_get_quote :: "'v surroundings \<Rightarrow> string \<Rightarrow> (exn, 'v coinbase, quote) act" where
  "cb_get_quote env symb =
     abind (public_call env ''GET'' (''/products/'' @ symb @ ''/ticker'') None) (\<lambda>payload.
       let raw = unwrap payload [''ticker'']; lib = su_lib env in
       abind (lift (required_decimal lib (jget raw ''best_bid'') None)) (\<lambda>bid.
       abind (lift (required_decimal lib (jget raw ''best_ask'') None)) (\<lambda>ask_price.
       abind (timestamp env (jget raw ''timestamp'')) (\<lambda>as_of.
       abind (ask (net_utc_now (su_net env))) (\<lambda>received.
         lift (mk_quote \<lparr>q_symbol = symb, q_bid = bid, q_ask = ask_price, q_as_of = as_of,
           q_source = ''coinbase-advanced-trade'', q_received_at = received\<rparr>))))))"

definition get_products :: "'v surroundings \<Rightarrow> string \<Rightarrow> (exn, 'v coinbase, json list) act" where
  "get_products env product_type =
     abind (public_call env ''GET'' ''/products'' (Some [(''product_type'', JStr product_type)])) (\<lambda>payload.
       aret (rows payload ''products''))"

text \<open>\<^verbatim>\<open>key_permissions\<close>: a permission is held only when the venue says so with a JSON true.\<close>

definition key_permissions :: "'v surroundings \<Rightarrow> (exn, 'v coinbase, (string, bool) dict) act" where
  "key_permissions env =
     abind (private_call env ''GET'' ''/key_permissions'' None None) (\<lambda>payload.
       if \<not> is_mapping payload then athrow (bare_http_error 502)
       else aret (map (\<lambda>name. (name, jget payload name = JBool True)) [''can_view'', ''can_trade'', ''can_transfer'']))"

section \<open>Orders\<close>

definition coinbase_order_configuration :: "pylib \<Rightarrow> order_request \<Rightarrow> exn + json" where
  "coinbase_order_configuration lib r =
     (if req_order_type r = MARKET
      then Inr (JObj [(''market_market_ioc'', JObj [(''base_size'', JStr (lib_dec_str lib (req_quantity r)))])])
      else case req_limit_price r of
        None \<Rightarrow> Inl AssertionError
      | Some p \<Rightarrow> Inr (JObj [(''limit_limit_gtc'', JObj [(''base_size'', JStr (lib_dec_str lib (req_quantity r))),
          (''limit_price'', JStr (lib_dec_str lib p)), (''post_only'', JStr ''false'')])]))"

definition require_approval :: "order_request \<Rightarrow> risk_approval \<Rightarrow> exn + unit" where
  "require_approval r apr =
     (if req_signal_id r \<noteq> apr_signal_id apr then Inl (ValueError ''risk approval does not belong to order request'')
      else if \<not> apr_approved apr then Inl (PermissionError ''risk approval is not approved'') else Inr ())"

text \<open>What a lookup does with the payload it found.\<close>

definition look_result :: "'v surroundings \<Rightarrow> string \<Rightarrow> json option \<Rightarrow> (exn, 'v coinbase, trade_order option) act" where
  "look_result env key found =
     (case found of
        None \<Rightarrow> aret None
      | Some payload \<Rightarrow> (\<lambda>s. abind (order_from_payload env payload (map_of (cb_requests s) key) (Some key)) (\<lambda>ord s.
          (Inr (Some ord), s\<lparr>cb_orders := AList.update key ord (cb_orders s)\<rparr>)) s))"

definition cb_look :: "'v surroundings \<Rightarrow> string \<Rightarrow> (exn, 'v coinbase, trade_order option) act" where
  "cb_look env key s =
     (case map_of (cb_provider_order_ids s) key of
        Some provider_id \<Rightarrow>
          abind (attempt (private_call env ''GET'' (''/orders/historical/'' @ provider_id) None None)) (\<lambda>r.
            case r of
              Inr payload \<Rightarrow> look_result env key (if is_missing (su_lib env) payload then None else Some payload)
            | Inl (ProviderHTTPError code path reason) \<Rightarrow>
                if code = 404 then aret None else athrow (ProviderHTTPError code path reason)
            | Inl e \<Rightarrow> athrow e) s
      | None \<Rightarrow> abind (find_by_client_order_id env key) (look_result env key) s)"

definition cb_get_order :: "'v surroundings \<Rightarrow> string \<Rightarrow> (exn, 'v coinbase, trade_order option) act" where
  "cb_get_order env key s =
     (case map_of (cb_orders s) key of
        Some cached \<Rightarrow> if terminal (ord_status cached) then (Inr (Some cached), s) else cb_look env key s
      | None \<Rightarrow> cb_look env key s)"

definition remember :: "string \<Rightarrow> trade_order \<Rightarrow> 'v coinbase \<Rightarrow> 'v coinbase" where
  "remember key ord s = s\<lparr>cb_orders := AList.update key ord (cb_orders s)\<rparr>"

definition order_rejected :: "trade_order \<Rightarrow> exn" where
  "order_rejected ord = ProviderError ''ProviderOrderRejectedError'' (Some ord)"

definition ambiguous_submission :: "trade_order \<Rightarrow> exn" where
  "ambiguous_submission ord = ProviderError ''AmbiguousSubmissionError'' (Some ord)"

text \<open>The exceptions a read-back after an accepted order survives: \<^verbatim>\<open>ProviderError\<close> and its subclasses,
  \<^verbatim>\<open>CircuitOpen\<close> and \<^verbatim>\<open>RateLimitExceeded\<close>.\<close>

definition read_back_failed :: "exn \<Rightarrow> bool" where
  "read_back_failed e \<longleftrightarrow> e = circuit_open \<or> e = rate_limit_exceeded \<or>
     (case e of ProviderError _ _ \<Rightarrow> True | ProviderHTTPError _ _ _ \<Rightarrow> True | _ \<Rightarrow> False)"

definition order_body :: "pylib \<Rightarrow> order_request \<Rightarrow> json \<Rightarrow> json" where
  "order_body lib r configuration =
     JObj [(''client_order_id'', JStr (req_client_order_id r)), (''product_id'', JStr (req_symbol r)),
       (''side'', JStr (py_upper (side_value (req_side r)))), (''order_configuration'', configuration)]"

text \<open>What the answer to the create call, or its failure, becomes.\<close>

definition created :: "'v surroundings \<Rightarrow> order_request \<Rightarrow> trade_order \<Rightarrow> exn + json \<Rightarrow> (exn, 'v coinbase, trade_order) act" where
  "created env r unknown answer =
     (let key = req_client_order_id r; rejected = unknown\<lparr>ord_status := REJECTED\<rparr> in
      case answer of
        Inl e \<Rightarrow>
          if e = provider_timeout then (\<lambda>s. (Inl (ambiguous_submission unknown), remember key unknown s))
          else (case e of
              ProviderHTTPError code path reason \<Rightarrow>
                if code \<in> {400, 422} then (\<lambda>s. (Inl (order_rejected rejected), remember key rejected s)) else athrow e
            | _ \<Rightarrow> athrow e)
      | Inr payload \<Rightarrow>
          if \<not> is_mapping payload then athrow (PyError ''AttributeError'')
          else if jget payload ''success'' = JBool False
          then (\<lambda>s. (Inl (order_rejected rejected), remember key rejected s))
          else abind (order_from_payload env payload (Some r) None) (\<lambda>ord s.
            abind (attempt (cb_get_order env key)) (\<lambda>refreshed.
              case refreshed of
                Inr (Some newer) \<Rightarrow> aret newer
              | Inr None \<Rightarrow> aret ord
              | Inl e \<Rightarrow> if read_back_failed e then aret ord else athrow e) (remember key ord s)))"

definition submit_new :: "'v surroundings \<Rightarrow> order_request \<Rightarrow> (exn, 'v coinbase, trade_order) act" where
  "submit_new env r s =
     (let key = req_client_order_id r in
      abind (ask (net_utc_now (su_net env))) (\<lambda>now.
      let unknown = new_order key r UNKNOWN now in
      abind (lift (coinbase_order_configuration (su_lib env) r)) (\<lambda>configuration.
      abind (attempt (private_call env ''POST'' ''/orders'' None (Some (order_body (su_lib env) r configuration))))
        (created env r unknown)))
      (s\<lparr>cb_requests := AList.update key r (cb_requests s)\<rparr>))"

definition cb_submit_order ::
  "'v surroundings \<Rightarrow> order_request \<Rightarrow> risk_approval \<Rightarrow> (exn, 'v coinbase, trade_order) act"
where
  "cb_submit_order env r apr s =
     abind (lift (require_approval r apr)) (\<lambda>_ s.
       case map_of (cb_orders s) (req_client_order_id r) of
         None \<Rightarrow> submit_new env r s
       | Some existing \<Rightarrow>
           if \<not> unresolved (ord_status existing) then (Inr existing, s)
           else abind (cb_get_order env (req_client_order_id r)) (\<lambda>recovered.
             case recovered of
               Some ord \<Rightarrow> if ord_status ord \<noteq> UNKNOWN then aret ord else submit_new env r
             | None \<Rightarrow> submit_new env r) s) s"

definition cb_get_fills :: "'v surroundings \<Rightarrow> string \<Rightarrow> (exn, 'v coinbase, fill list) act" where
  "cb_get_fills env key s =
     (let listing = (\<lambda>provider_id.
          abind (paginate env ''/orders/historical/fills'' ''fills'' [(''order_ids'', JArr [JStr provider_id])] max_fill_pages)
            (\<lambda>found s. abind (case map_of (cb_orders s) key of Some ord \<Rightarrow> aret (Some ord) | None \<Rightarrow> cb_get_order env key)
              (\<lambda>ord. case ord of None \<Rightarrow> aret [] | Some ord \<Rightarrow> amap (\<lambda>row. coinbase_fill env row ord) found) s)) in
      case map_of (cb_provider_order_ids s) key of
        Some provider_id \<Rightarrow> listing provider_id s
      | None \<Rightarrow> abind (cb_get_order env key) (\<lambda>ord s.
          if ord = None then (Inr [], s)
          else case map_of (cb_provider_order_ids s) key of None \<Rightarrow> (Inr [], s) | Some provider_id \<Rightarrow> listing provider_id s) s)"

definition current_order :: "'v surroundings \<Rightarrow> string \<Rightarrow> (exn, 'v coinbase, trade_order option) act" where
  "current_order env key s =
     (case map_of (cb_orders s) key of Some ord \<Rightarrow> (Inr (Some ord), s) | None \<Rightarrow> cb_get_order env key s)"

definition cb_cancel_order :: "'v surroundings \<Rightarrow> string \<Rightarrow> (exn, 'v coinbase, trade_order option) act" where
  "cb_cancel_order env key s =
     (let known = map_of (cb_provider_order_ids s) key in
      abind (current_order env key) (\<lambda>found.
        case found of
          None \<Rightarrow> aret None
        | Some current \<Rightarrow>
            let provider_id = (case known of Some p \<Rightarrow> if p \<noteq> [] then p else ord_order_id current | None \<Rightarrow> ord_order_id current) in
            abind (private_call env ''POST'' ''/orders/batch_cancel'' None
                (Some (JObj [(''order_ids'', JArr [JStr provider_id])]))) (\<lambda>payload.
              if \<not> (\<exists>row \<in> set (rows payload ''results''). jget row ''success'' = JBool True) then athrow (bare_http_error 409)
              else abind (cb_get_order env key) (\<lambda>refreshed.
                aret (Some (case refreshed of Some ord \<Rightarrow> ord | None \<Rightarrow> current))))) s)"

definition cb_replacement :: "'v surroundings \<Rightarrow> string \<Rightarrow> trade_order \<Rightarrow> rat \<Rightarrow> rat \<Rightarrow> rat \<Rightarrow> order_request" where
  "cb_replacement env key current quantity limit_price remaining =
     (let lib = su_lib env in
      (ord_request current)\<lparr>req_quantity := remaining, req_limit_price := Some limit_price,
        req_client_order_id := lib_uuid5 lib coinbase_namespace
          (key @ ''|'' @ lib_dec_str lib quantity @ ''|'' @ lib_dec_str lib limit_price)\<rparr>)"

definition cb_edit_in_place :: "'v surroundings \<Rightarrow> string \<Rightarrow> rat \<Rightarrow> rat \<Rightarrow> trade_order \<Rightarrow> (exn, 'v coinbase, trade_order) act" where
  "cb_edit_in_place env key quantity limit_price current s =
     (let lib = su_lib env;
          provider_id = (case map_of (cb_provider_order_ids s) key of Some p \<Rightarrow> p | None \<Rightarrow> ord_order_id current) in
      abind (private_call env ''POST'' ''/orders/edit'' None
          (Some (JObj [(''order_id'', JStr provider_id), (''size'', JStr (lib_dec_str lib quantity)),
             (''price'', JStr (lib_dec_str lib limit_price))]))) (\<lambda>payload.
        if jget payload ''success'' \<noteq> JBool True then athrow (bare_http_error 409)
        else (\<lambda>s. abind (cb_get_order env key) (\<lambda>updated. case updated of None \<Rightarrow> athrow (KeyError key) | Some ord \<Rightarrow> aret ord)
          (s\<lparr>cb_requests := AList.update key ((ord_request current)\<lparr>req_quantity := quantity, req_limit_price := Some limit_price\<rparr>)
               (cb_requests s),
             cb_orders := AList.delete key (cb_orders s)\<rparr>))) s)"

definition cb_cancel_and_replace ::
  "'v surroundings \<Rightarrow> string \<Rightarrow> rat \<Rightarrow> rat \<Rightarrow> risk_approval \<Rightarrow> trade_order \<Rightarrow> (exn, 'v coinbase, trade_order) act"
where
  "cb_cancel_and_replace env key quantity limit_price apr current =
     abind (cb_cancel_order env key) (\<lambda>cancelled.
       case cancelled of
         None \<Rightarrow> athrow (KeyError key)
       | Some canceled \<Rightarrow> abind (lift (replacement_quantity canceled quantity)) (\<lambda>remaining.
           if remaining \<le> 0 then aret canceled
           else cb_submit_order env (cb_replacement env key current quantity limit_price remaining) apr))"

definition cb_edit_order ::
  "'v surroundings \<Rightarrow> string \<Rightarrow> rat \<Rightarrow> rat \<Rightarrow> risk_approval option \<Rightarrow> (exn, 'v coinbase, trade_order) act"
where
  "cb_edit_order env key quantity limit_price approval =
     (if quantity \<le> 0 \<or> limit_price \<le> 0 then athrow (ValueError ''edited quantity and limit_price must be positive'')
      else abind (current_order env key) (\<lambda>found.
        case found of
          None \<Rightarrow> athrow (KeyError key)
        | Some current \<Rightarrow>
            if terminal (ord_status current) then athrow (ValueError ''terminal orders cannot be edited'')
            else if req_order_type (ord_request current) \<noteq> LIMIT then athrow (ValueError ''only open limit orders can be edited'')
            else if ord_status current \<in> {OPEN, PARTIALLY_FILLED} \<and> ord_filled_quantity current \<le> quantity
            then cb_edit_in_place env key quantity limit_price current
            else (case approval of
                None \<Rightarrow> athrow (PermissionError ''cancel-and-replace requires a fresh RiskApproval'')
              | Some apr \<Rightarrow> cb_cancel_and_replace env key quantity limit_price apr current)))"

definition cb_get_candles ::
  "'v surroundings \<Rightarrow> string \<Rightarrow> datetime \<Rightarrow> datetime \<Rightarrow> string \<Rightarrow> (exn, 'v coinbase, candle list) act"
where
  "cb_get_candles env product_id start stop gran =
     (if stop \<le> start then athrow (ValueError ''candle bounds must be timezone-aware and end after start'')
      else if map_of GRANULARITY_SECONDS gran = None then athrow (ValueError (''unsupported Coinbase granularity: '' @ gran))
      else abind (public_call env ''GET'' (''/products/'' @ product_id @ ''/candles'')
          (Some [(''start'', JNum (int_str (epoch_seconds start))), (''end'', JNum (int_str (epoch_seconds stop))),
                 (''granularity'', JStr gran)])) (\<lambda>payload.
        abind (ask (net_utc_now (su_net env))) (\<lambda>received_at.
        abind (lift (rmap (\<lambda>raw. normalize_coinbase_candle (su_lib env) product_id raw gran received_at) (rows payload ''candles''))) (\<lambda>candles.
          aret (sort_key cdl_opened_at candles)))))"

section \<open>The object\<close>

definition coinbase_capabilities :: broker_capabilities where
  "coinbase_capabilities = \<lparr>cap_provider = ''coinbase-advanced-trade'', cap_environment = ''production'',
     cap_streaming = True, cap_historical_candles = True, cap_native_order_edit = True, cap_preview_orders = False,
     cap_order_types = [''market'', ''limit''], cap_price_increment = 1 / 100, cap_quantity_increment = 1 / 100000000,
     cap_max_quote_age_seconds = 60, cap_balance_increments = []\<rparr>"

lemma coinbase_capabilities_valid: "valid_capabilities coinbase_capabilities"
  by (simp add: valid_capabilities_def coinbase_capabilities_def)

definition rstrip_slash :: "string \<Rightarrow> string" where
  "rstrip_slash u = rev (dropWhile (\<lambda>c. c = CHR ''/'') (rev u))"

text \<open>
  The constructor: \<open>host\<close> is \<^verbatim>\<open>urlparse\<close>'s host name, \<open>own_client\<close> says that no client was passed in.
  A credential that is an empty text is not a credential to \<^verbatim>\<open>any\<close>.
\<close>

definition coinbase_init ::
  "pylib \<Rightarrow> (string \<Rightarrow> string option) \<Rightarrow> 'v http_state \<Rightarrow> string option \<Rightarrow> string option \<Rightarrow>
     (string \<Rightarrow> string \<Rightarrow> exn + string) option \<Rightarrow> string option \<Rightarrow> bool \<Rightarrow> string \<Rightarrow> exn + 'v coinbase"
where
  "coinbase_init lib host http api_key private_key token_provider auth_token own_client base_url =
     (let given = (\<lambda>t. case t of Some x \<Rightarrow> x \<noteq> [] | None \<Rightarrow> False) in
      if auth_token \<noteq> None \<and> (given api_key \<or> given private_key \<or> token_provider \<noteq> None)
      then Inl (ValueError ''use auth_token or Coinbase credentials, not both'')
      else if take 8 base_url \<noteq> ''https://'' \<and> own_client
      then Inl (ValueError ''Coinbase broker requires an HTTPS base URL'')
      else
        rbind (case auth_token of
            Some _ \<Rightarrow> Inr None
          | None \<Rightarrow> rbind (jwt_init api_key private_key token_provider 120
              (case host (rstrip_slash base_url) of Some h \<Rightarrow> if h \<noteq> [] then h else ''api.coinbase.com'' | None \<Rightarrow> ''api.coinbase.com''))
              (\<lambda>j. Inr (Some j))) (\<lambda>jwt.
        Inr (http_state.extend http \<lparr>cb_base_url = rstrip_slash base_url, cb_path_prefix = lib_url_path lib (rstrip_slash base_url),
          cb_auth_token = auth_token, cb_jwt = jwt, cb_requests = [], cb_orders = [], cb_provider_order_ids = [],
          cb_saved_orders = None, cb_account_snapshot = None\<rparr>)))"

definition use_saved_orders :: "(string \<Rightarrow> exn + trade_order option) \<Rightarrow> 'v coinbase \<Rightarrow> 'v coinbase" where
  "use_saved_orders lookup s = s\<lparr>cb_saved_orders := Some lookup\<rparr>"

definition coinbase_ops :: "'v surroundings \<Rightarrow> 'v coinbase broker_ops" where
  "coinbase_ops env = \<lparr>bo_get_quote = cb_get_quote env, bo_get_balances = cb_get_balances env,
     bo_get_positions = cb_get_positions env, bo_submit_order = cb_submit_order env,
     bo_get_order = cb_get_order env, bo_get_fills = cb_get_fills env\<rparr>"

section \<open>Order events\<close>

record order_event =
  oe_client_order_id :: string
  oe_status :: string
  oe_provider_order_id :: "string option"
  oe_filled_quantity :: string
  oe_observed_at :: "string option"

definition some_str :: "pylib \<Rightarrow> json \<Rightarrow> string option" where
  "some_str lib v = (if truthy v then Some (py_str lib v) else None)"

definition coinbase_event :: "pylib \<Rightarrow> json \<Rightarrow> order_event" where
  "coinbase_event lib raw =
     \<lparr>oe_client_order_id = py_str lib (get_first raw [''client_order_id'', ''client_order_id'']),
      oe_status = py_lower (str_or lib (get_first raw [''status'', ''order_status'']) ''UNKNOWN''),
      oe_provider_order_id = some_str lib (jget raw ''order_id''),
      oe_filled_quantity = str_or lib (get_first raw [''filled_size'', ''cumulative_quantity'']) ''0'',
      oe_observed_at = some_str lib (jget raw ''timestamp'')\<rparr>"

text \<open>\<^verbatim>\<open>payload.get(key, [])\<close> iterated: anything but a mapping, or a value that is no list, raises. (A
  mapping or a text is iterable too, but its keys and characters have no \<^verbatim>\<open>get\<close>.)\<close>

definition get_list :: "json \<Rightarrow> string \<Rightarrow> exn + json list" where
  "get_list payload key =
     (case payload of
        JObj d \<Rightarrow> (case map_of d key of
            None \<Rightarrow> Inr []
          | Some (JArr xs) \<Rightarrow> Inr xs
          | Some (JObj []) \<Rightarrow> Inr []
          | Some (JStr []) \<Rightarrow> Inr []
          | Some (JObj _) \<Rightarrow> Inl (PyError ''AttributeError'')
          | Some (JStr _) \<Rightarrow> Inl (PyError ''AttributeError'')
          | Some _ \<Rightarrow> Inl (PyError ''TypeError''))
      | _ \<Rightarrow> Inl (PyError ''AttributeError''))"

definition coinbase_events :: "pylib \<Rightarrow> json \<Rightarrow> exn + order_event list" where
  "coinbase_events lib payload =
     rbind (get_list payload ''events'') (\<lambda>events.
     rbind (rmap (\<lambda>event. rbind (get_list event ''orders'') (rmap (\<lambda>raw.
         if is_mapping raw then Inr (coinbase_event lib raw) else Inl (PyError ''AttributeError'')))) events) (\<lambda>found.
       Inr (concat found)))"

section \<open>What the adapter sends\<close>

definition cb_settings :: "int \<Rightarrow> string \<Rightarrow> 'v coinbase \<Rightarrow> bool" where
  "cb_settings n base s \<longleftrightarrow> hs_max_429_retries s = n \<and> cb_base_url s = base"

lemma cb_settings_steady: "steady (cb_settings n base)"
  by (simp add: steady_def cb_settings_def)

lemma talks_token_for: "talks (cb_settings n base) (token_for env verb path force) no_traffic"
  by (rule talks_quiet) (auto simp: token_for_def cb_settings_def no_traffic_def split: option.splits prod.splits)

lemma talks_bearer: "talks (cb_settings n base) (bearer env verb path force) no_traffic"
  unfolding bearer_def by (rule talks_after_no_traffic[OF talks_token_for]) (auto simp: no_traffic_def)

lemma talks_private_call:
  "talks (cb_settings n base) (private_call env verb path params body)
     (exchange (same_call (call_request base verb path params body)) (2 * nat (n + 1)))"
proof -
  let ?req = "call_request base verb path params body"
  have step: "talks (cb_settings n base) (request_json (su_lib env) (su_net env) ?req (Some (bearer env verb path)) invalidate_token)
      (exchange (same_call ?req) (2 * nat (n + 1)))"
  proof (rule request_json_talks[OF cb_settings_steady])
    show "talks (cb_settings n base) (headers again) no_traffic" if "Some (bearer env verb path) = Some headers" for headers again
      using that talks_bearer by blast
  qed (auto simp: cb_settings_def invalidate_token_def)
  show ?thesis unfolding talks_def
  proof (intro allI impI)
    fix s :: "'a coinbase" assume I: "cb_settings n base s"
    then have req: "\<lparr>hr_method = verb, hr_url = cb_base_url s @ path, hr_headers = [], hr_params = params, hr_json = body\<rparr> = ?req"
      by (simp add: call_request_def cb_settings_def)
    obtain r t where run: "request_json (su_lib env) (su_net env) ?req (Some (bearer env verb path)) invalidate_token s = (r, t)"
      by force
    obtain ts where "cb_settings n base t" "hs_trace t = hs_trace s @ ts" "exchange (same_call ?req) (2 * nat (n + 1)) r ts"
      using talksD[OF step I run] .
    then show "cb_settings n base (snd (private_call env verb path params body s)) \<and>
        (\<exists>ts. hs_trace (snd (private_call env verb path params body s)) = hs_trace s @ ts \<and>
          exchange (same_call ?req) (2 * nat (n + 1)) (fst (private_call env verb path params body s)) ts)"
      by (auto simp: private_call_def req run cb_settings_def)
  qed
qed

interpretation coinbase: venue_calls "cb_settings n base"
    "\<lambda>(verb, path, params, body). same_call (call_request base verb path params body)"
    "\<lambda>(verb, path, params, body). private_call env verb path params body" "2 * nat (n + 1)" for n base env
  by unfold_locales (use talks_private_call in force)

lemma gets_call: "sends_only (cb_settings n base) is_get (private_call env ''GET'' path params body)"
  using coinbase.call_sends[where q = "(''GET'', path, params, body)" and base = base and n = n and env = env]
  by (simp add: call_request_def same_call_def)

text \<open>
  C17. A call to the venue sends the request it was given and nothing else, at most twice the configured
  number of attempts, and its payload is that of the one answer below 400; when it raises, the venue
  answered none of what was sent below 400.
\<close>

theorem call_is_bounded_and_answered:
  "\<exists>ts. hs_trace (snd (private_call env verb path params body s)) = hs_trace s @ ts \<and>
     length ts \<le> 2 * nat (hs_max_429_retries s + 1) \<and>
     (\<forall>(q, t) \<in> set ts. hr_method q = verb \<and> hr_url q = cb_base_url s @ path \<and> hr_params q = params \<and> hr_json q = body) \<and>
     map snd (answers_in ts) = (case fst (private_call env verb path params body s) of Inr p \<Rightarrow> [p] | Inl _ \<Rightarrow> [])"
proof -
  have "cb_settings (hs_max_429_retries s) (cb_base_url s) s" by (simp add: cb_settings_def)
  then show ?thesis
    using talks_private_call[of "hs_max_429_retries s" "cb_base_url s" env verb path params body]
    by (fastforce simp: talks_def exchange_def same_call_def call_request_def)
qed

definition sample_env :: "transport list surroundings" where
  "sample_env = \<lparr>su_lib = demo_lib, su_net = scripted_net, su_encode = (\<lambda>c w. (Inr ''jwt'', w))\<rparr>"

definition sample_coinbase :: "transport list \<Rightarrow> transport list coinbase" where
  "sample_coinbase script = http_state.extend (sample_http script)
     \<lparr>cb_base_url = ''https://venue'', cb_path_prefix = [], cb_auth_token = Some ''token'', cb_jwt = None, cb_requests = [],
      cb_orders = [], cb_provider_order_ids = [], cb_saved_orders = None, cb_account_snapshot = None\<rparr>"

definition answer :: "json \<Rightarrow> transport" where
  "answer payload = Response (sample_response payload)"

lemma sample_coinbase_fresh:
  "hs_trace (sample_coinbase script) = []" "cb_base_url (sample_coinbase script) = ''https://venue''"
  "hs_max_429_retries (sample_coinbase script) = 2"
  by (simp_all add: sample_coinbase_def sample_http_def http_state.defs)

definition one_call :: "(exn + json) \<times> transport list coinbase" where
  "one_call = private_call sample_env ''GET'' ''/orders/historical/batch'' None None (sample_coinbase [answer (JObj [])])"

lemma one_call_returns: "fst one_call = Inr (JObj [])"
  by code_simp

theorem call_is_bounded_and_answered_witness:
  "length (hs_trace (snd one_call)) \<le> 6 \<and> map snd (answers_in (hs_trace (snd one_call))) = [JObj []] \<and>
    list_all (\<lambda>(q, t). hr_url q = ''https://venue/orders/historical/batch'' \<and> hr_json q = None) (hs_trace (snd one_call))"
  using call_is_bounded_and_answered[of sample_env "''GET''" "''/orders/historical/batch''" None None "sample_coinbase [answer (JObj [])]"]
    one_call_returns unfolding one_call_def sample_coinbase_fresh by (auto simp: list_all_iff)

section \<open>An order is ruled out only by a whole listing\<close>

text \<open>
  The pages of one listing: each is the answer to a request with the cursor of the page before it, and
  the last one says that there is no more.
\<close>

definition last_page :: "pylib \<Rightarrow> json \<Rightarrow> bool" where
  "last_page lib p \<longleftrightarrow> \<not> is_mapping p \<or> jget p ''has_next'' = JBool False \<or>
     (str_or lib (jget p ''cursor'') [] = [] \<and> jget p ''has_next'' \<noteq> JBool True)"

fun whole_listing :: "pylib \<Rightarrow> string \<Rightarrow> (string, json) dict \<Rightarrow> string \<Rightarrow> (http_request \<times> json) list \<Rightarrow> bool" where
  "whole_listing lib url params cursor [] = False"
| "whole_listing lib url params cursor ((q, p) # rest) =
     (hr_method q = ''GET'' \<and> hr_url q = url \<and> hr_params q = Some (with_cursor params cursor) \<and>
      (if rest = [] then last_page lib p
       else whole_listing lib url params (str_or lib (jget p ''cursor'') []) rest))"

definition listed :: "pylib \<Rightarrow> string \<Rightarrow> json \<Rightarrow> bool" where
  "listed lib key p \<longleftrightarrow> (\<exists>row \<in> set (rows p ''orders''). py_str lib (jget row ''client_order_id'') = key)"

definition ruled_out :: "pylib \<Rightarrow> string \<Rightarrow> string \<Rightarrow> (string, json) dict \<Rightarrow> string \<Rightarrow> (http_request \<times> transport) list \<Rightarrow> bool" where
  "ruled_out lib url key params cursor ts \<longleftrightarrow>
     whole_listing lib url params cursor (answers_in ts) \<and> (\<forall>(q, p) \<in> set (answers_in ts). \<not> listed lib key p)"

lemma find_NoneD: "List.find P xs = None \<Longrightarrow> x \<in> set xs \<Longrightarrow> \<not> P x"
  by (auto simp: find_None_iff)

lemma search_pages_talks:
  "talks (cb_settings n base) (search_pages env key params cursor left)
     (\<lambda>r ts. r = Inr None \<longrightarrow> length (answers_in ts) \<le> left \<and>
        ruled_out (su_lib env) (base @ ''/orders/historical/batch'') key params cursor ts)"
proof (induction left arbitrary: cursor)
  case (Suc left)
  let ?req = "call_request base ''GET'' ''/orders/historical/batch'' (Some (with_cursor params cursor)) None"
  let ?R = "\<lambda>payload r us. r = Inr None \<longrightarrow> \<not> listed (su_lib env) key payload \<and>
     (us = [] \<and> last_page (su_lib env) payload \<or>
      (length (answers_in us) \<le> left \<and> ruled_out (su_lib env) (base @ ''/orders/historical/batch'') key params (str_or (su_lib env) (jget payload ''cursor'') []) us))"
  show ?case unfolding search_pages.simps
  proof (rule talks_bind[OF talks_private_call, where R = ?R])
    fix payload
    show "talks (cb_settings n base) (case List.find (\<lambda>row. py_str (su_lib env) (jget row ''client_order_id'') = key) (rows payload ''orders'') of
         Some row \<Rightarrow> aret (Some row)
       | None \<Rightarrow> abind (lift (next_cursor (su_lib env) payload cursor)) (\<lambda>cursor'.
           if cursor' = [] then
             (if jget payload ''has_next'' = JBool True then athrow (bare_http_error 502) else aret None)
           else search_pages env key params cursor' left)) (?R payload)"
    proof (cases "List.find (\<lambda>row. py_str (su_lib env) (jget row ''client_order_id'') = key) (rows payload ''orders'')")
      case None
      then have absent: "\<not> listed (su_lib env) key payload" by (auto simp: listed_def dest: find_NoneD)
      show ?thesis unfolding None option.case
      proof (rule talks_bind[OF talks_lift, where R = "\<lambda>_. ?R payload"])
        fix cursor' ts
        assume next_is: "Inr cursor' = next_cursor (su_lib env) payload cursor \<and> ts = ([] :: (http_request \<times> transport) list)"
        show "talks (cb_settings n base) (if cursor' = [] then
             (if jget payload ''has_next'' = JBool True then athrow (bare_http_error 502) else aret None)
           else search_pages env key params cursor' left) (?R payload)"
        proof (cases "cursor' = []")
          case True
          then show ?thesis using next_is absent
            by (auto simp: next_cursor_def last_page_def Let_def split: if_splits)
        next
          case False
          then have "str_or (su_lib env) (jget payload ''cursor'') [] = cursor'" using next_is
            by (auto simp: next_cursor_def Let_def split: if_splits)
          then show ?thesis using False Suc.IH[of cursor'] absent by (auto elim: talks_weaken)
        qed
      qed auto
    qed auto
  next
    fix payload ts r us
    assume "exchange (same_call ?req) (2 * nat (n + 1)) (Inr payload) ts" "?R payload r us"
    then obtain q where q: "answers_in ts = [(q, payload)]" "same_call ?req q" and R: "?R payload r us"
      using exchange_answer by blast
    have "us = [] \<Longrightarrow> answers_in us = []" by simp
    then show "r = Inr None \<longrightarrow> length (answers_in (ts @ us)) \<le> Suc left \<and> ruled_out (su_lib env) (base @ ''/orders/historical/batch'') key params cursor (ts @ us)"
      using q R by (auto simp: ruled_out_def same_call_def call_request_def split: if_splits)
  qed simp
qed (simp add: talks_athrow)

lemma find_talks:
  assumes "cb_settings n base s" "find_by_client_order_id env key s = (Inr None, s')"
  obtains ts where "cb_settings n base s'" "hs_trace s' = hs_trace s @ ts" "length (answers_in ts) \<le> order_search_pages"
    "ruled_out (su_lib env) (base @ ''/orders/historical/batch'') key (search_params (su_lib env) key s) [] ts"
  using talksD[OF search_pages_talks assms(1) assms(2)[unfolded find_by_client_order_id_def]] by auto

text \<open>
  C14. The search answers "no such order" only when the pages it read are a whole listing of its window,
  from the first page to the one that ends it, at most ten, and the order is on none of them.
\<close>

theorem order_ruled_out_only_by_whole_listing:
  assumes "map_of (cb_provider_order_ids s) key = None"
    and "cb_get_order env key s = (Inr None, s')"
  shows "\<exists>ts. hs_trace s' = hs_trace s @ ts \<and> length (answers_in ts) \<le> order_search_pages \<and>
    whole_listing (su_lib env) (cb_base_url s @ ''/orders/historical/batch'') (search_params (su_lib env) key s) [] (answers_in ts) \<and>
    (\<forall>(q, p) \<in> set (answers_in ts). \<not> listed (su_lib env) key p)"
proof -
  have I: "cb_settings (hs_max_429_retries s) (cb_base_url s) s" by (simp add: cb_settings_def)
  have "find_by_client_order_id env key s = (Inr None, s')"
    using assms
    by (auto simp: cb_get_order_def cb_look_def look_result_def abind_def split: option.splits prod.splits sum.splits if_splits)
  from find_talks[OF I this] show ?thesis unfolding ruled_out_def by metis
qed

definition order_page :: "string \<Rightarrow> string \<Rightarrow> transport" where
  "order_page key cursor = answer (JObj [(''orders'', JArr [JObj [(''client_order_id'', JStr key)]]), (''cursor'', JStr cursor)])"

lemma sample_search:
  "fst (cb_get_order sample_env ''mine'' (sample_coinbase [order_page ''other'' ''next'', order_page ''another'' ''''])) = Inr None"
  by code_simp

theorem order_ruled_out_only_by_whole_listing_witness:
  "\<exists>ts. hs_trace (snd (cb_get_order sample_env ''mine'' (sample_coinbase [order_page ''other'' ''next'', order_page ''another'' '''']))) = ts \<and>
    list_all (\<lambda>(q, p). \<not> listed demo_lib ''mine'' p) (answers_in ts)"
proof -
  let ?s = "sample_coinbase [order_page ''other'' ''next'', order_page ''another'' '''']"
  obtain s' where run: "cb_get_order sample_env ''mine'' ?s = (Inr None, s')"
    using sample_search by (metis prod.collapse)
  have fresh: "map_of (cb_provider_order_ids ?s) ''mine'' = None" "hs_trace ?s = []"
    by (simp_all add: sample_coinbase_def sample_http_def http_state.defs)
  from order_ruled_out_only_by_whole_listing[OF fresh(1) run] show ?thesis
    by (auto simp: run fresh(2) sample_env_def[THEN arg_cong, of su_lib, simplified] list_all_iff)
qed


section \<open>A live order is never settled\<close>

text \<open>
  What the venue has to say for an order to be settled: a status that ends it, a refusal, or, in an
  acknowledgement that carries no status, a filled size that is not below the size requested. Each of
  the three settled statuses has its own words.
\<close>

definition status_text :: "pylib \<Rightarrow> json \<Rightarrow> string" where
  "status_text lib raw = py_lower (str_or lib (get_first raw [''status'', ''order_status'']) [])"

definition says_settled :: "pylib \<Rightarrow> json \<Rightarrow> rat \<Rightarrow> order_status \<Rightarrow> bool" where
  "says_settled lib raw requested st \<longleftrightarrow>
     (case st of
        CANCELED \<Rightarrow> status_text lib raw \<in> {''cancelled'', ''canceled'', ''expired''}
      | REJECTED \<Rightarrow> status_text lib raw \<in> {''rejected'', ''failed''} \<or> jget raw ''success'' = JBool False
      | FILLED \<Rightarrow> status_text lib raw = ''filled'' \<or>
          (status_text lib raw = [] \<and> (\<exists>filled. required_decimal lib (get_first raw [''filled_size'', ''filled_quantity'']) (Some 0) = Inr filled \<and>
            0 < filled \<and> requested \<le> filled))
      | _ \<Rightarrow> False)"

lemma settled_status_said:
  "cb_order_status lib raw requested = Inr st \<Longrightarrow> terminal st \<Longrightarrow> says_settled lib raw requested st"
  unfolding cb_order_status_def says_settled_def status_text_def Let_def
  by (auto simp: rbind_Inr_iff split: if_splits)

lemma unknown_status_said:
  "cb_order_status lib raw requested = Inr UNKNOWN \<Longrightarrow> status_text lib raw = ''unknown_order_status''"
  by (auto simp: cb_order_status_def status_text_def Let_def rbind_Inr_iff split: if_splits)

lemma order_of_raw_returns:
  assumes "order_of_raw env raw r provider_id s = (Inr ord, s')"
  shows "cb_order_status (su_lib env) raw (req_quantity r) = Inr (ord_status ord) \<and> ord_request ord = r \<and> valid_order ord"
  using assms unfolding order_of_raw_def Let_def
  by (elim abind_InrE) (auto simp: lift_def mk_order_def split: sum.splits if_splits)

lemma order_from_payload_returns:
  assumes "order_from_payload env payload request key s = (Inr ord, s')"
  shows "cb_order_status (su_lib env) (unwrap payload [''order'', ''success_response'']) (req_quantity (ord_request ord))
      = Inr (ord_status ord) \<and> valid_order ord \<and> (\<forall>r. request = Some r \<longrightarrow> ord_request ord = r)"
  using assms unfolding order_from_payload_def Let_def payload_request_def
  by (auto split: sum.splits option.splits dest!: order_of_raw_returns)

lemma talks_timestamp: "steady I \<Longrightarrow> talks I (timestamp env v) no_traffic"
  unfolding timestamp_def Let_def by (auto simp: talks_ask no_traffic_def split: option.splits)

lemma talks_order_of_raw: "steady I \<Longrightarrow> talks I (order_of_raw env raw r provider_id) no_traffic"
  unfolding order_of_raw_def Let_def
  by (intro talks_quiet_bind talks_quiet_lift talks_timestamp talks_ask)

lemma talks_order_from_payload: "talks (cb_settings n base) (order_from_payload env payload request key) no_traffic"
  unfolding talks_def
proof (intro allI impI)
  fix s :: "'a coinbase" assume I: "cb_settings n base s"
  show "cb_settings n base (snd (order_from_payload env payload request key s)) \<and>
      (\<exists>ts. hs_trace (snd (order_from_payload env payload request key s)) = hs_trace s @ ts \<and>
        no_traffic (fst (order_from_payload env payload request key s)) ts)"
  proof (cases "payload_request (su_lib env) (unwrap payload [''order'', ''success_response''])
      request (payload_client_id (su_lib env) (unwrap payload [''order'', ''success_response'']) request key) (cb_requests s)")
    case (Inl e)
    then show ?thesis using I by (simp add: order_from_payload_def Let_def no_traffic_def)
  next
    case (Inr r)
    have "cb_settings n base (s\<lparr>cb_provider_order_ids := x\<rparr>)" for x using I by (simp add: cb_settings_def)
    moreover obtain raw p x where "order_from_payload env payload request key s = order_of_raw env raw r p (s\<lparr>cb_provider_order_ids := x\<rparr>)"
      using Inr by (auto simp: order_from_payload_def Let_def)
    ultimately show ?thesis
      using talks_at[OF talks_order_of_raw[OF cb_settings_steady], of n base "s\<lparr>cb_provider_order_ids := x\<rparr>" env raw r p]
      by simp
  qed
qed

text \<open>
  What the answers of a trace report about the order \<open>key\<close>: the whole answer to a request for the
  identifier the venue gave it, when that is known, and otherwise the rows of the listing that carry
  its client order ID.
\<close>

definition order_reports ::
  "pylib \<Rightarrow> string \<Rightarrow> string option \<Rightarrow> string \<Rightarrow> (http_request \<times> transport) list \<Rightarrow> json set"
where
  "order_reports lib base known key ts = {raw. \<exists>(q, p) \<in> set (answers_in ts). hr_method q = ''GET'' \<and>
     (case known of
        Some provider_id \<Rightarrow> hr_url q = base @ ''/orders/historical/'' @ provider_id \<and> raw = p
      | None \<Rightarrow> hr_url q = base @ ''/orders/historical/batch'' \<and> raw \<in> set (rows p ''orders'') \<and>
          py_str lib (jget raw ''client_order_id'') = key)}"

abbreviation order_in :: "json \<Rightarrow> json" where
  "order_in raw \<equiv> unwrap raw [''order'', ''success_response'']"

definition told_settled :: "pylib \<Rightarrow> trade_order \<Rightarrow> json set \<Rightarrow> bool" where
  "told_settled lib ord reports \<longleftrightarrow>
     (\<exists>raw \<in> reports. says_settled lib (order_in raw) (req_quantity (ord_request ord)) (ord_status ord))"

lemma order_reports_append [simp]:
  "order_reports lib base known key (ts @ us) = order_reports lib base known key ts \<union> order_reports lib base known key us"
  by (auto simp: order_reports_def)

lemma search_pages_found:
  "talks (cb_settings n base) (search_pages env key params cursor left)
     (\<lambda>r ts. \<forall>row. r = Inr (Some row) \<longrightarrow> row \<in> order_reports (su_lib env) base None key ts)"
proof (induction left arbitrary: cursor)
  case (Suc left)
  let ?match = "\<lambda>row. py_str (su_lib env) (jget row ''client_order_id'') = key"
  let ?R = "\<lambda>payload r us. \<forall>row. r = Inr (Some row) \<longrightarrow>
    (row \<in> set (rows payload ''orders'') \<and> ?match row) \<or> row \<in> order_reports (su_lib env) base None key us"
  show ?case unfolding search_pages.simps
  proof (rule talks_bind[OF talks_private_call, where R = ?R])
    fix payload
    show "talks (cb_settings n base) (case List.find ?match (rows payload ''orders'') of
         Some row \<Rightarrow> aret (Some row)
       | None \<Rightarrow> abind (lift (next_cursor (su_lib env) payload cursor)) (\<lambda>cursor'.
           if cursor' = [] then
             (if jget payload ''has_next'' = JBool True then athrow (bare_http_error 502) else aret None)
           else search_pages env key params cursor' left)) (?R payload)"
    proof (cases "List.find ?match (rows payload ''orders'')")
      case None
      have later: "talks (cb_settings n base) (search_pages env key params x left) (?R payload)" for x
        by (rule talks_weaken[OF Suc.IH]) simp
      show ?thesis unfolding None option.case
        by (rule talks_bind[OF talks_lift, where R = "\<lambda>_. ?R payload"]) (auto intro: later)
    next
      case (Some row)
      then show ?thesis using find_Some_iff2[OF Some] by auto
    qed
  next
    fix payload ts r us
    assume "exchange (same_call (call_request base ''GET'' ''/orders/historical/batch'' (Some (with_cursor params cursor)) None))
        (2 * nat (n + 1)) (Inr payload) ts" "?R payload r us"
    then show "\<forall>row. r = Inr (Some row) \<longrightarrow> row \<in> order_reports (su_lib env) base None key (ts @ us)"
      by (auto dest!: exchange_answer simp: order_reports_def same_call_def call_request_def)
  qed simp
qed (simp add: talks_athrow)

lemma talks_find:
  "talks (cb_settings n base) (find_by_client_order_id env key)
     (\<lambda>r ts. \<forall>row. r = Inr (Some row) \<longrightarrow> row \<in> order_reports (su_lib env) base None key ts)"
  using search_pages_found[of n base env key] by (auto simp: talks_def find_by_client_order_id_def)

lemma talks_look_result:
  "talks (cb_settings n base) (look_result env key found)
     (\<lambda>r ts. ts = [] \<and> (r = Inr None \<longrightarrow> found = None) \<and> (\<forall>ord. r = Inr (Some ord) \<longrightarrow> (\<exists>payload. found = Some payload \<and>
        cb_order_status (su_lib env) (order_in payload) (req_quantity (ord_request ord)) = Inr (ord_status ord))))"
proof (cases found)
  case (Some payload)
  show ?thesis unfolding talks_def
  proof (intro allI impI)
    fix s :: "'a coinbase" assume I: "cb_settings n base s"
    obtain r t where run: "order_from_payload env payload (map_of (cb_requests s) key) (Some key) s = (r, t)" by force
    obtain ts where "cb_settings n base t" "hs_trace t = hs_trace s @ ts" "no_traffic r ts"
      using talksD[OF talks_order_from_payload I run] .
    then show "cb_settings n base (snd (look_result env key found s)) \<and>
       (\<exists>ts. hs_trace (snd (look_result env key found s)) = hs_trace s @ ts \<and> ts = [] \<and>
         (fst (look_result env key found s) = Inr None \<longrightarrow> found = None) \<and>
         (\<forall>ord. fst (look_result env key found s) = Inr (Some ord) \<longrightarrow> (\<exists>payload. found = Some payload \<and>
           cb_order_status (su_lib env) (order_in payload) (req_quantity (ord_request ord)) = Inr (ord_status ord))))"
      using run order_from_payload_returns[of env payload]
      by (cases r) (auto simp: look_result_def Some abind_def no_traffic_def cb_settings_def)
  qed
qed (auto simp: look_result_def)

text \<open>
  What a lookup has heard. When it answers "no such order", the order's own request was answered so, or
  without an identifier the listing ruled it out; when it returns an order, the status it gives is the
  one that a report about that order says.
\<close>

definition own_call :: "'v surroundings \<Rightarrow> string \<Rightarrow> (exn, 'v coinbase, json) act" where
  "own_call env provider_id = private_call env ''GET'' (''/orders/historical/'' @ provider_id) None None"

definition denies_order :: "pylib \<Rightarrow> exn + json \<Rightarrow> bool" where
  "denies_order lib r \<longleftrightarrow>
     (case r of Inr payload \<Rightarrow> is_missing lib payload
      | Inl (ProviderHTTPError code _ _) \<Rightarrow> code = 404
      | Inl _ \<Rightarrow> False)"

definition found_absent :: "'v surroundings \<Rightarrow> string \<Rightarrow> 'v coinbase \<Rightarrow> (http_request \<times> transport) list \<Rightarrow> bool" where
  "found_absent env key s ts \<longleftrightarrow>
     (case map_of (cb_provider_order_ids s) key of
        Some provider_id \<Rightarrow> denies_order (su_lib env) (fst (own_call env provider_id s)) \<and>
          hs_trace (snd (own_call env provider_id s)) = hs_trace s @ ts
      | None \<Rightarrow> whole_listing (su_lib env) (cb_base_url s @ ''/orders/historical/batch'')
            (search_params (su_lib env) key s) [] (answers_in ts) \<and>
          (\<forall>(q, p) \<in> set (answers_in ts). \<not> listed (su_lib env) key p))"

definition heard :: "'v surroundings \<Rightarrow> string \<Rightarrow> 'v coinbase \<Rightarrow> exn + trade_order option \<Rightarrow> (http_request \<times> transport) list \<Rightarrow> bool" where
  "heard env key s r ts \<longleftrightarrow>
     (case r of Inl _ \<Rightarrow> True | Inr None \<Rightarrow> found_absent env key s ts
      | Inr (Some ord) \<Rightarrow> (\<exists>raw \<in> order_reports (su_lib env) (cb_base_url s) (map_of (cb_provider_order_ids s) key) key ts.
          cb_order_status (su_lib env) (order_in raw) (req_quantity (ord_request ord)) = Inr (ord_status ord)))"

lemma heardI:
  assumes "r = Inr None \<Longrightarrow> found_absent env key s ts"
    and "\<And>ord. r = Inr (Some ord) \<Longrightarrow>
      \<exists>raw \<in> order_reports (su_lib env) (cb_base_url s) (map_of (cb_provider_order_ids s) key) key ts.
        cb_order_status (su_lib env) (order_in raw) (req_quantity (ord_request ord)) = Inr (ord_status ord)"
  shows "heard env key s r ts"
  using assms unfolding heard_def by (cases r; cases "projr r") simp_all

abbreviation kept_settings :: "'v coinbase \<Rightarrow> 'v coinbase \<Rightarrow> bool" where
  "kept_settings s \<equiv> cb_settings (hs_max_429_retries s) (cb_base_url s)"

lemma own_call_report:
  assumes "own_call env provider_id s = (Inr payload, t)"
  obtains ts where "kept_settings s t" "hs_trace t = hs_trace s @ ts"
    "payload \<in> order_reports lib (cb_base_url s) (Some provider_id) key ts"
proof -
  have I: "kept_settings s s" by (simp add: cb_settings_def)
  obtain ts where ts: "kept_settings s t" "hs_trace t = hs_trace s @ ts"
    "exchange (same_call (call_request (cb_base_url s) ''GET'' (''/orders/historical/'' @ provider_id) None None))
       (2 * nat (hs_max_429_retries s + 1)) (Inr payload) ts"
    using talksD[OF talks_private_call I assms[unfolded own_call_def]] .
  from exchange_answer[OF ts(3)] have "payload \<in> order_reports lib (cb_base_url s) (Some provider_id) key ts"
    by (auto simp: order_reports_def same_call_def call_request_def)
  with ts that show ?thesis by blast
qed

lemma cb_look_known:
  assumes "map_of (cb_provider_order_ids s) key = Some provider_id" "own_call env provider_id s = (c, u)"
  shows "cb_look env key s = (case c of
      Inr payload \<Rightarrow> look_result env key (if is_missing (su_lib env) payload then None else Some payload) u
    | Inl e \<Rightarrow> (if denies_order (su_lib env) c then Inr None else Inl e, u))"
  using assms(2) unfolding own_call_def
  by (auto simp: cb_look_def assms(1) abind_def attempt_def denies_order_def split: exn.split sum.split)

lemma look_by_identifier:
  assumes known: "map_of (cb_provider_order_ids s) key = Some provider_id" and run: "cb_look env key s = (r, t)"
  shows "\<exists>ts. hs_trace t = hs_trace s @ ts \<and> heard env key s r ts"
proof -
  obtain c u where call: "own_call env provider_id s = (c, u)" by force
  have I: "kept_settings s s" by (simp add: cb_settings_def)
  obtain ts where ts: "kept_settings s u" "hs_trace u = hs_trace s @ ts" using talksD[OF talks_private_call I call[unfolded own_call_def]] .
  have absent: "heard env key s (Inr None) ts" if "denies_order (su_lib env) c"
    using that ts(2) by (simp add: heard_def found_absent_def known call)
  show ?thesis
  proof (cases c)
    case (Inl e)
    then have "t = u" "r = Inl e \<or> (r = Inr None \<and> denies_order (su_lib env) c)"
      using run cb_look_known[OF known call] Inl by (auto split: if_splits)
    then show ?thesis using ts(2) absent by (auto simp: heard_def)
  next
    case (Inr payload)
    let ?found = "if is_missing (su_lib env) payload then None else Some payload"
    have look: "look_result env key ?found u = (r, t)"
      using run cb_look_known[OF known call] Inr by simp
    obtain us where us: "hs_trace t = hs_trace u @ us" "us = []" "r = Inr None \<longrightarrow> ?found = None"
      "\<forall>ord. r = Inr (Some ord) \<longrightarrow> (\<exists>p. ?found = Some p \<and>
        cb_order_status (su_lib env) (order_in p) (req_quantity (ord_request ord)) = Inr (ord_status ord))"
      using talksD[OF talks_look_result ts(1) look] by blast
    obtain ts' where "hs_trace u = hs_trace s @ ts'"
      "payload \<in> order_reports (su_lib env) (cb_base_url s) (Some provider_id) key ts'"
      using own_call_report[OF call[unfolded Inr]] by metis
    then have "payload \<in> order_reports (su_lib env) (cb_base_url s) (Some provider_id) key ts" using ts(2) by simp
    then have "heard env key s r ts"
    proof (intro heardI)
      assume "r = Inr None"
      then have "denies_order (su_lib env) c" using us(3) by (simp add: denies_order_def Inr split: if_splits)
      then show "found_absent env key s ts" by (simp add: found_absent_def known call ts(2))
    qed (use us(4) known in \<open>auto split: if_splits\<close>)
    then show ?thesis using us(1,2) ts(2) by auto
  qed
qed

lemma look_by_search:
  assumes unknown: "map_of (cb_provider_order_ids s) key = None" and run: "cb_look env key s = (r, t)"
  shows "\<exists>ts. hs_trace t = hs_trace s @ ts \<and> heard env key s r ts"
proof -
  obtain f u where find: "find_by_client_order_id env key s = (f, u)" by force
  have I: "kept_settings s s" by (simp add: cb_settings_def)
  obtain ts where ts: "kept_settings s u" "hs_trace u = hs_trace s @ ts"
    "\<forall>row. f = Inr (Some row) \<longrightarrow> row \<in> order_reports (su_lib env) (cb_base_url s) None key ts"
    using talksD[OF talks_find I find] .
  show ?thesis
  proof (cases f)
    case (Inl e)
    then show ?thesis using run unknown find ts(2) by (auto simp: cb_look_def abind_def heard_def)
  next
    case (Inr found)
    then have look: "look_result env key found u = (r, t)"
      using run unknown find by (simp add: cb_look_def abind_def)
    obtain us where us: "hs_trace t = hs_trace u @ us" "us = []" "r = Inr None \<longrightarrow> found = None"
      "\<forall>ord. r = Inr (Some ord) \<longrightarrow> (\<exists>p. found = Some p \<and>
        cb_order_status (su_lib env) (order_in p) (req_quantity (ord_request ord)) = Inr (ord_status ord))"
      using talksD[OF talks_look_result ts(1) look] by blast
    have "found_absent env key s ts" if "r = Inr None"
    proof -
      have none: "find_by_client_order_id env key s = (Inr None, u)" using find Inr us(3) that by simp
      obtain ts' where "hs_trace u = hs_trace s @ ts'"
        "ruled_out (su_lib env) (cb_base_url s @ ''/orders/historical/batch'') key (search_params (su_lib env) key s) [] ts'"
        using find_talks[OF I none] .
      then show ?thesis using ts(2) by (simp add: found_absent_def unknown ruled_out_def)
    qed
    then have "heard env key s r ts"
    proof (rule heardI)
      fix ord assume "r = Inr (Some ord)"
      then obtain row where "found = Some row"
        "cb_order_status (su_lib env) (order_in row) (req_quantity (ord_request ord)) = Inr (ord_status ord)"
        using us(4) by blast
      then show "\<exists>raw \<in> order_reports (su_lib env) (cb_base_url s) (map_of (cb_provider_order_ids s) key) key ts.
          cb_order_status (su_lib env) (order_in raw) (req_quantity (ord_request ord)) = Inr (ord_status ord)"
        using ts(3) Inr unknown by (intro bexI[of _ row]) simp_all
    qed
    then show ?thesis using us(1,2) ts(2) by auto
  qed
qed

lemma look_hears:
  assumes "cb_look env key s = (r, t)"
  shows "\<exists>ts. hs_trace t = hs_trace s @ ts \<and> heard env key s r ts"
  using assms look_by_identifier look_by_search by (cases "map_of (cb_provider_order_ids s) key") blast+

text \<open>
  C15. An order the adapter reports as filled, canceled or rejected was settled in its own record, or
  the venue said exactly that about this very order in an answer to this lookup: in the answer to the
  request for the order's own identifier, when that is known, or in a row of the listing that carries
  the order's client order ID. What it has to say is, for canceled, one of the texts for an order that
  was canceled or expired; for rejected, a rejection or an explicit failure; and for filled, that text,
  or no status at all and a filled size not below the request. A status that is live never settles an
  order, and neither does a row about another one.
\<close>

theorem live_order_is_never_settled:
  assumes "cb_get_order env key s = (Inr (Some ord), s')" "terminal (ord_status ord)"
  shows "map_of (cb_orders s) key = Some ord \<or>
    (\<exists>ts. hs_trace s' = hs_trace s @ ts \<and> told_settled (su_lib env) ord
       (order_reports (su_lib env) (cb_base_url s) (map_of (cb_provider_order_ids s) key) key ts))"
proof (cases "map_of (cb_orders s) key = Some ord")
  case False
  then have "cb_look env key s = (Inr (Some ord), s')"
    using assms(1) by (auto simp: cb_get_order_def split: option.splits if_splits)
  from look_hears[OF this] obtain ts raw where "hs_trace s' = hs_trace s @ ts"
    "raw \<in> order_reports (su_lib env) (cb_base_url s) (map_of (cb_provider_order_ids s) key) key ts"
    "cb_order_status (su_lib env) (order_in raw) (req_quantity (ord_request ord)) = Inr (ord_status ord)"
    by (auto simp: heard_def)
  moreover from settled_status_said[OF this(3) assms(2)]
  have "says_settled (su_lib env) (order_in raw) (req_quantity (ord_request ord)) (ord_status ord)" .
  ultimately show ?thesis unfolding told_settled_def by blast
qed simp

definition sample_key :: string where
  "sample_key = ''00000000-0000-0000-0000-000000000001''"

definition filled_row :: json where
  "filled_row = JObj [(''client_order_id'', JStr sample_key), (''order_id'', JStr ''venue-1''), (''status'', JStr ''FILLED''),
     (''filled_size'', JStr ''2''), (''size'', JStr ''2''), (''created_time'', JStr ''0'')]"

definition filled_search :: "transport list coinbase" where
  "filled_search = sample_coinbase [answer (JObj [(''orders'', JArr [filled_row])])]"

lemma sample_lookup:
  "(case fst (cb_get_order sample_env sample_key filled_search) of Inr (Some ord) \<Rightarrow> ord_status ord = FILLED | _ \<Rightarrow> False)"
  by code_simp

theorem live_order_is_never_settled_witness:
  "\<exists>ord s'. cb_get_order sample_env sample_key filled_search = (Inr (Some ord), s') \<and> ord_status ord = FILLED \<and>
     (\<exists>ts. hs_trace s' = ts \<and> told_settled demo_lib ord (order_reports demo_lib ''https://venue'' None sample_key ts))"
proof -
  obtain ord s' where run: "cb_get_order sample_env sample_key filled_search = (Inr (Some ord), s')" "ord_status ord = FILLED"
    using sample_lookup by (auto split: sum.splits option.splits prod.splits) (metis prod.collapse)
  have fresh: "map_of (cb_orders filled_search) sample_key = None" "hs_trace filled_search = []" "su_lib sample_env = demo_lib"
      "map_of (cb_provider_order_ids filled_search) sample_key = None" "cb_base_url filled_search = ''https://venue''"
    by (simp_all add: filled_search_def sample_coinbase_def sample_http_def http_state.defs sample_env_def)
  from live_order_is_never_settled[OF run(1)] run fresh show ?thesis by auto
qed

section \<open>What a submission sends\<close>

lemma gets_search: "sends_only (cb_settings n base) is_get (search_pages env key params cursor left)"
  by (induction left arbitrary: cursor)
    (auto intro!: sends_only_bind gets_call split: option.split)

lemma gets_find: "sends_only (cb_settings n base) is_get (find_by_client_order_id env key)"
  using gets_search[of n base env key] by (simp add: sends_only_def talks_def find_by_client_order_id_def)

lemma gets_look_result: "sends_only (cb_settings n base) is_get (look_result env key found)"
  unfolding sends_only_def by (rule talks_weaken[OF talks_look_result]) simp

lemma gets_look: "sends_only (cb_settings n base) is_get (cb_look env key)"
proof -
  have "sends_only (cb_settings n base) is_get (abind (attempt (private_call env ''GET'' path None None)) (\<lambda>r.
      case r of
        Inr payload \<Rightarrow> look_result env key (if is_missing (su_lib env) payload then None else Some payload)
      | Inl (ProviderHTTPError code path reason) \<Rightarrow>
          if code = 404 then aret None else athrow (ProviderHTTPError code path reason)
      | Inl e \<Rightarrow> athrow e))" for path
    by (intro sends_only_bind sends_only_attempt gets_call)
      (auto intro: gets_look_result split: sum.split exn.split)
  moreover have "sends_only (cb_settings n base) is_get (abind (find_by_client_order_id env key) (look_result env key))"
    by (intro sends_only_bind gets_find gets_look_result)
  ultimately show ?thesis by (auto simp: sends_only_def talks_def cb_look_def split: option.splits)
qed

lemma gets_get_order: "sends_only (cb_settings n base) is_get (cb_get_order env key)"
  using gets_look[of n base env key] by (auto simp: sends_only_def talks_def cb_get_order_def split: option.splits)

definition creates_order :: "pylib \<Rightarrow> string \<Rightarrow> order_request \<Rightarrow> http_request \<Rightarrow> bool" where
  "creates_order lib base r q \<longleftrightarrow> hr_method q = ''POST'' \<and> hr_url q = base @ ''/orders'' \<and>
     (\<exists>configuration. coinbase_order_configuration lib r = Inr configuration \<and> hr_json q = Some (order_body lib r configuration))"

definition one_creation :: "pylib \<Rightarrow> string \<Rightarrow> order_request \<Rightarrow> (http_request \<times> transport) list \<Rightarrow> bool" where
  "one_creation lib base r ts \<longleftrightarrow> (\<forall>q \<in> fst ` set ts. is_get q \<or> creates_order lib base r q) \<and> writes_answered ts \<le> 1"

lemma one_creation_gets: "\<forall>q \<in> fst ` set ts. is_get q \<Longrightarrow> one_creation lib base r ts"
  by (auto simp: one_creation_def gets_answer_no_write)

lemma one_creation_append:
  "one_creation lib base r us \<Longrightarrow> \<forall>q \<in> fst ` set ts. is_get q \<Longrightarrow> one_creation lib base r (ts @ us)"
  "one_creation lib base r us \<Longrightarrow> \<forall>q \<in> fst ` set ts. is_get q \<Longrightarrow> one_creation lib base r (us @ ts)"
  unfolding one_creation_def writes_answered_append set_append image_Un ball_Un
  by (metis add_0 gets_answer_no_write, metis add_0_right gets_answer_no_write)

lemma gets_remember: "sends_only (cb_settings n base) is_get (\<lambda>s. (Inl e, remember key ord s))"
  unfolding sends_only_def by (rule talks_quiet) (simp add: remember_def cb_settings_def)

lemma gets_created: "sends_only (cb_settings n base) is_get (created env r unknown result)"
proof (cases result)
  case (Inl e)
  show ?thesis unfolding created_def Let_def Inl sum.case by (auto simp: gets_remember split: exn.split)
next
  case (Inr payload)
  let ?key = "req_client_order_id r"
  have reread: "sends_only (cb_settings n base) is_get (abind (attempt (cb_get_order env ?key)) (\<lambda>refreshed.
              case refreshed of
                Inr (Some newer) \<Rightarrow> aret newer
              | Inr None \<Rightarrow> aret ord
              | Inl e \<Rightarrow> if read_back_failed e then aret ord else athrow e))" for ord
    by (intro sends_only_bind sends_only_attempt gets_get_order) (auto split: sum.split option.split)
  have "sends_only (cb_settings n base) is_get (abind (order_from_payload env payload (Some r) None) (\<lambda>ord s.
            abind (attempt (cb_get_order env ?key)) (\<lambda>refreshed.
              case refreshed of
                Inr (Some newer) \<Rightarrow> aret newer
              | Inr None \<Rightarrow> aret ord
              | Inl e \<Rightarrow> if read_back_failed e then aret ord else athrow e) (remember ?key ord s)))"
    by (rule sends_only_bind[OF sends_only_quiet[OF talks_order_from_payload]])
      (rule talks_pre[OF reread[unfolded sends_only_def], folded sends_only_def], simp add: remember_def cb_settings_def)
  then show ?thesis unfolding created_def Let_def Inr sum.case by (simp add: gets_remember)
qed

lemma talks_created_at:
  "talks (cb_settings n base) (abind (attempt (private_call env ''POST'' ''/orders'' None
      (Some (order_body (su_lib env) r configuration)))) (created env r unknown))
     (\<lambda>_ ts. (\<forall>q \<in> fst ` set ts. is_get q \<or> same_call (call_request base ''POST'' ''/orders'' None
        (Some (order_body (su_lib env) r configuration))) q) \<and> writes_answered ts \<le> 1)"
proof -
  note post = coinbase.call_writes_once[where n = n and base = base and env = env and
      q = "(''POST'', ''/orders'', None, Some (order_body (su_lib env) r configuration))", simplified]
  show ?thesis
    by (rule talks_bind[OF talks_attempt[OF post] gets_created[unfolded sends_only_def]])
      (auto simp: gets_answer_no_write)
qed

lemma talks_submit_new:
  "talks (cb_settings n base) (submit_new env r) (\<lambda>_. one_creation (su_lib env) base r)"
proof -
  have create: "talks (cb_settings n base) (abind (lift (coinbase_order_configuration (su_lib env) r)) (\<lambda>configuration.
      abind (attempt (private_call env ''POST'' ''/orders'' None (Some (order_body (su_lib env) r configuration))))
        (created env r unknown))) (\<lambda>_. one_creation (su_lib env) base r)" for unknown
  proof (rule talks_bind[OF talks_lift])
    fix configuration ts assume "Inr configuration = coinbase_order_configuration (su_lib env) r \<and> ts = ([] :: (http_request \<times> transport) list)"
    then have "coinbase_order_configuration (su_lib env) r = Inr configuration" by simp
    then show "talks (cb_settings n base) (abind (attempt (private_call env ''POST'' ''/orders'' None (Some (order_body (su_lib env) r configuration))))
        (created env r unknown)) (\<lambda>_. one_creation (su_lib env) base r)"
      by (intro talks_weaken[OF talks_created_at])
        (auto simp: one_creation_def creates_order_def same_call_def call_request_def)
  qed (auto simp: one_creation_def writes_answered_def)
  have "talks (cb_settings n base) (abind (ask (net_utc_now (su_net env))) (\<lambda>now.
      let unknown = new_order (req_client_order_id r) r UNKNOWN now in
      abind (lift (coinbase_order_configuration (su_lib env) r)) (\<lambda>configuration.
      abind (attempt (private_call env ''POST'' ''/orders'' None (Some (order_body (su_lib env) r configuration))))
        (created env r unknown)))) (\<lambda>_. one_creation (su_lib env) base r)"
    by (rule talks_after_no_traffic[OF talks_ask[OF cb_settings_steady]])
      (use create in \<open>auto simp: Let_def one_creation_def writes_answered_def\<close>)
  from talks_pre[OF this, of "\<lambda>s. s\<lparr>cb_requests := AList.update (req_client_order_id r) r (cb_requests s)\<rparr>"]
  show ?thesis by (simp add: submit_new_def[abs_def] Let_def cb_settings_def)
qed

lemma talks_submit_order: "talks (cb_settings n base) (cb_submit_order env r apr) (\<lambda>_. one_creation (su_lib env) base r)"
proof -
  let ?key = "req_client_order_id r"
  let ?P = "\<lambda>(_ :: exn + trade_order). one_creation (su_lib env) base r"
  have again: "talks (cb_settings n base) (abind (cb_get_order env ?key) (\<lambda>recovered.
             case recovered of
               Some ord \<Rightarrow> if ord_status ord \<noteq> UNKNOWN then aret ord else submit_new env r
             | None \<Rightarrow> submit_new env r)) ?P"
  proof (rule talks_bind[OF gets_get_order[unfolded sends_only_def]])
    show "talks (cb_settings n base) (case recovered of
               Some ord \<Rightarrow> if ord_status ord \<noteq> UNKNOWN then aret ord else submit_new env r
             | None \<Rightarrow> submit_new env r) ?P" for recovered
      by (auto simp: talks_submit_new one_creation_gets split: option.split)
  qed (auto intro: one_creation_gets one_creation_append)
  have "talks (cb_settings n base) (\<lambda>s.
       case map_of (cb_orders s) ?key of
         None \<Rightarrow> submit_new env r s
       | Some existing \<Rightarrow>
           if \<not> unresolved (ord_status existing) then (Inr existing, s)
           else abind (cb_get_order env ?key) (\<lambda>recovered.
             case recovered of
               Some ord \<Rightarrow> if ord_status ord \<noteq> UNKNOWN then aret ord else submit_new env r
             | None \<Rightarrow> submit_new env r) s) ?P"
    unfolding talks_def
  proof (intro allI impI)
    fix s :: "'a coinbase" assume I: "cb_settings n base s"
    note new = talks_at[OF talks_submit_new I, of env r] and look = talks_at[OF again I]
    have "one_creation (su_lib env) base r []" by (simp add: one_creation_gets)
    then show "cb_settings n base (snd (case map_of (cb_orders s) ?key of
         None \<Rightarrow> submit_new env r s
       | Some existing \<Rightarrow>
           if \<not> unresolved (ord_status existing) then (Inr existing, s)
           else abind (cb_get_order env ?key) (\<lambda>recovered.
             case recovered of
               Some ord \<Rightarrow> if ord_status ord \<noteq> UNKNOWN then aret ord else submit_new env r
             | None \<Rightarrow> submit_new env r) s)) \<and>
        (\<exists>ts. hs_trace (snd (case map_of (cb_orders s) ?key of
         None \<Rightarrow> submit_new env r s
       | Some existing \<Rightarrow>
           if \<not> unresolved (ord_status existing) then (Inr existing, s)
           else abind (cb_get_order env ?key) (\<lambda>recovered.
             case recovered of
               Some ord \<Rightarrow> if ord_status ord \<noteq> UNKNOWN then aret ord else submit_new env r
             | None \<Rightarrow> submit_new env r) s)) = hs_trace s @ ts \<and> one_creation (su_lib env) base r ts)"
      using new look I by (cases "map_of (cb_orders s) ?key") auto
  qed
  then show ?thesis unfolding cb_submit_order_def
    by (cases "require_approval r apr") (simp_all add: abind_def one_creation_gets talks_def)
qed


text \<open>
  C13. An order held as pending or unknown is sent again only when a lookup in the same call has not
  found it. If such a submission sends the venue anything but reads, then it first made reads only, and
  by them the order was absent or of unknown status. Absent means: when the venue's identifier of the
  order is known, the request for that identifier was answered with 404 or with an error that says it is
  not found; when it is not known, the pages read are a whole listing of the search window and the order
  is on none of them. The other case is the adapter's own: the venue's report about this very order
  carried the status \<^verbatim>\<open>UNKNOWN_ORDER_STATUS\<close>. An order found with any other status, or not looked for, or
  whose lookup failed, is not sent again.
\<close>

theorem unresolved_order_is_resent_only_when_not_found:
  assumes "map_of (cb_orders s) (req_client_order_id r) = Some existing" "unresolved (ord_status existing)"
    and "\<exists>ts. hs_trace (snd (cb_submit_order env r apr s)) = hs_trace s @ ts \<and> (\<exists>q \<in> fst ` set ts. \<not> is_get q)"
  shows "\<exists>us vs. hs_trace (snd (cb_submit_order env r apr s)) = hs_trace s @ us @ vs \<and> (\<forall>q \<in> fst ` set us. is_get q) \<and>
    (found_absent env (req_client_order_id r) s us \<or>
     (\<exists>raw \<in> order_reports (su_lib env) (cb_base_url s)
         (map_of (cb_provider_order_ids s) (req_client_order_id r)) (req_client_order_id r) us.
       status_text (su_lib env) (order_in raw) = ''unknown_order_status''))"
proof -
  let ?key = "req_client_order_id r"
  have I: "kept_settings s s" by (simp add: cb_settings_def)
  obtain ts q where sent: "hs_trace (snd (cb_submit_order env r apr s)) = hs_trace s @ ts" "q \<in> fst ` set ts" "\<not> is_get q"
    using assms(3) by blast
  then have "require_approval r apr = Inr ()"
    by (cases "require_approval r apr") (auto simp: cb_submit_order_def abind_def)
  moreover have "\<not> terminal (ord_status existing)" using assms(2) by (meson terminal_not_unresolved)
  ultimately have run: "cb_submit_order env r apr s = abind (cb_look env ?key) (\<lambda>recovered. case recovered of
      Some ord \<Rightarrow> if ord_status ord \<noteq> UNKNOWN then aret ord else submit_new env r
    | None \<Rightarrow> submit_new env r) s"
    using assms(1,2) by (simp add: cb_submit_order_def abind_def cb_get_order_def)
  obtain l t where look: "cb_look env ?key s = (l, t)" by force
  obtain us where us: "kept_settings s t" "hs_trace t = hs_trace s @ us" "\<forall>q \<in> fst ` set us. is_get q"
    using talksD[OF gets_look[unfolded sends_only_def] I look] .
  have heard: "heard env ?key s l us" using look_hears[OF look] us(2) by auto
  have "snd (cb_submit_order env r apr s) \<noteq> t"
  proof
    assume "snd (cb_submit_order env r apr s) = t"
    then have "ts = us" using sent(1) us(2) by simp
    then show False using sent(2,3) us(3) by blast
  qed
  then have again: "l = Inr None \<or> (\<exists>ord. l = Inr (Some ord) \<and> ord_status ord = UNKNOWN)"
      "snd (cb_submit_order env r apr s) = snd (submit_new env r t)"
    using run look by (auto simp: abind_def split: sum.splits option.splits if_splits)
  obtain vs where vs: "hs_trace (snd (submit_new env r t)) = hs_trace t @ vs"
    using talks_at[OF talks_submit_new us(1)] by blast
  have "found_absent env ?key s us \<or> (\<exists>raw \<in> order_reports (su_lib env) (cb_base_url s)
      (map_of (cb_provider_order_ids s) ?key) ?key us. status_text (su_lib env) (order_in raw) = ''unknown_order_status'')"
    using again(1)
  proof
    assume "\<exists>ord. l = Inr (Some ord) \<and> ord_status ord = UNKNOWN"
    then show ?thesis using heard by (auto simp: heard_def dest!: unknown_status_said)
  qed (use heard in \<open>simp add: heard_def\<close>)
  then show ?thesis using again(2) vs us(2,3) by (intro exI[of _ us] exI[of _ vs]) simp
qed

text \<open>A resubmission: the first page is a whole listing without the order, then the venue accepts it.\<close>

definition coin_request :: order_request where
  "coin_request = \<lparr>req_signal_id = ''sig'', req_strategy_version = ''v1'', req_symbol = ''BTC-USD'', req_side = BUY,
     req_order_type = MARKET, req_quantity = 2, req_limit_price = None, req_client_order_id = sample_key, req_correlation_id = ''c''\<rparr>"

definition coin_approval :: risk_approval where
  "coin_approval = \<lparr>apr_approval_id = ''a'', apr_signal_id = ''sig'', apr_approved = True, apr_reason = ''ok'',
     apr_failed_gate = None, apr_approved_at = 0, apr_correlation_id = ''c''\<rparr>"

definition waiting_submission :: "transport list coinbase" where
  "waiting_submission = (sample_coinbase [order_page ''other'' '''', answer (JObj [(''success'', JBool True),
       (''success_response'', JObj [(''order_id'', JStr ''venue-1''), (''client_order_id'', JStr sample_key)])])])
     \<lparr>cb_orders := [(sample_key, new_order sample_key coin_request UNKNOWN 0)]\<rparr>"

definition resubmitted :: "transport list coinbase" where
  "resubmitted = snd (cb_submit_order sample_env coin_request coin_approval waiting_submission)"

lemma resubmission_posts: "list_ex (\<lambda>(q, t). \<not> is_get q) (hs_trace resubmitted)"
  by code_simp

theorem unresolved_order_is_resent_only_when_not_found_witness:
  "\<exists>us vs. hs_trace resubmitted = us @ vs \<and>
    (found_absent sample_env sample_key waiting_submission us \<or>
     (\<exists>raw \<in> order_reports demo_lib ''https://venue'' None sample_key us.
       status_text demo_lib (order_in raw) = ''unknown_order_status''))"
proof -
  have start: "map_of (cb_orders waiting_submission) (req_client_order_id coin_request) = Some (new_order sample_key coin_request UNKNOWN 0)"
    "unresolved (ord_status (new_order sample_key coin_request UNKNOWN 0))"
    by (simp_all add: waiting_submission_def sample_coinbase_def sample_http_def http_state.defs coin_request_def new_order_def)
  have fresh: "hs_trace waiting_submission = []" "cb_base_url waiting_submission = ''https://venue''"
    "map_of (cb_provider_order_ids waiting_submission) sample_key = None"
    "req_client_order_id coin_request = sample_key" "su_lib sample_env = demo_lib"
    by (simp_all add: waiting_submission_def sample_coinbase_def sample_http_def http_state.defs coin_request_def sample_env_def)
  have "\<exists>ts. hs_trace (snd (cb_submit_order sample_env coin_request coin_approval waiting_submission)) =
      hs_trace waiting_submission @ ts \<and> (\<exists>q \<in> fst ` set ts. \<not> is_get q)"
    using resubmission_posts unfolding resubmitted_def fresh by (auto simp: list_ex_iff intro: bexI[rotated])
  from unresolved_order_is_resent_only_when_not_found[OF start this] show ?thesis
    unfolding resubmitted_def fresh by fastforce
qed

lemma waiting_facts:
  "hs_trace waiting_submission = []" "cb_base_url waiting_submission = ''https://venue''" "su_lib sample_env = demo_lib"
  by (simp_all add: waiting_submission_def sample_coinbase_def sample_http_def http_state.defs sample_env_def)


section \<open>Replacing an order\<close>


text \<open>The venue confirms the cancel, reports the order as canceled and untraded, and accepts the replacement.\<close>

definition working_order :: trade_order where
  "working_order = new_order sample_key (coin_request\<lparr>req_order_type := LIMIT, req_limit_price := Some 90\<rparr>) OPEN 0"

definition replacing :: "transport list coinbase" where
  "replacing = (sample_coinbase [answer (JObj [(''results'', JArr [JObj [(''success'', JBool True)]])]),
       answer (JObj [(''order'', JObj [(''order_id'', JStr ''venue-1''), (''client_order_id'', JStr sample_key),
         (''status'', JStr ''CANCELLED''), (''filled_size'', JStr ''0''), (''created_time'', JStr ''0'')])]),
       answer (JObj [(''success'', JBool True), (''success_response'', JObj [(''order_id'', JStr ''venue-2'')])])])
     \<lparr>cb_orders := [(sample_key, working_order)], cb_requests := [(sample_key, ord_request working_order)],
       cb_provider_order_ids := [(sample_key, ''venue-1'')]\<rparr>"

definition replaced :: "transport list coinbase" where
  "replaced = snd (cb_cancel_and_replace sample_env sample_key 3 91 coin_approval working_order replacing)"

definition after_cancel :: "transport list coinbase" where
  "after_cancel = snd (cb_cancel_order sample_env sample_key replacing)"

lemma replacement_is_sent: "length (hs_trace after_cancel) = 2 \<and> length (hs_trace replaced) = 4"
  by code_simp


text \<open>
  The approval of the replacement is looked at only when the original is gone: one for another signal
  cancels the order and places nothing.
\<close>

lemma refused_replacement_has_canceled:
  assumes "cb_cancel_order env key s = (Inr (Some canceled), t)" "ord_status canceled = CANCELED"
    and "0 < dsub quantity (ord_filled_quantity canceled)" "req_signal_id (ord_request current) \<noteq> apr_signal_id apr"
  shows "cb_cancel_and_replace env key quantity limit_price apr current s =
    (Inl (ValueError ''risk approval does not belong to order request''), t)"
  using assms by (simp add: cb_cancel_and_replace_def abind_def replacement_quantity_def cb_submit_order_def
      require_approval_def cb_replacement_def Let_def)

section \<open>Tokens are used in their time\<close>

text \<open>A token that is not new was kept for the same method and path and has more than five seconds to live.\<close>

lemma cached_token_is_alive:
  assumes "jwt_issue env j verb path uri force w = (Inr tok, j', w')"
  shows "jwt_cached j' = jwt_cached j \<and> (\<exists>expires. map_of (jwt_cached j) (py_upper verb, path) = Some (tok, expires) \<and>
      \<not> force \<and> flt (fst (net_time (su_net env) w) + 5) < expires) \<or>
    map_of (jwt_cached j') (py_upper verb, path) = Some (tok, flt (fst (net_time (su_net env) w) + of_int (jwt_ttl_seconds j)))"
  using assms by (auto simp: jwt_issue_def Let_def split_beta split: option.splits prod.splits sum.splits if_splits)

end
