(* ===== verification/Gemini.thy ===== *)
theory Gemini
  imports Coinbase
begin

text \<open>
  \<^verbatim>\<open>brokers/gemini.py\<close>: the Gemini Sandbox adapter over the client of \<open>ProviderHttp\<close>. Every private call is
  a signed POST with a nonce; the encoding of the payload (JSON and base64) and its signature (HMAC) are
  the fields \<open>ge_encode\<close> and \<open>ge_sign\<close> of the surroundings. Gemini has no market order with a price
  limit, so a market request goes out as an immediate-or-cancel limit order with a capped price. Reading
  of decimals, approvals and the exceptions that carry an order are those of \<open>Coinbase\<close>.
\<close>

section \<open>Constants and state\<close>

definition gemini_rest_url :: string where
  "gemini_rest_url = ''https://api.sandbox.gemini.com''"

definition gemini_namespace :: uuid where
  "gemini_namespace = ''e2fd1e2e-89a0-4c8f-86a9-9ad7f54ee32b''"

definition price_tick :: rat where "price_tick = 1 / 100"

definition rejection_statuses :: "nat list" where
  "rejection_statuses = [400, 406, 409, 422]"

record 'v gemini = "'v http_state" +
  gm_base_url :: string
  gm_api_key :: "string option"
  gm_api_secret :: "string option"
  gm_market_collar :: rat
  gm_requests :: "(string, order_request) dict"
  gm_orders :: "(string, trade_order) dict"
  gm_provider_order_ids :: "(string, string) dict"
  gm_raw_fills :: "(string, json list) dict"
  gm_nonce :: int

record 'v gemini_env =
  ge_lib :: pylib
  ge_net :: "'v net"
  ge_encode :: "json \<Rightarrow> string"
  ge_sign :: "string \<Rightarrow> string \<Rightarrow> string"

definition ends_with :: "string \<Rightarrow> string \<Rightarrow> bool" where
  "ends_with s tail \<longleftrightarrow> length tail \<le> length s \<and> drop (length s - length tail) s = tail"

definition sandbox_host :: "string option \<Rightarrow> bool" where
  "sandbox_host host \<longleftrightarrow>
     (let name = rev (dropWhile (\<lambda>c. c = CHR ''.'') (rev (py_lower (case host of Some h \<Rightarrow> h | None \<Rightarrow> [])))) in
      ends_with name ''.sandbox.gemini.com'')"

text \<open>The constructor; \<open>host\<close> is \<^verbatim>\<open>urlparse\<close>'s host name of the URL that was asked for.\<close>

definition gemini_init ::
  "string option \<Rightarrow> 'v http_state \<Rightarrow> string option \<Rightarrow> string option \<Rightarrow> rat \<Rightarrow> rat \<Rightarrow> exn + 'v gemini"
where
  "gemini_init host http api_key api_secret collar now =
     (if \<not> sandbox_host host then Inl (ValueError ''GeminiBroker only permits *.sandbox.gemini.com hosts'')
      else if (api_key = None) \<noteq> (api_secret = None)
      then Inl (ValueError ''Gemini api_key and api_secret must be supplied together'')
      else if \<not> (0 < collar \<and> collar < 1 / 10) then Inl (ValueError ''market_collar must be between 0 and 10%'')
      else Inr (http_state.extend http \<lparr>gm_base_url = gemini_rest_url, gm_api_key = api_key, gm_api_secret = api_secret,
        gm_market_collar = collar, gm_requests = [], gm_orders = [], gm_provider_order_ids = [], gm_raw_fills = [],
        gm_nonce = trunc (flt (now * 1000))\<rparr>))"

definition gemini_capabilities :: broker_capabilities where
  "gemini_capabilities = \<lparr>cap_provider = ''gemini'', cap_environment = ''sandbox'', cap_streaming = True,
     cap_historical_candles = False, cap_native_order_edit = False, cap_preview_orders = False,
     cap_order_types = [''market'', ''limit''], cap_price_increment = 1 / 100, cap_quantity_increment = 1 / 100000000,
     cap_max_quote_age_seconds = 60, cap_balance_increments = [(''USD'', 1 / 100000)]\<rparr>"

lemma gemini_capabilities_valid: "valid_capabilities gemini_capabilities"
  by (simp add: valid_capabilities_def gemini_capabilities_def)

section \<open>Calls\<close>

definition gm_public :: "'v gemini_env \<Rightarrow> string \<Rightarrow> (exn, 'v gemini, json) act" where
  "gm_public env path s =
     request_json (ge_lib env) (ge_net env)
       \<lparr>hr_method = ''GET'', hr_url = gm_base_url s @ path, hr_headers = [], hr_params = None, hr_json = None\<rparr> None id s"

definition next_nonce :: "'v gemini_env \<Rightarrow> (exn, 'v gemini, int) act" where
  "next_nonce env = abind (ask (net_time (ge_net env))) (\<lambda>now s.
     let nonce = max (gm_nonce s + 1) (trunc (flt (now * 1000))) in (Inr nonce, s\<lparr>gm_nonce := nonce\<rparr>))"

definition signed_body :: "(string, json) dict \<Rightarrow> string \<Rightarrow> int \<Rightarrow> json" where
  "signed_body body path nonce = JObj (AList.update ''nonce'' (JNum (int_str nonce)) (AList.update ''request'' (JStr path) body))"

definition gm_request ::
  "'v gemini_env \<Rightarrow> string \<Rightarrow> string \<Rightarrow> string \<Rightarrow> string \<Rightarrow> (string, json) dict \<Rightarrow> int \<Rightarrow> http_request"
where
  "gm_request env base key secret path body nonce =
     (let encoded = ge_encode env (signed_body body path nonce) in
      \<lparr>hr_method = ''POST'', hr_url = base @ path,
       hr_headers = [(''X-GEMINI-APIKEY'', key), (''X-GEMINI-PAYLOAD'', encoded),
         (''X-GEMINI-SIGNATURE'', ge_sign env secret encoded), (''Cache-Control'', ''no-cache'')],
       hr_params = None, hr_json = None\<rparr>)"

definition gm_private :: "'v gemini_env \<Rightarrow> string \<Rightarrow> (string, json) dict \<Rightarrow> (exn, 'v gemini, json) act" where
  "gm_private env path body s =
     (case (gm_api_key s, gm_api_secret s) of
        (Some key, Some secret) \<Rightarrow>
          abind (next_nonce env) (\<lambda>nonce.
            request_json (ge_lib env) (ge_net env) (gm_request env (gm_base_url s) key secret path body nonce) None id) s
      | _ \<Rightarrow> (Inl (PermissionError ''Gemini private requests require Sandbox credentials''), s))"

section \<open>Payloads\<close>

definition gemini_symbol :: "string \<Rightarrow> string" where
  "gemini_symbol symb = py_lower (filter (\<lambda>c. c \<noteq> CHR ''-'' \<and> c \<noteq> CHR ''/'') symb)"

text \<open>\<^verbatim>\<open>_decimal\<close> of this module does not look into a mapping.\<close>

definition gm_decimal :: "pylib \<Rightarrow> json \<Rightarrow> rat option \<Rightarrow> exn + rat" where
  "gm_decimal lib v fallback =
     (if v = JNull
      then case fallback of Some d \<Rightarrow> Inr d | None \<Rightarrow> Inl (ValueError ''provider response omitted a required decimal'')
      else case lib_decimal lib (py_str lib v) of Some x \<Rightarrow> Inr x | None \<Rightarrow> Inl (ArithmeticError InvalidOperation))"

definition gm_optional_decimal :: "pylib \<Rightarrow> json \<Rightarrow> exn + rat option" where
  "gm_optional_decimal lib v = (if v = JNull then Inr None else rbind (gm_decimal lib v None) (\<lambda>x. Inr (Some x)))"

text \<open>A time in milliseconds: the float is divided by a thousand and its fraction is rounded to the microsecond.\<close>

definition gm_timestamp :: "'v gemini_env \<Rightarrow> json \<Rightarrow> (exn, ('v, 'z) http_state_scheme, datetime) act" where
  "gm_timestamp env v =
     (if v = JNull then ask (net_utc_now (ge_net env))
      else case lib_float (ge_lib env) (py_str (ge_lib env) v) of
        Some (Number ms) \<Rightarrow>
          let t = flt (ms / 1000); whole = trunc t in
          aret (whole * 1000000 + half_even (flt ((t - of_int whole) * 1000000)))
      | _ \<Rightarrow> athrow (ValueError ''timestamp''))"

definition reason_text :: "pylib \<Rightarrow> json \<Rightarrow> string" where
  "reason_text lib raw = py_lower (str_or lib (jget raw ''reason'') [])"

definition gm_order_status :: "pylib \<Rightarrow> json \<Rightarrow> rat \<Rightarrow> exn + order_status" where
  "gm_order_status lib raw requested =
     (if truthy (jget raw ''is_cancelled'') \<or> reason_text lib raw \<in> {''cancelled'', ''canceled''}
      then rbind (gm_decimal lib (jget raw ''executed_amount'') (Some 0)) (\<lambda>executed.
        Inr (if requested \<le> executed then FILLED else CANCELED))
      else if reason_text lib raw \<in> {''invalidquantity'', ''rejected'', ''insufficientfunds''} then Inr REJECTED
      else rbind (gm_decimal lib (jget raw ''executed_amount'') (Some 0)) (\<lambda>filled.
        Inr (if requested \<le> filled \<or> (py_lower (py_str lib (jget raw ''is_live'')) = ''false'' \<and> 0 < filled) then FILLED
             else if 0 < filled then PARTIALLY_FILLED
             else if truthy (jget raw ''is_live'') then OPEN
             else PENDING_SUBMIT)))"

definition quoted_symbol :: "string \<Rightarrow> string" where
  "quoted_symbol name =
     (if 3 < length name \<and> CHR ''-'' \<notin> set name
      then take (length name - 3) name @ ''-'' @ drop (length name - 3) name else name)"

definition gm_recovered_request :: "pylib \<Rightarrow> json \<Rightarrow> string \<Rightarrow> exn + order_request" where
  "gm_recovered_request lib raw key =
     rbind (cb_side lib raw) (\<lambda>side.
     let order_type = (if truthy (jget raw ''price'') then LIMIT else MARKET) in
     rbind (gm_decimal lib (get_first raw [''original_amount'', ''amount'', ''executed_amount'']) (Some smallest_size)) (\<lambda>quantity.
     rbind (if order_type = LIMIT then gm_optional_decimal lib (jget raw ''price'') else Inr None) (\<lambda>limit_price.
     case lib_uuid lib key of
       None \<Rightarrow> Inl (ValueError ''badly formed hexadecimal UUID string'')
     | Some cid \<Rightarrow> mk_request \<lparr>req_signal_id = lib_uuid5 lib gemini_namespace (''signal|'' @ key),
         req_strategy_version = ''provider-recovery'',
         req_symbol = quoted_symbol (py_upper (str_or lib (jget raw ''symbol'') ''btcusd'')), req_side = side,
         req_order_type = order_type, req_quantity = max quantity smallest_size, req_limit_price = limit_price,
         req_client_order_id = cid, req_correlation_id = lib_uuid5 lib gemini_namespace (''correlation|'' @ key)\<rparr>)))"

definition gm_provider_uuid :: "pylib \<Rightarrow> string \<Rightarrow> uuid" where
  "gm_provider_uuid lib v = (case lib_uuid lib v of Some u \<Rightarrow> u | None \<Rightarrow> lib_uuid5 lib gemini_namespace v)"

definition gm_payload_request ::
  "pylib \<Rightarrow> json \<Rightarrow> order_request option \<Rightarrow> string \<Rightarrow> (string, order_request) dict \<Rightarrow> exn + order_request"
where
  "gm_payload_request lib raw request client_id requests =
     (case request of
        Some r \<Rightarrow> Inr r
      | None \<Rightarrow> (case map_of requests client_id of Some r \<Rightarrow> Inr r | None \<Rightarrow> gm_recovered_request lib raw client_id))"

definition gm_order_of_raw ::
  "'v gemini_env \<Rightarrow> json \<Rightarrow> order_request \<Rightarrow> string \<Rightarrow> (exn, ('v, 'z) http_state_scheme, trade_order) act"
where
  "gm_order_of_raw env raw r provider_id =
     (let lib = ge_lib env in
      abind (lift (gm_order_status lib raw (req_quantity r))) (\<lambda>st.
      abind (lift (gm_decimal lib (jget raw ''executed_amount'') (Some 0))) (\<lambda>filled.
      abind (lift (gm_optional_decimal lib (jget raw ''avg_execution_price''))) (\<lambda>average.
      abind (gm_timestamp env (jget raw ''timestampms'')) (\<lambda>created.
      abind (ask (net_utc_now (ge_net env))) (\<lambda>updated.
        lift (mk_order \<lparr>ord_order_id = gm_provider_uuid lib provider_id, ord_request = r, ord_status = st,
          ord_filled_quantity = filled, ord_average_fill_price = average, ord_created_at = created,
          ord_updated_at = updated\<rparr>)))))))"

text \<open>
  \<^verbatim>\<open>tuple(raw.get("trades") or ())\<close>, when the payload has the key: a list of rows. (A text or
  a mapping in its place, which has no rows, counts as empty.)
\<close>

definition gm_trades :: "json \<Rightarrow> json list option" where
  "gm_trades raw =
     (case raw of JObj d \<Rightarrow> (case map_of d ''trades'' of None \<Rightarrow> None | Some (JArr xs) \<Rightarrow> Some xs | Some _ \<Rightarrow> Some []) | _ \<Rightarrow> None)"

definition gm_order_from_payload ::
  "'v gemini_env \<Rightarrow> json \<Rightarrow> order_request option \<Rightarrow> string option \<Rightarrow> (exn, 'v gemini, trade_order) act"
where
  "gm_order_from_payload env raw request key s =
     (let lib = ge_lib env; client_id = payload_client_id lib raw request key in
      if \<not> is_mapping raw then (Inl (PyError ''ValueError''), s)
      else case gm_payload_request lib raw request client_id (gm_requests s) of
        Inl e \<Rightarrow> (Inl e, s)
      | Inr r \<Rightarrow>
          let provider_id = str_or lib (jget raw ''order_id'') client_id in
          gm_order_of_raw env raw r provider_id
            (s\<lparr>gm_provider_order_ids := AList.update client_id provider_id (gm_provider_order_ids s),
               gm_raw_fills := (case gm_trades raw of None \<Rightarrow> gm_raw_fills s | Some ts \<Rightarrow> AList.update client_id ts (gm_raw_fills s))\<rparr>))"

definition gemini_fill :: "'v gemini_env \<Rightarrow> json \<Rightarrow> trade_order \<Rightarrow> (exn, ('v, 'z) http_state_scheme, fill) act" where
  "gemini_fill env raw ord =
     (let lib = ge_lib env in
      abind (lift (gm_decimal lib (jget raw ''amount'') (Some smallest_size))) (\<lambda>quantity.
      abind (lift (gm_decimal lib (jget raw ''price'') (Some smallest_size))) (\<lambda>price.
      abind (lift (gm_decimal lib (jget raw ''fee_amount'') (Some 0))) (\<lambda>fee.
      abind (gm_timestamp env (jget raw ''timestampms'')) (\<lambda>occurred.
        lift (mk_fill \<lparr>fill_fill_id = str_or lib (get_first raw [''tid'', ''fill_id''])
            (ord_order_id ord @ ''-'' @ py_str lib (jget raw ''price'')),
          fill_order_id = ord_order_id ord, fill_symbol = req_symbol (ord_request ord),
          fill_side = req_side (ord_request ord), fill_quantity = quantity, fill_price = price, fill_fee = fee,
          fill_fee_asset = str_or lib (jget raw ''fee_currency'') ''USD'', fill_occurred_at = occurred\<rparr>))))))"

definition traded_amount :: "pylib \<Rightarrow> json list \<Rightarrow> exn + rat" where
  "traded_amount lib trades =
     rfold (\<lambda>row sofar. if \<not> is_mapping row then Inl (PyError ''AttributeError'')
       else rbind (gm_decimal lib (jget row ''amount'') (Some 0)) (\<lambda>x. Inr (dadd sofar x))) trades 0"

text \<open>The venue's orders with our client order ID; more than one is never guessed.\<close>

definition our_orders :: "pylib \<Rightarrow> string \<Rightarrow> json list \<Rightarrow> json list" where
  "our_orders lib key found = filter (\<lambda>row. is_mapping row \<and> py_str lib (jget row ''client_order_id'') = key) found"

definition only_order_for :: "pylib \<Rightarrow> string \<Rightarrow> json list \<Rightarrow> exn + json option" where
  "only_order_for lib key found =
     (case our_orders lib key found of
        [] \<Rightarrow> Inr None
      | [row] \<Rightarrow> Inr (Some row)
      | _ \<Rightarrow> Inl provider_error)"

section \<open>Operations\<close>

definition gm_get_quote :: "'v gemini_env \<Rightarrow> string \<Rightarrow> (exn, 'v gemini, quote) act" where
  "gm_get_quote env symb =
     abind (gm_public env (''/v2/ticker/'' @ gemini_symbol symb)) (\<lambda>raw.
       if \<not> is_mapping raw then athrow (ProviderHTTPError 502 [] (failure_reason (ge_lib env) raw))
       else
         abind (lift (gm_decimal (ge_lib env) (jget raw ''bid'') None)) (\<lambda>bid.
         abind (lift (gm_decimal (ge_lib env) (jget raw ''ask'') None)) (\<lambda>ask_price.
         abind (ask (net_utc_now (ge_net env))) (\<lambda>as_of.
         abind (ask (net_utc_now (ge_net env))) (\<lambda>received.
           lift (mk_quote \<lparr>q_symbol = symb, q_bid = bid, q_ask = ask_price, q_as_of = as_of, q_source = ''gemini-sandbox'',
             q_received_at = received\<rparr>))))))"

definition mk_symbol_rules :: "symbol_rules \<Rightarrow> exn + symbol_rules" where
  "mk_symbol_rules r = (if valid_symbol_rules r then Inr r else Inl (ValidationError ''SymbolRules''))"

definition gm_get_symbol_rules :: "'v gemini_env \<Rightarrow> string \<Rightarrow> (exn, 'v gemini, symbol_rules option) act" where
  "gm_get_symbol_rules env symb =
     (let lib = ge_lib env in
      abind (gm_public env (''/v1/symbols/details/'' @ gemini_symbol symb)) (\<lambda>raw.
        if \<not> is_mapping raw \<or> py_lower (str_or lib (jget raw ''symbol'') []) \<noteq> gemini_symbol symb
        then athrow (ProviderHTTPError 502 [] (failure_reason lib raw))
        else if py_lower (str_or lib (jget raw ''status'') []) \<noteq> ''open'' then aret None
        else
          abind (lift (gm_decimal lib (jget raw ''min_order_size'') None)) (\<lambda>min_quantity.
          abind (lift (gm_decimal lib (jget raw ''tick_size'') None)) (\<lambda>quantity_step.
          abind (lift (gm_decimal lib (jget raw ''quote_increment'') None)) (\<lambda>price_step.
          abind (lift (mk_symbol_rules \<lparr>sr_symbol = symb, sr_min_quantity = min_quantity, sr_quantity_increment = quantity_step,
            sr_price_increment = price_step, sr_min_notional = None\<rparr>)) (\<lambda>found. aret (Some found)))))))"

definition gm_balance_of_row :: "'v gemini_env \<Rightarrow> datetime \<Rightarrow> json \<Rightarrow> exn + balance option" where
  "gm_balance_of_row env now row =
     (let lib = ge_lib env in
      if \<not> is_mapping row then Inr None
      else if jget row ''amount'' = JNull then Inl (ProviderHTTPError 502 [] (failure_reason lib row))
      else rbind (gm_decimal lib (jget row ''available'') (Some 0)) (\<lambda>available.
        rbind (gm_decimal lib (jget row ''amount'') None) (\<lambda>amount.
          let hold = max 0 (dsub amount available) in
          if available \<noteq> 0 \<or> hold \<noteq> 0
          then rbind (mk_balance \<lparr>bal_asset = py_upper (str_or lib (jget row ''currency'') []), bal_available = available,
            bal_hold = hold, bal_as_of = now\<rparr>) (\<lambda>b. Inr (Some b))
          else Inr None)))"

definition gm_get_balances :: "'v gemini_env \<Rightarrow> (exn, 'v gemini, balance list) act" where
  "gm_get_balances env =
     abind (gm_private env ''/v1/balances'' []) (\<lambda>payload.
       case payload of
         JArr listing \<Rightarrow>
           abind (ask (net_utc_now (ge_net env))) (\<lambda>now.
           abind (lift (rfold (\<lambda>row sofar. rbind (gm_balance_of_row env now row) (\<lambda>found.
               Inr (case found of None \<Rightarrow> sofar | Some b \<Rightarrow> sofar @ [b]))) listing [])) (\<lambda>found.
             aret (sort_key bal_asset found)))
       | _ \<Rightarrow> athrow (ProviderHTTPError 502 [] (failure_reason (ge_lib env) payload)))"

definition gm_get_positions :: "'v gemini_env \<Rightarrow> (exn, 'v gemini, position list) act" where
  "gm_get_positions env =
     abind (gm_get_balances env) (\<lambda>balances.
     abind (ask (net_utc_now (ge_net env))) (\<lambda>now. aret (coin_positions now balances)))"

definition gm_remember :: "string \<Rightarrow> trade_order \<Rightarrow> 'v gemini \<Rightarrow> 'v gemini" where
  "gm_remember key ord s = s\<lparr>gm_orders := AList.update key ord (gm_orders s)\<rparr>"

definition order_id_json :: "string \<Rightarrow> json" where
  "order_id_json provider_id = (if py_isdigit provider_id then JNum provider_id else JStr provider_id)"

definition status_body :: "string \<Rightarrow> string option \<Rightarrow> (string, json) dict" where
  "status_body key provider_id =
     (case provider_id of
        Some p \<Rightarrow> [(''order_id'', order_id_json p), (''include_trades'', JBool True)]
      | None \<Rightarrow> [(''client_order_id'', JStr key), (''include_trades'', JBool True)])"

text \<open>What the status lookup makes of its answer.\<close>

definition gm_status_answer :: "'v gemini_env \<Rightarrow> string \<Rightarrow> json \<Rightarrow> (exn, 'v gemini, trade_order option) act" where
  "gm_status_answer env key answered =
     abind (lift (case answered of
         JArr found \<Rightarrow> only_order_for (ge_lib env) key found
       | _ \<Rightarrow> Inr (Some answered))) (\<lambda>picked.
       case picked of
         None \<Rightarrow> aret None
       | Some payload \<Rightarrow>
           if \<not> truthy payload then aret None
           else (\<lambda>s. abind (gm_order_from_payload env payload (map_of (gm_requests s) key) (Some key)) (\<lambda>ord s.
             (Inr (Some ord), gm_remember key ord s)) s))"

definition gm_look :: "'v gemini_env \<Rightarrow> string \<Rightarrow> (exn, 'v gemini, trade_order option) act" where
  "gm_look env key s =
     abind (attempt (gm_private env ''/v1/order/status'' (status_body key (map_of (gm_provider_order_ids s) key)))) (\<lambda>r.
       case r of
         Inr payload \<Rightarrow> gm_status_answer env key payload
       | Inl (ProviderHTTPError code path reason) \<Rightarrow>
           if code = 404 then aret None else athrow (ProviderHTTPError code path reason)
       | Inl e \<Rightarrow> athrow e) s"

definition gm_get_order :: "'v gemini_env \<Rightarrow> string \<Rightarrow> (exn, 'v gemini, trade_order option) act" where
  "gm_get_order env key s =
     (case map_of (gm_orders s) key of
        Some cached \<Rightarrow> if terminal (ord_status cached) then (Inr (Some cached), s) else gm_look env key s
      | None \<Rightarrow> gm_look env key s)"

definition gm_current :: "'v gemini_env \<Rightarrow> string \<Rightarrow> (exn, 'v gemini, trade_order option) act" where
  "gm_current env key s =
     (case map_of (gm_orders s) key of Some ord \<Rightarrow> (Inr (Some ord), s) | None \<Rightarrow> gm_get_order env key s)"

section \<open>The price of a market order\<close>

definition quantized :: "int \<Rightarrow> rat \<Rightarrow> exn + rat" where
  "quantized c unit = (if 10 ^ 28 \<le> \<bar>c\<bar> then Inl (ArithmeticError InvalidOperation) else Inr (of_int c * unit))"

text \<open>\<^verbatim>\<open>ROUND_DOWN\<close> is toward zero and \<^verbatim>\<open>ROUND_UP\<close> away from it.\<close>

definition quantize_down :: "rat \<Rightarrow> rat \<Rightarrow> exn + rat" where
  "quantize_down x unit = quantized (trunc (x / unit)) unit"

definition quantize_up :: "rat \<Rightarrow> rat \<Rightarrow> exn + rat" where
  "quantize_up x unit = quantized (if 0 \<le> x then \<lceil>x / unit\<rceil> else \<lfloor>x / unit\<rfloor>) unit"

definition capped_price :: "rat \<Rightarrow> order_side \<Rightarrow> quote \<Rightarrow> exn + rat" where
  "capped_price collar side q =
     (case side of
        BUY \<Rightarrow> quantize_down (dmul (q_ask q) (dadd 1 collar)) price_tick
      | SELL \<Rightarrow> quantize_up (dmul (q_bid q) (dsub 1 collar)) price_tick)"

definition refused_order :: "trade_order \<Rightarrow> trade_order" where
  "refused_order unknown = unknown\<lparr>ord_status := REJECTED\<rparr>"

definition refuse :: "trade_order \<Rightarrow> order_request \<Rightarrow> (exn, 'v gemini, 'a) act" where
  "refuse unknown r s =
     (Inl (order_rejected (refused_order unknown)), gm_remember (req_client_order_id r) (refused_order unknown) s)"

definition market_cap :: "'v gemini_env \<Rightarrow> order_request \<Rightarrow> trade_order \<Rightarrow> (exn, 'v gemini, rat) act" where
  "market_cap env r unknown =
     abind (attempt (gm_get_quote env (req_symbol r))) (\<lambda>found s.
       case found of
         Inl e \<Rightarrow> (if e = PyError ''CancelledError'' then (Inl e, s) else refuse unknown r s)
       | Inr q \<Rightarrow>
           (case capped_price (gm_market_collar s) (req_side r) q of
              Inl e \<Rightarrow> (Inl e, s)
            | Inr cap \<Rightarrow> if cap \<le> 0 then refuse unknown r s else (Inr cap, s)))"

section \<open>Orders\<close>

definition gm_order_body :: "pylib \<Rightarrow> order_request \<Rightarrow> (string, json) dict" where
  "gm_order_body lib r =
     [(''symbol'', JStr (gemini_symbol (req_symbol r))), (''amount'', JStr (lib_dec_str lib (req_quantity r))),
      (''side'', JStr (side_value (req_side r))), (''type'', JStr ''exchange limit''),
      (''client_order_id'', JStr (req_client_order_id r))]"

definition gm_priced_body :: "'v gemini_env \<Rightarrow> order_request \<Rightarrow> trade_order \<Rightarrow> (exn, 'v gemini, (string, json) dict) act" where
  "gm_priced_body env r unknown =
     (let lib = ge_lib env; body = gm_order_body lib r in
      if req_order_type r = MARKET then
        abind (market_cap env r unknown) (\<lambda>cap.
          aret (body @ [(''price'', JStr (lib_dec_str lib cap)), (''options'', JArr [JStr ''immediate-or-cancel''])]))
      else case req_limit_price r of
        Some p \<Rightarrow> aret (body @ [(''price'', JStr (lib_dec_str lib p))])
      | None \<Rightarrow> aret body)"

definition gm_created :: "'v gemini_env \<Rightarrow> order_request \<Rightarrow> trade_order \<Rightarrow> exn + json \<Rightarrow> (exn, 'v gemini, trade_order) act" where
  "gm_created env r unknown result =
     (let key = req_client_order_id r in
      case result of
        Inl e \<Rightarrow>
          if e = provider_timeout then (\<lambda>s. (Inl (ambiguous_submission unknown), gm_remember key unknown s))
          else (case e of
              ProviderHTTPError code path reason \<Rightarrow>
                if code \<in> set rejection_statuses then refuse unknown r else athrow e
            | _ \<Rightarrow> athrow e)
      | Inr payload \<Rightarrow>
          if is_mapping payload \<and> truthy (jget payload ''is_cancelled'') \<and> \<not> truthy (jget payload ''order_id'')
          then refuse unknown r
          else abind (gm_order_from_payload env payload (Some r) None) (\<lambda>ord s. (Inr ord, gm_remember key ord s)))"

definition gm_submit_new :: "'v gemini_env \<Rightarrow> order_request \<Rightarrow> (exn, 'v gemini, trade_order) act" where
  "gm_submit_new env r s =
     (let key = req_client_order_id r in
      abind (ask (net_utc_now (ge_net env))) (\<lambda>now.
      let unknown = new_order key r UNKNOWN now in
      abind (gm_priced_body env r unknown) (\<lambda>body.
      abind (attempt (gm_private env ''/v1/order/new'' body)) (gm_created env r unknown)))
      (s\<lparr>gm_requests := AList.update key r (gm_requests s)\<rparr>))"

definition gm_submit_order ::
  "'v gemini_env \<Rightarrow> order_request \<Rightarrow> risk_approval \<Rightarrow> (exn, 'v gemini, trade_order) act"
where
  "gm_submit_order env r apr =
     abind (lift (require_approval r apr)) (\<lambda>_ s.
       case map_of (gm_orders s) (req_client_order_id r) of
         None \<Rightarrow> gm_submit_new env r s
       | Some existing \<Rightarrow>
           if \<not> unresolved (ord_status existing) then (Inr existing, s)
           else abind (gm_get_order env (req_client_order_id r)) (\<lambda>recovered.
             case recovered of
               Some ord \<Rightarrow> if ord_status ord \<noteq> UNKNOWN then aret ord else gm_submit_new env r
             | None \<Rightarrow> gm_submit_new env r) s)"

text \<open>The read of the trades that a New Order response does not carry.\<close>

definition gm_refresh_fills :: "'v gemini_env \<Rightarrow> string \<Rightarrow> trade_order \<Rightarrow> (exn, 'v gemini, trade_order) act" where
  "gm_refresh_fills env key ord =
     abind (gm_look env key) (\<lambda>refreshed s.
       case refreshed of
         Some newer \<Rightarrow>
           if ord_status newer \<noteq> ord_status ord \<or> ord_filled_quantity newer \<noteq> ord_filled_quantity ord then (Inr newer, s)
           else (Inr ord, gm_remember key ord s)
       | None \<Rightarrow> (Inr ord, gm_remember key ord s))"

definition gm_get_fills :: "'v gemini_env \<Rightarrow> string \<Rightarrow> (exn, 'v gemini, fill list) act" where
  "gm_get_fills env key =
     abind (gm_current env key) (\<lambda>found s.
       case found of
         None \<Rightarrow> (Inr [], s)
       | Some ord \<Rightarrow>
           abind (lift (traded_amount (ge_lib env) (dict_get (gm_raw_fills s) key []))) (\<lambda>traded.
           abind (if traded < ord_filled_quantity ord then gm_refresh_fills env key ord else aret ord) (\<lambda>ord s.
             amap (\<lambda>row. gemini_fill env row ord) (dict_get (gm_raw_fills s) key []) s)) s)"

text \<open>Whatever the venue answers to a cancel, an order that did not fill is recorded as canceled.\<close>

definition record_canceled :: "string \<Rightarrow> trade_order \<Rightarrow> (exn, 'v gemini, trade_order option) act" where
  "record_canceled key ord s =
     (let canceled = (if ord_status ord \<in> {CANCELED, FILLED} then ord else ord\<lparr>ord_status := CANCELED\<rparr>) in
      (Inr (Some canceled), gm_remember key canceled s))"

definition gm_cancel_order :: "'v gemini_env \<Rightarrow> string \<Rightarrow> (exn, 'v gemini, trade_order option) act" where
  "gm_cancel_order env key =
     abind (gm_current env key) (\<lambda>found s.
       case found of
         None \<Rightarrow> (Inr None, s)
       | Some current \<Rightarrow>
           (case map_of (gm_provider_order_ids s) key of
              None \<Rightarrow> (Inl (ValueError ''cannot cancel an order without a provider order id''), s)
            | Some provider_id \<Rightarrow>
                abind (gm_private env ''/v1/order/cancel'' [(''order_id'', JStr provider_id)]) (\<lambda>payload.
                abind (gm_order_from_payload env payload (Some (ord_request current)) None) (record_canceled key)) s))"

definition gm_replacement :: "'v gemini_env \<Rightarrow> string \<Rightarrow> trade_order \<Rightarrow> rat \<Rightarrow> rat \<Rightarrow> rat \<Rightarrow> order_request" where
  "gm_replacement env key current quantity limit_price remaining =
     (let lib = ge_lib env in
      (ord_request current)\<lparr>req_quantity := remaining, req_limit_price := Some limit_price,
        req_client_order_id := lib_uuid5 lib gemini_namespace
          (key @ ''|'' @ lib_dec_str lib quantity @ ''|'' @ lib_dec_str lib limit_price)\<rparr>)"

definition gm_edit_order ::
  "'v gemini_env \<Rightarrow> string \<Rightarrow> rat \<Rightarrow> rat \<Rightarrow> risk_approval option \<Rightarrow> (exn, 'v gemini, trade_order) act"
where
  "gm_edit_order env key quantity limit_price approval =
     (case approval of
        None \<Rightarrow> athrow (PermissionError ''Gemini uses cancel-and-replace and requires a fresh RiskApproval'')
      | Some apr \<Rightarrow>
          abind (gm_current env key) (\<lambda>found.
            case found of
              None \<Rightarrow> athrow (KeyError key)
            | Some current \<Rightarrow>
                abind (gm_cancel_order env key) (\<lambda>cancelled.
                  case cancelled of
                    None \<Rightarrow> athrow (KeyError key)
                  | Some canceled \<Rightarrow>
                      if ord_status canceled = FILLED \<and> quantity \<le> ord_filled_quantity canceled then aret canceled
                      else abind (lift (replacement_quantity canceled quantity)) (\<lambda>remaining.
                        if remaining \<le> 0 then aret canceled
                        else gm_submit_order env (gm_replacement env key current quantity limit_price remaining) apr))))"

definition gemini_ops :: "'v gemini_env \<Rightarrow> 'v gemini broker_ops" where
  "gemini_ops env = \<lparr>bo_get_quote = gm_get_quote env, bo_get_balances = gm_get_balances env,
     bo_get_positions = gm_get_positions env, bo_submit_order = gm_submit_order env,
     bo_get_order = gm_get_order env, bo_get_fills = gm_get_fills env\<rparr>"

section \<open>What the adapter sends\<close>

text \<open>The fields that a request to the venue leaves alone.\<close>

definition gm_settings :: "int \<Rightarrow> string \<Rightarrow> int \<Rightarrow> 'v gemini \<Rightarrow> bool" where
  "gm_settings n base nonce s \<longleftrightarrow> hs_max_429_retries s = n \<and> gm_base_url s = base \<and> gm_nonce s = nonce"

lemma gm_settings_steady: "steady (gm_settings n base nonce)"
  by (simp add: steady_def gm_settings_def)

lemma gm_public_trace:
  "\<exists>ts. hs_trace (snd (gm_public env path s)) = hs_trace s @ ts \<and>
     (\<forall>q \<in> fst ` set ts. hr_method q = ''GET'' \<and> hr_url q = gm_base_url s @ path) \<and>
     gm_base_url (snd (gm_public env path s)) = gm_base_url s \<and> gm_nonce (snd (gm_public env path s)) = gm_nonce s"
proof -
  let ?I = "gm_settings (hs_max_429_retries s) (gm_base_url s) (gm_nonce s)"
  have "talks ?I (request_json (ge_lib env) (ge_net env) req None id) (exchange ((=) req) (nat (hs_max_429_retries s + 1)))" for req
    by (rule request_json_plain[OF gm_settings_steady]) (simp add: gm_settings_def)
  from talks_at[OF this, of s] show ?thesis
    by (fastforce simp: gm_settings_def gm_public_def exchange_def)
qed

text \<open>A private call takes a new nonce, greater than the last, and sends only its own request with it.\<close>

lemma gm_private_trace:
  obtains ts nonce where "hs_trace (snd (gm_private env path body s)) = hs_trace s @ ts"
    "\<forall>q \<in> fst ` set ts. \<exists>key secret. q = gm_request env (gm_base_url s) key secret path body nonce"
    "gm_base_url (snd (gm_private env path body s)) = gm_base_url s" "gm_nonce s \<le> gm_nonce (snd (gm_private env path body s))"
    "gm_nonce s < nonce" "ts \<noteq> [] \<longrightarrow> nonce = gm_nonce (snd (gm_private env path body s))"
    "map snd (answers_in ts) = (case fst (gm_private env path body s) of Inr p \<Rightarrow> [p] | Inl _ \<Rightarrow> [])"
proof (cases "\<exists>key secret. gm_api_key s = Some key \<and> gm_api_secret s = Some secret")
  case False
  then have "gm_private env path body s = (Inl (PermissionError ''Gemini private requests require Sandbox credentials''), s)"
    by (auto simp: gm_private_def split: option.splits)
  then show ?thesis by (intro that[of "[]" "gm_nonce s + 1"]) simp_all
next
  case True
  then obtain key secret where keys: "gm_api_key s = Some key" "gm_api_secret s = Some secret" by blast
  obtain now w where clock: "net_time (ge_net env) (hs_world s) = (now, w)" by force
  let ?nonce = "max (gm_nonce s + 1) (trunc (flt (now * 1000)))"
  let ?t = "s\<lparr>hs_world := w, gm_nonce := ?nonce\<rparr>"
  let ?I = "gm_settings (hs_max_429_retries s) (gm_base_url s) ?nonce"
  let ?req = "gm_request env (gm_base_url s) key secret path body ?nonce"
  have run: "gm_private env path body s = request_json (ge_lib env) (ge_net env) ?req None id ?t"
    by (simp add: gm_private_def keys abind_def next_nonce_def ask_def clock Let_def)
  have "talks ?I (request_json (ge_lib env) (ge_net env) ?req None id) (exchange ((=) ?req) (nat (hs_max_429_retries s + 1)))"
    by (rule request_json_plain[OF gm_settings_steady]) (simp add: gm_settings_def)
  from talks_at[OF this, of ?t] obtain ts where ex: "?I (snd (gm_private env path body s))"
    "hs_trace (snd (gm_private env path body s)) = hs_trace s @ ts"
    "exchange ((=) ?req) (nat (hs_max_429_retries s + 1)) (fst (gm_private env path body s)) ts"
    unfolding run by (auto simp: gm_settings_def)
  have each: "\<forall>q \<in> fst ` set ts. \<exists>key secret. q = gm_request env (gm_base_url s) key secret path body ?nonce"
  proof
    fix q assume "q \<in> fst ` set ts"
    with ex(3) have "q = ?req" unfolding exchange_def by metis
    then show "\<exists>key secret. q = gm_request env (gm_base_url s) key secret path body ?nonce" by blast
  qed
  then show ?thesis using ex by (intro that[of ts ?nonce]) (simp_all add: gm_settings_def exchange_def)
qed

text \<open>
  Every request so far went to the base URL, and every signed one carries a nonce that is not above the
  last one given out.
\<close>

definition starts_with :: "string \<Rightarrow> string \<Rightarrow> bool" where
  "starts_with s front \<longleftrightarrow> take (length front) s = front"

definition with_nonce :: "'v gemini_env \<Rightarrow> string \<Rightarrow> http_request \<Rightarrow> int \<Rightarrow> bool" where
  "with_nonce env base q nonce \<longleftrightarrow> (\<exists>key secret path body. q = gm_request env base key secret path body nonce)"

definition gm_ok :: "'v gemini_env \<Rightarrow> 'v gemini \<Rightarrow> bool" where
  "gm_ok env s \<longleftrightarrow> gm_base_url s = gemini_rest_url \<and>
     (\<forall>q \<in> fst ` set (hs_trace s). starts_with (hr_url q) gemini_rest_url \<and>
        (is_get q \<or> (\<exists>nonce. nonce \<le> gm_nonce s \<and> with_nonce env gemini_rest_url q nonce)))"

abbreviation keeps_ok :: "'v gemini_env \<Rightarrow> (exn, 'v gemini, 'a) act \<Rightarrow> bool" where
  "keeps_ok env m \<equiv> triple (gm_ok env) m (\<lambda>_. gm_ok env) (\<lambda>_. gm_ok env)"

lemma starts_with_append [simp]: "starts_with (base @ path) base"
  by (simp add: starts_with_def)

lemma keeps_ok_bind: "keeps_ok env m \<Longrightarrow> (\<And>x. keeps_ok env (f x)) \<Longrightarrow> keeps_ok env (abind m f)"
  by (rule triple_abind)

lemma keeps_ok_simple [simp, intro]:
  "keeps_ok env (aret x)" "keeps_ok env (athrow e)"
  by (auto intro: triple_aret triple_athrow)

lemma keeps_ok_lift [intro]: "keeps_ok env (lift r)"
  by (cases r) auto

lemma keeps_ok_attempt: "keeps_ok env m \<Longrightarrow> keeps_ok env (attempt m)"
  by (simp add: triple_snd_iff)

lemma keeps_ok_ask: "keeps_ok env (ask f)"
  by (simp add: triple_snd_iff ask_def split_beta gm_ok_def)

text \<open>Steps on the object alone.\<close>

lemma keeps_ok_frame:
  "(\<And>s. hs_trace (snd (m s)) = hs_trace s \<and> gm_base_url (snd (m s)) = gm_base_url s \<and> gm_nonce (snd (m s)) = gm_nonce s)
    \<Longrightarrow> keeps_ok env m"
  by (simp add: triple_snd_iff gm_ok_def)

lemma keeps_ok_pre:
  "keeps_ok env m \<Longrightarrow> (\<And>s. gm_ok env s \<Longrightarrow> gm_ok env (f s)) \<Longrightarrow> keeps_ok env (\<lambda>s. m (f s))"
  by (simp add: triple_snd_iff)

lemma keeps_ok_public: "keeps_ok env (gm_public env path)"
proof (unfold triple_snd_iff, intro allI impI)
  fix s :: "'a gemini" assume ok: "gm_ok env s"
  obtain ts where t: "hs_trace (snd (gm_public env path s)) = hs_trace s @ ts"
    "\<forall>q \<in> fst ` set ts. hr_method q = ''GET'' \<and> hr_url q = gm_base_url s @ path"
    "gm_base_url (snd (gm_public env path s)) = gm_base_url s" "gm_nonce (snd (gm_public env path s)) = gm_nonce s"
    using gm_public_trace[of env path s] by blast
  have base: "gm_base_url s = gemini_rest_url" using ok by (simp add: gm_ok_def)
  have "\<forall>q \<in> fst ` set ts. starts_with (hr_url q) gemini_rest_url \<and> is_get q" using t(2) unfolding base by simp
  then show "gm_ok env (snd (gm_public env path s))"
    using ok unfolding gm_ok_def t set_append image_Un by blast
qed

lemma keeps_ok_private: "keeps_ok env (gm_private env path body)"
proof (unfold triple_snd_iff, intro allI impI)
  fix s :: "'a gemini" assume ok: "gm_ok env s"
  obtain ts nonce where t: "hs_trace (snd (gm_private env path body s)) = hs_trace s @ ts"
    "\<forall>q \<in> fst ` set ts. \<exists>key secret. q = gm_request env (gm_base_url s) key secret path body nonce"
    "gm_base_url (snd (gm_private env path body s)) = gm_base_url s" "gm_nonce s \<le> gm_nonce (snd (gm_private env path body s))"
    "gm_nonce s < nonce" "ts \<noteq> [] \<longrightarrow> nonce = gm_nonce (snd (gm_private env path body s))"
    "map snd (answers_in ts) = (case fst (gm_private env path body s) of Inr p \<Rightarrow> [p] | Inl _ \<Rightarrow> [])"
    by (rule gm_private_trace)
  have new: "starts_with (hr_url q) gemini_rest_url \<and> (\<exists>nonce'. nonce' \<le> gm_nonce (snd (gm_private env path body s)) \<and>
      with_nonce env gemini_rest_url q nonce')" if "q \<in> fst ` set ts" for q
  proof -
    note mem = that
    have "nonce = gm_nonce (snd (gm_private env path body s))" using mem t(6) by auto
    moreover obtain key secret where "q = gm_request env (gm_base_url s) key secret path body nonce"
      using mem t(2) by blast
    moreover have "gm_base_url s = gemini_rest_url" using ok by (simp add: gm_ok_def)
    ultimately show ?thesis by (auto simp: with_nonce_def gm_request_def Let_def)
  qed
  have old: "starts_with (hr_url q) gemini_rest_url \<and> (is_get q \<or> (\<exists>nonce'. nonce' \<le> gm_nonce (snd (gm_private env path body s)) \<and>
      with_nonce env gemini_rest_url q nonce'))" if "q \<in> fst ` set (hs_trace s)" for q
    using ok that t(4) unfolding gm_ok_def by (metis order_trans)
  have "gm_base_url (snd (gm_private env path body s)) = gemini_rest_url" using ok t(3) by (simp add: gm_ok_def)
  then show "gm_ok env (snd (gm_private env path body s))"
    unfolding gm_ok_def t(1) set_append image_Un using new old by blast
qed

lemma keeps_ok_amap: "(\<And>x. keeps_ok env (f x)) \<Longrightarrow> keeps_ok env (amap f xs)"
  by (induction xs) (auto intro!: keeps_ok_bind)

lemma keeps_ok_update:
  "keeps_ok env (\<lambda>s. (r s, gm_remember key ord s))"
  by (rule keeps_ok_frame) (simp add: gm_remember_def)

lemma keeps_ok_refuse: "keeps_ok env (refuse unknown r)"
  by (rule keeps_ok_frame) (simp add: refuse_def gm_remember_def)

lemma keeps_ok_timestamp: "keeps_ok env (gm_timestamp env v)"
  unfolding gm_timestamp_def by (auto simp: Let_def keeps_ok_ask split: option.split float_text.split)

lemma keeps_ok_order_of_raw: "keeps_ok env (gm_order_of_raw env raw r provider_id)"
  unfolding gm_order_of_raw_def Let_def
  by (intro keeps_ok_bind keeps_ok_lift keeps_ok_ask keeps_ok_timestamp)

lemma keeps_ok_state: "(\<And>s. gm_ok env s \<Longrightarrow> gm_ok env (snd (m s))) \<Longrightarrow> keeps_ok env m"
  by (simp add: triple_snd_iff)

lemma keeps_okD: "keeps_ok env m \<Longrightarrow> gm_ok env s \<Longrightarrow> gm_ok env (snd (m s))"
  by (simp add: triple_snd_iff)

lemma gm_ok_fields [simp]:
  "gm_ok env (s\<lparr>gm_requests := a\<rparr>) = gm_ok env s" "gm_ok env (s\<lparr>gm_orders := b\<rparr>) = gm_ok env s"
  "gm_ok env (s\<lparr>gm_provider_order_ids := c\<rparr>) = gm_ok env s" "gm_ok env (s\<lparr>gm_raw_fills := d\<rparr>) = gm_ok env s"
  "gm_ok env (gm_remember key ord s) = gm_ok env s"
  by (simp_all add: gm_ok_def gm_remember_def)

lemma keeps_ok_from_payload: "keeps_ok env (gm_order_from_payload env raw request key)"
  unfolding gm_order_from_payload_def Let_def
  by (rule keeps_ok_state) (auto split: sum.split option.split intro!: keeps_okD[OF keeps_ok_order_of_raw])

lemma keeps_ok_status_answer: "keeps_ok env (gm_status_answer env key answered)"
proof -
  have store: "keeps_ok env (\<lambda>s. abind (gm_order_from_payload env payload (map_of (gm_requests s) key) (Some key))
      (\<lambda>ord s. (Inr (Some ord), gm_remember key ord s)) s)" for payload
    by (rule keeps_ok_state) (rule keeps_okD[OF keeps_ok_bind[OF keeps_ok_from_payload keeps_ok_update]])
  show ?thesis unfolding gm_status_answer_def
    by (rule keeps_ok_bind[OF keeps_ok_lift]) (auto split: option.split intro: store)
qed

lemma keeps_ok_look: "keeps_ok env (gm_look env key)"
proof (rule keeps_ok_state)
  fix s :: "'a gemini" assume ok: "gm_ok env s"
  have "keeps_ok env (abind (attempt (gm_private env ''/v1/order/status'' body)) (\<lambda>r.
       case r of
         Inr payload \<Rightarrow> gm_status_answer env key payload
       | Inl (ProviderHTTPError code path reason) \<Rightarrow>
           if code = 404 then aret None else athrow (ProviderHTTPError code path reason)
       | Inl e \<Rightarrow> athrow e))" for body
    by (intro keeps_ok_bind keeps_ok_attempt keeps_ok_private)
      (auto split: sum.split exn.split intro: keeps_ok_status_answer)
  then show "gm_ok env (snd (gm_look env key s))" unfolding gm_look_def using ok by (intro keeps_okD)
qed

lemma keeps_ok_get_order: "keeps_ok env (gm_get_order env key)"
  by (rule keeps_ok_state) (auto simp: gm_get_order_def intro: keeps_okD[OF keeps_ok_look] split: option.split)

lemma keeps_ok_current: "keeps_ok env (gm_current env key)"
  by (rule keeps_ok_state) (auto simp: gm_current_def intro: keeps_okD[OF keeps_ok_get_order] split: option.split)

lemma keeps_ok_quote: "keeps_ok env (gm_get_quote env symb)"
  unfolding gm_get_quote_def by (intro keeps_ok_bind keeps_ok_public) (auto intro!: keeps_ok_bind keeps_ok_ask)

lemma keeps_ok_rules: "keeps_ok env (gm_get_symbol_rules env symb)"
  unfolding gm_get_symbol_rules_def Let_def by (intro keeps_ok_bind keeps_ok_public) (auto intro!: keeps_ok_bind)

lemma keeps_ok_balances: "keeps_ok env (gm_get_balances env)"
  unfolding gm_get_balances_def
  by (intro keeps_ok_bind keeps_ok_private) (auto intro!: keeps_ok_bind keeps_ok_ask split: json.split)

lemma keeps_ok_positions: "keeps_ok env (gm_get_positions env)"
  unfolding gm_get_positions_def by (auto intro!: keeps_ok_bind keeps_ok_balances keeps_ok_ask)

lemma keeps_ok_market_cap: "keeps_ok env (market_cap env r unknown)"
proof -
  have "keeps_ok env (\<lambda>s. case found of
         Inl e \<Rightarrow> (if e = PyError ''CancelledError'' then (Inl e, s) else refuse unknown r s)
       | Inr q \<Rightarrow>
           (case capped_price (gm_market_collar s) (req_side r) q of
              Inl e \<Rightarrow> (Inl e, s)
            | Inr cap \<Rightarrow> if cap \<le> 0 then refuse unknown r s else (Inr cap, s)))" for found
    by (rule keeps_ok_state) (auto split: sum.split intro: keeps_okD[OF keeps_ok_refuse])
  then show ?thesis unfolding market_cap_def by (intro keeps_ok_bind keeps_ok_attempt keeps_ok_quote)
qed

lemma keeps_ok_priced_body: "keeps_ok env (gm_priced_body env r unknown)"
  unfolding gm_priced_body_def Let_def by (auto intro!: keeps_ok_bind keeps_ok_market_cap split: option.split)

lemma keeps_ok_created: "keeps_ok env (gm_created env r unknown result)"
  unfolding gm_created_def Let_def
  by (auto intro!: keeps_ok_bind keeps_ok_from_payload keeps_ok_update keeps_ok_refuse split: sum.split exn.split)

lemma keeps_ok_submit_new: "keeps_ok env (gm_submit_new env r)"
proof (rule keeps_ok_state)
  fix s :: "'a gemini" assume "gm_ok env s"
  then show "gm_ok env (snd (gm_submit_new env r s))" unfolding gm_submit_new_def Let_def
    by (intro keeps_okD keeps_ok_bind keeps_ok_ask keeps_ok_priced_body keeps_ok_attempt keeps_ok_private keeps_ok_created) simp
qed

lemma keeps_ok_submit: "keeps_ok env (gm_submit_order env r apr)"
proof -
  have again: "keeps_ok env (abind (gm_get_order env key) (\<lambda>recovered.
             case recovered of
               Some ord \<Rightarrow> if ord_status ord \<noteq> UNKNOWN then aret ord else gm_submit_new env r
             | None \<Rightarrow> gm_submit_new env r))" for key
    by (intro keeps_ok_bind keeps_ok_get_order) (auto intro: keeps_ok_submit_new split: option.split)
  have "keeps_ok env (\<lambda>s. case map_of (gm_orders s) (req_client_order_id r) of
         None \<Rightarrow> gm_submit_new env r s
       | Some existing \<Rightarrow>
           if \<not> unresolved (ord_status existing) then (Inr existing, s)
           else abind (gm_get_order env (req_client_order_id r)) (\<lambda>recovered.
             case recovered of
               Some ord \<Rightarrow> if ord_status ord \<noteq> UNKNOWN then aret ord else gm_submit_new env r
             | None \<Rightarrow> gm_submit_new env r) s)"
    by (rule keeps_ok_state) (auto intro: keeps_okD[OF keeps_ok_submit_new] keeps_okD[OF again] split: option.split)
  then show ?thesis unfolding gm_submit_order_def by (intro keeps_ok_bind keeps_ok_lift)
qed

lemma keeps_ok_refresh: "keeps_ok env (gm_refresh_fills env key ord)"
  unfolding gm_refresh_fills_def
  by (rule keeps_ok_bind[OF keeps_ok_look]) (rule keeps_ok_state, auto split: option.split)

lemma keeps_ok_fill: "keeps_ok env (gemini_fill env raw ord)"
  unfolding gemini_fill_def Let_def by (intro keeps_ok_bind keeps_ok_lift keeps_ok_timestamp)

lemma keeps_ok_get_fills: "keeps_ok env (gm_get_fills env key)"
proof -
  have row: "keeps_ok env (\<lambda>s. amap (\<lambda>row. gemini_fill env row ord) (dict_get (gm_raw_fills s) key []) s)" for ord
    by (rule keeps_ok_state) (rule keeps_okD[OF keeps_ok_amap[OF keeps_ok_fill]])
  have listing: "keeps_ok env (abind (lift x) (\<lambda>traded.
           abind (if traded < ord_filled_quantity ord then gm_refresh_fills env key ord else aret ord) (\<lambda>ord s.
             amap (\<lambda>row. gemini_fill env row ord) (dict_get (gm_raw_fills s) key []) s)))" for x ord
    by (rule keeps_ok_bind[OF keeps_ok_lift], rule keeps_ok_bind[OF _ row]) (simp add: keeps_ok_refresh)
  have "keeps_ok env (\<lambda>s. case found of
         None \<Rightarrow> (Inr [], s)
       | Some ord \<Rightarrow>
           abind (lift (traded_amount (ge_lib env) (dict_get (gm_raw_fills s) key []))) (\<lambda>traded.
           abind (if traded < ord_filled_quantity ord then gm_refresh_fills env key ord else aret ord) (\<lambda>ord s.
             amap (\<lambda>row. gemini_fill env row ord) (dict_get (gm_raw_fills s) key []) s)) s)" for found
    by (rule keeps_ok_state) (auto split: option.split intro: keeps_okD[OF listing])
  then show ?thesis unfolding gm_get_fills_def by (intro keeps_ok_bind keeps_ok_current)
qed

lemma keeps_ok_cancel: "keeps_ok env (gm_cancel_order env key)"
proof -
  have store: "keeps_ok env (record_canceled key ord)" for ord
    by (rule keeps_ok_state) (simp add: record_canceled_def Let_def)
  have call: "keeps_ok env (abind (gm_private env ''/v1/order/cancel'' body) (\<lambda>payload.
        abind (gm_order_from_payload env payload request None) (record_canceled key)))" for body request
    by (intro keeps_ok_bind keeps_ok_private keeps_ok_from_payload store)
  have "keeps_ok env (\<lambda>s. case found of
         None \<Rightarrow> (Inr None, s)
       | Some current \<Rightarrow>
           (case map_of (gm_provider_order_ids s) key of
              None \<Rightarrow> (Inl (ValueError ''cannot cancel an order without a provider order id''), s)
            | Some provider_id \<Rightarrow>
                abind (gm_private env ''/v1/order/cancel'' [(''order_id'', JStr provider_id)]) (\<lambda>payload.
                abind (gm_order_from_payload env payload (Some (ord_request current)) None) (record_canceled key)) s))" for found
    by (rule keeps_ok_state) (auto split: option.split intro: keeps_okD[OF call])
  then show ?thesis unfolding gm_cancel_order_def by (intro keeps_ok_bind keeps_ok_current)
qed

lemma keeps_ok_edit: "keeps_ok env (gm_edit_order env key quantity limit_price approval)"
  unfolding gm_edit_order_def
  by (auto split: option.split intro!: keeps_ok_bind keeps_ok_lift keeps_ok_current keeps_ok_cancel keeps_ok_submit)

section \<open>Reachable adapters\<close>

datatype gm_call =
    GQuote string | GRules string | GBalances | GPositions | GSubmit order_request risk_approval | GOrder string
  | GFills string | GCancel string | GEdit string rat rat "risk_approval option"

fun gm_after :: "'v gemini_env \<Rightarrow> gm_call \<Rightarrow> 'v gemini \<Rightarrow> 'v gemini" where
  "gm_after env (GQuote symb) s = snd (gm_get_quote env symb s)"
| "gm_after env (GRules symb) s = snd (gm_get_symbol_rules env symb s)"
| "gm_after env GBalances s = snd (gm_get_balances env s)"
| "gm_after env GPositions s = snd (gm_get_positions env s)"
| "gm_after env (GSubmit r apr) s = snd (gm_submit_order env r apr s)"
| "gm_after env (GOrder key) s = snd (gm_get_order env key s)"
| "gm_after env (GFills key) s = snd (gm_get_fills env key s)"
| "gm_after env (GCancel key) s = snd (gm_cancel_order env key s)"
| "gm_after env (GEdit key quantity limit_price approval) s = snd (gm_edit_order env key quantity limit_price approval s)"

text \<open>What the adapter can become by calls of its methods, whatever the network answers and whoever made it.\<close>

inductive gm_reachable :: "'v gemini_env \<Rightarrow> 'v gemini \<Rightarrow> bool" for env where
  gm_start: "gemini_init host http api_key api_secret collar now = Inr s \<Longrightarrow> hs_trace http = [] \<Longrightarrow> gm_reachable env s"
| gm_step: "gm_reachable env s \<Longrightarrow> gm_reachable env (gm_after env c s)"

lemma gm_reachable_ok: "gm_reachable env s \<Longrightarrow> gm_ok env s"
proof (induction rule: gm_reachable.induct)
  case (gm_start host http api_key api_secret collar now s)
  then show ?case by (auto simp: gemini_init_def gm_ok_def http_state.defs split: if_splits)
next
  case (gm_step s c)
  note kept = keeps_okD[OF _ gm_step.IH]
  show ?case
    by (cases c) (auto intro: kept keeps_ok_quote keeps_ok_rules keeps_ok_balances keeps_ok_positions keeps_ok_submit
        keeps_ok_get_order keeps_ok_get_fills keeps_ok_cancel keeps_ok_edit)
qed

text \<open>
  C18. Whatever URL, credentials and calls it is given and whatever the network answers, the adapter
  sends every request to the Gemini Sandbox; and each signed call uses a nonce above every nonce in a
  request sent before it.
\<close>

theorem only_the_sandbox_and_rising_nonces:
  assumes "gm_reachable env s"
  shows "(\<forall>q \<in> fst ` set (hs_trace s). starts_with (hr_url q) ''https://api.sandbox.gemini.com'') \<and>
    (\<exists>ts nonce. hs_trace (snd (gm_private env path body s)) = hs_trace s @ ts \<and>
       (\<forall>q \<in> fst ` set ts. with_nonce env gemini_rest_url q nonce) \<and>
       (\<forall>q \<in> fst ` set (hs_trace s). is_get q \<or> (\<exists>older. older < nonce \<and> with_nonce env gemini_rest_url q older)))"
proof -
  have ok: "gm_ok env s" using assms by (rule gm_reachable_ok)
  then have base: "gm_base_url s = gemini_rest_url" by (simp add: gm_ok_def)
  obtain ts nonce where t: "hs_trace (snd (gm_private env path body s)) = hs_trace s @ ts"
    "\<forall>q \<in> fst ` set ts. \<exists>key secret. q = gm_request env (gm_base_url s) key secret path body nonce"
    "gm_base_url (snd (gm_private env path body s)) = gm_base_url s" "gm_nonce s \<le> gm_nonce (snd (gm_private env path body s))"
    "gm_nonce s < nonce" "ts \<noteq> [] \<longrightarrow> nonce = gm_nonce (snd (gm_private env path body s))"
    "map snd (answers_in ts) = (case fst (gm_private env path body s) of Inr p \<Rightarrow> [p] | Inl _ \<Rightarrow> [])"
    by (rule gm_private_trace)
  have "\<forall>q \<in> fst ` set ts. with_nonce env gemini_rest_url q nonce"
    using t(2) unfolding base with_nonce_def by blast
  moreover have "is_get q \<or> (\<exists>older. older < nonce \<and> with_nonce env gemini_rest_url q older)" if "q \<in> fst ` set (hs_trace s)" for q
    using ok that t(5) unfolding gm_ok_def by (meson le_less_trans)
  moreover have "\<forall>q \<in> fst ` set (hs_trace s). starts_with (hr_url q) ''https://api.sandbox.gemini.com''"
    using ok unfolding gm_ok_def gemini_rest_url_def by blast
  ultimately show ?thesis using t(1) by blast
qed

definition gem_env :: "transport list gemini_env" where
  "gem_env = \<lparr>ge_lib = demo_lib, ge_net = scripted_net, ge_encode = (\<lambda>j. ''encoded''), ge_sign = (\<lambda>key text. ''signed'')\<rparr>"

definition gem_start :: "transport list \<Rightarrow> transport list gemini" where
  "gem_start script = http_state.extend (sample_http script) \<lparr>gm_base_url = gemini_rest_url, gm_api_key = Some ''k'',
     gm_api_secret = Some ''s'', gm_market_collar = 1 / 100, gm_requests = [], gm_orders = [], gm_provider_order_ids = [],
     gm_raw_fills = [], gm_nonce = trunc (flt (0 * 1000))\<rparr>"

lemma gem_start_reachable: "gm_reachable gem_env (gem_start script)"
proof (rule gm_start)
  show "gemini_init (Some ''api.sandbox.gemini.com'') (sample_http script) (Some ''k'') (Some ''s'') (1 / 100) 0 = Inr (gem_start script)"
    by (simp add: gemini_init_def gem_start_def sandbox_host_def ends_with_def py_lower_def lower_char_def)
qed (simp add: sample_http_def)

definition gem_after_balances :: "transport list gemini" where
  "gem_after_balances = gm_after gem_env GBalances (gem_start [answer (JArr []), answer (JArr [])])"

theorem only_the_sandbox_and_rising_nonces_witness:
  "\<exists>ts nonce. hs_trace (snd (gm_private gem_env ''/v1/balances'' [] gem_after_balances)) = hs_trace gem_after_balances @ ts \<and>
     list_all (\<lambda>q. with_nonce gem_env gemini_rest_url q nonce) (map fst ts) \<and>
     list_all (\<lambda>q. is_get q \<or> (\<exists>older. older < nonce \<and> with_nonce gem_env gemini_rest_url q older)) (map fst (hs_trace gem_after_balances))"
  using only_the_sandbox_and_rising_nonces[OF gm_step[OF gem_start_reachable[of "[answer (JArr []), answer (JArr [])]"], of GBalances],
      of "''/v1/balances''" "[]"]
  unfolding gem_after_balances_def list_all_iff by (simp only: set_map)

section \<open>Orders that share an identifier\<close>

abbreviation keeps_orders :: "(string, trade_order) dict \<Rightarrow> (exn, 'v gemini, 'a) act \<Rightarrow> bool" where
  "keeps_orders d m \<equiv> triple (\<lambda>s. gm_orders s = d) m (\<lambda>_ s. gm_orders s = d) (\<lambda>_ s. gm_orders s = d)"

lemma keeps_orders_bind: "keeps_orders d m \<Longrightarrow> (\<And>x. keeps_orders d (f x)) \<Longrightarrow> keeps_orders d (abind m f)"
  by (rule triple_abind)

lemma keeps_orders_lift: "keeps_orders d (lift r)"
  by (cases r) (auto simp: triple_def)

lemma keeps_orders_ask: "keeps_orders d (ask f)"
  by (auto simp: triple_def ask_def split: prod.splits)

lemma keeps_orders_timestamp: "keeps_orders d (gm_timestamp env v)"
  unfolding gm_timestamp_def
  by (auto simp: Let_def keeps_orders_ask intro: triple_aret triple_athrow split: option.split float_text.split)

lemma raw_keeps_orders:
  fixes s :: "'v gemini"
  shows "gm_orders (snd (gm_order_of_raw env raw r p s)) = gm_orders s"
proof -
  have "keeps_orders (gm_orders s) (gm_order_of_raw env raw r p)"
    unfolding gm_order_of_raw_def Let_def
    by (intro keeps_orders_bind keeps_orders_lift keeps_orders_ask keeps_orders_timestamp)
  then show ?thesis by (simp add: triple_snd_iff)
qed

lemma payload_keeps_orders: "gm_orders (snd (gm_order_from_payload env raw request key s)) = gm_orders s"
  by (simp add: gm_order_from_payload_def Let_def raw_keeps_orders split: sum.split)

text \<open>
  C19. A status lookup never chooses between orders: when the venue lists more than one order with our
  client order ID the lookup raises and records nothing, and an order it returns out of a list was the
  only one.
\<close>

theorem shared_identifier_is_never_guessed:
  assumes "gm_private env ''/v1/order/status'' (status_body key (map_of (gm_provider_order_ids s) key)) s = (Inr (JArr found), t)"
  shows "(if 1 < length (our_orders (ge_lib env) key found) then gm_look env key s = (Inl provider_error, t)
    else case gm_look env key s of
      (Inr (Some ord), u) \<Rightarrow> (\<exists>row. our_orders (ge_lib env) key found = [row]) \<and> map_of (gm_orders u) key = Some ord
    | (Inr None, u) \<Rightarrow> u = t
    | (Inl e, u) \<Rightarrow> gm_orders u = gm_orders t)"
proof -
  have run: "gm_look env key s = gm_status_answer env key (JArr found) t"
    using assms by (simp add: gm_look_def abind_def attempt_def)
  consider "our_orders (ge_lib env) key found = []" | row where "our_orders (ge_lib env) key found = [row]"
    | a b cs where "our_orders (ge_lib env) key found = a # b # cs"
    by (cases "our_orders (ge_lib env) key found" rule: remdups_adj.cases) auto
  then show ?thesis
  proof cases
    case 1
    then show ?thesis by (simp add: run gm_status_answer_def only_order_for_def lift_def abind_def)
  next
    case (2 row)
    show ?thesis
      using 2 payload_keeps_orders[of env row "map_of (gm_requests t) key" "Some key" t]
      by (auto simp: run gm_status_answer_def only_order_for_def lift_def abind_def gm_remember_def
          split: prod.splits sum.splits if_splits)
  next
    case (3 a b cs)
    then show ?thesis by (simp add: run gm_status_answer_def only_order_for_def lift_def abind_def)
  qed
qed

definition shared_rows :: "json list" where
  "shared_rows = [JObj [(''client_order_id'', JStr sample_key)], JObj [(''client_order_id'', JStr sample_key), (''order_id'', JNum ''2'')]]"

theorem shared_identifier_is_never_guessed_witness:
  "fst (gm_look gem_env sample_key (gem_start [answer (JArr shared_rows)])) = Inl provider_error"
proof -
  let ?s = "gem_start [answer (JArr shared_rows)]"
  have "fst (gm_private gem_env ''/v1/order/status'' (status_body sample_key (map_of (gm_provider_order_ids ?s) sample_key)) ?s)
      = Inr (JArr shared_rows)"
    by code_simp
  then obtain t where run: "gm_private gem_env ''/v1/order/status'' (status_body sample_key (map_of (gm_provider_order_ids ?s) sample_key)) ?s
      = (Inr (JArr shared_rows), t)"
    by (metis prod.collapse)
  have "1 < length (our_orders (ge_lib gem_env) sample_key shared_rows)" by code_simp
  then show ?thesis using shared_identifier_is_never_guessed[OF run] by simp
qed

section \<open>A market order has a price\<close>

definition few_digits :: "nat \<Rightarrow> rat \<Rightarrow> bool" where
  "few_digits k x \<longleftrightarrow> x * 10 ^ k \<in> \<int> \<and> 0 \<le> x \<and> x < 10 ^ 10"

lemma trunc_le: "0 \<le> x \<Longrightarrow> of_int (trunc x) \<le> x"
  using trunc_toward_zero[of x] by (simp add: trunc_def split: if_splits)

lemma few_digits_dec:
  assumes "few_digits k x" "k \<le> 8"
  shows "dec x = x"
proof (rule dec_grid[where k = k])
  have "\<bar>x\<bar> * 10 ^ k < 10 ^ 10 * 10 ^ k" using assms by (simp add: few_digits_def)
  also have "\<dots> \<le> (10 :: rat) ^ 10 * 10 ^ 8" using assms(2) by (intro mult_left_mono power_increasing) auto
  finally show "\<bar>x\<bar> * 10 ^ k < 10 ^ 28" by simp
qed (use assms in \<open>simp add: few_digits_def\<close>)

lemma few_digits_mult:
  assumes "few_digits 8 x" "few_digits 8 y" "y < 2"
  shows "dec (x * y) = x * y"
proof (rule dec_grid[where k = 16])
  have "x * 10 ^ 8 \<in> \<int>" "y * 10 ^ 8 \<in> \<int>" using assms by (simp_all add: few_digits_def)
  from Ints_mult[OF this] show "x * y * 10 ^ 16 \<in> \<int>" by (simp add: algebra_simps)
  have "x * y < 10 ^ 10 * 2" using assms by (intro mult_strict_mono') (simp_all add: few_digits_def)
  moreover have "0 \<le> x * y" using assms by (simp add: few_digits_def)
  ultimately show "\<bar>x * y\<bar> * 10 ^ 16 < 10 ^ 28" by simp
qed

lemma grid_collar:
  assumes "few_digits 8 c" "c < 1 / 10"
  shows "dadd 1 c = 1 + c" "dsub 1 c = 1 - c" "few_digits 8 (1 + c)" "few_digits 8 (1 - c)"
proof -
  have "(1 + c) * 10 ^ 8 \<in> \<int>" "(1 - c) * 10 ^ 8 \<in> \<int>"
    using assms by (auto simp: few_digits_def algebra_simps)
  then show grids: "few_digits 8 (1 + c)" "few_digits 8 (1 - c)" using assms by (auto simp: few_digits_def)
  show "dadd 1 c = 1 + c" "dsub 1 c = 1 - c"
    using grids by (simp_all add: dadd_def dsub_def few_digits_dec)
qed

lemma capped_price_bounds:
  assumes collar: "few_digits 8 c" "0 < c" "c < 1 / 10" and q: "few_digits 8 (q_ask q)" "few_digits 8 (q_bid q)"
    and cap: "capped_price c side q = Inr p"
  shows "case side of BUY \<Rightarrow> p \<le> q_ask q * (1 + c) \<and> q_ask q * (1 + c) < p + price_tick
    | SELL \<Rightarrow> q_bid q * (1 - c) \<le> p \<and> p < q_bid q * (1 - c) + price_tick"
proof (cases side)
  case BUY
  have x: "dmul (q_ask q) (dadd 1 c) = q_ask q * (1 + c)"
    using few_digits_mult[OF q(1) grid_collar(3)[OF collar(1,3)]] grid_collar(1)[OF collar(1,3)] collar by (simp add: dmul_def)
  let ?x = "q_ask q * (1 + c)"
  have pos: "0 \<le> ?x" using q collar by (simp add: few_digits_def)
  have p: "p = of_int (trunc (?x / price_tick)) * price_tick"
    using cap by (simp add: BUY capped_price_def quantize_down_def quantized_def x split: if_splits)
  have "of_int (trunc (?x / price_tick)) \<le> ?x / price_tick" using pos by (intro trunc_le) (simp add: price_tick_def)
  moreover have "?x / price_tick < of_int (trunc (?x / price_tick)) + 1"
    using trunc_near[of "?x / price_tick"] by (simp add: abs_less_iff)
  ultimately show ?thesis unfolding p BUY by (simp add: price_tick_def field_simps)
next
  case SELL
  have x: "dmul (q_bid q) (dsub 1 c) = q_bid q * (1 - c)"
    using few_digits_mult[OF q(2) grid_collar(4)[OF collar(1,3)]] grid_collar(2)[OF collar(1,3)] collar by (simp add: dmul_def)
  let ?x = "q_bid q * (1 - c)"
  have pos: "0 \<le> ?x" using q collar by (simp add: few_digits_def)
  have p: "p = of_int \<lceil>?x / price_tick\<rceil> * price_tick"
    using cap pos by (simp add: SELL capped_price_def quantize_up_def quantized_def x split: if_splits)
  have "?x / price_tick \<le> of_int \<lceil>?x / price_tick\<rceil>" "of_int \<lceil>?x / price_tick\<rceil> < ?x / price_tick + 1"
    by (rule le_of_int_ceiling) linarith
  then show ?thesis unfolding p SELL by (simp add: price_tick_def field_simps)
qed

abbreviation keeps_collar :: "rat \<Rightarrow> (exn, 'v gemini, 'a) act \<Rightarrow> bool" where
  "keeps_collar c m \<equiv> triple (\<lambda>s. gm_market_collar s = c) m (\<lambda>_ s. gm_market_collar s = c) (\<lambda>_ s. gm_market_collar s = c)"

lemma keeps_collar_bind: "keeps_collar c m \<Longrightarrow> (\<And>x. keeps_collar c (f x)) \<Longrightarrow> keeps_collar c (abind m f)"
  by (rule triple_abind)

lemma keeps_collar_simple: "keeps_collar c (lift r)" "keeps_collar c (ask f)" "keeps_collar c (athrow e)"
  by (cases r; auto simp: triple_def ask_def split: prod.splits)+

lemma keeps_collar_public: "keeps_collar c (gm_public env path)"
proof (unfold triple_snd_iff, intro allI impI)
  fix s :: "'a gemini" assume c: "gm_market_collar s = c"
  let ?I = "\<lambda>t. hs_max_429_retries t = hs_max_429_retries s \<and> gm_market_collar t = c"
  have "steady ?I" by (simp add: steady_def)
  then have "talks ?I (request_json (ge_lib env) (ge_net env) req None id) (exchange ((=) req) (nat (hs_max_429_retries s + 1)))" for req
    by (rule request_json_plain) simp
  from talks_at[OF this, of s] c show "gm_market_collar (snd (gm_public env path s)) = c"
    unfolding gm_public_def by blast
qed

lemma quote_keeps_collar:
  fixes s :: "'v gemini"
  shows "gm_market_collar (snd (gm_get_quote env symb s)) = gm_market_collar s"
proof -
  have "keeps_collar (gm_market_collar s) (gm_get_quote env symb)"
    unfolding gm_get_quote_def
    by (rule keeps_collar_bind[OF keeps_collar_public]) (auto intro!: keeps_collar_bind keeps_collar_simple)
  then show ?thesis by (simp add: triple_snd_iff)
qed

text \<open>The price a market order goes out with, and the quote of the same call it comes from.\<close>

definition collared :: "rat \<Rightarrow> order_side \<Rightarrow> quote \<Rightarrow> rat \<Rightarrow> bool" where
  "collared c side q p \<longleftrightarrow> 0 < p \<and>
     (case side of BUY \<Rightarrow> p \<le> q_ask q * (1 + c) | SELL \<Rightarrow> q_bid q * (1 - c) \<le> p)"

text \<open>
  C20. A market order is sent as an immediate-or-cancel limit order whose price, for a quote and a collar
  of at most eight decimals, is positive and never further from the quote read in the same call than the
  collar allows: not above the ask by more for a buy, not below the bid by more for a sell.
\<close>

theorem market_order_never_leaves_its_collar:
  assumes "req_order_type r = MARKET" and "few_digits 8 (gm_market_collar s)" "0 < gm_market_collar s" "gm_market_collar s < 1 / 10"
    and "gm_priced_body env r unknown s = (Inr body, s')"
  shows "\<exists>q p. fst (gm_get_quote env (req_symbol r) s) = Inr q \<and>
    body = gm_order_body (ge_lib env) r @
      [(''price'', JStr (lib_dec_str (ge_lib env) p)), (''options'', JArr [JStr ''immediate-or-cancel''])] \<and>
    0 < p \<and> (few_digits 8 (q_ask q) \<and> few_digits 8 (q_bid q) \<longrightarrow> collared (gm_market_collar s) (req_side r) q p)"
proof -
  obtain p u where cap: "market_cap env r unknown s = (Inr p, u)" and body: "body = gm_order_body (ge_lib env) r @
      [(''price'', JStr (lib_dec_str (ge_lib env) p)), (''options'', JArr [JStr ''immediate-or-cancel''])]"
    using assms(1,5) by (auto simp: gm_priced_body_def Let_def elim!: abind_InrE)
  obtain fq t where q: "gm_get_quote env (req_symbol r) s = (fq, t)" by force
  have collar: "gm_market_collar t = gm_market_collar s"
    using quote_keeps_collar[of env "req_symbol r" s] by (simp add: q)
  obtain qt where qt: "fq = Inr qt" and price: "capped_price (gm_market_collar s) (req_side r) qt = Inr p" "0 < p"
    using cap unfolding market_cap_def
    by (auto simp: abind_def attempt_def q collar refuse_def split: sum.splits if_splits)
  have "few_digits 8 (q_ask qt) \<and> few_digits 8 (q_bid qt) \<longrightarrow> collared (gm_market_collar s) (req_side r) qt p"
    using capped_price_bounds[OF assms(2-4) _ _ price(1)] price(2) by (auto simp: collared_def split: order_side.splits)
  then show ?thesis using q qt body price(2) by auto
qed


definition market_request :: order_request where
  "market_request = coin_request\<lparr>req_client_order_id := sample_key\<rparr>"

definition quoting :: "transport list gemini" where
  "quoting = gem_start [answer (JObj [(''bid'', JStr ''99.50''), (''ask'', JStr ''100.50'')]),
     answer (JObj [(''order_id'', JStr ''7''), (''is_live'', JBool False), (''executed_amount'', JStr ''2'')])]"

lemma quoting_quotes:
  "case fst (gm_get_quote gem_env ''BTC-USD'' quoting) of Inr q \<Rightarrow> q_bid q = 199 / 2 \<and> q_ask q = 201 / 2 | Inl _ \<Rightarrow> False"
  by code_simp

lemma quoting_facts:
  "req_order_type market_request = MARKET" "req_symbol market_request = ''BTC-USD''" "req_side market_request = BUY"
  "gm_market_collar quoting = 1 / 100"
  by (simp_all add: market_request_def coin_request_def quoting_def gem_start_def http_state.defs sample_http_def)

lemma market_body_returns:
  "\<exists>body s'. gm_priced_body gem_env market_request unknown quoting = (Inr body, s')"
proof -
  have digits: "few_digits 8 (201 / 2)" "few_digits 8 (1 / 100)" by (simp_all add: few_digits_def)
  obtain q t where q: "gm_get_quote gem_env ''BTC-USD'' quoting = (Inr q, t)" "q_ask q = 201 / 2"
    using quoting_quotes by (cases "gm_get_quote gem_env ''BTC-USD'' quoting") (auto split: sum.splits)
  have collar: "gm_market_collar t = 1 / 100"
    using quote_keeps_collar[of gem_env "''BTC-USD''" quoting] by (simp add: q quoting_facts)
  have factor: "dadd 1 (1 / 100) = 101 / 100" "few_digits 8 (101 / 100)" using grid_collar(1,3)[OF digits(2)] by simp_all
  have "dmul (201 / 2) (dadd 1 (1 / 100)) = 201 / 2 * (101 / 100)"
    unfolding dmul_def factor by (rule few_digits_mult[OF digits(1) factor(2)]) simp
  then have amount: "dmul (201 / 2) (dadd 1 (1 / 100)) = 20301 / 200" by simp
  have "capped_price (1 / 100) BUY q = Inr (of_int 10150 * price_tick)"
    unfolding capped_price_def quantize_down_def quantized_def q(2) amount by (simp add: trunc_def price_tick_def floor_eq_iff)
  then show ?thesis
    by (simp add: gm_priced_body_def quoting_facts market_cap_def abind_def attempt_def q collar price_tick_def aret_def Let_def)
qed

theorem market_order_never_leaves_its_collar_witness:
  "\<exists>body q p. fst (gm_priced_body gem_env market_request (new_order sample_key market_request UNKNOWN 0) quoting) = Inr body \<and>
     fst (gm_get_quote gem_env ''BTC-USD'' quoting) = Inr q \<and> 0 < p \<and> collared (1 / 100) BUY q p"
proof -
  obtain body s' where run: "gm_priced_body gem_env market_request (new_order sample_key market_request UNKNOWN 0) quoting = (Inr body, s')"
    using market_body_returns by blast
  have "few_digits 8 (gm_market_collar quoting)" by (simp add: quoting_facts few_digits_def)
  from market_order_never_leaves_its_collar[OF quoting_facts(1) this _ _ run] obtain q p where
    "fst (gm_get_quote gem_env ''BTC-USD'' quoting) = Inr q" "0 < p"
    "few_digits 8 (q_ask q) \<and> few_digits 8 (q_bid q) \<longrightarrow> collared (1 / 100) BUY q p"
    by (simp add: quoting_facts) blast
  moreover have q: "q_bid q = 199 / 2" "q_ask q = 201 / 2"
    using quoting_quotes[unfolded \<open>fst (gm_get_quote gem_env ''BTC-USD'' quoting) = Inr q\<close>] by simp_all
  have "few_digits 8 (q_ask q)" "few_digits 8 (q_bid q)" unfolding q by (simp_all add: few_digits_def)
  ultimately show ?thesis using run by (intro exI[of _ body] exI[of _ q] exI[of _ p]) simp
qed

section \<open>A cancel that is believed too soon\<close>

text \<open>
  The venue answers the cancel with an order that is still live and untraded. The adapter records it as
  canceled, every later lookup repeats that from its own record, and an edit submits the replacement for
  the whole quantity while the original can still fill.
\<close>

definition resting_order :: trade_order where
  "resting_order = (new_order sample_key (market_request\<lparr>req_order_type := LIMIT, req_limit_price := Some 90\<rparr>) OPEN 0)"

definition live_after_cancel :: "transport list gemini" where
  "live_after_cancel = (gem_start [answer (JObj [(''order_id'', JStr ''7''), (''is_live'', JBool True), (''executed_amount'', JStr ''0'')]),
       answer (JObj [(''order_id'', JStr ''8''), (''is_live'', JBool True), (''executed_amount'', JStr ''0'')])])
     \<lparr>gm_orders := [(sample_key, resting_order)], gm_provider_order_ids := [(sample_key, ''7'')]\<rparr>"

definition edited :: "(exn + trade_order) \<times> transport list gemini" where
  "edited = gm_edit_order gem_env sample_key 2 91 (Some coin_approval) live_after_cancel"

lemma live_order_is_recorded_canceled:
  "map_option ord_status (map_of (gm_orders (snd edited)) sample_key) = Some CANCELED \<and>
   map (hr_url \<circ> fst) (hs_trace (snd edited)) =
     [gemini_rest_url @ ''/v1/order/cancel'', gemini_rest_url @ ''/v1/order/new''] \<and>
   (case fst edited of Inr ord \<Rightarrow> ord_status ord = OPEN \<and> req_quantity (ord_request ord) = 2 | Inl _ \<Rightarrow> False)"
  by code_simp

end
