(* ===== verification/Watchlist.thy ===== *)
theory Watchlist
  imports CandleClient "HOL-Library.Multiset" "HOL-Library.List_Lexorder" "HOL-Library.Char_ord"
begin

text \<open>
  The coins an operator watches and the choice to run the watch-only feed: \<^verbatim>\<open>data/watchlist.py\<close> and
  \<^verbatim>\<open>data/feed_setting.py\<close> over the rows of their tables, and the handlers of
  \<^verbatim>\<open>api/watchlist_routes.py\<close> that change them. The list of coins the rows stand for is \<open>watched\<close>; the locale
  \<open>coin_list\<close> states what the handlers rely on, and is interpreted on the database.

  \<open>wd_failures\<close> says transaction by transaction whether the database fails; a transaction that raises
  is rolled back. The table's constraints are checked statement by statement. When rows of one table
  change, the order in which the library writes them is not the program's choice: it is the parameter
  \<open>write_order\<close> (SQLAlchemy writes them in the order of the primary key). Texts are ASCII.
\<close>

section \<open>Tables\<close>

record watch_row =
  wr_symbol :: string
  wr_position :: int
  wr_added_at :: datetime
  wr_added_by :: string

record watch_event =
  we_action :: string
  we_symbol :: "string option"
  we_role :: string
  we_order :: "string list"
  we_created_at :: datetime

record watch_db =
  wd_rows :: "watch_row list"
  wd_events :: "watch_event list"
  wd_failures :: "bool list"

datatype watch_error = WatchlistRefused string | IntegrityError | DatabaseError | Raised exn

definition WATCHLIST_LIMIT :: nat where "WATCHLIST_LIMIT = 9"

text \<open>One \<^verbatim>\<open>with session_factory.begin()\<close> block.\<close>

definition transaction :: "(watch_error, watch_db, 'a) act \<Rightarrow> (watch_error, watch_db, 'a) act" where
  "transaction body s =
     (let s' = s\<lparr>wd_failures := tl (wd_failures s)\<rparr> in
      if wd_failures s \<noteq> [] \<and> hd (wd_failures s) then (Inl DatabaseError, s')
      else case body s' of (Inl e, _) \<Rightarrow> (Inl e, s') | (Inr x, t) \<Rightarrow> (Inr x, t))"

definition ordered_rows :: "watch_db \<Rightarrow> watch_row list" where
  "ordered_rows s = sort_key wr_position (wd_rows s)"

definition watched :: "watch_db \<Rightarrow> string list" where
  "watched s = map wr_symbol (ordered_rows s)"

text \<open>\<^verbatim>\<open>symbol\<close> is the primary key, \<^verbatim>\<open>position\<close> is unique and between 0 and 8.\<close>

definition insert_row :: "watch_row \<Rightarrow> (watch_error, watch_db, unit) act" where
  "insert_row row s =
     (if wr_symbol row \<in> wr_symbol ` set (wd_rows s) \<or> wr_position row \<in> wr_position ` set (wd_rows s)
         \<or> wr_position row < 0 \<or> 9 \<le> wr_position row
      then (Inl IntegrityError, s)
      else (Inr (), s\<lparr>wd_rows := wd_rows s @ [row]\<rparr>))"

definition update_position :: "string \<times> int \<Rightarrow> (watch_error, watch_db, unit) act" where
  "update_position = (\<lambda>(symbol, position) s.
     if (\<exists>r \<in> set (wd_rows s). wr_symbol r \<noteq> symbol \<and> wr_position r = position) \<or> position < 0 \<or> 9 \<le> position
     then (Inl IntegrityError, s)
     else (Inr (), s\<lparr>wd_rows := map (\<lambda>r. if wr_symbol r = symbol then r\<lparr>wr_position := position\<rparr> else r) (wd_rows s)\<rparr>))"

definition record_event ::
  "string \<Rightarrow> string option \<Rightarrow> string \<Rightarrow> string list \<Rightarrow> datetime \<Rightarrow> (watch_error, watch_db, unit) act"
where
  "record_event action symbol role order moment s =
     (Inr (), s\<lparr>wd_events := wd_events s @ [\<lparr>we_action = action, we_symbol = symbol, we_role = role,
        we_order = order, we_created_at = moment\<rparr>]\<rparr>)"

section \<open>Operations\<close>

definition of_result :: "'e + 'a \<Rightarrow> ('e, 's, 'a) act" where
  "of_result r s = (r, s)"

lemma abind_of_result [simp]: "abind (of_result (Inr x)) f = f x"
  by (simp add: fun_eq_iff of_result_def abind_def)

definition symbol_char :: "char \<Rightarrow> bool" where
  "symbol_char c \<longleftrightarrow> (let n = of_char c :: nat in 48 \<le> n \<and> n \<le> 57 \<or> 65 \<le> n \<and> n \<le> 90)"

definition symbol_pattern :: "string \<Rightarrow> bool" where
  "symbol_pattern s \<longleftrightarrow> (let base = take (length s - 4) s in
     base \<noteq> [] \<and> list_all symbol_char base \<and> s = base @ ''-USD'')"

definition normalize_symbol :: "string \<Rightarrow> watch_error + string" where
  "normalize_symbol raw =
     (let symbol = py_upper (py_strip raw) in
      if \<not> symbol_pattern symbol \<or> 32 < length symbol
      then Inl (WatchlistRefused ''Enter a Coinbase USD product such as ETH-USD.'')
      else Inr symbol)"

definition wl_entries :: "(watch_error, watch_db, watch_row list) act" where
  "wl_entries = transaction (\<lambda>s. (Inr (ordered_rows s), s))"

definition wl_symbols :: "(watch_error, watch_db, string list) act" where
  "wl_symbols = abind wl_entries (\<lambda>rs. aret (map wr_symbol rs))"

definition wl_add :: "string \<Rightarrow> string \<Rightarrow> datetime \<Rightarrow> (watch_error, watch_db, watch_row) act" where
  "wl_add raw role moment =
     abind (of_result (normalize_symbol raw)) (\<lambda>symbol. transaction (\<lambda>s.
       let rs = ordered_rows s;
           row = \<lparr>wr_symbol = symbol, wr_position = int (length rs), wr_added_at = moment, wr_added_by = role\<rparr> in
       if symbol \<in> wr_symbol ` set rs then (Inl (WatchlistRefused (symbol @ '' is already on the watchlist.'')), s)
       else if WATCHLIST_LIMIT \<le> length rs
       then (Inl (WatchlistRefused ''The watchlist holds at most 9 coins. Remove one first.''), s)
       else abind (insert_row row) (\<lambda>_.
            abind (record_event ''add'' (Some symbol) role (map wr_symbol rs @ [symbol]) moment) (\<lambda>_. aret row)) s))"

text \<open>The rows whose place changed, with the new place; the library writes them in its own order.\<close>

definition moved_rows :: "watch_row list \<Rightarrow> (string \<times> int) list" where
  "moved_rows rs = map (\<lambda>(i, r). (wr_symbol r, i)) (filter (\<lambda>(i, r). wr_position r \<noteq> i) (zip (map int [0..<length rs]) rs))"

definition wl_remove ::
  "((string \<times> int) list \<Rightarrow> (string \<times> int) list) \<Rightarrow> string \<Rightarrow> string \<Rightarrow> datetime \<Rightarrow> (watch_error, watch_db, unit) act"
where
  "wl_remove write_order raw role moment =
     abind (of_result (normalize_symbol raw)) (\<lambda>symbol. transaction (\<lambda>s.
       let rs = ordered_rows s; remaining = filter (\<lambda>r. wr_symbol r \<noteq> symbol) rs in
       if symbol \<notin> wr_symbol ` set rs then (Inl (WatchlistRefused (symbol @ '' is not on the watchlist.'')), s)
       else abind (\<lambda>s. (Inr (), s\<lparr>wd_rows := filter (\<lambda>r. wr_symbol r \<noteq> symbol) (wd_rows s)\<rparr>)) (\<lambda>_.
            abind (aforeach update_position (write_order (moved_rows remaining))) (\<lambda>_.
            record_event ''remove'' (Some symbol) role (map wr_symbol remaining) moment)) s))"

fun normalize_list :: "string list \<Rightarrow> watch_error + string list" where
  "normalize_list [] = Inr []"
| "normalize_list (x # xs) = rbind (normalize_symbol x) (\<lambda>y. rbind (normalize_list xs) (\<lambda>ys. Inr (y # ys)))"

definition placed :: "watch_row list \<Rightarrow> string list \<Rightarrow> watch_row list" where
  "placed rs wanted = map (\<lambda>(i, symbol). (case List.find (\<lambda>r. wr_symbol r = symbol) rs of
       Some r \<Rightarrow> r\<lparr>wr_position := i\<rparr>
     | None \<Rightarrow> \<lparr>wr_symbol = symbol, wr_position = i, wr_added_at = 0, wr_added_by = []\<rparr>))
     (zip (map int [0..<length wanted]) wanted)"

definition wl_reorder :: "string list \<Rightarrow> string \<Rightarrow> datetime \<Rightarrow> (watch_error, watch_db, string list) act" where
  "wl_reorder symbols role moment =
     abind (of_result (normalize_list symbols)) (\<lambda>wanted. transaction (\<lambda>s.
       let rs = ordered_rows s in
       if \<not> distinct wanted \<or> mset wanted \<noteq> mset (map wr_symbol rs)
       then (Inl (WatchlistRefused ''The new order must list every watched coin exactly once.''), s)
       else if wanted = map wr_symbol rs then (Inr wanted, s)
       else abind (\<lambda>s. (Inr (), s\<lparr>wd_rows := []\<rparr>)) (\<lambda>_.
            abind (aforeach insert_row (placed rs wanted)) (\<lambda>_.
            abind (record_event ''reorder'' None role wanted moment) (\<lambda>_. aret wanted))) s))"


section \<open>The list the rows stand for\<close>

definition well_placed :: "watch_row list \<Rightarrow> bool" where
  "well_placed rs \<longleftrightarrow> map wr_position rs = map int [0..<length rs] \<and> distinct (map wr_symbol rs) \<and> length rs \<le> 9 \<and>
     (\<forall>r \<in> set rs. normalize_symbol (wr_symbol r) = Inr (wr_symbol r))"

definition holds :: "watch_row list \<Rightarrow> watch_db \<Rightarrow> bool" where
  "holds rs s \<longleftrightarrow> well_placed rs \<and> mset (wd_rows s) = mset rs"

lemma ordered_unique:
  assumes "mset (wd_rows s) = mset rs" "map wr_position rs = map int [0..<length rs]"
  shows "ordered_rows s = rs"
  unfolding ordered_rows_def
proof (rule sort_key_inj_key_eq[OF assms(1)])
  have "distinct (map wr_position rs)" unfolding assms(2) by (simp add: distinct_map)
  then show "inj_on wr_position (set (wd_rows s))" using mset_eq_setD[OF assms(1)] by (simp add: distinct_map)
  show "sorted (map wr_position rs)" unfolding assms(2) by (simp add: sorted_map sorted_wrt_upt)
qed

lemma holds_ordered: "holds rs s \<Longrightarrow> ordered_rows s = rs"
  by (simp add: holds_def well_placed_def ordered_unique)

lemma holds_set: "holds rs s \<Longrightarrow> set (wd_rows s) = set rs"
  by (auto simp: holds_def dest: mset_eq_setD)

lemma positions_below: "map wr_position rs = map int [0..<length rs] \<Longrightarrow> r \<in> set rs \<Longrightarrow> 0 \<le> wr_position r \<and> wr_position r < int (length rs)"
  by (metis (no_types, lifting) image_eqI in_set_conv_nth length_map list.set_map map_nth nth_map nth_upt of_nat_0_le_iff
      of_nat_less_iff plus_nat.add_0 length_upt diff_zero)

lemma plain_text: "\<forall>c \<in> set s. 33 \<le> (of_char c :: nat) \<and> (of_char c :: nat) \<le> 90 \<Longrightarrow> py_upper (py_strip s) = s"
proof -
  assume plain: "\<forall>c \<in> set s. 33 \<le> (of_char c :: nat) \<and> (of_char c :: nat) \<le> 90"
  have "dropWhile py_space xs = xs" if "set xs \<subseteq> set s" for xs
    using that plain by (cases xs) (auto simp: py_space_def Let_def)
  then have "py_strip s = s" by (simp add: py_strip_def)
  moreover have "map upper_char s = s" using plain by (intro map_idI) (auto simp: upper_char_def Let_def)
  ultimately show ?thesis by (simp add: py_upper_def)
qed

lemma normalize_symbol_idem: "normalize_symbol raw = Inr symbol \<Longrightarrow> normalize_symbol symbol = Inr symbol"
proof -
  assume "normalize_symbol raw = Inr symbol"
  then have symb: "symbol_pattern symbol" "length symbol \<le> 32" by (auto simp: normalize_symbol_def Let_def split: if_splits)
  then obtain base where base: "symbol = base @ ''-USD''" "list_all symbol_char base"
    unfolding symbol_pattern_def Let_def by blast
  have "py_upper (py_strip symbol) = symbol"
    by (rule plain_text) (use base in \<open>auto simp: list_all_iff symbol_char_def Let_def\<close>)
  then show ?thesis using symb by (simp add: normalize_symbol_def)
qed

lemma transaction_cases:
  "transaction body s =
     (if wd_failures s \<noteq> [] \<and> hd (wd_failures s) then (Inl DatabaseError, s\<lparr>wd_failures := tl (wd_failures s)\<rparr>)
      else case body (s\<lparr>wd_failures := tl (wd_failures s)\<rparr>) of
        (Inl e, _) \<Rightarrow> (Inl e, s\<lparr>wd_failures := tl (wd_failures s)\<rparr>) | (Inr x, t) \<Rightarrow> (Inr x, t))"
  by (simp add: transaction_def Let_def)

text \<open>What is left of a call: nothing changed, or what its body did.\<close>

lemma transaction_outcome:
  assumes "transaction body s = (r, t)"
  obtains (unchanged) e where "r = Inl e" "wd_rows t = wd_rows s" "wd_events t = wd_events s"
    | (changed) x where "r = Inr x" "body (s\<lparr>wd_failures := tl (wd_failures s)\<rparr>) = (Inr x, t)"
  using assms by (auto simp: transaction_cases split: if_splits prod.splits sum.splits)

lemma aforeach_insert:
  assumes "distinct (map wr_symbol (wd_rows s @ rs))" "distinct (map wr_position (wd_rows s @ rs))"
    and "\<forall>r \<in> set rs. 0 \<le> wr_position r \<and> wr_position r < 9"
  shows "aforeach insert_row rs s = (Inr (), s\<lparr>wd_rows := wd_rows s @ rs\<rparr>)"
  using assms
proof (induction rs arbitrary: s)
  case (Cons r rs)
  then have "insert_row r s = (Inr (), s\<lparr>wd_rows := wd_rows s @ [r]\<rparr>)"
    by (auto simp: insert_row_def)
  then show ?case using Cons.IH[of "s\<lparr>wd_rows := wd_rows s @ [r]\<rparr>"] Cons.prems by (simp add: abind_def)
qed (simp add: aret_def)

definition put_position :: "(string \<times> int) list \<Rightarrow> watch_row \<Rightarrow> watch_row" where
  "put_position ups r = (case map_of ups (wr_symbol r) of Some i \<Rightarrow> r\<lparr>wr_position := i\<rparr> | None \<Rightarrow> r)"

lemma put_position_symbol [simp]: "wr_symbol (put_position ups r) = wr_symbol r"
  by (simp add: put_position_def split: option.split)

lemma put_position_Nil [simp]: "put_position [] = (\<lambda>r. r)"
  by (simp add: put_position_def fun_eq_iff)

lemma aforeach_update:
  assumes "distinct (map fst ups)" "aforeach update_position ups s = (Inr (), t)"
  shows "t = s\<lparr>wd_rows := map (put_position ups) (wd_rows s)\<rparr>"
  using assms
proof (induction ups arbitrary: s)
  case (Cons u ups)
  obtain symbol i where u: "u = (symbol, i)" by (rule prod.exhaust)
  obtain s1 where s1: "update_position u s = (Inr (), s1)" "aforeach update_position ups s1 = (Inr (), t)"
    using Cons.prems(2) by (auto simp: abind_def split: prod.splits sum.splits)
  then have rs: "s1 = s\<lparr>wd_rows := map (\<lambda>r. if wr_symbol r = symbol then r\<lparr>wr_position := i\<rparr> else r) (wd_rows s)\<rparr>"
    by (auto simp: update_position_def u split: if_splits)
  have "map_of ups symbol = None" using Cons.prems(1) u by (simp add: map_of_eq_None_iff)
  then show ?case using Cons.IH[OF _ s1(2)] Cons.prems(1) rs u
    by (auto simp: put_position_def split: option.split)
qed (simp add: aret_def)


definition settled :: "watch_row list \<Rightarrow> watch_row list" where
  "settled rs = map (\<lambda>(i, r). r\<lparr>wr_position := i\<rparr>) (zip (map int [0..<length rs]) rs)"

lemma settled_nth: "i < length rs \<Longrightarrow> settled rs ! i = (rs ! i)\<lparr>wr_position := int i\<rparr>"
  by (simp add: settled_def)

lemma settled_facts [simp]: "length (settled rs) = length rs" "map wr_symbol (settled rs) = map wr_symbol rs"
  "map wr_position (settled rs) = map int [0..<length rs]"
  by (auto simp: settled_def intro!: nth_equalityI)

lemma moved_set: "set (moved_rows rs) = {(wr_symbol (rs ! i), int i) |i. i < length rs \<and> wr_position (rs ! i) \<noteq> int i}"
  by (force simp: moved_rows_def set_zip)

lemma moved_distinct:
  assumes "distinct (map wr_symbol rs)"
  shows "distinct (map fst (moved_rows rs))"
proof -
  have "map fst (map (\<lambda>(i, r). (wr_symbol r, i)) xs) = map wr_symbol (map snd xs)" for xs :: "(int \<times> watch_row) list"
    by (induction xs) auto
  moreover have "distinct (map wr_symbol (map snd (filter P xs)))" if "distinct (map wr_symbol (map snd xs))"
    for P and xs :: "(int \<times> watch_row) list"
    using that by (induction xs) auto
  ultimately show ?thesis using assms by (simp add: moved_rows_def del: map_map)
qed

lemma put_moved:
  assumes "distinct (map wr_symbol rs)" "i < length rs" "mset ups = mset (moved_rows rs)"
  shows "put_position ups (rs ! i) = (rs ! i)\<lparr>wr_position := int i\<rparr>"
proof -
  have ups: "distinct (map fst ups)" "set ups = set (moved_rows rs)"
    using assms(1,3) moved_distinct by (metis mset_map mset_eq_imp_distinct_iff, metis mset_eq_setD)
  have same: "j = i" if "wr_symbol (rs ! j) = wr_symbol (rs ! i)" "j < length rs" for j
    using that assms(1,2) nth_eq_iff_index_eq[of "map wr_symbol rs" j i] by simp
  show ?thesis
  proof (cases "wr_position (rs ! i) = int i")
    case True
    then have "wr_symbol (rs ! i) \<notin> fst ` set ups" using same by (auto simp: ups(2) moved_set)
    then show ?thesis using True by (simp add: put_position_def map_of_eq_None_iff[THEN iffD2])
  next
    case False
    then have "(wr_symbol (rs ! i), int i) \<in> set ups" using assms(2) by (auto simp: ups(2) moved_set)
    then show ?thesis using ups(1) by (simp add: put_position_def)
  qed
qed

lemma map_put_moved:
  assumes "distinct (map wr_symbol rs)" "mset ups = mset (moved_rows rs)"
  shows "map (put_position ups) rs = settled rs"
  using put_moved[OF assms(1) _ assms(2)] by (intro nth_equalityI) (simp_all add: settled_nth)

lemma well_placed_settled:
  assumes "well_placed rs"
  shows "well_placed (settled (filter P rs))"
proof -
  have "normalize_symbol (wr_symbol r) = Inr (wr_symbol r)" if "r \<in> set (settled (filter P rs))" for r
  proof -
    have "wr_symbol r \<in> set (map wr_symbol (filter P rs))" using that by (metis image_eqI list.set_map settled_facts(2))
    then show ?thesis using assms by (auto simp: well_placed_def)
  qed
  moreover have "length (filter P rs) \<le> 9" using assms by (auto simp: well_placed_def intro: le_trans[OF length_filter_le])
  ultimately show ?thesis using assms by (simp add: well_placed_def distinct_map_filter)
qed

section \<open>What each operation does\<close>

text \<open>A call that raises changes nothing but the script of failures.\<close>

abbreviation unchanged :: "watch_db \<Rightarrow> watch_db \<Rightarrow> bool" where
  "unchanged s t \<equiv> wd_rows t = wd_rows s \<and> wd_events t = wd_events s"

definition one_event :: "watch_db \<Rightarrow> watch_db \<Rightarrow> string \<Rightarrow> string option \<Rightarrow> string list \<Rightarrow> bool" where
  "one_event s t action symbol order \<longleftrightarrow>
     (\<exists>role moment. wd_events t = wd_events s @ [\<lparr>we_action = action, we_symbol = symbol, we_role = role,
        we_order = order, we_created_at = moment\<rparr>])"

lemma add_outcome:
  assumes "holds rs s" "wl_add raw role moment s = (r, t)"
  shows "case r of Inl _ \<Rightarrow> unchanged s t
    | Inr row \<Rightarrow> normalize_symbol raw = Inr (wr_symbol row) \<and> wr_symbol row \<notin> set (map wr_symbol rs) \<and>
        holds (rs @ [row]) t \<and> one_event s t ''add'' (Some (wr_symbol row)) (map wr_symbol (rs @ [row]))"
proof (cases "normalize_symbol raw")
  case (Inl e)
  then show ?thesis using assms(2) by (auto simp: wl_add_def of_result_def abind_def)
next
  case (Inr symbol)
  let ?row = "\<lparr>wr_symbol = symbol, wr_position = int (length rs), wr_added_at = moment, wr_added_by = role\<rparr>"
  let ?s = "s\<lparr>wd_failures := tl (wd_failures s)\<rparr>"
  have ordered: "ordered_rows ?s = rs" using holds_ordered[OF assms(1)] by (simp add: ordered_rows_def)
  have normal: "normalize_symbol symbol = Inr symbol"
    using Inr by (rule normalize_symbol_idem)
  from assms(2)[unfolded wl_add_def Inr of_result_def abind_def, simplified]
  show ?thesis
  proof (cases rule: transaction_outcome)
    case (changed row)
    then have new: "symbol \<notin> wr_symbol ` set rs" "length rs < 9" "row = ?row" "insert_row ?row ?s = (Inr (), ?s\<lparr>wd_rows := wd_rows ?s @ [?row]\<rparr>)"
      "t = snd (record_event ''add'' (Some symbol) role (map wr_symbol rs @ [symbol]) moment (?s\<lparr>wd_rows := wd_rows ?s @ [?row]\<rparr>))"
      by (auto simp: ordered Let_def WATCHLIST_LIMIT_def insert_row_def record_event_def aret_def abind_def split: if_splits)
    have "well_placed (rs @ [?row])"
      using assms(1) new(1,2) normal by (auto simp: holds_def well_placed_def)
    then have "holds (rs @ [?row]) t" using assms(1) new(5) by (simp add: holds_def record_event_def)
    then show ?thesis using Inr new by (auto simp: changed(1) one_event_def record_event_def)
  qed simp
qed


lemma remove_outcome:
  assumes "holds rs s" "wl_remove write_order raw role moment s = (r, t)" "\<And>xs. mset (write_order xs) = mset xs"
  shows "case r of Inl _ \<Rightarrow> unchanged s t
    | Inr _ \<Rightarrow> (\<exists>symbol. normalize_symbol raw = Inr symbol \<and> symbol \<in> set (map wr_symbol rs) \<and>
        holds (settled (filter (\<lambda>r. wr_symbol r \<noteq> symbol) rs)) t \<and>
        one_event s t ''remove'' (Some symbol) (map wr_symbol (filter (\<lambda>r. wr_symbol r \<noteq> symbol) rs)))"
proof (cases "normalize_symbol raw")
  case (Inl e)
  then show ?thesis using assms(2) by (auto simp: wl_remove_def of_result_def abind_def)
next
  case (Inr symbol)
  let ?s = "s\<lparr>wd_failures := tl (wd_failures s)\<rparr>" and ?left = "filter (\<lambda>r. wr_symbol r \<noteq> symbol) rs"
  let ?s1 = "?s\<lparr>wd_rows := filter (\<lambda>r. wr_symbol r \<noteq> symbol) (wd_rows s)\<rparr>" and ?ups = "write_order (moved_rows ?left)"
  have placed: "well_placed rs" "mset (wd_rows s) = mset rs" using assms(1) by (simp_all add: holds_def)
  have ordered: "ordered_rows ?s = rs" using holds_ordered[OF assms(1)] by (simp add: ordered_rows_def)
  have keys: "distinct (map wr_symbol ?left)" using placed(1) by (simp add: well_placed_def distinct_map_filter)
  from assms(2)[unfolded wl_remove_def Inr of_result_def abind_def, simplified]
  show ?thesis
  proof (cases rule: transaction_outcome)
    case (changed u)
    then obtain t' where known: "symbol \<in> wr_symbol ` set rs" and ups: "aforeach update_position ?ups ?s1 = (Inr (), t')"
      and t: "record_event ''remove'' (Some symbol) role (map wr_symbol ?left) moment t' = (Inr u, t)"
      by (auto simp: ordered Let_def abind_def split: if_splits prod.splits sum.splits)
    have "distinct (map fst ?ups)"
      using moved_distinct[OF keys] assms(3)[of "moved_rows ?left"] by (metis mset_map mset_eq_imp_distinct_iff)
    from aforeach_update[OF this ups] have t': "wd_rows t' = map (put_position ?ups) (wd_rows ?s1)" "wd_events t' = wd_events s"
      by simp_all
    have "mset (wd_rows t') = mset (map (put_position ?ups) ?left)"
      by (simp add: t' placed(2))
    also have "map (put_position ?ups) ?left = settled ?left"
      using keys assms(3) by (rule map_put_moved)
    finally have "holds (settled ?left) t"
      using t well_placed_settled[OF placed(1)] by (auto simp: holds_def record_event_def)
    moreover have "one_event s t ''remove'' (Some symbol) (map wr_symbol ?left)"
      using t t'(2) by (auto simp: one_event_def record_event_def)
    ultimately show ?thesis using Inr known changed(1) by auto
  qed simp
qed

lemma placed_facts:
  assumes "set wanted \<subseteq> set (map wr_symbol rs)"
  shows "map wr_symbol (placed rs wanted) = wanted" "map wr_position (placed rs wanted) = map int [0..<length wanted]"
proof -
  have found: "\<exists>r. List.find (\<lambda>r. wr_symbol r = wanted ! i) rs = Some r \<and> wr_symbol r = wanted ! i" if "i < length wanted" for i
  proof -
    have "wanted ! i \<in> set (map wr_symbol rs)" using that assms nth_mem by blast
    then obtain r where "List.find (\<lambda>r. wr_symbol r = wanted ! i) rs = Some r"
      by (cases "List.find (\<lambda>r. wr_symbol r = wanted ! i) rs") (auto simp: find_None_iff)
    then show ?thesis by (auto dest: find_Some_iff2)
  qed
  show "map wr_symbol (placed rs wanted) = wanted" "map wr_position (placed rs wanted) = map int [0..<length wanted]"
    using found by (auto intro!: nth_equalityI simp: placed_def split: option.split) fastforce+
qed

lemma normalize_list_valid: "normalize_list xs = Inr ys \<Longrightarrow> y \<in> set ys \<Longrightarrow> normalize_symbol y = Inr y"
  by (induction xs arbitrary: ys) (auto dest: normalize_symbol_idem)

lemma reorder_outcome:
  assumes "holds rs s" "wl_reorder symbols role moment s = (r, t)"
  shows "case r of Inl _ \<Rightarrow> unchanged s t
    | Inr wanted \<Rightarrow> normalize_list symbols = Inr wanted \<and> mset wanted = mset (map wr_symbol rs) \<and>
        (if wanted = map wr_symbol rs then unchanged s t
         else holds (placed rs wanted) t \<and> one_event s t ''reorder'' None wanted)"
proof (cases "normalize_list symbols")
  case (Inl e)
  then show ?thesis using assms(2) by (auto simp: Inl wl_reorder_def of_result_def abind_def)
next
  case (Inr wanted)
  let ?s = "s\<lparr>wd_failures := tl (wd_failures s)\<rparr>" and ?new = "placed rs wanted"
  have placed: "well_placed rs" using assms(1) by (simp add: holds_def)
  have ordered: "ordered_rows ?s = rs" using holds_ordered[OF assms(1)] by (simp add: ordered_rows_def)
  from assms(2)[unfolded wl_reorder_def Inr abind_of_result]
  show ?thesis
  proof (cases rule: transaction_outcome)
    case (changed u)
    then have perm: "distinct wanted" "mset wanted = mset (map wr_symbol rs)"
      by (auto simp: ordered Let_def split: if_splits)
    have tail: "(if wanted = map wr_symbol rs then (Inr wanted, ?s)
        else abind (\<lambda>s. (Inr (), s\<lparr>wd_rows := []\<rparr>)) (\<lambda>_. abind (aforeach insert_row ?new) (\<lambda>_.
          abind (record_event ''reorder'' None role wanted moment) (\<lambda>_. aret wanted))) ?s) = (Inr u, t)"
      using changed(2) perm by (auto simp: ordered Let_def split: if_splits)
    show ?thesis
    proof (cases "wanted = map wr_symbol rs")
      case True
      then show ?thesis using changed(1) tail perm Inr by auto
    next
      case False
      have sub: "set wanted = set (map wr_symbol rs)" using perm(2) by (rule mset_eq_setD)
      have len: "length wanted \<le> 9" using perm(2) placed by (metis length_map size_mset well_placed_def)
      note facts = placed_facts[of wanted rs, OF eq_refl[OF sub]]
      have new: "well_placed ?new"
      proof -
        have "length ?new = length wanted" using facts(1) by (metis length_map)
        moreover have "normalize_symbol (wr_symbol r) = Inr (wr_symbol r)" if "r \<in> set ?new" for r
          using that facts(1) normalize_list_valid[OF Inr] by (metis image_eqI list.set_map)
        ultimately show ?thesis using facts perm(1) len by (simp add: well_placed_def)
      qed
      have "aforeach insert_row ?new (?s\<lparr>wd_rows := []\<rparr>) = (Inr (), ?s\<lparr>wd_rows := ?new\<rparr>)"
      proof (subst aforeach_insert)
        show "\<forall>r \<in> set ?new. 0 \<le> wr_position r \<and> wr_position r < 9"
          using new positions_below[of ?new] by (fastforce simp: well_placed_def)
      qed (use facts perm(1) in \<open>simp_all add: distinct_map\<close>)
      then have "u = wanted" "t = ?s\<lparr>wd_rows := ?new, wd_events := wd_events s @ [\<lparr>we_action = ''reorder'', we_symbol = None,
          we_role = role, we_order = wanted, we_created_at = moment\<rparr>]\<rparr>"
        using tail False by (auto simp: abind_def record_event_def aret_def)
      then show ?thesis using changed(1) perm Inr False new by (auto simp: holds_def one_event_def)
    qed
  qed simp
qed


section \<open>Histories\<close>

datatype watch_call = WAdd string string datetime | WRemove string string datetime | WReorder "string list" string datetime

fun wl_after :: "((string \<times> int) list \<Rightarrow> (string \<times> int) list) \<Rightarrow> watch_call \<Rightarrow> watch_db \<Rightarrow> watch_db" where
  "wl_after write_order (WAdd raw role moment) s = snd (wl_add raw role moment s)"
| "wl_after write_order (WRemove raw role moment) s = snd (wl_remove write_order raw role moment s)"
| "wl_after write_order (WReorder symbols role moment) s = snd (wl_reorder symbols role moment s)"

text \<open>An empty table, and any calls by anyone after that, whichever transactions fail.\<close>

inductive wl_reachable :: "((string \<times> int) list \<Rightarrow> (string \<times> int) list) \<Rightarrow> watch_db \<Rightarrow> bool" for write_order where
  wl_start: "wl_reachable write_order \<lparr>wd_rows = [], wd_events = [], wd_failures = failures\<rparr>"
| wl_step: "wl_reachable write_order s \<Longrightarrow> wl_reachable write_order (wl_after write_order c s)"

text \<open>The list of coins as the audit events tell it, read from their actions alone.\<close>

fun told_by :: "watch_event \<Rightarrow> string list \<Rightarrow> string list" where
  "told_by ev coins =
     (case we_symbol ev of
        Some c \<Rightarrow> if we_action ev = ''add'' then coins @ [c] else filter (\<lambda>x. x \<noteq> c) coins
      | None \<Rightarrow> we_order ev)"

definition audited :: "watch_db \<Rightarrow> bool" where
  "audited s \<longleftrightarrow> (\<exists>rs. holds rs s \<and> fold told_by (wd_events s) [] = map wr_symbol rs \<and>
     (wd_events s \<noteq> [] \<longrightarrow> we_order (last (wd_events s)) = map wr_symbol rs))"

lemma audited_unchanged: "audited s \<Longrightarrow> unchanged s t \<Longrightarrow> audited t"
  by (simp add: audited_def holds_def)

lemma audited_event:
  assumes "fold told_by (wd_events s) [] = coins" "holds rs t" "one_event s t action symbol (map wr_symbol rs)"
    and "\<And>role moment. told_by \<lparr>we_action = action, we_symbol = symbol, we_role = role, we_order = map wr_symbol rs,
        we_created_at = moment\<rparr> coins = map wr_symbol rs"
  shows "audited t"
  using assms unfolding audited_def one_event_def by (intro exI[of _ rs]) auto

lemma map_symbol_filter: "map wr_symbol (filter (\<lambda>r. wr_symbol r \<noteq> c) rs) = filter (\<lambda>x. x \<noteq> c) (map wr_symbol rs)"
  by (induction rs) auto

lemma audited_after:
  assumes "audited s" and perm: "\<And>xs. mset (write_order xs) = mset xs"
  shows "audited (wl_after write_order c s)"
proof -
  obtain rs where rs: "holds rs s" "fold told_by (wd_events s) [] = map wr_symbol rs"
    using assms(1) by (auto simp: audited_def)
  show ?thesis
  proof (cases c)
    case (WAdd raw role moment)
    obtain r t where call: "wl_add raw role moment s = (r, t)" by force
    have "audited t"
    proof (cases r)
      case (Inl e)
      then show ?thesis using add_outcome[OF rs(1) call] assms(1) audited_unchanged by simp
    next
      case (Inr row)
      then have "holds (rs @ [row]) t" "one_event s t ''add'' (Some (wr_symbol row)) (map wr_symbol (rs @ [row]))"
        using add_outcome[OF rs(1) call] by simp_all
      then show ?thesis by (rule audited_event[OF rs(2)]) simp
    qed
    then show ?thesis by (simp add: WAdd call)
  next
    case (WRemove raw role moment)
    obtain r t where call: "wl_remove write_order raw role moment s = (r, t)" by force
    have "audited t"
    proof (cases r)
      case (Inl e)
      then show ?thesis using remove_outcome[OF rs(1) call perm] assms(1) audited_unchanged by simp
    next
      case (Inr u)
      then obtain symbol where "holds (settled (filter (\<lambda>r. wr_symbol r \<noteq> symbol) rs)) t"
        "one_event s t ''remove'' (Some symbol) (map wr_symbol (settled (filter (\<lambda>r. wr_symbol r \<noteq> symbol) rs)))"
        using remove_outcome[OF rs(1) call perm] by auto
      then show ?thesis by (rule audited_event[OF rs(2)]) (simp add: map_symbol_filter)
    qed
    then show ?thesis by (simp add: WRemove call)
  next
    case (WReorder symbols role moment)
    obtain r t where call: "wl_reorder symbols role moment s = (r, t)" by force
    have "audited t"
    proof (cases r)
      case (Inl e)
      then show ?thesis using reorder_outcome[OF rs(1) call] assms(1) audited_unchanged by simp
    next
      case (Inr wanted)
      note out = reorder_outcome[OF rs(1) call, unfolded Inr, simplified]
      show ?thesis
      proof (cases "wanted = map wr_symbol rs")
        case True
        then show ?thesis using out assms(1) audited_unchanged by simp
      next
        case False
        have "map wr_symbol (placed rs wanted) = wanted"
          using out by (intro placed_facts(1)) (metis mset_eq_setD order_refl mset_map)
        then have "holds (placed rs wanted) t" "one_event s t ''reorder'' None (map wr_symbol (placed rs wanted))"
          using out False by simp_all
        then show ?thesis by (rule audited_event[OF rs(2)]) simp
      qed
    qed
    then show ?thesis by (simp add: WReorder call)
  qed
qed

lemma wl_reachable_audited:
  assumes "wl_reachable write_order s" and perm: "\<And>xs. mset (write_order xs) = mset xs"
  shows "audited s"
  using assms(1)
proof (induction rule: wl_reachable.induct)
  case (wl_start failures)
  then show ?case by (simp add: audited_def holds_def well_placed_def)
qed (rule audited_after[OF _ perm])

text \<open>
  C36. Whoever changes the watchlist in whatever order, whichever transactions fail, and in whatever
  order the library writes the rows: the saved coins are distinct, valid and at most nine, their
  positions are 0, 1, 2, ... without a gap, and the list is exactly what the audit events tell.
\<close>

theorem watchlist_is_what_its_events_tell:
  assumes "wl_reachable write_order s" "\<And>xs. mset (write_order xs) = mset xs"
  shows "distinct (watched s) \<and> length (watched s) \<le> 9 \<and> (\<forall>c \<in> set (watched s). normalize_symbol c = Inr c) \<and>
    map wr_position (ordered_rows s) = map int [0..<length (watched s)] \<and>
    watched s = fold told_by (wd_events s) [] \<and>
    (wd_events s \<noteq> [] \<longrightarrow> we_order (last (wd_events s)) = watched s)"
proof -
  obtain rs where rs: "holds rs s" "fold told_by (wd_events s) [] = map wr_symbol rs"
    "wd_events s \<noteq> [] \<longrightarrow> we_order (last (wd_events s)) = map wr_symbol rs"
    using wl_reachable_audited[OF assms] by (auto simp: audited_def)
  have "ordered_rows s = rs" using rs(1) by (rule holds_ordered)
  then show ?thesis using rs by (auto simp: watched_def holds_def well_placed_def)
qed


text \<open>A history with a failed transaction, a refused coin and a new order, with rows written in list order.\<close>

definition sample_history :: watch_db where
  "sample_history = fold (wl_after id) [WAdd '' eth-usd'' ''admin'' 0, WAdd ''SOL-USD'' ''operator'' 1, WAdd ''ADA-USD'' ''operator'' 2,
     WAdd ''SOL-USD'' ''operator'' 3, WReorder [''ADA-USD'', ''ETH-USD''] ''admin'' 4, WRemove ''sol-usd'' ''admin'' 5,
     WReorder [''ADA-USD'', ''ETH-USD''] ''admin'' 6]
     \<lparr>wd_rows = [], wd_events = [], wd_failures = [False, False, True]\<rparr>"

lemma sample_history_list: "watched sample_history = [''ETH-USD''] \<and> length (wd_events sample_history) = 3"
  by code_simp

theorem watchlist_is_what_its_events_tell_witness:
  "fold told_by (wd_events sample_history) [] = [''ETH-USD''] \<and> we_order (last (wd_events sample_history)) = [''ETH-USD'']"
proof -
  have "wl_reachable id sample_history"
    unfolding sample_history_def by (simp only: fold_simps comp_def id_def) (intro wl_reachable.intros)
  then have "watched sample_history = fold told_by (wd_events sample_history) [] \<and>
      (wd_events sample_history \<noteq> [] \<longrightarrow> we_order (last (wd_events sample_history)) = watched sample_history)"
    using watchlist_is_what_its_events_tell[of id sample_history] by simp
  then show ?thesis using sample_history_list by auto
qed

section \<open>Removing a coin\<close>

text \<open>
  Written in the order of the list, every row finds its new place free and a removal succeeds. Written in
  the order of the primary key, as the library does, the coin that moves first can find its new place
  still taken: the removal then fails, and the coin stays on the list for good.
\<close>

lemma updates_in_list_order:
  assumes "mset (wd_rows s) = mset (front @ rs)" "distinct (map wr_symbol (front @ rs))"
    and "\<forall>r \<in> set front. wr_position r < p" "map wr_position rs = map (\<lambda>i. p + 1 + int i) [0..<length rs]"
    and "0 \<le> p" "p + int (length rs) \<le> 9"
  shows "\<exists>t. aforeach update_position (map (\<lambda>(i, r). (wr_symbol r, p + int i)) (zip [0..<length rs] rs)) s = (Inr (), t)"
  using assms
proof (induction rs arbitrary: s front p)
  case (Cons r rs)
  let ?r = "r\<lparr>wr_position := p\<rparr>"
  let ?t = "s\<lparr>wd_rows := map (\<lambda>x. if wr_symbol x = wr_symbol r then x\<lparr>wr_position := p\<rparr> else x) (wd_rows s)\<rparr>"
  have tail: "map wr_position rs = map (\<lambda>i. p + 1 + 1 + int i) [0..<length rs]"
    using Cons.prems(4) by (simp add: upt_conv_Cons map_Suc_upt[symmetric] del: upt_Suc)
  have others: "wr_position x \<noteq> p" if "x \<in> set (wd_rows s)" "wr_symbol x \<noteq> wr_symbol r" for x
  proof -
    have "x \<in> set front \<or> x \<in> set rs" using that mset_eq_setD[OF Cons.prems(1)] by auto
    moreover have "wr_position x \<ge> p + 1" if "x \<in> set rs"
    proof -
      have "wr_position x \<in> set (map wr_position rs)" using that by simp
      then show ?thesis unfolding tail by auto
    qed
    ultimately show ?thesis using Cons.prems(3) by force
  qed
  have "update_position (wr_symbol r, p) s = (Inr (), ?t)"
    using others Cons.prems(5,6) by (auto simp: update_position_def)
  moreover have "\<exists>t. aforeach update_position (map (\<lambda>(i, r). (wr_symbol r, p + 1 + int i)) (zip [0..<length rs] rs)) ?t = (Inr (), t)"
  proof (rule Cons.IH[of ?t "front @ [?r]" "p + 1"])
    have keep: "map (\<lambda>x. if wr_symbol x = wr_symbol r then x\<lparr>wr_position := p\<rparr> else x) xs = xs"
      if "wr_symbol r \<notin> set (map wr_symbol xs)" for xs
      using that by (intro map_idI) (force simp: image_iff)
    have "mset (wd_rows ?t) = mset (map (\<lambda>x. if wr_symbol x = wr_symbol r then x\<lparr>wr_position := p\<rparr> else x) (front @ r # rs))"
      using Cons.prems(1) by (metis (no_types, lifting) mset_map watch_db.select_convs(1) watch_db.surjective watch_db.update_convs(1))
    also have "map (\<lambda>x. if wr_symbol x = wr_symbol r then x\<lparr>wr_position := p\<rparr> else x) (front @ r # rs) = front @ ?r # rs"
      using Cons.prems(2) by (simp add: keep)
    finally show "mset (wd_rows ?t) = mset ((front @ [?r]) @ rs)" by simp
  qed (use Cons.prems tail in \<open>auto simp: add.assoc intro: less_trans\<close>)
  moreover have "map (\<lambda>(i, r). (wr_symbol r, p + int i)) (zip [0..<length (r # rs)] (r # rs)) =
      (wr_symbol r, p) # map (\<lambda>(i, r). (wr_symbol r, p + 1 + int i)) (zip [0..<length rs] rs)"
    by (simp add: upt_conv_Cons map_Suc_upt[symmetric] zip_map1 split_beta del: upt_Suc)
  ultimately show ?case by (simp add: abind_def)
qed (simp add: aret_def)

lemma upt_int_split: "map int [0..<m + n] = map int [0..<m] @ map (\<lambda>i. int m + int i) [0..<n]"
  by (induction n) simp_all

lemma moved_rows_split:
  assumes "map wr_position front = map int [0..<length front]"
    and "map wr_position rest = map (\<lambda>i. int (length front) + 1 + int i) [0..<length rest]"
  shows "moved_rows (front @ rest) =
    map (\<lambda>(i, r). (wr_symbol r, int (length front) + int i)) (zip [0..<length rest] rest)"
proof -
  have "wr_position (front ! i) = int i" if "i < length front" for i
    using that arg_cong[OF assms(1), of "\<lambda>xs. xs ! i"] by simp
  then have "filter (\<lambda>(i, r). wr_position r \<noteq> i) (zip (map int [0..<length front]) front) = []"
    by (auto simp: filter_empty_conv set_zip)
  moreover have "wr_position (rest ! i) = int (length front) + 1 + int i" if "i < length rest" for i
    using that arg_cong[OF assms(2), of "\<lambda>xs. xs ! i"] by simp
  then have "filter (\<lambda>(i, r). wr_position r \<noteq> i) (zip (map (\<lambda>i. int (length front) + int i) [0..<length rest]) rest) =
      zip (map (\<lambda>i. int (length front) + int i) [0..<length rest]) rest"
    by (intro filter_True) (auto simp: set_zip)
  ultimately show ?thesis
    by (simp add: moved_rows_def upt_int_split zip_map1 split_beta)
qed

lemma removal_in_list_order_succeeds:
  assumes "holds rs s" "wd_failures s = []" "normalize_symbol raw = Inr symbol" "symbol \<in> set (map wr_symbol rs)"
  shows "\<exists>t. wl_remove id raw role moment s = (Inr (), t)"
proof -
  obtain front target rest where rs: "rs = front @ target # rest" "wr_symbol target = symbol"
    using assms(4) by (metis (no_types, lifting) imageE list.set_map split_list)
  have placed: "map wr_position rs = map int [0..<length rs]" "distinct (map wr_symbol rs)" "length rs \<le> 9" "mset (wd_rows s) = mset rs"
    using assms(1) by (simp_all add: holds_def well_placed_def)
  have left: "filter (\<lambda>r. wr_symbol r \<noteq> symbol) rs = front @ rest"
  proof -
    have keep: "filter (\<lambda>r. wr_symbol r \<noteq> symbol) xs = xs" if "symbol \<notin> set (map wr_symbol xs)" for xs :: "watch_row list"
      using that by (intro filter_True) auto
    have "symbol \<notin> set (map wr_symbol front)" and "symbol \<notin> set (map wr_symbol rest)" using placed(2) rs by auto
    note this[THEN keep]
    then show ?thesis using rs by simp
  qed
  have "map int [0..<length rs] = map int [0..<length front] @ int (length front) # map (\<lambda>i. int (length front) + 1 + int i) [0..<length rest]"
    using upt_int_split[of "length front" "Suc (length rest)"]
    by (simp add: rs(1) upt_conv_Cons map_Suc_upt[symmetric] add.commute del: upt_Suc)
  then have pos: "map wr_position front = map int [0..<length front]"
    "map wr_position rest = map (\<lambda>i. int (length front) + 1 + int i) [0..<length rest]"
    using placed(1) by (simp_all add: rs(1))
  let ?s = "s\<lparr>wd_failures := tl (wd_failures s), wd_rows := filter (\<lambda>r. wr_symbol r \<noteq> symbol) (wd_rows s)\<rparr>"
  have "\<exists>t. aforeach update_position (map (\<lambda>(i, r). (wr_symbol r, int (length front) + int i)) (zip [0..<length rest] rest)) ?s = (Inr (), t)"
  proof (rule updates_in_list_order)
    have "mset (wd_rows ?s) = mset (filter (\<lambda>r. wr_symbol r \<noteq> symbol) rs)" by (simp add: placed(4))
    then show "mset (wd_rows ?s) = mset (front @ rest)" by (simp only: left)
    show "\<forall>r \<in> set front. wr_position r < int (length front)" using positions_below[OF pos(1)] by simp
  qed (use placed pos(2) rs in auto)
  then obtain t where "aforeach update_position (moved_rows (front @ rest)) ?s = (Inr (), t)"
    using moved_rows_split[OF pos] by auto
  moreover have "ordered_rows (s\<lparr>wd_failures := tl (wd_failures s)\<rparr>) = rs"
    using holds_ordered[OF assms(1)] by (simp add: ordered_rows_def)
  ultimately show ?thesis
    using assms(2-4) left by (simp add: wl_remove_def transaction_cases Let_def abind_def record_event_def)
qed

lemma removal_can_collide:
  "case wl_remove (sort_key fst) ''ADA-USD'' ''operator'' 3
      (fold (wl_after id) [WAdd ''ADA-USD'' ''admin'' 0, WAdd ''XRP-USD'' ''admin'' 1, WAdd ''SOL-USD'' ''admin'' 2]
        \<lparr>wd_rows = [], wd_events = [], wd_failures = []\<rparr>) of
     (r, t) \<Rightarrow> r = Inl IntegrityError \<and> watched t = [''ADA-USD'', ''XRP-USD'', ''SOL-USD'']"
  by code_simp


section \<open>Requests\<close>

text \<open>
  The handlers over any store and any product lookup. A request works on the list and on what it shares
  with the outside (the client of the lookup, the feed that \<open>wake\<close> wakes). The reply stands for the HTTP
  status and its text; reading of the form and rendering are not modelled.
\<close>

record 's watch_ops =
  wo_symbols :: "(watch_error, 's, string list) act"
  wo_add :: "string \<Rightarrow> string \<Rightarrow> datetime \<Rightarrow> (watch_error, 's, watch_row) act"
  wo_remove :: "string \<Rightarrow> string \<Rightarrow> datetime \<Rightarrow> (watch_error, 's, unit) act"
  wo_reorder :: "string list \<Rightarrow> string \<Rightarrow> datetime \<Rightarrow> (watch_error, 's, string list) act"

definition sql_watch_ops :: "((string \<times> int) list \<Rightarrow> (string \<times> int) list) \<Rightarrow> watch_db watch_ops" where
  "sql_watch_ops write_order = \<lparr>wo_symbols = wl_symbols, wo_add = wl_add, wo_remove = wl_remove write_order, wo_reorder = wl_reorder\<rparr>"

datatype watch_reply = Refused string | Unavailable string | Done string string | Reordered "string list"

definition on_list :: "('e, 's, 'a) act \<Rightarrow> ('e, 's \<times> 'w, 'a) act" where
  "on_list m = (\<lambda>(s, w). case m s of (r, s') \<Rightarrow> (r, (s', w)))"

definition on_venue :: "('e, 'w, 'a) act \<Rightarrow> ('e, 's \<times> 'w, 'a) act" where
  "on_venue m = (\<lambda>(s, w). case m w of (r, w') \<Rightarrow> (r, (s, w')))"

definition unreadable :: string where "unreadable = ''the watchlist could not be read or saved''"

definition check_product :: "(string \<Rightarrow> (exn, 'w, coinbase_product) act) \<Rightarrow> string \<Rightarrow> (watch_error, 'w, unit) act" where
  "check_product lookup symbol w =
     (case lookup symbol w of
        (Inr product, w') \<Rightarrow>
          (if \<not> tradable product
           then Inl (WatchlistRefused (symbol @ '' is delisted or trading is disabled on Coinbase, so it is not watched.''))
           else Inr (), w')
      | (Inl e, w') \<Rightarrow>
          (if e = PyError ''CancelledError'' then Inl (Raised e)
           else if e = product_not_found then Inl (WatchlistRefused (''Coinbase has no product named '' @ symbol @ ''.''))
           else if e = http_status_error 429
           then Inl (WatchlistRefused ''Coinbase is rate limiting lookups right now. Try again shortly.'')
           else Inl (WatchlistRefused ''Coinbase could not confirm that product. Try again shortly.''), w'))"

definition admit_coin ::
  "'s watch_ops \<Rightarrow> (string \<Rightarrow> (exn, 'w, coinbase_product) act) \<Rightarrow> string \<Rightarrow> string \<Rightarrow> datetime \<Rightarrow>
     (watch_error, 's \<times> 'w, string) act"
where
  "admit_coin ops lookup raw role now =
     abind (of_result (normalize_symbol raw)) (\<lambda>symbol. abind (on_list (wo_symbols ops)) (\<lambda>current.
       if symbol \<in> set current then athrow (WatchlistRefused (symbol @ '' is already watched; the list is unchanged.''))
       else if WATCHLIST_LIMIT \<le> length current
       then athrow (WatchlistRefused ''The watchlist holds at most 9 coins. Remove one first.'')
       else abind (on_venue (check_product lookup symbol)) (\<lambda>_.
            abind (on_list (wo_add ops symbol role now)) (\<lambda>_. aret symbol))))"

fun reply_to :: "watch_error \<Rightarrow> exn + watch_reply" where
  "reply_to (WatchlistRefused m) = Inr (Refused m)"
| "reply_to (Raised e) = Inl e"
| "reply_to _ = Inr (Unavailable unreadable)"

definition add_request ::
  "'s watch_ops \<Rightarrow> (string \<Rightarrow> (exn, 'w, coinbase_product) act) \<Rightarrow> ('w \<Rightarrow> 'w) \<Rightarrow> string \<Rightarrow> string \<Rightarrow> datetime \<Rightarrow>
     (exn, 's \<times> 'w, watch_reply) act"
where
  "add_request ops lookup wake raw role now st =
     (case admit_coin ops lookup raw role now st of
        (Inr symbol, (s, w)) \<Rightarrow> (Inr (Done ''added'' symbol), (s, wake w))
      | (Inl e, st') \<Rightarrow>
          if e = IntegrityError
          then (case on_list (wo_symbols ops) st' of
                  (Inr current, st'') \<Rightarrow>
                    (case normalize_symbol raw of
                       Inr symbol \<Rightarrow>
                         if symbol \<in> set current
                         then (Inr (Refused (symbol @ '' was added by another request; the list is unchanged.'')), st'')
                         else (Inr (Unavailable unreadable), st'')
                     | Inl _ \<Rightarrow> (Inr (Unavailable unreadable), st''))
                | (Inl e', st'') \<Rightarrow> (reply_to (if e' = IntegrityError then DatabaseError else e'), st''))
          else (reply_to e, st'))"

definition remove_request :: "'s watch_ops \<Rightarrow> string \<Rightarrow> string \<Rightarrow> datetime \<Rightarrow> (exn, 's, watch_reply) act" where
  "remove_request ops raw role now s =
     (case abind (of_result (normalize_symbol raw)) (\<lambda>symbol. abind (wo_remove ops symbol role now) (\<lambda>_. aret symbol)) s of
        (Inr symbol, t) \<Rightarrow> (Inr (Done ''removed'' symbol), t)
      | (Inl e, t) \<Rightarrow> (reply_to e, t))"

datatype order_form = NewOrder "string list" | Move string string

definition index_in :: "string list \<Rightarrow> string \<Rightarrow> nat" where
  "index_in current symbol = length (takeWhile (\<lambda>c. c \<noteq> symbol) current)"

lemma index_in_facts: "symbol \<in> set xs \<Longrightarrow> index_in xs symbol < length xs \<and> xs ! index_in xs symbol = symbol"
  by (induction xs) (auto simp: index_in_def)

definition swap_at :: "nat \<Rightarrow> nat \<Rightarrow> 'a list \<Rightarrow> 'a list" where
  "swap_at i j xs = xs[i := xs ! j, j := xs ! i]"

definition wanted_order :: "string list \<Rightarrow> order_form \<Rightarrow> watch_error + string list" where
  "wanted_order current form =
     (case form of
        NewOrder order \<Rightarrow> Inr order
      | Move raw direction \<Rightarrow> rbind (normalize_symbol raw) (\<lambda>symbol.
          if symbol \<notin> set current \<or> direction \<notin> {''up'', ''down''}
          then Inl (WatchlistRefused ''Choose a watched coin and up or down.'')
          else let index = index_in current symbol in
            if direction = ''up'' then Inr (if 0 < index then swap_at index (index - 1) current else current)
            else Inr (if index + 1 < length current then swap_at index (index + 1) current else current)))"

definition reorder_request :: "'s watch_ops \<Rightarrow> order_form \<Rightarrow> string \<Rightarrow> datetime \<Rightarrow> (exn, 's, watch_reply) act" where
  "reorder_request ops form role now s =
     (case abind (wo_symbols ops) (\<lambda>current. abind (of_result (wanted_order current form)) (\<lambda>wanted. wo_reorder ops wanted role now)) s of
        (Inr order, t) \<Rightarrow> (Inr (Reordered order), t)
      | (Inl e, t) \<Rightarrow> (reply_to e, t))"


text \<open>
  What the venue says of a coin that may be watched, and the one exchange a lookup that returns has
  made: the product it returns is read from the answer to the request for exactly that product.
\<close>

definition spot_product :: "pylib \<Rightarrow> string \<Rightarrow> json \<Rightarrow> bool" where
  "spot_product lib symbol payload \<longleftrightarrow> jget payload ''product_id'' = JStr symbol \<and>
     py_lower (get_str lib payload ''status'') = ''online'' \<and> \<not> truthy (jget payload ''trading_disabled'') \<and>
     \<not> truthy (jget payload ''is_disabled'') \<and> py_upper (get_str lib payload ''product_type'') = ''SPOT''"

definition product_request :: "string \<Rightarrow> string \<Rightarrow> http_request" where
  "product_request base_url symbol =
     \<lparr>hr_method = ''GET'', hr_url = base_url @ ''/market/products/'' @ symbol, hr_headers = [], hr_params = None, hr_json = None\<rparr>"

definition answered_with :: "http_request \<Rightarrow> (json \<Rightarrow> bool) \<Rightarrow> (http_request \<times> transport) list \<Rightarrow> bool" where
  "answered_with q P ts \<longleftrightarrow> (\<exists>rsp payload. ts = [(q, Response rsp)] \<and> 200 \<le> rsp_status rsp \<and> rsp_status rsp < 300 \<and>
     rsp_json rsp = Some payload \<and> P payload)"

lemma talks_response:
  "talks (\<lambda>_. True) (get_response net url params) (\<lambda>r ts. \<forall>rsp. r = Inr rsp \<longrightarrow>
     ts = [(\<lparr>hr_method = ''GET'', hr_url = url, hr_headers = [], hr_params = params, hr_json = None\<rparr>, Response rsp)])"
  unfolding get_response_def
  by (rule talks_bind[OF talks_send, where R = "\<lambda>t r us. us = [] \<and> (\<forall>rsp. r = Inr rsp \<longrightarrow> t = Response rsp)"])
    (auto simp: steady_def split: transport.split)

lemma talks_count_success: "talks (\<lambda>_. True) count_success (\<lambda>r ts. ts = [])"
  by (rule talks_quiet) (simp add: count_success_def)

lemma successful_json_Inr:
  "successful_json rsp = Inr payload \<Longrightarrow> 200 \<le> rsp_status rsp \<and> rsp_status rsp < 300 \<and> rsp_json rsp = Some payload"
  by (auto simp: successful_json_def split: if_splits option.splits)

lemma abind_returned: "abind (aret x) f = f x"
  by (simp add: fun_eq_iff abind_def)

lemma talks_product:
  "talks (\<lambda>_. True) (get_product lib net base_url symbol) (\<lambda>r ts. \<forall>product. r = Inr product \<longrightarrow>
     answered_with (product_request base_url symbol)
       (\<lambda>payload. jget payload ''product_id'' = JStr symbol \<and> product = product_of lib symbol payload) ts)"
proof -
  let ?told = "\<lambda>product payload. jget payload ''product_id'' = JStr symbol \<and> product = product_of lib symbol payload"
  let ?R = "\<lambda>rsp r us. us = [] \<and> (\<forall>product. r = Inr product \<longrightarrow> answered_with (product_request base_url symbol)
      (?told product) [(product_request base_url symbol, Response rsp)])"
  have read: "talks (\<lambda>_. True) (abind (lift (successful_json rsp)) (\<lambda>payload.
          if \<not> is_mapping payload \<or> jget payload ''product_id'' \<noteq> JStr symbol then athrow market_data_error
          else abind count_success (\<lambda>_. aret (product_of lib symbol payload)))) (?R rsp)" for rsp
  proof (cases "successful_json rsp")
    case (Inr payload)
    have "talks (\<lambda>_. True) (abind count_success (\<lambda>_. aret (product_of lib symbol payload))) (?R rsp)"
      if "jget payload ''product_id'' = JStr symbol"
      by (rule talks_bind[OF talks_count_success, where R = "\<lambda>_ r us. us = [] \<and> r = Inr (product_of lib symbol payload)"])
        (use that successful_json_Inr[OF Inr] in \<open>auto simp: answered_with_def\<close>)
    then show ?thesis by (auto simp: Inr abind_returned)
  qed (auto simp: abind_def talks_def)
  have missing: "talks (\<lambda>_. True) (abind count_success (\<lambda>_. athrow product_not_found)) (?R rsp)" for rsp
    by (rule talks_bind[OF talks_count_success, where R = "\<lambda>_ r us. us = [] \<and> r = Inl product_not_found"]) auto
  have body: "talks (\<lambda>_. True) (abind (get_response net (base_url @ ''/market/products/'' @ symbol) None) (\<lambda>rsp.
        if rsp_status rsp = 404 then abind count_success (\<lambda>_. athrow product_not_found)
        else abind (lift (successful_json rsp)) (\<lambda>payload.
          if \<not> is_mapping payload \<or> jget payload ''product_id'' \<noteq> JStr symbol then athrow market_data_error
          else abind count_success (\<lambda>_. aret (product_of lib symbol payload)))))
      (\<lambda>r ts. \<forall>product. r = Inr product \<longrightarrow> answered_with (product_request base_url symbol) (?told product) ts)"
    by (rule talks_bind[OF talks_response, where R = ?R]) (use read missing in \<open>auto simp: product_request_def\<close>)
  have steady: "steady (\<lambda>_. True)" by (simp add: steady_def)
  show ?thesis unfolding get_product_def admitted_def counted_def
  proof (rule talks_after_no_traffic[OF talks_admit[OF steady]], rule talks_after_no_traffic[OF talks_take_token[OF steady]],
      rule talks_bind[OF talks_attempt[OF body], where R = "\<lambda>x r us. (\<forall>y. r = Inr y \<longrightarrow> x = Inr y \<and> us = [])"])
    show "talks (\<lambda>_. True) (case x of Inr y \<Rightarrow> aret y
        | Inl e \<Rightarrow> if e = product_not_found then athrow e else abind (count_failure net) (\<lambda>_. athrow e))
        (\<lambda>r us. \<forall>y. r = Inr y \<longrightarrow> x = Inr y \<and> us = [])" for x
      by (cases x) (auto intro!: talks_after_no_traffic[OF talks_count_failure[OF steady]])
  qed auto
qed

lemma lookup_answered:
  assumes "get_product lib net base_url symbol w = (Inr product, w1)" "tradable product"
  shows "\<exists>ts. hs_trace w1 = hs_trace w @ ts \<and> answered_with (product_request base_url symbol) (spot_product lib symbol) ts"
proof -
  obtain ts where "hs_trace w1 = hs_trace w @ ts" "answered_with (product_request base_url symbol)
      (\<lambda>payload. jget payload ''product_id'' = JStr symbol \<and> product = product_of lib symbol payload) ts"
    using talksD[OF talks_product _ assms(1)] by auto
  moreover from this(2) have "answered_with (product_request base_url symbol) (spot_product lib symbol) ts"
    using assms(2) by (auto simp: answered_with_def spot_product_def tradable_def product_of_def)
  ultimately show ?thesis by blast
qed

section \<open>What the requests rely on\<close>

locale coin_list =
  fixes ops :: "'s watch_ops" and inv :: "'s \<Rightarrow> bool" and coins :: "'s \<Rightarrow> string list"
  assumes listed: "inv s \<Longrightarrow> wo_symbols ops s = (r, t) \<Longrightarrow> inv t \<and> coins t = coins s \<and> (\<forall>x. r = Inr x \<longrightarrow> x = coins s)"
    and added: "inv s \<Longrightarrow> wo_add ops raw role now s = (ra, t) \<Longrightarrow> inv t \<and>
      coins t = (case ra of Inl _ \<Rightarrow> coins s | Inr row \<Rightarrow> coins s @ [wr_symbol row]) \<and>
      (\<forall>row. ra = Inr row \<longrightarrow> normalize_symbol raw = Inr (wr_symbol row))"
    and removed: "inv s \<Longrightarrow> wo_remove ops raw role now s = (rm, t) \<Longrightarrow> inv t \<and>
      (case rm of Inl _ \<Rightarrow> coins t = coins s
       | Inr _ \<Rightarrow> \<exists>symbol. normalize_symbol raw = Inr symbol \<and> coins t = filter (\<lambda>c. c \<noteq> symbol) (coins s))"
    and reordered: "inv s \<Longrightarrow> wo_reorder ops symbols role now s = (ro, t) \<Longrightarrow> inv t \<and>
      (case ro of Inl _ \<Rightarrow> coins t = coins s | Inr wanted \<Rightarrow> normalize_list symbols = Inr wanted \<and> coins t = wanted)"
    and bounded: "inv s \<Longrightarrow> distinct (coins s) \<and> length (coins s) \<le> 9 \<and> (\<forall>c \<in> set (coins s). normalize_symbol c = Inr c)"
begin

lemma admit_coin_outcome:
  assumes "inv s" "admit_coin ops lookup raw role now (s, w) = (r, (s', w'))"
  shows "inv s' \<and> (case r of Inl _ \<Rightarrow> coins s' = coins s
    | Inr symbol \<Rightarrow> normalize_symbol raw = Inr symbol \<and> symbol \<notin> set (coins s) \<and> coins s' = coins s @ [symbol] \<and>
        (\<exists>product. lookup symbol w = (Inr product, w') \<and> tradable product))"
proof (cases "normalize_symbol raw")
  case (Inl e)
  then show ?thesis using assms by (auto simp: Inl admit_coin_def of_result_def abind_def)
next
  case (Inr symbol)
  obtain rc s1 where read: "wo_symbols ops s = (rc, s1)" by force
  have s1: "inv s1" "coins s1 = coins s" using listed[OF assms(1) read] by simp_all
  show ?thesis
  proof (cases rc)
    case (Inl e)
    then show ?thesis using assms(2) s1 read by (auto simp: admit_coin_def \<open>normalize_symbol raw = Inr symbol\<close> abind_def on_list_def)
  next
    case (Inr current)
    then have current: "current = coins s" using listed[OF assms(1) read] by simp
    obtain rl w1 where look: "check_product lookup symbol w = (rl, w1)" by force
    obtain ra s2 where add: "wo_add ops symbol role now s1 = (ra, s2)" by force
    note run = assms(2)[unfolded admit_coin_def \<open>normalize_symbol raw = Inr symbol\<close> abind_of_result]
    show ?thesis
    proof (cases "symbol \<in> set current \<or> 9 \<le> length current")
      case True
      then show ?thesis using run s1 read Inr by (auto simp: abind_def on_list_def athrow_def WATCHLIST_LIMIT_def split: if_splits)
    next
      case False
      then have run2: "abind (on_venue (check_product lookup symbol)) (\<lambda>_. abind (on_list (wo_add ops symbol role now)) (\<lambda>_. aret symbol)) (s1, w)
          = (r, (s', w'))"
        using run read Inr by (auto simp: abind_def on_list_def WATCHLIST_LIMIT_def)
      show ?thesis
      proof (cases rl)
        case (Inl e)
        then show ?thesis using run2 look s1 by (auto simp: abind_def on_venue_def)
      next
        case (Inr u)
        then have tradable: "\<exists>product. lookup symbol w = (Inr product, w1) \<and> tradable product"
          using look by (auto simp: check_product_def split: prod.splits sum.splits if_splits)
        from run2 Inr look add have out: "s' = s2" "w' = w1" "r = (case ra of Inl e \<Rightarrow> Inl e | Inr _ \<Rightarrow> Inr symbol)"
          by (auto simp: abind_def on_venue_def on_list_def aret_def split: sum.splits)
        show ?thesis
          using added[OF s1(1) add] s1(2) out tradable False current \<open>normalize_symbol raw = Inr symbol\<close>
            normalize_symbol_idem[OF \<open>normalize_symbol raw = Inr symbol\<close>]
          by (cases ra) auto
      qed
    qed
  qed
qed

text \<open>The list changes exactly when the reply says so, and then by the coin the venue confirmed.\<close>

lemma add_request_outcome:
  assumes "inv s" "add_request ops lookup wake raw role now (s, w) = (r, (s', w'))"
  shows "inv s' \<and> (if \<exists>symbol. r = Inr (Done ''added'' symbol)
    then \<exists>symbol product w1. r = Inr (Done ''added'' symbol) \<and> normalize_symbol raw = Inr symbol \<and> coins s' = coins s @ [symbol] \<and>
      lookup symbol w = (Inr product, w1) \<and> w' = wake w1 \<and> tradable product
    else coins s' = coins s)"
proof -
  obtain ra s1 w1 where admit: "admit_coin ops lookup raw role now (s, w) = (ra, (s1, w1))" using prod_cases3 by blast
  note out = admit_coin_outcome[OF assms(1) admit]
  show ?thesis
  proof (cases ra)
    case (Inr symbol)
    then show ?thesis using assms(2) admit out by (auto simp: add_request_def)
  next
    case (Inl e)
    then have same: "inv s1" "coins s1 = coins s" using out by simp_all
    have replies: "\<nexists>symbol. reply_to x = Inr (Done ''added'' symbol)" for x by (cases x) auto
    obtain rc s2 where read: "wo_symbols ops s1 = (rc, s2)" by force
    have s2: "inv s2" "coins s2 = coins s" using listed[OF same(1) read] same(2) by simp_all
    show ?thesis
      using assms(2) admit Inl read same s2 replies
      by (auto simp: add_request_def on_list_def split: if_splits sum.splits)
  qed
qed

lemma swap_at_set: "i < length xs \<Longrightarrow> j < length xs \<Longrightarrow> set (swap_at i j xs) = set xs"
  by (simp add: swap_at_def)

lemma normalize_list_id: "\<forall>c \<in> set xs. normalize_symbol c = Inr c \<Longrightarrow> normalize_list xs = Inr xs"
  by (induction xs) auto

text \<open>Moving a coin a step exchanges it with its neighbour.\<close>

lemma move_outcome:
  assumes "inv s" "reorder_request ops (Move raw direction) role now s = (Inr (Reordered order), t)"
  shows "\<exists>i j. i < length (coins s) \<and> j < length (coins s) \<and> normalize_symbol raw = Inr (coins s ! i) \<and>
    (if direction = ''up'' then i = Suc j \<or> i = 0 \<and> j = 0 else j = Suc i \<or> Suc i = length (coins s) \<and> j = i) \<and>
    order = swap_at i j (coins s) \<and> coins t = order"
proof -
  obtain rc s1 where read: "wo_symbols ops s = (rc, s1)" by force
  have s1: "inv s1" "coins s1 = coins s" using listed[OF assms(1) read] by simp_all
  obtain wanted where run: "wanted_order (coins s) (Move raw direction) = Inr wanted" "wo_reorder ops wanted role now s1 = (Inr order, t)"
    using assms(2) read listed[OF assms(1) read]
    by (auto simp: reorder_request_def abind_def of_result_def split: sum.splits prod.splits elim!: reply_to.elims)
  obtain symbol where symb: "normalize_symbol raw = Inr symbol" "symbol \<in> set (coins s)"
    and w: "wanted = (let index = index_in (coins s) symbol in if direction = ''up'' then (if 0 < index then swap_at index (index - 1) (coins s) else coins s)
      else (if index + 1 < length (coins s) then swap_at index (index + 1) (coins s) else coins s))"
    using run(1) by (auto simp: wanted_order_def Let_def split: if_splits)
  let ?i = "index_in (coins s) symbol"
  have i: "?i < length (coins s)" "coins s ! ?i = symbol"
    using index_in_facts[OF symb(2)] by simp_all
  have out: "normalize_list wanted = Inr order" "coins t = order" using reordered[OF s1(1) run(2)] by simp_all
  have stay: "swap_at k k (coins s) = coins s" for k by (simp add: swap_at_def)
  define j where "j = (if direction = ''up'' then ?i - 1 else if ?i + 1 < length (coins s) then ?i + 1 else ?i)"
  have "j < length (coins s)" using i(1) by (auto simp: j_def intro: less_imp_diff_less)
  moreover have wanted: "wanted = swap_at ?i j (coins s)" using w stay[of ?i] by (auto simp: j_def Let_def)
  ultimately have "set wanted = set (coins s)" using i(1) by (simp add: swap_at_set)
  then have "order = wanted" using out(1) bounded[OF assms(1)] normalize_list_id[of wanted] by simp
  then show ?thesis using i symb wanted out(2) \<open>j < length (coins s)\<close>
    by (intro exI[of _ ?i] exI[of _ j]) (auto simp: j_def)
qed

end


text \<open>The database keeps the contract, in whatever order the library writes changed rows.\<close>

definition some_order :: "(string \<times> int) list \<Rightarrow> (string \<times> int) list" where
  "some_order = sort_key fst"

lemma some_order_perm: "mset (some_order xs) = mset xs"
  by (simp add: some_order_def)

lemma sql_listed:
  assumes "wl_symbols s = (r, t)"
  shows "unchanged s t \<and> (\<forall>x. r = Inr x \<longrightarrow> x = watched s)"
  using assms
  by (auto simp: wl_symbols_def wl_entries_def transaction_cases abind_def aret_def watched_def ordered_rows_def split: if_splits)

lemma holds_watched: "holds rs s \<Longrightarrow> watched s = map wr_symbol rs"
  by (simp add: watched_def holds_ordered)

lemma same_rows: "holds rs s \<Longrightarrow> wd_rows t = wd_rows s \<Longrightarrow> holds rs t \<and> watched t = map wr_symbol rs"
  by (simp add: holds_def holds_watched)

lemma sql_coin_list:
  assumes perm: "\<And>xs. mset (write_order xs) = mset xs"
  shows "coin_list (sql_watch_ops write_order) (\<lambda>s. \<exists>rs. holds rs s) watched"
proof (unfold_locales, goal_cases)
  case (1 s r t)
  then obtain rs where rs: "holds rs s" "wl_symbols s = (r, t)" by (auto simp: sql_watch_ops_def)
  then show ?case using sql_listed[OF rs(2)] same_rows[OF rs(1), of t] holds_watched[OF rs(1)] by auto
next
  case (2 s raw role now ra t)
  then obtain rs where rs: "holds rs s" "wl_add raw role now s = (ra, t)" by (auto simp: sql_watch_ops_def)
  from add_outcome[OF this] same_rows[OF rs(1), of t] rs(1) show ?case by (cases ra) (auto simp: holds_watched)
next
  case (3 s raw role now rm t)
  then obtain rs where rs: "holds rs s" "wl_remove write_order raw role now s = (rm, t)" by (auto simp: sql_watch_ops_def)
  from remove_outcome[OF this perm] same_rows[OF rs(1), of t] rs(1) show ?case
    by (cases rm) (auto simp: holds_watched map_symbol_filter)
next
  case (4 s symbols role now ro t)
  then obtain rs where rs: "holds rs s" "wl_reorder symbols role now s = (ro, t)" by (auto simp: sql_watch_ops_def)
  note out = reorder_outcome[OF this]
  show ?case
  proof (cases ro)
    case (Inl e)
    then show ?thesis using out rs(1) same_rows[OF rs(1), of t] by (auto simp: holds_watched)
  next
    case (Inr wanted)
    have o: "normalize_list symbols = Inr wanted" "mset wanted = mset (map wr_symbol rs)"
      and e: "if wanted = map wr_symbol rs then unchanged s t else holds (placed rs wanted) t \<and> one_event s t ''reorder'' None wanted"
      using out unfolding Inr sum.case by blast+
    show ?thesis
    proof (cases "wanted = map wr_symbol rs")
      case True
      then show ?thesis using o e same_rows[OF rs(1), of t] by (auto simp: Inr)
    next
      case False
      have "map wr_symbol (placed rs wanted) = wanted"
        using mset_eq_setD[OF o(2)] by (intro placed_facts(1)) simp
      then show ?thesis using False o e by (auto simp: Inr holds_watched)
    qed
  qed
next
  case (5 s)
  then show ?case by (auto simp: holds_watched) (auto simp: holds_def well_placed_def)
qed

interpretation sql_coins: coin_list "sql_watch_ops some_order" "\<lambda>s. \<exists>rs. holds rs s" watched
  by (rule sql_coin_list) (rule some_order_perm)

text \<open>
  C37. A request to add a coin changes the saved list exactly when it answers that the coin was added.
  Then the list had room and did not hold the coin, it grew by that one coin at its end, and in this
  request the public Coinbase interface was asked once, for this very product, and answered with success
  and a product of that name that is online, enabled for trading, not disabled and of the type spot. A
  refusal, a failed database, a failed lookup and a concurrent addition leave the list as it was.
\<close>

theorem coin_is_watched_only_if_listed:
  assumes "wl_reachable some_order s"
    and "add_request (sql_watch_ops some_order) (get_product lib net base_url) wake raw role now (s, w) = (r, (s', w'))"
  shows "(if \<exists>symbol. r = Inr (Done ''added'' symbol)
    then \<exists>symbol w1 ts. r = Inr (Done ''added'' symbol) \<and> normalize_symbol raw = Inr symbol \<and>
      symbol \<notin> set (watched s) \<and> length (watched s) < 9 \<and> watched s' = watched s @ [symbol] \<and>
      w' = wake w1 \<and> hs_trace w1 = hs_trace w @ ts \<and>
      answered_with (product_request base_url symbol) (spot_product lib symbol) ts
    else watched s' = watched s)"
proof -
  have inv: "\<exists>rs. holds rs s" using wl_reachable_audited[OF assms(1) some_order_perm] by (auto simp: audited_def)
  note out = sql_coins.add_request_outcome[OF inv assms(2)]
  show ?thesis
  proof (cases "\<exists>symbol. r = Inr (Done ''added'' symbol)")
    case True
    with out obtain symbol product w1 where added: "r = Inr (Done ''added'' symbol)" "normalize_symbol raw = Inr symbol"
      "watched s' = watched s @ [symbol]" "get_product lib net base_url symbol w = (Inr product, w1)" "w' = wake w1"
      "tradable product" "\<exists>rs. holds rs s'"
      by auto
    have "symbol \<notin> set (watched s)" "length (watched s) < 9"
      using sql_coins.bounded[OF added(7)] added(3) by simp_all
    then show ?thesis using True added lookup_answered[OF added(4,6)] by auto
  qed (use out in simp)
qed


definition listed_coin :: "transport" where
  "listed_coin = Response (sample_response (JObj [(''product_id'', JStr ''ETH-USD''), (''status'', JStr ''online''),
     (''trading_disabled'', JBool False), (''is_disabled'', JBool False), (''product_type'', JStr ''SPOT'')]))"

definition empty_list :: watch_db where
  "empty_list = \<lparr>wd_rows = [], wd_events = [], wd_failures = []\<rparr>"

definition add_eth :: "(exn + watch_reply) \<times> watch_db \<times> transport list http_state" where
  "add_eth = add_request (sql_watch_ops some_order) (get_product demo_lib scripted_net ''https://venue'') id '' eth-usd '' ''admin'' 0
     (empty_list, sample_http [listed_coin])"

lemma add_eth_done: "fst add_eth = Inr (Done ''added'' ''ETH-USD'')"
  by code_simp

theorem coin_is_watched_only_if_listed_witness:
  "watched (fst (snd add_eth)) = [''ETH-USD''] \<and>
    answered_with (product_request ''https://venue'' ''ETH-USD'') (spot_product demo_lib ''ETH-USD'') (hs_trace (snd (snd add_eth)))"
proof -
  obtain r s' w' where run: "add_eth = (r, (s', w'))" using prod_cases3 by blast
  have "wl_reachable some_order empty_list" unfolding empty_list_def by (rule wl_start)
  from coin_is_watched_only_if_listed[OF this run[unfolded add_eth_def]] add_eth_done
  show ?thesis by (auto simp: run watched_def ordered_rows_def empty_list_def sample_http_def http_state.defs)
qed

end
