(* ===== verification/WatchFeed.thy ===== *)
theory WatchFeed
  imports Watchlist
begin

text \<open>
  The store-only feed for watched coins (\<^verbatim>\<open>app/watch_feed.py\<close>), the saved choice to run it
  (\<^verbatim>\<open>data/feed_setting.py\<close>) and the handler that turns it on and off (\<^verbatim>\<open>api/watchlist_routes.py\<close>). The feed
  works on any watchlist, candle source and candle store; the locale \<open>candle_archive\<close> states what it
  relies on of the store besides \<open>candle_store\<close>, and is interpreted on the table of candles.

  A time is a number of microseconds. The clock is read once per cycle, and how long the loop waits is
  the result of a turn. An exception of the source, the list or the store is the outcome of its
  operation; \<^verbatim>\<open>CancelledError\<close> is not caught, as in the source.
\<close>

section \<open>Constants and configuration\<close>

definition INTERVAL_NAME :: string where "INTERVAL_NAME = ''FIVE_MINUTE''"
definition INTERVAL :: timedelta where "INTERVAL = microseconds 300"
definition BACKFILL_SPAN :: timedelta where "BACKFILL_SPAN = microseconds (30 * 86400)"
definition STALE_AFTER :: timedelta where "STALE_AFTER = INTERVAL * 3"
definition COLLECT_DELAY :: timedelta where "COLLECT_DELAY = microseconds 15"
definition FIRST_BACKOFF :: timedelta where "FIRST_BACKOFF = microseconds 60"
definition MAX_BACKOFF :: timedelta where "MAX_BACKOFF = microseconds 1800"
definition PRUNE_EVERY :: timedelta where "PRUNE_EVERY = microseconds 3600"
definition PRUNE_BATCH :: int where "PRUNE_BATCH = 5000"

record watch_config =
  wc_enabled :: bool
  wc_retention :: timedelta

definition watch_config_from_env :: "(string \<Rightarrow> int option) \<Rightarrow> (string, string) dict \<Rightarrow> exn + watch_config" where
  "watch_config_from_env py_int environ =
     (let raw = py_lower (py_strip (getenv environ ''WATCH_FEED_ENABLED'' ''0'')) in
      if raw \<notin> {''0'', ''1'', ''false'', ''true''} then Inl (StartupGuardError ''WATCH_FEED_ENABLED must be true or false'')
      else case py_int (getenv environ ''WATCH_FEED_RETENTION_DAYS'' ''30'') of
        None \<Rightarrow> Inl (StartupGuardError ''WATCH_FEED_RETENTION_DAYS must be an integer'')
      | Some days \<Rightarrow>
          if days < 30 \<or> 365 < days then Inl (StartupGuardError ''WATCH_FEED_RETENTION_DAYS must be between 30 and 365'')
          else Inr \<lparr>wc_enabled = (raw \<in> {''1'', ''true''}), wc_retention = microseconds (days * 86400)\<rparr>)"

section \<open>The feed\<close>

record symbol_status =
  sf_symbol :: string
  sf_last_candle_at :: "datetime option"
  sf_failures :: nat
  sf_last_error :: "string option"
  sf_next_attempt_at :: "datetime option"

definition status_state :: "datetime \<Rightarrow> symbol_status \<Rightarrow> string" where
  "status_state now st =
     (if 0 < sf_failures st then ''unavailable''
      else case sf_last_candle_at st of
        None \<Rightarrow> ''not_collected''
      | Some t \<Rightarrow> if STALE_AFTER < now - (t + INTERVAL) then ''stale'' else ''fresh'')"

record ('l, 'c, 's) watch_feed =
  wf_list :: 'l
  wf_source :: 'c
  wf_store :: 's
  wf_statuses :: "(string, symbol_status) dict"
  wf_requests :: nat
  wf_next_prune :: "datetime option"
  wf_woken :: bool

record ('l, 'c, 's) feed_env =
  fe_symbols :: "(exn, 'l, string list) act"
  fe_trading :: "string list"
  fe_store :: "'s candle_store_ops"
  fe_prune :: "string \<Rightarrow> string \<Rightarrow> datetime \<Rightarrow> int \<Rightarrow> (exn, 's, nat) act"
  fe_get_candles :: "string \<Rightarrow> datetime \<Rightarrow> datetime \<Rightarrow> string \<Rightarrow> (exn, 'c, candle list) act"
  fe_retention :: timedelta
  fe_validator :: validator

definition on_watchlist :: "(exn, 'l, 'a) act \<Rightarrow> (exn, ('l, 'c, 's) watch_feed, 'a) act" where
  "on_watchlist m f = (case m (wf_list f) of (r, l) \<Rightarrow> (r, f\<lparr>wf_list := l\<rparr>))"

definition on_source :: "(exn, 'c, 'a) act \<Rightarrow> (exn, ('l, 'c, 's) watch_feed, 'a) act" where
  "on_source m f = (case m (wf_source f) of (r, c) \<Rightarrow> (r, f\<lparr>wf_source := c\<rparr>))"

definition on_candles :: "(exn, 's, 'a) act \<Rightarrow> (exn, ('l, 'c, 's) watch_feed, 'a) act" where
  "on_candles m f = (case m (wf_store f) of (r, s) \<Rightarrow> (r, f\<lparr>wf_store := s\<rparr>))"

definition is_cancelled :: "exn \<Rightarrow> bool" where
  "is_cancelled e \<longleftrightarrow> e = PyError ''CancelledError''"

definition feed_bucket_start :: "datetime \<Rightarrow> datetime" where
  "feed_bucket_start moment = microseconds (epoch_seconds moment div 300 * 300)"

definition latest_stored :: "('l, 'c, 's) feed_env \<Rightarrow> string \<Rightarrow> (exn, ('l, 'c, 's) watch_feed, datetime option) act" where
  "latest_stored env symb = on_candles (cs_latest_opened_at (fe_store env) symb INTERVAL_NAME)"

text \<open>One request: only candles of the coin and the window are kept, and each is validated by itself.\<close>

definition watch_page :: "('l, 'c, 's) feed_env \<Rightarrow> string \<Rightarrow> datetime \<Rightarrow> datetime \<Rightarrow> (exn, ('l, 'c, 's) watch_feed, unit) act" where
  "watch_page env symb cursor page_end =
     abind (\<lambda>f. (Inr (), f\<lparr>wf_requests := Suc (wf_requests f)\<rparr>)) (\<lambda>_.
     abind (on_source (fe_get_candles env symb cursor page_end INTERVAL_NAME)) (\<lambda>fetched.
       let page = filter (\<lambda>c. cursor \<le> cdl_opened_at c \<and> cdl_opened_at c < page_end \<and> cdl_symbol c = symb) fetched in
       abind (of_result (rmap (\<lambda>c. validate_candles (fe_validator env) INTERVAL [c]) page)) (\<lambda>_.
         if page = [] then aret () else abind (on_candles (cs_upsert_many (fe_store env) page)) (\<lambda>_. aret ()))))"

function watch_pages :: "('l, 'c, 's) feed_env \<Rightarrow> string \<Rightarrow> datetime \<Rightarrow> datetime \<Rightarrow> (exn, ('l, 'c, 's) watch_feed, unit) act" where
  "watch_pages env symb stop cursor f =
     (if cursor < stop
      then (case watch_page env symb cursor (page_end_of INTERVAL stop cursor) f of
              (Inl e, f') \<Rightarrow> (Inl e, f')
            | (Inr _, f') \<Rightarrow> watch_pages env symb stop (page_end_of INTERVAL stop cursor) f')
      else (Inr (), f))"
  by pat_completeness auto
termination
  by (relation "measure (\<lambda>(env, symb, stop, cursor, f). nat (stop - cursor))")
    (auto simp: page_end_of_def MAX_CANDLES_PER_REQUEST_def INTERVAL_def microseconds_def)

declare watch_pages.simps [simp del]

definition collect_from :: "datetime \<Rightarrow> datetime option \<Rightarrow> datetime" where
  "collect_from stop latest =
     (let earliest = stop - BACKFILL_SPAN in case latest of None \<Rightarrow> earliest | Some t \<Rightarrow> max earliest (t + INTERVAL))"

definition collect :: "('l, 'c, 's) feed_env \<Rightarrow> datetime \<Rightarrow> string \<Rightarrow> (exn, ('l, 'c, 's) watch_feed, datetime option) act" where
  "collect env now symb =
     (let stop = feed_bucket_start now in
      abind (latest_stored env symb) (\<lambda>latest.
      abind (watch_pages env symb stop (collect_from stop latest)) (\<lambda>_. latest_stored env symb)))"

text \<open>
  The only issue the validator can find in a candle by itself is its duration. The status of an HTTP
  error is read back from the exception's text.
\<close>

definition describe_failure :: "exn \<Rightarrow> string" where
  "describe_failure e =
     (if e = circuit_open then ''Coinbase requests paused after repeated failures''
      else if e = rate_limit_exceeded then ''request budget was not available; waiting''
      else case e of
        PyError name \<Rightarrow>
          if e = http_status_error 429 then ''Coinbase is rate limiting this feed (429)''
          else if take 16 name = ''HTTPStatusError '' then ''Coinbase answered HTTP '' @ drop 16 name
          else if name = ''TimeoutException'' then ''Coinbase did not answer in time''
          else if name = ''HTTPError'' then ''Coinbase could not be reached''
          else ''the candle request failed''
      | ValueError m \<Rightarrow>
          if take 9 m = ''duration:'' then ''Coinbase returned a candle that failed validation'' else ''the candle request failed''
      | _ \<Rightarrow> ''the candle request failed'')"

definition failed_status :: "datetime \<Rightarrow> exn \<Rightarrow> symbol_status \<Rightarrow> symbol_status" where
  "failed_status now e st =
     st\<lparr>sf_failures := Suc (sf_failures st), sf_last_error := Some (describe_failure e),
        sf_next_attempt_at := Some (now + min MAX_BACKOFF (FIRST_BACKOFF * 2 ^ sf_failures st))\<rparr>"

definition good_status :: "datetime option \<Rightarrow> symbol_status \<Rightarrow> symbol_status" where
  "good_status latest st = st\<lparr>sf_last_candle_at := latest, sf_failures := 0, sf_last_error := None, sf_next_attempt_at := None\<rparr>"

definition put_status :: "symbol_status \<Rightarrow> ('l, 'c, 's) watch_feed \<Rightarrow> ('l, 'c, 's) watch_feed" where
  "put_status st f = f\<lparr>wf_statuses := AList.update (sf_symbol st) st (wf_statuses f)\<rparr>"

definition status_of :: "('l, 'c, 's) feed_env \<Rightarrow> string \<Rightarrow> (exn, ('l, 'c, 's) watch_feed, symbol_status) act" where
  "status_of env symb f =
     (case map_of (wf_statuses f) symb of
        Some st \<Rightarrow> (Inr st, f)
      | None \<Rightarrow> abind (latest_stored env symb) (\<lambda>latest f.
          let st = \<lparr>sf_symbol = symb, sf_last_candle_at = latest, sf_failures = 0, sf_last_error = None, sf_next_attempt_at = None\<rparr> in
          (Inr st, put_status st f)) f)"

definition waits :: "datetime \<Rightarrow> symbol_status \<Rightarrow> bool" where
  "waits now st \<longleftrightarrow> (case sf_next_attempt_at st of None \<Rightarrow> False | Some t \<Rightarrow> now < t)"

definition note_outcome ::
  "datetime \<Rightarrow> symbol_status \<Rightarrow> exn + datetime option \<Rightarrow> (exn, ('l, 'c, 's) watch_feed, unit) act"
where
  "note_outcome now st r f =
     (case r of
        Inl e \<Rightarrow> if is_cancelled e then (Inl e, f) else (Inr (), put_status (failed_status now e st) f)
      | Inr latest \<Rightarrow> (Inr (), put_status (good_status latest st) f))"

definition watch_symbol :: "('l, 'c, 's) feed_env \<Rightarrow> datetime \<Rightarrow> string \<Rightarrow> (exn, ('l, 'c, 's) watch_feed, unit) act" where
  "watch_symbol env now symb =
     abind (status_of env symb) (\<lambda>st.
       if waits now st then aret () else abind (attempt (collect env now symb)) (note_outcome now st))"

lemma note_outcome_frame [simp]:
  "wf_store (snd (note_outcome now st r f)) = wf_store f" "wf_requests (snd (note_outcome now st r f)) = wf_requests f"
  "wf_source (snd (note_outcome now st r f)) = wf_source f"
  by (auto simp: note_outcome_def put_status_def split: sum.split)

definition prune_symbol :: "('l, 'c, 's) feed_env \<Rightarrow> datetime \<Rightarrow> string \<Rightarrow> (exn, ('l, 'c, 's) watch_feed, unit) act" where
  "prune_symbol env cutoff symb =
     (if symb \<in> set (fe_trading env) then aret ()
      else abind (attempt (on_candles (fe_prune env symb INTERVAL_NAME cutoff PRUNE_BATCH))) (\<lambda>r.
        case r of Inl e \<Rightarrow> if is_cancelled e then athrow e else aret () | Inr _ \<Rightarrow> aret ()))"

definition prune_all :: "('l, 'c, 's) feed_env \<Rightarrow> datetime \<Rightarrow> string list \<Rightarrow> (exn, ('l, 'c, 's) watch_feed, unit) act" where
  "prune_all env now symbols f =
     (if (case wf_next_prune f of None \<Rightarrow> False | Some t \<Rightarrow> now < t) then (Inr (), f)
      else aforeach (prune_symbol env (feed_bucket_start now - fe_retention env)) symbols (f\<lparr>wf_next_prune := Some (now + PRUNE_EVERY)\<rparr>))"

definition watch_only :: "('l, 'c, 's) feed_env \<Rightarrow> string list \<Rightarrow> string list" where
  "watch_only env symbols = filter (\<lambda>s. s \<notin> set (fe_trading env)) symbols"

definition run_cycle :: "('l, 'c, 's) feed_env \<Rightarrow> datetime \<Rightarrow> (exn, ('l, 'c, 's) watch_feed, unit) act" where
  "run_cycle env now =
     abind (on_watchlist (fe_symbols env)) (\<lambda>listed.
       let symbols = watch_only env listed in
       abind (\<lambda>f. (Inr (), f\<lparr>wf_statuses := filter (\<lambda>(k, _). k \<in> set symbols) (wf_statuses f)\<rparr>)) (\<lambda>_.
       abind (aforeach (watch_symbol env now) symbols) (\<lambda>_. prune_all env now symbols)))"

text \<open>A turn of the loop; the result is how long it waits unless it is woken or stopped.\<close>

definition feed_turn :: "('l, 'c, 's) feed_env \<Rightarrow> datetime \<Rightarrow> datetime \<Rightarrow> (exn, ('l, 'c, 's) watch_feed, timedelta) act" where
  "feed_turn env now after =
     abind (attempt (run_cycle env now)) (\<lambda>r f.
       case r of
         Inl e \<Rightarrow> if is_cancelled e then (Inl e, f)
           else (Inr (max (microseconds 1) (feed_bucket_start after + INTERVAL + COLLECT_DELAY - after)), f\<lparr>wf_woken := False\<rparr>)
       | Inr _ \<Rightarrow> (Inr (max (microseconds 1) (feed_bucket_start after + INTERVAL + COLLECT_DELAY - after)), f\<lparr>wf_woken := False\<rparr>))"


section \<open>What the feed leaves alone\<close>

text \<open>A store in which writing and pruning one coin does not show in the view of another.\<close>

locale candle_archive =
  fixes ops :: "'s candle_store_ops" and prune :: "string \<Rightarrow> string \<Rightarrow> datetime \<Rightarrow> int \<Rightarrow> (exn, 's, nat) act"
    and view :: "string \<Rightarrow> 's \<Rightarrow> 'x"
  assumes latest_view: "cs_latest_opened_at ops symb interval s = (r, t) \<Longrightarrow> view x t = view x s"
    and upsert_view: "cs_upsert_many ops cs s = (ru, t) \<Longrightarrow> x \<notin> cdl_symbol ` set cs \<Longrightarrow> view x t = view x s"
    and prune_view: "prune symb interval cutoff limit s = (rp, t) \<Longrightarrow> x \<noteq> symb \<Longrightarrow> view x t = view x s"
begin

abbreviation keeps_view :: "string \<Rightarrow> 'x \<Rightarrow> (exn, ('l, 'c, 's) watch_feed, 'a) act \<Rightarrow> bool" where
  "keeps_view x v m \<equiv> triple (\<lambda>f. view x (wf_store f) = v) m (\<lambda>_ f. view x (wf_store f) = v) (\<lambda>_ f. view x (wf_store f) = v)"

lemma keeps_view_bind: "keeps_view x v m \<Longrightarrow> (\<And>y. keeps_view x v (g y)) \<Longrightarrow> keeps_view x v (abind m g)"
  by (rule triple_abind)

lemma keeps_view_same: "(\<And>f. view x (wf_store (snd (n f))) = view x (wf_store f)) \<Longrightarrow> keeps_view x v n"
  by (simp add: triple_snd_iff)

lemma keeps_view_simple:
  "keeps_view x v (of_result r)" "keeps_view x v (on_watchlist m)" "keeps_view x v (on_source k)"
  "keeps_view x v (aret y)" "keeps_view x v (athrow e)"
  by (auto simp: triple_snd_iff of_result_def on_watchlist_def on_source_def split: prod.splits)

lemma keeps_view_attempt: "keeps_view x v m \<Longrightarrow> keeps_view x v (attempt m)"
  by (simp add: triple_snd_iff)

lemma keeps_view_latest:
  assumes "fe_store env = ops"
  shows "keeps_view x v (latest_stored env symb)"
  unfolding latest_stored_def assms
  by (auto simp: triple_snd_iff on_candles_def split: prod.splits dest: latest_view)

lemma keeps_view_page:
  assumes "fe_store env = ops" "x \<noteq> symb"
  shows "keeps_view x v (watch_page env symb cursor page_end)"
  unfolding watch_page_def Let_def
proof (intro keeps_view_bind, goal_cases)
  case (4 u fetched u')
  let ?page = "filter (\<lambda>c. cursor \<le> cdl_opened_at c \<and> cdl_opened_at c < page_end \<and> cdl_symbol c = symb) fetched"
  have "keeps_view x v (on_candles (cs_upsert_many (fe_store env) ?page))"
    unfolding assms(1) using assms(2) by (auto simp: triple_snd_iff on_candles_def split: prod.splits dest!: upsert_view)
  then show ?case by (auto intro: keeps_view_bind keeps_view_simple)
qed (auto intro: keeps_view_simple keeps_view_same)

lemma keeps_view_pages:
  assumes "fe_store env = ops" "x \<noteq> symb"
  shows "keeps_view x v (watch_pages env symb stop cursor)"
proof (rule keeps_view_same)
  show "view x (wf_store (snd (watch_pages env symb stop cursor f))) = view x (wf_store f)" for f
  proof (induction "nat (stop - cursor)" arbitrary: cursor f rule: less_induct)
    case less
    obtain r f' where page: "watch_page env symb cursor (page_end_of INTERVAL stop cursor) f = (r, f')" by force
    have same: "view x (wf_store f') = view x (wf_store f)"
      using keeps_view_page[OF assms, of "view x (wf_store f)" cursor "page_end_of INTERVAL stop cursor"] page
      by (simp add: triple_snd_iff) (metis snd_conv)
    show ?case
    proof (cases "cursor < stop")
      case True
      then have "nat (stop - page_end_of INTERVAL stop cursor) < nat (stop - cursor)"
        by (auto simp: page_end_of_def MAX_CANDLES_PER_REQUEST_def INTERVAL_def microseconds_def)
      from less(1)[OF this, of f'] show ?thesis
        using True same page by (cases r) (simp_all add: watch_pages.simps[of env symb stop cursor f])
    qed (simp add: watch_pages.simps[of env symb stop cursor f])
  qed
qed

lemma keeps_view_symbol:
  assumes "fe_store env = ops" "x \<noteq> symb"
  shows "keeps_view x v (watch_symbol env now symb)"
proof -
  have "keeps_view x v (status_of env symb)"
    using keeps_view_latest[OF assms(1), of x v symb]
    by (auto simp: triple_snd_iff status_of_def put_status_def abind_def Let_def split: option.split prod.splits sum.splits)
  moreover have "keeps_view x v (collect env now symb)"
    unfolding collect_def Let_def by (intro keeps_view_bind keeps_view_latest keeps_view_pages assms)
  moreover have "keeps_view x v (note_outcome now st r)" for st r by (rule keeps_view_same) simp
  ultimately show ?thesis
    unfolding watch_symbol_def
    by (auto intro!: keeps_view_bind keeps_view_attempt keeps_view_simple intro: keeps_view_same)
qed

lemma keeps_view_prune:
  assumes "fe_prune env = prune" "x \<notin> set symbols"
  shows "keeps_view x v (prune_all env now symbols)"
proof -
  have one: "keeps_view x v (prune_symbol env cutoff symb)" if "symb \<in> set symbols" for cutoff symb
  proof -
    have "keeps_view x v (on_candles (fe_prune env symb INTERVAL_NAME cutoff PRUNE_BATCH))"
      unfolding assms(1) using assms(2) that by (auto simp: triple_snd_iff on_candles_def split: prod.splits dest!: prune_view)
    then show ?thesis unfolding prune_symbol_def
      by (auto intro!: keeps_view_bind keeps_view_attempt keeps_view_simple split: sum.split)
  qed
  have "keeps_view x v (aforeach (prune_symbol env cutoff) symbols)" for cutoff
    by (rule triple_aforeach) (rule one)
  then show ?thesis by (auto simp: triple_snd_iff prune_all_def)
qed

lemma run_cycle_keeps_view:
  assumes env: "fe_store env = ops" "fe_prune env = prune"
    and x: "x \<in> set (fe_trading env) \<or> (case fe_symbols env (wf_list f) of (Inr listed, _) \<Rightarrow> x \<notin> set listed | _ \<Rightarrow> True)"
  shows "view x (wf_store (snd (run_cycle env now f))) = view x (wf_store f)"
proof -
  obtain r l where read: "fe_symbols env (wf_list f) = (r, l)" by force
  show ?thesis
  proof (cases r)
    case (Inl e)
    then show ?thesis using read by (simp add: run_cycle_def abind_def on_watchlist_def)
  next
    case (Inr listed)
    let ?symbols = "watch_only env listed" and ?f = "f\<lparr>wf_list := l\<rparr>"
    have out: "x \<notin> set ?symbols" using x read Inr by (auto simp: watch_only_def)
    have each: "keeps_view x v (aforeach (watch_symbol env now) ?symbols)" for v
      by (rule triple_aforeach) (metis keeps_view_symbol env(1) out)
    have "keeps_view x v (abind (\<lambda>f. (Inr (), f\<lparr>wf_statuses := filter (\<lambda>(k, _). k \<in> set ?symbols) (wf_statuses f)\<rparr>)) (\<lambda>_.
       abind (aforeach (watch_symbol env now) ?symbols) (\<lambda>_. prune_all env now ?symbols)))" for v
      by (intro keeps_view_bind keeps_view_prune[OF env(2) out] each) (rule keeps_view_same, simp)
    then show ?thesis using read Inr
      by (simp add: run_cycle_def abind_def[of "on_watchlist _"] on_watchlist_def Let_def triple_snd_iff)
  qed
qed

end


text \<open>The table of candles: each coin's rows are a view of their own.\<close>

definition rows_of :: "string \<Rightarrow> candle list \<Rightarrow> candle list" where
  "rows_of symb rs = filter (\<lambda>c. cdl_symbol c = symb) rs"

lemma upsert_one_view:
  assumes "x \<noteq> cdl_symbol c"
  shows "rows_of x (fst (sqlc_upsert_one numeric c st)) = rows_of x (fst st)"
proof -
  obtain rs n where st: "st = (rs, n)" by force
  have "rows_of x (map (\<lambda>y. if candle_key y = candle_key c then stored_candle numeric c else y) rs) = rows_of x rs" for rs
    using assms by (induction rs) (auto simp: rows_of_def candle_key_def stored_candle_def)
  then show ?thesis using assms by (auto simp: st sqlc_upsert_one_def rows_of_def stored_candle_def)
qed

lemma upsert_many_view: "x \<notin> cdl_symbol ` set cs \<Longrightarrow> rows_of x (fst (fold (sqlc_upsert_one numeric) cs st)) = rows_of x (fst st)"
  by (induction cs arbitrary: st) (auto simp: upsert_one_view)

interpretation sql_archive: candle_archive "sql_candle_ops numeric" sqlc_prune_before rows_of for numeric
proof (unfold_locales, goal_cases)
  case (1 symb interval s r t x)
  then show ?case by (simp add: sql_candle_ops_def sqlc_latest_opened_at_def)
next
  case (2 cs s ru t x)
  then show ?case using upsert_many_view[of x cs numeric "(s, 0)"]
    by (auto simp: sql_candle_ops_def sqlc_upsert_many_def split: prod.splits)
next
  case (3 symb interval cutoff limit s rp t x)
  have "set (take n (sort_key cdl_opened_at (filter (\<lambda>c. of_series symb interval c \<and> cdl_opened_at c < cutoff) s))) \<subseteq>
      {c. cdl_symbol c = symb}" for n
    using set_take_subset[of n] by (fastforce simp: of_series_def)
  then have "rows_of x (filter (\<lambda>c. c \<notin> set (take n (sort_key cdl_opened_at
      (filter (\<lambda>c. of_series symb interval c \<and> cdl_opened_at c < cutoff) s)))) s) = rows_of x s" for n
    using 3(2) unfolding rows_of_def filter_filter by (intro filter_cong) auto
  then show ?case using 3 by (auto simp: sqlc_prune_before_def Let_def split: if_splits)
qed

definition sql_feed :: "(rat \<Rightarrow> rat) \<Rightarrow> ('l, 'c, candle list) feed_env \<Rightarrow> ('l, 'c, candle list) feed_env" where
  "sql_feed numeric env = env\<lparr>fe_store := sql_candle_ops numeric, fe_prune := sqlc_prune_before\<rparr>"

text \<open>
  C38. A cycle of the watch-only feed over the table of candles, whatever the watchlist, the source and
  the validator answer or raise and however the cycle ends: no row of a trading symbol, and no row of a
  coin that is not on the list the cycle read, is written, changed or pruned.
\<close>

theorem feed_touches_only_watched_coins:
  assumes "x \<in> set (fe_trading env) \<or> (case fe_symbols env (wf_list f) of (Inr listed, _) \<Rightarrow> x \<notin> set listed | _ \<Rightarrow> True)"
  shows "rows_of x (wf_store (snd (run_cycle (sql_feed numeric env) now f))) = rows_of x (wf_store f)"
  using assms by (intro sql_archive.run_cycle_keeps_view[of _ numeric]) (simp_all add: sql_feed_def)

section \<open>How often it asks\<close>

definition asks_at_most :: "nat \<Rightarrow> (exn, ('l, 'c, 's) watch_feed, 'a) act \<Rightarrow> bool" where
  "asks_at_most n m \<longleftrightarrow> (\<forall>f. wf_requests (snd (m f)) \<le> wf_requests f + n)"

lemma asks_bind:
  assumes "asks_at_most n m" "\<And>y. asks_at_most k (g y)"
  shows "asks_at_most (n + k) (abind m g)"
  unfolding asks_at_most_def
proof
  fix f
  obtain r f' where m: "m f = (r, f')" by force
  then have first: "wf_requests f' \<le> wf_requests f + n" using assms(1) by (auto simp: asks_at_most_def dest: spec[of _ f])
  have "wf_requests (snd (g y f')) \<le> wf_requests f + (n + k)" for y
    using assms(2)[of y, unfolded asks_at_most_def, rule_format, of f'] first by simp
  then show "wf_requests (snd (abind m g f)) \<le> wf_requests f + (n + k)"
    using first by (cases r) (simp_all add: abind_def m)
qed

lemma asks_simple:
  "asks_at_most 0 (of_result r)" "asks_at_most 0 (aret y)" "asks_at_most 0 (athrow e)" "asks_at_most 0 (on_watchlist m)"
  "asks_at_most 0 (on_source k)" "asks_at_most 0 (on_candles l)"
  by (auto simp: asks_at_most_def of_result_def on_watchlist_def on_source_def on_candles_def split: prod.splits)

lemma asks_attempt: "asks_at_most n m \<Longrightarrow> asks_at_most n (attempt m)"
  by (simp add: asks_at_most_def)

lemma asks_mono: "asks_at_most n m \<Longrightarrow> n \<le> k \<Longrightarrow> asks_at_most k m"
  unfolding asks_at_most_def by (meson add_left_mono le_trans)

lemma asks_page: "asks_at_most 1 (watch_page env symb cursor page_end)"
  by (auto simp: asks_at_most_def watch_page_def Let_def abind_def on_source_def on_candles_def of_result_def aret_def
      split: prod.split sum.split)


definition pages_between :: "datetime \<Rightarrow> datetime \<Rightarrow> nat" where
  "pages_between cursor stop = nat ((stop - cursor + (INTERVAL * MAX_CANDLES_PER_REQUEST - 1)) div (INTERVAL * MAX_CANDLES_PER_REQUEST))"

lemma page_span: "INTERVAL * MAX_CANDLES_PER_REQUEST = 90000000000"
  by (simp add: INTERVAL_def microseconds_def MAX_CANDLES_PER_REQUEST_def)

lemma pages_between_step:
  assumes "cursor < stop"
  shows "Suc (pages_between (page_end_of INTERVAL stop cursor) stop) \<le> pages_between cursor stop"
proof (cases "stop \<le> cursor + 90000000000")
  case True
  have "1 \<le> (stop - cursor + 89999999999) div 90000000000" using assms by simp
  then show ?thesis using True by (simp add: pages_between_def page_end_of_def page_span min_def)
next
  case False
  let ?d = "stop - (cursor + 90000000000)"
  have "(stop - cursor + 89999999999) div 90000000000 = (?d + 89999999999) div 90000000000 + 1"
    using div_add_self2[of "90000000000" "?d + 89999999999"] by (simp add: algebra_simps)
  moreover have "0 \<le> (?d + 89999999999) div 90000000000" using False by simp
  ultimately show ?thesis using False by (simp add: pages_between_def page_end_of_def page_span min_def)
qed

lemma asks_pages: "asks_at_most (pages_between cursor stop) (watch_pages env symb stop cursor)"
  unfolding asks_at_most_def
proof
  fix f
  show "wf_requests (snd (watch_pages env symb stop cursor f)) \<le> wf_requests f + pages_between cursor stop"
  proof (induction "nat (stop - cursor)" arbitrary: cursor f rule: less_induct)
    case less
    obtain r f' where page: "watch_page env symb cursor (page_end_of INTERVAL stop cursor) f = (r, f')" by force
    then have one: "wf_requests f' \<le> wf_requests f + 1"
      using asks_page[of env symb cursor "page_end_of INTERVAL stop cursor"] by (auto simp: asks_at_most_def dest: spec[of _ f])
    show ?case
    proof (cases "cursor < stop")
      case True
      then have "nat (stop - page_end_of INTERVAL stop cursor) < nat (stop - cursor)"
        by (auto simp: page_end_of_def page_span)
      from less(1)[OF this, of f'] pages_between_step[OF True] show ?thesis
        using True one page by (cases r) (simp_all add: watch_pages.simps[of env symb stop cursor f])
    qed (simp add: watch_pages.simps[of env symb stop cursor f])
  qed
qed

lemma pages_between_mono: "cursor \<le> cursor' \<Longrightarrow> pages_between cursor' stop \<le> pages_between cursor stop"
  unfolding pages_between_def page_span by (intro nat_mono zdiv_mono1) simp_all

lemma asks_symbol: "asks_at_most 29 (watch_symbol env now symb)"
proof -
  have pages: "pages_between (collect_from stop latest) stop \<le> 29" for stop latest
  proof -
    have "pages_between (collect_from stop latest) stop \<le> pages_between (stop - BACKFILL_SPAN) stop"
      by (intro pages_between_mono) (auto simp: collect_from_def Let_def split: option.split)
    also have "\<dots> = 29" by (simp add: pages_between_def page_span BACKFILL_SPAN_def microseconds_def)
    finally show ?thesis .
  qed
  have "asks_at_most 29 (watch_pages env symb stop (collect_from stop latest))" for stop latest
    using asks_pages pages by (rule asks_mono)
  then have "asks_at_most (0 + (29 + 0)) (collect env now symb)"
    unfolding collect_def Let_def latest_stored_def by (intro asks_bind asks_simple)
  then have collect: "asks_at_most 29 (collect env now symb)" by simp
  have "asks_at_most 0 (status_of env symb)"
    by (auto simp: asks_at_most_def status_of_def abind_def latest_stored_def on_candles_def put_status_def Let_def
        split: option.split prod.split sum.split)
  moreover have "asks_at_most 0 (note_outcome now st r)" for st r by (simp add: asks_at_most_def)
  then have "asks_at_most (29 + 0) (abind (attempt (collect env now symb)) (note_outcome now st))" for st
    by (intro asks_bind asks_attempt collect)
  then have "asks_at_most 29 (if waits now st then aret () else abind (attempt (collect env now symb)) (note_outcome now st))" for st
    by (cases "waits now st") (simp_all add: asks_at_most_def)
  ultimately show ?thesis unfolding watch_symbol_def by (rule asks_bind[where n = 0 and k = 29, simplified])
qed


lemma aforeach_bind: "aforeach g [] = aret ()" "aforeach g (x # xs) = abind (g x) (\<lambda>_. aforeach g xs)"
  by (auto simp: fun_eq_iff abind_def aret_def)

lemma asks_symbols: "asks_at_most (29 * length symbols) (aforeach (watch_symbol env now) symbols)"
proof (induction symbols)
  case (Cons symb symbols)
  have "asks_at_most (29 + 29 * length symbols) (abind (watch_symbol env now symb) (\<lambda>_. aforeach (watch_symbol env now) symbols))"
    by (intro asks_bind asks_symbol Cons.IH)
  then show ?case by (simp add: aforeach_bind del: aforeach.simps)
qed (simp add: asks_at_most_def)

lemma asks_prune: "asks_at_most 0 (prune_all env now symbols)"
proof -
  have "asks_at_most 0 (prune_symbol env cutoff symb)" for cutoff symb
    unfolding prune_symbol_def
    by (auto intro!: asks_bind[where n = 0 and k = 0, simplified] asks_attempt asks_simple split: sum.split)
  then have all: "asks_at_most 0 (aforeach (prune_symbol env cutoff) symbols)" for cutoff
    by (induction symbols) (auto simp: aforeach_bind simp del: aforeach.simps intro!: asks_bind[where n = 0 and k = 0, simplified] asks_simple)
  have "wf_requests (snd (aforeach (prune_symbol env cutoff) symbols (f\<lparr>wf_next_prune := p\<rparr>))) \<le> wf_requests f" for cutoff f p
    using all[of cutoff, unfolded asks_at_most_def, rule_format, of "f\<lparr>wf_next_prune := p\<rparr>"] by simp
  then show ?thesis by (simp add: asks_at_most_def prune_all_def)
qed

text \<open>
  A cycle asks the provider at most 29 times for each coin on the list that is not traded, however
  long the coin was not collected and whatever the answers; when the list cannot be read it asks nothing.
\<close>

theorem cycle_asks_are_bounded:
  shows "wf_requests (snd (run_cycle env now f)) \<le> wf_requests f +
    29 * (case fe_symbols env (wf_list f) of (Inr listed, _) \<Rightarrow> length (watch_only env listed) | _ \<Rightarrow> 0)"
proof -
  obtain r l where read: "fe_symbols env (wf_list f) = (r, l)" by force
  show ?thesis
  proof (cases r)
    case (Inl e)
    then show ?thesis using read by (simp add: run_cycle_def abind_def on_watchlist_def)
  next
    case (Inr listed)
    let ?symbols = "watch_only env listed"
    have "asks_at_most (0 + (29 * length ?symbols + 0))
      (abind (\<lambda>f. (Inr (), f\<lparr>wf_statuses := filter (\<lambda>(k, _). k \<in> set ?symbols) (wf_statuses f)\<rparr>)) (\<lambda>_.
         abind (aforeach (watch_symbol env now) ?symbols) (\<lambda>_. prune_all env now ?symbols)))"
      by (intro asks_bind asks_symbols asks_prune) (simp add: asks_at_most_def)
    then show ?thesis using read Inr
      by (auto simp: run_cycle_def abind_def[of "on_watchlist _"] on_watchlist_def Let_def asks_at_most_def
          dest: spec[of _ "f\<lparr>wf_list := l\<rparr>"])
  qed
qed

section \<open>Backing off\<close>

text \<open>
  A coin whose collection fails is not asked for again before its pause is over: one minute after the
  first failure, twice as long after each further one, never more than half an hour. Until then a cycle
  leaves it, the provider and the count of requests alone; the first success forgets the failures.
\<close>

theorem failing_coin_backs_off:
  assumes "map_of (wf_statuses f) symb = Some st" "sf_symbol st = symb"
  shows "(if waits now st then watch_symbol env now symb f = (Inr (), f)
    else case collect env now symb f of
      (Inl e, g) \<Rightarrow> is_cancelled e \<or> (\<exists>pause. map_of (wf_statuses (snd (watch_symbol env now symb f))) symb =
          Some (st\<lparr>sf_failures := sf_failures st + 1, sf_last_error := Some (describe_failure e),
            sf_next_attempt_at := Some (now + pause)\<rparr>) \<and>
          pause = min (microseconds 1800) (microseconds 60 * 2 ^ sf_failures st) \<and>
          (\<forall>later. now \<le> later \<and> later < now + pause \<longrightarrow>
             watch_symbol env later symb (snd (watch_symbol env now symb f)) = (Inr (), snd (watch_symbol env now symb f))))
    | (Inr latest, g) \<Rightarrow> map_of (wf_statuses (snd (watch_symbol env now symb f))) symb =
        Some \<lparr>sf_symbol = symb, sf_last_candle_at = latest, sf_failures = 0, sf_last_error = None, sf_next_attempt_at = None\<rparr>)"
proof (cases "waits now st")
  case True
  then show ?thesis using assms by (simp add: watch_symbol_def status_of_def abind_def aret_def)
next
  case False
  obtain r g where run: "collect env now symb f = (r, g)" by force
  have out: "watch_symbol env now symb f = note_outcome now st r g"
    using assms False run by (simp add: watch_symbol_def status_of_def abind_def attempt_def)
  show ?thesis
  proof (cases r)
    case (Inr latest)
    then show ?thesis using False run out assms(2) by (simp add: note_outcome_def put_status_def good_status_def)
  next
    case (Inl e)
    let ?st = "failed_status now e st" and ?f = "put_status (failed_status now e st) g"
    have found: "map_of (wf_statuses ?f) symb = Some ?st" using assms(2) by (simp add: put_status_def failed_status_def)
    have "watch_symbol env later symb ?f = (Inr (), ?f)"
      if "later < now + min (microseconds 1800) (microseconds 60 * 2 ^ sf_failures st)" for later
    proof -
      have "waits later ?st" using that by (simp add: waits_def failed_status_def MAX_BACKOFF_def FIRST_BACKOFF_def)
      then show ?thesis using found by (simp add: watch_symbol_def status_of_def abind_def aret_def)
    qed
    then show ?thesis using False run out Inl found
      by (cases "is_cancelled e") (simp_all add: note_outcome_def failed_status_def MAX_BACKOFF_def FIRST_BACKOFF_def)
  qed
qed

lemma turn_waits:
  "feed_turn env now after f = (Inr d, g) \<Longrightarrow> microseconds 1 \<le> d"
  by (auto simp: feed_turn_def abind_def attempt_def split: prod.splits sum.splits if_splits)

section \<open>The saved choice\<close>

record setting_row =
  st_value :: string
  st_updated_at :: datetime
  st_updated_by :: string

record feed_event =
  fv_action :: string
  fv_previous :: bool
  fv_enabled :: bool
  fv_role :: string
  fv_created_at :: datetime

record setting_db =
  fs_row :: "setting_row option"
  fs_events :: "feed_event list"
  fs_failures :: "bool list"

record feed_choice =
  fch_enabled :: bool
  fch_changed_by :: string
  fch_changed_at :: datetime

text \<open>A raised \<^verbatim>\<open>FeedSettingError\<close> is its message.\<close>

definition setting_call :: "string \<Rightarrow> (string, setting_db, 'a) act \<Rightarrow> (string, setting_db, 'a) act" where
  "setting_call message body s =
     (let s' = s\<lparr>fs_failures := tl (fs_failures s)\<rparr> in
      if fs_failures s \<noteq> [] \<and> hd (fs_failures s) then (Inl message, s') else body s')"

definition feed_read :: "(string, setting_db, feed_choice option) act" where
  "feed_read = setting_call ''The saved on/off choice could not be read.'' (\<lambda>s.
     case fs_row s of
       None \<Rightarrow> (Inr None, s)
     | Some row \<Rightarrow>
         if st_value row \<notin> {''1'', ''0''} then (Inl ''The saved on/off choice is not a valid value.'', s)
         else (Inr (Some \<lparr>fch_enabled = (st_value row = ''1''), fch_changed_by = st_updated_by row,
                         fch_changed_at = st_updated_at row\<rparr>), s))"

definition feed_save :: "bool \<Rightarrow> bool \<Rightarrow> string \<Rightarrow> datetime \<Rightarrow> (string, setting_db, feed_choice) act" where
  "feed_save enabled previous role moment = setting_call ''The on/off choice could not be saved.'' (\<lambda>s.
     (Inr \<lparr>fch_enabled = enabled, fch_changed_by = role, fch_changed_at = moment\<rparr>,
      s\<lparr>fs_row := Some \<lparr>st_value = (if enabled then ''1'' else ''0''), st_updated_at = moment, st_updated_by = role\<rparr>,
        fs_events := fs_events s @ [\<lparr>fv_action = (if enabled then ''enable'' else ''disable''), fv_previous = previous,
          fv_enabled = enabled, fv_role = role, fv_created_at = moment\<rparr>]\<rparr>))"

lemma saved_choice_is_read_back:
  assumes "feed_save enabled previous role moment s = (Inr choice, t)" "fs_failures t = []"
  shows "feed_read t = (Inr (Some choice), t)"
  using assms by (auto simp: feed_save_def feed_read_def setting_call_def Let_def split: if_splits)

section \<open>Turning the feed on and off\<close>

text \<open>
  The controller owns the feed's task: how a start and the end of the task come out are inputs. \<open>built\<close>
  and \<open>released\<close> count what the feed holds (its own client) and gives back.
\<close>

record feed_origin =
  fo_source :: string
  fo_changed_by :: "string option"
  fo_changed_at :: "datetime option"
  fo_detail :: "string option"

record feed_controller =
  ct_origin :: feed_origin
  ct_running :: bool
  ct_published :: bool
  ct_built :: nat
  ct_released :: nat

datatype start_end = Started | BuildFailed exn | TaskFailed exn

definition ct_start :: "start_end \<Rightarrow> (exn, feed_controller, unit) act" where
  "ct_start outcome c =
     (if ct_running c then (Inr (), c)
      else case outcome of
        Started \<Rightarrow> (Inr (), c\<lparr>ct_running := True, ct_published := True, ct_built := Suc (ct_built c)\<rparr>)
      | BuildFailed e \<Rightarrow> (Inl e, c)
      | TaskFailed e \<Rightarrow> (Inl e, c\<lparr>ct_built := Suc (ct_built c), ct_released := Suc (ct_released c)\<rparr>))"

definition ct_stop :: "exn option \<Rightarrow> (exn, feed_controller, unit) act" where
  "ct_stop awaited c =
     (if \<not> ct_running c then (Inr (), c)
      else (case awaited of None \<Rightarrow> Inr () | Some e \<Rightarrow> if is_cancelled e then Inr () else Inl e,
            c\<lparr>ct_running := False, ct_published := False, ct_released := Suc (ct_released c)\<rparr>))"

definition parse_enabled :: "pylib \<Rightarrow> json \<Rightarrow> bool option" where
  "parse_enabled lib raw =
     (case raw of JBool b \<Rightarrow> Some b
      | _ \<Rightarrow> let text = py_lower (py_strip (py_str lib raw)) in
          if text \<in> {''1'', ''true'', ''on''} then Some True
          else if text \<in> {''0'', ''false'', ''off''} then Some False else None)"

datatype feed_reply = FeedRefused string | FeedUnavailable string | FeedDone string bool

definition not_changed :: string where "not_changed = ''the watch-only feed could not be changed''"

text \<open>The part of the handler behind the check of the form, for a choice that differs from the running state.\<close>

definition change_feed ::
  "start_end \<Rightarrow> exn option \<Rightarrow> bool \<Rightarrow> string \<Rightarrow> datetime \<Rightarrow> (exn, feed_controller \<times> setting_db, feed_reply) act"
where
  "change_feed begun awaited wanted role moment = (\<lambda>(c, db).
     case (if wanted then ct_start begun c else (Inr (), c)) of
       (Inl e, c1) \<Rightarrow> (if is_cancelled e then Inl e else Inr (FeedUnavailable not_changed), (c1, db))
     | (Inr _, c1) \<Rightarrow>
         (case feed_save wanted (ct_running c) role moment db of
            (Inl message, db') \<Rightarrow>
              if wanted then (case ct_stop awaited c1 of
                  (Inl e, c2) \<Rightarrow> (Inr (FeedUnavailable not_changed), (c2, db'))
                | (Inr _, c2) \<Rightarrow> (Inr (FeedUnavailable message), (c2, db')))
              else (Inr (FeedUnavailable message), (c1, db'))
          | (Inr choice, db') \<Rightarrow>
              (case (if wanted then (Inr (), c1) else ct_stop awaited c1) of
                 (Inl e, c2) \<Rightarrow> (Inr (FeedUnavailable not_changed), (c2, db'))
               | (Inr _, c2) \<Rightarrow>
                   (Inr (FeedDone (if wanted then ''turned_on'' else ''turned_off'') wanted),
                    (c2\<lparr>ct_origin := \<lparr>fo_source = ''saved'', fo_changed_by = Some (fch_changed_by choice),
                         fo_changed_at = Some (fch_changed_at choice), fo_detail = None\<rparr>\<rparr>, db')))))"

text \<open>
  The whole request, in a process where the feed is configured: \<open>role\<close> is the administrator the
  authorization returned and \<open>raw\<close> the field of the decoded form.
\<close>

definition set_feed ::
  "pylib \<Rightarrow> start_end \<Rightarrow> exn option \<Rightarrow> json \<Rightarrow> string \<Rightarrow> datetime \<Rightarrow> (exn, feed_controller \<times> setting_db, feed_reply) act"
where
  "set_feed lib begun awaited raw role moment = (\<lambda>(c, db).
     case parse_enabled lib raw of
       None \<Rightarrow> (Inr (FeedRefused ''Choose to turn the feed on or off.''), (c, db))
     | Some wanted \<Rightarrow>
         if wanted = ct_running c then (Inr (FeedDone ''unchanged'' wanted), (c, db))
         else change_feed begun awaited wanted role moment (c, db))"

definition feed_ok :: "feed_controller \<times> setting_db \<Rightarrow> bool" where
  "feed_ok = (\<lambda>(c, db). ct_published c = ct_running c \<and> ct_built c = ct_released c + (if ct_running c then 1 else 0) \<and>
     (\<forall>row. fs_row db = Some row \<longrightarrow> st_value row = (if ct_running c then ''1'' else ''0'')))"

text \<open>
  C39. However starting and stopping the feed and saving the choice come out, after a request the feed
  runs exactly when the saved choice says so, it is published exactly when it runs, and every feed that
  was built and does not run has given back what it held. A request that could not save its choice leaves
  choice and audit events as they were.
\<close>

theorem feed_runs_as_saved:
  assumes "feed_ok (c, db)" "set_feed lib begun awaited raw role moment (c, db) = (r, (c', db'))"
  shows "feed_ok (c', db') \<and>
    (case r of
       Inr (FeedDone what on) \<Rightarrow> ct_running c' = on \<and> (if what = ''unchanged'' then fs_row db' = fs_row db
         else map_option st_value (fs_row db') = Some (if on then ''1'' else ''0'') \<and> length (fs_events db') = length (fs_events db) + 1)
     | Inr (FeedUnavailable message) \<Rightarrow> message \<noteq> not_changed \<longrightarrow>
         ct_running c' = ct_running c \<and> fs_row db' = fs_row db \<and> fs_events db' = fs_events db
     | _ \<Rightarrow> fs_row db' = fs_row db \<and> fs_events db' = fs_events db)"
proof (cases "parse_enabled lib raw")
  case None
  then show ?thesis using assms by (auto simp: set_feed_def)
next
  case (Some wanted)
  show ?thesis
  proof (cases "wanted = ct_running c")
    case True
    then show ?thesis using assms Some by (auto simp: set_feed_def)
  next
    case False
    then have run: "change_feed begun awaited wanted role moment (c, db) = (r, (c', db'))"
      using assms(2) Some by (simp add: set_feed_def)
    show ?thesis
    proof (cases wanted)
      case True
      then show ?thesis using False run assms(1)
        by (cases begun; cases awaited)
          (auto simp: change_feed_def ct_start_def ct_stop_def feed_save_def setting_call_def Let_def feed_ok_def not_changed_def
            split: if_splits prod.splits sum.splits)
    next
      case off: False
      then show ?thesis using False run assms(1)
        by (cases awaited)
          (auto simp: change_feed_def ct_stop_def feed_save_def setting_call_def Let_def feed_ok_def not_changed_def
            split: if_splits prod.splits sum.splits)
    qed
  qed
qed


section \<open>Concrete runs\<close>

text \<open>
  A coin that is traded and one that is only watched, both with a stored candle, and a source that answers
  every request with a candle of each.
\<close>

definition five_minutes :: "string \<Rightarrow> datetime \<Rightarrow> candle" where
  "five_minutes symb opened = (sample_candle opened)\<lparr>cdl_symbol := symb, cdl_interval := INTERVAL_NAME, cdl_closed_at := opened + INTERVAL\<rparr>"

definition mixed_feed :: "(string list, unit, candle list) feed_env" where
  "mixed_feed = \<lparr>fe_symbols = (\<lambda>l. (Inr l, l)), fe_trading = [''BTC-USD''], fe_store = sql_candle_ops id, fe_prune = sqlc_prune_before,
     fe_get_candles = (\<lambda>symb a b gran c. (Inr [five_minutes ''BTC-USD'' a, five_minutes ''ETH-USD'' a], c)),
     fe_retention = BACKFILL_SPAN, fe_validator = sample_validator\<rparr>"

definition mixed_start :: "(string list, unit, candle list) watch_feed" where
  "mixed_start = \<lparr>wf_list = [''BTC-USD'', ''ETH-USD''], wf_source = (), wf_store = [five_minutes ''BTC-USD'' 0, five_minutes ''ETH-USD'' 0],
     wf_statuses = [], wf_requests = 0, wf_next_prune = None, wf_woken = True\<rparr>"

definition mixed_end :: "(string list, unit, candle list) watch_feed" where
  "mixed_end = snd (run_cycle (sql_feed id mixed_feed) (microseconds 901) mixed_start)"

lemma mixed_collects: "map cdl_opened_at (rows_of ''ETH-USD'' (wf_store mixed_end)) = [0, microseconds 300] \<and> wf_requests mixed_end = 1"
  by code_simp

theorem feed_touches_only_watched_coins_witness:
  "rows_of ''BTC-USD'' (wf_store mixed_end) = [five_minutes ''BTC-USD'' 0] \<and>
    map cdl_opened_at (rows_of ''ETH-USD'' (wf_store mixed_end)) = [0, microseconds 300]"
proof -
  have "''BTC-USD'' \<in> set (fe_trading mixed_feed)" by (simp add: mixed_feed_def)
  then have "rows_of ''BTC-USD'' (wf_store mixed_end) = rows_of ''BTC-USD'' (wf_store mixed_start)"
    unfolding mixed_end_def by (intro feed_touches_only_watched_coins disjI1)
  also have "\<dots> = [five_minutes ''BTC-USD'' 0]" by (simp add: mixed_start_def rows_of_def five_minutes_def)
  finally show ?thesis using mixed_collects by simp
qed

definition failing_feed :: "(string list, unit, candle list) feed_env" where
  "failing_feed = mixed_feed\<lparr>fe_get_candles := (\<lambda>symb a b gran c. (Inl (http_status_error 500), c))\<rparr>"

definition failing_status :: symbol_status where
  "failing_status = \<lparr>sf_symbol = ''ETH-USD'', sf_last_candle_at = Some 0, sf_failures = 3, sf_last_error = None, sf_next_attempt_at = None\<rparr>"

definition failing_start :: "(string list, unit, candle list) watch_feed" where
  "failing_start = mixed_start\<lparr>wf_statuses := [(''ETH-USD'', failing_status)]\<rparr>"

lemma failing_collect: "fst (collect failing_feed (microseconds 901) ''ETH-USD'' failing_start) = Inl (http_status_error 500)"
  by code_simp

theorem failing_coin_backs_off_witness:
  "\<exists>st. map_of (wf_statuses (snd (watch_symbol failing_feed (microseconds 901) ''ETH-USD'' failing_start))) ''ETH-USD'' = Some st \<and>
    sf_failures st = 4 \<and> sf_last_error st = Some ''Coinbase answered HTTP 500'' \<and>
    sf_next_attempt_at st = Some (microseconds 901 + microseconds 480)"
proof -
  have start: "map_of (wf_statuses failing_start) ''ETH-USD'' = Some failing_status" "sf_symbol failing_status = ''ETH-USD''"
    "\<not> waits (microseconds 901) failing_status"
    by (simp_all add: failing_start_def failing_status_def waits_def)
  have words: "describe_failure (http_status_error 500) = ''Coinbase answered HTTP 500''" "\<not> is_cancelled (http_status_error 500)"
    by code_simp+
  obtain g where run: "collect failing_feed (microseconds 901) ''ETH-USD'' failing_start = (Inl (http_status_error 500), g)"
    using failing_collect by (metis prod.collapse)
  from failing_coin_backs_off[OF start(1,2), of "microseconds 901" failing_feed] start(3) words
  obtain pause where "map_of (wf_statuses (snd (watch_symbol failing_feed (microseconds 901) ''ETH-USD'' failing_start))) ''ETH-USD'' =
      Some (failing_status\<lparr>sf_failures := sf_failures failing_status + 1, sf_last_error := Some ''Coinbase answered HTTP 500'',
        sf_next_attempt_at := Some (microseconds 901 + pause)\<rparr>)"
    "pause = min (microseconds 1800) (microseconds 60 * 2 ^ sf_failures failing_status)"
    by (auto simp only: run prod.case sum.case if_False)
  then show ?thesis by (simp add: failing_status_def) (simp add: microseconds_def)
qed

definition idle_controller :: feed_controller where
  "idle_controller = \<lparr>ct_origin = \<lparr>fo_source = ''environment'', fo_changed_by = None, fo_changed_at = None, fo_detail = None\<rparr>, ct_running = False,
     ct_published = False, ct_built = 0, ct_released = 0\<rparr>"

definition turn_on :: "(exn + feed_reply) \<times> feed_controller \<times> setting_db" where
  "turn_on = set_feed demo_lib Started None (JStr ''on'') ''admin'' 7 (idle_controller, \<lparr>fs_row = None, fs_events = [], fs_failures = []\<rparr>)"

lemma turn_on_done: "fst turn_on = Inr (FeedDone ''turned_on'' True)"
  by code_simp

theorem feed_runs_as_saved_witness:
  "ct_running (fst (snd turn_on)) \<and> map_option st_value (fs_row (snd (snd turn_on))) = Some ''1'' \<and> length (fs_events (snd (snd turn_on))) = 1"
proof -
  obtain r c' db' where run: "turn_on = (r, (c', db'))" using prod_cases3 by blast
  have "feed_ok (idle_controller, \<lparr>fs_row = None, fs_events = [], fs_failures = []\<rparr>)" by (simp add: feed_ok_def idle_controller_def)
  from feed_runs_as_saved[OF this run[unfolded turn_on_def]] turn_on_done show ?thesis by (simp add: run)
qed

end
