(* ===== verification/Controls.thy ===== *)
theory Controls
  imports Payload Execution Reconcile "HOL-Library.List_Lexorder" "HOL-Library.Char_ord"
begin

text \<open>
  The operator's control surface: the authentication and the changing handlers of
  \<^verbatim>\<open>api/routes.py\<close> with the form contract of \<^verbatim>\<open>api/controls.py\<close>, the alerts of \<^verbatim>\<open>api/operator.py\<close>
  and the fan-out of \<^verbatim>\<open>api/alerts.py\<close>. The handlers run over the kill switch, the order closer and
  the scheduled reconciler of the other theories.

  A request is what the framework hands over: headers, cookie, and the body as \<^verbatim>\<open>json.loads\<close> and as
  \<^verbatim>\<open>parse_qs\<close> read it. The keyed hash, Python's reading of an integer, the random text of a session and
  the redaction of free text are parameters (\<open>web_env\<close>). A time of day is a number of seconds. A text
  is a list of Latin-1 characters, as headers and cookies are. What only renders a page is left out.
\<close>

section \<open>Requests\<close>

record web_env =
  ae_token :: string
  ae_admin_token :: string
  ae_mac :: "string \<Rightarrow> string \<Rightarrow> string"
  ae_int :: "string \<Rightarrow> int option"
  ae_redact :: "string list \<Rightarrow> string \<Rightarrow> string"
  ae_lib :: pylib

text \<open>An unset variable or header is the empty text: both are false.\<close>

record web_request =
  rq_query_token :: bool
  rq_header_token :: string
  rq_cookie :: "string option"
  rq_content_type :: string
  rq_json :: "json option"
  rq_form :: "(string \<times> string list) list"
  rq_utf8 :: bool

datatype web_end = HttpError nat string | Crash exn

section \<open>Authentication\<close>

definition SESSION_TTL :: int where "SESSION_TTL = 8 * 60 * 60"

definition ROLES :: "string list" where "ROLES = [''operator'', ''admin'']"

record session =
  ss_role :: string
  ss_nonce :: string
  ss_expires_at :: int

definition py_ascii :: "string \<Rightarrow> bool" where
  "py_ascii s \<longleftrightarrow> list_all (\<lambda>c. (of_char c :: nat) < 128) s"

definition compare_digest :: "string \<Rightarrow> string \<Rightarrow> web_end + bool" where
  "compare_digest a b = (if py_ascii a \<and> py_ascii b then Inr (a = b) else Inl (Crash (PyError ''TypeError'')))"

definition same_token :: "string \<Rightarrow> string \<Rightarrow> web_end + bool" where
  "same_token supplied secret = (if secret = [] then Inr False else compare_digest supplied secret)"

definition role_for_token :: "web_env \<Rightarrow> string \<Rightarrow> web_end + string option" where
  "role_for_token env supplied =
     (if supplied = [] then Inr None
      else rbind (same_token supplied (ae_admin_token env)) (\<lambda>admin.
        if admin then Inr (Some ''admin'')
        else rbind (same_token supplied (ae_token env)) (\<lambda>operator.
          Inr (if operator then Some (if ae_admin_token env \<noteq> [] then ''operator'' else ''admin'') else None))))"

definition sign_text :: "web_env \<Rightarrow> string \<Rightarrow> web_end + string" where
  "sign_text env message =
     (if py_ascii message then Inr (ae_mac env (ae_token env) message) else Inl (Crash (PyError ''UnicodeEncodeError'')))"

text \<open>\<^verbatim>\<open>value.split(".", n)\<close>\<close>

fun split_dot :: "nat \<Rightarrow> string \<Rightarrow> string list" where
  "split_dot 0 s = [s]"
| "split_dot (Suc n) s =
     (let part = takeWhile (\<lambda>c. c \<noteq> CHR ''.'') s in
      if length part = length s then [s] else part # split_dot n (drop (Suc (length part)) s))"

declare split_dot.simps [simp del]

definition dotted :: "string \<Rightarrow> string \<Rightarrow> string" where
  "dotted a b = a @ ''.'' @ b"

definition session_from_cookie :: "web_env \<Rightarrow> rat \<Rightarrow> string option \<Rightarrow> web_end + session option" where
  "session_from_cookie env now cookie =
     (case cookie of None \<Rightarrow> Inr None
      | Some v \<Rightarrow>
          (case split_dot 3 v of
             [role, issued, nonce, signature] \<Rightarrow>
               (case ae_int env issued of None \<Rightarrow> Inr None
                | Some issued_at \<Rightarrow>
                    if role \<notin> set ROLES \<or> of_int SESSION_TTL < \<bar>now - of_int issued_at\<bar> then Inr None
                    else rbind (sign_text env (dotted role (dotted issued nonce))) (\<lambda>expected.
                         rbind (compare_digest signature expected) (\<lambda>same.
                           Inr (if same then Some \<lparr>ss_role = role, ss_nonce = nonce, ss_expires_at = issued_at + SESSION_TTL\<rparr>
                                else None))))
           | _ \<Rightarrow> Inr None))"

text \<open>The cookie a sign-in sets; \<open>nonce\<close> is the random text.\<close>

definition session_cookie :: "web_env \<Rightarrow> rat \<Rightarrow> string \<Rightarrow> string \<Rightarrow> web_end + string" where
  "session_cookie env now nonce role =
     (let message = dotted role (dotted (nat_str (nat \<lfloor>now\<rfloor>)) nonce) in
      rbind (sign_text env message) (\<lambda>signature. Inr (dotted message signature)))"

definition authorize :: "web_env \<Rightarrow> rat \<Rightarrow> (string, int) dict \<Rightarrow> bool \<Rightarrow> web_request \<Rightarrow> web_end + string" where
  "authorize env now revoked admin q =
     (if ae_token env = [] then Inl (HttpError 503 ''operator authentication is not configured'')
      else if rq_query_token q
      then Inl (HttpError 400 ''tokens are not accepted in URLs; use the x-operator-token header or sign in'')
      else rbind
        (if rq_header_token q \<noteq> [] then role_for_token env (rq_header_token q)
         else rbind (session_from_cookie env now (rq_cookie q)) (\<lambda>session.
           Inr (case session of None \<Rightarrow> None
                | Some x \<Rightarrow> if ss_nonce x \<in> fst ` set revoked then None else Some (ss_role x))))
        (\<lambda>role. case role of
            None \<Rightarrow> Inl (HttpError 401 ''operator authentication required'')
          | Some r \<Rightarrow>
              if admin \<and> r \<noteq> ''admin'' then Inl (HttpError 403 ''administrator authorization required'')
              else Inr r))"

definition revoke :: "rat \<Rightarrow> session \<Rightarrow> (string, int) dict \<Rightarrow> (string, int) dict" where
  "revoke now session revoked =
     AList.update (ss_nonce session) (ss_expires_at session) (filter (\<lambda>(_, expires). \<not> of_int expires < now) revoked)"

section \<open>The form contract\<close>

definition REARM_CHECKLIST :: "string list" where
  "REARM_CHECKLIST = [''cause_documented'', ''mode_and_scope_confirmed'', ''orders_resolved'', ''broker_state_confirmed'',
     ''recovery_and_reconciliation_clean'', ''inputs_current'', ''approval_obtained'']"

definition REASON_LIMIT :: nat where "REASON_LIMIT = 500"

record rearm_form =
  rf_checklist :: "string list"
  rf_reason :: string
  rf_errors :: "string list"

definition missing_items :: "string list \<Rightarrow> string list" where
  "missing_items ticked = filter (\<lambda>k. k \<notin> set ticked) REARM_CHECKLIST"

definition is_json_type :: "string \<Rightarrow> bool" where
  "is_json_type content_type \<longleftrightarrow> py_lower (py_strip (takeWhile (\<lambda>c. c \<noteq> CHR '';'') content_type)) = ''application/json''"

text \<open>\<^verbatim>\<open>form.get(key, [fallback])[0]\<close>; a key that is present has a value.\<close>

definition form_first :: "(string \<times> string list) list \<Rightarrow> string \<Rightarrow> string option" where
  "form_first form k = (case map_of form k of Some (v # _) \<Rightarrow> Some v | _ \<Rightarrow> None)"

text \<open>The entries of a JSON list as texts, and \<^verbatim>\<open>dict.fromkeys\<close>: the first of equal entries stays.\<close>

fun json_texts :: "pylib \<Rightarrow> json \<Rightarrow> string list" where
  "json_texts lib (JArr xs) = map (py_str lib) xs"
| "json_texts lib _ = []"

definition first_ones :: "string list \<Rightarrow> string list" where
  "first_ones xs = fold (\<lambda>x acc. if x \<in> set acc then acc else acc @ [x]) xs []"

definition text_errors :: "string \<Rightarrow> string \<Rightarrow> string \<Rightarrow> string list" where
  "text_errors text blank long =
     (if py_strip text = [] then [blank] else if REASON_LIMIT < length text then [long] else [])"

definition checked_rearm :: "string list \<Rightarrow> string \<Rightarrow> rearm_form" where
  "checked_rearm checklist reason =
     (let ticked = filter (\<lambda>k. k \<in> set REARM_CHECKLIST) (first_ones checklist); missing = missing_items ticked in
      \<lparr>rf_checklist = ticked, rf_reason = reason,
       rf_errors = (if missing \<noteq> [] then [''Confirm every checklist item. '' @ nat_str (length missing) @ '' not confirmed.''] else [])
         @ text_errors reason ''Enter the cause-and-approval reference.'' ''Keep the reference to 500 characters or fewer.''\<rparr>)"

definition parse_rearm :: "pylib \<Rightarrow> web_request \<Rightarrow> rearm_form" where
  "parse_rearm lib q =
     (if is_json_type (rq_content_type q) then
        (case rq_json q of
           Some (JObj d) \<Rightarrow> checked_rearm (json_texts lib (jget (JObj d) ''checklist'')) (str_or lib (jget (JObj d) ''reason'') '''')
         | _ \<Rightarrow> \<lparr>rf_checklist = [], rf_reason = '''', rf_errors = [''The request body must be a JSON object.'']\<rparr>)
      else checked_rearm (dict_get (rq_form q) ''checklist'' []) (case_option '''' id (form_first (rq_form q) ''reason'')))"

record close_form =
  cf_client_order_id :: string
  cf_reason :: string
  cf_errors :: "string list"

definition checked_close :: "string \<Rightarrow> string \<Rightarrow> close_form" where
  "checked_close raw reason =
     (let k = py_strip raw in
      \<lparr>cf_client_order_id = k, cf_reason = reason,
       cf_errors = (if k = [] then [''Choose the order to close.''] else [])
         @ text_errors reason ''Enter the reason for closing the order.'' ''Keep the reason to 500 characters or fewer.''\<rparr>)"

definition parse_close_order :: "pylib \<Rightarrow> web_request \<Rightarrow> close_form" where
  "parse_close_order lib q =
     (if is_json_type (rq_content_type q) then
        (case rq_json q of
           Some (JObj d) \<Rightarrow> checked_close (str_or lib (jget (JObj d) ''client_order_id'') '''') (str_or lib (jget (JObj d) ''reason'') '''')
         | _ \<Rightarrow> \<lparr>cf_client_order_id = '''', cf_reason = '''', cf_errors = [''The request body must be a JSON object.'']\<rparr>)
      else checked_close (case_option '''' id (form_first (rq_form q) ''client_order_id''))
        (case_option '''' id (form_first (rq_form q) ''reason'')))"

text \<open>
  The count of alerts a dismissal covers. A number is its text, so only the texts of digits are counts.
  Reading more than 4300 digits raises, as Python's limit says.
\<close>

definition dismiss_text :: "web_request \<Rightarrow> string option" where
  "dismiss_text q =
     (case (if is_json_type (rq_content_type q) then case_option None (\<lambda>j. case jget j ''through'' of JNum t \<Rightarrow> Some t | JStr t \<Rightarrow> Some t | _ \<Rightarrow> None) (rq_json q)
            else form_first (rq_form q) ''through'') of
        Some t \<Rightarrow> if py_ascii t \<and> py_isdigit t then Some t else None
      | None \<Rightarrow> None)"

definition parse_dismiss_through :: "web_request \<Rightarrow> web_end + int option" where
  "parse_dismiss_through q =
     (case dismiss_text q of None \<Rightarrow> Inr None
      | Some t \<Rightarrow> if 4300 < length t then Inl (Crash (ValueError ''Exceeds the limit'')) else Inr (Some (read_digits t)))"

section \<open>The control plane\<close>

record alert =
  al_condition :: string
  al_severity :: string
  al_message :: string
  al_created_at :: string

record alert_entry = alert +
  al_deliveries :: "(string \<times> string) list"
  al_dismissed :: "(string \<times> string) option"

record dismissal =
  dm_actor :: string
  dm_count :: nat
  dm_newest :: string

record ('b, 's, 'o, 'x) plane =
  cp_kill :: kill_switch
  cp_revoked :: "(string, int) dict"
  cp_alerts :: "alert_entry list"
  cp_dismissals :: "dismissal list"
  cp_engine :: "('b, 's, 'o) engine"
  cp_scheduler :: "'x option"

text \<open>
  What a call meets: the clock, the surroundings of the switch, whether the event journal is there and
  can be written, whether each alert destination is there and delivers, the engine when one is
  configured, and how the scheduled reconciler forgets an order.
\<close>

record ('b, 's, 'o, 'x) web_call =
  wc_now :: rat
  wc_nonce :: string
  wc_stamp :: string
  wc_kill :: ks_env
  wc_journal :: "bool option"
  wc_phone :: "bool option"
  wc_email :: "bool option"
  wc_engine :: "('b, 's, 'o) engine_env option"
  wc_is_uuid :: "string \<Rightarrow> bool"
  wc_forget :: "string \<Rightarrow> 'x \<Rightarrow> 'x"

section \<open>Alerts\<close>

definition deliver_to :: "string \<Rightarrow> bool option \<Rightarrow> (string \<times> string) list" where
  "deliver_to destination sink =
     (case sink of None \<Rightarrow> [] | Some delivers \<Rightarrow> [(destination, if delivers then ''sent'' else ''failed'')])"

definition route_alert :: "('b, 's, 'o, 'x) web_call \<Rightarrow> (string \<times> string) list" where
  "route_alert call = deliver_to ''phone_push'' (wc_phone call) @ deliver_to ''email'' (wc_email call)"

definition emit_alert :: "('b, 's, 'o, 'x) web_call \<Rightarrow> string \<Rightarrow> string \<Rightarrow> ('b, 's, 'o, 'x) plane \<Rightarrow> ('b, 's, 'o, 'x) plane" where
  "emit_alert call condition message s =
     s\<lparr>cp_alerts := cp_alerts s @ [\<lparr>al_condition = condition, al_severity = ''warning'', al_message = message,
         al_created_at = wc_stamp call, al_deliveries = route_alert call, al_dismissed = None\<rparr>]\<rparr>"

definition unread :: "alert_entry \<Rightarrow> bool" where
  "unread a \<longleftrightarrow> al_dismissed a = None"

definition mark_read :: "string \<Rightarrow> string \<Rightarrow> alert_entry \<Rightarrow> alert_entry" where
  "mark_read stamp actor a = (if unread a then a\<lparr>al_dismissed := Some (stamp, actor)\<rparr> else a)"

text \<open>The event is saved before an alert changes; \<open>None\<close> is the journal's exception.\<close>

definition dismiss_alerts ::
  "int \<Rightarrow> string \<Rightarrow> string \<Rightarrow> bool \<Rightarrow> ('b, 's, 'o, 'x) plane \<Rightarrow> nat option \<times> ('b, 's, 'o, 'x) plane"
where
  "dismiss_alerts through actor stamp saves s =
     (let covered = take (nat (max through 0)) (cp_alerts s); fresh = filter unread covered in
      if fresh = [] then (Some 0, s)
      else if \<not> saves then (None, s)
      else (Some (length fresh),
        s\<lparr>cp_dismissals := cp_dismissals s @ [\<lparr>dm_actor = actor, dm_count = length fresh,
             dm_newest = fold max (map al_created_at fresh) []\<rparr>],
          cp_alerts := map (mark_read stamp actor) covered @ drop (length covered) (cp_alerts s)\<rparr>))"

section \<open>Results\<close>

record control_result =
  cr_action :: string
  cr_state :: string
  cr_changed :: bool
  cr_role :: "string option"
  cr_previous :: "string option"

fun action_names :: "string \<Rightarrow> string \<times> string" where
  "action_names action =
     (if action = ''pause'' then (''PAUSE'', ''Pause applied'')
      else if action = ''emergency_stop'' then (''EMERGENCY STOP'', ''Emergency stop applied'')
      else if action = ''rearm'' then (''RE-ARM'', ''Re-arm applied'')
      else (''Sign out'', ''Signed out''))"

definition result_heading :: "control_result \<Rightarrow> string" where
  "result_heading r =
     (if cr_action r = ''sign_out'' then if cr_changed r then ''Signed out'' else ''No active session''
      else if cr_changed r then snd (action_names (cr_action r)) else ''Already '' @ cr_state r)"

definition result_change :: "control_result \<Rightarrow> string" where
  "result_change r =
     (if cr_action r = ''sign_out'' then
        if cr_changed r then ''Yes: the session was ended and its cookie cleared.''
        else ''No: there was no active session. The cookie was cleared anyway.''
      else if cr_changed r then ''Yes: '' @ case_option ''None'' id (cr_previous r) @ '' to '' @ cr_state r @ ''.''
      else ''No: the kill switch was already '' @ cr_state r @ ''.'')"

definition result_next_step :: "control_result \<Rightarrow> string" where
  "result_next_step r =
     (if cr_action r = ''sign_out'' then ''Close this tab on a shared device. Sign in again to keep monitoring.''
      else if cr_action r = ''rearm'' then
        if \<not> cr_changed r then ''Nothing to re-arm. Keep monitoring.''
        else ''Confirm the dashboard reports running and that no new error or divergence appears. PAUSE or EMERGENCY STOP at once if anything looks wrong.''
      else if cr_state r = ''halted'' then
        if cr_action r = ''pause''
        then ''Nothing changed: PAUSE cannot lower a halt. Leaving halted requires an administrator re-arm after the re-arm checklist.''
        else ''Leave it halted and escalate. An administrator re-arms only after the checklist.''
      else ''Investigate the cause. Only an administrator re-arm resumes trading, after the checklist.'')"

definition result_return_link :: "control_result \<Rightarrow> string \<times> string" where
  "result_return_link r =
     (if cr_action r = ''sign_out'' then (''/operator/login'', ''Sign in again'') else (''/operator'', ''Return to dashboard''))"

definition result_tone :: "control_result \<Rightarrow> string" where
  "result_tone r =
     (if cr_state r = ''running'' then ''ok'' else if cr_state r = ''paused'' then ''warn''
      else if cr_state r = ''halted'' then ''crit'' else ''neutral'')"

datatype reply =
    SignedIn string string
  | Controlled control_result
  | RearmRefused nat rearm_form kill_switch_state
  | AlertsDismissed nat
  | CloseAnswered nat string "closure_outcome option" "string list"
  | SwitchState kill_switch_state

section \<open>Handlers\<close>

type_synonym ('b, 's, 'o, 'x) handler = "(web_end, ('b, 's, 'o, 'x) plane, reply) act"

definition as_role ::
  "web_env \<Rightarrow> ('b, 's, 'o, 'x) web_call \<Rightarrow> bool \<Rightarrow> web_request \<Rightarrow> (string \<Rightarrow> ('b, 's, 'o, 'x) handler) \<Rightarrow> ('b, 's, 'o, 'x) handler"
where
  "as_role env call admin q body s =
     (case authorize env (wc_now call) (cp_revoked s) admin q of Inl e \<Rightarrow> (Inl e, s) | Inr role \<Rightarrow> body role s)"

definition login_submit :: "web_env \<Rightarrow> ('b, 's, 'o, 'x) web_call \<Rightarrow> web_request \<Rightarrow> ('b, 's, 'o, 'x) handler" where
  "login_submit env call q s =
     (if \<not> rq_utf8 q then (Inl (Crash (PyError ''UnicodeDecodeError'')), s)
      else (rbind (role_for_token env (case_option '''' id (form_first (rq_form q) ''token''))) (\<lambda>role.
        case role of None \<Rightarrow> Inl (HttpError 401 ''operator authentication required'')
        | Some r \<Rightarrow> rbind (session_cookie env (wc_now call) (wc_nonce call) r) (\<lambda>cookie. Inr (SignedIn r cookie))), s))"

definition logout :: "web_env \<Rightarrow> ('b, 's, 'o, 'x) web_call \<Rightarrow> web_request \<Rightarrow> ('b, 's, 'o, 'x) handler" where
  "logout env call q s =
     (case session_from_cookie env (wc_now call) (rq_cookie q) of
        Inl e \<Rightarrow> (Inl e, s)
      | Inr session \<Rightarrow>
          (Inr (Controlled \<lparr>cr_action = ''sign_out'', cr_state = ''signed_out'', cr_changed = (session \<noteq> None),
                  cr_role = map_option ss_role session, cr_previous = None\<rparr>),
           case session of None \<Rightarrow> s | Some x \<Rightarrow> s\<lparr>cp_revoked := revoke (wc_now call) x (cp_revoked s)\<rparr>))"

definition on_switch :: "'v ks_act \<Rightarrow> ('b, 's, 'o, 'x) plane \<Rightarrow> (exn + 'v) \<times> ('b, 's, 'o, 'x) plane" where
  "on_switch m s = (case m (cp_kill s) of (r, k) \<Rightarrow> (r, s\<lparr>cp_kill := k\<rparr>))"

definition switch_result :: "string \<Rightarrow> string \<Rightarrow> kill_switch_state \<Rightarrow> bool \<Rightarrow> ('b, 's, 'o, 'x) plane \<Rightarrow> reply" where
  "switch_result action role previous changed s =
     Controlled \<lparr>cr_action = action, cr_state = kill_value (ks_state (cp_kill s)), cr_changed = changed,
       cr_role = Some role, cr_previous = Some (kill_value previous)\<rparr>"

definition tighten_switch ::
  "web_env \<Rightarrow> ('b, 's, 'o, 'x) web_call \<Rightarrow> web_request \<Rightarrow> string \<Rightarrow> kill_switch_state \<Rightarrow> string \<Rightarrow> ('b, 's, 'o, 'x) handler"
where
  "tighten_switch env call q action target reason = as_role env call False q (\<lambda>role s.
     case on_switch (ks_tighten (wc_kill call) target reason (Some role)) s of
       (Inl e, s') \<Rightarrow> (Inl (Crash e), s')
     | (Inr changed, s') \<Rightarrow> (Inr (switch_result action role (ks_state (cp_kill s)) changed s'), s'))"

definition redacted :: "web_env \<Rightarrow> string \<Rightarrow> string" where
  "redacted env reason = ae_redact env [ae_token env, ae_admin_token env] reason"

definition NOT_RECORDED_TEXT :: string where
  "NOT_RECORDED_TEXT = ''The re-arm could not be recorded in the audit history, so it was not applied.''"

definition rearm_submit :: "web_env \<Rightarrow> ('b, 's, 'o, 'x) web_call \<Rightarrow> web_request \<Rightarrow> ('b, 's, 'o, 'x) handler" where
  "rearm_submit env call q = as_role env call True q (\<lambda>role s.
     let form = parse_rearm (ae_lib env) q in
     if rf_errors form \<noteq> [] then (Inr (RearmRefused 422 form (ks_state (cp_kill s))), s)
     else case on_switch (ks_rearm (wc_kill call) role (redacted env (rf_reason form)) (rf_checklist form)) s of
       (Inl (TransitionNotRecorded _), s') \<Rightarrow>
         (Inr (RearmRefused 503 (form\<lparr>rf_errors := [NOT_RECORDED_TEXT]\<rparr>) (ks_state (cp_kill s'))), s')
     | (Inl e, s') \<Rightarrow> (Inl (Crash e), s')
     | (Inr changed, s') \<Rightarrow> (Inr (switch_result ''rearm'' role (ks_state (cp_kill s)) changed s'), s'))"

definition dismiss_submit :: "web_env \<Rightarrow> ('b, 's, 'o, 'x) web_call \<Rightarrow> web_request \<Rightarrow> ('b, 's, 'o, 'x) handler" where
  "dismiss_submit env call q = as_role env call True q (\<lambda>role s.
     case parse_dismiss_through q of
       Inl e \<Rightarrow> (Inl e, s)
     | Inr None \<Rightarrow> (Inl (HttpError 422 ''through must be the number of alerts the page showed''), s)
     | Inr (Some through) \<Rightarrow>
         (case wc_journal call of
            None \<Rightarrow> (Inl (HttpError 503 ''alerts were not dismissed: the event journal is unavailable''), s)
          | Some saves \<Rightarrow>
              (case dismiss_alerts through role (wc_stamp call) saves s of
                 (None, s') \<Rightarrow> (Inl (HttpError 503 ''alerts were not dismissed: the event could not be saved''), s')
               | (Some n, s') \<Rightarrow> (Inr (AlertsDismissed n), s'))))"

fun close_status :: "closure_code \<Rightarrow> nat" where
  "close_status CLOSED = 200"
| "close_status INVALID_ID = 422"
| "close_status ORDER_NOT_FOUND = 404"
| "close_status NOT_UNRESOLVED = 409"
| "close_status VENUE_HAS_ORDER = 409"
| "close_status VENUE_HAS_FILLS = 409"
| "close_status LOOKUP_FAILED = 502"
| "close_status NOT_RECORDED = 503"

definition alert_close :: "('b, 's, 'o, 'x) web_call \<Rightarrow> closure_outcome \<Rightarrow> ('b, 's, 'o, 'x) plane \<Rightarrow> ('b, 's, 'o, 'x) plane" where
  "alert_close call out s =
     (let short = take 8 (co_client_order_id out) in
      if co_code out = CLOSED then emit_alert call ''order_closed_never_received''
        (''An administrator closed pending order '' @ short @ '': the venue had no record of it and no fills. It was not resubmitted. The kill switch is unchanged.'') s
      else emit_alert call ''order_close_refused''
        (''Closing order '' @ short @ '' was refused and nothing changed. '' @ co_detail out) s)"

definition close_submit :: "web_env \<Rightarrow> ('b, 's, 'o, 'x) web_call \<Rightarrow> web_request \<Rightarrow> ('b, 's, 'o, 'x) handler" where
  "close_submit env call q = as_role env call True q (\<lambda>role s.
     let form = parse_close_order (ae_lib env) q; k = cf_client_order_id form in
     if cf_errors form \<noteq> [] then (Inr (CloseAnswered 422 k None (cf_errors form)), s)
     else case wc_engine call of
       None \<Rightarrow> (Inr (CloseAnswered 503 k None [''Closing orders is unavailable: no broker or order store is configured.'']), s)
     | Some eng \<Rightarrow>
         (case close_order (wc_is_uuid call) eng k role (redacted env (cf_reason form)) (cp_engine s) of
            (Inl e, e') \<Rightarrow> (Inl (Crash e), s\<lparr>cp_engine := e'\<rparr>)
          | (Inr out, e') \<Rightarrow>
              let s1 = s\<lparr>cp_engine := e',
                 cp_scheduler := if co_code out = CLOSED then map_option (wc_forget call (co_client_order_id out)) (cp_scheduler s)
                   else cp_scheduler s\<rparr> in
              (Inr (CloseAnswered (close_status (co_code out)) k (Some out) []), alert_close call out s1)))"

definition switch_status :: "web_env \<Rightarrow> ('b, 's, 'o, 'x) web_call \<Rightarrow> web_request \<Rightarrow> ('b, 's, 'o, 'x) handler" where
  "switch_status env call q = as_role env call False q (\<lambda>_ s. (Inr (SwitchState (ks_state (cp_kill s))), s))"

datatype control = Login | Logout | Pause | EmergencyStop | Rearm | DismissAlerts | CloseOrder | SwitchStatus

fun handle :: "web_env \<Rightarrow> ('b, 's, 'o, 'x) web_call \<Rightarrow> control \<Rightarrow> web_request \<Rightarrow> ('b, 's, 'o, 'x) handler" where
  "handle env call Login q = login_submit env call q"
| "handle env call Logout q = logout env call q"
| "handle env call Pause q = tighten_switch env call q ''pause'' PAUSED ''operator pause''"
| "handle env call EmergencyStop q = tighten_switch env call q ''emergency_stop'' HALTED ''operator emergency stop''"
| "handle env call Rearm q = rearm_submit env call q"
| "handle env call DismissAlerts q = dismiss_submit env call q"
| "handle env call CloseOrder q = close_submit env call q"
| "handle env call SwitchStatus q = switch_status env call q"

text \<open>A run of requests, one after the other, over one process.\<close>

fun serve :: "web_env \<Rightarrow> (('b, 's, 'o, 'x) web_call \<times> control \<times> web_request) list \<Rightarrow> ('b, 's, 'o, 'x) plane \<Rightarrow> ('b, 's, 'o, 'x) plane" where
  "serve env [] s = s"
| "serve env ((call, c, q) # rest) s = serve env rest (snd (handle env call c q s))"

lemma serve_append: "serve env (xs @ ys) s = serve env ys (serve env xs s)"
  by (induction env xs s rule: serve.induct) simp_all

section \<open>Who may do what\<close>

lemma rbind_Inr: "rbind r f = Inr y \<longleftrightarrow> (\<exists>x. r = Inr x \<and> f x = Inr y)"
  by (cases r) (simp_all add: rbind_def)

text \<open>
  What a role stands on: the token of the request header, or a cookie with a role, a time not further
  away than the lifetime of a session, and a signature under the operator's token, that was not signed
  out.
\<close>

definition token_grants :: "web_env \<Rightarrow> string \<Rightarrow> string \<Rightarrow> bool" where
  "token_grants env supplied role \<longleftrightarrow> supplied \<noteq> [] \<and>
     (supplied = ae_admin_token env \<and> role = ''admin'' \<or>
      supplied = ae_token env \<and> role = (if ae_admin_token env = [] then ''admin'' else ''operator''))"

definition cookie_grants :: "web_env \<Rightarrow> rat \<Rightarrow> string option \<Rightarrow> string \<Rightarrow> string \<Rightarrow> bool" where
  "cookie_grants env now cookie role nonce \<longleftrightarrow> (\<exists>issued issued_at.
     cookie \<noteq> None \<and>
     split_dot 3 (the cookie) = [role, issued, nonce, ae_mac env (ae_token env) (dotted role (dotted issued nonce))] \<and>
     role \<in> {''operator'', ''admin''} \<and> ae_int env issued = Some issued_at \<and> \<bar>now - of_int issued_at\<bar> \<le> of_int SESSION_TTL)"

lemma role_for_token_grants: "role_for_token env supplied = Inr (Some role) \<Longrightarrow> token_grants env supplied role"
  by (auto simp: role_for_token_def rbind_Inr same_token_def compare_digest_def token_grants_def split: if_splits)

lemma session_grants:
  assumes "session_from_cookie env now cookie = Inr (Some x)"
  shows "cookie_grants env now cookie (ss_role x) (ss_nonce x)"
  using assms
  by (auto simp: session_from_cookie_def cookie_grants_def rbind_Inr sign_text_def compare_digest_def ROLES_def
      split: option.splits list.splits if_splits)

lemma authorize_cookie:
  assumes "authorize env now revoked admin q = Inr role" "rq_header_token q = []"
  shows "\<exists>x. session_from_cookie env now (rq_cookie q) = Inr (Some x) \<and> ss_role x = role \<and> ss_nonce x \<notin> fst ` set revoked"
proof (cases "session_from_cookie env now (rq_cookie q)")
  case (Inr session)
  then show ?thesis using assms by (cases session) (auto simp: authorize_def rbind_def split: if_splits)
qed (use assms in \<open>simp add: authorize_def rbind_def split: if_splits\<close>)

lemma authorize_token:
  assumes "authorize env now revoked admin q = Inr role" "rq_header_token q \<noteq> []"
  shows "role_for_token env (rq_header_token q) = Inr (Some role)"
  using assms by (auto simp: authorize_def rbind_Inr split: if_splits option.splits)

lemma authorize_grants:
  assumes "authorize env now revoked admin q = Inr role"
  shows "\<not> rq_query_token q" "admin \<Longrightarrow> role = ''admin''"
    "if rq_header_token q \<noteq> [] then token_grants env (rq_header_token q) role
     else \<exists>nonce. cookie_grants env now (rq_cookie q) role nonce \<and> nonce \<notin> fst ` set revoked"
proof -
  show "\<not> rq_query_token q" "admin \<Longrightarrow> role = ''admin''"
    using assms by (auto simp: authorize_def rbind_Inr split: if_splits option.splits)
  show "if rq_header_token q \<noteq> [] then token_grants env (rq_header_token q) role
     else \<exists>nonce. cookie_grants env now (rq_cookie q) role nonce \<and> nonce \<notin> fst ` set revoked"
    using authorize_token[OF assms] authorize_cookie[OF assms] role_for_token_grants session_grants by fastforce
qed

lemma as_role_grants:
  assumes "snd (as_role env call admin q body s) \<noteq> s"
  obtains role where "authorize env (wc_now call) (cp_revoked s) admin q = Inr role"
    "as_role env call admin q body s = body role s"
  using assms by (auto simp: as_role_def split: sum.splits)

section \<open>What a handler leaves alone\<close>

lemma on_switch_frame [simp]:
  "cp_revoked (snd (on_switch m s)) = cp_revoked s" "cp_alerts (snd (on_switch m s)) = cp_alerts s"
  "cp_engine (snd (on_switch m s)) = cp_engine s" "cp_kill (snd (on_switch m s)) = snd (m (cp_kill s))"
  by (auto simp: on_switch_def split: prod.splits)

lemma alert_close_frame [simp]:
  "cp_kill (alert_close call out s) = cp_kill s" "cp_revoked (alert_close call out s) = cp_revoked s"
  "cp_engine (alert_close call out s) = cp_engine s"
  by (simp_all add: alert_close_def emit_alert_def Let_def)

lemma dismiss_frame [simp]:
  "cp_kill (snd (dismiss_alerts n a t ok s)) = cp_kill s" "cp_revoked (snd (dismiss_alerts n a t ok s)) = cp_revoked s"
  "cp_engine (snd (dismiss_alerts n a t ok s)) = cp_engine s"
  by (simp_all add: dismiss_alerts_def Let_def)

lemma as_role_keeps: "(\<And>role. f (snd (body role s)) = f s) \<Longrightarrow> f (snd (as_role env call admin q body s)) = f s"
  by (simp add: as_role_def split: sum.split)

lemma tighten_snd: "snd (tighten_switch env call q action target reason s) =
    (case authorize env (wc_now call) (cp_revoked s) False q of Inl _ \<Rightarrow> s
     | Inr role \<Rightarrow> snd (on_switch (ks_tighten (wc_kill call) target reason (Some role)) s))"
  by (auto simp: tighten_switch_def as_role_def split: sum.split prod.split)

lemma rearm_snd: "snd (rearm_submit env call q s) =
    (case authorize env (wc_now call) (cp_revoked s) True q of Inl _ \<Rightarrow> s
     | Inr role \<Rightarrow> (let form = parse_rearm (ae_lib env) q in
         if rf_errors form \<noteq> [] then s
         else snd (on_switch (ks_rearm (wc_kill call) role (redacted env (rf_reason form)) (rf_checklist form)) s)))"
  by (auto simp: rearm_submit_def as_role_def Let_def split: sum.split prod.split exn.split)

lemma close_snd: "snd (close_submit env call q s) = s \<or> (\<exists>role eng res e'.
    authorize env (wc_now call) (cp_revoked s) True q = Inr role \<and> wc_engine call = Some eng \<and>
    cf_errors (parse_close_order (ae_lib env) q) = [] \<and>
    close_order (wc_is_uuid call) eng (cf_client_order_id (parse_close_order (ae_lib env) q)) role
      (redacted env (cf_reason (parse_close_order (ae_lib env) q))) (cp_engine s) = (res, e') \<and>
    cp_engine (snd (close_submit env call q s)) = e' \<and> cp_kill (snd (close_submit env call q s)) = cp_kill s \<and>
    cp_revoked (snd (close_submit env call q s)) = cp_revoked s)"
proof (cases "authorize env (wc_now call) (cp_revoked s) True q")
  case (Inr role)
  show ?thesis
  proof (cases "cf_errors (parse_close_order (ae_lib env) q) \<noteq> [] \<or> wc_engine call = None")
    case True
    then show ?thesis using Inr by (auto simp: close_submit_def as_role_def Let_def)
  next
    case False
    then obtain eng where eng: "wc_engine call = Some eng" "cf_errors (parse_close_order (ae_lib env) q) = []" by auto
    obtain res e' where run: "close_order (wc_is_uuid call) eng (cf_client_order_id (parse_close_order (ae_lib env) q)) role
      (redacted env (cf_reason (parse_close_order (ae_lib env) q))) (cp_engine s) = (res, e')" by force
    then show ?thesis using Inr eng by (cases res) (auto simp: close_submit_def as_role_def Let_def)
  qed
qed (simp add: close_submit_def as_role_def)

section \<open>Lowering the kill switch\<close>

definition lowers :: "kill_switch \<Rightarrow> kill_switch \<Rightarrow> bool" where
  "lowers s t \<longleftrightarrow> severity (ks_state t) < severity (ks_state s)"

lemma tighten_never_lowers: "\<not> lowers s (snd (ks_tighten env st reason actor s))"
  using ks_call_mono[of "Call_tighten st reason actor" s "\<lambda>_. env"] by (simp add: lowers_def)

text \<open>A re-arm that lowers the switch has been saved in its journal, event ID and all.\<close>

lemma rearm_lowers:
  assumes "lowers s (snd (ks_rearm env actor reason checklist s))"
  shows "\<exists>j'. ks_journal (snd (ks_rearm env actor reason checklist s)) = Some j' \<and> env_event_id env \<in> ev_id ` set j' \<and>
    (fresh_id (env_event_id env) s \<longrightarrow> rearm_event env actor reason checklist s \<in> set j')"
proof -
  have high: "ks_state s \<noteq> RUNNING" using assms by (auto simp: lowers_def)
  obtain j where j: "ks_journal s = Some j"
    using assms by (cases "ks_journal s") (auto simp: lowers_def ks_rearm_def)
  let ?ev = "rearm_event env actor reason checklist s"
  let ?new = "filter (\<lambda>e. ev_id e \<notin> ev_id ` set j) (ks_unrecorded s @ [?ev])"
  have id: "ev_id ?ev = env_event_id env" by (simp add: rearm_event_def)
  have saved: "env_journal_ok env \<and> distinct (map ev_id ?new)"
    using assms unfolding lowers_def rearm_unfold[OF j high]
    by (auto simp: abind_def ks_record_def ks_flush_def journal_record_def j Let_def split: if_splits)
  then have "ks_journal (snd (ks_rearm env actor reason checklist s)) = Some (j @ ?new)"
    unfolding rearm_unfold[OF j high]
    by (auto simp: abind_def ks_record_def ks_flush_def journal_record_def j Let_def ks_persist_def)
  moreover have "env_event_id env \<in> ev_id ` set (j @ ?new)" using id by force
  moreover have "?ev \<in> set (j @ ?new)" if "fresh_id (env_event_id env) s"
    using that id j by (auto simp: ks_known_def)
  ultimately show ?thesis by blast
qed

lemma complete_form:
  assumes "rf_errors (parse_rearm lib q) = []"
  shows "set REARM_CHECKLIST \<subseteq> set (rf_checklist (parse_rearm lib q))"
    "py_strip (rf_reason (parse_rearm lib q)) \<noteq> []" "length (rf_reason (parse_rearm lib q)) \<le> 500"
  using assms
  by (auto simp: parse_rearm_def checked_rearm_def Let_def text_errors_def missing_items_def REASON_LIMIT_def filter_empty_conv
      split: if_splits option.splits json.splits)

lemma other_handlers_keep_kill:
  "c \<notin> {Pause, EmergencyStop, Rearm} \<Longrightarrow> cp_kill (snd (handle env call c q s)) = cp_kill s"
proof (cases c)
  case Logout
  then show ?thesis by (auto simp: logout_def split: sum.split option.split)
next
  case DismissAlerts
  have "cp_kill (snd (dismiss_submit env call q s)) = cp_kill s"
    unfolding dismiss_submit_def
    by (rule as_role_keeps) (auto split: sum.split option.split prod.splits intro: dismiss_frame(1)[THEN trans] simp: dismiss_alerts_def Let_def)
  then show ?thesis using DismissAlerts by simp
next
  case CloseOrder
  then show ?thesis using close_snd[of env call q s] by auto
next
  case SwitchStatus
  then show ?thesis by (simp add: switch_status_def as_role_def split: sum.split)
qed (simp_all add: login_submit_def)

lemma handle_lowers:
  assumes "lowers (cp_kill s) (cp_kill (snd (handle env call c q s)))"
  shows "c = Rearm \<and> authorize env (wc_now call) (cp_revoked s) True q = Inr ''admin'' \<and>
    rf_errors (parse_rearm (ae_lib env) q) = [] \<and>
    (\<exists>j. ks_journal (cp_kill (snd (handle env call c q s))) = Some j \<and>
      (fresh_id (env_event_id (wc_kill call)) (cp_kill s) \<longrightarrow>
        rearm_event (wc_kill call) ''admin'' (redacted env (rf_reason (parse_rearm (ae_lib env) q)))
          (rf_checklist (parse_rearm (ae_lib env) q)) (cp_kill s) \<in> set j))"
proof (cases "c = Rearm")
  case True
  have out: "lowers (cp_kill s) (cp_kill (snd (rearm_submit env call q s)))" using assms True by simp
  then obtain role where role: "authorize env (wc_now call) (cp_revoked s) True q = Inr role"
    by (auto simp: rearm_snd lowers_def split: sum.splits)
  then have admin: "role = ''admin''" by (rule authorize_grants(2)) simp
  have form: "rf_errors (parse_rearm (ae_lib env) q) = []"
    using out role by (auto simp: rearm_snd lowers_def Let_def split: if_splits)
  then have switched: "cp_kill (snd (rearm_submit env call q s)) = snd (ks_rearm (wc_kill call) ''admin''
      (redacted env (rf_reason (parse_rearm (ae_lib env) q))) (rf_checklist (parse_rearm (ae_lib env) q)) (cp_kill s))"
    using role admin by (simp add: rearm_snd Let_def)
  from rearm_lowers[OF out[unfolded switched]] show ?thesis using True role admin form switched by auto
next
  case False
  have "\<not> lowers (cp_kill s) (cp_kill (snd (handle env call c q s)))"
  proof (cases "c \<in> {Pause, EmergencyStop}")
    case True
    then show ?thesis using tighten_never_lowers by (auto simp: tighten_snd lowers_def split: sum.splits)
  next
    case other: False
    then show ?thesis using False other_handlers_keep_kill[of c env call q s] by (simp add: lowers_def)
  qed
  then show ?thesis using assms by simp
qed

text \<open>
  C2. Whatever requests the control surface serves, with whatever outcomes of the disk, the journal, the
  venue and the alert destinations: if the kill switch ends below where it started, one of the requests
  was a re-arm with the credentials of an administrator, with every item of the checklist ticked and a
  reason of one to 500 characters, and when it returned the journal held the event with that checklist
  and the redacted reason.
\<close>

theorem only_an_administrator_lowers_the_switch:
  assumes "lowers (cp_kill s) (cp_kill (serve env calls s))"
  shows "\<exists>before call q after s1 t j. calls = before @ (call, Rearm, q) # after \<and>
    s1 = serve env before s \<and> t = snd (handle env call Rearm q s1) \<and> \<not> rq_query_token q \<and>
    (if rq_header_token q \<noteq> [] then token_grants env (rq_header_token q) ''admin''
     else \<exists>nonce. cookie_grants env (wc_now call) (rq_cookie q) ''admin'' nonce \<and> nonce \<notin> fst ` set (cp_revoked s1)) \<and>
    set REARM_CHECKLIST \<subseteq> set (rf_checklist (parse_rearm (ae_lib env) q)) \<and>
    py_strip (rf_reason (parse_rearm (ae_lib env) q)) \<noteq> [] \<and> length (rf_reason (parse_rearm (ae_lib env) q)) \<le> 500 \<and>
    ks_journal (cp_kill t) = Some j \<and>
    (fresh_id (env_event_id (wc_kill call)) (cp_kill s1) \<longrightarrow>
      rearm_event (wc_kill call) ''admin'' (redacted env (rf_reason (parse_rearm (ae_lib env) q)))
        (rf_checklist (parse_rearm (ae_lib env) q)) (cp_kill s1) \<in> set j)"
proof -
  have "\<exists>before call c q after. calls = before @ (call, c, q) # after \<and>
      lowers (cp_kill (serve env before s)) (cp_kill (snd (handle env call c q (serve env before s))))"
    using assms
  proof (induction calls rule: rev_induct)
    case (snoc x calls)
    obtain call c q where x: "x = (call, c, q)" by (cases x)
    show ?case
    proof (cases "lowers (cp_kill s) (cp_kill (serve env calls s))")
      case True
      from snoc.IH[OF this] obtain before call' c' q' after where "calls = before @ (call', c', q') # after"
        "lowers (cp_kill (serve env before s)) (cp_kill (snd (handle env call' c' q' (serve env before s))))" by blast
      then show ?thesis by (intro exI[of _ before] exI[of _ call'] exI[of _ c'] exI[of _ q'] exI[of _ "after @ [x]"]) simp
    next
      case False
      then have "lowers (cp_kill (serve env calls s)) (cp_kill (snd (handle env call c q (serve env calls s))))"
        using snoc.prems by (simp add: serve_append x lowers_def)
      then show ?thesis using x by blast
    qed
  qed (simp add: lowers_def)
  then obtain before call c q after where split: "calls = before @ (call, c, q) # after"
    "lowers (cp_kill (serve env before s)) (cp_kill (snd (handle env call c q (serve env before s))))" by blast
  let ?s1 = "serve env before s"
  from handle_lowers[OF split(2)] obtain j where facts: "c = Rearm"
    "authorize env (wc_now call) (cp_revoked ?s1) True q = Inr ''admin''" "rf_errors (parse_rearm (ae_lib env) q) = []"
    "ks_journal (cp_kill (snd (handle env call Rearm q ?s1))) = Some j"
    "fresh_id (env_event_id (wc_kill call)) (cp_kill ?s1) \<longrightarrow>
        rearm_event (wc_kill call) ''admin'' (redacted env (rf_reason (parse_rearm (ae_lib env) q)))
          (rf_checklist (parse_rearm (ae_lib env) q)) (cp_kill ?s1) \<in> set j" by auto
  show ?thesis
    using split(1) facts authorize_grants(1,3)[OF facts(2)] complete_form[OF facts(3)] by blast
qed

section \<open>Signing out\<close>

text \<open>A session that was signed out stays refused: it is listed, or it has expired, which lasts.\<close>

definition shut_out :: "string \<Rightarrow> int \<Rightarrow> rat \<Rightarrow> (string, int) dict \<Rightarrow> bool" where
  "shut_out nonce expires now revoked \<longleftrightarrow> distinct_keys revoked \<and>
     (nonce \<in> fst ` set revoked \<or> of_int expires < now) \<and> (\<forall>t. (nonce, t) \<in> set revoked \<longrightarrow> expires \<le> t)"

lemma set_update:
  assumes "distinct_keys al"
  shows "(a, t) \<in> set (AList.update k v al) \<longleftrightarrow> (if a = k then t = v else (a, t) \<in> set al)"
proof -
  have "distinct_keys (AList.update k v al)" using assms by (rule distinct_update)
  then have "(a, t) \<in> set (AList.update k v al) \<longleftrightarrow> map_of (AList.update k v al) a = Some t" by (rule map_of_eq_Some_iff[symmetric])
  then show ?thesis using assms by (auto simp: update_conv')
qed

lemma revoke_entries:
  assumes "distinct_keys revoked"
  shows "(a, t) \<in> set (revoke now x revoked) \<longleftrightarrow>
      (if a = ss_nonce x then t = ss_expires_at x else (a, t) \<in> set revoked \<and> now \<le> of_int t)"
    and "distinct_keys (revoke now x revoked)"
proof -
  have keys: "distinct_keys (filter (\<lambda>(_, expires). \<not> of_int expires < now) revoked)" using assms by (rule distinct_map_filter)
  show "(a, t) \<in> set (revoke now x revoked) \<longleftrightarrow>
      (if a = ss_nonce x then t = ss_expires_at x else (a, t) \<in> set revoked \<and> now \<le> of_int t)"
    by (auto simp: revoke_def set_update[OF keys])
  show "distinct_keys (revoke now x revoked)" unfolding revoke_def using keys by (rule distinct_update)
qed

lemma shut_out_start:
  assumes "distinct_keys revoked"
  shows "shut_out (ss_nonce x) (ss_expires_at x) now (revoke now x revoked)"
  using revoke_entries(1)[OF assms, where a = "ss_nonce x" and x = x] revoke_entries(2)[OF assms] by (force simp: shut_out_def)

lemma shut_out_revoke:
  assumes "shut_out nonce expires now revoked" "now \<le> now'" "ss_nonce x = nonce \<Longrightarrow> ss_expires_at x = expires"
  shows "shut_out nonce expires now' (revoke now' x revoked)"
proof -
  have keys: "distinct_keys revoked" using assms(1) by (simp add: shut_out_def)
  consider t where "(nonce, t) \<in> set revoked" "expires \<le> t" | "of_int expires < now"
    using assms(1) by (force simp: shut_out_def)
  then have "nonce \<in> fst ` set (revoke now' x revoked) \<or> of_int expires < now'"
  proof cases
    case 1
    show ?thesis
    proof (cases "nonce = ss_nonce x \<or> now' \<le> of_int t")
      case True
      then have "\<exists>u. (nonce, u) \<in> set (revoke now' x revoked)" using 1 by (auto simp: revoke_entries[OF keys])
      then show ?thesis by force
    next
      case False
      then have "of_int t < now'" by simp
      moreover have "(of_int expires :: rat) \<le> of_int t" using 1(2) by simp
      ultimately show ?thesis by linarith
    qed
  qed (use assms(2) in linarith)
  then show ?thesis using assms(1,3) by (auto simp: shut_out_def revoke_entries[OF keys])
qed

lemma shut_out_later: "shut_out nonce expires now revoked \<Longrightarrow> now \<le> now' \<Longrightarrow> shut_out nonce expires now' revoked"
  by (auto simp: shut_out_def)

lemma handle_revoked:
  "cp_revoked (snd (handle env call c q s)) = cp_revoked s \<or>
   (\<exists>x. session_from_cookie env (wc_now call) (rq_cookie q) = Inr (Some x) \<and>
      cp_revoked (snd (handle env call c q s)) = revoke (wc_now call) x (cp_revoked s))"
proof (cases c)
  case Logout
  then show ?thesis by (auto simp: logout_def split: sum.split option.split)
next
  case DismissAlerts
  have "cp_revoked (snd (dismiss_submit env call q s)) = cp_revoked s"
    unfolding dismiss_submit_def
    by (rule as_role_keeps) (auto split: sum.split option.split prod.splits simp: dismiss_alerts_def Let_def)
  then show ?thesis using DismissAlerts by simp
next
  case CloseOrder
  then show ?thesis using close_snd[of env call q s] by auto
qed (auto simp: login_submit_def switch_status_def tighten_snd rearm_snd as_role_def Let_def split: sum.split)

lemma serve_shut_out:
  assumes "shut_out nonce expires now (cp_revoked s)" "sorted (now # map (\<lambda>(call, _). wc_now call) calls)"
    "\<And>call c q x. (call, c, q) \<in> set calls \<Longrightarrow> session_from_cookie env (wc_now call) (rq_cookie q) = Inr (Some x) \<Longrightarrow>
      ss_nonce x = nonce \<Longrightarrow> ss_expires_at x = expires"
    "\<And>call c q. (call, c, q) \<in> set calls \<Longrightarrow> wc_now call \<le> later" "now \<le> later"
  shows "shut_out nonce expires later (cp_revoked (serve env calls s))"
  using assms
proof (induction calls arbitrary: now s)
  case Nil
  then show ?case by (auto intro: shut_out_later)
next
  case (Cons step calls)
  obtain call c q where step: "step = (call, c, q)" by (cases step)
  have le: "now \<le> wc_now call" using Cons.prems(2) step by simp
  have "shut_out nonce expires (wc_now call) (cp_revoked (snd (handle env call c q s)))"
    using handle_revoked[of env call c q s] shut_out_revoke[OF Cons.prems(1) le] shut_out_later[OF Cons.prems(1) le]
      Cons.prems(3)[of call c q] step by fastforce
  from Cons.IH[OF this] show ?case using Cons.prems step by fastforce
qed

lemma same_cookie_later:
  assumes "session_from_cookie env now cookie = Inr (Some x)"
  shows "session_from_cookie env now' cookie = Inr None \<or>
    session_from_cookie env now' cookie = Inr (Some x) \<and> now' \<le> of_int (ss_expires_at x)"
  using assms
  by (auto simp: session_from_cookie_def rbind_def abs_le_iff not_less algebra_simps
      split: option.splits list.splits if_splits sum.splits)

lemma no_session_refused:
  assumes "rq_header_token q = []" "session_from_cookie env now (rq_cookie q) = Inr r"
    "case r of None \<Rightarrow> True | Some x \<Rightarrow> ss_nonce x \<in> fst ` set revoked"
  shows "\<exists>code detail. code \<in> {400, 401, 503} \<and> (\<forall>admin. authorize env now revoked admin q = Inl (HttpError code detail))"
  using assms by (cases r; cases "ae_token env = []"; cases "rq_query_token q") (simp_all add: authorize_def rbind_def)

lemma handle_refused:
  assumes "\<forall>admin. authorize env (wc_now call) (cp_revoked s) admin q = Inl e" "c \<notin> {Login, Logout}"
  shows "handle env call c q s = (Inl e, s)"
  using assms
  by (cases c) (simp_all add: tighten_switch_def rearm_submit_def dismiss_submit_def close_submit_def switch_status_def as_role_def)

text \<open>
  C11. A session that was signed out is refused from then on: whatever the process serves in between, the same
  cookie gives no role, and a request that carries it and no token changes nothing. The clock is assumed
  not to step back, and the random text of the session to belong to no session of another lifetime.
\<close>

theorem signed_out_session_is_refused:
  assumes "session_from_cookie env (wc_now call) (rq_cookie q) = Inr (Some x)" "distinct_keys (cp_revoked s)"
    "sorted (map (\<lambda>(call, _). wc_now call) ((call, Logout, q) # calls @ [(call', c, q')]))"
    "\<And>call c q y. (call, c, q) \<in> set calls \<Longrightarrow> session_from_cookie env (wc_now call) (rq_cookie q) = Inr (Some y) \<Longrightarrow>
      ss_nonce y = ss_nonce x \<Longrightarrow> ss_expires_at y = ss_expires_at x"
    "rq_cookie q' = rq_cookie q" "rq_header_token q' = []" "c \<notin> {Login, Logout}"
  shows "\<exists>code detail. code \<in> {400, 401, 503} \<and>
    handle env call' c q' (serve env ((call, Logout, q) # calls) s) =
      (Inl (HttpError code detail), serve env ((call, Logout, q) # calls) s)"
proof -
  let ?s1 = "snd (handle env call Logout q s)" and ?s = "serve env ((call, Logout, q) # calls) s"
  have first: "cp_revoked ?s1 = revoke (wc_now call) x (cp_revoked s)" using assms(1) by (simp add: logout_def)
  have order: "sorted (wc_now call # map (\<lambda>(call, _). wc_now call) calls)" "wc_now call \<le> wc_now call'"
    "\<And>cl d r. (cl, d, r) \<in> set calls \<Longrightarrow> wc_now cl \<le> wc_now call'"
    using assms(3) by (auto simp: sorted_append)
  have "shut_out (ss_nonce x) (ss_expires_at x) (wc_now call) (cp_revoked ?s1)"
    unfolding first by (rule shut_out_start) (rule assms(2))
  from serve_shut_out[OF this order(1) assms(4) order(3) order(2)]
  have out: "shut_out (ss_nonce x) (ss_expires_at x) (wc_now call') (cp_revoked ?s)" by simp
  have "session_from_cookie env (wc_now call') (rq_cookie q') = Inr None \<or>
      session_from_cookie env (wc_now call') (rq_cookie q') = Inr (Some x) \<and> wc_now call' \<le> of_int (ss_expires_at x)"
    using same_cookie_later[OF assms(1)] unfolding assms(5) .
  then have "\<exists>code detail. code \<in> {400, 401, 503} \<and>
      (\<forall>admin. authorize env (wc_now call') (cp_revoked ?s) admin q' = Inl (HttpError code detail))"
    using out by (elim disjE conjE; intro no_session_refused[OF assms(6)]) (force simp: shut_out_def)+
  then show ?thesis using assms(7) handle_refused by metis
qed

section \<open>Signing in\<close>

lemma split_dotted: "CHR ''.'' \<notin> set a \<Longrightarrow> split_dot (Suc n) (dotted a b) = a # split_dot n b"
proof -
  assume "CHR ''.'' \<notin> set a"
  then have "takeWhile (\<lambda>c. c \<noteq> CHR ''.'') (dotted a b) = a"
    by (auto simp: dotted_def takeWhile_append takeWhile_eq_all_conv)
  then show ?thesis by (simp add: dotted_def Let_def split_dot.simps)
qed

lemma nat_str_dotless: "CHR ''.'' \<notin> set (nat_str n)"
proof (induction n rule: nat_str.induct)
  case (1 n)
  have dot: "CHR ''.'' \<noteq> digit_char k" for k
  proof -
    have "digit_char k \<in> set ''0123456789''" unfolding digit_char_def by (rule nth_mem) simp
    then show ?thesis by auto
  qed
  show ?case using 1 dot[of n] by (subst nat_str.simps) auto
qed

lemma role_without_dot: "role \<in> set ROLES \<Longrightarrow> CHR ''.'' \<notin> set role"
  by (auto simp: ROLES_def)

lemma cookie_read_back:
  assumes "session_cookie env start nonce role = Inr cookie" "role \<in> set ROLES" "CHR ''.'' \<notin> set nonce" "0 \<le> start"
    "\<And>n. ae_int env (nat_str n) = Some (int n)" "\<And>k m. py_ascii (ae_mac env k m)"
  shows "session_from_cookie env now (Some cookie) =
    Inr (if \<bar>now - of_int \<lfloor>start\<rfloor>\<bar> \<le> of_int SESSION_TTL
      then Some \<lparr>ss_role = role, ss_nonce = nonce, ss_expires_at = \<lfloor>start\<rfloor> + SESSION_TTL\<rparr> else None)"
proof -
  let ?issued = "nat_str (nat \<lfloor>start\<rfloor>)" and ?message = "dotted role (dotted (nat_str (nat \<lfloor>start\<rfloor>)) nonce)"
  have signed: "py_ascii ?message" "cookie = dotted ?message (ae_mac env (ae_token env) ?message)"
    using assms(1) by (auto simp: session_cookie_def Let_def rbind_Inr sign_text_def split: if_splits)
  have "cookie = dotted role (dotted ?issued (dotted nonce (ae_mac env (ae_token env) ?message)))"
    unfolding signed(2) by (simp add: dotted_def)
  then have parts: "split_dot 3 cookie = [role, ?issued, nonce, ae_mac env (ae_token env) ?message]"
    using role_without_dot[OF assms(2)] nat_str_dotless assms(3) by (simp add: split_dotted numeral_3_eq_3 split_dot.simps(1))
  have "ae_int env ?issued = Some \<lfloor>start\<rfloor>" using assms(4,5) by simp
  then show ?thesis
    unfolding session_from_cookie_def option.case parts
    using signed(1) assms(2,6) by (simp add: sign_text_def compare_digest_def rbind_def not_less[symmetric])
qed

lemma role_of_token: "token_grants env supplied role \<Longrightarrow> role \<in> set ROLES"
  by (auto simp: token_grants_def ROLES_def split: if_splits)

text \<open>
  A sign-in gives the role of the token it was sent, changes nothing in the process, and its cookie is
  read back as exactly that role for eight hours on either side of the second it was issued in, and as
  nothing at any other time. The random text has no dot, the hash is printed in ASCII, and Python reads
  back the digits it prints.
\<close>

theorem sign_in_lasts_eight_hours:
  assumes "login_submit env call q s = (Inr (SignedIn role cookie), s')" "CHR ''.'' \<notin> set (wc_nonce call)" "0 \<le> wc_now call"
    "\<And>n. ae_int env (nat_str n) = Some (int n)" "\<And>k m. py_ascii (ae_mac env k m)"
  shows "s' = s \<and> token_grants env (case_option '''' id (form_first (rq_form q) ''token'')) role \<and>
    session_from_cookie env now (Some cookie) =
      Inr (if \<bar>now - of_int \<lfloor>wc_now call\<rfloor>\<bar> \<le> 28800
        then Some \<lparr>ss_role = role, ss_nonce = wc_nonce call, ss_expires_at = \<lfloor>wc_now call\<rfloor> + 28800\<rparr> else None)"
proof -
  have facts: "s' = s" "role_for_token env (case_option '''' id (form_first (rq_form q) ''token'')) = Inr (Some role)"
    "session_cookie env (wc_now call) (wc_nonce call) role = Inr cookie"
    using assms(1) by (auto simp: login_submit_def rbind_Inr split: if_splits option.splits)
  note grants = role_for_token_grants[OF facts(2)]
  from cookie_read_back[OF facts(3) role_of_token[OF grants] assms(2-5)] facts(1) grants
  show ?thesis by (simp add: SESSION_TTL_def)
qed

section \<open>Alerts\<close>

definition accounted :: "('b, 's, 'o, 'x) plane \<Rightarrow> bool" where
  "accounted s \<longleftrightarrow> sum_list (map dm_count (cp_dismissals s)) = length (filter (\<lambda>a. \<not> unread a) (cp_alerts s))"

definition grown :: "('b, 's, 'o, 'x) plane \<Rightarrow> ('b, 's, 'o, 'x) plane \<Rightarrow> bool" where
  "grown s t \<longleftrightarrow> (\<exists>new. map alert.truncate (cp_alerts t) = map alert.truncate (cp_alerts s) @ new)"

lemma mark_read_facts:
  "alert.truncate (mark_read stamp actor a) = alert.truncate a" "\<not> unread (mark_read stamp actor a)"
  by (simp_all add: mark_read_def unread_def alert.truncate_def)

lemma marked_read: "filter (\<lambda>a. \<not> unread a) (map (mark_read stamp actor) as) = map (mark_read stamp actor) as"
  by (induction as) (simp_all add: mark_read_facts)

lemma grown_refl [simp]: "grown s s"
  by (simp add: grown_def)

lemma grown_trans: "grown s t \<Longrightarrow> grown t u \<Longrightarrow> grown s u"
  by (auto simp: grown_def)

lemma dismiss_accounts:
  assumes "accounted s"
  shows "accounted (snd (dismiss_alerts through actor stamp saves s)) \<and> grown s (snd (dismiss_alerts through actor stamp saves s))"
proof (cases "filter unread (take (nat (max through 0)) (cp_alerts s)) = [] \<or> \<not> saves")
  case True
  then have "snd (dismiss_alerts through actor stamp saves s) = s" unfolding dismiss_alerts_def Let_def by auto
  then show ?thesis using assms by simp
next
  case False
  define covered where "covered = take (nat (max through 0)) (cp_alerts s)"
  define rest where "rest = drop (length covered) (cp_alerts s)"
  let ?t = "snd (dismiss_alerts through actor stamp saves s)"
  have whole: "cp_alerts s = covered @ rest"
    by (cases "nat (max through 0) \<le> length (cp_alerts s)") (simp_all add: covered_def rest_def min_def)
  have t: "cp_alerts ?t = map (mark_read stamp actor) covered @ rest"
    "map dm_count (cp_dismissals ?t) = map dm_count (cp_dismissals s) @ [length (filter unread covered)]"
    using False unfolding dismiss_alerts_def Let_def covered_def[symmetric] rest_def by simp_all
  have "length (filter unread covered) + length (filter (\<lambda>a. \<not> unread a) covered) = length covered"
    by (rule sum_length_filter_compl)
  then have "accounted ?t" using assms unfolding accounted_def t whole by (simp add: marked_read)
  moreover have "map alert.truncate (cp_alerts ?t) = map alert.truncate (cp_alerts s)"
    unfolding t whole by (simp add: mark_read_facts comp_def)
  ultimately show ?thesis by (simp add: grown_def)
qed

lemma alert_close_grows: "accounted s \<Longrightarrow> accounted (alert_close call out s) \<and> grown s (alert_close call out s)"
  by (simp add: alert_close_def emit_alert_def Let_def accounted_def grown_def unread_def)

lemma same_alerts:
  "accounted s \<Longrightarrow> cp_alerts t = cp_alerts s \<Longrightarrow> cp_dismissals t = cp_dismissals s \<Longrightarrow> accounted t \<and> grown s t"
  by (simp add: accounted_def grown_def)

lemma on_switch_dismissals [simp]: "cp_dismissals (snd (on_switch m s)) = cp_dismissals s"
  by (auto simp: on_switch_def split: prod.splits)

lemma as_role_accounts:
  assumes "\<And>role. accounted (snd (body role s)) \<and> grown s (snd (body role s))" "accounted s"
  shows "accounted (snd (as_role env call admin q body s)) \<and> grown s (snd (as_role env call admin q body s))"
  using assms by (simp add: as_role_def split: sum.split)

lemma close_accounts:
  assumes "accounted s"
  shows "accounted (snd (close_submit env call q s)) \<and> grown s (snd (close_submit env call q s))"
proof -
  have after: "accounted (alert_close call out (s\<lparr>cp_engine := e, cp_scheduler := x\<rparr>)) \<and>
      grown s (alert_close call out (s\<lparr>cp_engine := e, cp_scheduler := x\<rparr>))" for out e x
    using alert_close_grows[of "s\<lparr>cp_engine := e, cp_scheduler := x\<rparr>" call out] assms
    by (simp add: accounted_def grown_def)
  have raised: "accounted (s\<lparr>cp_engine := e\<rparr>) \<and> grown s (s\<lparr>cp_engine := e\<rparr>)" for e
    using assms by (simp add: accounted_def grown_def)
  show ?thesis
    unfolding close_submit_def Let_def
    by (rule as_role_accounts[OF _ assms]) (use assms after raised in \<open>simp split: option.split prod.split sum.split\<close>)
qed

lemma handle_accounts:
  assumes "accounted s"
  shows "accounted (snd (handle env call c q s)) \<and> grown s (snd (handle env call c q s))"
proof (cases c)
  case DismissAlerts
  have after: "accounted t \<and> grown s t" if "dismiss_alerts n a stamp ok s = (r, t)" for n a stamp ok r t
    using dismiss_accounts[OF assms, of n a stamp ok] that by simp
  have "accounted (snd (dismiss_submit env call q s)) \<and> grown s (snd (dismiss_submit env call q s))"
    unfolding dismiss_submit_def
    by (rule as_role_accounts[OF _ assms]) (use assms in \<open>auto dest: after split: sum.split option.split prod.split\<close>)
  then show ?thesis using DismissAlerts by simp
next
  case CloseOrder
  then show ?thesis using close_accounts[OF assms] by simp
next
  case Logout
  show ?thesis by (rule same_alerts[OF assms]) (auto simp: Logout logout_def split: sum.split option.split)
qed (rule same_alerts[OF assms]; auto simp: login_submit_def switch_status_def tighten_snd rearm_snd as_role_def Let_def split: sum.split)+

text \<open>
  Whatever the control surface serves and whatever fails: an alert is never removed or changed, only
  marked, and the number of alerts marked as read is the number the saved dismissal events account for.
\<close>

theorem alerts_are_kept_and_accounted:
  assumes "accounted s"
  shows "(\<exists>new. map alert.truncate (cp_alerts (serve env calls s)) = map alert.truncate (cp_alerts s) @ new) \<and>
    sum_list (map dm_count (cp_dismissals (serve env calls s))) =
      length (filter (\<lambda>a. al_dismissed a \<noteq> None) (cp_alerts (serve env calls s)))"
proof -
  have "accounted (serve env calls s) \<and> grown s (serve env calls s)" using assms
  proof (induction env calls s rule: serve.induct)
    case (2 env call c q rest s)
    have "accounted (snd (handle env call c q s))" "grown s (snd (handle env call c q s))"
      using handle_accounts[OF 2(2), of env call c q] by simp_all
    with 2(1) show ?case by (auto intro: grown_trans[of s "snd (handle env call c q s)"])
  qed simp
  then show ?thesis by (simp add: accounted_def grown_def unread_def)
qed

section \<open>Closing an order\<close>

text \<open>
  C10. No request changes the status of a saved order but a close by an administrator that names the order and
  a reason. It closes exactly that order, which was pending or unknown, after the venue answered that it
  has neither the order nor a fill of it, and leaves the kill switch alone.
\<close>

theorem order_is_closed_only_by_an_administrator:
  fixes s :: "('b, order_db, 'o, 'x) plane"
  assumes "sql_ok (en_store (cp_engine s))"
    "wc_engine call = Some (db_env bops num (wc_is_uuid call) now rec cl qt itext)"
    "sql_status_of (en_store (cp_engine (snd (handle env call c q s)))) \<noteq> sql_status_of (en_store (cp_engine s))"
  shows "\<exists>k x b. c = CloseOrder \<and> k = cf_client_order_id (parse_close_order (ae_lib env) q) \<and> k \<noteq> [] \<and>
    py_strip (cf_reason (parse_close_order (ae_lib env) q)) \<noteq> [] \<and>
    (if rq_header_token q \<noteq> [] then token_grants env (rq_header_token q) ''admin''
     else \<exists>nonce. cookie_grants env (wc_now call) (rq_cookie q) ''admin'' nonce \<and> nonce \<notin> fst ` set (cp_revoked s)) \<and>
    sql_status_of (en_store (cp_engine s)) k = Some x \<and> unresolved x \<and>
    sql_status_of (en_store (cp_engine (snd (handle env call c q s)))) = (sql_status_of (en_store (cp_engine s)))(k \<mapsto> CANCELED) \<and>
    bo_get_order bops k (en_broker (cp_engine s)) = (Inr None, b) \<and>
    bo_get_fills bops k b = (Inr [], en_broker (cp_engine (snd (handle env call c q s)))) \<and>
    cp_kill (snd (handle env call c q s)) = cp_kill s"
proof -
  have "cp_engine (snd (handle env call c q s)) = cp_engine s" if "c \<noteq> CloseOrder"
  proof (cases c)
    case DismissAlerts
    have "cp_engine (snd (dismiss_submit env call q s)) = cp_engine s"
      unfolding dismiss_submit_def
      by (rule as_role_keeps) (auto split: sum.split option.split prod.splits simp: dismiss_alerts_def Let_def)
    then show ?thesis using DismissAlerts by simp
  qed (use that in \<open>auto simp: login_submit_def logout_def switch_status_def tighten_snd rearm_snd as_role_def Let_def
        split: sum.split option.split\<close>)
  then have c: "c = CloseOrder" using assms(3) by auto
  let ?form = "parse_close_order (ae_lib env) q"
  from close_snd[of env call q s] obtain role res e' where run: "authorize env (wc_now call) (cp_revoked s) True q = Inr role"
    "cf_errors ?form = []"
    "close_order (wc_is_uuid call) (db_env bops num (wc_is_uuid call) now rec cl qt itext) (cf_client_order_id ?form) role
      (redacted env (cf_reason ?form)) (cp_engine s) = (res, e')"
    "cp_engine (snd (close_submit env call q s)) = e'" "cp_kill (snd (close_submit env call q s)) = cp_kill s"
    using assms(2,3) c by auto
  have form: "cf_client_order_id ?form \<noteq> []" "py_strip (cf_reason ?form) \<noteq> []"
    using run(2) by (auto simp: parse_close_order_def checked_close_def Let_def text_errors_def split: if_splits option.splits json.splits)
  have admin: "role = ''admin''" using authorize_grants(2)[OF run(1)] by simp
  have closed: "closed_outcome res"
    using dbe.close_order_store[OF assms(1) run(3)] assms(3) c run(4) by (auto split: if_splits)
  show ?thesis
    using dbe.close_order_store[OF assms(1) run(3)] closed c run(4,5) form authorize_grants(3)[OF run(1)] admin by auto
qed

section \<open>Concrete runs\<close>

text \<open>
  A process that was halted, with one saved order the venue never received and one unread alert. The hash
  prints a letter and how much it signed.
\<close>

definition demo_env :: web_env where
  "demo_env = \<lparr>ae_token = ''op'', ae_admin_token = ''boss'', ae_mac = (\<lambda>k m. CHR ''h'' # nat_str (length k + length m)),
     ae_int = (\<lambda>t. if t \<noteq> [] \<and> list_all digit t then Some (read_digits t) else None),
     ae_redact = (\<lambda>_ t. t), ae_lib = demo_lib\<rparr>"

definition demo_call :: "rat \<Rightarrow> (nat, order_db, unit, unit) web_call" where
  "demo_call now = \<lparr>wc_now = now, wc_nonce = ''n0'', wc_stamp = ''t'',
     wc_kill = \<lparr>env_disk_ok = True, env_journal_ok = True, env_recent_ok = True, env_event_id = ''e1'', env_now = 0\<rparr>,
     wc_journal = Some True, wc_phone = Some True, wc_email = None, wc_engine = Some (plain_env empty_venue),
     wc_is_uuid = (\<lambda>_. True), wc_forget = (\<lambda>_ x. x)\<rparr>"

definition demo_start :: "(nat, order_db, unit, unit) plane" where
  "demo_start = \<lparr>cp_kill = \<lparr>ks_has_path = False, ks_file = None, ks_state = HALTED, ks_journal = Some [],
       ks_audit_events = [], ks_unrecorded = []\<rparr>,
     cp_revoked = [], cp_alerts = [\<lparr>al_condition = ''c'', al_severity = ''warning'', al_message = ''m'', al_created_at = ''s'',
       al_deliveries = [], al_dismissed = None\<rparr>],
     cp_dismissals = [], cp_engine = sample_engine [sample_row UNKNOWN], cp_scheduler = None\<rparr>"

definition with_token :: "string \<Rightarrow> (string \<times> json) list \<Rightarrow> web_request" where
  "with_token token d = \<lparr>rq_query_token = False, rq_header_token = token, rq_cookie = None,
     rq_content_type = ''application/json; charset=utf-8'', rq_json = Some (JObj d), rq_form = [(''token'', [''boss''])], rq_utf8 = True\<rparr>"

definition with_cookie :: "(string \<times> json) list \<Rightarrow> web_request" where
  "with_cookie d = (with_token [] d)\<lparr>rq_cookie := Some ''admin.100.n0.h14''\<rparr>"

definition rearm_body :: "(string \<times> json) list" where
  "rearm_body = [(''checklist'', JArr (map JStr REARM_CHECKLIST)), (''reason'', JStr ''reviewed'')]"

definition close_body :: "(string \<times> json) list" where
  "close_body = [(''client_order_id'', JStr ''k''), (''reason'', JStr ''never received'')]"

definition demo_calls :: "((nat, order_db, unit, unit) web_call \<times> control \<times> web_request) list" where
  "demo_calls = [(demo_call 1, Pause, with_token ''op'' []), (demo_call 2, Rearm, with_token ''op'' rearm_body),
     (demo_call 3, Rearm, with_token ''boss'' [(''reason'', JStr ''hurry'')]), (demo_call 4, Rearm, with_token ''boss'' rearm_body)]"

lemma demo_lowers: "lowers (cp_kill demo_start) (cp_kill (serve demo_env demo_calls demo_start))"
  by code_simp

theorem only_an_administrator_lowers_the_switch_witness:
  "\<exists>call q. (call, Rearm, q) \<in> set demo_calls \<and> set REARM_CHECKLIST \<subseteq> set (rf_checklist (parse_rearm demo_lib q))"
proof -
  have lib: "ae_lib demo_env = demo_lib" by (simp add: demo_env_def)
  from only_an_administrator_lowers_the_switch[OF demo_lowers] obtain before call q after where
    "demo_calls = before @ (call, Rearm, q) # after" "set REARM_CHECKLIST \<subseteq> set (rf_checklist (parse_rearm demo_lib q))"
    unfolding lib by metis
  then show ?thesis by (metis in_set_conv_decomp)
qed

lemma demo_session:
  "session_from_cookie demo_env 200 (rq_cookie (with_cookie [])) = Inr (Some \<lparr>ss_role = ''admin'', ss_nonce = ''n0'', ss_expires_at = 28900\<rparr>)"
  by code_simp

theorem signed_out_session_is_refused_witness:
  "\<exists>code detail. handle demo_env (demo_call 400) Rearm (with_cookie rearm_body)
      (serve demo_env [(demo_call 200, Logout, with_cookie []), (demo_call 300, Pause, with_token ''op'' [])] demo_start) =
    (Inl (HttpError code detail), serve demo_env [(demo_call 200, Logout, with_cookie []), (demo_call 300, Pause, with_token ''op'' [])] demo_start)"
proof -
  have "wc_now (demo_call now) = now" for now by (simp add: demo_call_def)
  moreover have "session_from_cookie demo_env now (rq_cookie (with_token t d)) = Inr None" for now t d
    by (simp add: with_token_def session_from_cookie_def)
  ultimately show ?thesis
    using signed_out_session_is_refused[of demo_env "demo_call 200" "with_cookie []" _ demo_start
        "[(demo_call 300, Pause, with_token ''op'' [])]" "demo_call 400" Rearm "with_cookie rearm_body"] demo_session
    by (fastforce simp: demo_start_def with_cookie_def with_token_def)
qed

lemma digit_char_code:
  "(of_char (digit_char n) :: nat) = 48 + n mod 10" "(of_char (digit_char n) :: int) = 48 + int (n mod 10)"
proof -
  have "n mod 10 = 0 \<or> n mod 10 = 1 \<or> n mod 10 = 2 \<or> n mod 10 = 3 \<or> n mod 10 = 4 \<or> n mod 10 = 5 \<or> n mod 10 = 6 \<or>
      n mod 10 = 7 \<or> n mod 10 = 8 \<or> n mod 10 = 9" by presburger
  then show "(of_char (digit_char n) :: nat) = 48 + n mod 10" "(of_char (digit_char n) :: int) = 48 + int (n mod 10)"
    by (auto simp: digit_char_def)
qed

lemma nat_str_facts: "nat_str n \<noteq> [] \<and> list_all digit (nat_str n) \<and> py_ascii (nat_str n) \<and> read_digits (nat_str n) = int n"
proof (induction n rule: nat_str.induct)
  case (1 n)
  have low: "n mod 10 \<le> 9" by presburger
  have char: "digit (digit_char n)" "py_ascii [digit_char n]"
    using low by (simp_all add: digit_def py_ascii_def digit_char_code Let_def)
  show ?case
  proof (cases "n < 10")
    case True
    then show ?thesis using char by (simp add: nat_str.simps[of n] read_digits_def digit_char_code)
  next
    case False
    have "read_digits (nat_str (n div 10) @ [digit_char n]) = 10 * int (n div 10) + int (n mod 10)"
      using 1[OF False] by (simp add: read_digits_def digit_char_code)
    moreover have "10 * int (n div 10) + int (n mod 10) = int n"
      by (metis mult_div_mod_eq of_nat_add of_nat_mult of_nat_numeral)
    ultimately show ?thesis using 1[OF False] char False by (simp add: nat_str.simps[of n] py_ascii_def)
  qed
qed

lemma demo_sign_in: "fst (login_submit demo_env (demo_call 100) (with_token [] []) demo_start) = Inr (SignedIn ''admin'' ''admin.100.n0.h14'')"
  by code_simp

theorem sign_in_lasts_eight_hours_witness:
  "session_from_cookie demo_env 28900 (Some ''admin.100.n0.h14'') =
      Inr (Some \<lparr>ss_role = ''admin'', ss_nonce = ''n0'', ss_expires_at = 28900\<rparr>) \<and>
   session_from_cookie demo_env 28901 (Some ''admin.100.n0.h14'') = Inr None"
proof -
  obtain s' where run: "login_submit demo_env (demo_call 100) (with_token [] []) demo_start = (Inr (SignedIn ''admin'' ''admin.100.n0.h14''), s')"
    using demo_sign_in by (metis prod.collapse)
  have "ae_int demo_env (nat_str n) = Some (int n)" "py_ascii (ae_mac demo_env k m)" for n k m
    using nat_str_facts by (simp_all add: demo_env_def py_ascii_def)
  moreover have "wc_now (demo_call 100) = 100" "wc_nonce (demo_call 100) = ''n0''" by (simp_all add: demo_call_def)
  ultimately have "session_from_cookie demo_env now (Some ''admin.100.n0.h14'') = Inr (if \<bar>now - 100\<bar> \<le> 28800
      then Some \<lparr>ss_role = ''admin'', ss_nonce = ''n0'', ss_expires_at = 28900\<rparr> else None)" for now
    using sign_in_lasts_eight_hours[OF run, of now] by simp
  then show ?thesis by simp
qed

theorem alerts_are_kept_and_accounted_witness:
  "length (filter (\<lambda>a. al_dismissed a \<noteq> None)
      (cp_alerts (serve demo_env [(demo_call 1, DismissAlerts, with_token ''boss'' [(''through'', JNum ''1'')])] demo_start))) = 1"
proof -
  have "map dm_count (cp_dismissals (serve demo_env [(demo_call 1, DismissAlerts, with_token ''boss'' [(''through'', JNum ''1'')])] demo_start)) = [1]"
    by code_simp
  moreover have "accounted demo_start" by (simp add: accounted_def demo_start_def unread_def)
  ultimately show ?thesis
    using alerts_are_kept_and_accounted[of demo_start demo_env "[(demo_call 1, DismissAlerts, with_token ''boss'' [(''through'', JNum ''1'')])]"]
    by simp
qed

lemma demo_close:
  "sql_status_of (en_store (cp_engine (snd (handle demo_env (demo_call 1) CloseOrder (with_token ''boss'' close_body) demo_start)))) ''k'' = Some CANCELED"
  by code_simp

theorem order_is_closed_only_by_an_administrator_witness:
  "\<exists>b. bo_get_order empty_venue ''k'' (en_broker (cp_engine demo_start)) = (Inr None, b) \<and>
    cp_kill (snd (handle demo_env (demo_call 1) CloseOrder (with_token ''boss'' close_body) demo_start)) = cp_kill demo_start"
proof -
  have engine: "cp_engine demo_start = sample_engine [sample_row UNKNOWN]" by (simp add: demo_start_def)
  have before: "sql_status_of (en_store (cp_engine demo_start)) ''k'' = Some UNKNOWN" by code_simp
  have form: "cf_client_order_id (parse_close_order (ae_lib demo_env) (with_token ''boss'' close_body)) = ''k''" by code_simp
  have eng: "wc_engine (demo_call 1) = Some (db_env empty_venue (\<lambda>x. x) (wc_is_uuid (demo_call 1)) 0 None None (\<lambda>_. []) (\<lambda>_. []))"
    by (simp add: demo_call_def)
  have ok: "sql_ok (en_store (cp_engine demo_start))" unfolding engine by (rule sample_db_ok(2))
  have changed: "sql_status_of (en_store (cp_engine (snd (handle demo_env (demo_call 1) CloseOrder (with_token ''boss'' close_body) demo_start)))) \<noteq>
      sql_status_of (en_store (cp_engine demo_start))"
    using demo_close before by auto
  from order_is_closed_only_by_an_administrator[OF ok eng changed] form show ?thesis by auto
qed

end
