(* ===== verification/Soak.thy ===== *)
theory Soak
  imports Controls Equity
begin

text \<open>
  The soak console (\<^verbatim>\<open>api/soak.py\<close>) over the time windows of \<^verbatim>\<open>api/trends.py\<close>, and the handlers of
  \<^verbatim>\<open>api/soak_routes.py\<close> that show the digest, record evidence and open or close an incident. The database
  is the rows of its tables; \<open>kd_failures\<close> says call by call whether it fails. A time is a number of
  microseconds since the epoch; the identifiers, the redaction of free text and the decoded form are
  parameters. Of two equity snapshots with one time the first saved counts, which the source leaves to
  the database. The texts of amounts, times and labels in the view are left out, and so is the page; what
  decides a day's status is kept. The theorems: the counts of a window partition its rows, the storm flag
  is a burst of disconnects, a day passes only on full evidence, and the records are kept and attributed.
\<close>

section \<open>Time windows\<close>

definition WINDOWS :: "(string \<times> timedelta \<times> timedelta) list" where
  "WINDOWS = [(''24h'', microseconds (24 * 3600), microseconds 3600),
     (''7d'', microseconds (7 * 86400), microseconds (6 * 3600)),
     (''30d'', microseconds (30 * 86400), microseconds 86400)]"

record trends_window =
  tw_window :: string
  tw_step :: timedelta
  tw_edges :: "datetime list"
  tw_now :: datetime

definition trends_query :: "string \<Rightarrow> datetime \<Rightarrow> exn + trends_window" where
  "trends_query window now =
     (case map_of WINDOWS window of
        None \<Rightarrow> Inl (KeyError window)
      | Some (width, step) \<Rightarrow>
          let current = now div step * step; count = nat (width div step); stop = current + step;
              edges = map (\<lambda>index. stop - step * (int count - int index)) [0..<Suc count] in
          if microseconds (30 * 86400) < last edges - hd edges \<or> 30 < count
          then Inl (PyError ''HistoryQueryRefused'')
          else Inr \<lparr>tw_window = window, tw_step = step, tw_edges = edges, tw_now = now\<rparr>)"

text \<open>The bucket of a time: the first edge above it, as the \<^verbatim>\<open>CASE\<close> of the query counts.\<close>

definition edge_index :: "datetime list \<Rightarrow> datetime \<Rightarrow> nat" where
  "edge_index edges t = length (takeWhile (\<lambda>e. \<not> t < e) (tl edges))"

definition in_window :: "datetime list \<Rightarrow> datetime \<Rightarrow> bool" where
  "in_window edges t \<longleftrightarrow> hd edges \<le> t \<and> t < last edges"

definition daily_counts :: "datetime list \<Rightarrow> datetime list \<Rightarrow> nat list" where
  "daily_counts edges moments =
     map (\<lambda>i. length (filter (\<lambda>t. in_window edges t \<and> edge_index edges t = i) moments)) [0..<length edges - 1]"

section \<open>The rows\<close>

record soak_event =
  sv_type :: string
  sv_created_at :: datetime
  sv_recovered :: bool

record evidence_row =
  evr_id :: uuid
  evr_criterion :: string
  evr_kind :: string
  evr_status :: string
  evr_note :: string
  evr_recorded_by :: string
  evr_recorded_at :: datetime

record incident_row =
  inc_id :: uuid
  inc_cause :: string
  inc_opened_by :: string
  inc_opened_at :: datetime
  inc_closed_note :: "string option"
  inc_closed_by :: "string option"
  inc_closed_at :: "datetime option"

record soak_db =
  kd_fills :: "datetime list"
  kd_decisions :: "(datetime \<times> bool) list"
  kd_snapshots :: "(datetime \<times> string) list"
  kd_discrepancies :: "datetime list"
  kd_events :: "soak_event list"
  kd_equity :: equity_db
  kd_evidence :: "evidence_row list"
  kd_incidents :: "incident_row list"
  kd_failures :: "bool list"

text \<open>A raised \<^verbatim>\<open>HistoryUnavailable\<close> is its message.\<close>

definition soak_call :: "string \<Rightarrow> (string, soak_db, 'a) act \<Rightarrow> (string, soak_db, 'a) act" where
  "soak_call message body s =
     (let s' = s\<lparr>kd_failures := tl (kd_failures s)\<rparr> in
      if kd_failures s \<noteq> [] \<and> hd (kd_failures s) then (Inl message, s') else body s')"

section \<open>What a day rests on\<close>

definition events_of :: "string \<Rightarrow> soak_db \<Rightarrow> datetime list" where
  "events_of kind s = map sv_created_at (filter (\<lambda>e. sv_type e = kind) (kd_events s))"

fun storm_scan :: "nat \<Rightarrow> timedelta \<Rightarrow> datetime list \<Rightarrow> datetime list \<Rightarrow> bool list \<Rightarrow> datetime list \<Rightarrow> bool list" where
  "storm_scan threshold window edges recent storms [] = storms"
| "storm_scan threshold window edges recent storms (moment # moments) =
     (let recent' = filter (\<lambda>item. moment - window \<le> item) recent @ [moment] in
      storm_scan threshold window edges recent'
        (if length recent' < threshold then storms else storms[edge_index edges moment := True]) moments)"

definition daily_reconnect_storms :: "nat \<Rightarrow> timedelta \<Rightarrow> datetime list \<Rightarrow> datetime list \<Rightarrow> bool list" where
  "daily_reconnect_storms threshold window edges disconnects =
     storm_scan threshold window edges [] (replicate (length edges - 1) False) (sort (filter (in_window edges) disconnects))"

definition HEARTBEAT_STEP :: timedelta where "HEARTBEAT_STEP = microseconds 3600"

definition uptime_of_day :: "datetime list \<Rightarrow> datetime \<Rightarrow> datetime \<Rightarrow> datetime \<Rightarrow> bool" where
  "uptime_of_day beats now start stop =
     (let day_end = min stop now; expected = (if start < day_end then (day_end - start) div HEARTBEAT_STEP else 0) in
      expected \<le> 0 \<or>
      list_all (\<lambda>i. list_ex (\<lambda>t. start \<le> t \<and> t < day_end \<and> (t - start) div HEARTBEAT_STEP = int i) beats) [0..<nat expected])"

definition days_of :: "datetime list \<Rightarrow> (datetime \<times> datetime) list" where
  "days_of edges = zip edges (tl edges)"

definition uptime_ok :: "datetime list \<Rightarrow> datetime list \<Rightarrow> datetime \<Rightarrow> bool list" where
  "uptime_ok edges beats now = map (\<lambda>(start, stop). uptime_of_day (filter (in_window edges) beats) now start stop) (days_of edges)"

definition restart_counts :: "datetime list \<Rightarrow> soak_event list \<Rightarrow> nat list \<times> nat list" where
  "restart_counts edges rows =
     (daily_counts edges (map sv_created_at rows), daily_counts edges (map sv_created_at (filter sv_recovered rows)))"

definition open_at :: "datetime \<Rightarrow> incident_row \<Rightarrow> bool" where
  "open_at stop r \<longleftrightarrow> inc_opened_at r < stop \<and> (case inc_closed_at r of None \<Rightarrow> True | Some t \<Rightarrow> stop \<le> t)"

definition daily_open_incidents :: "datetime list \<Rightarrow> incident_row list \<Rightarrow> nat list" where
  "daily_open_incidents edges rows = map (\<lambda>stop. length (filter (open_at stop) rows)) (tl edges)"

record day_equity =
  de_equity :: "rat option"
  de_partial :: bool
  de_holdings :: "(string \<times> basis \<times> int option) list"

fun newest_row :: "equity_row list \<Rightarrow> equity_row option" where
  "newest_row [] = None"
| "newest_row (r # rs) = Some (fold (\<lambda>x best. if eqr_as_of best < eqr_as_of x then x else best) rs r)"

definition held_of :: "equity_db \<Rightarrow> uuid \<Rightarrow> (string \<times> basis \<times> int option) list" where
  "held_of e snapshot = map (\<lambda>h. (vh_symbol h, vh_basis h, vh_age_seconds h))
     (sort_key vh_symbol (map hr_holding (filter (\<lambda>r. hr_snapshot_id r = snapshot) (ed_holdings e))))"

definition daily_last_equity :: "datetime list \<Rightarrow> equity_db \<Rightarrow> day_equity option list" where
  "daily_last_equity edges e =
     map (\<lambda>i. map_option (\<lambda>r. \<lparr>de_equity = eqr_equity r, de_partial = eqr_partial r, de_holdings = held_of e (eqr_snapshot_id r)\<rparr>)
         (newest_row (filter (\<lambda>r. in_window edges (eqr_as_of r) \<and> edge_index edges (eqr_as_of r) = i) (ed_snapshots e))))
       [0..<length edges - 1]"

definition age_text :: "int \<Rightarrow> string" where
  "age_text seconds =
     (if seconds < 3600 then nat_str (nat (seconds div 60)) @ '' min'' else nat_str (nat (seconds div 3600)) @ '' h'')"

definition LAST_PRICE_MAX_AGE_SECONDS :: int where "LAST_PRICE_MAX_AGE_SECONDS = 24 * 3600"

definition too_old :: "basis \<times> int option \<Rightarrow> bool" where
  "too_old = (\<lambda>(b, age). b = LAST_KNOWN \<and> (case age of None \<Rightarrow> False | Some a \<Rightarrow> LAST_PRICE_MAX_AGE_SECONDS \<le> a))"

definition holding_note :: "string \<times> basis \<times> int option \<Rightarrow> string list" where
  "holding_note = (\<lambda>(symb, b, age).
     if b = UNPRICED then [symb @ '' has never had a price, so equity could not be valued'']
     else case age of
       Some a \<Rightarrow>
         if b \<noteq> LAST_KNOWN then []
         else if too_old (b, age) then [symb @ '' is valued at its last price, '' @ age_text a @ '' old; the limit is 24 h'']
         else [''includes '' @ symb @ '' at its last price, '' @ age_text a @ '' old'']
     | None \<Rightarrow> [])"

text \<open>The value, its footnotes, whether it rests on a stored price, and what is missing.\<close>

definition equity_field :: "day_equity option \<Rightarrow> rat option \<times> string list \<times> bool \<times> string list" where
  "equity_field equity =
     (case equity of
        None \<Rightarrow> (None, [], False, [''equity''])
      | Some d \<Rightarrow>
          (de_equity d, concat (map holding_note (de_holdings d)),
           de_equity d \<noteq> None \<and> list_ex (\<lambda>(_, b, _). b = LAST_KNOWN) (de_holdings d),
           (if list_ex (\<lambda>(_, held). too_old held) (de_holdings d) then [''equity_price_age''] else []) @
           (if de_equity d = None then [''equity''] else [])))"

record soak_day =
  sy_start :: datetime
  sy_in_progress :: bool
  sy_trades :: nat
  sy_refusals :: nat
  sy_reconciliation_runs :: nat
  sy_divergences :: nat
  sy_kill_switch_events :: nat
  sy_heartbeats :: nat
  sy_restarts :: nat
  sy_recovered_restarts :: nat
  sy_disconnects :: nat
  sy_gap_fills :: nat
  sy_reconnect_storm :: bool
  sy_open_incidents :: nat
  sy_equity :: "rat option"
  sy_equity_approximate :: bool
  sy_equity_notes :: "string list"
  sy_missing :: "string list"
  sy_status :: string

definition missing_of :: "day_equity option \<Rightarrow> bool \<Rightarrow> nat \<Rightarrow> bool \<Rightarrow> string list" where
  "missing_of equity uptime incidents storm =
     snd (snd (snd (equity_field equity))) @ (if uptime then [] else [''uptime'']) @
     (if 0 < incidents then [''incidents''] else []) @ (if storm then [''reconnect_storm''] else [])"

section \<open>Criteria\<close>

definition SOAK_CRITERIA :: "string list" where
  "SOAK_CRITERIA = [''no_unexplained_mismatch'', ''disconnect_gap_fill'', ''restart_recovery'', ''divergence_handled'',
     ''kill_switch_verified'', ''incidents_documented'', ''backup_restore_verified'']"

definition READINESS_GATES :: "string list" where
  "READINESS_GATES = [''soak_complete'', ''coinbase_key_scoped'', ''safety_controls_tested'']"

definition CRITERIA :: "string list" where "CRITERIA = SOAK_CRITERIA @ READINESS_GATES"

definition EVIDENCE_KINDS :: "string list" where "EVIDENCE_KINDS = [''local'', ''ci'', ''infra'', ''provider'']"

definition EVIDENCE_STATUSES :: "string list" where "EVIDENCE_STATUSES = [''pass'', ''fail'']"

text \<open>The rows sorted by criterion and time, the last of a criterion winning.\<close>

definition latest_evidence :: "evidence_row list \<Rightarrow> (string, evidence_row) dict" where
  "latest_evidence rows = fold (\<lambda>r. AList.update (evr_criterion r) r)
     (sort_key evr_criterion (sort_key evr_recorded_at (filter (\<lambda>r. evr_criterion r \<in> set CRITERIA) rows))) []"

definition criterion_view :: "(string, evidence_row) dict \<Rightarrow> string \<Rightarrow> string \<times> string \<times> evidence_row option" where
  "criterion_view latest k = (k, (case map_of latest k of None \<Rightarrow> ''incomplete'' | Some r \<Rightarrow> evr_status r), map_of latest k)"

section \<open>The digest\<close>

record soak_view =
  sk_edges :: "datetime list"
  sk_days :: "soak_day list"
  sk_soak :: "(string \<times> string \<times> evidence_row option) list"
  sk_readiness :: "(string \<times> string \<times> evidence_row option) list"
  sk_open_incidents :: "incident_row list"

definition storms_of :: "nat \<Rightarrow> timedelta \<Rightarrow> datetime list \<Rightarrow> soak_db \<Rightarrow> bool list" where
  "storms_of threshold window edges s = daily_reconnect_storms threshold window edges (events_of ''disconnect'' s)"

definition day_of :: "nat \<Rightarrow> timedelta \<Rightarrow> datetime \<Rightarrow> datetime list \<Rightarrow> soak_db \<Rightarrow> nat \<Rightarrow> soak_day" where
  "day_of threshold window now edges s index =
     (let equity = daily_last_equity edges (kd_equity s) ! index;
          incidents = daily_open_incidents edges (kd_incidents s) ! index;
          storm = storms_of threshold window edges s ! index;
          restarts = restart_counts edges (filter (\<lambda>e. sv_type e = ''restart'') (kd_events s));
          missing = missing_of equity (uptime_ok edges (events_of ''heartbeat'' s) now ! index) incidents storm in
      \<lparr>sy_start = edges ! index, sy_in_progress = (index = length edges - 2),
       sy_trades = daily_counts edges (kd_fills s) ! index,
       sy_refusals = daily_counts edges (map fst (filter (\<lambda>(_, approved). \<not> approved) (kd_decisions s))) ! index,
       sy_reconciliation_runs = daily_counts edges (map fst (filter (\<lambda>(_, source). source = ''broker'') (kd_snapshots s))) ! index,
       sy_divergences = daily_counts edges (kd_discrepancies s) ! index,
       sy_kill_switch_events = daily_counts edges (events_of ''kill_switch_transition'' s) ! index,
       sy_heartbeats = daily_counts edges (events_of ''heartbeat'' s) ! index,
       sy_restarts = fst restarts ! index, sy_recovered_restarts = snd restarts ! index,
       sy_disconnects = daily_counts edges (events_of ''disconnect'' s) ! index,
       sy_gap_fills = daily_counts edges (events_of ''gap_fill'' s) ! index,
       sy_reconnect_storm = storm, sy_open_incidents = incidents,
       sy_equity = fst (equity_field equity), sy_equity_approximate = fst (snd (snd (equity_field equity))),
       sy_equity_notes = fst (snd (equity_field equity)), sy_missing = missing,
       sy_status = (if missing \<noteq> [] then ''incomplete'' else ''pass'')\<rparr>)"

definition soak_read :: "nat \<Rightarrow> timedelta \<Rightarrow> datetime \<Rightarrow> (string, soak_db, exn + soak_view) act" where
  "soak_read threshold window now s =
     (case trends_query ''30d'' now of
        Inl e \<Rightarrow> (Inr (Inl e), s)
      | Inr query \<Rightarrow>
          soak_call ''the soak console could not be read'' (\<lambda>s.
            let edges = tw_edges query; latest = latest_evidence (kd_evidence s) in
            (Inr (Inr \<lparr>sk_edges = edges, sk_days = map (day_of threshold window now edges s) [0..<length edges - 1],
               sk_soak = map (criterion_view latest) SOAK_CRITERIA,
               sk_readiness = map (criterion_view latest) READINESS_GATES,
               sk_open_incidents = sort_key inc_opened_at (filter (\<lambda>r. inc_closed_at r = None) (kd_incidents s))\<rparr>), s)) s)"

section \<open>Evidence and incidents\<close>

text \<open>
  What a request is given: the settings of the console, or that there is none, the redaction, the fresh
  identifier and the time, and whether the answer is a page. The constructor refuses other settings.
\<close>

record soak_call_env =
  ke_configured :: bool
  ke_threshold :: nat
  ke_window :: timedelta
  ke_html :: bool
  ke_redact :: "string \<Rightarrow> string"
  ke_id :: uuid
  ke_now :: datetime
  ke_uuid :: "string \<Rightarrow> uuid option"

definition soak_init :: "int \<Rightarrow> timedelta \<Rightarrow> exn + (nat \<times> timedelta)" where
  "soak_init threshold window =
     (if threshold < 2 \<or> window \<le> 0 then Inl (ValueError ''reconnect storm settings must be bounded and positive'')
      else Inr (nat threshold, window))"

definition put_evidence ::
  "soak_call_env \<Rightarrow> string \<Rightarrow> string \<Rightarrow> string \<Rightarrow> string \<Rightarrow> string \<Rightarrow> (string, soak_db, evidence_row) act"
where
  "put_evidence env criterion kind status note role =
     soak_call ''the evidence record could not be saved'' (\<lambda>s.
       let r = \<lparr>evr_id = ke_id env, evr_criterion = criterion, evr_kind = kind, evr_status = status,
                evr_note = ke_redact env note, evr_recorded_by = role, evr_recorded_at = ke_now env\<rparr> in
       (Inr r, s\<lparr>kd_evidence := kd_evidence s @ [r]\<rparr>))"

definition put_incident :: "soak_call_env \<Rightarrow> string \<Rightarrow> string \<Rightarrow> (string, soak_db, incident_row) act" where
  "put_incident env cause role =
     soak_call ''the incident could not be saved'' (\<lambda>s.
       let r = \<lparr>inc_id = ke_id env, inc_cause = ke_redact env cause, inc_opened_by = role, inc_opened_at = ke_now env,
                inc_closed_note = None, inc_closed_by = None, inc_closed_at = None\<rparr> in
       (Inr r, s\<lparr>kd_incidents := kd_incidents s @ [r]\<rparr>))"

definition close_incident :: "soak_call_env \<Rightarrow> uuid \<Rightarrow> string \<Rightarrow> string \<Rightarrow> (string, soak_db, incident_row option) act" where
  "close_incident env incident note role =
     soak_call ''the incident could not be closed'' (\<lambda>s.
       case List.find (\<lambda>r. inc_id r = incident) (kd_incidents s) of
         None \<Rightarrow> (Inr None, s)
       | Some r \<Rightarrow>
           if inc_closed_at r \<noteq> None then (Inr None, s)
           else let r' = r\<lparr>inc_closed_note := Some (ke_redact env note), inc_closed_by := Some role, inc_closed_at := Some (ke_now env)\<rparr> in
             (Inr (Some r'), s\<lparr>kd_incidents := map (\<lambda>x. if inc_id x = incident then r' else x) (kd_incidents s)\<rparr>))"

definition NOTE_LIMIT :: nat where "NOTE_LIMIT = 500"

definition form_text :: "(string \<times> string) list \<Rightarrow> string \<Rightarrow> string" where
  "form_text form k = py_strip (dict_get form k [])"

definition note_errors :: "string \<Rightarrow> string \<Rightarrow> string \<Rightarrow> string list" where
  "note_errors text missing what =
     (if text = [] then [missing] else if NOTE_LIMIT < length text then [''Keep the '' @ what @ '' to 500 characters or fewer.''] else [])"

definition parse_evidence :: "(string \<times> string) list \<Rightarrow> string list" where
  "parse_evidence form =
     (if form_text form ''criterion'' \<notin> set CRITERIA then [''Choose one of the listed soak or readiness criteria.''] else []) @
     (if form_text form ''kind'' \<notin> set EVIDENCE_KINDS then [''kind must be one of local, ci, infra, provider.''] else []) @
     (if form_text form ''status'' \<notin> set EVIDENCE_STATUSES then [''status must be one of pass, fail.''] else []) @
     note_errors (form_text form ''note'') ''Enter a reference to the dated result this evidence points at.'' ''note''"

definition parse_incident_open :: "(string \<times> string) list \<Rightarrow> string list" where
  "parse_incident_open form = note_errors (form_text form ''cause'') ''Describe the cause of the incident.'' ''cause''"

definition parse_incident_close :: "(string \<Rightarrow> uuid option) \<Rightarrow> (string \<times> string) list \<Rightarrow> uuid option \<times> string list" where
  "parse_incident_close uuid form =
     (let raw = form_text form ''incident_id''; incident = (if raw = [] then None else uuid raw) in
      (incident,
       (if raw = [] then [''Choose an open incident to close.'']
        else if incident = None then [''The incident reference is not valid.''] else []) @
       note_errors (form_text form ''note'') ''Describe how the incident was resolved.'' ''note''))"

datatype soak_action = RecordEvidence | OpenIncident | CloseIncident

datatype soak_reply = SoakRecorded | SoakShown soak_view | SoakRefused nat "string list"

text \<open>A request answers with one of two reasons, whatever \<^verbatim>\<open>HistoryUnavailable\<close> said.\<close>

definition soak_service :: "soak_call_env \<Rightarrow> (string, soak_db, 'a) act \<Rightarrow> (string, soak_db, 'a) act" where
  "soak_service env m s =
     (if \<not> ke_configured env then (Inl ''the soak console is not configured in this process'', s)
      else case m s of
        (Inl _, s') \<Rightarrow> (Inl ''the soak console could not be read'', s')
      | (Inr x, s') \<Rightarrow> (Inr x, s'))"

definition soak_read_now :: "soak_call_env \<Rightarrow> (string, soak_db, exn + soak_view) act" where
  "soak_read_now env = soak_service env (soak_read (ke_threshold env) (ke_window env) (ke_now env))"

text \<open>A refused write answers with the errors; for a page it reads the digest again.\<close>

definition soak_refused :: "soak_call_env \<Rightarrow> nat \<Rightarrow> string list \<Rightarrow> (web_end, soak_db, soak_reply) act" where
  "soak_refused env code errors s =
     (Inr (SoakRefused code errors), if ke_html env then snd (soak_read_now env s) else s)"

definition after_write ::
  "soak_call_env \<Rightarrow> (string, soak_db, 'a) act \<Rightarrow> ('a \<Rightarrow> (web_end, soak_db, soak_reply) act) \<Rightarrow> (web_end, soak_db, soak_reply) act"
where
  "after_write env m answer s =
     (case soak_service env m s of
        (Inl reason, s') \<Rightarrow> soak_refused env 503 [reason] s'
      | (Inr x, s') \<Rightarrow> answer x s')"

definition soak_console ::
  "web_env \<Rightarrow> rat \<Rightarrow> (string, int) dict \<Rightarrow> web_request \<Rightarrow> soak_call_env \<Rightarrow> (string \<times> string) list \<Rightarrow>
     (web_end, soak_db, soak_reply) act"
where
  "soak_console web now revoked q env params s =
     (case authorize web now revoked False q of
        Inl e \<Rightarrow> (Inl e, s)
      | Inr role \<Rightarrow>
          if params \<noteq> [] then (Inr (SoakRefused 422 [''This view takes no parameters.'']), s)
          else (case soak_read_now env s of
              (Inl reason, s') \<Rightarrow> (Inr (SoakRefused 503 [reason]), s')
            | (Inr (Inl e), s') \<Rightarrow> (Inl (Crash e), s')
            | (Inr (Inr view), s') \<Rightarrow> (Inr (SoakShown view), s')))"

definition soak_write ::
  "web_env \<Rightarrow> rat \<Rightarrow> (string, int) dict \<Rightarrow> web_request \<Rightarrow> soak_call_env \<Rightarrow> soak_action \<Rightarrow> (string \<times> string) list \<Rightarrow>
     (web_end, soak_db, soak_reply) act"
where
  "soak_write web now revoked q env action form s =
     (case authorize web now revoked True q of
        Inl e \<Rightarrow> (Inl e, s)
      | Inr role \<Rightarrow>
          (case action of
             RecordEvidence \<Rightarrow>
               if parse_evidence form \<noteq> [] then soak_refused env 422 (parse_evidence form) s
               else after_write env (put_evidence env (form_text form ''criterion'') (form_text form ''kind'')
                   (form_text form ''status'') (form_text form ''note'') role) (\<lambda>_. aret SoakRecorded) s
           | OpenIncident \<Rightarrow>
               if parse_incident_open form \<noteq> [] then soak_refused env 422 (parse_incident_open form) s
               else after_write env (put_incident env (form_text form ''cause'') role) (\<lambda>_. aret SoakRecorded) s
           | CloseIncident \<Rightarrow>
               (case parse_incident_close (ke_uuid env) form of
                  (incident, errors) \<Rightarrow>
                    if errors \<noteq> [] then soak_refused env 422 errors s
                    else (case incident of
                        None \<Rightarrow> (Inl (Crash AssertionError), s)
                      | Some i \<Rightarrow> after_write env (close_incident env i (form_text form ''note'') role)
                          (\<lambda>closed. if closed = None then soak_refused env 422 [''No open incident matches that reference.'']
                             else aret SoakRecorded) s))))"

section \<open>The buckets of a window\<close>

lemma trends_edges:
  assumes "trends_query window now = Inr q"
  obtains width step count where "map_of WINDOWS window = Some (width, step)" "0 < step" "count = nat (width div step)" "0 < count" "count \<le> 30"
    "tw_edges q = map (\<lambda>i. now div step * step + step - step * (int count - int i)) [0..<Suc count]" "step * int count \<le> microseconds (30 * 86400)"
proof -
  obtain width step where w: "map_of WINDOWS window = Some (width, step)"
    using assms by (cases "map_of WINDOWS window") (auto simp: trends_query_def)
  then have cases: "(width, step) \<in> {(86400000000, 3600000000), (604800000000, 21600000000), (2592000000000, 86400000000)}"
    by (auto simp: WINDOWS_def microseconds_def split: if_splits)
  let ?count = "nat (width div step)"
  have "tw_edges q = map (\<lambda>i. now div step * step + step - step * (int ?count - int i)) [0..<Suc ?count]"
    using assms w by (auto simp: trends_query_def Let_def simp del: upt_Suc split: if_splits)
  moreover have "0 < step" "0 < ?count" "?count \<le> 30" "step * int ?count \<le> microseconds (30 * 86400)"
    using cases by (auto simp: microseconds_def)
  ultimately show ?thesis using that[OF w] by blast
qed

definition climbing :: "datetime list \<Rightarrow> bool" where
  "climbing edges \<longleftrightarrow> sorted_wrt (<) edges \<and> 2 \<le> length edges"

lemma trends_climbing:
  assumes "trends_query window now = Inr q"
  shows "climbing (tw_edges q) \<and> length (tw_edges q) \<le> 31 \<and> last (tw_edges q) - hd (tw_edges q) \<le> microseconds (30 * 86400) \<and>
    tw_edges q ! (length (tw_edges q) - 2) \<le> now \<and> now < last (tw_edges q)"
proof -
  from trends_edges[OF assms] obtain width step count where q: "0 < step" "0 < count" "count \<le> 30"
    "tw_edges q = map (\<lambda>i. now div step * step + step - step * (int count - int i)) [0..<Suc count]"
    "step * int count \<le> microseconds (30 * 86400)" by metis
  have ends: "hd (tw_edges q) = now div step * step + step - step * int count" "last (tw_edges q) = now div step * step + step"
    unfolding q(4) by (simp_all add: hd_map last_map del: upt_Suc)
  have "sorted_wrt (<) (tw_edges q)"
    unfolding q(4) sorted_wrt_map by (rule sorted_wrt_mono_rel[OF _ sorted_wrt_upt]) (use q(1) in auto)
  moreover have "tw_edges q ! (length (tw_edges q) - 2) = now div step * step"
    using q(2) unfolding q(4) by (simp del: upt_Suc add: of_nat_diff algebra_simps)
  moreover have "now div step * step \<le> now" "now < now div step * step + step"
    using q(1) div_mult_mod_eq[of now step] pos_mod_bound[OF q(1), of now] pos_mod_sign[OF q(1), of now] by linarith+
  ultimately show ?thesis using q(2,3,5) ends by (simp add: climbing_def q(4) del: upt_Suc)
qed

lemma takeWhile_count:
  assumes "sorted xs" "i \<le> length xs"
  shows "length (takeWhile (\<lambda>e. \<not> t < e) xs) = i \<longleftrightarrow> (\<forall>j < i. xs ! j \<le> t) \<and> (i < length xs \<longrightarrow> t < xs ! i)"
  using assms
proof (induction xs arbitrary: i)
  case (Cons x xs)
  show ?case
  proof (cases i)
    case 0
    then show ?thesis by auto
  next
    case (Suc k)
    from Cons.IH[of k] Cons.prems Suc show ?thesis
      by (cases "t < x") (auto simp: less_Suc_eq_0_disj)
  qed
qed simp

text \<open>The bucket of the \<^verbatim>\<open>CASE\<close> is the interval between two edges.\<close>

lemma edge_index_iff:
  assumes "climbing edges" "in_window edges t" "i < length edges - 1"
  shows "edge_index edges t = i \<longleftrightarrow> edges ! i \<le> t \<and> t < edges ! Suc i"
proof -
  obtain e es where edges: "edges = e # es" using assms(1) by (cases edges) (auto simp: climbing_def)
  have es: "sorted es" using assms(1) unfolding edges climbing_def by (simp add: strict_sorted_imp_sorted)
  have i: "i < length es" using assms(3) by (simp add: edges)
  have "(\<forall>j < i. es ! j \<le> t) \<longleftrightarrow> edges ! i \<le> t"
  proof (cases i)
    case 0
    then show ?thesis using assms(2) by (simp add: edges in_window_def)
  next
    case (Suc k)
    then have "es ! j \<le> es ! k" if "j < i" for j using that i es by (simp add: sorted_nth_mono)
    then show ?thesis using Suc unfolding edges by force
  qed
  then show ?thesis using takeWhile_count[OF es, of i t] i by (simp add: edge_index_def edges)
qed

lemma edge_index_less:
  assumes "climbing edges" "in_window edges t"
  shows "edge_index edges t < length edges - 1"
proof -
  obtain e es where edges: "edges = e # es" using assms(1) by (cases edges) (auto simp: climbing_def)
  have "es \<noteq> []" using assms(1) by (auto simp: edges climbing_def)
  then have "last es \<in> set es" "t < last es" using assms(2) by (simp_all add: edges in_window_def)
  then have "dropWhile (\<lambda>e. \<not> t < e) es \<noteq> []" unfolding dropWhile_eq_Nil_conv by blast
  moreover have "length es = length (takeWhile (\<lambda>e. \<not> t < e) es) + length (dropWhile (\<lambda>e. \<not> t < e) es)"
    by (metis length_append takeWhile_dropWhile_id)
  ultimately show ?thesis by (simp add: edge_index_def edges)
qed

lemma bucket_in_window:
  assumes "climbing edges" "i < length edges - 1" "edges ! i \<le> t" "t < edges ! Suc i"
  shows "in_window edges t"
proof -
  have s: "sorted edges" "edges \<noteq> []" using assms(1) by (auto simp: climbing_def strict_sorted_imp_sorted)
  have "hd edges \<le> edges ! i" using s assms(2) by (metis hd_conv_nth le0 less_diff_conv add_lessD1 sorted_nth_mono)
  moreover have "edges ! Suc i \<le> last edges" using s assms(2) by (simp add: last_conv_nth sorted_nth_mono)
  ultimately show ?thesis using assms(3,4) by (simp add: in_window_def)
qed

lemma bucket_filter:
  assumes "climbing edges" "i < length edges - 1"
  shows "in_window edges t \<and> edge_index edges t = i \<longleftrightarrow> edges ! i \<le> t \<and> t < edges ! Suc i"
  using edge_index_iff[OF assms(1) _ assms(2)] bucket_in_window[OF assms] by blast

lemma one_bucket: "n < (k::nat) \<Longrightarrow> (\<Sum>i\<leftarrow>[0..<k]. if n = i then 1 else (0::nat)) = 1"
  by (simp add: sum_list_distinct_conv_sum_set)

lemma counts_sum:
  assumes "climbing edges"
  shows "sum_list (daily_counts edges moments) = length (filter (in_window edges) moments)"
proof (induction moments)
  case (Cons t moments)
  have "sum_list (daily_counts edges (t # moments)) =
      (\<Sum>i\<leftarrow>[0..<length edges - 1]. (if in_window edges t \<and> edge_index edges t = i then 1 else 0) +
        length (filter (\<lambda>t. in_window edges t \<and> edge_index edges t = i) moments))"
    unfolding daily_counts_def by (intro arg_cong[where f = sum_list] map_cong) auto
  also have "\<dots> = (\<Sum>i\<leftarrow>[0..<length edges - 1]. if in_window edges t \<and> edge_index edges t = i then 1 else 0) +
      sum_list (daily_counts edges moments)"
    by (simp add: sum_list_addf daily_counts_def)
  also have "(\<Sum>i\<leftarrow>[0..<length edges - 1]. if in_window edges t \<and> edge_index edges t = i then 1 else (0::nat)) =
      (if in_window edges t then 1 else 0)"
    using edge_index_less[OF assms, of t] by (auto simp: one_bucket)
  finally show ?case using Cons by simp
qed (simp add: daily_counts_def)

text \<open>
  A trends window that is accepted has at most 30 buckets over at most 30 days, the last of which holds
  the present moment, and the counts the database makes for it are a partition: bucket by bucket the
  rows between its two edges, and together every row of the window, once.
\<close>

theorem counts_partition_the_window:
  assumes "trends_query window now = Inr q"
  shows "length (daily_counts (tw_edges q) moments) \<le> 30 \<and> last (tw_edges q) - hd (tw_edges q) \<le> microseconds (30 * 86400) \<and>
    tw_edges q ! (length (daily_counts (tw_edges q) moments) - 1) \<le> now \<and> now < last (tw_edges q) \<and>
    (\<forall>i < length (daily_counts (tw_edges q) moments). tw_edges q ! i < tw_edges q ! Suc i \<and>
      daily_counts (tw_edges q) moments ! i = length (filter (\<lambda>t. tw_edges q ! i \<le> t \<and> t < tw_edges q ! Suc i) moments)) \<and>
    sum_list (daily_counts (tw_edges q) moments) = length (filter (\<lambda>t. hd (tw_edges q) \<le> t \<and> t < last (tw_edges q)) moments)"
proof -
  from trends_climbing[OF assms] have edges: "climbing (tw_edges q)" "length (tw_edges q) \<le> 31"
    "last (tw_edges q) - hd (tw_edges q) \<le> microseconds (30 * 86400)"
    "tw_edges q ! (length (tw_edges q) - 2) \<le> now" "now < last (tw_edges q)" by auto
  have "tw_edges q ! i < tw_edges q ! Suc i" if "i < length (tw_edges q) - 1" for i
    using edges(1) that by (simp add: climbing_def sorted_wrt_nth_less)
  moreover have "(\<lambda>t. hd (tw_edges q) \<le> t \<and> t < last (tw_edges q)) = in_window (tw_edges q)"
    by (simp add: fun_eq_iff in_window_def)
  ultimately show ?thesis
    using edges counts_sum[OF edges(1)] bucket_filter[OF edges(1)]
    by (simp add: daily_counts_def numeral_2_eq_2 cong: conj_cong)
qed

section \<open>Reconnect storms\<close>

text \<open>How many of the moments up to the \<open>k\<close>-th lie within the window that ends with it.\<close>

definition burst :: "timedelta \<Rightarrow> datetime list \<Rightarrow> nat \<Rightarrow> nat" where
  "burst window moments k = length (filter (\<lambda>t. moments ! k - window \<le> t) (take (Suc k) moments))"

lemma storm_scan_length [simp]: "length (storm_scan threshold window edges recent storms moments) = length storms"
  by (induction threshold window edges recent storms moments rule: storm_scan.induct) (simp_all add: Let_def)

lemma storm_scan_reference:
  assumes "sorted (seen @ moments)" "recent = filter (\<lambda>t. low \<le> t) seen" "\<forall>m \<in> set moments. low \<le> m - window"
    "0 \<le> window" "i < length storms"
  shows "storm_scan threshold window edges recent storms moments ! i \<longleftrightarrow> storms ! i \<or>
    (\<exists>k. length seen \<le> k \<and> k < length (seen @ moments) \<and> edge_index edges ((seen @ moments) ! k) = i \<and>
      threshold \<le> burst window (seen @ moments) k)"
  using assms
proof (induction moments arbitrary: seen recent low storms)
  case Nil
  then show ?case by auto
next
  case (Cons m moments)
  let ?recent = "filter (\<lambda>t. m - window \<le> t) recent @ [m]" and ?all = "seen @ m # moments"
  let ?storms = "if length ?recent < threshold then storms else storms[edge_index edges m := True]"
  have recent: "?recent = filter (\<lambda>t. m - window \<le> t) (seen @ [m])"
    using Cons.prems(2-4) by (auto simp: filter_filter intro: filter_cong)
  then have size: "length ?recent = burst window ?all (length seen)" by (simp add: burst_def nth_append)
  have later: "\<forall>x \<in> set moments. m - window \<le> x - window" using Cons.prems(1) by (auto simp: sorted_append)
  have "storm_scan threshold window edges ?recent ?storms moments ! i \<longleftrightarrow> ?storms ! i \<or>
    (\<exists>k. length (seen @ [m]) \<le> k \<and> k < length ((seen @ [m]) @ moments) \<and> edge_index edges (((seen @ [m]) @ moments) ! k) = i \<and>
      threshold \<le> burst window ((seen @ [m]) @ moments) k)"
    by (rule Cons.IH[OF _ recent later Cons.prems(4)]) (use Cons.prems in auto)
  moreover have "?storms ! i \<longleftrightarrow> storms ! i \<or> edge_index edges m = i \<and> threshold \<le> burst window ?all (length seen)"
    using Cons.prems(5) unfolding size by (cases "edge_index edges m = i") (auto simp: not_less)
  moreover have "(\<exists>k. length seen \<le> k \<and> P k) \<longleftrightarrow> P (length seen) \<or> (\<exists>k. Suc (length seen) \<le> k \<and> P k)" for P
    by (metis Suc_leD Suc_leI le_eq_less_or_eq)
  ultimately show ?case by (simp add: Let_def nth_append)
qed

text \<open>
  The one-pass scan that keeps only the recent disconnects flags a day exactly when one of its disconnects
  ends a window that holds at least as many disconnects as the threshold.
\<close>

theorem storms_are_bursts:
  assumes "0 \<le> window" "i < length edges - 1"
  shows "daily_reconnect_storms threshold window edges disconnects ! i \<longleftrightarrow>
    (\<exists>k < length (filter (in_window edges) disconnects).
      edge_index edges (sort (filter (in_window edges) disconnects) ! k) = i \<and>
      threshold \<le> burst window (sort (filter (in_window edges) disconnects)) k)"
proof -
  let ?ms = "sort (filter (in_window edges) disconnects)"
  have low: "\<forall>m \<in> set ?ms. Min (insert 0 ((\<lambda>m. m - window) ` set ?ms)) \<le> m - window" by simp
  from storm_scan_reference[of "[]" ?ms "[]", OF _ _ low assms(1), of i "replicate (length edges - 1) False"] assms(2)
  show ?thesis by (simp add: daily_reconnect_storms_def)
qed

section \<open>A day that passes\<close>

lemma newest_row_facts:
  "newest_row rs = Some r \<Longrightarrow> r \<in> set rs \<and> (\<forall>x \<in> set rs. eqr_as_of x \<le> eqr_as_of r)"
proof -
  have "fold (\<lambda>x best. if eqr_as_of best < eqr_as_of x then x else best) xs b \<in> insert b (set xs) \<and>
      (\<forall>x \<in> insert b (set xs). eqr_as_of x \<le> eqr_as_of (fold (\<lambda>x best. if eqr_as_of best < eqr_as_of x then x else best) xs b))" for xs b
  proof (induction xs arbitrary: b)
    case (Cons x xs)
    from Cons[of "if eqr_as_of b < eqr_as_of x then x else b"] show ?case by (auto split: if_splits)
  qed simp
  then show "newest_row rs = Some r \<Longrightarrow> ?thesis" by (cases rs) auto
qed

text \<open>Equity is present: the day's newest snapshot has a value and no stored price of a day or more.\<close>

definition equity_known :: "equity_db \<Rightarrow> datetime \<Rightarrow> datetime \<Rightarrow> bool" where
  "equity_known e start stop \<longleftrightarrow> (\<exists>r \<in> set (ed_snapshots e). start \<le> eqr_as_of r \<and> eqr_as_of r < stop \<and> eqr_equity r \<noteq> None \<and>
     (\<forall>x \<in> set (ed_snapshots e). start \<le> eqr_as_of x \<and> eqr_as_of x < stop \<longrightarrow> eqr_as_of x \<le> eqr_as_of r) \<and>
     (\<forall>h \<in> set (ed_holdings e). hr_snapshot_id h = eqr_snapshot_id r \<and> vh_basis (hr_holding h) = LAST_KNOWN \<longrightarrow>
        (case vh_age_seconds (hr_holding h) of None \<Rightarrow> True | Some a \<Rightarrow> a < 86400)))"

lemma equity_present:
  assumes "climbing edges" "i < length edges - 1" "snd (snd (snd (equity_field (daily_last_equity edges e ! i)))) = []"
  shows "equity_known e (edges ! i) (edges ! Suc i)"
proof -
  let ?rows = "filter (\<lambda>r. in_window edges (eqr_as_of r) \<and> edge_index edges (eqr_as_of r) = i) (ed_snapshots e)"
  obtain r where r: "newest_row ?rows = Some r" "eqr_equity r \<noteq> None" "\<forall>x \<in> set (held_of e (eqr_snapshot_id r)). \<not> too_old (snd x)"
    using assms(2,3) by (cases "newest_row ?rows")
      (auto simp: daily_last_equity_def equity_field_def list_ex_iff split_beta split: if_splits)
  have fresh_enough: "\<not> (vh_basis (hr_holding h) = LAST_KNOWN \<and> (case vh_age_seconds (hr_holding h) of None \<Rightarrow> False | Some a \<Rightarrow> 86400 \<le> a))"
    if "h \<in> set (ed_holdings e)" "hr_snapshot_id h = eqr_snapshot_id r" for h
  proof -
    have "(vh_symbol (hr_holding h), vh_basis (hr_holding h), vh_age_seconds (hr_holding h)) \<in> set (held_of e (eqr_snapshot_id r))"
      using that by (force simp: held_of_def)
    from bspec[OF r(3) this] show ?thesis
      by (cases "vh_age_seconds (hr_holding h)") (simp_all add: too_old_def LAST_PRICE_MAX_AGE_SECONDS_def)
  qed
  then have "case vh_age_seconds (hr_holding h) of None \<Rightarrow> True | Some a \<Rightarrow> a < 86400"
    if "h \<in> set (ed_holdings e)" "hr_snapshot_id h = eqr_snapshot_id r" "vh_basis (hr_holding h) = LAST_KNOWN" for h
    using that(3) fresh_enough[OF that(1,2)] by (cases "vh_age_seconds (hr_holding h)") simp_all
  then show ?thesis
    using newest_row_facts[OF r(1)] r(2) unfolding equity_known_def set_filter bucket_filter[OF assms(1,2)] by blast
qed

text \<open>Every full hour of the day up to now has a heartbeat.\<close>

lemma uptime_hours:
  assumes "uptime_of_day beats now start stop" "start \<le> t" "t + HEARTBEAT_STEP \<le> min stop now" "(t - start) mod HEARTBEAT_STEP = 0"
  shows "\<exists>b \<in> set beats. t \<le> b \<and> b < t + HEARTBEAT_STEP"
proof -
  let ?day_end = "min stop now" and ?i = "(t - start) div HEARTBEAT_STEP"
  have step: "0 < HEARTBEAT_STEP" by (simp add: HEARTBEAT_STEP_def microseconds_def)
  have t: "t = start + ?i * HEARTBEAT_STEP" using assms(4) by (metis add_0_right diff_add_cancel add.commute div_mult_mod_eq)
  have i: "0 \<le> ?i" "?i < (?day_end - start) div HEARTBEAT_STEP"
  proof -
    show "0 \<le> ?i" using assms(2) step by (simp add: pos_imp_zdiv_nonneg_iff)
    have "(?i + 1) * HEARTBEAT_STEP \<le> ?day_end - start" using assms(3) t by (simp add: algebra_simps)
    then have "?i + 1 \<le> (?day_end - start) div HEARTBEAT_STEP" using step by (metis div_mult_self_is_m less_irrefl zdiv_mono1 nonzero_mult_div_cancel_right)
    then show "?i < (?day_end - start) div HEARTBEAT_STEP" by simp
  qed
  then have "start < ?day_end" using step assms(2,3) by linarith
  then have every: "list_all (\<lambda>i. list_ex (\<lambda>t. start \<le> t \<and> t < ?day_end \<and> (t - start) div HEARTBEAT_STEP = int i) beats)
      [0..<nat ((?day_end - start) div HEARTBEAT_STEP)]"
    using assms(1) i unfolding uptime_of_day_def Let_def by auto
  have "nat ?i \<in> set [0..<nat ((?day_end - start) div HEARTBEAT_STEP)]" using i by auto
  from every[unfolded list_all_iff, rule_format, OF this]
  have "list_ex (\<lambda>b. start \<le> b \<and> b < ?day_end \<and> (b - start) div HEARTBEAT_STEP = int (nat ?i)) beats" .
  then obtain b where b: "b \<in> set beats" "(b - start) div HEARTBEAT_STEP = ?i" using i(1) by (auto simp: list_ex_iff)
  have "b - start = ?i * HEARTBEAT_STEP + (b - start) mod HEARTBEAT_STEP" using b(2) by (metis div_mult_mod_eq)
  then have "t \<le> b \<and> b < t + HEARTBEAT_STEP"
    using t pos_mod_bound[OF step, of "b - start"] pos_mod_sign[OF step, of "b - start"] by linarith
  then show ?thesis using b(1) by blast
qed

lemma day_lists:
  assumes "climbing edges" "i < length edges - 1"
  shows "daily_open_incidents edges rows ! i = length (filter (open_at (edges ! Suc i)) rows)"
    "uptime_ok edges beats now ! i = uptime_of_day (filter (in_window edges) beats) now (edges ! i) (edges ! Suc i)"
  using assms by (simp_all add: daily_open_incidents_def uptime_ok_def days_of_def nth_tl)

text \<open>
  The digest never passes a day on partial evidence. A day that is marked \<^verbatim>\<open>pass\<close> has a newest equity
  snapshot with a value in which no holding rests on a price of a day or more, a heartbeat in every full
  hour that has gone by, no incident left open at its end, and no burst of disconnects at the threshold.
\<close>

theorem day_passes_only_on_full_evidence:
  assumes "soak_read threshold window now s = (Inr (Inr view), s')" "0 \<le> window" "i < length (sk_days view)"
    "sy_status (sk_days view ! i) = ''pass''"
  shows "\<exists>start stop. start = sk_edges view ! i \<and> stop = sk_edges view ! Suc i \<and> start < stop \<and>
    equity_known (kd_equity s) start stop \<and>
    (\<forall>t. start \<le> t \<and> t + HEARTBEAT_STEP \<le> min stop now \<and> (t - start) mod HEARTBEAT_STEP = 0 \<longrightarrow>
      (\<exists>e \<in> set (kd_events s). sv_type e = ''heartbeat'' \<and> t \<le> sv_created_at e \<and> sv_created_at e < t + HEARTBEAT_STEP)) \<and>
    (\<forall>r \<in> set (kd_incidents s). inc_opened_at r < stop \<longrightarrow> (\<exists>t. inc_closed_at r = Some t \<and> t < stop)) \<and>
    (\<forall>k < length (filter (in_window (sk_edges view)) (events_of ''disconnect'' s)).
      edge_index (sk_edges view) (sort (filter (in_window (sk_edges view)) (events_of ''disconnect'' s)) ! k) = i \<longrightarrow>
      burst window (sort (filter (in_window (sk_edges view)) (events_of ''disconnect'' s))) k < threshold)"
proof -
  obtain query where query: "trends_query ''30d'' now = Inr query"
    using assms(1) by (cases "trends_query ''30d'' now") (auto simp: soak_read_def)
  let ?edges = "tw_edges query"
  have view: "sk_edges view = ?edges" "sk_days view = map (day_of threshold window now ?edges (s\<lparr>kd_failures := tl (kd_failures s)\<rparr>)) [0..<length ?edges - 1]"
    using assms(1) query by (auto simp: soak_read_def soak_call_def Let_def split: if_splits)
  have edges: "climbing ?edges" "i < length ?edges - 1" using trends_climbing[OF query] assms(3) view by simp_all
  have same: "storms_of threshold window ?edges (s\<lparr>kd_failures := f\<rparr>) = storms_of threshold window ?edges s"
    "events_of kind (s\<lparr>kd_failures := f\<rparr>) = events_of kind s" for f kind
    by (simp_all add: storms_of_def events_of_def)
  have missing: "missing_of (daily_last_equity ?edges (kd_equity s) ! i) (uptime_ok ?edges (events_of ''heartbeat'' s) now ! i)
      (daily_open_incidents ?edges (kd_incidents s) ! i) (storms_of threshold window ?edges s ! i) = []"
    using assms(4) edges(2) by (auto simp: view(2) day_of_def Let_def same split: if_splits)
  then have parts: "snd (snd (snd (equity_field (daily_last_equity ?edges (kd_equity s) ! i)))) = []"
    "uptime_ok ?edges (events_of ''heartbeat'' s) now ! i" "daily_open_incidents ?edges (kd_incidents s) ! i = 0"
    "\<not> storms_of threshold window ?edges s ! i"
    by (auto simp: missing_of_def split: if_splits)
  have "\<exists>e \<in> set (kd_events s). sv_type e = ''heartbeat'' \<and> t \<le> sv_created_at e \<and> sv_created_at e < t + HEARTBEAT_STEP"
    if "?edges ! i \<le> t" "t + HEARTBEAT_STEP \<le> min (?edges ! Suc i) now" "(t - ?edges ! i) mod HEARTBEAT_STEP = 0" for t
    using uptime_hours[OF parts(2)[unfolded day_lists(2)[OF edges]] that] by (auto simp: events_of_def)
  moreover have "\<exists>t. inc_closed_at r = Some t \<and> t < ?edges ! Suc i" if "r \<in> set (kd_incidents s)" "inc_opened_at r < ?edges ! Suc i" for r
    using parts(3)[unfolded day_lists(1)[OF edges]] that by (force simp: filter_empty_conv open_at_def not_le split: option.splits)
  moreover have "?edges ! i < ?edges ! Suc i" using edges by (simp add: climbing_def sorted_wrt_nth_less)
  ultimately show ?thesis
    using equity_present[OF edges parts(1)] parts(4)[unfolded storms_of_def storms_are_bursts[OF assms(2) edges(2)]]
    by (simp add: view(1) not_le)
qed

section \<open>The audit trail of a soak\<close>

text \<open>What a later state keeps of an incident: everything, but for the one time it is closed.\<close>

definition incident_kept :: "incident_row \<Rightarrow> incident_row \<Rightarrow> bool" where
  "incident_kept r t \<longleftrightarrow> inc_id t = inc_id r \<and> inc_cause t = inc_cause r \<and> inc_opened_by t = inc_opened_by r \<and>
     inc_opened_at t = inc_opened_at r \<and> (inc_closed_at r \<noteq> None \<longrightarrow> t = r)"

definition soak_grown :: "soak_db \<Rightarrow> soak_db \<Rightarrow> bool" where
  "soak_grown s t \<longleftrightarrow> (\<exists>more. kd_evidence t = kd_evidence s @ more) \<and> length (kd_incidents s) \<le> length (kd_incidents t) \<and>
     (\<forall>i < length (kd_incidents s). incident_kept (kd_incidents s ! i) (kd_incidents t ! i))"

lemma incident_kept_refl [simp]: "incident_kept r r"
  by (simp add: incident_kept_def)

lemma soak_grown_refl [simp]: "soak_grown s s"
  by (simp add: soak_grown_def)

lemma soak_grown_trans:
  assumes "soak_grown s t" "soak_grown t u"
  shows "soak_grown s u"
proof -
  have "incident_kept (kd_incidents s ! i) (kd_incidents u ! i)" if "i < length (kd_incidents s)" for i
  proof -
    have "incident_kept (kd_incidents s ! i) (kd_incidents t ! i)" "incident_kept (kd_incidents t ! i) (kd_incidents u ! i)"
      using assms that by (auto simp: soak_grown_def)
    then show ?thesis by (auto simp: incident_kept_def)
  qed
  then show ?thesis using assms by (force simp: soak_grown_def)
qed

lemma soak_call_grows:
  assumes "soak_grown (s\<lparr>kd_failures := tl (kd_failures s)\<rparr>) (snd (body (s\<lparr>kd_failures := tl (kd_failures s)\<rparr>)))"
  shows "soak_grown s (snd (soak_call message body s))"
proof -
  have skip: "soak_grown s (s\<lparr>kd_failures := f\<rparr>)" for f by (simp add: soak_grown_def)
  from soak_grown_trans[OF skip assms] show ?thesis unfolding soak_call_def Let_def by (simp add: skip)
qed

lemma put_grows: "soak_grown s (snd (put_evidence env c k st n role s))" "soak_grown s (snd (put_incident env cause role s))"
  unfolding put_evidence_def put_incident_def
  by (rule soak_call_grows, simp add: Let_def soak_grown_def nth_append)+

text \<open>Closing meets the row of its identifier, which is the only one with it.\<close>

definition one_row_each :: "soak_db \<Rightarrow> bool" where
  "one_row_each s \<longleftrightarrow> distinct (map inc_id (kd_incidents s))"

lemma close_grows:
  assumes "one_row_each s"
  shows "soak_grown s (snd (close_incident env i note role s))"
proof -
  have row: "soak_grown t (t\<lparr>kd_incidents := map (\<lambda>x. if inc_id x = i then r' else x) (kd_incidents t)\<rparr>)"
    if t: "one_row_each t" "List.find (\<lambda>r. inc_id r = i) (kd_incidents t) = Some r" "inc_closed_at r = None"
      and r': "r' = r\<lparr>inc_closed_note := a, inc_closed_by := b, inc_closed_at := c\<rparr>" for t r r' a b c
  proof -
    have "r \<in> set (kd_incidents t)" "inc_id r = i" using t(2) by (auto simp: find_Some_iff)
    then have "kd_incidents t ! k = r" if "k < length (kd_incidents t)" "inc_id (kd_incidents t ! k) = i" for k
      using t(1) that by (metis one_row_each_def distinct_map inj_onD nth_mem)
    then show ?thesis using t(3) by (auto simp: soak_grown_def incident_kept_def r')
  qed
  let ?t = "s\<lparr>kd_failures := tl (kd_failures s)\<rparr>"
  have "one_row_each ?t" using assms by (simp add: one_row_each_def)
  note closing = row[OF this _ _ refl]
  show ?thesis
    unfolding close_incident_def
  proof (rule soak_call_grows)
    show "soak_grown ?t (snd (case List.find (\<lambda>r. inc_id r = i) (kd_incidents ?t) of
         None \<Rightarrow> (Inr None, ?t)
       | Some r \<Rightarrow>
           if inc_closed_at r \<noteq> None then (Inr None, ?t)
           else let r' = r\<lparr>inc_closed_note := Some (ke_redact env note), inc_closed_by := Some role, inc_closed_at := Some (ke_now env)\<rparr> in
             (Inr (Some r'), ?t\<lparr>kd_incidents := map (\<lambda>x. if inc_id x = i then r' else x) (kd_incidents ?t)\<rparr>)))"
    proof (cases "List.find (\<lambda>r. inc_id r = i) (kd_incidents ?t)")
      case (Some r)
      from closing[OF Some] Some show ?thesis by (cases "inc_closed_at r = None") (simp_all only: option.case if_False if_True simp_thms Let_def snd_conv soak_grown_refl)
    qed simp
  qed
qed

text \<open>A refusal and a read leave the rows alone, so a write ends with the rows of its one call, if any.\<close>

definition same_rows :: "soak_db \<Rightarrow> soak_db \<Rightarrow> bool" where
  "same_rows s t \<longleftrightarrow> kd_evidence t = kd_evidence s \<and> kd_incidents t = kd_incidents s"

lemma same_rows_refl [simp]: "same_rows s s"
  by (simp add: same_rows_def)

lemma read_rows: "same_rows s (snd (soak_read_now env s))"
  by (auto simp: soak_read_now_def soak_service_def soak_read_def soak_call_def same_rows_def Let_def
      split: sum.split prod.split)

lemma refused_rows [simp]: "same_rows s (snd (soak_refused env code errors s))"
  "fst (soak_refused env code errors s) = Inr (SoakRefused code errors)"
  by (simp_all add: soak_refused_def read_rows)

lemma after_write_rows:
  assumes "\<And>x t. same_rows t (snd (answer x t))"
  shows "same_rows s (snd (after_write env m answer s)) \<or> same_rows (snd (m s)) (snd (after_write env m answer s))"
  using assms by (cases "m s"; cases "fst (m s)") (auto simp: after_write_def soak_service_def)

lemma after_write_recorded:
  assumes "after_write env m answer s = (Inr SoakRecorded, t)"
  obtains x u where "m s = (Inr x, u)" "answer x u = (Inr SoakRecorded, t)"
proof -
  have refused: "soak_refused env code errors u \<noteq> (Inr SoakRecorded, t)" for code errors u
    by (simp add: soak_refused_def)
  then show ?thesis using assms that
    by (cases "m s"; cases "fst (m s)") (auto simp: after_write_def soak_service_def split: if_splits)
qed

lemma soak_write_calls:
  assumes "soak_write web now revoked q env action form s = (r, t)"
  shows "same_rows s t \<or> (\<exists>c k st n role. same_rows (snd (put_evidence env c k st n role s)) t) \<or>
     (\<exists>cause role. same_rows (snd (put_incident env cause role s)) t) \<or>
     (\<exists>i n role. same_rows (snd (close_incident env i n role s)) t)"
proof (cases "authorize web now revoked True q")
  case (Inl e)
  then show ?thesis using assms by (simp add: soak_write_def)
next
  case (Inr role)
  note run = assms[unfolded soak_write_def Inr sum.case]
  have refused: "same_rows s u" if "soak_refused env code errors s = (r, u)" for code errors u
    using refused_rows(1)[of s env code errors] that by simp
  have wrote_row: "same_rows s t \<or> same_rows (snd (m s)) t" if "after_write env m (\<lambda>_. aret SoakRecorded) s = (r, t)"
    for m :: "(string, soak_db, evidence_row) act"
    using after_write_rows[of "\<lambda>_. aret SoakRecorded" s env m] that by simp
  have wrote_inc: "same_rows s t \<or> same_rows (snd (m s)) t" if "after_write env m (\<lambda>_. aret SoakRecorded) s = (r, t)"
    for m :: "(string, soak_db, incident_row) act"
    using after_write_rows[of "\<lambda>_. aret SoakRecorded" s env m] that by simp
  have closed: "same_rows s t \<or> same_rows (snd (m s)) t"
    if "after_write env m (\<lambda>closed. if closed = None then soak_refused env 422 errors else aret SoakRecorded) s = (r, t)"
    for m :: "(string, soak_db, incident_row option) act" and errors
    using after_write_rows[of "\<lambda>closed. if closed = None then soak_refused env 422 errors else aret SoakRecorded" s env m] that by simp
  show ?thesis
  proof (cases action)
    case RecordEvidence
    show ?thesis
    proof (cases "parse_evidence form = []")
      case True
      then have "after_write env (put_evidence env (form_text form ''criterion'') (form_text form ''kind'')
          (form_text form ''status'') (form_text form ''note'') role) (\<lambda>_. aret SoakRecorded) s = (r, t)"
        using run RecordEvidence by simp
      from wrote_row[OF this] show ?thesis by blast
    qed (use run RecordEvidence refused in simp)
  next
    case OpenIncident
    show ?thesis
    proof (cases "parse_incident_open form = []")
      case True
      then have "after_write env (put_incident env (form_text form ''cause'') role) (\<lambda>_. aret SoakRecorded) s = (r, t)"
        using run OpenIncident by simp
      from wrote_inc[OF this] show ?thesis by blast
    qed (use run OpenIncident refused in simp)
  next
    case CloseIncident
    obtain incident errors where parsed: "parse_incident_close (ke_uuid env) form = (incident, errors)" by force
    show ?thesis
    proof (cases "errors = []")
      case True
      then show ?thesis
      proof (cases incident)
        case (Some i)
        then have "after_write env (close_incident env i (form_text form ''note'') role)
            (\<lambda>closed. if closed = None then soak_refused env 422 [''No open incident matches that reference.''] else aret SoakRecorded) s = (r, t)"
          using run CloseIncident True parsed by simp
        from closed[OF this] show ?thesis by blast
      qed (use run CloseIncident parsed in simp)
    qed (use run CloseIncident parsed refused in simp)
  qed
qed

lemma soak_write_grows:
  assumes "one_row_each s"
  shows "soak_grown s (snd (soak_write web now revoked q env action form s))"
proof -
  obtain r t where run: "soak_write web now revoked q env action form s = (r, t)" by force
  have "soak_grown s t" if "same_rows u t" "soak_grown s u" for u using that by (simp add: soak_grown_def same_rows_def)
  then show ?thesis using soak_write_calls[OF run] put_grows close_grows[OF assms] soak_grown_refl unfolding run snd_conv by blast
qed

lemma soak_write_rows:
  assumes "one_row_each s" "ke_id env \<notin> inc_id ` set (kd_incidents s)"
  shows "one_row_each (snd (soak_write web now revoked q env action form s))"
proof -
  have "map inc_id (kd_incidents (snd (close_incident env i n role s))) = map inc_id (kd_incidents s)" for i n role
  proof (cases "List.find (\<lambda>r. inc_id r = i) (kd_incidents s)")
    case (Some r)
    then have "inc_id r = i" by (auto simp: find_Some_iff)
    then show ?thesis using Some by (auto simp: close_incident_def soak_call_def Let_def)
  qed (simp add: close_incident_def soak_call_def Let_def)
  then have "one_row_each (snd (close_incident env i n role s))" for i n role
    using assms(1) by (simp add: one_row_each_def)
  moreover have "one_row_each (snd (put_incident env cause role s))" for cause role
    using assms by (auto simp: put_incident_def soak_call_def one_row_each_def Let_def)
  moreover have "one_row_each (snd (put_evidence env c k st n role s))" for c k st n role
    using assms(1) by (auto simp: put_evidence_def soak_call_def one_row_each_def Let_def)
  moreover obtain r t where run: "soak_write web now revoked q env action form s = (r, t)" by force
  moreover have "one_row_each t" if "same_rows u t" "one_row_each u" for u
    using that by (simp add: one_row_each_def same_rows_def)
  ultimately show ?thesis using soak_write_calls[OF run] assms(1) unfolding run snd_conv by blast
qed

text \<open>Requests one after the other, each with a fresh identifier.\<close>

inductive soak_reaches :: "web_env \<Rightarrow> soak_db \<Rightarrow> soak_db \<Rightarrow> bool" for web s where
  soak_stays: "soak_reaches web s s"
| soak_steps: "soak_reaches web s t \<Longrightarrow> ke_id env \<notin> inc_id ` set (kd_incidents t) \<Longrightarrow>
    soak_reaches web s (snd (soak_write web now revoked q env action form t))"

text \<open>
  Whatever is sent to the soak console: an attestation is never changed or removed, and neither is an
  incident, which is closed at most once and keeps what was said when it was closed.
\<close>

theorem soak_records_are_kept:
  assumes "soak_reaches web s t" "distinct (map inc_id (kd_incidents s))"
  shows "(\<exists>more. kd_evidence t = kd_evidence s @ more) \<and> length (kd_incidents s) \<le> length (kd_incidents t) \<and>
    (\<forall>i < length (kd_incidents s). incident_kept (kd_incidents s ! i) (kd_incidents t ! i))"
proof -
  have "one_row_each t \<and> soak_grown s t" using assms
  proof (induction rule: soak_reaches.induct)
    case soak_stays
    then show ?case by (simp add: one_row_each_def)
  next
    case (soak_steps t env now revoked q action form)
    then show ?case using soak_write_grows soak_write_rows soak_grown_trans by blast
  qed
  then show ?thesis by (simp add: soak_grown_def)
qed

text \<open>
  Every write is an administrator's, and says what it must: a criterion of the list, a kind, a status and a
  note; a cause; or an open incident and a note.
\<close>

theorem soak_writes_are_attributed:
  assumes "soak_write web now revoked q env action form s = (Inr SoakRecorded, t)"
  shows "authorize web now revoked True q = Inr ''admin'' \<and>
    (case action of
       RecordEvidence \<Rightarrow> (\<exists>r. kd_evidence t = kd_evidence s @ [r] \<and> kd_incidents t = kd_incidents s \<and> evr_recorded_by r = ''admin'' \<and>
         evr_criterion r \<in> set CRITERIA \<and> evr_kind r \<in> set EVIDENCE_KINDS \<and> evr_status r \<in> {''pass'', ''fail''} \<and>
         (\<exists>note. evr_note r = ke_redact env note \<and> note \<noteq> [] \<and> length note \<le> 500))
     | OpenIncident \<Rightarrow> (\<exists>r cause. kd_incidents t = kd_incidents s @ [r] \<and> kd_evidence t = kd_evidence s \<and>
         inc_cause r = ke_redact env cause \<and> cause \<noteq> [] \<and> length cause \<le> 500 \<and> inc_closed_at r = None \<and> inc_opened_by r = ''admin'')
     | CloseIncident \<Rightarrow> (\<exists>r note. r \<in> set (kd_incidents s) \<and> inc_closed_at r = None \<and> kd_evidence t = kd_evidence s \<and>
         note \<noteq> [] \<and> length note \<le> 500 \<and>
         kd_incidents t = map (\<lambda>x. if inc_id x = inc_id r then r\<lparr>inc_closed_note := Some (ke_redact env note),
           inc_closed_by := Some ''admin'', inc_closed_at := Some (ke_now env)\<rparr> else x) (kd_incidents s)))"
proof -
  obtain role where role: "authorize web now revoked True q = Inr role"
    using assms by (cases "authorize web now revoked True q") (auto simp: soak_write_def)
  then have admin: "role = ''admin''" by (rule authorize_grants(2)) simp
  show ?thesis
  proof (cases action)
    case RecordEvidence
    then have form: "parse_evidence form = []" and run: "after_write env (put_evidence env (form_text form ''criterion'')
        (form_text form ''kind'') (form_text form ''status'') (form_text form ''note'') ''admin'') (\<lambda>_. aret SoakRecorded) s = (Inr SoakRecorded, t)"
      using assms role admin by (auto simp: soak_write_def soak_refused_def split: if_splits)
    from after_write_recorded[OF run] obtain x where "put_evidence env (form_text form ''criterion'') (form_text form ''kind'')
        (form_text form ''status'') (form_text form ''note'') ''admin'' s = (Inr x, t)" by auto
    then show ?thesis using RecordEvidence role admin form
      by (auto intro!: exI[of _ "form_text form ''note''"] simp: put_evidence_def soak_call_def Let_def parse_evidence_def note_errors_def EVIDENCE_STATUSES_def NOTE_LIMIT_def
          split: if_splits)
  next
    case OpenIncident
    then have form: "parse_incident_open form = []" and run: "after_write env (put_incident env (form_text form ''cause'') ''admin'')
        (\<lambda>_. aret SoakRecorded) s = (Inr SoakRecorded, t)"
      using assms role admin by (auto simp: soak_write_def soak_refused_def split: if_splits)
    from after_write_recorded[OF run] obtain x where "put_incident env (form_text form ''cause'') ''admin'' s = (Inr x, t)" by auto
    then show ?thesis using OpenIncident role admin form
      by (auto intro!: exI[of _ "form_text form ''cause''"] simp: put_incident_def soak_call_def Let_def parse_incident_open_def note_errors_def NOTE_LIMIT_def split: if_splits)
  next
    case CloseIncident
    then obtain i where i: "snd (parse_incident_close (ke_uuid env) form) = []"
      "after_write env (close_incident env i (form_text form ''note'') ''admin'')
         (\<lambda>closed. if closed = None then soak_refused env 422 [''No open incident matches that reference.''] else aret SoakRecorded) s =
       (Inr SoakRecorded, t)"
      using assms role admin by (auto simp: soak_write_def soak_refused_def split: if_splits prod.splits option.splits)
    obtain r' where r': "close_incident env i (form_text form ''note'') ''admin'' s = (Inr (Some r'), t)"
    proof (rule after_write_recorded[OF i(2)])
      fix x u assume x: "close_incident env i (form_text form ''note'') ''admin'' s = (Inr x, u)"
        "(if x = None then soak_refused env 422 [''No open incident matches that reference.''] else aret SoakRecorded) u = (Inr SoakRecorded, t)"
      show thesis
      proof (cases x)
        case None
        then show thesis using x(2) by (simp add: soak_refused_def)
      next
        case (Some r)
        then show thesis using x that by simp
      qed
    qed
    have said: "form_text form ''note'' \<noteq> [] \<and> length (form_text form ''note'') \<le> 500"
      using i(1) by (auto simp: parse_incident_close_def Let_def note_errors_def NOTE_LIMIT_def split: if_splits)
    from r' obtain r where "List.find (\<lambda>r. inc_id r = i) (kd_incidents s) = Some r" "inc_closed_at r = None"
      "kd_incidents t = map (\<lambda>x. if inc_id x = i then r\<lparr>inc_closed_note := Some (ke_redact env (form_text form ''note'')),
         inc_closed_by := Some ''admin'', inc_closed_at := Some (ke_now env)\<rparr> else x) (kd_incidents s)" "kd_evidence t = kd_evidence s"
      by (auto simp: close_incident_def soak_call_def Let_def split: if_splits option.splits)
    moreover from this(1) have "r \<in> set (kd_incidents s)" "inc_id r = i" by (auto simp: find_Some_iff)
    ultimately show ?thesis using role admin said unfolding CloseIncident soak_action.case by blast
  qed
qed

end
