(* ===== verification/Spec2Isabelle.thy ===== *)
theory Spec2Isabelle
  imports KillSwitch RiskEngine Ledger Simulated Broker OrderStore Execution Reconcile AuditTrail Trading Recovery
    Backtest MarketStream PortfolioStore Equity FillCost Guards CandleClient Coinbase Gemini Watchlist WatchFeed Controls Soak
begin

text \<open>
  \<^bold>\<open>A verification of the algorithmic crypto trader.\<close>

  The program receives market data, shows it to a strategy, puts every signal through an ordered list
  of risk gates, saves the order before it is sent, sends it to a broker, and compares what it
  believes to hold with what the broker reports. A persistent kill switch stops all of this when
  anything cannot be explained. This development models that path, from candles to reconciled
  balances, and proves what each part promises and what they promise together.

  \<^bold>\<open>Parts and how they interact.\<close>
  A trading cycle (\<^verbatim>\<open>app/trading.py\<close>) reads the flags of the kill switch, resolves pending orders
  through the execution engine, asks the strategy for a signal, records it in the audit store, asks
  \<^verbatim>\<open>risk.engine.evaluate\<close> and hands an approved request to the engine. The engine
  (\<^verbatim>\<open>execution/engine.py\<close>) writes to an order store before it calls a broker. The reconciler
  (\<^verbatim>\<open>portfolio/reconciliation.py\<close>, \<^verbatim>\<open>portfolio/scheduler.py\<close>) projects the fills with the ledger
  (\<^verbatim>\<open>portfolio/ledger.py\<close>), compares and trips the switch. The recovery (\<^verbatim>\<open>app/recovery.py\<close>) does
  the same once at a restart. Market data comes from a stream with gap filling (\<^verbatim>\<open>data/\<close>); the
  backtester (\<^verbatim>\<open>strategy/\<close>) runs strategies over stored candles.

  \<^bold>\<open>Theories.\<close>
  \<^item> \<open>Prelude\<close>: results, dictionaries, actions (state that survives an exception) with their triples,
    text and times. \<open>Rounding\<close>: \<^verbatim>\<open>Decimal\<close> and IEEE arithmetic as exact arithmetic followed by one
    rounding, under the locale \<open>rounding\<close>. \<open>Models\<close>: \<^verbatim>\<open>core/models.py\<close>.
  \<^item> \<open>KillSwitch\<close>: \<^verbatim>\<open>risk/kill_switch.py\<close> and its journal. The severity drops only by a manual
    re-arm, a restart restores the state, no transition is lost, a re-arm is recorded or refused,
    and the external flags take the worst state. \<open>ks_reach\<close> is the relation of reachable states.
  \<^item> \<open>RiskEngine\<close>: \<^verbatim>\<open>risk/engine.py\<close>, one definition per gate. An approval implies every limit, an
    unknown input is refused, a refusal names the first failing gate, a sell ignores the exposure
    limits, and the call returns on amounts of realistic size.
  \<^item> \<open>Ledger\<close>: \<^verbatim>\<open>portfolio/ledger.py\<close> and \<^verbatim>\<open>portfolio/valuation.py\<close>. The projection is the replay of
    the settled movements, hides no shortfall, and rounds toward zero.
  \<^item> \<open>Simulated\<close>: \<^verbatim>\<open>brokers/simulated.py\<close> with its fault plan; \<open>sim_reachable\<close> is the relation of
    reachable brokers. Orders match fills, resubmission is idempotent, and the accounting refines
    the ledger; two defects are proved. \<open>Broker\<close>: the interface and the contract
    \<open>broker_contract\<close>, interpreted on the simulated broker.
  \<^item> \<open>OrderStore\<close>: the store protocol, its memory and database implementations, and the contract
    \<open>order_store\<close> with an interpretation for each. \<open>Execution\<close>: the engine and the operator's
    closure of an order over any store (\<open>engine_store\<close>) and any broker (\<open>execution\<close>), interpreted on
    the database and the simulated broker: persisted before sent, settled only with evidence, never
    resent, closed only when the venue has nothing.
  \<^item> \<open>Reconcile\<close>: reconciliation, its description of differences and the scheduled reconciler: clean
    exactly when the two sides agree, clean or halted whatever raises, and a correction is adopted
    once. \<open>Recovery\<close>: restart recovery settles or halts.
  \<^item> \<open>PortfolioStore\<close>: \<^verbatim>\<open>portfolio/store.py\<close> with the contract \<open>portfolio_store\<close>, interpreted on the
    database: what a reconciliation saved is what a restart starts from. \<open>Equity\<close>:
    \<^verbatim>\<open>portfolio/equity.py\<close> and \<^verbatim>\<open>portfolio/day_pnl.py\<close>: a recorded equity counts every holding or is
    unknown, sampling never raises and keeps the newest prices, and a day's change needs two priced
    snapshots. \<open>FillCost\<close>: \<^verbatim>\<open>portfolio/fill_cost.py\<close> and \<^verbatim>\<open>portfolio/explain.py\<close>: the two readings of
    a fee cannot disagree, and an asset that is not explained did not move.
  \<^item> \<open>AuditTrail\<close>: signal and decision records with the contract \<open>audit_store\<close>, interpreted on the
    memory and the database store. \<open>Trading\<close>: the cycle and the assembly of risk inputs: every
    order is linked to a recorded signal and decision, a switch that is not running lets no entry
    through, blocked cycles halt in time, and the loss limits survive restarts and start again with
    the day.
  \<^item> \<open>Backtest\<close>: \<^verbatim>\<open>strategy/backtest.py\<close> and \<^verbatim>\<open>strategy/reference.py\<close>: no lookahead (a bar is
    decided without any later bar, and filled with nothing of the next one but its opening), and the
    holdout stays sealed.
  \<^item> \<open>MarketData\<close>: validation, candle stores (contract \<open>candle_store\<close>, interpreted on both) and
    backfill: an accepted series is gapless, a backfill that returns leaves no gap. \<open>MarketStream\<close>:
    the websocket ingestor and its reconnect loop: every bucket is delivered once and in order.
  \<^item> \<open>Guards\<close>: \<^verbatim>\<open>core/resilience.py\<close>, \<^verbatim>\<open>core/guards.py\<close> and \<^verbatim>\<open>core/reconnect.py\<close>: the bucket stays
    within its capacity, an open circuit (\<open>cb_reachable\<close> is its reachability relation) admits nothing
    before its timeout, and live trading needs the scope and the confirmation.
  \<^item> \<open>Payload\<close>: decoded JSON and the library functions the readers use. \<open>ProviderHttp\<close>:
    \<^verbatim>\<open>brokers/http.py\<close>, the calls both adapters share, over a network that is an arbitrary function
    (retries, rate limiter, circuit breaker, token refresh). \<open>CandleClient\<close>: \<^verbatim>\<open>data/coinbase.py\<close>, the
    public client that the backfill uses.
  \<^item> \<open>Coinbase\<close>: \<^verbatim>\<open>brokers/coinbase.py\<close> over a venue whose answers are arbitrary: a submission changes
    nothing at the venue but creating its own approved order, an unresolved order is sent again only
    when a lookup of the same call has not found it (\<open>found_absent\<close>) or the venue itself calls its status
    unknown, an order is reported settled only as the venue reported this very order, and a replacement
    waits for the end of the original. \<open>Gemini\<close>: \<^verbatim>\<open>brokers/gemini.py\<close>: only the sandbox,
    rising nonces, no guess between orders that share an identifier, market orders inside their
    collar.
  \<^item> \<open>Watchlist\<close>: \<^verbatim>\<open>data/watchlist.py\<close> and the handlers of \<^verbatim>\<open>api/watchlist_routes.py\<close> that change the
    list, with the contract \<open>coin_list\<close>: the list is what its audit events tell, and a coin gets on it
    only when Coinbase, asked for it, called it an online, enabled spot product. \<open>WatchFeed\<close>: \<^verbatim>\<open>app/watch_feed.py\<close>, \<^verbatim>\<open>data/feed_setting.py\<close> and the
    handler that turns the feed on and off, over any store under the contract \<open>candle_archive\<close>: the
    feed writes only rows of watched coins that are not traded, asks a bounded number of times, backs
    off from a failing coin, and runs exactly as saved.
  \<^item> \<open>Controls\<close>: the control surface of \<^verbatim>\<open>api/routes.py\<close> with \<^verbatim>\<open>api/controls.py\<close> and the alerts of
    \<^verbatim>\<open>api/operator.py\<close> and \<^verbatim>\<open>api/alerts.py\<close>: authentication, sessions and every handler that changes
    state, over the switch, the engine and the store. Only an administrator's complete re-arm lowers
    the switch, only an administrator's close settles an order, a session that was signed out stays
    refused, and alerts are kept and accounted for. \<open>Soak\<close>: \<^verbatim>\<open>api/soak.py\<close> with the windows of
    \<^verbatim>\<open>api/trends.py\<close> and \<^verbatim>\<open>api/soak_routes.py\<close>: a day of the digest passes only on full evidence, and
    what an administrator attests is kept, attributed and closed once.

  \<^bold>\<open>State and operations.\<close>
  An object is a record, a method is an action from the object's state to an exception or a value
  together with the state left behind, so that what an exception leaves half done is part of every
  statement. Collaborators that are protocols in the source (broker, stores, strategy, alerts,
  callbacks, candle client) are records of operations, and the results hold for all of them or under
  the named contract of a locale. Failing files, databases and callbacks are inputs: lists of
  outcomes, call by call, or outcome functions.

  \<^bold>\<open>Bounds and termination.\<close>
  Loops are structural recursions over lists, except the pages of the backfill, of the candle client
  and of the watch-only feed and the starts of the walk-forward windows, whose measures are the
  distance to the end. The only counters that bound a loop are the ones of the source: the attempts
  of a call, the pages of a search and of a listing; running out of them is an error there as here.
  The waiting loop of the rate limiter runs over its clock readings, a reconnect loop over the finite
  list of connections the network offers. Python's integers are
  \<open>int\<close> and \<open>nat\<close>; amounts are rationals rounded to 28 digits after each operation. Two
  statements carry a bound: \<open>evaluate_returns\<close> (quantity and price below \<open>10\<^sup>2\<^sup>8\<close> increments, beyond
  which the decimal remainder of the source raises) and \<open>fee_readings_never_disagree\<close> (all amounts
  together below \<open>10\<^sup>2\<^sup>8\<close> units, so that sums of quantities are exact).

  \<^bold>\<open>Not modelled.\<close>
  The dashboard and the views of the HTTP interface (\<^verbatim>\<open>api/\<close> but for the handlers named above), which
  read and display; the product catalogues, the replay archives and the process assembly in \<^verbatim>\<open>app/\<close>
  apart from the cycle, the recovery and the watch-only feed; table declarations and migrations; the
  polling loops and websocket connections of the adapters; log lines and redaction; probes and tools.
  JSON decoding, the parsing and printing of numbers, cryptography and identifiers are parameters.
  Threads do not interleave inside a method because the methods hold their object's lock; asyncio
  interleaving between components is not modelled.
\<close>

end
